(* ===== verification/Prelude.thy ===== *)
theory Prelude
  imports Main "HOL-Library.Sublist"
begin

text \<open>
  The shared vocabulary of the development: Python strings, integers and the generic list
  lemmas the component theories use.

  A Python \<open>str\<close> is modelled as a \<^typ>\<open>string\<close>, one \<^typ>\<open>char\<close> per code point, so the model
  covers the code points below 256; on that range \<open>py_lower\<close>, \<open>py_is_space\<close> and the functions
  built from them agree with \<open>str.lower\<close>, \<open>str.isspace\<close>, \<open>str.strip\<close>, \<open>str.split\<close>,
  \<open>str.splitlines\<close> and \<open>int(str)\<close>. A character outside ASCII is written \<open>CHR 0xE3\<close>.
\<close>

named_theorems py_str \<open>facts about the Python string operations\<close>

section \<open>Characters\<close>

definition py_is_space :: "char \<Rightarrow> bool" where
  "py_is_space c \<longleftrightarrow>
     (let n = (of_char c :: nat)
      in (9 \<le> n \<and> n \<le> 13) \<or> (28 \<le> n \<and> n \<le> 32) \<or> n = 133 \<or> n = 160)"

definition py_lower_char :: "char \<Rightarrow> char" where
  "py_lower_char c =
     (let n = (of_char c :: nat)
      in if (65 \<le> n \<and> n \<le> 90) \<or> (192 \<le> n \<and> n \<le> 222 \<and> n \<noteq> 215) then char_of (n + 32) else c)"

definition py_is_digit :: "char \<Rightarrow> bool" where
  "py_is_digit c \<longleftrightarrow> (let n = (of_char c :: nat) in 48 \<le> n \<and> n \<le> 57)"

definition digit_val :: "char \<Rightarrow> nat" where
  "digit_val c = of_char c - 48"

definition digit_char :: "nat \<Rightarrow> char" where
  "digit_char d = ''0123456789'' ! d"

lemma of_char_lt_256: "(of_char c :: nat) < 256"
  using of_char_mod_256 [of c, where ?'a = nat] by (metis mod_less_divisor zero_less_numeral)

lemma py_lower_char_idem [simp]: "py_lower_char (py_lower_char c) = py_lower_char c"
proof -
  let ?n = "of_char c :: nat"
  show ?thesis
  proof (cases "(65 \<le> ?n \<and> ?n \<le> 90) \<or> (192 \<le> ?n \<and> ?n \<le> 222 \<and> ?n \<noteq> 215)")
    case True
    then have "?n + 32 < 256" by auto
    then have "(of_char (char_of (?n + 32) :: char) :: nat) = ?n + 32"
      by (simp add: of_char_of)
    with True show ?thesis by (auto simp: py_lower_char_def Let_def)
  next
    case False
    then have "py_lower_char c = c" unfolding py_lower_char_def Let_def by (rule if_not_P)
    then show ?thesis by simp
  qed
qed

lemma py_is_space_lower [simp]: "py_is_space (py_lower_char c) = py_is_space c"
proof -
  let ?n = "of_char c :: nat"
  show ?thesis
  proof (cases "(65 \<le> ?n \<and> ?n \<le> 90) \<or> (192 \<le> ?n \<and> ?n \<le> 222 \<and> ?n \<noteq> 215)")
    case True
    then have "?n + 32 < 256" by auto
    then have "(of_char (char_of (?n + 32) :: char) :: nat) = ?n + 32"
      by (simp add: of_char_of)
    with True show ?thesis by (auto simp: py_lower_char_def py_is_space_def Let_def)
  next
    case False
    then have "py_lower_char c = c" unfolding py_lower_char_def Let_def by (rule if_not_P)
    then show ?thesis by simp
  qed
qed

lemma less_ten_cases:
  "(d :: nat) < 10 \<Longrightarrow> d = 0 \<or> d = 1 \<or> d = 2 \<or> d = 3 \<or> d = 4 \<or> d = 5 \<or> d = 6 \<or> d = 7 \<or> d = 8 \<or> d = 9"
  by arith

lemma digit_char_props [py_str]:
  assumes "d < 10"
  shows "py_is_digit (digit_char d)" "digit_val (digit_char d) = d"
    "\<not> py_is_space (digit_char d)" "digit_char d \<noteq> CHR ''-''" "digit_char d \<noteq> CHR ''+''"
    "digit_char d \<noteq> CHR '':''" "digit_char d \<noteq> CHR ''_''"
  using less_ten_cases [OF assms]
  by (elim disjE; simp add: digit_char_def py_is_digit_def digit_val_def py_is_space_def)+

section \<open>Lower case, stripping, substring test\<close>

definition py_lower :: "string \<Rightarrow> string" where
  "py_lower s = map py_lower_char s"

definition py_lstrip :: "string \<Rightarrow> string" where
  "py_lstrip s = dropWhile py_is_space s"

definition py_rstrip :: "string \<Rightarrow> string" where
  "py_rstrip s = rev (dropWhile py_is_space (rev s))"

definition py_strip :: "string \<Rightarrow> string" where
  "py_strip s = py_rstrip (py_lstrip s)"

text \<open>\<open>sub in s\<close>.\<close>

fun py_in :: "string \<Rightarrow> string \<Rightarrow> bool" where
  "py_in sub [] \<longleftrightarrow> sub = []"
| "py_in sub (c # s) \<longleftrightarrow> prefix sub (c # s) \<or> py_in sub s"

definition any_in :: "string list \<Rightarrow> string \<Rightarrow> bool" where
  "any_in markers s \<longleftrightarrow> list_ex (\<lambda>m. py_in m s) markers"

text \<open>\<open>str(value or '')\<close> and the truth value of an optional string.\<close>

definition or_empty :: "string option \<Rightarrow> string" where
  "or_empty v = (case v of None \<Rightarrow> [] | Some s \<Rightarrow> s)"

definition norm_text :: "string \<Rightarrow> string" where
  "norm_text s = py_lower (py_strip s)"

lemma py_in_sublist: "py_in sub s \<longleftrightarrow> sublist sub s"
  by (induction s) (auto simp: sublist_Cons_right)

lemma py_in_append [py_str]: "py_in sub (a @ sub @ b)"
  by (auto simp: py_in_sublist)

lemma py_in_prefixI [py_str]: "py_in sub (sub @ b)"
  using py_in_append [of sub "[]" b] by simp

lemma py_in_mono [py_str]: "py_in sub s \<Longrightarrow> py_in sub (a @ s @ b)"
  by (metis py_in_sublist sublist_append_leftI sublist_append_rightI sublist_order.order.trans)

lemma py_in_appendL [py_str]: "py_in sub s \<Longrightarrow> py_in sub (s @ b)"
  using py_in_mono [of sub s "[]" b] by simp

lemma py_in_appendR [py_str]: "py_in sub s \<Longrightarrow> py_in sub (a @ s)"
  using py_in_mono [of sub s a "[]"] by simp

lemma py_in_trans: "py_in a b \<Longrightarrow> py_in b c \<Longrightarrow> py_in a c"
  by (auto simp: py_in_sublist intro: sublist_order.order.trans)

lemma py_in_refl [simp]: "py_in s s"
  by (simp add: py_in_sublist)

lemma py_lower_append [simp]: "py_lower (a @ b) = py_lower a @ py_lower b"
  by (simp add: py_lower_def)

lemma py_lower_Nil [simp]: "py_lower [] = []" and py_lower_empty_iff [simp]: "py_lower s = [] \<longleftrightarrow> s = []"
  by (simp_all add: py_lower_def)

lemma py_lower_idem [simp]: "py_lower (py_lower s) = py_lower s"
  by (simp add: py_lower_def)

lemma py_in_lower: "py_in sub s \<Longrightarrow> py_in (py_lower sub) (py_lower s)"
  by (auto simp: py_in_sublist sublist_def) blast

lemma py_rstrip_append_nonspace:
  "\<not> py_is_space c \<Longrightarrow> py_rstrip (a @ c # b) = a @ c # py_rstrip b"
proof -
  assume c: "\<not> py_is_space c"
  have "dropWhile py_is_space (rev (a @ c # b)) = dropWhile py_is_space (rev b) @ c # rev a"
    using c by (cases "list_all py_is_space (rev b)")
      (auto simp: list_all_iff dropWhile_append1 dropWhile_append2 dropWhile_append3)
  then show ?thesis by (simp add: py_rstrip_def)
qed

lemma py_rstrip_idem [simp]: "py_rstrip (py_rstrip s) = py_rstrip s"
  by (simp add: py_rstrip_def)

lemma py_strip_Nil [simp]: "py_strip [] = []"
  by (simp add: py_strip_def py_lstrip_def py_rstrip_def)

lemma py_strip_id: "s = [] \<or> (\<not> py_is_space (hd s) \<and> \<not> py_is_space (last s)) \<Longrightarrow> py_strip s = s"
proof (cases "s = []")
  case False
  assume "s = [] \<or> (\<not> py_is_space (hd s) \<and> \<not> py_is_space (last s))"
  with False have a: "\<not> py_is_space (hd s)" "\<not> py_is_space (last s)" by auto
  from a(1) have "dropWhile py_is_space s = s" by (cases s) auto
  moreover from False a(2) have "dropWhile py_is_space (rev s) = rev s"
    by (cases "rev s") (auto simp: hd_rev [symmetric])
  ultimately show ?thesis by (simp add: py_strip_def py_lstrip_def py_rstrip_def)
qed simp

lemma py_rstrip_decomp: "\<exists>w. s = py_rstrip s @ w \<and> list_all py_is_space w"
proof -
  have "rev s = takeWhile py_is_space (rev s) @ dropWhile py_is_space (rev s)" by simp
  then have "s = rev (dropWhile py_is_space (rev s)) @ rev (takeWhile py_is_space (rev s))"
    by (metis rev_append rev_rev_ident)
  moreover have "list_all py_is_space (rev (takeWhile py_is_space (rev s)))"
    by (auto simp: list_all_iff dest: set_takeWhileD)
  ultimately show ?thesis unfolding py_rstrip_def by blast
qed

section \<open>Splitting and joining\<close>

text \<open>\<open>s.split(sep)\<close> for a one-character separator: never empty.\<close>

fun py_split :: "char \<Rightarrow> string \<Rightarrow> string list" where
  "py_split sep [] = [[]]"
| "py_split sep (c # s) =
     (if c = sep then [] # py_split sep s
      else (case py_split sep s of [] \<Rightarrow> [[c]] | w # ws \<Rightarrow> (c # w) # ws))"

text \<open>\<open>sep.join(parts)\<close> for a one-character separator.\<close>

fun py_join :: "char \<Rightarrow> string list \<Rightarrow> string" where
  "py_join sep [] = []"
| "py_join sep [w] = w"
| "py_join sep (w # ws) = w @ sep # py_join sep ws"

text \<open>\<open>s.split()\<close>: the maximal runs of characters that are not white space.\<close>

fun py_words_aux :: "string \<Rightarrow> string \<Rightarrow> string list" where
  "py_words_aux acc [] = (if acc = [] then [] else [rev acc])"
| "py_words_aux acc (c # s) =
     (if py_is_space c then (if acc = [] then py_words_aux [] s else rev acc # py_words_aux [] s)
      else py_words_aux (c # acc) s)"

definition py_words :: "string \<Rightarrow> string list" where
  "py_words s = py_words_aux [] s"

lemma py_split_nonempty [simp]: "py_split sep s \<noteq> []"
  by (induction s) (auto split: list.splits)

lemma py_split_no_sep: "w \<in> set (py_split sep s) \<Longrightarrow> sep \<notin> set w"
  by (induction s arbitrary: w) (fastforce split: if_splits list.splits)+

lemma py_split_chars: "w \<in> set (py_split sep s) \<Longrightarrow> set w \<subseteq> set s"
  by (induction s arbitrary: w) (fastforce split: if_splits list.splits)+

lemma py_split_absent: "sep \<notin> set w \<Longrightarrow> py_split sep w = [w]"
  by (induction w) auto

lemma py_split_append_sep: "sep \<notin> set w \<Longrightarrow> py_split sep (w @ sep # s) = w # py_split sep s"
  by (induction w) auto

lemma py_split_join [py_str]:
  "ws \<noteq> [] \<Longrightarrow> list_all (\<lambda>w. sep \<notin> set w) ws \<Longrightarrow> py_split sep (py_join sep ws) = ws"
  by (induction sep ws rule: py_join.induct) (auto simp: py_split_absent py_split_append_sep)

lemma py_join_split [py_str]: "py_join sep (py_split sep s) = s"
proof (induction s)
  case (Cons c s)
  then show ?case
    by (cases "py_split sep s" rule: list.exhaust; cases "tl (py_split sep s)")
      (auto split: list.splits)
qed simp

section \<open>Integers as text\<close>

text \<open>\<open>str(n)\<close> and the parsing of \<open>int(text)\<close>: surrounding white space, a sign, digits with
  single underscores between them; \<^const>\<open>None\<close> is the \<open>ValueError\<close>.\<close>

fun show_nat :: "nat \<Rightarrow> string" where
  "show_nat n = (if n < 10 then [digit_char n] else show_nat (n div 10) @ [digit_char (n mod 10)])"

declare show_nat.simps [simp del]

definition show_int :: "int \<Rightarrow> string" where
  "show_int i = (if i < 0 then CHR ''-'' # show_nat (nat (- i)) else show_nat (nat i))"

definition pad2 :: "int \<Rightarrow> string" where
  "pad2 i = (if 0 \<le> i \<and> i < 10 then CHR ''0'' # show_int i else show_int i)"

fun digits_acc :: "nat \<Rightarrow> bool \<Rightarrow> string \<Rightarrow> nat option" where
  "digits_acc n prev [] = (if prev then Some n else None)"
| "digits_acc n prev (c # s) =
     (if py_is_digit c then digits_acc (n * 10 + digit_val c) True s
      else if c = CHR ''_'' \<and> prev then digits_acc n False s else None)"

definition py_int :: "string \<Rightarrow> int option" where
  "py_int s =
     (case py_strip s of
        [] \<Rightarrow> None
      | c # t \<Rightarrow>
          if c = CHR ''-'' then map_option (\<lambda>n. - int n) (digits_acc 0 False t)
          else if c = CHR ''+'' then map_option int (digits_acc 0 False t)
          else map_option int (digits_acc 0 False (c # t)))"

lemma show_nat_digits: "list_all (\<lambda>c. \<exists>d < 10. c = digit_char d) (show_nat n)"
proof (induction n rule: show_nat.induct)
  case (1 n)
  show ?case
  proof (cases "n < 10")
    case True
    then show ?thesis by (subst show_nat.simps) auto
  next
    case False
    with 1 have "list_all (\<lambda>c. \<exists>d < 10. c = digit_char d) (show_nat (n div 10))" by simp
    moreover have "\<exists>d < 10. digit_char (n mod 10) = digit_char d"
      by (rule exI [of _ "n mod 10"]) simp
    ultimately show ?thesis using False by (subst show_nat.simps) simp
  qed
qed

lemma show_nat_nonempty [simp]: "show_nat n \<noteq> []"
  by (subst show_nat.simps) simp

lemma digits_acc_snoc:
  assumes "digits_acc n prev s = Some m" and "d < 10"
  shows "digits_acc n prev (s @ [digit_char d]) = Some (m * 10 + d)"
  using assms(1)
proof (induction s arbitrary: n prev)
  case Nil
  then show ?case using assms(2) by (auto simp: digit_char_props split: if_splits)
next
  case (Cons c s)
  then show ?case by (auto split: if_splits)
qed

lemma digits_acc_show_nat: "digits_acc 0 False (show_nat n) = Some n"
proof (induction n rule: show_nat.induct)
  case (1 n)
  show ?case
  proof (cases "n < 10")
    case True
    then show ?thesis by (subst show_nat.simps) (simp add: digit_char_props)
  next
    case False
    with 1 have "digits_acc 0 False (show_nat (n div 10) @ [digit_char (n mod 10)])
        = Some (n div 10 * 10 + n mod 10)"
      by (intro digits_acc_snoc) auto
    with False show ?thesis by (subst show_nat.simps) simp
  qed
qed

lemma py_strip_no_space: "list_all (\<lambda>c. \<not> py_is_space c) s \<Longrightarrow> py_strip s = s"
proof -
  assume a: "list_all (\<lambda>c. \<not> py_is_space c) s"
  then have "py_lstrip s = s" by (cases s) (auto simp: py_lstrip_def)
  moreover from a have "dropWhile py_is_space (rev s) = rev s"
    by (cases "rev s") (auto simp: list_all_iff dest: arg_cong [where f = set])
  ultimately show ?thesis by (simp add: py_strip_def py_rstrip_def)
qed

lemma show_int_no_space: "list_all (\<lambda>c. \<not> py_is_space c) (show_int i)"
proof -
  have *: "list_all (\<lambda>c. \<not> py_is_space c) (show_nat n)" for n
    using show_nat_digits [of n] by (auto simp: list_all_iff digit_char_props)
  have "\<not> py_is_space CHR ''-''" by (simp add: py_is_space_def)
  then show ?thesis by (simp add: show_int_def *)
qed

lemma py_int_show_int [py_str]: "py_int (show_int i) = Some i"
proof -
  have strip: "py_strip (show_int i) = show_int i"
    by (intro py_strip_no_space show_int_no_space)
  show ?thesis
  proof (cases "i < 0")
    case True
    then show ?thesis using strip by (simp add: py_int_def show_int_def digits_acc_show_nat)
  next
    case False
    obtain c t where ct: "show_nat (nat i) = c # t" by (cases "show_nat (nat i)") auto
    with show_nat_digits [of "nat i"] obtain d where "d < 10" "c = digit_char d" by auto
    then have "c \<noteq> CHR ''-''" "c \<noteq> CHR ''+''" by (auto simp: digit_char_props)
    with False strip ct digits_acc_show_nat [of "nat i"] show ?thesis
      by (simp add: py_int_def show_int_def del: digits_acc.simps)
  qed
qed

lemma show_int_no_colon [py_str]: "CHR '':'' \<notin> set (show_int i)"
proof -
  have "CHR '':'' \<notin> set (show_nat n)" for n
    using show_nat_digits [of n] digit_char_props(6) by (fastforce simp: list_all_iff)
  then show ?thesis by (simp add: show_int_def)
qed

section \<open>Bounds\<close>

text \<open>The clamping that \<open>max(lo, min(hi, x))\<close> performs.\<close>

definition clamp :: "int \<Rightarrow> int \<Rightarrow> int \<Rightarrow> int" where
  "clamp lo hi x = max lo (min hi x)"

lemma clamp_bounds [simp]: "lo \<le> hi \<Longrightarrow> lo \<le> clamp lo hi x" "lo \<le> hi \<Longrightarrow> clamp lo hi x \<le> hi"
  by (auto simp: clamp_def)

lemma clamp_id: "lo \<le> x \<Longrightarrow> x \<le> hi \<Longrightarrow> clamp lo hi x = x"
  by (auto simp: clamp_def)

section \<open>Distinct elements in the order of their first occurrence\<close>

text \<open>\<open>list(dict.fromkeys(xs))\<close>, and the keys of a \<open>dict\<close> filled in the order of \<open>xs\<close>.\<close>

definition from_keys :: "'a list \<Rightarrow> 'a list" where
  "from_keys xs = rev (remdups (rev xs))"

lemma set_from_keys [simp]: "set (from_keys xs) = set xs" and distinct_from_keys [simp]: "distinct (from_keys xs)"
  by (simp_all add: from_keys_def)

lemma from_keys_Nil_iff [simp]: "from_keys xs = [] \<longleftrightarrow> xs = []"
  by (simp add: from_keys_def)

lemma from_keys_distinct: "distinct xs \<Longrightarrow> from_keys xs = xs"
  by (simp add: from_keys_def distinct_remdups_id)

lemma from_keys_length: "length (from_keys xs) = card (set xs)"
  by (simp add: from_keys_def length_remdups_card_conv)

text \<open>\<open>Counter(xs).most_common(1)[0][0]\<close>: the first of the most frequent ones.\<close>

definition most_common :: "'a list \<Rightarrow> 'a" where
  "most_common xs =
     (let ks = from_keys xs
      in foldl (\<lambda>best k. if count_list xs k > count_list xs best then k else best) (hd ks) (tl ks))"

lemma foldl_best:
  "foldl (\<lambda>best k. if f k > f best then k else best) b ks \<in> set (b # ks) \<and>
   (\<forall>k \<in> set (b # ks). f k \<le> (f (foldl (\<lambda>best k. if f k > f best then k else best) b ks) :: nat))"
proof (induction ks arbitrary: b)
  case (Cons k ks)
  from Cons.IH [of k] Cons.IH [of b] show ?case by (auto intro: le_trans less_imp_le)
qed simp

lemma most_common_max: "xs \<noteq> [] \<Longrightarrow> most_common xs \<in> set xs \<and> (\<forall>x. count_list xs x \<le> count_list xs (most_common xs))"
proof -
  assume ne: "xs \<noteq> []"
  then obtain k ks where ks: "from_keys xs = k # ks" by (cases "from_keys xs") auto
  then have m: "most_common xs = foldl (\<lambda>best k. if count_list xs k > count_list xs best then k else best) k ks"
    by (simp add: most_common_def)
  have st: "set (k # ks) = set xs" using set_from_keys [of xs] by (simp add: ks)
  have best: "most_common xs \<in> set xs \<and> (\<forall>x \<in> set xs. count_list xs x \<le> count_list xs (most_common xs))"
    using foldl_best [of "count_list xs" k ks] unfolding st m [symmetric] .
  have "count_list xs x \<le> count_list xs (most_common xs)" for x
    using best by (cases "x \<in> set xs") simp_all
  with best show ?thesis by simp
qed

lemma most_common_const: "xs \<noteq> [] \<Longrightarrow> set xs \<subseteq> {x} \<Longrightarrow> most_common xs = x"
  using most_common_max [of xs] by auto

end
