(* ===== verification/Regex.thy ===== *)
theory Regex
  imports Prelude
begin

text \<open>
  A small matcher for the regular expressions the program uses through Python's \<open>re\<close> module:
  the syntax of the expressions, their language, a matcher by derivatives and the proof that the
  two agree. Only the question "does it match" is modelled: no component reads a group.
\<close>

datatype rx =
    RxNone
  | RxEps
  | RxCh "char \<Rightarrow> bool"
  | RxSeq rx rx
  | RxAlt rx rx
  | RxStar rx

inductive_set star_lang :: "string set \<Rightarrow> string set" for L where
  star_nil: "[] \<in> star_lang L"
| star_app: "u \<in> L \<Longrightarrow> v \<in> star_lang L \<Longrightarrow> u @ v \<in> star_lang L"

primrec rx_lang :: "rx \<Rightarrow> string set" where
  "rx_lang RxNone = {}"
| "rx_lang RxEps = {[]}"
| "rx_lang (RxCh p) = {[c] | c. p c}"
| "rx_lang (RxSeq r q) = {u @ v | u v. u \<in> rx_lang r \<and> v \<in> rx_lang q}"
| "rx_lang (RxAlt r q) = rx_lang r \<union> rx_lang q"
| "rx_lang (RxStar r) = star_lang (rx_lang r)"

primrec rx_nullable :: "rx \<Rightarrow> bool" where
  "rx_nullable RxNone = False"
| "rx_nullable RxEps = True"
| "rx_nullable (RxCh p) = False"
| "rx_nullable (RxSeq r q) = (rx_nullable r \<and> rx_nullable q)"
| "rx_nullable (RxAlt r q) = (rx_nullable r \<or> rx_nullable q)"
| "rx_nullable (RxStar r) = True"

fun rx_seq :: "rx \<Rightarrow> rx \<Rightarrow> rx" where
  "rx_seq RxNone q = RxNone"
| "rx_seq RxEps q = q"
| "rx_seq r q = RxSeq r q"

fun rx_alt :: "rx \<Rightarrow> rx \<Rightarrow> rx" where
  "rx_alt RxNone q = q"
| "rx_alt r RxNone = r"
| "rx_alt r q = RxAlt r q"

primrec rx_deriv :: "char \<Rightarrow> rx \<Rightarrow> rx" where
  "rx_deriv c RxNone = RxNone"
| "rx_deriv c RxEps = RxNone"
| "rx_deriv c (RxCh p) = (if p c then RxEps else RxNone)"
| "rx_deriv c (RxSeq r q) =
     (if rx_nullable r then rx_alt (rx_seq (rx_deriv c r) q) (rx_deriv c q)
      else rx_seq (rx_deriv c r) q)"
| "rx_deriv c (RxAlt r q) = rx_alt (rx_deriv c r) (rx_deriv c q)"
| "rx_deriv c (RxStar r) = rx_seq (rx_deriv c r) (RxStar r)"

fun rx_match :: "rx \<Rightarrow> string \<Rightarrow> bool" where
  "rx_match r [] = rx_nullable r"
| "rx_match r (c # s) = rx_match (rx_deriv c r) s"

lemma rx_lang_seq [simp]: "rx_lang (rx_seq r q) = rx_lang (RxSeq r q)"
  by (induction r q rule: rx_seq.induct) auto

lemma rx_lang_alt [simp]: "rx_lang (rx_alt r q) = rx_lang (RxAlt r q)"
  by (induction r q rule: rx_alt.induct) auto

lemma rx_nullable_iff: "rx_nullable r \<longleftrightarrow> [] \<in> rx_lang r"
  by (induction r) (auto intro: star_nil)

lemma star_lang_Cons: "c # s \<in> star_lang L \<longleftrightarrow> (\<exists>u v. s = u @ v \<and> c # u \<in> L \<and> v \<in> star_lang L)"
proof
  have "w \<in> star_lang L \<Longrightarrow> w = c # s \<Longrightarrow> \<exists>u v. s = u @ v \<and> c # u \<in> L \<and> v \<in> star_lang L" for w
  proof (induction rule: star_lang.induct)
    case (star_app u v)
    then show ?case by (cases u) auto
  qed simp
  then show "c # s \<in> star_lang L \<Longrightarrow> \<exists>u v. s = u @ v \<and> c # u \<in> L \<and> v \<in> star_lang L" by blast
next
  assume "\<exists>u v. s = u @ v \<and> c # u \<in> L \<and> v \<in> star_lang L"
  then show "c # s \<in> star_lang L" using star_lang.star_app [of "c # _" L] by auto
qed

lemma rx_lang_deriv: "s \<in> rx_lang (rx_deriv c r) \<longleftrightarrow> c # s \<in> rx_lang r"
proof (induction r arbitrary: s)
  case (RxSeq r q)
  then show ?case
    by (auto simp: rx_nullable_iff Cons_eq_append_conv)
next
  case (RxStar r)
  then show ?case by (auto simp: star_lang_Cons)
qed auto

theorem rx_match_iff: "rx_match r s \<longleftrightarrow> s \<in> rx_lang r"
  by (induction s arbitrary: r) (simp_all add: rx_nullable_iff rx_lang_deriv)

section \<open>The constructs of the patterns in the source\<close>

definition rx_any :: rx where "rx_any = RxCh (\<lambda>c. c \<noteq> CHR 0x0A)"
definition rx_space :: rx where "rx_space = RxCh py_is_space"
definition rx_plus :: "rx \<Rightarrow> rx" where "rx_plus r = RxSeq r (RxStar r)"
definition rx_all :: rx where "rx_all = RxStar (RxCh (\<lambda>c. True))"
definition rx_opt :: "rx \<Rightarrow> rx" where "rx_opt r = RxAlt RxEps r"

text \<open>A literal under \<open>re.IGNORECASE\<close> (the literal is given in lower case).\<close>

primrec rx_lit :: "string \<Rightarrow> rx" where
  "rx_lit [] = RxEps"
| "rx_lit (c # s) = RxSeq (RxCh (\<lambda>d. py_lower_char d = c)) (rx_lit s)"

primrec rx_seqs :: "rx list \<Rightarrow> rx" where
  "rx_seqs [] = RxEps"
| "rx_seqs (r # rs) = RxSeq r (rx_seqs rs)"

primrec rx_alts :: "rx list \<Rightarrow> rx" where
  "rx_alts [] = RxNone"
| "rx_alts (r # rs) = RxAlt r (rx_alts rs)"

lemma rx_lang_ch_seq:
  "s \<in> rx_lang (RxSeq (RxCh p) r) \<longleftrightarrow> (\<exists>d v. s = d # v \<and> p d \<and> v \<in> rx_lang r)"
proof
  assume "s \<in> rx_lang (RxSeq (RxCh p) r)"
  then show "\<exists>d v. s = d # v \<and> p d \<and> v \<in> rx_lang r" by auto
next
  assume "\<exists>d v. s = d # v \<and> p d \<and> v \<in> rx_lang r"
  then obtain d v where "s = [d] @ v" "p d" "v \<in> rx_lang r" by auto
  then show "s \<in> rx_lang (RxSeq (RxCh p) r)" unfolding rx_lang.simps by blast
qed

lemma rx_lit_lang: "s \<in> rx_lang (rx_lit p) \<longleftrightarrow> py_lower s = p"
proof (induction p arbitrary: s)
  case (Cons c p)
  then show ?case
    by (cases s) (auto simp: rx_lang_ch_seq py_lower_def simp del: rx_lang.simps)
qed simp

lemma star_lang_all: "s \<in> star_lang {[c] | c. True}"
proof (induction s)
  case Nil
  show ?case by (rule star_nil)
next
  case (Cons a s)
  then show ?case using star_lang.star_app [of "[a]" "{[c] | c. True}" s] by simp
qed

lemma rx_all_lang [simp]: "rx_lang rx_all = UNIV"
  using star_lang_all by (auto simp: rx_all_def)

text \<open>\<open>re.search(p, s)\<close> for a pattern without anchors.\<close>

definition rx_search :: "rx \<Rightarrow> string \<Rightarrow> bool" where
  "rx_search r s = rx_match (RxSeq rx_all (RxSeq r rx_all)) s"

lemma rx_search_iff: "rx_search r s \<longleftrightarrow> (\<exists>a u b. s = a @ u @ b \<and> u \<in> rx_lang r)"
  by (auto simp: rx_search_def rx_match_iff)

end
