(* ===== verification/Calendar.thy ===== *)
theory Calendar
  imports Prelude
begin

text \<open>
  The part of Python's \<open>datetime\<close> module the program relies on. A naive \<open>datetime\<close> is an integer:
  the microseconds since 0001-01-01T00:00:00 (\<open>(toordinal() - 1) * 86400000000\<close> plus the time of
  day), so comparison and \<open>timedelta\<close> arithmetic are those of \<^typ>\<open>int\<close>; its civil fields are
  functions of it, by the algorithms of \<open>Lib/datetime.py\<close>. \<open>isoformat\<close> and \<open>fromisoformat\<close> are
  modelled on the extended form \<open>YYYY-MM-DDTHH:MM:SS[.ffffff][+HH:MM]\<close>, the one the program writes.
\<close>

type_synonym naive = int

definition US :: int where "US = 1000000"
definition DAY_US :: int where "DAY_US = 86400000000"

definition is_leap :: "int \<Rightarrow> bool" where
  "is_leap y \<longleftrightarrow> y mod 4 = 0 \<and> (y mod 100 = 0 \<longrightarrow> y mod 400 = 0)"

definition month_lengths :: "bool \<Rightarrow> int list" where
  "month_lengths leap = [31, if leap then 29 else 28, 31, 30, 31, 30, 31, 31, 30, 31, 30, 31]"

definition days_in_month :: "int \<Rightarrow> int \<Rightarrow> int" where
  "days_in_month y m = month_lengths (is_leap y) ! nat (m - 1)"

definition days_before_year :: "int \<Rightarrow> int" where
  "days_before_year y = (let z = y - 1 in z * 365 + z div 4 - z div 100 + z div 400)"

definition days_before_month :: "int \<Rightarrow> int \<Rightarrow> int" where
  "days_before_month y m = sum_list (take (nat (m - 1)) (month_lengths (is_leap y)))"

definition to_days :: "int \<Rightarrow> int \<Rightarrow> int \<Rightarrow> int" where
  "to_days y m d = days_before_year y + days_before_month y m + (d - 1)"

fun find_month :: "int list \<Rightarrow> int \<Rightarrow> int \<Rightarrow> int \<times> int" where
  "find_month [] m n = (m, n)"
| "find_month (l # ls) m n = (if n < l then (m, n) else find_month ls (m + 1) (n - l))"

definition year_and_day :: "int \<Rightarrow> int \<times> int" where
  "year_and_day n =
     (let k = n div 146097; n1 = n mod 146097;
          c = n1 div 36524; n2 = n1 mod 36524;
          q = n2 div 1461; n3 = n2 mod 1461;
          a = n3 div 365; n4 = n3 mod 365;
          y = k * 400 + c * 100 + q * 4 + a + 1
      in if a = 4 \<or> c = 4 then (y - 1, 365) else (y, n4))"

definition civil_of_days :: "int \<Rightarrow> int \<times> int \<times> int" where
  "civil_of_days n =
     (let (y, r) = year_and_day n; (m, d) = find_month (month_lengths (is_leap y)) 1 r
      in (y, m, d + 1))"

definition mk_naive :: "int \<Rightarrow> int \<Rightarrow> int \<Rightarrow> int \<Rightarrow> int \<Rightarrow> naive" where
  "mk_naive y m d hh mm = to_days y m d * DAY_US + (hh * 3600 + mm * 60) * US"

definition day_of :: "naive \<Rightarrow> int" where "day_of t = t div DAY_US"
definition tod_of :: "naive \<Rightarrow> int" where "tod_of t = t mod DAY_US"
definition weekday :: "naive \<Rightarrow> int" where "weekday t = day_of t mod 7"
definition year_of :: "naive \<Rightarrow> int" where "year_of t = fst (civil_of_days (day_of t))"
definition month_of :: "naive \<Rightarrow> int" where "month_of t = fst (snd (civil_of_days (day_of t)))"

text \<open>\<open>t.replace(hour=hh, minute=mm, second=0, microsecond=0)\<close>.\<close>

definition at_time :: "naive \<Rightarrow> int \<Rightarrow> int \<Rightarrow> naive" where
  "at_time t hh mm = day_of t * DAY_US + (hh * 3600 + mm * 60) * US"

lemma year_and_day_spec:
  assumes "year_and_day n = (y, r)"
  shows "days_before_year y + r = n \<and> 0 \<le> r \<and> r < (if is_leap y then 366 else 365)"
proof -
  define k where "k = n div 146097"
  define n1 where "n1 = n mod 146097"
  define c where "c = n1 div 36524"
  define n2 where "n2 = n1 mod 36524"
  define q where "q = n2 div 1461"
  define n3 where "n3 = n2 mod 1461"
  define a where "a = n3 div 365"
  define n4 where "n4 = n3 mod 365"
  have n: "n = 146097 * k + n1" and n1: "0 \<le> n1" "n1 < 146097"
    by (simp_all add: k_def n1_def)
  have n1': "n1 = 36524 * c + n2" and n2: "0 \<le> n2" "n2 < 36524"
    by (simp_all add: c_def n2_def)
  have n2': "n2 = 1461 * q + n3" and n3: "0 \<le> n3" "n3 < 1461"
    by (simp_all add: q_def n3_def)
  have n3': "n3 = 365 * a + n4" and n4: "0 \<le> n4" "n4 < 365"
    by (simp_all add: a_def n4_def)
  have c: "0 \<le> c" "c \<le> 4" and q: "0 \<le> q" "q \<le> 24" and a: "0 \<le> a" "a \<le> 4"
    using n1 n1' n2 n2' n3 n3' n4 by auto
  have dby: "days_before_year (k * 400 + c' * 100 + q' * 4 + a' + 1)
      = 146097 * k + 36524 * c' + 1461 * q' + 365 * a'"
    if "0 \<le> c'" "c' \<le> 3" "0 \<le> q'" "q' \<le> 24" "0 \<le> a'" "a' \<le> 3" for c' q' a' :: int
  proof -
    have d4: "(k * 400 + c' * 100 + q' * 4 + a') div 4 = 100 * k + 25 * c' + q'"
      using that by simp
    have d100: "(k * 400 + c' * 100 + q' * 4 + a') div 100 = 4 * k + c'"
      using that by (intro int_div_pos_eq [where r = "q' * 4 + a'"]) auto
    have d400: "(k * 400 + c' * 100 + q' * 4 + a') div 400 = k"
      using that by (intro int_div_pos_eq [where r = "c' * 100 + q' * 4 + a'"]) auto
    show ?thesis unfolding days_before_year_def Let_def using d4 d100 d400 by simp
  qed
  have res: "year_and_day n = (if a = 4 \<or> c = 4 then (k * 400 + c * 100 + q * 4 + a + 1 - 1, 365)
      else (k * 400 + c * 100 + q * 4 + a + 1, n4))"
    unfolding year_and_day_def Let_def k_def n1_def c_def n2_def q_def n3_def a_def n4_def by simp
  show ?thesis
  proof (cases "a = 4 \<or> c = 4")
    case False
    with res assms have y: "y = k * 400 + c * 100 + q * 4 + a + 1" and r: "r = n4" by auto
    with False c q a dby [of c q a] n n1' n2' n3' n4 show ?thesis by auto
  next
    case True
    show ?thesis
    proof (cases "c = 4")
      case True
      then have "n2 = 0" using n1 n1' n2 by auto
      then have "q = 0" "n3 = 0" "a = 0" by (simp_all add: q_def n3_def a_def)
      with True res assms have y: "y = k * 400 + 3 * 100 + 24 * 4 + 3 + 1" and r: "r = 365" by auto
      have "is_leap y" by (simp add: y is_leap_def)
      with y r True n n1' \<open>n2 = 0\<close> dby [of 3 24 3] show ?thesis by auto
    next
      case False
      with True have a4: "a = 4" by simp
      then have n4z: "n4 = 0" using n3 n3' n4 by auto
      from False a4 res assms have y: "y = k * 400 + c * 100 + q * 4 + 3 + 1" and r: "r = 365" by auto
      have q24: "q \<noteq> 24" using n2 n2' n3' a4 n4 by auto
      have "y mod 4 = 0" by (simp add: y)
      moreover have "y mod 100 \<noteq> 0"
      proof -
        have "y = (q * 4 + 4) + (4 * k + c) * 100" using y by simp
        then have "y mod 100 = (q * 4 + 4) mod 100" by (simp only: mod_mult_self1)
        also have "\<dots> = q * 4 + 4" using q q24 by auto
        finally show ?thesis using q by auto
      qed
      ultimately have "is_leap y" by (simp add: is_leap_def)
      with y r False c q a4 n n1' n2' n3' n4z dby [of c q 3] show ?thesis by auto
    qed
  qed
qed

lemma find_month_spec:
  assumes "find_month ls m n = (m', d)" "0 \<le> n" "n < sum_list ls" "list_all (\<lambda>l. 0 < l) ls"
  shows "m \<le> m' \<and> m' < m + int (length ls) \<and> n = sum_list (take (nat (m' - m)) ls) + d
    \<and> 0 \<le> d \<and> d < ls ! nat (m' - m)"
  using assms
proof (induction ls m n rule: find_month.induct)
  case (2 l ls m n)
  show ?case
  proof (cases "n < l")
    case True
    with 2 show ?thesis by auto
  next
    case False
    with "2.prems" have "find_month ls (m + 1) (n - l) = (m', d)" "0 \<le> n - l" "n - l < sum_list ls"
      "list_all (\<lambda>l. 0 < l) ls" by auto
    from "2.IH" [OF False this] have IH: "m + 1 \<le> m'" "m' < m + 1 + int (length ls)"
      "n - l = sum_list (take (nat (m' - (m + 1))) ls) + d" "0 \<le> d" "d < ls ! nat (m' - (m + 1))"
      by auto
    then have "nat (m' - m) = Suc (nat (m' - (m + 1)))" by simp
    with IH show ?thesis by auto
  qed
qed simp

lemma month_lengths_sum: "sum_list (month_lengths leap) = (if leap then 366 else 365)"
  by (simp add: month_lengths_def)

lemma civil_of_days_spec:
  assumes "civil_of_days n = (y, m, d)"
  shows "to_days y m d = n" "1 \<le> m" "m \<le> 12" "1 \<le> d" "d \<le> days_in_month y m"
proof -
  obtain r where yr: "year_and_day n = (y, r)"
    using assms by (auto simp: civil_of_days_def Let_def split: prod.splits)
  have fm: "find_month (month_lengths (is_leap y)) 1 r = (m, d - 1)"
    using assms yr by (auto simp: civil_of_days_def Let_def split: prod.splits)
  from year_and_day_spec [OF yr] have r: "days_before_year y + r = n" "0 \<le> r"
    "r < sum_list (month_lengths (is_leap y))" by (simp_all add: month_lengths_sum)
  have pos: "list_all (\<lambda>l. 0 < l) (month_lengths (is_leap y))" by (simp add: month_lengths_def)
  from find_month_spec [OF fm r(2,3) pos] r(1)
  show "to_days y m d = n" "1 \<le> m" "m \<le> 12" "1 \<le> d" "d \<le> days_in_month y m"
    by (auto simp: to_days_def days_before_month_def days_in_month_def month_lengths_def)
qed

lemma days_in_month_range: "1 \<le> m \<Longrightarrow> m \<le> 12 \<Longrightarrow> 28 \<le> days_in_month y m \<and> days_in_month y m \<le> 31"
proof -
  assume "1 \<le> m" "m \<le> 12"
  then have "m \<in> {1,2,3,4,5,6,7,8,9,10,11,12}" unfolding insert_iff empty_iff by presburger
  then show ?thesis by (auto simp: days_in_month_def month_lengths_def)
qed

lemma to_days_next_month:
  "1 \<le> m \<Longrightarrow> m < 12 \<Longrightarrow> to_days y (m + 1) d = to_days y m d + days_in_month y m"
proof -
  assume "1 \<le> m" "m < 12"
  then have "m \<in> {1,2,3,4,5,6,7,8,9,10,11}" unfolding insert_iff empty_iff by presburger
  then show ?thesis
    by (auto simp: to_days_def days_before_month_def days_in_month_def month_lengths_def)
qed

lemma div_pred: "1 < k \<Longrightarrow> (y :: int) div k - (y - 1) div k = (if y mod k = 0 then 1 else 0)"
proof -
  assume k: "1 < k"
  define q where "q = y div k"
  define r where "r = y mod k"
  have y: "y = k * q + r" "0 \<le> r" "r < k" using k by (simp_all add: q_def r_def)
  show ?thesis
  proof (cases "r = 0")
    case True
    then have "y - 1 = k * (q - 1) + (k - 1)" using y by (simp add: algebra_simps)
    then have "(y - 1) div k = q - 1" using k by (intro int_div_pos_eq [where r = "k - 1"]) auto
    with True show ?thesis by (simp add: q_def r_def)
  next
    case False
    then have "y - 1 = k * q + (r - 1)" using y by simp
    then have "(y - 1) div k = q" using y False by (intro int_div_pos_eq [where r = "r - 1"]) auto
    with False show ?thesis by (simp add: q_def r_def)
  qed
qed

lemma days_before_year_Suc: "days_before_year (y + 1) = days_before_year y + (if is_leap y then 366 else 365)"
proof -
  have step: "1 < k \<Longrightarrow> y div k = (y - 1) div k + (if y mod k = 0 then 1 else 0)" for k
    using div_pred [of k y] by linarith
  have step4: "y div 4 = (y - 1) div 4 + (if y mod 4 = 0 then 1 else 0)" by (rule step) simp
  have step100: "y div 100 = (y - 1) div 100 + (if y mod 100 = 0 then 1 else 0)" by (rule step) simp
  have step400: "y div 400 = (y - 1) div 400 + (if y mod 400 = 0 then 1 else 0)" by (rule step) simp
  have sum: "y * 365 + a - b + c = (y - 1) * 365 + a' - b' + c' + (365 + i - j + k)"
    if "a = a' + i" "b = b' + j" "c = c' + k" for a a' b b' c c' i j k :: int
    using that by simp
  have leap: "365 + (if P4 then 1 else 0) - (if P100 then 1 else 0) + (if P400 then 1 else 0)
      = (if P4 \<and> (P100 \<longrightarrow> P400) then 366 else 365 :: int)"
    if "P400 \<Longrightarrow> P100" "P100 \<Longrightarrow> P4" for P4 P100 P400 using that by (cases P400; cases P100; cases P4) simp_all
  have d: "4 dvd (100 :: int)" "100 dvd (400 :: int)" by simp_all
  have dvds: "y mod 400 = 0 \<Longrightarrow> y mod 100 = 0" "y mod 100 = 0 \<Longrightarrow> y mod 4 = 0"
    unfolding mod_eq_0_iff_dvd by (rule dvd_trans [OF d(2)], assumption) (rule dvd_trans [OF d(1)], assumption)
  have "days_before_year (y + 1) = y * 365 + y div 4 - y div 100 + y div 400"
    by (simp add: days_before_year_def)
  also have "\<dots> = days_before_year y + (365 + (if y mod 4 = 0 then 1 else 0)
      - (if y mod 100 = 0 then 1 else 0) + (if y mod 400 = 0 then 1 else 0))"
    unfolding days_before_year_def Let_def by (rule sum [OF step4 step100 step400])
  also have "(365 + (if y mod 4 = 0 then 1 else 0) - (if y mod 100 = 0 then 1 else 0)
      + (if y mod 400 = 0 then 1 else 0)) = (if is_leap y then 366 else 365 :: int)"
    unfolding is_leap_def by (rule leap [OF dvds])
  finally show ?thesis .
qed

lemma to_days_next_year: "to_days (y + 1) 1 d = to_days y 12 d + 31"
  by (simp add: to_days_def days_before_month_def month_lengths_def days_before_year_Suc)

lemma at_time_fields:
  assumes "0 \<le> hh" "hh \<le> 23" "0 \<le> mm" "mm \<le> 59"
  shows "day_of (at_time t hh mm) = day_of t" "tod_of (at_time t hh mm) = (hh * 3600 + mm * 60) * US"
proof -
  have tod: "0 \<le> (hh * 3600 + mm * 60) * US" "(hh * 3600 + mm * 60) * US < DAY_US"
    using assms by (simp_all add: US_def DAY_US_def)
  then show "day_of (at_time t hh mm) = day_of t" "tod_of (at_time t hh mm) = (hh * 3600 + mm * 60) * US"
    by (simp_all add: at_time_def day_of_def tod_of_def)
qed

lemma naive_decomp: "t = day_of t * DAY_US + tod_of t" "0 \<le> tod_of t" "tod_of t < DAY_US"
  by (simp_all add: day_of_def tod_of_def DAY_US_def)

section \<open>ISO format\<close>

text \<open>A number in decimal with leading zeros, and reading exactly \<open>k\<close> digits back.\<close>

fun show_pad :: "nat \<Rightarrow> nat \<Rightarrow> string" where
  "show_pad 0 n = []"
| "show_pad (Suc k) n = show_pad k (n div 10) @ [digit_char (n mod 10)]"

fun read_digits :: "nat \<Rightarrow> nat \<Rightarrow> string \<Rightarrow> (nat \<times> string) option" where
  "read_digits 0 acc s = Some (acc, s)"
| "read_digits (Suc k) acc [] = None"
| "read_digits (Suc k) acc (c # s) =
     (if py_is_digit c then read_digits k (acc * 10 + digit_val c) s else None)"

definition read_char :: "char \<Rightarrow> string \<Rightarrow> string option" where
  "read_char c s = (case s of [] \<Rightarrow> None | d # t \<Rightarrow> if d = c then Some t else None)"

text \<open>\<open>t.isoformat()\<close>.\<close>

definition isoformat :: "naive \<Rightarrow> string" where
  "isoformat t =
     (let (y, m, d) = civil_of_days (day_of t); tod = tod_of t; s = tod div US; us = tod mod US
      in show_pad 4 (nat y) @ ''-'' @ show_pad 2 (nat m) @ ''-'' @ show_pad 2 (nat d) @ ''T'' @
         show_pad 2 (nat (s div 3600)) @ '':'' @ show_pad 2 (nat (s div 60 mod 60)) @ '':'' @
         show_pad 2 (nat (s mod 60)) @
         (if us = 0 then [] else ''.'' @ show_pad 6 (nat us)))"

text \<open>\<open>HH:MM[:SS[.ffffff]]\<close>, then the rest of the text: microseconds of the day.\<close>

definition read_frac :: "int \<Rightarrow> string \<Rightarrow> (int \<times> string) option" where
  "read_frac t s =
     (case read_char CHR ''.'' s of
        None \<Rightarrow> Some (t, s)
      | Some s' \<Rightarrow> (case read_digits 6 0 s' of None \<Rightarrow> None | Some (us, r) \<Rightarrow> Some (t + int us, r)))"

definition read_time :: "string \<Rightarrow> (int \<times> string) option" where
  "read_time s0 =
     Option.bind (read_digits 2 0 s0) (\<lambda>(hh, s1).
     Option.bind (read_char CHR '':'' s1) (\<lambda>s2.
     Option.bind (read_digits 2 0 s2) (\<lambda>(mm, s3).
       if hh > 23 \<or> mm > 59 then None
       else let t = (int hh * 3600 + int mm * 60) * US
            in case read_char CHR '':'' s3 of
                 None \<Rightarrow> Some (t, s3)
               | Some s4 \<Rightarrow>
                   Option.bind (read_digits 2 0 s4) (\<lambda>(ss, s5).
                     if ss > 59 then None else read_frac (t + int ss * US) s5))))"

definition read_offset :: "string \<Rightarrow> int option option" where
  "read_offset s =
     (case s of
        [] \<Rightarrow> Some None
      | c # r \<Rightarrow>
          if c = CHR ''+'' \<or> c = CHR ''-'' then
            (case read_time r of
               Some (t, []) \<Rightarrow> Some (Some (if c = CHR ''-'' then - t else t))
             | _ \<Rightarrow> None)
          else None)"

definition read_date :: "string \<Rightarrow> (int \<times> string) option" where
  "read_date s0 =
     Option.bind (read_digits 4 0 s0) (\<lambda>(y, s1).
     Option.bind (read_char CHR ''-'' s1) (\<lambda>s2.
     Option.bind (read_digits 2 0 s2) (\<lambda>(m, s3).
     Option.bind (read_char CHR ''-'' s3) (\<lambda>s4.
     Option.bind (read_digits 2 0 s4) (\<lambda>(d, s5).
       if 1 \<le> y \<and> 1 \<le> m \<and> m \<le> 12 \<and> 1 \<le> d \<and> int d \<le> days_in_month (int y) (int m)
       then Some (to_days (int y) (int m) (int d), s5) else None)))))"

text \<open>\<open>datetime.fromisoformat\<close>: the naive value and the UTC offset, if there is one.\<close>

definition fromisoformat :: "string \<Rightarrow> (naive \<times> int option) option" where
  "fromisoformat s =
     Option.bind (read_date s) (\<lambda>(days, r).
       case r of
         [] \<Rightarrow> Some (days * DAY_US, None)
       | _ # r1 \<Rightarrow>
           Option.bind (read_time r1) (\<lambda>(tod, r2).
             map_option (\<lambda>off. (days * DAY_US + tod, off)) (read_offset r2)))"

definition valid_naive :: "naive \<Rightarrow> bool" where
  "valid_naive t \<longleftrightarrow> 0 \<le> t \<and> 1 \<le> year_of t \<and> year_of t \<le> 9999"

lemma read_digits_add:
  "read_digits (j + i) a w = Option.bind (read_digits j a w) (\<lambda>(a', w'). read_digits i a' w')"
  by (induction j a w rule: read_digits.induct) auto

lemma read_digits_show_pad:
  "n < 10 ^ k \<Longrightarrow> read_digits k acc (show_pad k n @ s) = Some (acc * 10 ^ k + n, s)"
proof (induction k arbitrary: n s)
  case (Suc k)
  define d where "d = n mod 10"
  have d: "d < 10" "n = n div 10 * 10 + d" by (simp_all add: d_def)
  have "n div 10 < 10 ^ k" using Suc.prems by (simp add: less_mult_imp_div_less mult.commute)
  from Suc.IH [OF this, of "digit_char d # s"]
  have "read_digits (k + 1) acc (show_pad k (n div 10) @ digit_char d # s)
      = read_digits 1 (acc * 10 ^ k + n div 10) (digit_char d # s)"
    unfolding read_digits_add by simp
  also have "\<dots> = Some ((acc * 10 ^ k + n div 10) * 10 + d, s)"
    using d(1) by (simp add: digit_char_props)
  also have "(acc * 10 ^ k + n div 10) * 10 + d = acc * 10 ^ Suc k + n"
    using d(2) by (simp add: algebra_simps)
  finally show ?case by (simp add: d_def)
qed simp

lemma read_char_app [simp]: "read_char c (c # s) = Some s"
  by (simp add: read_char_def)

lemma read_char_digit: "d < 10 \<Longrightarrow> c \<in> {CHR '':'', CHR ''-'', CHR ''+''} \<Longrightarrow> read_char c (digit_char d # s) = None"
  by (auto simp: read_char_def digit_char_props)

lemma read_date_show:
  assumes "1 \<le> y" "y \<le> 9999" "1 \<le> m" "m \<le> 12" "1 \<le> d" "d \<le> days_in_month y m"
  shows "read_date (show_pad 4 (nat y) @ ''-'' @ show_pad 2 (nat m) @ ''-'' @ show_pad 2 (nat d) @ s)
    = Some (to_days y m d, s)"
proof -
  have "d \<le> 31" using assms days_in_month_range [of m y] by simp
  then have b: "nat y < 10 ^ 4" "nat m < 10 ^ 2" "nat d < 10 ^ 2" using assms by simp_all
  have "Suc 0 \<le> nat y" "Suc 0 \<le> nat m" "nat m \<le> 12" "Suc 0 \<le> nat d" using assms by simp_all
  then show ?thesis
    using assms by (simp add: read_date_def read_digits_show_pad [OF b(1)] read_digits_show_pad [OF b(2)]
      read_digits_show_pad [OF b(3)] del: show_pad.simps read_digits.simps)
qed

lemma read_time_show:
  assumes "0 \<le> tod" "tod < DAY_US" and off: "s = [] \<or> (\<exists>c r. s = c # r \<and> c \<noteq> CHR '':'' \<and> c \<noteq> CHR ''.'')"
  shows "read_time (show_pad 2 (nat (tod div US div 3600)) @ '':'' @ show_pad 2 (nat (tod div US div 60 mod 60)) @
    '':'' @ show_pad 2 (nat (tod div US mod 60)) @
    (if tod mod US = 0 then [] else ''.'' @ show_pad 6 (nat (tod mod US))) @ s) = Some (tod, s)"
proof -
  define h where "h = tod div US div 3600"
  define mi where "mi = tod div US div 60 mod 60"
  define sc where "sc = tod div US mod 60"
  define us where "us = tod mod US"
  have r: "0 \<le> h" "h \<le> 23" "0 \<le> mi" "mi \<le> 59" "0 \<le> sc" "sc \<le> 59" "0 \<le> us" "us < 1000000"
    using assms(1,2) by (simp_all add: h_def mi_def sc_def us_def US_def DAY_US_def)
  have tod: "tod = (h * 3600 + mi * 60) * US + sc * US + us"
  proof -
    define z where "z = tod div US"
    have "tod = z * US + us" by (simp add: z_def us_def)
    moreover have "z div 3600 = z div 60 div 60" using zdiv_zmult2_eq [of 60 z 60] by simp
    then have "z = h * 3600 + mi * 60 + sc"
      using mult_div_mod_eq [of 60 z] mult_div_mod_eq [of 60 "z div 60"]
      unfolding h_def mi_def sc_def z_def [symmetric] by linarith
    ultimately show ?thesis by (simp add: algebra_simps)
  qed
  have b: "nat h < 10 ^ 2" "nat mi < 10 ^ 2" "nat sc < 10 ^ 2" "nat us < 10 ^ 6" using r by simp_all
  have le: "\<not> 23 < nat h" "\<not> 59 < nat mi" "\<not> 59 < nat sc" using r by simp_all
  have nodot: "read_char CHR ''.'' s = None" using off by (auto simp: read_char_def)
  have frac: "read_frac t ((if us = 0 then [] else ''.'' @ show_pad 6 (nat us)) @ s) = Some (t + us, s)" for t
    using r nodot by (simp add: read_frac_def read_digits_show_pad [OF b(4)] del: show_pad.simps read_digits.simps)
  show ?thesis
    unfolding h_def [symmetric] mi_def [symmetric] sc_def [symmetric] us_def [symmetric] read_time_def
    using r le frac tod by (simp add: read_digits_show_pad [OF b(1)] read_digits_show_pad [OF b(2)]
      read_digits_show_pad [OF b(3)] Let_def del: show_pad.simps read_digits.simps)
qed

theorem fromisoformat_isoformat:
  assumes "valid_naive t"
  shows "fromisoformat (isoformat t) = Some (t, None)"
    and "fromisoformat (isoformat t @ ''+00:00'') = Some (t, Some 0)"
proof -
  obtain y m d where c: "civil_of_days (day_of t) = (y, m, d)" by (cases "civil_of_days (day_of t)") auto
  note spec = civil_of_days_spec [OF c]
  have y: "1 \<le> y" "y \<le> 9999" using assms c by (simp_all add: valid_naive_def year_of_def)
  note date = read_date_show [OF y spec(2-5)]
  have off: "read_offset [] = Some None" "read_offset ''+00:00'' = Some (Some 0)" by code_simp+
  have go: "fromisoformat (isoformat t @ s) = map_option (\<lambda>o'. (t, o')) (read_offset s)"
    if "s = [] \<or> (\<exists>c r. s = c # r \<and> c \<noteq> CHR '':'' \<and> c \<noteq> CHR ''.'')" for s
  proof -
    note time = read_time_show [OF naive_decomp(2,3) [of t] that]
    show ?thesis
      using naive_decomp(1) [of t] spec(1) time
      by (cases "tod_of t mod US = 0")
        (simp_all add: fromisoformat_def isoformat_def c Let_def date [simplified]
          del: show_pad.simps read_digits.simps)
  qed
  from go [of "[]"] off show "fromisoformat (isoformat t) = Some (t, None)" by simp
  from go [of "''+00:00''"] off show "fromisoformat (isoformat t @ ''+00:00'') = Some (t, Some 0)" by simp
qed

end
