(* ===== verification/PyVal.thy ===== *)
theory PyVal
  imports Calendar
begin

text \<open>
  The dynamically typed values the program keeps in JSON columns (\<open>extra_parameters\<close>) and in Redis:
  \<open>None\<close>, booleans, integers, strings, lists and dictionaries with string keys, with their truth
  value, \<open>str()\<close> and dictionary access. \<open>str()\<close> of a container is its \<open>repr\<close>, given for texts
  without quotes or backslashes inside.
\<close>

datatype pyval =
    PNone
  | PBool bool
  | PInt int
  | PStr string
  | PList "pyval list"
  | PDict "(string \<times> pyval) list"

type_synonym pydict = "(string \<times> pyval) list"

fun truthy :: "pyval \<Rightarrow> bool" where
  "truthy PNone = False"
| "truthy (PBool b) = b"
| "truthy (PInt i) = (i \<noteq> 0)"
| "truthy (PStr s) = (s \<noteq> [])"
| "truthy (PList xs) = (xs \<noteq> [])"
| "truthy (PDict d) = (d \<noteq> [])"

fun py_repr :: "pyval \<Rightarrow> string"
  and py_repr_list :: "pyval list \<Rightarrow> string"
  and py_repr_items :: "(string \<times> pyval) list \<Rightarrow> string" where
  "py_repr PNone = ''None''"
| "py_repr (PBool b) = (if b then ''True'' else ''False'')"
| "py_repr (PInt i) = show_int i"
| "py_repr (PStr s) = [CHR 0x27] @ s @ [CHR 0x27]"
| "py_repr (PList xs) = ''['' @ py_repr_list xs @ '']''"
| "py_repr (PDict d) = ''{'' @ py_repr_items d @ ''}''"
| "py_repr_list [] = []"
| "py_repr_list [v] = py_repr v"
| "py_repr_list (v # vs) = py_repr v @ '', '' @ py_repr_list vs"
| "py_repr_items [] = []"
| "py_repr_items [(k, v)] = [CHR 0x27] @ k @ [CHR 0x27] @ '': '' @ py_repr v"
| "py_repr_items ((k, v) # kvs) = [CHR 0x27] @ k @ [CHR 0x27] @ '': '' @ py_repr v @ '', '' @ py_repr_items kvs"

text \<open>\<open>str(v)\<close> and \<open>str(v or '')\<close>.\<close>

definition py_str :: "pyval \<Rightarrow> string" where
  "py_str v = (case v of PStr s \<Rightarrow> s | _ \<Rightarrow> py_repr v)"

definition str_or_empty :: "pyval \<Rightarrow> string" where
  "str_or_empty v = (if truthy v then py_str v else [])"

text \<open>\<open>d.get(k)\<close> (a missing key reads as \<open>None\<close>), \<open>k in d\<close>, \<open>d[k] = v\<close> and \<open>d.update(e)\<close>; a new
  key goes to the end, as in Python's insertion order.\<close>

definition dget :: "pydict \<Rightarrow> string \<Rightarrow> pyval" where
  "dget d k = (case map_of d k of None \<Rightarrow> PNone | Some v \<Rightarrow> v)"

definition dhas :: "pydict \<Rightarrow> string \<Rightarrow> bool" where
  "dhas d k \<longleftrightarrow> k \<in> set (map fst d)"

fun dput :: "pydict \<Rightarrow> string \<Rightarrow> pyval \<Rightarrow> pydict" where
  "dput [] k v = [(k, v)]"
| "dput ((k', v') # d) k v = (if k' = k then (k, v) # d else (k', v') # dput d k v)"

definition dupdate :: "pydict \<Rightarrow> pydict \<Rightarrow> pydict" where
  "dupdate d e = foldl (\<lambda>acc (k, v). dput acc k v) d e"

text \<open>\<open>extra if isinstance(extra, dict) else {}\<close>.\<close>

definition as_dict :: "pyval \<Rightarrow> pydict" where
  "as_dict v = (case v of PDict d \<Rightarrow> d | _ \<Rightarrow> [])"

text \<open>\<open>int(v)\<close>: \<^const>\<open>None\<close> is the exception.\<close>

definition val_int :: "pyval \<Rightarrow> int option" where
  "val_int v =
     (case v of PInt i \<Rightarrow> Some i | PBool b \<Rightarrow> Some (if b then 1 else 0) | PStr s \<Rightarrow> py_int s
      | _ \<Rightarrow> None)"

text \<open>The flag syntax of the environment variables and JSON flags.\<close>

definition TRUE_WORDS :: "string list" where
  "TRUE_WORDS = [''1'', ''true'', ''on'', ''yes'', ''sim'']"

section \<open>Identifiers\<close>

definition is_hex :: "char \<Rightarrow> bool" where
  "is_hex c \<longleftrightarrow> c \<in> set ''0123456789abcdef''"

definition trim_braces :: "string \<Rightarrow> string" where
  "trim_braces s =
     (let brace = (\<lambda>c. c \<in> set ''{}'') in rev (dropWhile brace (rev (dropWhile brace s))))"

fun drop_all :: "string \<Rightarrow> string \<Rightarrow> string" where
  "drop_all w [] = []"
| "drop_all w (c # cs) = (if w \<noteq> [] \<and> take (length w) (c # cs) = w then drop_all w (drop (length w - 1) cs) else c # drop_all w cs)"

text \<open>\<open>str(uuid.UUID(value))\<close>, or \<open>None\<close> when it raises. The spellings that \<open>int(x, 16)\<close> reads only because of a
  sign, an underscore or a \<open>0x\<close> are not modelled.\<close>

definition parse_uuid :: "string \<Rightarrow> string option" where
  "parse_uuid value =
     (let hex = filter (\<lambda>c. c \<noteq> CHR ''-'') (trim_braces (drop_all ''uuid:'' (drop_all ''urn:'' value)));
          h = py_lower hex
      in if length hex = 32 \<and> list_all is_hex h
         then Some (take 8 h @ ''-'' @ take 4 (drop 8 h) @ ''-'' @ take 4 (drop 12 h) @ ''-'' @ take 4 (drop 16 h) @ ''-'' @ drop 20 h)
         else None)"

section \<open>Lemmas\<close>

lemma map_of_dput [simp]: "map_of (dput d k v) = (map_of d)(k \<mapsto> v)"
  by (induction d) (auto simp: fun_eq_iff)

lemma dget_dput [simp]: "dget (dput d k v) k' = (if k' = k then v else dget d k')"
  by (simp add: dget_def)

lemma dupdate_Nil [simp]: "dupdate d [] = d"
  and dupdate_Cons [simp]: "dupdate d ((k, v) # e) = dupdate (dput d k v) e"
  by (simp_all add: dupdate_def)

lemma dget_dupdate: "distinct (map fst e) \<Longrightarrow>
  dget (dupdate d e) k = (case map_of e k of None \<Rightarrow> dget d k | Some v \<Rightarrow> v)"
proof (induction e arbitrary: d)
  case (Cons kv e)
  obtain k0 v0 where "kv = (k0, v0)" by (cases kv) auto
  with Cons show ?case by (auto simp: map_of_eq_None_iff split: option.splits dest: map_of_SomeD)
     (metis image_eqI fst_conv)+
qed simp

lemma dget_Nil [simp]: "dget [] k = PNone" and dget_Cons [simp]: "dget ((k', v) # d) k = (if k = k' then v else dget d k)"
  by (simp_all add: dget_def)

lemma truthy_simps [simp]: "str_or_empty PNone = []" "str_or_empty (PStr s) = s"
  by (simp_all add: str_or_empty_def py_str_def)

end
