(* ===== verification/Float64.thy ===== *)
theory Float64
  imports Prelude
begin

text \<open>
  The floating-point steps of the program: \<open>(a / b) * 100\<close> on natural numbers, truncated or
  rounded. Division and product are those of IEEE binary64, round to nearest, ties to even, on a
  53-bit significand. A double between 0 and \<open>2 ^ 53\<close> is a pair of a significand \<open>m\<close> and a
  scale \<open>s\<close>, the value \<open>m / 2 ^ s\<close>. Subnormals and overflow cannot arise for the ratios that
  occur (numerator below \<open>2 ^ 52\<close> times the denominator).
\<close>

fun bit_len :: "nat \<Rightarrow> nat" where
  "bit_len n = (if n = 0 then 0 else Suc (bit_len (n div 2)))"

declare bit_len.simps [simp del]

definition rne :: "nat \<Rightarrow> nat \<Rightarrow> nat" where
  "rne n d = (let q = n div d; r = n mod d in
     if 2 * r < d then q else if d < 2 * r then q + 1 else if even q then q else q + 1)"

text \<open>\<open>n / d\<close> for \<open>0 < n\<close>, \<open>0 < d\<close>.\<close>

definition fl_div :: "nat \<Rightarrow> nat \<Rightarrow> nat \<times> nat" where
  "fl_div n d =
     (let s = 53 + bit_len d - bit_len n; s' = (if n * 2 ^ s div d \<ge> 2 ^ 53 then s - 1 else s)
      in (rne (n * 2 ^ s') d, s'))"

text \<open>The product of a double and a small integer.\<close>

definition fl_scale :: "nat \<Rightarrow> nat \<times> nat \<Rightarrow> nat \<times> nat" where
  "fl_scale k x = (let (m, s) = x; p = k * m; sh = bit_len p - 53 in (rne p (2 ^ sh) * 2 ^ sh, s))"

definition fl_pct :: "nat \<Rightarrow> nat \<Rightarrow> nat \<times> nat" where
  "fl_pct n d = (if n = 0 then (0, 52) else fl_scale 100 (fl_div n d))"

text \<open>\<open>int((n / d) * 100)\<close> and \<open>int(round((n / d) * 100))\<close>.\<close>

definition pct_trunc :: "nat \<Rightarrow> nat \<Rightarrow> nat" where
  "pct_trunc n d = (let (m, s) = fl_pct n d in m div 2 ^ s)"

definition pct_round :: "nat \<Rightarrow> nat \<Rightarrow> nat" where
  "pct_round n d = (let (m, s) = fl_pct n d in rne m (2 ^ s))"

lemma bit_len_upper: "n < 2 ^ bit_len n"
proof (induction n rule: bit_len.induct)
  case (1 n)
  then show ?case by (cases "n = 0") (subst bit_len.simps; simp; linarith)+
qed

lemma bit_len_lower: "0 < n \<Longrightarrow> 2 ^ (bit_len n - 1) \<le> n"
proof (induction n rule: bit_len.induct)
  case (1 n)
  show ?case
  proof (cases "n div 2 = 0")
    case True
    with 1 have "n = 1" by auto
    then show ?thesis by (simp add: bit_len.simps)
  next
    case False
    with 1 have IH: "2 ^ (bit_len (n div 2) - 1) \<le> n div 2" by simp
    have "bit_len (n div 2) \<noteq> 0" using False by (subst bit_len.simps) simp
    then obtain k where k: "bit_len (n div 2) = Suc k" by (cases "bit_len (n div 2)") auto
    have "bit_len n = Suc (Suc k)" using 1 k by (subst bit_len.simps) simp
    with IH k show ?thesis by simp
  qed
qed

lemma bit_len_le: "n < 2 ^ k \<Longrightarrow> bit_len n \<le> k"
proof (rule ccontr)
  assume n: "n < 2 ^ k" and "\<not> bit_len n \<le> k"
  moreover have "bit_len 0 = 0" by (simp add: bit_len.simps)
  ultimately have k: "k \<le> bit_len n - 1" "n \<noteq> 0" by (auto intro: gr0I)
  then have "(2::nat) ^ k \<le> 2 ^ (bit_len n - 1)" by (intro power_increasing) auto
  also have "\<dots> \<le> n" using k by (intro bit_len_lower) simp
  finally show False using n by simp
qed

lemma bit_len_mono: "m \<le> n \<Longrightarrow> bit_len m \<le> bit_len n"
  using bit_len_upper [of n] by (intro bit_len_le) simp

lemma rne_bounds:
  assumes "0 < d"
  shows "2 * (rne n d * d) \<le> 2 * n + d" "2 * n \<le> 2 * (rne n d * d) + d"
proof -
  define q r where "q = n div d" and "r = n mod d"
  have n: "n = q * d + r" "r < d" using assms by (simp_all add: q_def r_def)
  have "rne n d = (if 2 * r < d then q else if d < 2 * r then q + 1 else if even q then q else q + 1)"
    by (simp add: rne_def Let_def q_def r_def)
  then consider "rne n d = q" "2 * r \<le> d" | "rne n d = q + 1" "d \<le> 2 * r"
    by (cases "2 * r < d"; cases "d < 2 * r"; cases "even q"; simp)
  then show "2 * (rne n d * d) \<le> 2 * n + d" "2 * n \<le> 2 * (rne n d * d) + d"
    using n by (cases; simp add: algebra_simps)+
qed

lemma rne_le: "0 < d \<Longrightarrow> n \<le> k * d \<Longrightarrow> rne n d \<le> k"
proof (cases "n = k * d")
  case False
  assume "0 < d" "n \<le> k * d"
  with False have "n div d < k" by (simp add: less_mult_imp_div_less)
  then show ?thesis by (simp add: rne_def Let_def)
qed (simp add: rne_def Let_def)

lemma fl_div_spec:
  assumes "0 < n" "n \<le> d" "fl_div n d = (m, s)"
  shows "52 \<le> s" "m \<le> 2 ^ 53" "2 * (m * d) \<le> 2 * (n * 2 ^ s) + d" "2 * (n * 2 ^ s) \<le> 2 * (m * d) + d"
proof -
  define s0 where "s0 = 53 + bit_len d - bit_len n"
  have d: "0 < d" using assms by simp
  have s0: "53 \<le> s0" using bit_len_mono [OF assms(2)] by (simp add: s0_def)
  have ms: "m = rne (n * 2 ^ s) d" "s = (if n * 2 ^ s0 div d \<ge> 2 ^ 53 then s0 - 1 else s0)"
    using assms(3) by (auto simp: fl_div_def Let_def s0_def)
  show "52 \<le> s" using ms(2) s0 by auto
  show "2 * (m * d) \<le> 2 * (n * 2 ^ s) + d" "2 * (n * 2 ^ s) \<le> 2 * (m * d) + d"
    unfolding ms(1) using rne_bounds [OF d] by auto
  have "n * 2 ^ s \<le> 2 ^ 53 * d"
  proof (cases "n * 2 ^ s0 div d \<ge> 2 ^ 53")
    case True
    have bl: "bit_len d \<noteq> 0" using d by (subst bit_len.simps) simp
    have s: "s = 52 + bit_len d - bit_len n" using True ms(2) s0_def by simp
    have "bit_len n \<le> bit_len d" by (rule bit_len_mono [OF assms(2)])
    then have "bit_len n + s = 53 + (bit_len d - 1)" using bl s by simp
    then have eq: "(2::nat) ^ bit_len n * 2 ^ s = 2 ^ 53 * 2 ^ (bit_len d - 1)"
      by (metis power_add)
    have "n * 2 ^ s \<le> 2 ^ bit_len n * 2 ^ s" using bit_len_upper [of n] by simp
    also have "\<dots> \<le> 2 ^ 53 * d" unfolding eq using bit_len_lower [OF d] by simp
    finally show ?thesis .
  next
    case False
    then have "n * 2 ^ s0 div d < 2 ^ 53" "s = s0" using ms(2) by auto
    then show ?thesis using d by (metis div_less_iff_less_mult less_imp_le_nat)
  qed
  then show "m \<le> 2 ^ 53" unfolding ms(1) by (intro rne_le [OF d])
qed

lemma fl_pct_spec:
  assumes "n \<le> d" "0 < d" "fl_pct n d = (m, s)"
  shows "52 \<le> s" "m * d \<le> 100 * n * 2 ^ s + 114 * d" "100 * n * 2 ^ s \<le> m * d + 114 * d"
proof -
  have "52 \<le> s \<and> m * d \<le> 100 * n * 2 ^ s + 114 * d \<and> 100 * n * 2 ^ s \<le> m * d + 114 * d"
  proof (cases "n = 0")
    case True
    with assms(3) show ?thesis by (simp add: fl_pct_def)
  next
    case False
    obtain m1 where m1: "fl_div n d = (m1, s)"
      using assms(3) False by (auto simp: fl_pct_def fl_scale_def Let_def split: prod.splits)
    have n: "0 < n" using False by simp
    note S = fl_div_spec [OF n assms(1) m1]
    define sh where "sh = bit_len (100 * m1) - 53"
    have m: "m = rne (100 * m1) (2 ^ sh) * 2 ^ sh"
      using assms(3) False m1 by (simp add: fl_pct_def fl_scale_def Let_def sh_def)
    have "100 * m1 < 2 ^ 60" using S(2) by simp
    then have "sh \<le> 7" using bit_len_le [of "100 * m1" 60] by (simp add: sh_def)
    then have "(2::nat) ^ sh \<le> 2 ^ 7" by (intro power_increasing) auto
    with rne_bounds [of "2 ^ sh" "100 * m1"] m have mm: "m \<le> 100 * m1 + 64" "100 * m1 \<le> m + 64" by auto
    have "m * d \<le> (100 * m1 + 64) * d" using mm(1) by simp
    moreover have "100 * m1 * d \<le> (m + 64) * d" using mm(2) by simp
    ultimately show ?thesis using S by (simp add: algebra_simps)
  qed
  then show "52 \<le> s" "m * d \<le> 100 * n * 2 ^ s + 114 * d" "100 * n * 2 ^ s \<le> m * d + 114 * d" by auto
qed

text \<open>The truncated percentage reaches \<open>t\<close> only when the exact one does, and it does when the exact
  one reaches \<open>t + 1\<close>: the rounding can lose an exact integer percentage, never gain one.\<close>

lemma pct_trunc_sound:
  assumes "n \<le> d" "0 < d" "d \<le> 2 ^ 40" "t \<le> pct_trunc n d"
  shows "t * d \<le> 100 * n"
proof (rule ccontr)
  assume "\<not> t * d \<le> 100 * n"
  then have lt: "100 * n + 1 \<le> t * d" by simp
  obtain m s where ms: "fl_pct n d = (m, s)" by fastforce
  note S = fl_pct_spec [OF assms(1,2) ms]
  have "t * 2 ^ s \<le> m" using assms(4) ms by (simp add: pct_trunc_def less_eq_div_iff_mult_less_eq del: One_nat_def)
  then have "t * 2 ^ s * d \<le> m * d" by (rule mult_right_mono) simp
  then have "t * d * 2 ^ s \<le> m * d" by (simp only: mult.assoc mult.commute [of "2 ^ s" d])
  then have "t * d * 2 ^ s \<le> 100 * n * 2 ^ s + 114 * d" using S(2) by (rule le_trans)
  moreover have "(100 * n + 1) * 2 ^ s \<le> t * d * 2 ^ s" using lt by (intro mult_right_mono) auto
  ultimately have "2 ^ s \<le> 114 * d" by (simp add: algebra_simps)
  moreover have "(2::nat) ^ 52 \<le> 2 ^ s" using S(1) by (intro power_increasing) auto
  ultimately show False using assms(3) by simp
qed

lemma pct_trunc_complete:
  assumes "n \<le> d" "0 < d" "(t + 1) * d \<le> 100 * n"
  shows "t \<le> pct_trunc n d"
proof -
  obtain m s where ms: "fl_pct n d = (m, s)" by fastforce
  note S = fl_pct_spec [OF assms(1,2) ms]
  have "(t + 1) * d * 2 ^ s \<le> 100 * n * 2 ^ s" using assms(3) by (intro mult_right_mono) auto
  then have "(t + 1) * 2 ^ s * d \<le> (m + 114) * d" using S(3) by (simp add: algebra_simps)
  then have "(t + 1) * 2 ^ s \<le> m + 114" using assms(2) by simp
  moreover have "(2::nat) ^ 52 \<le> 2 ^ s" using S(1) by (intro power_increasing) auto
  ultimately have "t * 2 ^ s \<le> m" by simp
  then show ?thesis using ms by (simp add: pct_trunc_def less_eq_div_iff_mult_less_eq)
qed

text \<open>57 of 100 is evaluated as 56 percent.\<close>

lemma pct_trunc_57: "pct_trunc 57 100 = 56"
proof -
  have "bit_len 57 = 6" "bit_len 100 = 7" by (simp_all add: bit_len.simps)
  then have d: "fl_div 57 100 = (5134103575202365, 53)" by (simp add: fl_div_def rne_def Let_def)
  have "bit_len 513410357520236500 = 59" by (simp add: bit_len.simps)
  then have "fl_pct 57 100 = (513410357520236480, 53)"
    by (simp add: fl_pct_def d fl_scale_def rne_def Let_def)
  then show ?thesis by (simp add: pct_trunc_def)
qed

end
