(* ===== verification/Redis.thy ===== *)
theory Redis
  imports PyVal "HOL-Library.AList"
begin

text \<open>
  The interface to the Redis server, the one the program keeps its shared state in.

  A call of the client is an effect on an arbitrary world \<open>'s\<close>: it returns a value or raises
  (\<^const>\<open>None\<close>), and leaves a world behind. The commands are a parameter of every definition
  that uses them, the record \<open>'s redis\<close>. What the program relies on is the documented meaning of
  the commands, written as functions on a key-value store (\<open>st_get\<close>, \<open>st_setex\<close>, \<dots>) and
  required of a server by the locale \<open>redis_server\<close>: seen through a \<open>view\<close> of the world, each
  command does what its store function says. \<open>mem_redis\<close> is the server whose world is the store
  itself; the locale is interpreted on it.

  JSON text in the store is represented by the value it encodes (\<open>RJson\<close>); a text that
  \<open>json.dumps\<close> did not write is not readable as JSON. Times are milliseconds.
\<close>

section \<open>Effects\<close>

type_synonym ('s, 'a) io = "'s \<Rightarrow> 'a option \<times> 's"

definition io_ret :: "'a \<Rightarrow> ('s, 'a) io" where
  "io_ret a s = (Some a, s)"

definition io_raise :: "('s, 'a) io" where
  "io_raise s = (None, s)"

definition io_bind :: "('s, 'a) io \<Rightarrow> ('a \<Rightarrow> ('s, 'b) io) \<Rightarrow> ('s, 'b) io" where
  "io_bind m f s = (case m s of (None, s') \<Rightarrow> (None, s') | (Some a, s') \<Rightarrow> f a s')"

definition io_seq :: "('s, 'a) io \<Rightarrow> ('s, 'b) io \<Rightarrow> ('s, 'b) io" where
  "io_seq m n = io_bind m (\<lambda>_. n)"

text \<open>\<open>try: m except Exception: h\<close>.\<close>

definition io_try :: "('s, 'a) io \<Rightarrow> ('s, 'a) io \<Rightarrow> ('s, 'a) io" where
  "io_try m h s = (case m s of (None, s') \<Rightarrow> h s' | (Some a, s') \<Rightarrow> (Some a, s'))"

text \<open>Run \<open>m\<close> and see whether it raised.\<close>

definition io_attempt :: "('s, 'a) io \<Rightarrow> ('s, 'a option) io" where
  "io_attempt m s = (case m s of (None, s') \<Rightarrow> (Some None, s') | (Some a, s') \<Rightarrow> (Some (Some a), s'))"

fun io_for :: "'a list \<Rightarrow> ('a \<Rightarrow> ('s, unit) io) \<Rightarrow> ('s, unit) io" where
  "io_for [] f = io_ret ()"
| "io_for (x # xs) f = io_seq (f x) (io_for xs f)"

section \<open>Values and the store\<close>

datatype rval = RText string | RJson pyval

datatype rdata = DStr rval | DList "rval list" | DHash "(string \<times> rval) list"

record store =
  st_now :: int
  st_data :: "(string \<times> rdata \<times> int option) list"

definition rv_truthy :: "rval option \<Rightarrow> bool" where
  "rv_truthy v = (case v of None \<Rightarrow> False | Some (RText s) \<Rightarrow> s \<noteq> [] | Some (RJson _) \<Rightarrow> True)"

definition rv_text :: "rval \<Rightarrow> string" where
  "rv_text v = (case v of RText s \<Rightarrow> s | RJson j \<Rightarrow> py_repr j)"

definition json_loads :: "rval \<Rightarrow> pyval option" where
  "json_loads v = (case v of RText _ \<Rightarrow> None | RJson j \<Rightarrow> Some j)"

definition rv_int :: "rval \<Rightarrow> int option" where
  "rv_int v = (case v of RText s \<Rightarrow> py_int s | RJson _ \<Rightarrow> None)"

text \<open>The entry of a key that has not expired.\<close>

definition st_find :: "string \<Rightarrow> store \<Rightarrow> (rdata \<times> int option) option" where
  "st_find k st =
     (case map_of (st_data st) k of
        Some (d, e) \<Rightarrow> (case e of None \<Rightarrow> Some (d, e)
                        | Some t \<Rightarrow> if st_now st < t then Some (d, e) else None)
      | None \<Rightarrow> None)"

definition st_put :: "string \<Rightarrow> rdata \<Rightarrow> int option \<Rightarrow> store \<Rightarrow> store" where
  "st_put k d e st = st\<lparr>st_data := AList.update k (d, e) (st_data st)\<rparr>"

definition st_del :: "string \<Rightarrow> store \<Rightarrow> store" where
  "st_del k st = st\<lparr>st_data := AList.delete k (st_data st)\<rparr>"

section \<open>The commands on the store\<close>

definition st_get :: "string \<Rightarrow> (store, rval option) io" where
  "st_get k st =
     (case st_find k st of None \<Rightarrow> (Some None, st) | Some (DStr v, _) \<Rightarrow> (Some (Some v), st)
      | Some _ \<Rightarrow> (None, st))"

definition st_setex :: "string \<Rightarrow> int \<Rightarrow> rval \<Rightarrow> (store, unit) io" where
  "st_setex k n v st =
     (if n \<le> 0 then (None, st) else (Some (), st_put k (DStr v) (Some (st_now st + n * 1000)) st))"

definition st_set_nx :: "string \<Rightarrow> rval \<Rightarrow> int \<Rightarrow> (store, bool) io" where
  "st_set_nx k v n st =
     (if n \<le> 0 then (None, st)
      else if st_find k st = None
      then (Some True, st_put k (DStr v) (Some (st_now st + n * 1000)) st)
      else (Some False, st))"

definition st_delete :: "string list \<Rightarrow> (store, unit) io" where
  "st_delete ks st = (Some (), foldr st_del ks st)"

definition st_incr :: "string \<Rightarrow> (store, int) io" where
  "st_incr k st =
     (case st_find k st of
        None \<Rightarrow> (Some 1, st_put k (DStr (RText (show_int 1))) None st)
      | Some (DStr v, e) \<Rightarrow>
          (case rv_int v of
             None \<Rightarrow> (None, st)
           | Some n \<Rightarrow> (Some (n + 1), st_put k (DStr (RText (show_int (n + 1)))) e st))
      | Some _ \<Rightarrow> (None, st))"

definition st_expire :: "string \<Rightarrow> int \<Rightarrow> (store, unit) io" where
  "st_expire k n st =
     (case st_find k st of
        None \<Rightarrow> (Some (), st)
      | Some (d, _) \<Rightarrow>
          (Some (), if n \<le> 0 then st_del k st else st_put k d (Some (st_now st + n * 1000)) st))"

definition st_ttl :: "string \<Rightarrow> (store, int) io" where
  "st_ttl k st =
     (case st_find k st of
        None \<Rightarrow> (Some (-2), st)
      | Some (_, None) \<Rightarrow> (Some (-1), st)
      | Some (_, Some t) \<Rightarrow> (Some ((t - st_now st + 500) div 1000), st))"

definition st_list :: "string \<Rightarrow> store \<Rightarrow> (rval list \<times> int option) option" where
  "st_list k st =
     (case st_find k st of None \<Rightarrow> Some ([], None) | Some (DList l, e) \<Rightarrow> Some (l, e) | Some _ \<Rightarrow> None)"

definition st_put_list :: "string \<Rightarrow> rval list \<Rightarrow> int option \<Rightarrow> store \<Rightarrow> store" where
  "st_put_list k l e st = (if l = [] then st_del k st else st_put k (DList l) e st)"

definition st_rpush :: "string \<Rightarrow> rval list \<Rightarrow> (store, unit) io" where
  "st_rpush k vs st =
     (case st_list k st of None \<Rightarrow> (None, st) | Some (l, e) \<Rightarrow> (Some (), st_put_list k (l @ vs) e st))"

text \<open>An index counted from the end when negative; the inclusive range of \<open>LRANGE\<close>.\<close>

definition list_index :: "'a list \<Rightarrow> int \<Rightarrow> int" where
  "list_index l i = (if i < 0 then max 0 (int (length l) + i) else i)"

definition list_range :: "int \<Rightarrow> int \<Rightarrow> 'a list \<Rightarrow> 'a list" where
  "list_range i j l =
     (let a = list_index l i; b = (if j < 0 then int (length l) + j else j)
      in take (nat (b - a + 1)) (drop (nat a) l))"

definition st_lrange :: "string \<Rightarrow> int \<Rightarrow> int \<Rightarrow> (store, rval list) io" where
  "st_lrange k i j st = (map_option (\<lambda>(l, _). list_range i j l) (st_list k st), st)"

definition st_ltrim :: "string \<Rightarrow> int \<Rightarrow> int \<Rightarrow> (store, unit) io" where
  "st_ltrim k i j st =
     (case st_list k st of None \<Rightarrow> (None, st)
      | Some (l, e) \<Rightarrow> (Some (), st_put_list k (list_range i j l) e st))"

definition st_llen :: "string \<Rightarrow> (store, int) io" where
  "st_llen k st = (map_option (\<lambda>(l, _). int (length l)) (st_list k st), st)"

definition st_head :: "string \<Rightarrow> (store, rval option) io" where
  "st_head k st =
     (map_option (\<lambda>(l, _). case l of [] \<Rightarrow> None | x # _ \<Rightarrow> Some x) (st_list k st), st)"

definition st_lpop :: "string \<Rightarrow> (store, unit) io" where
  "st_lpop k st =
     (case st_list k st of None \<Rightarrow> (None, st) | Some (l, e) \<Rightarrow> (Some (), st_put_list k (tl l) e st))"

definition st_hget :: "string \<Rightarrow> string \<Rightarrow> (store, rval option) io" where
  "st_hget h f st =
     (case st_find h st of None \<Rightarrow> (Some None, st) | Some (DHash m, _) \<Rightarrow> (Some (map_of m f), st)
      | Some _ \<Rightarrow> (None, st))"

definition st_hset :: "string \<Rightarrow> string \<Rightarrow> rval \<Rightarrow> (store, unit) io" where
  "st_hset h f v st =
     (case st_find h st of
        None \<Rightarrow> (Some (), st_put h (DHash [(f, v)]) None st)
      | Some (DHash m, e) \<Rightarrow> (Some (), st_put h (DHash (AList.update f v m)) e st)
      | Some _ \<Rightarrow> (None, st))"

definition st_scan :: "string \<Rightarrow> (store, string list) io" where
  "st_scan p st =
     (Some (filter (\<lambda>k. prefix p k \<and> st_find k st \<noteq> None) (remdups (map fst (st_data st)))), st)"

definition st_unlock :: "string \<Rightarrow> string \<Rightarrow> (store, unit) io" where
  "st_unlock k token st =
     (case st_find k st of
        Some (DStr v, _) \<Rightarrow> if v = RText token then (Some (), st_del k st) else (None, st)
      | _ \<Rightarrow> (None, st))"

section \<open>The client\<close>

record 's redis =
  r_get :: "string \<Rightarrow> ('s, rval option) io"
  r_setex :: "string \<Rightarrow> int \<Rightarrow> rval \<Rightarrow> ('s, unit) io"
  r_set_nx :: "string \<Rightarrow> rval \<Rightarrow> int \<Rightarrow> ('s, bool) io"
  r_delete :: "string list \<Rightarrow> ('s, unit) io"
  r_incr :: "string \<Rightarrow> ('s, int) io"
  r_expire :: "string \<Rightarrow> int \<Rightarrow> ('s, unit) io"
  r_ttl :: "string \<Rightarrow> ('s, int) io"
  r_rpush :: "string \<Rightarrow> rval list \<Rightarrow> ('s, unit) io"
  r_lrange :: "string \<Rightarrow> int \<Rightarrow> int \<Rightarrow> ('s, rval list) io"
  r_ltrim :: "string \<Rightarrow> int \<Rightarrow> int \<Rightarrow> ('s, unit) io"
  r_llen :: "string \<Rightarrow> ('s, int) io"
  r_head :: "string \<Rightarrow> ('s, rval option) io"
  r_lpop :: "string \<Rightarrow> ('s, unit) io"
  r_hget :: "string \<Rightarrow> string \<Rightarrow> ('s, rval option) io"
  r_hset :: "string \<Rightarrow> string \<Rightarrow> rval \<Rightarrow> ('s, unit) io"
  r_scan :: "string \<Rightarrow> ('s, string list) io"
  r_unlock :: "string \<Rightarrow> string \<Rightarrow> ('s, unit) io"

definition mem_redis :: "store redis" where
  "mem_redis = \<lparr>r_get = st_get, r_setex = st_setex, r_set_nx = st_set_nx, r_delete = st_delete,
     r_incr = st_incr, r_expire = st_expire, r_ttl = st_ttl, r_rpush = st_rpush, r_lrange = st_lrange,
     r_ltrim = st_ltrim, r_llen = st_llen, r_head = st_head, r_lpop = st_lpop, r_hget = st_hget,
     r_hset = st_hset, r_scan = st_scan, r_unlock = st_unlock\<rparr>"

text \<open>\<open>m\<close> on the world does what \<open>m'\<close> does on the view of it.\<close>

definition io_sim :: "('s \<Rightarrow> store) \<Rightarrow> ('s, 'a) io \<Rightarrow> (store, 'a) io \<Rightarrow> bool" where
  "io_sim view m m' \<longleftrightarrow>
     (\<forall>s. fst (m s) = fst (m' (view s)) \<and> view (snd (m s)) = snd (m' (view s)))"

named_theorems sim \<open>simulation of a program on a server by the program on its store\<close>

lemma io_sim_ret [sim]: "io_sim view (io_ret a) (io_ret a)"
  by (simp add: io_sim_def io_ret_def)

lemma io_sim_raise [sim]: "io_sim view io_raise io_raise"
  by (simp add: io_sim_def io_raise_def)

lemma io_sim_bind [sim]:
  assumes "io_sim view m m'" and f: "\<And>a. io_sim view (f a) (f' a)"
  shows "io_sim view (io_bind m f) (io_bind m' f')"
  unfolding io_sim_def
proof
  fix s
  from assms(1) have m: "fst (m s) = fst (m' (view s))" "view (snd (m s)) = snd (m' (view s))"
    by (simp_all add: io_sim_def)
  show "fst (io_bind m f s) = fst (io_bind m' f' (view s)) \<and>
      view (snd (io_bind m f s)) = snd (io_bind m' f' (view s))"
  proof (cases "fst (m' (view s))")
    case None
    with m show ?thesis by (auto simp: io_bind_def split: prod.splits)
  next
    case (Some a)
    with m f [of a] show ?thesis by (auto simp: io_bind_def io_sim_def split: prod.splits)
  qed
qed

lemma io_sim_seq [sim]: "io_sim view m m' \<Longrightarrow> io_sim view n n' \<Longrightarrow> io_sim view (io_seq m n) (io_seq m' n')"
  unfolding io_seq_def by (rule io_sim_bind)

lemma io_sim_try [sim]:
  assumes "io_sim view m m'" "io_sim view h h'"
  shows "io_sim view (io_try m h) (io_try m' h')"
  unfolding io_sim_def
proof
  fix s
  from assms(1) have m: "fst (m s) = fst (m' (view s))" "view (snd (m s)) = snd (m' (view s))"
    by (simp_all add: io_sim_def)
  show "fst (io_try m h s) = fst (io_try m' h' (view s)) \<and>
      view (snd (io_try m h s)) = snd (io_try m' h' (view s))"
  proof (cases "fst (m' (view s))")
    case None
    with m assms(2) show ?thesis by (auto simp: io_try_def io_sim_def split: prod.splits)
  next
    case (Some a)
    with m show ?thesis by (auto simp: io_try_def split: prod.splits)
  qed
qed

lemma io_sim_attempt [sim]: "io_sim view m m' \<Longrightarrow> io_sim view (io_attempt m) (io_attempt m')"
  unfolding io_sim_def io_attempt_def by (auto split: prod.splits option.splits) (metis prod.collapse fst_conv snd_conv option.distinct(1) option.inject)+

lemma io_sim_if [sim]: "io_sim view m m' \<Longrightarrow> io_sim view n n' \<Longrightarrow>
  io_sim view (if b then m else n) (if b then m' else n')"
  by simp

lemma io_sim_option [sim]: "io_sim view m m' \<Longrightarrow> (\<And>x. io_sim view (f x) (f' x)) \<Longrightarrow>
  io_sim view (case o' of None \<Rightarrow> m | Some x \<Rightarrow> f x) (case o' of None \<Rightarrow> m' | Some x \<Rightarrow> f' x)"
  by (cases o') auto

lemma io_sim_prod [sim]: "(\<And>x y. io_sim view (f x y) (f' x y)) \<Longrightarrow>
  io_sim view (case p of (x, y) \<Rightarrow> f x y) (case p of (x, y) \<Rightarrow> f' x y)"
  by (cases p) auto

lemma io_sim_list [sim]: "io_sim view m m' \<Longrightarrow> (\<And>x y. io_sim view (f x y) (f' x y)) \<Longrightarrow>
  io_sim view (case l of [] \<Rightarrow> m | x # y \<Rightarrow> f x y) (case l of [] \<Rightarrow> m' | x # y \<Rightarrow> f' x y)"
  by (cases l) auto

lemma io_sim_for [sim]: "(\<And>x. io_sim view (f x) (f' x)) \<Longrightarrow> io_sim view (io_for xs f) (io_for xs f')"
  by (induction xs) (auto intro: sim)

locale redis_server =
  fixes R :: "'s redis" and view :: "'s \<Rightarrow> store"
  assumes sim_get [sim]: "io_sim view (r_get R k) (st_get k)"
    and sim_setex [sim]: "io_sim view (r_setex R k n v) (st_setex k n v)"
    and sim_set_nx [sim]: "io_sim view (r_set_nx R k v n) (st_set_nx k v n)"
    and sim_delete [sim]: "io_sim view (r_delete R ks) (st_delete ks)"
    and sim_incr [sim]: "io_sim view (r_incr R k) (st_incr k)"
    and sim_expire [sim]: "io_sim view (r_expire R k n) (st_expire k n)"
    and sim_ttl [sim]: "io_sim view (r_ttl R k) (st_ttl k)"
    and sim_rpush [sim]: "io_sim view (r_rpush R k vs) (st_rpush k vs)"
    and sim_lrange [sim]: "io_sim view (r_lrange R k i j) (st_lrange k i j)"
    and sim_ltrim [sim]: "io_sim view (r_ltrim R k i j) (st_ltrim k i j)"
    and sim_llen [sim]: "io_sim view (r_llen R k) (st_llen k)"
    and sim_head [sim]: "io_sim view (r_head R k) (st_head k)"
    and sim_lpop [sim]: "io_sim view (r_lpop R k) (st_lpop k)"
    and sim_hget [sim]: "io_sim view (r_hget R h f) (st_hget h f)"
    and sim_hset [sim]: "io_sim view (r_hset R h f v) (st_hset h f v)"
    and sim_scan [sim]: "io_sim view (r_scan R p) (st_scan p)"
    and sim_unlock [sim]: "io_sim view (r_unlock R k tok) (st_unlock k tok)"

interpretation mem: redis_server mem_redis "\<lambda>s. s"
  by unfold_locales (simp_all add: mem_redis_def io_sim_def)

lemma mem_redis_simps [simp]:
  "r_get mem_redis = st_get" "r_setex mem_redis = st_setex" "r_set_nx mem_redis = st_set_nx"
  "r_delete mem_redis = st_delete" "r_incr mem_redis = st_incr" "r_expire mem_redis = st_expire"
  "r_ttl mem_redis = st_ttl" "r_rpush mem_redis = st_rpush" "r_lrange mem_redis = st_lrange"
  "r_ltrim mem_redis = st_ltrim" "r_llen mem_redis = st_llen" "r_head mem_redis = st_head"
  "r_lpop mem_redis = st_lpop" "r_hget mem_redis = st_hget" "r_hset mem_redis = st_hset"
  "r_scan mem_redis = st_scan" "r_unlock mem_redis = st_unlock"
  by (simp_all add: mem_redis_def)

lemma io_sim_fst: "io_sim view m m' \<Longrightarrow> fst (m s) = fst (m' (view s))"
  and io_sim_snd: "io_sim view m m' \<Longrightarrow> view (snd (m s)) = snd (m' (view s))"
  by (simp_all add: io_sim_def)

lemma io_run_simps [simp]:
  "io_bind (io_ret a) f = f a" "io_seq (io_ret a) m = m" "io_try (io_ret a) h = io_ret a"
  by (simp_all add: io_bind_def io_seq_def io_ret_def io_try_def fun_eq_iff)

section \<open>Telemetry\<close>

text \<open>
  Counters, histograms, structured events and log lines. They go to a sink that the control flow
  never reads back; \<open>worker\<close> extends the server interface with it.
\<close>

datatype tele =
    Counter string "(string \<times> string) list"
  | Observe string "(string \<times> string) list"
  | Event string "(string \<times> string) list"
  | LogLine string

definition tell :: "(tele \<Rightarrow> 's \<Rightarrow> 's) \<Rightarrow> tele \<Rightarrow> ('s, unit) io" where
  "tell emit t s = (Some (), emit t s)"

text \<open>Calls that never raise, whatever the server does.\<close>

named_theorems total_io \<open>calls that never raise\<close>

definition io_total :: "('s, 'a) io \<Rightarrow> bool" where
  "io_total m \<longleftrightarrow> (\<forall>s. fst (m s) \<noteq> None)"

lemma io_total_ret [total_io]: "io_total (io_ret a)"
  by (simp add: io_total_def io_ret_def)

lemma io_total_tell [total_io]: "io_total (tell emit t)"
  by (simp add: io_total_def tell_def)

lemma io_total_bind [total_io]: "io_total m \<Longrightarrow> (\<And>a. io_total (f a)) \<Longrightarrow> io_total (io_bind m f)"
  unfolding io_total_def io_bind_def by (auto split: prod.splits option.splits) (metis fst_conv option.distinct(1))+

lemma io_total_seq [total_io]: "io_total m \<Longrightarrow> io_total n \<Longrightarrow> io_total (io_seq m n)"
  unfolding io_seq_def by (rule io_total_bind)

lemma io_total_try [total_io]: "io_total h \<Longrightarrow> io_total (io_try m h)"
  unfolding io_total_def io_try_def by (auto split: prod.splits option.splits)

lemma io_total_attempt [total_io]: "io_total (io_attempt m)"
  unfolding io_total_def io_attempt_def by (auto split: prod.splits option.splits)

lemma io_total_option [total_io]: "io_total m \<Longrightarrow> (\<And>x. io_total (f x)) \<Longrightarrow>
  io_total (case o' of None \<Rightarrow> m | Some x \<Rightarrow> f x)"
  by (cases o') auto

lemma io_total_if [total_io]: "io_total m \<Longrightarrow> io_total n \<Longrightarrow> io_total (if b then m else n)"
  by simp

lemma io_total_for [total_io]: "(\<And>x. io_total (f x)) \<Longrightarrow> io_total (io_for xs f)"
  by (induction xs) (auto intro: total_io)

lemma io_totalD: "io_total m \<Longrightarrow> \<exists>a s'. m s = (Some a, s')"
  unfolding io_total_def by (metis option.exhaust prod.collapse)

section \<open>Triples\<close>

text \<open>From a world in \<open>P\<close>, a call that returns ends in \<open>Q\<close>, one that raises ends in \<open>E\<close>.\<close>

named_theorems triple \<open>rules for triples\<close>

definition io_spec :: "('s \<Rightarrow> bool) \<Rightarrow> ('s, 'a) io \<Rightarrow> ('a \<Rightarrow> 's \<Rightarrow> bool) \<Rightarrow> ('s \<Rightarrow> bool) \<Rightarrow> bool" where
  "io_spec P m Q E \<longleftrightarrow>
     (\<forall>s. P s \<longrightarrow> (case m s of (None, s') \<Rightarrow> E s' | (Some a, s') \<Rightarrow> Q a s'))"

lemma io_specI: "(\<And>s. P s \<Longrightarrow> case m s of (None, s') \<Rightarrow> E s' | (Some a, s') \<Rightarrow> Q a s') \<Longrightarrow> io_spec P m Q E"
  by (simp add: io_spec_def)

lemma io_specD: "io_spec P m Q E \<Longrightarrow> P s \<Longrightarrow> m s = (r, s') \<Longrightarrow> (case r of None \<Rightarrow> E s' | Some a \<Rightarrow> Q a s')"
  by (auto simp: io_spec_def split: option.splits prod.splits)

lemma spec_ret [triple]: "(\<And>s. P s \<Longrightarrow> Q a s) \<Longrightarrow> io_spec P (io_ret a) Q E"
  by (simp add: io_spec_def io_ret_def)

lemma spec_raise [triple]: "(\<And>s. P s \<Longrightarrow> E s) \<Longrightarrow> io_spec P io_raise Q E"
  by (simp add: io_spec_def io_raise_def)

lemma spec_bind [triple]:
  "io_spec P m M E \<Longrightarrow> (\<And>a. io_spec (M a) (f a) Q E) \<Longrightarrow> io_spec P (io_bind m f) Q E"
  unfolding io_spec_def io_bind_def by (fastforce split: prod.splits option.splits)

lemma spec_seq [triple]: "io_spec P m (\<lambda>_. M) E \<Longrightarrow> io_spec M n Q E \<Longrightarrow> io_spec P (io_seq m n) Q E"
  unfolding io_seq_def by (rule spec_bind)

lemma spec_try [triple]: "io_spec P m Q M \<Longrightarrow> io_spec M h Q E \<Longrightarrow> io_spec P (io_try m h) Q E"
  unfolding io_spec_def io_try_def by (fastforce split: prod.splits option.splits)

lemma spec_conseq:
  "io_spec P m Q E \<Longrightarrow> (\<And>s. P' s \<Longrightarrow> P s) \<Longrightarrow> (\<And>a s. Q a s \<Longrightarrow> Q' a s) \<Longrightarrow> (\<And>s. E s \<Longrightarrow> E' s) \<Longrightarrow> io_spec P' m Q' E'"
  unfolding io_spec_def by (fastforce split: prod.splits option.splits)

lemma spec_if [triple]: "io_spec P m Q E \<Longrightarrow> io_spec P n Q E \<Longrightarrow> io_spec P (if b then m else n) Q E"
  by simp

section \<open>Reading the store after a write\<close>

definition live :: "int option \<Rightarrow> store \<Rightarrow> bool" where
  "live e st \<longleftrightarrow> (case e of None \<Rightarrow> True | Some t \<Rightarrow> st_now st < t)"

definition elapse :: "int \<Rightarrow> store \<Rightarrow> store" where
  "elapse n st = st\<lparr>st_now := st_now st + n\<rparr>"

lemma st_now_simps [simp]: "st_now (st_put k d e st) = st_now st" "st_now (st_del k st) = st_now st"
  "st_now (st_put_list k l e st) = st_now st" "st_now (elapse n st) = st_now st + n"
  by (simp_all add: st_put_def st_del_def st_put_list_def elapse_def)

lemma st_find_put [simp]: "st_find k (st_put k' d e st) =
  (if k = k' then if live e st then Some (d, e) else None else st_find k st)"
  by (simp add: st_find_def st_put_def live_def update_conv' split: option.splits)

lemma st_find_del [simp]: "st_find k (st_del k' st) = (if k = k' then None else st_find k st)"
  by (simp add: st_find_def st_del_def delete_conv' restrict_map_def split: option.splits)

lemma live_simps [simp]: "live None st" "live (Some t) st \<longleftrightarrow> st_now st < t"
  by (simp_all add: live_def)

lemma st_find_put_list [simp]: "st_find k (st_put_list k' l e st) =
  (if k = k' then if l \<noteq> [] \<and> live e st then Some (DList l, e) else None else st_find k st)"
  by (simp add: st_put_list_def)

lemma st_list_put_list: "live e st \<Longrightarrow>
  st_list k (st_put_list k l e st) = Some (l, if l = [] then None else e)"
  by (simp add: st_list_def)

lemma st_find_live: "st_find k st = Some (d, e) \<Longrightarrow> live e st"
  by (auto simp: st_find_def live_def split: option.splits if_splits)

lemma st_find_elapse: "st_find k (elapse n st) = (case st_find k st of None \<Rightarrow>
     (case map_of (st_data st) k of Some (d, Some t) \<Rightarrow> if st_now st + n < t then Some (d, Some t) else None | _ \<Rightarrow> None)
   | Some (d, e) \<Rightarrow> if live e (elapse n st) then Some (d, e) else None)"
  by (auto simp: st_find_def elapse_def live_def split: option.splits)

lemma st_find_elapse_None: "0 \<le> n \<Longrightarrow> st_find k st = None \<Longrightarrow> st_find k (elapse n st) = None"
  by (auto simp: st_find_def elapse_def split: option.splits if_splits)

lemma st_find_elapse_Some: "st_find k st = Some (d, e) \<Longrightarrow>
  st_find k (elapse n st) = (if live e (elapse n st) then Some (d, e) else None)"
  by (auto simp: st_find_def elapse_def live_def split: option.splits if_splits)

lemma st_find_foldr_del: "st_find k (foldr st_del ks st) = (if k \<in> set ks then None else st_find k st)"
  by (induction ks) auto

lemma st_now_foldr_del [simp]: "st_now (foldr st_del ks st) = st_now st"
  by (induction ks) auto

lemma list_range_all [simp]: "list_range 0 (- 1) l = l"
  by (cases l) (simp_all add: list_range_def list_index_def Let_def)

section \<open>A server with its telemetry\<close>

text \<open>The sink that forgets.\<close>

definition no_emit :: "tele \<Rightarrow> store \<Rightarrow> store" where
  "no_emit t st = st"

lemma tell_no_emit [simp]: "tell no_emit t = io_ret ()"
  by (simp add: tell_def no_emit_def io_ret_def fun_eq_iff)

locale worker = redis_server R view for R :: "'s redis" and view :: "'s \<Rightarrow> store" +
  fixes emit :: "tele \<Rightarrow> 's \<Rightarrow> 's"
  assumes emit_frame: "view (emit t s) = view s"
begin

lemma sim_tell [sim]: "io_sim view (tell emit t) (io_ret ())"
  by (simp add: io_sim_def tell_def io_ret_def emit_frame)

lemma sim_tell_tell [sim]: "io_sim view (tell emit t) (tell no_emit t)"
  using sim_tell by simp

end

text \<open>The server and sink that keep both in one pair.\<close>

type_synonym pworld = "store \<times> tele list"

definition lift_cmd :: "(store, 'a) io \<Rightarrow> (pworld, 'a) io" where
  "lift_cmd m w = (let (a, st) = m (fst w) in (a, (st, snd w)))"

definition pair_redis :: "pworld redis" where
  "pair_redis = \<lparr>r_get = \<lambda>k. lift_cmd (st_get k), r_setex = \<lambda>k n v. lift_cmd (st_setex k n v),
     r_set_nx = \<lambda>k v n. lift_cmd (st_set_nx k v n), r_delete = \<lambda>ks. lift_cmd (st_delete ks),
     r_incr = \<lambda>k. lift_cmd (st_incr k), r_expire = \<lambda>k n. lift_cmd (st_expire k n),
     r_ttl = \<lambda>k. lift_cmd (st_ttl k), r_rpush = \<lambda>k vs. lift_cmd (st_rpush k vs),
     r_lrange = \<lambda>k i j. lift_cmd (st_lrange k i j), r_ltrim = \<lambda>k i j. lift_cmd (st_ltrim k i j),
     r_llen = \<lambda>k. lift_cmd (st_llen k), r_head = \<lambda>k. lift_cmd (st_head k), r_lpop = \<lambda>k. lift_cmd (st_lpop k),
     r_hget = \<lambda>h f. lift_cmd (st_hget h f), r_hset = \<lambda>h f v. lift_cmd (st_hset h f v),
     r_scan = \<lambda>p. lift_cmd (st_scan p), r_unlock = \<lambda>k t. lift_cmd (st_unlock k t)\<rparr>"

definition pair_emit :: "tele \<Rightarrow> pworld \<Rightarrow> pworld" where
  "pair_emit t w = (fst w, snd w @ [t])"

lemma lift_cmd_sim: "io_sim fst (lift_cmd m) m"
  by (auto simp: io_sim_def lift_cmd_def Let_def split: prod.splits)

interpretation pair: worker pair_redis fst pair_emit
  by unfold_locales (simp_all add: pair_redis_def lift_cmd_sim pair_emit_def)

end
