(* ===== verification/Footprint.thy ===== *)
theory Footprint
  imports Redis
begin

text \<open>
  What a call may change. A reflexive and transitive relation between the world before and the world
  after (a key keeps its value, a clock does not go back) is respected by a program whose commands respect
  it: the locale \<open>io_order\<close> has the rule of every combinator, \<open>client_order\<close> adds the commands of a
  client on the keys of a set. It is interpreted below on the relation that a key of the store is untouched.
\<close>

definition io_within :: "('s \<Rightarrow> 's \<Rightarrow> bool) \<Rightarrow> ('s, 'a) io \<Rightarrow> bool" where
  "io_within r m \<longleftrightarrow> (\<forall>s. r s (snd (m s)))"

lemma io_withinD: "io_within r m \<Longrightarrow> r s (snd (m s))"
  by (simp add: io_within_def)

named_theorems within \<open>calls that stay within a relation\<close>

locale io_order =
  fixes r :: "'s \<Rightarrow> 's \<Rightarrow> bool"
  assumes r_refl: "r s s"
    and r_trans: "r s1 s2 \<Longrightarrow> r s2 s3 \<Longrightarrow> r s1 s3"
begin

lemma within_ret [within]: "io_within r (io_ret a)"
  by (simp add: io_within_def io_ret_def r_refl)

lemma within_raise [within]: "io_within r io_raise"
  by (simp add: io_within_def io_raise_def r_refl)

lemma within_bind [within]:
  assumes m: "io_within r m" and f: "\<And>a. io_within r (f a)"
  shows "io_within r (io_bind m f)"
  unfolding io_within_def
proof
  fix s
  obtain a s' where run: "m s = (a, s')" by fastforce
  from io_withinD [OF m, of s] run have here: "r s s'" by simp
  show "r s (snd (io_bind m f s))"
  proof (cases a)
    case None
    with run here show ?thesis by (simp add: io_bind_def)
  next
    case (Some b)
    from io_withinD [OF f, of s' b] here have "r s (snd (f b s'))" by (rule r_trans [rotated])
    with run Some show ?thesis by (simp add: io_bind_def)
  qed
qed

lemma within_seq [within]: "io_within r m \<Longrightarrow> io_within r n \<Longrightarrow> io_within r (io_seq m n)"
  unfolding io_seq_def by (rule within_bind)

lemma within_try [within]:
  assumes m: "io_within r m" and h: "io_within r h"
  shows "io_within r (io_try m h)"
  unfolding io_within_def
proof
  fix s
  obtain a s' where run: "m s = (a, s')" by fastforce
  from io_withinD [OF m, of s] run have here: "r s s'" by simp
  show "r s (snd (io_try m h s))"
  proof (cases a)
    case None
    from io_withinD [OF h, of s'] here have "r s (snd (h s'))" by (rule r_trans [rotated])
    with run None show ?thesis by (simp add: io_try_def)
  next
    case (Some b)
    with run here show ?thesis by (simp add: io_try_def)
  qed
qed

lemma within_attempt [within]: "io_within r m \<Longrightarrow> io_within r (io_attempt m)"
  unfolding io_within_def io_attempt_def by (metis (no_types, lifting) case_prod_beta option.case_eq_if snd_conv)

lemma within_if [within]: "io_within r m \<Longrightarrow> io_within r n \<Longrightarrow> io_within r (if b then m else n)"
  by simp

lemma within_option [within]: "io_within r m \<Longrightarrow> (\<And>x. io_within r (f x)) \<Longrightarrow>
  io_within r (case o' of None \<Rightarrow> m | Some x \<Rightarrow> f x)"
  by (cases o') auto

lemma within_prod [within]: "(\<And>x y. io_within r (f x y)) \<Longrightarrow> io_within r (case p of (x, y) \<Rightarrow> f x y)"
  by (cases p) auto

lemma within_list [within]: "io_within r m \<Longrightarrow> (\<And>x y. io_within r (f x y)) \<Longrightarrow>
  io_within r (case l of [] \<Rightarrow> m | x # y \<Rightarrow> f x y)"
  by (cases l) auto

lemma within_pyval [within]:
  "io_within r n \<Longrightarrow> (\<And>b. io_within r (fb b)) \<Longrightarrow> (\<And>i. io_within r (fi i)) \<Longrightarrow>
   (\<And>t. io_within r (fs t)) \<Longrightarrow> (\<And>l. io_within r (fl l)) \<Longrightarrow> (\<And>d. io_within r (fd d)) \<Longrightarrow>
   io_within r (case v of PNone \<Rightarrow> n | PBool b \<Rightarrow> fb b | PInt i \<Rightarrow> fi i | PStr t \<Rightarrow> fs t
     | PList l \<Rightarrow> fl l | PDict d \<Rightarrow> fd d)"
  by (cases v) auto

lemma within_for [within]: "(\<And>x. io_within r (f x)) \<Longrightarrow> io_within r (io_for xs f)"
  by (induction xs) (auto intro: within)

end

locale client_order = io_order r for r :: "'s \<Rightarrow> 's \<Rightarrow> bool" +
  fixes R :: "'s redis" and emit :: "tele \<Rightarrow> 's \<Rightarrow> 's" and free :: "string \<Rightarrow> bool"
  assumes within_get [within]: "io_within r (r_get R k)"
    and within_setex: "free k \<Longrightarrow> io_within r (r_setex R k n v)"
    and within_set_nx: "free k \<Longrightarrow> io_within r (r_set_nx R k v n)"
    and within_delete: "(\<And>k. k \<in> set ks \<Longrightarrow> free k) \<Longrightarrow> io_within r (r_delete R ks)"
    and within_incr: "free k \<Longrightarrow> io_within r (r_incr R k)"
    and within_expire: "free k \<Longrightarrow> io_within r (r_expire R k n)"
    and within_ttl [within]: "io_within r (r_ttl R k)"
    and within_rpush: "free k \<Longrightarrow> io_within r (r_rpush R k vs)"
    and within_lrange [within]: "io_within r (r_lrange R k i j)"
    and within_ltrim: "free k \<Longrightarrow> io_within r (r_ltrim R k i j)"
    and within_llen [within]: "io_within r (r_llen R k)"
    and within_head [within]: "io_within r (r_head R k)"
    and within_lpop: "free k \<Longrightarrow> io_within r (r_lpop R k)"
    and within_hget [within]: "io_within r (r_hget R h f)"
    and within_hset: "free h \<Longrightarrow> io_within r (r_hset R h f v)"
    and within_scan [within]: "io_within r (r_scan R p)"
    and within_unlock: "free k \<Longrightarrow> io_within r (r_unlock R k tok)"
    and emit_within: "r s (emit t s)"
begin

lemma within_tell [within]: "io_within r (tell emit t)"
  by (simp add: io_within_def tell_def emit_within)

end

section \<open>A key of the store is untouched\<close>

definition same_key :: "('s \<Rightarrow> store) \<Rightarrow> string \<Rightarrow> 's \<Rightarrow> 's \<Rightarrow> bool" where
  "same_key view k s s' \<longleftrightarrow> st_find k (view s') = st_find k (view s)"

lemma same_key_sim:
  assumes "io_sim view m m'" "\<And>st. st_find k (snd (m' st)) = st_find k st"
  shows "io_within (same_key view k) m"
  using assms io_sim_snd [OF assms(1)] by (simp add: io_within_def same_key_def)

text \<open>A key and the clock are untouched.\<close>

definition key_and_clock :: "('s \<Rightarrow> store) \<Rightarrow> string \<Rightarrow> 's \<Rightarrow> 's \<Rightarrow> bool" where
  "key_and_clock view k s s' \<longleftrightarrow> st_find k (view s') = st_find k (view s) \<and> st_now (view s') = st_now (view s)"

lemma key_and_clock_sim:
  assumes "io_sim view m m'" "\<And>st. st_find k (snd (m' st)) = st_find k st" "\<And>st. st_now (snd (m' st)) = st_now st"
  shows "io_within (key_and_clock view k) m"
  using assms io_sim_snd [OF assms(1)] by (simp add: io_within_def key_and_clock_def)

lemma now_foldr_del [simp]: "st_now (foldr st_del ks st) = st_now st"
  by (induction ks) simp_all

context worker
begin

lemma same_key_client: "client_order (same_key view k) R emit (\<lambda>k'. k' \<noteq> k)"
proof
  fix s s1 s2 s3
  show "same_key view k s s" by (simp add: same_key_def)
  show "same_key view k s1 s2 \<Longrightarrow> same_key view k s2 s3 \<Longrightarrow> same_key view k s1 s3" by (simp add: same_key_def)
next
  show "same_key view k s (emit t s)" for s t by (simp add: same_key_def emit_frame)
next
  show "io_within (same_key view k) (r_delete R ks)" if "\<And>k'. k' \<in> set ks \<Longrightarrow> k' \<noteq> k" for ks
  proof (rule same_key_sim [OF sim_delete])
    from that have "k \<notin> set ks" by blast
    then show "st_find k (snd (st_delete ks st)) = st_find k st" for st by (simp add: st_delete_def st_find_foldr_del)
  qed
qed (auto intro!: same_key_sim [OF sim_get] same_key_sim [OF sim_setex] same_key_sim [OF sim_set_nx]
    same_key_sim [OF sim_incr] same_key_sim [OF sim_expire] same_key_sim [OF sim_ttl] same_key_sim [OF sim_rpush]
    same_key_sim [OF sim_lrange] same_key_sim [OF sim_ltrim] same_key_sim [OF sim_llen] same_key_sim [OF sim_head]
    same_key_sim [OF sim_lpop] same_key_sim [OF sim_hget] same_key_sim [OF sim_hset] same_key_sim [OF sim_scan]
    same_key_sim [OF sim_unlock]
    simp: st_get_def st_setex_def st_set_nx_def st_incr_def st_expire_def st_ttl_def st_rpush_def st_lrange_def
      st_ltrim_def st_llen_def st_head_def st_lpop_def st_hget_def st_hset_def st_scan_def st_unlock_def
    split: option.splits rdata.splits prod.splits if_splits)

lemma key_and_clock_client: "client_order (key_and_clock view k) R emit (\<lambda>k'. k' \<noteq> k)"
proof
  fix s s1 s2 s3
  show "key_and_clock view k s s" by (simp add: key_and_clock_def)
  show "key_and_clock view k s1 s2 \<Longrightarrow> key_and_clock view k s2 s3 \<Longrightarrow> key_and_clock view k s1 s3" by (simp add: key_and_clock_def)
next
  show "key_and_clock view k s (emit t s)" for s t by (simp add: key_and_clock_def emit_frame)
next
  show "io_within (key_and_clock view k) (r_delete R ks)" if "\<And>k'. k' \<in> set ks \<Longrightarrow> k' \<noteq> k" for ks
  proof (rule key_and_clock_sim [OF sim_delete])
    from that have "k \<notin> set ks" by blast
    then show "st_find k (snd (st_delete ks st)) = st_find k st" for st by (simp add: st_delete_def st_find_foldr_del)
    show "st_now (snd (st_delete ks st)) = st_now st" for st by (simp add: st_delete_def)
  qed
qed (auto intro!: key_and_clock_sim [OF sim_get] key_and_clock_sim [OF sim_setex] key_and_clock_sim [OF sim_set_nx]
    key_and_clock_sim [OF sim_incr] key_and_clock_sim [OF sim_expire] key_and_clock_sim [OF sim_ttl] key_and_clock_sim [OF sim_rpush]
    key_and_clock_sim [OF sim_lrange] key_and_clock_sim [OF sim_ltrim] key_and_clock_sim [OF sim_llen] key_and_clock_sim [OF sim_head]
    key_and_clock_sim [OF sim_lpop] key_and_clock_sim [OF sim_hget] key_and_clock_sim [OF sim_hset] key_and_clock_sim [OF sim_scan]
    key_and_clock_sim [OF sim_unlock]
    simp: st_get_def st_setex_def st_set_nx_def st_incr_def st_expire_def st_ttl_def st_rpush_def st_lrange_def
      st_ltrim_def st_llen_def st_head_def st_lpop_def st_hget_def st_hset_def st_scan_def st_unlock_def
    split: option.splits rdata.splits prod.splits if_splits)

end

interpretation pair_key: client_order "same_key fst k" pair_redis pair_emit "\<lambda>k'. k' \<noteq> k" for k
  by (rule pair.same_key_client)

end
