(* ===== verification/Models.thy ===== *)
theory Models
  imports PyVal
begin

text \<open>
  The rows of the database the modelled code reads and writes (\<open>src/app/models\<close>): one record per
  table, one field per column, in the order of the source. A nullable column is an option (a nullable
  flag that is \<open>NULL\<close> is falsy in the code and reads \<^term>\<open>False\<close> through \<open>flag\<close>), an
  identifier is its text, an instant is a naive UTC datetime of Calendar, and the relationships the code
  follows (a device's group, subgroup and type, a tenant's plan) are the related row itself.
\<close>

definition flag :: "bool option \<Rightarrow> bool" where
  "flag b \<longleftrightarrow> b = Some True"

lemma flag_simps [simp]: "flag (Some b) = b" "\<not> flag None"
  by (simp_all add: flag_def)

section \<open>Devices and their groups\<close>

record device_type =
  dt_id :: string
  dt_name :: string
  dt_slug :: string
  dt_description :: "string option"
  dt_script_name :: string
  dt_required_parameters :: "string option"
  dt_default_port :: "int option"
  dt_use_telnet :: "bool option"
  dt_is_active :: "bool option"
  dt_category :: "string option"

record device_subgroup =
  sg_id :: string
  sg_tenant_id :: string
  sg_group_id :: string
  sg_name :: string
  sg_connection_type :: string
  sg_is_active :: bool

record device_group =
  g_id :: string
  g_tenant_id :: string
  g_name :: string
  g_slug :: string
  g_description :: "string option"
  g_connection_type :: "string option"
  g_uses_vpn :: "bool option"
  g_vpn_type :: "string option"
  g_vpn_server :: "string option"
  g_vpn_username :: "string option"
  g_vpn_password_encrypted :: "string option"
  g_vpn_ipsec_secret_encrypted :: "string option"
  g_uses_jump_host :: "bool option"
  g_jump_host :: "string option"
  g_jump_port :: "int option"
  g_jump_username :: "string option"
  g_jump_password_encrypted :: "string option"
  g_jump_key_encrypted :: "string option"
  g_is_active :: "bool option"

record device =
  d_id :: string
  d_tenant_id :: string
  d_group :: "device_group option"
  d_subgroup :: "device_subgroup option"
  d_type :: "device_type option"
  d_name :: string
  d_ip_address :: string
  d_port :: "int option"
  d_username :: string
  d_password_encrypted :: string
  d_use_telnet :: "bool option"
  d_is_vpn_gateway :: "bool option"
  d_backup_scheduled :: "bool option"
  d_extra_parameters :: pyval
  d_is_active :: "bool option"
  d_last_backup_at :: "naive option"
  d_last_backup_status :: "string option"
  d_last_connection_status :: "string option"

section \<open>Tenants, plans and users\<close>

record plan =
  p_id :: string
  p_name :: string
  p_price_monthly :: int
  p_price_yearly :: int
  p_trial_days :: "int option"
  p_billing_period_days :: int
  p_payment_grace_days :: int
  p_max_devices :: int
  p_max_users :: int
  p_backup_retention_days :: "int option"
  p_storage_quota_gb :: int
  p_download_quota_gb_month :: int
  p_max_download_rate_mbps :: int
  p_is_active :: "bool option"

record tenant =
  t_id :: string
  t_name :: string
  t_slug :: string
  t_email :: string
  t_is_active :: "bool option"
  t_trial_ends_at :: "naive option"
  t_subscription_status :: "string option"
  t_current_period_end :: "naive option"
  t_billing_blocked_at :: "naive option"
  t_deleted_at :: "naive option"
  t_deleted_by :: "string option"
  t_delete_reason :: "string option"
  t_deleted_was_active :: bool
  t_plan :: "plan option"
  t_access_unlimited :: bool
  t_protected_system_tenant :: bool

datatype user_role = SUPER_ADMIN | TENANT_OWNER | TENANT_ADMIN | TENANT_TECHNICIAN | TENANT_VIEWER

record user =
  u_id :: string
  u_tenant_id :: "string option"
  u_email :: string
  u_password_hash :: string
  u_full_name :: string
  u_role :: user_role
  u_is_active :: "bool option"
  u_totp_secret :: "string option"
  u_must_change_password :: bool
  u_password_changed_at :: "naive option"

section \<open>Backups and schedules\<close>

datatype backup_status = PENDING | IN_PROGRESS | SUCCESS | FAILED

record backup =
  b_id :: string
  b_device_id :: string
  b_file_path :: "string option"
  b_file_size_bytes :: "int option"
  b_hash_sha256 :: "string option"
  b_status :: backup_status
  b_error_message :: "string option"
  b_started_at :: "naive option"
  b_completed_at :: "naive option"
  b_created_at :: "naive option"

datatype schedule_frequency = DAILY | WEEKLY | MONTHLY

record schedule =
  s_id :: string
  s_device_id :: string
  s_frequency :: schedule_frequency
  s_time :: string
  s_day_of_week :: "int option"
  s_day_of_month :: "int option"
  s_is_active :: "bool option"
  s_last_run_at :: "naive option"
  s_next_run_at :: "naive option"

section \<open>Blank rows\<close>

text \<open>Rows with the column defaults of the source; examples are written as updates of them.\<close>

definition blank_type :: device_type where
  "blank_type = \<lparr>dt_id = ''t'', dt_name = [], dt_slug = [], dt_description = None, dt_script_name = [],
     dt_required_parameters = None, dt_default_port = Some 22, dt_use_telnet = Some False,
     dt_is_active = Some True, dt_category = Some ''other''\<rparr>"

definition blank_group :: device_group where
  "blank_group = \<lparr>g_id = ''g'', g_tenant_id = ''t'', g_name = ''Grupo'', g_slug = ''grupo'', g_description = None,
     g_connection_type = Some ''direct'', g_uses_vpn = Some False, g_vpn_type = Some ''l2tp'', g_vpn_server = None,
     g_vpn_username = None, g_vpn_password_encrypted = None, g_vpn_ipsec_secret_encrypted = None,
     g_uses_jump_host = Some False, g_jump_host = None, g_jump_port = Some 22, g_jump_username = None,
     g_jump_password_encrypted = None, g_jump_key_encrypted = None, g_is_active = Some True\<rparr>"

definition blank_device :: device where
  "blank_device = \<lparr>d_id = ''d'', d_tenant_id = ''t'', d_group = None, d_subgroup = None, d_type = None,
     d_name = ''olt'', d_ip_address = ''10.0.0.1'', d_port = Some 22, d_username = [], d_password_encrypted = [],
     d_use_telnet = Some False, d_is_vpn_gateway = Some False, d_backup_scheduled = Some False,
     d_extra_parameters = PDict [], d_is_active = Some True, d_last_backup_at = None,
     d_last_backup_status = Some ''never'', d_last_connection_status = Some ''unknown''\<rparr>"

definition blank_plan :: plan where
  "blank_plan = \<lparr>p_id = ''p'', p_name = [], p_price_monthly = 0, p_price_yearly = 0, p_trial_days = Some 14,
     p_billing_period_days = 30, p_payment_grace_days = 3, p_max_devices = 10, p_max_users = 5,
     p_backup_retention_days = Some 30, p_storage_quota_gb = 10, p_download_quota_gb_month = 20,
     p_max_download_rate_mbps = 0, p_is_active = Some True\<rparr>"

definition blank_tenant :: tenant where
  "blank_tenant = \<lparr>t_id = ''t'', t_name = [], t_slug = [], t_email = [], t_is_active = Some True,
     t_trial_ends_at = None, t_subscription_status = Some ''trial'', t_current_period_end = None,
     t_billing_blocked_at = None, t_deleted_at = None, t_deleted_by = None, t_delete_reason = None,
     t_deleted_was_active = False, t_plan = Some blank_plan, t_access_unlimited = False,
     t_protected_system_tenant = False\<rparr>"

end
