(* ===== verification/Diagnostics.thy ===== *)
theory Diagnostics
  imports Regex PyVal
begin

text \<open>
  \<open>app/services/backup_diagnostics.py\<close>: classification of failure messages, the readiness gate on
  the last connection test, normalisation of configuration text and the integrity check of a
  backup file. The file system is a parameter of the integrity check.
\<close>

section \<open>Failure categories\<close>

definition FAILURE_LABELS :: "(string \<times> string) list" where
  "FAILURE_LABELS =
     [(''auth'', ''Autenticacao''),
      (''timeout'', ''Timeout''),
      (''banner_timeout'', ''Banner SSH (sobrecarga/lentidao)''),
      (''jump_session_closed'', ''Sessao Jump Host encerrada''),
      (''port_refused'', ''Porta recusada''),
      (''vpn'', ''VPN''),
      (''no_ping'', ''Sem ping''),
      (''connection'', ''Conectividade''),
      (''circuit_breaker'', ''Jump Host bloqueado (Circuit Breaker)''),
      (''script'', ''Script''),
      (''unknown'', ''Outros'')]"

definition TRANSIENT_FAILURE_CATEGORIES :: "string list" where
  "TRANSIENT_FAILURE_CATEGORIES = [''timeout'', ''connection'', ''vpn'', ''jump_session_closed'']"

abbreviation jump_closed_markers :: "string list" where
  "jump_closed_markers \<equiv>
     [''sessao com jump host encerrada'',
      ''sess'' @ [CHR 0xE3] @ ''o com jump host encerrada'',
      ''nao foi possivel abrir shell interativo no jump host'',
      ''n'' @ [CHR 0xE3] @ ''o foi poss'' @ [CHR 0xED] @ ''vel abrir shell interativo no jump host'']"

abbreviation unreachable_markers :: "string list" where
  "unreachable_markers \<equiv>
     [''rede inalcan'',
      ''n'' @ [CHR 0xE3] @ ''o foi poss'' @ [CHR 0xED] @ ''vel acessar a porta'',
      ''nao foi possivel acessar a porta'',
      ''precheck/fail-fast'']"

definition classify_failure :: "string option \<Rightarrow> string" where
  "classify_failure message =
     (let txt = py_lower (py_strip (or_empty message)) in
      if txt = [] then ''unknown''
      else if py_in ''circuit breaker'' txt \<and>
        (py_in ''aberto'' txt \<or> py_in ''ativado'' txt \<or> py_in ''bloqueado'' txt) then ''circuit_breaker''
      else if py_in ''error reading ssh protocol banner'' txt then ''banner_timeout''
      else if any_in jump_closed_markers txt then ''jump_session_closed''
      else if any_in [''timed out'', ''timeout'', ''timeoutexception'', ''softtimelimitexceeded''] txt
        then ''timeout''
      else if any_in unreachable_markers txt then ''connection''
      else if any_in [''connection refused'', ''refused'', ''errno 111'', ''port closed''] txt
        then ''port_refused''
      else if any_in [''eof'', ''connection closed'', ''socket'', ''network'', ''host unreachable'',
          ''no route to host'', ''tcp connection'', ''ssh'', ''telnet''] txt then ''connection''
      else if any_in [''sem resposta ao ping'', ''no ping'', ''icmp'', ''100% packet loss''] txt
        then ''no_ping''
      else if any_in [''auth'', ''autentic'', ''credencia'', ''senha'', ''password'', ''access denied'',
          ''permission denied'', ''login failed'', ''unauthorized'', ''invalid credentials''] txt then ''auth''
      else if any_in [''vpn'', ''nmcli'', ''l2tp'', ''ipsec'', ''ppp''] txt then ''vpn''
      else if any_in [''script'', ''traceback'', ''syntaxerror'', ''attributeerror'', ''typeerror'',
          ''keyerror'', ''modulenotfound'', ''importerror''] txt then ''script''
      else ''unknown'')"

definition failure_label :: "string option \<Rightarrow> string" where
  "failure_label category =
     (case map_of FAILURE_LABELS (py_lower (py_strip (or_empty category))) of
        Some l \<Rightarrow> l
      | None \<Rightarrow> the (map_of FAILURE_LABELS ''unknown''))"

definition is_transient_failure :: "string option \<Rightarrow> bool" where
  "is_transient_failure category \<longleftrightarrow>
     py_lower (py_strip (or_empty category)) \<in> set TRANSIENT_FAILURE_CATEGORIES"

text \<open>The rules as a table, in the order in which the code tries them: the first marker list with
  a marker in the text decides. The first rule needs two markers and is kept apart.\<close>

definition failure_rules :: "(string \<times> string list) list" where
  "failure_rules =
     [(''banner_timeout'', [''error reading ssh protocol banner'']),
      (''jump_session_closed'', jump_closed_markers),
      (''timeout'', [''timed out'', ''timeout'', ''softtimelimitexceeded'']),
      (''connection'', unreachable_markers),
      (''port_refused'', [''refused'', ''errno 111'', ''port closed'']),
      (''connection'', [''eof'', ''connection closed'', ''socket'', ''network'', ''host unreachable'',
          ''no route to host'', ''tcp connection'', ''ssh'', ''telnet'']),
      (''no_ping'', [''sem resposta ao ping'', ''no ping'', ''icmp'', ''100% packet loss'']),
      (''auth'', [''auth'', ''credencia'', ''autentic'', ''senha'', ''password'', ''access denied'',
          ''permission denied'', ''login failed'', ''invalid credentials'']),
      (''vpn'', [''vpn'', ''nmcli'', ''l2tp'', ''ipsec'', ''ppp'']),
      (''script'', [''script'', ''traceback'', ''syntaxerror'', ''attributeerror'', ''typeerror'',
          ''keyerror'', ''modulenotfound'', ''importerror''])]"

definition classify_spec :: "string \<Rightarrow> string" where
  "classify_spec txt =
     (if py_in ''circuit breaker'' txt \<and> any_in [''aberto'', ''ativado'', ''bloqueado''] txt
      then ''circuit_breaker''
      else case find (\<lambda>(c, ms). any_in ms txt) failure_rules of
             None \<Rightarrow> ''unknown'' | Some (c, _) \<Rightarrow> c)"

lemma any_in_Cons [simp]: "any_in (m # ms) s \<longleftrightarrow> py_in m s \<or> any_in ms s"
  and any_in_Nil [simp]: "any_in [] s \<longleftrightarrow> False"
  by (simp_all add: any_in_def)

lemma any_in_iff: "any_in ms s \<longleftrightarrow> (\<exists>m \<in> set ms. py_in m s)"
  by (auto simp: any_in_def list_ex_iff)

lemma py_in_shorter: "py_in long s \<Longrightarrow> py_in short long \<Longrightarrow> py_in short s"
  by (rule py_in_trans)

lemma subsumed_markers:
  "py_in ''timeoutexception'' s \<Longrightarrow> py_in ''timeout'' s"
  "py_in ''connection refused'' s \<Longrightarrow> py_in ''refused'' s"
  "py_in ''unauthorized'' s \<Longrightarrow> py_in ''auth'' s"
  by (erule py_in_shorter, code_simp)+

lemma redundant_markers:
  "any_in [''timed out'', ''timeout'', ''timeoutexception'', ''softtimelimitexceeded''] s
     = any_in [''timed out'', ''timeout'', ''softtimelimitexceeded''] s"
  "any_in [''connection refused'', ''refused'', ''errno 111'', ''port closed''] s
     = any_in [''refused'', ''errno 111'', ''port closed''] s"
  "any_in [''auth'', ''autentic'', ''credencia'', ''senha'', ''password'', ''access denied'',
      ''permission denied'', ''login failed'', ''unauthorized'', ''invalid credentials''] s
     = any_in [''auth'', ''credencia'', ''autentic'', ''senha'', ''password'', ''access denied'',
      ''permission denied'', ''login failed'', ''invalid credentials''] s"
  "py_in ''aberto'' s \<or> py_in ''ativado'' s \<or> py_in ''bloqueado'' s
     \<longleftrightarrow> any_in [''aberto'', ''ativado'', ''bloqueado''] s"
  "py_in ''error reading ssh protocol banner'' s = any_in [''error reading ssh protocol banner''] s"
  using subsumed_markers [of s] by (simp_all only: any_in_Cons any_in_Nil) blast+

lemma find_Cons: "find P (x # xs) = (if P x then Some x else find P xs)"
  by simp

lemma classify_failure_spec:
  "classify_failure m = (let txt = py_lower (py_strip (or_empty m)) in
     if txt = [] then ''unknown'' else classify_spec txt)"
  unfolding classify_failure_def classify_spec_def failure_rules_def redundant_markers Let_def
    find.simps case_prod_conv
  by (simp only: if_distrib [where f = "case_option ''unknown'' (\<lambda>(c, _). c)"] option.case case_prod_conv)

lemma map_of_find_rules: "c \<in> fst ` set failure_rules \<Longrightarrow> c \<in> fst ` set FAILURE_LABELS"
  by (auto simp: failure_rules_def FAILURE_LABELS_def)

lemma classify_spec_known: "classify_spec txt \<in> fst ` set FAILURE_LABELS"
proof (cases "find (\<lambda>(c, ms). any_in ms txt) failure_rules")
  case None
  then show ?thesis by (simp add: classify_spec_def FAILURE_LABELS_def)
next
  case (Some r)
  then have "r \<in> set failure_rules" by (auto simp: find_Some_iff) (metis nth_mem)
  then have "fst r \<in> fst ` set FAILURE_LABELS" by (intro map_of_find_rules) auto
  with Some show ?thesis by (auto simp: classify_spec_def FAILURE_LABELS_def split: prod.splits)
qed

lemma classify_failure_known: "classify_failure m \<in> fst ` set FAILURE_LABELS"
  using classify_spec_known by (simp add: classify_failure_spec Let_def FAILURE_LABELS_def)

lemma classify_breaker_text:
  assumes "py_strip m = m" "py_in ''circuit breaker'' (py_lower m)"
    "any_in [''aberto'', ''ativado'', ''bloqueado''] (py_lower m)"
  shows "classify_failure (Some m) = ''circuit_breaker''"
proof -
  have "py_lower m \<noteq> []" using assms(2) by (cases m) auto
  with assms show ?thesis by (simp add: classify_failure_spec classify_spec_def or_empty_def Let_def)
qed

section \<open>Readiness of a device\<close>

definition replace_char :: "char \<Rightarrow> string \<Rightarrow> string \<Rightarrow> string" where
  "replace_char c by_str s = concat (map (\<lambda>d. if d = c then by_str else [d]) s)"

text \<open>Instants are naive UTC values; \<^const>\<open>None\<close> covers the exception of an unreadable text.\<close>

definition parse_iso_utc :: "pyval \<Rightarrow> naive option" where
  "parse_iso_utc value =
     (if \<not> truthy value then None
      else case fromisoformat (replace_char CHR ''Z'' ''+00:00'' (py_str value)) of
             None \<Rightarrow> None
           | Some (t, off) \<Rightarrow>
               (let u = (case off of None \<Rightarrow> t | Some z \<Rightarrow> t - z)
                in if valid_naive u then Some u else None))"

definition is_connection_ready_recent :: "pyval \<Rightarrow> int \<Rightarrow> naive \<Rightarrow> bool \<times> string" where
  "is_connection_ready_recent extra_parameters max_age_minutes now_utc =
     (let extra = as_dict extra_parameters;
          group = py_lower (py_strip (str_or_empty (dget extra ''connection_test_group'')))
      in if group \<noteq> ''ready'' then (False, ''sem ping+login OK no ultimo teste'')
         else case parse_iso_utc (dget extra ''connection_test_last_at'') of
                None \<Rightarrow> (False, ''sem timestamp do ultimo teste ping/login'')
              | Some last_at \<Rightarrow>
                  (let age = (if max_age_minutes = 0 then 30 else max_age_minutes);
                       cutoff = now_utc - max 1 age * 60 * US
                   in if last_at < cutoff
                      then (False, ''teste ping/login desatualizado (> '' @ show_int age @ '' min)'')
                      else (True, ''ready'')))"

definition is_connection_ready_for_backup :: "pyval \<Rightarrow> bool \<times> string" where
  "is_connection_ready_for_backup extra_parameters =
     (let extra = as_dict extra_parameters;
          group = py_lower (py_strip (str_or_empty (dget extra ''connection_test_group'')))
      in if group \<noteq> ''ready'' then (False, ''sem ping+login OK no ultimo teste'')
         else case parse_iso_utc (dget extra ''connection_test_last_at'') of
                None \<Rightarrow> (False, ''sem timestamp do ultimo teste ping/login'')
              | Some last_at \<Rightarrow> (True, ''ready''))"

section \<open>Configuration text\<close>

definition months_rx :: rx where
  "months_rx = rx_alts (map rx_lit [''jan'', ''fev'', ''mar'', ''apr'', ''may'', ''jun'', ''jul'', ''aug'',
     ''sep'', ''oct'', ''nov'', ''dec''])"

definition ROUTEROS_TIMESTAMP_RE :: rx where
  "ROUTEROS_TIMESTAMP_RE =
     rx_seqs [RxStar rx_space, rx_lit ''#'', rx_plus rx_space, rx_plus rx_any, rx_plus rx_space, rx_lit ''by'',
       rx_plus rx_space, rx_lit ''routeros'', rx_plus rx_space, rx_plus rx_any]"

definition VOLATILE_LINE_PATTERNS :: "rx list" where
  "VOLATILE_LINE_PATTERNS =
     [rx_seqs [RxStar rx_space, rx_lit ''#'', rx_plus rx_space, months_rx,
        RxCh (\<lambda>c. c = CHR ''/'' \<or> c = CHR ''-'' \<or> py_is_space c), rx_all],
      rx_seqs [RxStar rx_space, rx_lit ''current configuration'', RxStar rx_space, rx_lit '':'', RxStar rx_any],
      rx_seqs [RxStar rx_space, rx_lit ''building configuration'', RxStar rx_any],
      rx_seqs [RxStar rx_space, rx_lit ''last configuration change'', RxStar rx_any],
      rx_seqs [RxStar rx_space, rx_lit ''ntp clock-period'', RxStar rx_any],
      rx_seqs [RxStar rx_space, rx_lit ''!'', RxStar rx_space, rx_lit ''time:'', RxStar rx_space, RxStar rx_any],
      rx_seqs [RxStar rx_space, rx_lit ''!'', RxStar rx_space, rx_lit ''generated'', RxStar rx_any]]"

fun universal_newlines :: "string \<Rightarrow> string" where
  "universal_newlines [] = []"
| "universal_newlines [c] = (if c = CHR 0x0D then [CHR 0x0A] else [c])"
| "universal_newlines (c # d # s) =
     (if c = CHR 0x0D then
        (if d = CHR 0x0A then CHR 0x0A # universal_newlines s
         else CHR 0x0A # universal_newlines (d # s))
      else c # universal_newlines (d # s))"

definition is_volatile :: "string \<Rightarrow> bool" where
  "is_volatile line \<longleftrightarrow> rx_match ROUTEROS_TIMESTAMP_RE line \<or>
     list_ex (\<lambda>p. rx_match p line) VOLATILE_LINE_PATTERNS"

fun drop_volatile :: "string list \<Rightarrow> string list \<times> nat" where
  "drop_volatile [] = ([], 0)"
| "drop_volatile (raw # ls) =
     (let line = py_rstrip raw; (kept, dropped) = drop_volatile ls
      in if is_volatile line then (kept, Suc dropped) else (line # kept, dropped))"

fun compact_blanks :: "nat \<Rightarrow> string list \<Rightarrow> string list \<times> nat" where
  "compact_blanks streak [] = ([], 0)"
| "compact_blanks streak (line # ls) =
     (if py_strip line = [] then
        (if Suc streak > 1 then
           (let (kept, dropped) = compact_blanks (Suc streak) ls in (kept, Suc dropped))
         else (let (kept, dropped) = compact_blanks (Suc streak) ls in (line # kept, dropped)))
      else (let (kept, dropped) = compact_blanks 0 ls in (line # kept, dropped)))"

definition normalize_config_lines :: "string option \<Rightarrow> string list \<times> nat" where
  "normalize_config_lines content =
     (let lines = py_split CHR 0x0A (universal_newlines (or_empty content));
          (normalized, dropped) = drop_volatile lines;
          (compact, dropped2) = compact_blanks 0 normalized
      in (compact, dropped + dropped2))"

section \<open>Integrity of a backup file\<close>

text \<open>\<open>content.splitlines()\<close> and the length of the UTF-8 encoding.\<close>

definition is_line_break :: "char \<Rightarrow> bool" where
  "is_line_break c \<longleftrightarrow> (let n = (of_char c :: nat) in (10 \<le> n \<and> n \<le> 13) \<or> (28 \<le> n \<and> n \<le> 30) \<or> n = 133)"

fun splitlines_aux :: "string \<Rightarrow> string \<Rightarrow> string list" where
  "splitlines_aux acc [] = (if acc = [] then [] else [rev acc])"
| "splitlines_aux acc [c] = (if is_line_break c then [rev acc] else [rev (c # acc)])"
| "splitlines_aux acc (c # d # s) =
     (if c = CHR 0x0D \<and> d = CHR 0x0A then rev acc # splitlines_aux [] s
      else if is_line_break c then rev acc # splitlines_aux [] (d # s)
      else splitlines_aux (c # acc) (d # s))"

definition py_splitlines :: "string \<Rightarrow> string list" where
  "py_splitlines s = splitlines_aux [] s"

definition utf8_length :: "string \<Rightarrow> int" where
  "utf8_length s = int (sum_list (map (\<lambda>c. if (of_char c :: nat) < 128 then 1 else 2) s))"

definition HARD_ERROR_TOKENS :: "string list" where
  "HARD_ERROR_TOKENS = [''connection refused'', ''unable to connect'', ''authentication failed'',
     ''invalid input'', ''unknown command'', ''syntax error'', ''error:'', ''traceback'']"

record integrity =
  result_ok :: bool
  result_reason :: string
  size_bytes :: int
  line_count :: int
  markers_found :: "string list"

definition expected_markers :: "string \<Rightarrow> string list" where
  "expected_markers token =
     (if any_in [''mikrotik'', ''routeros''] token then [''/interface'', ''/ip'', ''routeros'', ''# model ='']
      else if py_in ''huawei'' token then [''display current-configuration'', ''sysname'', ''interface'', ''vlan'']
      else if py_in ''zte'' token then [''show running-config'', ''interface'', ''vlan'']
      else if py_in ''fiberhome'' token then [''show running-config'', ''terminal length 0'', ''interface'']
      else if py_in ''datacom'' token then [''show running-config'', ''interface'', ''vlan'']
      else if py_in ''intelbras'' token then [''show running-config'', ''interface'']
      else if py_in ''parks'' token then [''show running-config'', ''interface'']
      else if py_in ''fortinet'' token then [''config system'', ''set hostname'', ''config firewall'']
      else if py_in ''juniper'' token then [''set interfaces'', ''set system host-name'', ''set protocols'']
      else if py_in ''a10'' token then [''show running-config'', ''slb server'', ''slb virtual-server'']
      else if py_in ''switch'' token then [''interface'', ''vlan'', ''hostname'']
      else if py_in ''cisco'' token then [''version'', ''hostname'', ''interface'']
      else [])"

text \<open>The parameters \<open>open_zip\<close> (the entries of the archive as directory flag and size) and
  \<open>read_file\<close> (the decoded text) are the file system; \<^const>\<open>Inl\<close> carries the text of the exception.\<close>

definition validate_zip :: "(string \<Rightarrow> string + (bool \<times> int) list) \<Rightarrow> string \<Rightarrow> integrity" where
  "validate_zip open_zip file_path =
     (let r0 = \<lparr>result_ok = False, result_reason = [], size_bytes = 0, line_count = 0, markers_found = []\<rparr>
      in case open_zip file_path of
           Inl exc \<Rightarrow> r0\<lparr>result_reason := ''zip invalido: '' @ exc\<rparr>
         | Inr entries \<Rightarrow>
             (let infos = filter (\<lambda>(is_dir, _). \<not> is_dir) entries in
              if infos = [] then r0\<lparr>result_reason := ''zip sem arquivos de configuracao''\<rparr>
              else
                (let total_size = sum_list (map snd infos);
                     r1 = r0\<lparr>size_bytes := total_size, line_count := int (length infos)\<rparr>
                 in if total_size < 128 then r1\<lparr>result_reason := ''zip muito pequeno (<128 bytes)''\<rparr>
                    else r1\<lparr>result_ok := True, result_reason := ''integridade validada (zip)'',
                            markers_found := [''zip_entries='' @ show_int (int (length infos))]\<rparr>)))"

definition validate_text :: "string \<Rightarrow> string \<Rightarrow> string \<Rightarrow> integrity" where
  "validate_text content device_type_name script_name =
     (let size = utf8_length content; lines = int (length (py_splitlines content));
          r0 = \<lparr>result_ok = False, result_reason = [], size_bytes = size, line_count = lines, markers_found = []\<rparr>
      in if size < 128 then r0\<lparr>result_reason := ''arquivo muito pequeno (<128 bytes)''\<rparr>
         else if lines < 5 then r0\<lparr>result_reason := ''arquivo com poucas linhas (<5)''\<rparr>
         else
           (let content_l = py_lower content;
                token = py_lower device_type_name @ '' '' @ py_lower script_name @ '' '' @ take 4000 content_l;
                expected = expected_markers token;
                markers = filter (\<lambda>m. py_in (py_lower m) content_l) expected;
                r1 = r0\<lparr>markers_found := markers\<rparr>
            in if expected \<noteq> [] \<and> markers = [] then
                 (let hard_errors = length (filter (\<lambda>t. py_in t content_l) HARD_ERROR_TOKENS);
                      plausible = size \<ge> 512 \<and> lines \<ge> 20 \<and>
                        any_in [''interface'', ''vlan'', ''display'', ''startup'', ''running-config'', ''/ip'',
                          ''/interface''] content_l
                  in if plausible \<and> hard_errors \<le> 1
                     then r1\<lparr>result_ok := True,
                             result_reason := ''integridade validada por heuristica (firmware legado)'',
                             markers_found := [''heuristic_legacy'']\<rparr>
                     else r1\<lparr>result_reason := ''conteudo sem marcadores esperados para o tipo de equipamento''\<rparr>)
               else if expected = []
               then r1\<lparr>result_ok := True,
                       result_reason := ''integridade validada (sem markers especificos para este tipo)''\<rparr>
               else r1\<lparr>result_ok := True, result_reason := ''integridade validada''\<rparr>))"

definition validate_backup_integrity ::
  "(string \<Rightarrow> string + (bool \<times> int) list) \<Rightarrow> (string \<Rightarrow> string + string) \<Rightarrow>
   string option \<Rightarrow> string \<Rightarrow> string \<Rightarrow> integrity" where
  "validate_backup_integrity open_zip read_file file_path device_type_name script_name =
     (if or_empty file_path = []
      then \<lparr>result_ok = False, result_reason = ''arquivo ausente'', size_bytes = 0, line_count = 0, markers_found = []\<rparr>
      else if suffix ''.zip'' (py_lower (py_strip (or_empty file_path)))
      then validate_zip open_zip (or_empty file_path)
      else case read_file (or_empty file_path) of
             Inl exc \<Rightarrow> \<lparr>result_ok = False, result_reason = ''nao foi possivel ler arquivo: '' @ exc, size_bytes = 0,
                         line_count = 0, markers_found = []\<rparr>
           | Inr content \<Rightarrow> validate_text content device_type_name script_name)"

section \<open>Lemmas on the normalised configuration\<close>

text \<open>A line the normalisation keeps.\<close>

definition stable_line :: "string \<Rightarrow> bool" where
  "stable_line l \<longleftrightarrow> py_rstrip l = l \<and> \<not> is_volatile l \<and> CHR 0x0A \<notin> set l \<and> CHR 0x0D \<notin> set l"

text \<open>No two blank lines in a row.\<close>

fun no_double_blank :: "string list \<Rightarrow> bool" where
  "no_double_blank [] = True"
| "no_double_blank [l] = True"
| "no_double_blank (l # m # ls) \<longleftrightarrow> \<not> (py_strip l = [] \<and> py_strip m = []) \<and> no_double_blank (m # ls)"

lemma set_py_rstrip: "set (py_rstrip s) \<subseteq> set s"
  by (auto simp: py_rstrip_def dest: set_dropWhileD)

lemma universal_newlines_no_cr: "CHR 0x0D \<notin> set (universal_newlines s)"
  by (induction s rule: universal_newlines.induct) auto

lemma universal_newlines_id: "CHR 0x0D \<notin> set s \<Longrightarrow> universal_newlines s = s"
  by (induction s rule: universal_newlines.induct) auto

lemma drop_volatile_stable:
  assumes "drop_volatile ls = (kept, n)" "\<forall>l \<in> set ls. CHR 0x0A \<notin> set l \<and> CHR 0x0D \<notin> set l"
  shows "list_all stable_line kept \<and> length kept + n = length ls"
  using assms
proof (induction ls arbitrary: kept n)
  case (Cons raw ls)
  obtain k d where kd: "drop_volatile ls = (k, d)" by (cases "drop_volatile ls") auto
  with Cons have IH: "list_all stable_line k \<and> length k + d = length ls" by auto
  have "CHR 0x0A \<notin> set (py_rstrip raw) \<and> CHR 0x0D \<notin> set (py_rstrip raw)"
    using Cons.prems(2) set_py_rstrip [of raw] by auto
  with Cons.prems(1) kd IH show ?case
    by (auto simp: Let_def stable_line_def [of "py_rstrip raw"] split: if_splits)
qed simp

lemma drop_volatile_id: "list_all stable_line ls \<Longrightarrow> drop_volatile ls = (ls, 0)"
  by (induction ls) (auto simp: stable_line_def Let_def)

lemma compact_blanks_set:
  "compact_blanks k ls = (kept, n) \<Longrightarrow> set kept \<subseteq> set ls \<and> length kept + n = length ls"
proof (induction k ls arbitrary: kept n rule: compact_blanks.induct)
  case (2 k l ls)
  obtain a b where ab: "compact_blanks (Suc k) ls = (a, b)" by fastforce
  obtain c d where cd: "compact_blanks 0 ls = (c, d)" by fastforce
  from 2 ab cd show ?case by (auto simp: Let_def split: if_splits)
qed simp

lemma compact_blanks_no_double:
  "compact_blanks k ls = (kept, n) \<Longrightarrow> no_double_blank kept \<and>
     (0 < k \<longrightarrow> (case kept of [] \<Rightarrow> True | l # _ \<Rightarrow> py_strip l \<noteq> []))"
proof (induction k ls arbitrary: kept n rule: compact_blanks.induct)
  case (2 k l ls)
  obtain a b where ab: "compact_blanks (Suc k) ls = (a, b)" by fastforce
  obtain c d where cd: "compact_blanks 0 ls = (c, d)" by fastforce
  show ?case
  proof (cases "py_strip l = []")
    case True
    from "2.IH"(1,2) [OF True _ ab] have "no_double_blank a \<and> (case a of [] \<Rightarrow> True | l # _ \<Rightarrow> py_strip l \<noteq> [])"
      by (cases "1 < Suc k") auto
    with True "2.prems" ab show ?thesis
      by (cases a) (auto split: if_splits)
  next
    case False
    from "2.IH"(3) [OF False cd] have "no_double_blank c" by simp
    with False "2.prems" cd show ?thesis by (cases c) auto
  qed
qed simp

lemma compact_blanks_id:
  "no_double_blank ls \<Longrightarrow> (0 < k \<longrightarrow> (case ls of [] \<Rightarrow> True | l # _ \<Rightarrow> py_strip l \<noteq> [])) \<Longrightarrow>
     compact_blanks k ls = (ls, 0)"
proof (induction k ls rule: compact_blanks.induct)
  case (2 k l ls)
  then show ?case by (cases ls) auto
qed simp

lemma normalize_config_lines_props:
  assumes "normalize_config_lines content = (kept, dropped)"
  shows "list_all stable_line kept" "no_double_blank kept"
    "length kept + dropped = length (py_split CHR 0x0A (universal_newlines (or_empty content)))"
proof -
  define ls where "ls = py_split CHR 0x0A (universal_newlines (or_empty content))"
  have clean: "\<forall>l \<in> set ls. CHR 0x0A \<notin> set l \<and> CHR 0x0D \<notin> set l"
    using py_split_no_sep py_split_chars universal_newlines_no_cr unfolding ls_def by fastforce
  obtain k1 d1 where dv: "drop_volatile ls = (k1, d1)" by fastforce
  obtain k2 d2 where cb: "compact_blanks 0 k1 = (k2, d2)" by fastforce
  have res: "kept = k2" "dropped = d1 + d2"
    using assms dv cb by (simp_all add: normalize_config_lines_def ls_def [symmetric] Let_def)
  note A = drop_volatile_stable [OF dv clean] and B = compact_blanks_set [OF cb]
  show "list_all stable_line kept" using A B res by (auto simp: list_all_iff)
  show "no_double_blank kept" using compact_blanks_no_double [OF cb] res by simp
  show "length kept + dropped = length (py_split CHR 0x0A (universal_newlines (or_empty content)))"
    using A B res by (simp add: ls_def [symmetric])
qed

lemma set_py_join: "set (py_join sep ws) \<subseteq> insert sep (\<Union> (set ` set ws))"
  by (induction sep ws rule: py_join.induct) auto

lemma normalize_config_lines_stable:
  assumes "list_all stable_line ls" "no_double_blank ls" "ls \<noteq> []"
  shows "normalize_config_lines (Some (py_join CHR 0x0A ls)) = (ls, 0)"
proof -
  have "CHR 0x0D \<notin> set (py_join CHR 0x0A ls)"
    using set_py_join [of "CHR 0x0A" ls] assms(1) by (auto simp: list_all_iff stable_line_def)
  then have "universal_newlines (py_join CHR 0x0A ls) = py_join CHR 0x0A ls"
    by (rule universal_newlines_id)
  moreover have "py_split CHR 0x0A (py_join CHR 0x0A ls) = ls"
    using assms by (intro py_split_join) (auto simp: list_all_iff stable_line_def)
  ultimately show ?thesis
    using assms by (simp add: normalize_config_lines_def or_empty_def drop_volatile_id compact_blanks_id)
qed

section \<open>Properties\<close>

lemma failure_label_key: "c \<in> fst ` set FAILURE_LABELS \<Longrightarrow> failure_label (Some c) = the (map_of FAILURE_LABELS c)"
proof -
  have all: "\<forall>c \<in> set (map fst FAILURE_LABELS). failure_label (Some c) = the (map_of FAILURE_LABELS c)"
    by code_simp
  assume "c \<in> fst ` set FAILURE_LABELS"
  with all show ?thesis by auto
qed

text \<open>The cascade of substring tests in \<open>classify_failure\<close> is the first-match reading of the rule
  table, with the redundant markers removed: the circuit-breaker rule first, then the first rule with a
  marker in the normalised text, else \<open>unknown\<close>; the category it returns always has a label of its own.\<close>

theorem classification_is_first_match:
  "classify_failure m = (let txt = py_lower (py_strip (or_empty m)) in
     if txt = [] then ''unknown'' else classify_spec txt) \<and>
   (\<exists>l. map_of FAILURE_LABELS (classify_failure m) = Some l \<and> failure_label (Some (classify_failure m)) = l)"
proof
  show "classify_failure m = (let txt = py_lower (py_strip (or_empty m)) in
     if txt = [] then ''unknown'' else classify_spec txt)" by (rule classify_failure_spec)
  obtain l where "map_of FAILURE_LABELS (classify_failure m) = Some l"
    using classify_failure_known [of m] by (metis map_of_eq_None_iff not_None_eq)
  with failure_label_key [OF classify_failure_known, of m]
  show "\<exists>l. map_of FAILURE_LABELS (classify_failure m) = Some l \<and> failure_label (Some (classify_failure m)) = l"
    by simp
qed

text \<open>The normalisation of a configuration is a projection: the lines it keeps hold no volatile line,
  no trailing blanks and no two blank lines in a row, kept and dropped lines add up to the input, and
  normalising the kept lines again changes nothing.\<close>

theorem normalize_projection:
  assumes "normalize_config_lines content = (kept, dropped)" and "kept \<noteq> []"
  shows "normalize_config_lines (Some (py_join CHR 0x0A kept)) = (kept, 0) \<and> no_double_blank kept \<and>
    list_all (\<lambda>l. \<not> is_volatile l \<and> py_rstrip l = l) kept \<and>
    length kept + dropped = length (py_split CHR 0x0A (universal_newlines (or_empty content)))"
  using normalize_config_lines_props [OF assms(1)] normalize_config_lines_stable [OF _ _ assms(2)]
  by (auto simp: list_all_iff stable_line_def)

definition sample_config :: string where
  "sample_config = ''a'' @ [CHR 0x0D, CHR 0x0A, CHR 0x0A, CHR 0x0A] @ ''b ''"

theorem normalize_projection_witness:
  "normalize_config_lines (Some sample_config) = ([''a'', [], ''b''], 1) \<and>
   normalize_config_lines (Some (py_join CHR 0x0A [''a'', [], ''b''])) = ([''a'', [], ''b''], 0)"
proof -
  have run: "normalize_config_lines (Some sample_config) = ([''a'', [], ''b''], 1)" by code_simp
  from normalize_projection [OF run] show ?thesis by (simp only: run) simp
qed

text \<open>A file is accepted as a backup only with evidence: at least 128 bytes in a zip that holds a
  file, or at least 128 bytes and five lines of text that hold a marker of the device's family, or no
  family is known, or the text is long, looks like a configuration and holds at most one error message;
  a rejected file always comes with a reason.\<close>

theorem integrity_accepts_with_evidence:
  "(result_ok (validate_backup_integrity open_zip read_file path dt sn) \<longrightarrow>
     128 \<le> size_bytes (validate_backup_integrity open_zip read_file path dt sn) \<and>
     (suffix ''.zip'' (py_lower (py_strip (or_empty path))) \<and>
        (\<exists>es. open_zip (or_empty path) = Inr es \<and> filter (\<lambda>(d, _). \<not> d) es \<noteq> []) \<or>
      (\<exists>content. read_file (or_empty path) = Inr content \<and> utf8_length content \<ge> 128 \<and>
        5 \<le> length (py_splitlines content) \<and>
        (let low = py_lower content;
             expected = expected_markers (py_lower dt @ '' '' @ py_lower sn @ '' '' @ take 4000 low)
         in expected = [] \<or> (\<exists>m \<in> set expected. py_in (py_lower m) low) \<or>
            (utf8_length content \<ge> 512 \<and> 20 \<le> length (py_splitlines content) \<and>
             length (filter (\<lambda>t. py_in t low) HARD_ERROR_TOKENS) \<le> 1))))) \<and>
   (\<not> result_ok (validate_backup_integrity open_zip read_file path dt sn) \<longrightarrow>
     result_reason (validate_backup_integrity open_zip read_file path dt sn) \<noteq> [])"
proof (cases "or_empty path = []")
  case True
  then show ?thesis by (simp add: validate_backup_integrity_def)
next
  case path: False
  show ?thesis
  proof (cases "suffix ''.zip'' (py_lower (py_strip (or_empty path)))")
    case True
    with path show ?thesis
      by (auto simp: validate_backup_integrity_def validate_zip_def Let_def split: sum.splits)
  next
    case False
    show ?thesis
    proof (cases "read_file (or_empty path)")
      case (Inl e)
      with path False show ?thesis by (simp add: validate_backup_integrity_def)
    next
      case (Inr content)
      then have eq: "validate_backup_integrity open_zip read_file path dt sn = validate_text content dt sn"
        using path False by (simp add: validate_backup_integrity_def)
      show ?thesis
        unfolding eq using Inr False
        by (auto simp: validate_text_def Let_def filter_empty_conv)
    qed
  qed
qed

theorem integrity_accepts_with_evidence_witness:
  "128 \<le> size_bytes (validate_backup_integrity (\<lambda>_. Inr [(False, 200)]) (\<lambda>_. Inl []) (Some ''a.zip'') [] [])"
proof -
  have "result_ok (validate_backup_integrity (\<lambda>_. Inr [(False, 200)]) (\<lambda>_. Inl []) (Some ''a.zip'') [] [])"
    by code_simp
  with integrity_accepts_with_evidence [of "\<lambda>_. Inr [(False, 200)]" "\<lambda>_. Inl []" "Some ''a.zip''" "[]" "[]"]
  show ?thesis by blast
qed

lemma isoformat_no_Z: "CHR ''Z'' \<notin> set (isoformat t)"
proof -
  have p: "CHR ''Z'' \<notin> set (show_pad k n)" for k n
  proof (induction k arbitrary: n)
    case (Suc k)
    have "py_is_digit (digit_char (n mod 10))" "\<not> py_is_digit CHR ''Z''"
      by (simp add: digit_char_props, code_simp)
    then have "digit_char (n mod 10) \<noteq> CHR ''Z''" by metis
    with Suc show ?case by auto
  qed simp
  show ?thesis by (auto simp: isoformat_def Let_def p split: prod.splits)
qed

lemma replace_char_absent: "c \<notin> set s \<Longrightarrow> replace_char c r s = s"
  by (induction s) (auto simp: replace_char_def)

text \<open>Writing an instant and reading it back gives the instant: the timestamp \<open>t.isoformat()\<close> of a
  UTC instant, alone, with the offset \<open>+00:00\<close> or with the suffix \<open>Z\<close>, is read back as \<open>t\<close>.\<close>

theorem parse_iso_roundtrip:
  assumes "valid_naive t"
  shows "parse_iso_utc (PStr (isoformat t)) = Some t \<and> parse_iso_utc (PStr (isoformat t @ ''Z'')) = Some t \<and>
    parse_iso_utc (PStr (isoformat t @ ''+00:00'')) = Some t"
proof -
  have ne: "isoformat t \<noteq> []"
  proof
    assume "isoformat t = []"
    with fromisoformat_isoformat(1) [OF assms] have "fromisoformat [] = Some (t, None)" by simp
    moreover have "fromisoformat [] = None" by code_simp
    ultimately show False by simp
  qed
  have app: "replace_char c r (a @ b) = replace_char c r a @ replace_char c r b" for c r a b
    by (simp add: replace_char_def)
  have r: "replace_char CHR ''Z'' ''+00:00'' ''Z'' = ''+00:00''"
    "replace_char CHR ''Z'' ''+00:00'' ''+00:00'' = ''+00:00''" by code_simp+
  note iso = replace_char_absent [OF isoformat_no_Z, of "''+00:00''" t]
  show ?thesis
    using fromisoformat_isoformat [OF assms] assms ne
    by (simp add: parse_iso_utc_def py_str_def app iso r Let_def)
qed

theorem parse_iso_roundtrip_witness:
  "parse_iso_utc (PStr (isoformat 0 @ ''Z'')) = Some 0"
proof -
  have "valid_naive 0" by code_simp
  from parse_iso_roundtrip [OF this] show ?thesis by simp
qed

end
