(* ===== verification/TaskConfig.thy ===== *)
theory TaskConfig
  imports Diagnostics
begin

text \<open>
  The head of \<open>app/tasks/backups.py\<close>: the module constants computed from the environment when the
  worker starts, the text helpers, and the decision whether a failure may be retried.
  \<open>getenv\<close> is the environment of the process.
\<close>

definition CB_FAILURE_CATEGORIES :: "string list" where
  "CB_FAILURE_CATEGORIES = [''timeout'', ''connection'', ''jump_session_closed'', ''port_refused'', ''no_ping'',
     ''jump_host_slot_timeout'']"

text \<open>An exception as \<open>_safe_error_text\<close> sees it: \<open>str(err)\<close> (\<^const>\<open>None\<close> when that raises) and the
  class name.\<close>

definition safe_error_text :: "(string option \<times> string) option \<Rightarrow> string \<Rightarrow> string" where
  "safe_error_text err fallback =
     (case err of
        None \<Rightarrow> fallback
      | Some (text, cls) \<Rightarrow>
          (let txt = py_strip (or_empty text)
           in if txt \<noteq> [] then txt else if cls \<noteq> [] then cls else fallback))"

definition env_int :: "(string \<Rightarrow> string option) \<Rightarrow> string \<Rightarrow> int \<Rightarrow> int \<Rightarrow> int option \<Rightarrow> int" where
  "env_int getenv name dflt minimum maximum =
     (let raw = (case getenv name of None \<Rightarrow> show_int dflt | Some s \<Rightarrow> py_strip s);
          v0 = (case py_int raw of None \<Rightarrow> dflt | Some i \<Rightarrow> i);
          v1 = (if v0 < minimum then minimum else v0)
      in case maximum of None \<Rightarrow> v1 | Some mx \<Rightarrow> if v1 > mx then mx else v1)"

definition normalize_retry_token :: "string option \<Rightarrow> string" where
  "normalize_retry_token value = py_join CHR '' '' (py_words (py_lower (py_strip (or_empty value))))"

definition env_csv_normalized_set :: "(string \<Rightarrow> string option) \<Rightarrow> string \<Rightarrow> string \<Rightarrow> string list" where
  "env_csv_normalized_set getenv name dflt =
     (let raw = (case getenv name of None \<Rightarrow> dflt | Some s \<Rightarrow> s)
      in remdups (filter (\<lambda>t. t \<noteq> []) (map (\<lambda>c. normalize_retry_token (Some c)) (py_split CHR '','' raw))))"

definition env_flag :: "(string \<Rightarrow> string option) \<Rightarrow> string \<Rightarrow> string \<Rightarrow> bool" where
  "env_flag getenv name dflt =
     (py_strip (case getenv name of None \<Rightarrow> dflt | Some s \<Rightarrow> s) \<in> set [''1'', ''true'', ''on'', ''yes''])"

definition env_flag_lower :: "(string \<Rightarrow> string option) \<Rightarrow> string \<Rightarrow> string \<Rightarrow> bool" where
  "env_flag_lower getenv name dflt =
     (py_lower (py_strip (case getenv name of None \<Rightarrow> dflt | Some s \<Rightarrow> s)) \<in> set [''1'', ''true'', ''on'', ''yes''])"

record task_config =
  lock_timeout_seconds :: int
  lock_wait_seconds :: int
  lock_wait_seconds_large :: int
  max_slots :: int
  phase_group_stagger :: int
  soft_time_limit :: int
  time_limit :: int
  retry_threshold :: int
  transient_max_retries :: int
  adaptive_enabled :: bool
  adaptive_fail_streak :: int
  adaptive_success_streak :: int
  adaptive_cooldown :: int
  adaptive_streak_ttl :: int
  adaptive_max_boost :: int
  severe_fail_streak :: int
  severe_cooldown :: int
  severe_drop_to_one :: bool
  bulk_active_stale :: int
  cb_window :: int
  cb_threshold :: int
  cb_min_samples :: int
  cb_open_seconds :: int
  cb_open_max_retries :: int
  cb_open_retry_buffer :: int
  vpn_lock_timeout :: int
  deny_names :: "string list"
  deny_ids :: "string list"

definition load_task_config :: "(string \<Rightarrow> string option) \<Rightarrow> task_config" where
  "load_task_config g =
     (let wait = env_int g ''JUMP_HOST_SLOT_WAIT_SECONDS'' (60 * 10) 15 (Some (60 * 30));
          soft = env_int g ''BACKUP_TASK_SOFT_TIME_LIMIT_SECONDS'' 480 120 (Some 3600)
      in \<lparr>lock_timeout_seconds = env_int g ''JUMP_HOST_SLOT_TTL_SECONDS'' (60 * 20) 60 None,
          lock_wait_seconds = wait,
          lock_wait_seconds_large = env_int g ''JUMP_HOST_SLOT_WAIT_SECONDS_LARGE_BULK'' (min 180 wait) 30 (Some 600),
          max_slots = env_int g ''JUMP_HOST_MAX_SLOTS'' 3 1 (Some 16),
          phase_group_stagger = env_int g ''JUMP_PHASE_GROUP_STAGGER_SECONDS'' 2 0 (Some 30),
          soft_time_limit = soft,
          time_limit = env_int g ''BACKUP_TASK_TIME_LIMIT_SECONDS'' (max (soft + 60) 540) 180 (Some 3900),
          retry_threshold = env_int g ''BULK_TRANSIENT_RETRY_THRESHOLD'' 300 50 None,
          transient_max_retries = env_int g ''BULK_TRANSIENT_MAX_RETRIES'' 1 0 (Some 2),
          adaptive_enabled = env_flag g ''JUMP_HOST_ADAPTIVE_ENABLED'' ''1'',
          adaptive_fail_streak = env_int g ''JUMP_HOST_ADAPTIVE_FAIL_STREAK'' 4 2 (Some 20),
          adaptive_success_streak = env_int g ''JUMP_HOST_ADAPTIVE_SUCCESS_STREAK'' 20 5 (Some 200),
          adaptive_cooldown = env_int g ''JUMP_HOST_ADAPTIVE_COOLDOWN_SECONDS'' 300 30 (Some 3600),
          adaptive_streak_ttl = env_int g ''JUMP_HOST_ADAPTIVE_STREAK_TTL_SECONDS'' 900 60 (Some 7200),
          adaptive_max_boost = env_int g ''JUMP_HOST_ADAPTIVE_MAX_BOOST'' 2 0 (Some 8),
          severe_fail_streak = env_int g ''JUMP_HOST_ADAPTIVE_SEVERE_FAIL_STREAK'' 2 1 (Some 10),
          severe_cooldown = env_int g ''JUMP_HOST_ADAPTIVE_SEVERE_COOLDOWN_SECONDS'' 900 30 (Some 7200),
          severe_drop_to_one = env_flag_lower g ''JUMP_HOST_ADAPTIVE_SEVERE_DROP_TO_ONE'' ''1'',
          bulk_active_stale = env_int g ''BULK_ACTIVE_STALE_SECONDS'' (60 * 60 * 6) (60 * 5) (Some (60 * 60 * 48)),
          cb_window = env_int g ''CB_WINDOW_SECONDS'' 300 60 (Some 900),
          cb_threshold = env_int g ''CB_THRESHOLD_PERCENT'' 70 30 (Some 95),
          cb_min_samples = env_int g ''CB_MIN_SAMPLES'' 10 3 (Some 50),
          cb_open_seconds = env_int g ''CB_OPEN_SECONDS'' 60 10 (Some 300),
          cb_open_max_retries = env_int g ''CB_OPEN_MAX_RETRIES'' 1 0 (Some 10),
          cb_open_retry_buffer = env_int g ''CB_OPEN_RETRY_BUFFER_SECONDS'' 2 0 (Some 30),
          vpn_lock_timeout = env_int g ''VPN_GLOBAL_LOCK_TIMEOUT_SECONDS'' 3600 60 (Some (60 * 60 * 6)),
          deny_names = env_csv_normalized_set g ''BACKUP_TRANSIENT_RETRY_DENYLIST_NAMES''
            ''FLASHNET - SW CORE-CABO_S.A.'',
          deny_ids = env_csv_normalized_set g ''BACKUP_TRANSIENT_RETRY_DENYLIST_IDS'' ''''\<rparr>)"

section \<open>Messages of the jump host and the VPN worker\<close>

abbreviation a_tilde :: string where "a_tilde \<equiv> [CHR 0xE3]"
abbreviation i_acute :: string where "i_acute \<equiv> [CHR 0xED]"

definition saturation_markers :: "string list" where
  "saturation_markers =
     [''error reading ssh protocol banner'', ''timeout opening channel'', ''channelexception'',
      ''no existing session'', ''sessao com jump host encerrada'',
      ''sess'' @ a_tilde @ ''o com jump host encerrada'', ''banner exchange'',
      ''kex_exchange_identification'', ''jump host'', ''slot do jump host'']"

definition message_indicates_jump_host_saturation :: "string option \<Rightarrow> bool" where
  "message_indicates_jump_host_saturation message =
     (let txt = py_lower (py_strip (or_empty message))
      in if txt = [] then False else any_in saturation_markers txt)"

definition severe_markers :: "string list" where
  "severe_markers =
     [''sessao com jump host encerrada antes do shell ficar disponivel'',
      ''sess'' @ a_tilde @ ''o com jump host encerrada antes do shell ficar disponivel'',
      ''nao foi possivel abrir shell interativo no jump host'',
      ''n'' @ a_tilde @ ''o foi poss'' @ i_acute @ ''vel abrir shell interativo no jump host'',
      ''error reading ssh protocol banner'', ''timeout opening channel'',
      ''kex_exchange_identification'', ''connection reset by peer'']"

definition message_indicates_severe_jump_host_saturation :: "string option \<Rightarrow> bool" where
  "message_indicates_severe_jump_host_saturation message =
     (let txt = py_lower (py_strip (or_empty message))
      in if txt = [] then False else any_in severe_markers txt)"

definition nmcli_markers :: "string list" where
  "nmcli_markers =
     [''networkmanager indisponivel neste worker'',
      ''networkmanager indispon'' @ i_acute @ ''vel neste worker'',
      ''backend do networkmanager indisponivel'',
      ''backend do networkmanager indispon'' @ i_acute @ ''vel'',
      ''nmcli general status'', ''could not create nmclient object'',
      ''could not connect: no such file or directory'', ''nmcli nao encontrado'',
      ''nmcli n'' @ a_tilde @ ''o encontrado'']"

definition is_nmcli_backend_unavailable_message :: "string option \<Rightarrow> bool" where
  "is_nmcli_backend_unavailable_message message =
     (let txt = py_lower (py_strip (or_empty message))
      in if txt = [] then False else any_in nmcli_markers txt)"

section \<open>Retry policy\<close>

definition is_transient_retry_denied_for_device :: "task_config \<Rightarrow> string option \<Rightarrow> string option \<Rightarrow> bool" where
  "is_transient_retry_denied_for_device cfg device_name device_id =
     (if deny_names cfg = [] \<and> deny_ids cfg = [] then False
      else
        (let normalized_name = normalize_retry_token device_name;
             normalized_id = normalize_retry_token device_id
         in if normalized_id \<noteq> [] \<and> normalized_id \<in> set (deny_ids cfg) then True
            else if normalized_name \<noteq> [] \<and> normalized_name \<in> set (deny_names cfg) then True
            else False))"

definition hard_markers :: "string list" where
  "hard_markers =
     [''connection refused'', ''no route to host'', ''network is unreachable'',
      ''unable to connect to remote host'', ''unable to connect to port'', ''timeout opening channel'',
      ''administratively prohibited'', ''jump host nao conseguiu abrir canal tcp'',
      ''jump host n'' @ a_tilde @ ''o conseguiu abrir canal tcp'', ''authentication failed'',
      ''invalid username'', ''invalid password'', ''unauthorized'', ''access denied'',
      ''permission denied'', ''wrong tcp port'', ''incorrect hostname'']"

definition should_retry_transient_failure ::
  "task_config \<Rightarrow> string option \<Rightarrow> string option \<Rightarrow> string option \<Rightarrow> string option \<Rightarrow> bool" where
  "should_retry_transient_failure cfg category message device_name device_id =
     (let normalized_category = py_lower (py_strip (or_empty category)) in
      if normalized_category = [] then False
      else if \<not> is_transient_failure (Some normalized_category) then False
      else
        (let txt = py_lower (py_strip (or_empty message)) in
         if is_nmcli_backend_unavailable_message (Some txt) then False
         else if is_transient_retry_denied_for_device cfg device_name device_id then False
         else if normalized_category = ''connection'' \<and> any_in hard_markers txt then False
         else True))"

lemma env_int_bounds:
  "maximum = None \<or> (\<exists>m. maximum = Some m \<and> minimum \<le> m) \<Longrightarrow>
   minimum \<le> env_int g name d minimum maximum \<and>
   (\<forall>m. maximum = Some m \<longrightarrow> env_int g name d minimum maximum \<le> m)"
  by (auto simp: env_int_def Let_def split: option.splits)

lemma env_int_ge: "lo \<le> hi \<Longrightarrow> lo \<le> env_int g name d lo (Some hi)"
  and env_int_le: "lo \<le> hi \<Longrightarrow> env_int g name d lo (Some hi) \<le> hi"
  and env_int_ge_None: "lo \<le> env_int g name d lo None"
  using env_int_bounds [of "Some hi" lo g name d] env_int_bounds [of None lo g name d] by auto

text \<open>The ranges the constants are in, whatever the environment holds.\<close>

definition config_in_range :: "task_config \<Rightarrow> bool" where
  "config_in_range c \<longleftrightarrow>
     60 \<le> lock_timeout_seconds c \<and> lock_wait_seconds c \<in> {15..1800} \<and>
     lock_wait_seconds_large c \<in> {30..600} \<and> max_slots c \<in> {1..16} \<and> phase_group_stagger c \<in> {0..30} \<and>
     soft_time_limit c \<in> {120..3600} \<and> time_limit c \<in> {180..3900} \<and> 50 \<le> retry_threshold c \<and>
     transient_max_retries c \<in> {0..2} \<and> adaptive_fail_streak c \<in> {2..20} \<and>
     adaptive_success_streak c \<in> {5..200} \<and> adaptive_cooldown c \<in> {30..3600} \<and>
     adaptive_streak_ttl c \<in> {60..7200} \<and> adaptive_max_boost c \<in> {0..8} \<and>
     severe_fail_streak c \<in> {1..10} \<and> severe_cooldown c \<in> {30..7200} \<and>
     bulk_active_stale c \<in> {300..172800} \<and> cb_window c \<in> {60..900} \<and> cb_threshold c \<in> {30..95} \<and>
     cb_min_samples c \<in> {3..50} \<and> cb_open_seconds c \<in> {10..300} \<and> cb_open_max_retries c \<in> {0..10} \<and>
     cb_open_retry_buffer c \<in> {0..30} \<and> vpn_lock_timeout c \<in> {60..21600}"

lemma load_task_config_in_range: "config_in_range (load_task_config g)"
  by (simp add: config_in_range_def load_task_config_def Let_def env_int_ge env_int_le env_int_ge_None)

text \<open>The configuration of an empty environment.\<close>

definition default_config :: task_config where
  "default_config = load_task_config (\<lambda>_. None)"

lemma env_int_unset: "env_int (\<lambda>_. None) name d lo hi = (case hi of None \<Rightarrow> max lo d | Some mx \<Rightarrow> min mx (max lo d))"
  by (auto simp: env_int_def py_int_show_int Let_def split: option.splits)

lemma default_config_simps [simp]:
  "lock_timeout_seconds default_config = 1200" "lock_wait_seconds default_config = 600"
  "lock_wait_seconds_large default_config = 180" "max_slots default_config = 3"
  "soft_time_limit default_config = 480" "time_limit default_config = 540"
  "retry_threshold default_config = 300"
  "adaptive_fail_streak default_config = 4" "adaptive_success_streak default_config = 20"
  "adaptive_cooldown default_config = 300" "adaptive_streak_ttl default_config = 900"
  "adaptive_max_boost default_config = 2" "severe_fail_streak default_config = 2"
  "severe_cooldown default_config = 900" "bulk_active_stale default_config = 21600"
  "cb_window default_config = 300" "cb_threshold default_config = 70" "cb_min_samples default_config = 10"
  "cb_open_seconds default_config = 60" "vpn_lock_timeout default_config = 3600"
  by (simp_all add: default_config_def load_task_config_def Let_def env_int_unset)

lemma default_flags [simp]: "adaptive_enabled default_config" "severe_drop_to_one default_config"
  by (simp_all add: default_config_def load_task_config_def Let_def env_flag_def env_flag_lower_def; code_simp)+

end
