(* ===== verification/JumpHost.thy ===== *)
theory JumpHost
  imports TaskConfig Footprint Float64
begin

text \<open>
  The admission control of the shared jump hosts in \<open>app/tasks/backups.py\<close>: the circuit breaker
  (a sliding window of outcomes and an open flag with a time to live), the adaptive number of
  slots, and the reset between batches. The state lives in Redis; \<open>client\<close> is what
  \<open>get_redis_client()\<close> returns, \<^const>\<open>None\<close> when there is no server.
\<close>

section \<open>Slot overrides and the effective number of slots\<close>

text \<open>The module caches the parsed variable: the model parses the environment it is given.\<close>

definition parse_slot_override :: "string \<Rightarrow> (string \<times> int) option" where
  "parse_slot_override chunk =
     (let item = py_strip chunk in
      if item = [] \<or> CHR ''='' \<notin> set item then None
      else
        (let key = py_strip (takeWhile (\<lambda>c. c \<noteq> CHR ''='') item);
             value = tl (dropWhile (\<lambda>c. c \<noteq> CHR ''='') item)
         in map_option (\<lambda>slots. (key, max 1 (min 16 slots))) (py_int (py_strip value))))"

definition parse_jump_host_slot_overrides :: "(string \<Rightarrow> string option) \<Rightarrow> (string \<times> int) list" where
  "parse_jump_host_slot_overrides getenv =
     (let raw = py_strip (or_empty (getenv ''JUMP_HOST_SLOTS_OVERRIDES''))
      in if raw = [] then []
         else fold (\<lambda>(k, v) m. AList.update k v m) (List.map_filter parse_slot_override (py_split CHR '','' raw)) [])"

definition slots_hash :: string where "slots_hash = ''backup_center:jump_host_adaptive_slots''"

definition clamp_slots :: "int \<Rightarrow> int" where "clamp_slots n = max 1 (min 16 n)"

definition static_slots :: "(string \<times> int) list \<Rightarrow> string \<Rightarrow> int \<Rightarrow> int" where
  "static_slots overrides label base_slots =
     (case map_of overrides label of
        Some n \<Rightarrow> n
      | None \<Rightarrow> (case map_of overrides ''default'' of Some n \<Rightarrow> n
                 | None \<Rightarrow> max 1 (if base_slots = 0 then 1 else base_slots)))"

definition resolve_effective_jump_host_slots ::
  "task_config \<Rightarrow> 's redis option \<Rightarrow> (string \<times> int) list \<Rightarrow> string \<Rightarrow> int \<Rightarrow> ('s, int) io" where
  "resolve_effective_jump_host_slots cfg client overrides label base_slots =
     (let effective = static_slots overrides label base_slots in
      case client of
        None \<Rightarrow> io_ret (clamp_slots effective)
      | Some R \<Rightarrow>
          if \<not> adaptive_enabled cfg then io_ret (clamp_slots effective)
          else io_try
            (io_bind (r_hget R slots_hash label) (\<lambda>raw.
               case raw of
                 None \<Rightarrow> io_ret (clamp_slots effective)
               | Some v \<Rightarrow> (case rv_int v of None \<Rightarrow> io_raise | Some n \<Rightarrow> io_ret (clamp_slots (clamp_slots n)))))
            (io_ret (clamp_slots effective)))"

section \<open>Adaptive slots\<close>

record lock_info =
  li_base_key :: string
  li_label :: string
  li_group_name :: string
  li_base_slots :: int
  li_max_slots :: int

definition fail_streak_key :: "string \<Rightarrow> string" where
  "fail_streak_key l = ''backup_center:jump_host_adaptive:fail:'' @ l"
definition success_streak_key :: "string \<Rightarrow> string" where
  "success_streak_key l = ''backup_center:jump_host_adaptive:success:'' @ l"
definition cooldown_key :: "string \<Rightarrow> string" where
  "cooldown_key l = ''backup_center:jump_host_adaptive:cooldown:'' @ l"

definition lock_base_slots :: "lock_info \<Rightarrow> int" where
  "lock_base_slots li =
     max 1 (if li_base_slots li \<noteq> 0 then li_base_slots li else if li_max_slots li \<noteq> 0 then li_max_slots li else 1)"

definition allowed_max_slots :: "task_config \<Rightarrow> lock_info \<Rightarrow> int" where
  "allowed_max_slots cfg li = max 1 (min 16 (lock_base_slots li + adaptive_max_boost cfg))"

definition slot_change_event :: "string \<Rightarrow> string \<Rightarrow> int \<Rightarrow> int \<Rightarrow> string \<Rightarrow> tele" where
  "slot_change_event lbl dir prev next reason =
     Event ''jump_host_slots_changed''
       [(''jump_host'', lbl), (''direction'', dir), (''previous_slots'', show_int prev),
        (''new_slots'', show_int next), (''reason'', reason)]"

definition adapt_on_success ::
  "task_config \<Rightarrow> 's redis \<Rightarrow> (tele \<Rightarrow> 's \<Rightarrow> 's) \<Rightarrow> string \<Rightarrow> int \<Rightarrow> int \<Rightarrow> ('s, unit) io" where
  "adapt_on_success cfg R emit lbl current_slots allowed =
     io_bind (r_incr R (success_streak_key lbl)) (\<lambda>success_streak.
     io_seq (r_expire R (success_streak_key lbl) (adaptive_streak_ttl cfg))
     (io_seq (r_delete R [fail_streak_key lbl])
     (if success_streak \<ge> adaptive_success_streak cfg \<and> current_slots < allowed then
        (let next_slots = min allowed (current_slots + 1) in
         io_seq (r_hset R slots_hash lbl (RText (show_int next_slots)))
        (io_seq (r_setex R (cooldown_key lbl) (adaptive_cooldown cfg) (RText ''1''))
        (io_seq (r_delete R [success_streak_key lbl])
        (io_seq (tell emit (Counter ''jump_host_adaptive_slot_changes_total''
                   [(''jump_host'', lbl), (''direction'', ''up'')]))
                (tell emit (slot_change_event lbl ''up'' current_slots next_slots ''success_streak''))))))
      else io_ret ())))"

definition adapt_on_failure ::
  "task_config \<Rightarrow> 's redis \<Rightarrow> (tele \<Rightarrow> 's \<Rightarrow> 's) \<Rightarrow> string \<Rightarrow> int \<Rightarrow> string option \<Rightarrow> ('s, unit) io" where
  "adapt_on_failure cfg R emit lbl current_slots message =
     io_bind (r_incr R (fail_streak_key lbl)) (\<lambda>fail_streak.
     io_seq (r_expire R (fail_streak_key lbl) (adaptive_streak_ttl cfg))
     (io_seq (r_delete R [success_streak_key lbl])
     (let severe = message_indicates_severe_jump_host_saturation message;
          severe_reached = fail_streak \<ge> severe_fail_streak cfg;
          regular_reached = fail_streak \<ge> adaptive_fail_streak cfg
      in if current_slots > 1 \<and> (regular_reached \<or> (severe \<and> severe_reached)) then
           (let (next_slots, cooldown_seconds, why) =
              (if severe \<and> severe_reached
               then (if severe_drop_to_one cfg then 1 else max 1 (current_slots - 2),
                     severe_cooldown cfg, ''severe_saturation_streak'')
               else (max 1 (current_slots - 1), adaptive_cooldown cfg, ''saturation_streak''))
            in io_seq (r_hset R slots_hash lbl (RText (show_int next_slots)))
              (io_seq (r_setex R (cooldown_key lbl) cooldown_seconds (RText ''1''))
              (io_seq (r_delete R [fail_streak_key lbl])
              (io_seq (tell emit (Counter ''jump_host_adaptive_slot_changes_total''
                         [(''jump_host'', lbl), (''direction'', ''down'')]))
                      (tell emit (slot_change_event lbl ''down'' current_slots next_slots why))))))
         else io_ret ())))"

definition adapt_jump_host_slots ::
  "task_config \<Rightarrow> 's redis option \<Rightarrow> (tele \<Rightarrow> 's \<Rightarrow> 's) \<Rightarrow> (string \<times> int) list \<Rightarrow>
   lock_info option \<Rightarrow> bool \<Rightarrow> string option \<Rightarrow> ('s, unit) io" where
  "adapt_jump_host_slots cfg client emit overrides lock_info success message =
     (case lock_info of
        None \<Rightarrow> io_ret ()
      | Some li \<Rightarrow>
          if \<not> adaptive_enabled cfg then io_ret ()
          else
            (let lbl = py_strip (li_label li) in
             if lbl = [] then io_ret ()
             else case client of
               None \<Rightarrow> io_ret ()
             | Some R \<Rightarrow>
                 io_bind (resolve_effective_jump_host_slots cfg (Some R) overrides lbl (lock_base_slots li)) (\<lambda>current_slots.
                 io_bind (io_try (io_bind (r_get R (cooldown_key lbl)) (\<lambda>c. io_ret (rv_truthy c))) (io_ret True)) (\<lambda>skip.
                 if skip then io_ret ()
                 else if success then
                   io_try (adapt_on_success cfg R emit lbl current_slots (allowed_max_slots cfg li))
                     (tell emit (LogLine ''Falha ao ajustar slots adaptativos (success)''))
                 else if \<not> message_indicates_jump_host_saturation message then io_ret ()
                 else io_try (adapt_on_failure cfg R emit lbl current_slots message)
                     (tell emit (LogLine ''Falha ao ajustar slots adaptativos (failure)''))))))"

section \<open>Circuit breaker\<close>

definition cb_open_key :: "string \<Rightarrow> string" where "cb_open_key l = ''backup_center:cb:open:'' @ l"
definition cb_outcomes_key :: "string \<Rightarrow> string" where "cb_outcomes_key l = ''backup_center:cb:outcomes:'' @ l"

definition outcome_entry :: "bool \<Rightarrow> int \<Rightarrow> string" where
  "outcome_entry success now_ms = (if success then ''1'' else ''0'') @ '':'' @ show_int now_ms"

text \<open>\<open>now_ms\<close> is \<open>int(time.monotonic() * 1000)\<close>.\<close>

definition record_jump_host_outcome ::
  "task_config \<Rightarrow> 's redis option \<Rightarrow> (tele \<Rightarrow> 's \<Rightarrow> 's) \<Rightarrow> int \<Rightarrow> string \<Rightarrow> bool \<Rightarrow> ('s, unit) io" where
  "record_jump_host_outcome cfg client emit now_ms jump_label success =
     (if jump_label = [] then io_ret ()
      else case client of
        None \<Rightarrow> io_ret ()
      | Some R \<Rightarrow>
          io_try
            (io_seq (r_rpush R (cb_outcomes_key jump_label) [RText (outcome_entry success now_ms)])
                    (r_expire R (cb_outcomes_key jump_label) (cb_window cfg + 60)))
            (tell emit (LogLine ''Falha ao registrar outcome do circuit breaker'')))"

text \<open>One entry of the window: the outcome and the time, or nothing when it cannot be read.\<close>

definition parse_outcome :: "rval \<Rightarrow> (int \<times> int) option" where
  "parse_outcome raw =
     (case py_split CHR '':'' (rv_text raw) of
        a # b # _ \<Rightarrow> (case (py_int a, py_int b) of (Some x, Some y) \<Rightarrow> Some (x, y) | _ \<Rightarrow> None)
      | _ \<Rightarrow> None)"

fun scan_outcomes :: "int \<Rightarrow> rval list \<Rightarrow> rval list \<times> nat \<times> nat" where
  "scan_outcomes cutoff [] = ([], 0, 0)"
| "scan_outcomes cutoff (raw # rest) =
     (let (valid, succ, fails) = scan_outcomes cutoff rest in
      case parse_outcome raw of
        None \<Rightarrow> (valid, succ, fails)
      | Some (outcome, ts) \<Rightarrow>
          if ts \<ge> cutoff
          then (raw # valid, if outcome = 1 then Suc succ else succ, if outcome = 1 then fails else Suc fails)
          else (valid, succ, fails))"

definition cb_open_reason :: "string \<Rightarrow> int \<Rightarrow> string" where
  "cb_open_reason jump_label ttl =
     ''Circuit breaker ABERTO para Jump Host '' @ jump_label @ ''. Aguardando '' @ show_int ttl @
     ''s antes de novas tentativas.''"

definition cb_tripped_reason :: "task_config \<Rightarrow> string \<Rightarrow> nat \<Rightarrow> nat \<Rightarrow> nat \<Rightarrow> string" where
  "cb_tripped_reason cfg jump_label fail_pct failures samples =
     ''Circuit breaker ATIVADO para Jump Host '' @ jump_label @ '': '' @ show_nat fail_pct @
     ''% de falhas ('' @ show_nat failures @ ''/'' @ show_nat samples @ '') na janela de '' @
     show_int (cb_window cfg) @ ''s. Bloqueado por '' @ show_int (cb_open_seconds cfg) @ ''s.''"

definition cb_closed :: "bool \<times> string \<times> int" where "cb_closed = (False, [], 0)"

definition cb_cleanup :: "task_config \<Rightarrow> 's redis \<Rightarrow> string \<Rightarrow> rval list \<Rightarrow> rval list \<Rightarrow> ('s, unit) io" where
  "cb_cleanup cfg R key entries valid =
     (if length valid < length entries then
        io_try
          (io_seq (r_delete R [key])
             (if valid = [] then io_ret ()
              else io_seq (r_rpush R key valid) (r_expire R key (cb_window cfg + 60))))
          (io_ret ())
      else io_ret ())"

definition cb_decide ::
  "task_config \<Rightarrow> 's redis \<Rightarrow> (tele \<Rightarrow> 's \<Rightarrow> 's) \<Rightarrow> string \<Rightarrow> nat \<Rightarrow> nat \<Rightarrow> ('s, bool \<times> string \<times> int) io" where
  "cb_decide cfg R emit jump_label successes failures =
     (let samples = successes + failures in
      if int samples < cb_min_samples cfg then io_ret cb_closed
      else
        (let fail_pct = pct_trunc failures samples in
         if int fail_pct \<ge> cb_threshold cfg then
           io_seq (r_setex R (cb_open_key jump_label) (cb_open_seconds cfg) (RText ''1''))
          (io_seq (tell emit (Counter ''jump_host_circuit_breaker_opened_total'' [(''jump_host'', jump_label)]))
          (io_seq (tell emit (Event ''circuit_breaker_opened''
              [(''jump_host'', jump_label), (''fail_pct'', show_nat fail_pct), (''total_samples'', show_nat samples),
               (''failures'', show_nat failures), (''window_seconds'', show_int (cb_window cfg)),
               (''open_seconds'', show_int (cb_open_seconds cfg))]))
           (io_ret (True, cb_tripped_reason cfg jump_label fail_pct failures samples, cb_open_seconds cfg))))
         else io_ret cb_closed))"

definition check_jump_host_circuit_breaker ::
  "task_config \<Rightarrow> 's redis option \<Rightarrow> (tele \<Rightarrow> 's \<Rightarrow> 's) \<Rightarrow> int \<Rightarrow> string \<Rightarrow> ('s, bool \<times> string \<times> int) io" where
  "check_jump_host_circuit_breaker cfg client emit now_ms jump_label =
     (if jump_label = [] then io_ret cb_closed
      else case client of
        None \<Rightarrow> io_ret cb_closed
      | Some R \<Rightarrow>
          io_try
            (io_bind (r_get R (cb_open_key jump_label)) (\<lambda>opened.
             if rv_truthy opened then
               io_bind (r_ttl R (cb_open_key jump_label)) (\<lambda>t.
                 let ttl = max 0 t in io_ret (True, cb_open_reason jump_label ttl, ttl))
             else
               io_bind (r_lrange R (cb_outcomes_key jump_label) 0 (-1)) (\<lambda>entries.
                 if entries = [] then io_ret cb_closed
                 else
                   (let (valid, successes, failures) =
                          scan_outcomes (now_ms - cb_window cfg * 1000) entries
                    in io_seq (cb_cleanup cfg R (cb_outcomes_key jump_label) entries valid)
                              (cb_decide cfg R emit jump_label successes failures)))))
            (io_seq (tell emit (LogLine ''Falha ao verificar circuit breaker'')) (io_ret cb_closed)))"

text \<open>\<open>reset_circuit_breakers_for_new_batch\<close>: the counts of removed keys and the error text.\<close>

record cb_reset =
  open_cleared :: nat
  adaptive_cleared :: nat
  outcomes_cleared :: nat
  reset_failed :: bool

definition clear_prefix :: "'s redis \<Rightarrow> string \<Rightarrow> ('s, nat) io" where
  "clear_prefix R p =
     io_bind (r_scan R p) (\<lambda>ks. if ks = [] then io_ret 0 else io_seq (r_delete R ks) (io_ret (length ks)))"

definition reset_error_log :: tele where
  "reset_error_log = LogLine ''Falha ao resetar circuit breakers para novo lote.''"

definition reset_circuit_breakers_for_new_batch ::
  "'s redis option \<Rightarrow> (tele \<Rightarrow> 's \<Rightarrow> 's) \<Rightarrow> ('s, cb_reset) io" where
  "reset_circuit_breakers_for_new_batch client emit =
     (let failed = \<lparr>open_cleared = 0, adaptive_cleared = 0, outcomes_cleared = 0, reset_failed = True\<rparr> in
      case client of
        None \<Rightarrow> io_ret failed
      | Some R \<Rightarrow>
          io_bind (io_attempt (clear_prefix R ''backup_center:cb:open:'')) (\<lambda>o1.
          case o1 of None \<Rightarrow> io_seq (tell emit reset_error_log) (io_ret failed)
          | Some n1 \<Rightarrow>
          io_bind (io_attempt (clear_prefix R ''backup_center:cb:outcomes:'')) (\<lambda>o2.
          case o2 of None \<Rightarrow> io_seq (tell emit reset_error_log) (io_ret (failed\<lparr>open_cleared := n1\<rparr>))
          | Some n2 \<Rightarrow>
          io_bind (io_attempt (clear_prefix R ''backup_center:jump_host_adaptive:'')) (\<lambda>o3.
          case o3 of
            None \<Rightarrow> io_seq (tell emit reset_error_log)
                      (io_ret (failed\<lparr>open_cleared := n1, outcomes_cleared := n2\<rparr>))
          | Some n3 \<Rightarrow>
              io_seq (tell emit (LogLine ''Circuit breakers resetados para novo lote''))
                (io_ret \<lparr>open_cleared = n1, adaptive_cleared = n3, outcomes_cleared = n2, reset_failed = False\<rparr>)))))"

section \<open>On a server, the component does what it does on the store\<close>

context worker
begin

lemma resolve_sim [sim]:
  "io_sim view (resolve_effective_jump_host_slots cfg (Some R) ov l b)
     (resolve_effective_jump_host_slots cfg (Some mem_redis) ov l b)"
  unfolding resolve_effective_jump_host_slots_def Let_def by (auto simp del: io_run_simps tell_no_emit intro!: sim)

lemma adapt_sim [sim]:
  "io_sim view (adapt_jump_host_slots cfg (Some R) emit ov li ok m)
     (adapt_jump_host_slots cfg (Some mem_redis) no_emit ov li ok m)"
  unfolding adapt_jump_host_slots_def adapt_on_success_def adapt_on_failure_def Let_def mem_redis_simps
  by (auto simp del: io_run_simps tell_no_emit intro!: sim)

lemma record_sim [sim]:
  "io_sim view (record_jump_host_outcome cfg (Some R) emit t l ok)
     (record_jump_host_outcome cfg (Some mem_redis) no_emit t l ok)"
  unfolding record_jump_host_outcome_def by (auto simp del: io_run_simps tell_no_emit intro!: sim)

lemma check_sim [sim]:
  "io_sim view (check_jump_host_circuit_breaker cfg (Some R) emit t l)
     (check_jump_host_circuit_breaker cfg (Some mem_redis) no_emit t l)"
  unfolding check_jump_host_circuit_breaker_def cb_cleanup_def cb_decide_def Let_def
  by (auto simp del: io_run_simps tell_no_emit intro!: sim)

lemma reset_sim [sim]:
  "io_sim view (reset_circuit_breakers_for_new_batch (Some R) emit)
     (reset_circuit_breakers_for_new_batch (Some mem_redis) no_emit)"
  unfolding reset_circuit_breakers_for_new_batch_def clear_prefix_def Let_def
  by (auto simp del: io_run_simps tell_no_emit intro!: sim)

end

section \<open>Lemmas on the breaker\<close>

lemma resolve_total [total_io]: "io_total (resolve_effective_jump_host_slots cfg client ov l b)"
  unfolding resolve_effective_jump_host_slots_def Let_def by (auto intro!: total_io split: option.split)

lemma check_total [total_io]: "io_total (check_jump_host_circuit_breaker cfg client emit t l)"
  unfolding check_jump_host_circuit_breaker_def by (auto intro!: total_io split: option.split)

lemma record_total [total_io]: "io_total (record_jump_host_outcome cfg client emit t l ok)"
  unfolding record_jump_host_outcome_def by (auto intro!: total_io split: option.split)

lemma adapt_total [total_io]: "io_total (adapt_jump_host_slots cfg client emit ov li ok m)"
  unfolding adapt_jump_host_slots_def Let_def by (auto intro!: total_io split: option.split)

lemma reset_total [total_io]: "io_total (reset_circuit_breakers_for_new_batch client emit)"
  unfolding reset_circuit_breakers_for_new_batch_def Let_def by (auto intro!: total_io split: option.split)

text \<open>The decision on the counts of a window.\<close>

definition breaker_trips :: "task_config \<Rightarrow> nat \<Rightarrow> nat \<Rightarrow> bool" where
  "breaker_trips cfg successes failures \<longleftrightarrow>
     cb_min_samples cfg \<le> int (successes + failures) \<and>
     cb_threshold cfg \<le> int (pct_trunc failures (successes + failures))"

lemma cb_decide_store:
  assumes "0 < cb_open_seconds cfg"
  shows "cb_decide cfg mem_redis no_emit l su f st =
     (if breaker_trips cfg su f
      then (Some (True, cb_tripped_reason cfg l (pct_trunc f (su + f)) f (su + f), cb_open_seconds cfg),
            st_put (cb_open_key l) (DStr (RText ''1'')) (Some (st_now st + cb_open_seconds cfg * 1000)) st)
      else (Some cb_closed, st))"
  using assms by (auto simp: cb_decide_def breaker_trips_def Let_def io_seq_def io_bind_def st_setex_def io_ret_def)

lemma cb_keys_distinct [simp]: "cb_open_key l \<noteq> cb_outcomes_key l'" "cb_outcomes_key l' \<noteq> cb_open_key l"
  by (simp_all add: cb_open_key_def cb_outcomes_key_def)

lemma cb_keys_inj [simp]: "cb_open_key l = cb_open_key l' \<longleftrightarrow> l = l'" "cb_outcomes_key l = cb_outcomes_key l' \<longleftrightarrow> l = l'"
  by (simp_all add: cb_open_key_def cb_outcomes_key_def)

lemma cb_cleanup_store:
  "\<exists>st'. cb_cleanup cfg mem_redis k es v st = (Some (), st') \<and> st_now st' = st_now st \<and>
     (\<forall>k'. k' \<noteq> k \<longrightarrow> st_find k' st' = st_find k' st)"
  by (auto simp: cb_cleanup_def io_try_def io_seq_def io_bind_def st_delete_def st_rpush_def st_list_def
      st_expire_def io_ret_def split: option.splits prod.splits)

lemma check_open_flag:
  assumes "l \<noteq> []" "st_find (cb_open_key l) st = Some (DStr v, e)" "rv_truthy (Some v)"
  shows "\<exists>ttl. check_jump_host_circuit_breaker cfg (Some mem_redis) no_emit now l st
    = (Some (True, cb_open_reason l ttl, ttl), st)"
  using assms
  by (auto simp: check_jump_host_circuit_breaker_def io_try_def io_bind_def st_get_def st_ttl_def io_ret_def Let_def
      split: option.splits)

lemma check_no_flag:
  assumes "l \<noteq> []" "st_find (cb_open_key l) st = None" "st_list (cb_outcomes_key l) st = Some (es, e)"
    and "0 < cb_open_seconds cfg" "0 < cb_min_samples cfg"
    and sc: "scan_outcomes (now - cb_window cfg * 1000) es = (v, su, f)"
  shows "fst (check_jump_host_circuit_breaker cfg (Some mem_redis) no_emit now l st) = Some
      (if breaker_trips cfg su f
       then (True, cb_tripped_reason cfg l (pct_trunc f (su + f)) f (su + f), cb_open_seconds cfg)
       else cb_closed)"
    and "st_find (cb_open_key l) (snd (check_jump_host_circuit_breaker cfg (Some mem_redis) no_emit now l st)) =
      (if breaker_trips cfg su f
       then Some (DStr (RText ''1''), Some (st_now st + cb_open_seconds cfg * 1000)) else None)"
    and "st_now (snd (check_jump_host_circuit_breaker cfg (Some mem_redis) no_emit now l st)) = st_now st"
proof -
  have empty: "\<not> breaker_trips cfg 0 0" using assms(5) by (simp add: breaker_trips_def)
  obtain st' where c: "cb_cleanup cfg mem_redis (cb_outcomes_key l) es v st = (Some (), st')" "st_now st' = st_now st"
    "st_find (cb_open_key l) st' = st_find (cb_open_key l) st"
    using cb_cleanup_store [of cfg "cb_outcomes_key l" es v st] by auto
  have lr: "st_lrange (cb_outcomes_key l) 0 (- 1) st = (Some es, st)"
    using assms(3) by (simp add: st_lrange_def)
  have g: "st_get (cb_open_key l) st = (Some None, st)" using assms(2) by (simp add: st_get_def)
  have run: "check_jump_host_circuit_breaker cfg (Some mem_redis) no_emit now l st =
      (if es = [] then (Some cb_closed, st) else cb_decide cfg mem_redis no_emit l su f st')"
    using assms(1) g lr c(1) sc
    by (auto simp: check_jump_host_circuit_breaker_def io_try_def io_bind_def io_seq_def rv_truthy_def io_ret_def
        cb_decide_store [OF assms(4)])
  have nil: "es = [] \<Longrightarrow> su = 0 \<and> f = 0" using sc by simp
  from run nil empty c assms show
    "fst (check_jump_host_circuit_breaker cfg (Some mem_redis) no_emit now l st) = Some
      (if breaker_trips cfg su f
       then (True, cb_tripped_reason cfg l (pct_trunc f (su + f)) f (su + f), cb_open_seconds cfg)
       else cb_closed)"
    "st_find (cb_open_key l) (snd (check_jump_host_circuit_breaker cfg (Some mem_redis) no_emit now l st)) =
      (if breaker_trips cfg su f
       then Some (DStr (RText ''1''), Some (st_now st + cb_open_seconds cfg * 1000)) else None)"
    "st_now (snd (check_jump_host_circuit_breaker cfg (Some mem_redis) no_emit now l st)) = st_now st"
    by (auto simp: cb_decide_store [OF assms(4)])
qed

lemma parse_outcome_entry [simp]: "parse_outcome (RText (outcome_entry b t)) = Some (if b then 1 else 0, t)"
proof -
  have "py_split CHR '':'' (outcome_entry b t) = [if b then ''1'' else ''0'', show_int t]"
    using show_int_no_colon [of t] by (simp add: outcome_entry_def py_split_absent)
  moreover have "py_int ''1'' = Some 1" "py_int ''0'' = Some 0" by code_simp+
  ultimately show ?thesis by (simp add: parse_outcome_def rv_text_def py_int_show_int)
qed

text \<open>Successes and failures of a list of outcomes with a time stamp not before the cutoff.\<close>

definition window_counts :: "int \<Rightarrow> (int \<times> bool) list \<Rightarrow> nat \<times> nat" where
  "window_counts cutoff os =
     (length (filter (\<lambda>(t, b). cutoff \<le> t \<and> b) os), length (filter (\<lambda>(t, b). cutoff \<le> t \<and> \<not> b) os))"

definition entries_of :: "(int \<times> bool) list \<Rightarrow> rval list" where
  "entries_of os = map (\<lambda>(t, b). RText (outcome_entry b t)) os"

lemma scan_outcomes_entries: "snd (scan_outcomes c (entries_of os)) = window_counts c os"
proof (induction os)
  case (Cons o' os)
  obtain t b where [simp]: "o' = (t, b)" by (cases o') auto
  obtain v su f where "scan_outcomes c (entries_of os) = (v, su, f)" by (cases "scan_outcomes c (entries_of os)") auto
  with Cons show ?case by (auto simp: entries_of_def window_counts_def)
qed (simp add: entries_of_def window_counts_def)

lemma record_store:
  assumes "l \<noteq> []" "st_list (cb_outcomes_key l) st = Some (es, e)" "0 \<le> cb_window cfg"
  shows "\<exists>st' e'. record_jump_host_outcome cfg (Some mem_redis) no_emit t l b st = (Some (), st') \<and>
     st_list (cb_outcomes_key l) st' = Some (es @ [RText (outcome_entry b t)], e') \<and>
     st_now st' = st_now st \<and> (\<forall>k. k \<noteq> cb_outcomes_key l \<longrightarrow> st_find k st' = st_find k st)"
proof -
  have e: "live e st" using assms(2) st_find_live by (auto simp: st_list_def split: option.splits rdata.splits)
  show ?thesis using assms e
    by (auto simp: record_jump_host_outcome_def io_try_def io_seq_def io_bind_def st_rpush_def st_expire_def
        st_list_def live_def)
qed

lemma record_all_store:
  assumes "l \<noteq> []" "st_list (cb_outcomes_key l) st = Some (es, e)" "0 \<le> cb_window cfg"
  shows "\<exists>st' e'. io_for os (\<lambda>(t, b). record_jump_host_outcome cfg (Some mem_redis) no_emit t l b) st = (Some (), st') \<and>
     st_list (cb_outcomes_key l) st' = Some (es @ entries_of os, e') \<and>
     st_now st' = st_now st \<and> (\<forall>k. k \<noteq> cb_outcomes_key l \<longrightarrow> st_find k st' = st_find k st)"
  using assms(2)
proof (induction os arbitrary: st es e)
  case Nil
  then show ?case by (auto simp: entries_of_def io_ret_def)
next
  case (Cons o' os)
  obtain t b where o: "o' = (t, b)" by (cases o') auto
  from record_store [OF assms(1) Cons.prems assms(3), of t b]
  obtain st1 e1 where r: "record_jump_host_outcome cfg (Some mem_redis) no_emit t l b st = (Some (), st1)"
    "st_list (cb_outcomes_key l) st1 = Some (es @ [RText (outcome_entry b t)], e1)"
    "st_now st1 = st_now st" "\<forall>k. k \<noteq> cb_outcomes_key l \<longrightarrow> st_find k st1 = st_find k st" by blast
  from Cons.IH [OF r(2)] r o show ?case
    by (auto simp: io_seq_def io_bind_def entries_of_def)
qed

context worker
begin

lemma record_all_sim:
  "io_sim view (io_for os (\<lambda>(t, b). record_jump_host_outcome cfg (Some R) emit t l b))
     (io_for os (\<lambda>(t, b). record_jump_host_outcome cfg (Some mem_redis) no_emit t l b))"
  by (auto intro!: sim)

lemma check_view:
  "fst (check_jump_host_circuit_breaker cfg (Some R) emit t l s) =
     fst (check_jump_host_circuit_breaker cfg (Some mem_redis) no_emit t l (view s))"
  "view (snd (check_jump_host_circuit_breaker cfg (Some R) emit t l s)) =
     snd (check_jump_host_circuit_breaker cfg (Some mem_redis) no_emit t l (view s))"
  by (rule io_sim_fst [OF check_sim], rule io_sim_snd [OF check_sim])

lemma record_then_check:
  assumes "l \<noteq> []" "st_find (cb_open_key l) (view s) = None" "st_find (cb_outcomes_key l) (view s) = None"
    and cfg: "config_in_range cfg"
    and w: "window_counts (now - cb_window cfg * 1000) os = (su, f)"
    and s1: "s1 = snd (io_for os (\<lambda>(t, b). record_jump_host_outcome cfg (Some R) emit t l b) s)"
  shows "fst (check_jump_host_circuit_breaker cfg (Some R) emit now l s1) = Some
      (if breaker_trips cfg su f
       then (True, cb_tripped_reason cfg l (pct_trunc f (su + f)) f (su + f), cb_open_seconds cfg)
       else cb_closed)"
proof -
  have ranges: "0 \<le> cb_window cfg" "0 < cb_open_seconds cfg" "0 < cb_min_samples cfg"
    using cfg by (auto simp: config_in_range_def)
  have "st_list (cb_outcomes_key l) (view s) = Some ([], None)" using assms(3) by (simp add: st_list_def)
  from record_all_store [OF assms(1) this ranges(1), of os]
  obtain st1 e' where st1: "io_for os (\<lambda>(t, b). record_jump_host_outcome cfg (Some mem_redis) no_emit t l b) (view s)
      = (Some (), st1)" "st_list (cb_outcomes_key l) st1 = Some (entries_of os, e')"
    "st_find (cb_open_key l) st1 = None" using assms(2) by auto
  have view1: "view s1 = st1" using io_sim_snd [OF record_all_sim, of os cfg l s] st1(1) s1 by simp
  obtain v where "scan_outcomes (now - cb_window cfg * 1000) (entries_of os) = (v, su, f)"
    using scan_outcomes_entries [of "now - cb_window cfg * 1000" os] w
    by (cases "scan_outcomes (now - cb_window cfg * 1000) (entries_of os)") auto
  from check_no_flag(1) [OF assms(1) st1(3,2) ranges(2,3) this] show ?thesis
    by (simp add: check_view view1)
qed

end

section \<open>A breaker in use\<close>

text \<open>What happens to a jump host's breaker while a batch runs: time passes, outcomes of any jump host are recorded, the breaker of
  any jump host is asked, and anything else is done that takes no time of its own and leaves the open flag of this jump host alone
  (the reset at the start of a batch does not, \<open>batch_reset_clears_breakers\<close>). The number is the time that has passed.\<close>

inductive breaker_use :: "('s \<Rightarrow> store) \<Rightarrow> 's redis \<Rightarrow> (tele \<Rightarrow> 's \<Rightarrow> 's) \<Rightarrow> string \<Rightarrow> 's \<Rightarrow> int \<Rightarrow> 's \<Rightarrow> bool"
  for view R emit l s where
  start: "breaker_use view R emit l s 0 s"
| waits: "breaker_use view R emit l s n s1 \<Longrightarrow> 0 \<le> d \<Longrightarrow> view s2 = elapse d (view s1) \<Longrightarrow> breaker_use view R emit l s (n + d) s2"
| records: "breaker_use view R emit l s n s1 \<Longrightarrow>
    breaker_use view R emit l s n (snd (record_jump_host_outcome cfg (Some R) emit now l' ok s1))"
| asks: "breaker_use view R emit l s n s1 \<Longrightarrow>
    breaker_use view R emit l s n (snd (check_jump_host_circuit_breaker cfg (Some R) emit now l' s1))"
| other: "breaker_use view R emit l s n s1 \<Longrightarrow> st_now (view s2) = st_now (view s1) \<Longrightarrow>
    st_find (cb_open_key l) (view s2) = st_find (cb_open_key l) (view s1) \<Longrightarrow> breaker_use view R emit l s n s2"

lemma open_flag_exact:
  assumes "l \<noteq> []" "st_find (cb_open_key l) st = Some (DStr (RText ''1''), Some t)"
  shows "check_jump_host_circuit_breaker cfg (Some mem_redis) no_emit now l st =
    (let ttl = max 0 ((t - st_now st + 500) div 1000) in (Some (True, cb_open_reason l ttl, ttl), st))"
  using assms
  by (simp add: check_jump_host_circuit_breaker_def io_try_def io_bind_def st_get_def st_ttl_def io_ret_def Let_def rv_truthy_def)

context client_order
begin

lemma record_within: "free (cb_outcomes_key l) \<Longrightarrow> io_within r (record_jump_host_outcome cfg (Some R) emit now l ok)"
  unfolding record_jump_host_outcome_def by (auto intro!: within within_rpush within_expire)

lemma check_within:
  assumes "free (cb_outcomes_key l)" "free (cb_open_key l)"
  shows "io_within r (check_jump_host_circuit_breaker cfg (Some R) emit now l)"
  unfolding check_jump_host_circuit_breaker_def cb_cleanup_def cb_decide_def Let_def
  by (auto intro!: within within_rpush within_expire within_delete within_setex simp: assms)

end

context worker
begin

lemmas records_within = client_order.record_within [OF key_and_clock_client]
  and asks_within = client_order.check_within [OF key_and_clock_client]

lemma used_breaker:
  assumes "breaker_use view R emit l s n s'" "l \<noteq> []" "st_find (cb_open_key l) (view s) = Some (DStr (RText ''1''), Some (st_now (view s) + t))"
    and "n < t"
  shows "0 \<le> n \<and> st_now (view s') = st_now (view s) + n \<and>
    st_find (cb_open_key l) (view s') = Some (DStr (RText ''1''), Some (st_now (view s) + t))"
  using assms(1,4)
proof (induction rule: breaker_use.induct)
  case start
  with assms(3) show ?case by simp
next
  case (waits n s1 d s2)
  then show ?case by (simp add: st_find_elapse_Some live_def)
next
  case (records n s1 cfg now l' ok)
  with io_withinD [OF records_within [where k = "cb_open_key l" and l = l' and cfg = cfg and now = now and ok = ok], of s1] show ?case by (simp add: key_and_clock_def)
next
  case (asks n s1 cfg now l')
  show ?case
  proof (cases "l' = l")
    case True
    from asks have "st_find (cb_open_key l) (view s1) = Some (DStr (RText ''1''), Some (st_now (view s) + t))" by simp
    from open_flag_exact [OF assms(2) this] True asks show ?thesis
      using check_view(2) [of cfg now l s1] by (simp add: Let_def)
  next
    case False
    with asks io_withinD [OF asks_within [where k = "cb_open_key l" and l = l' and cfg = cfg and now = now], of s1] show ?thesis by (simp add: key_and_clock_def)
  qed
qed simp

lemma tripped_flag:
  assumes "l \<noteq> []" "config_in_range cfg" "st_find (cb_open_key l) (view s) = None"
    and r: "check_jump_host_circuit_breaker cfg (Some R) emit now l s = (Some (True, why, t), s1)"
  shows "st_find (cb_open_key l) (view s1) = Some (DStr (RText ''1''), Some (st_now (view s1) + cb_open_seconds cfg * 1000))"
proof -
  have ranges: "0 < cb_open_seconds cfg" "0 < cb_min_samples cfg"
    using assms(2) by (auto simp: config_in_range_def)
  have answer: "fst (check_jump_host_circuit_breaker cfg (Some mem_redis) no_emit now l (view s)) = Some (True, why, t)"
    using check_view(1) [of cfg now l s] r by simp
  have "st_list (cb_outcomes_key l) (view s) \<noteq> None"
  proof
    assume "st_list (cb_outcomes_key l) (view s) = None"
    with answer assms(1,3) show False by (auto simp: check_jump_host_circuit_breaker_def io_try_def io_bind_def io_seq_def st_get_def st_lrange_def io_ret_def
        cb_closed_def rv_truthy_def)
  qed
  then obtain es e where es: "st_list (cb_outcomes_key l) (view s) = Some (es, e)" by auto
  obtain v su f where sc: "scan_outcomes (now - cb_window cfg * 1000) es = (v, su, f)"
    by (cases "scan_outcomes (now - cb_window cfg * 1000) es") auto
  note C = check_no_flag [OF assms(1,3) es ranges sc]
  have v1: "view s1 = snd (check_jump_host_circuit_breaker cfg (Some mem_redis) no_emit now l (view s))"
    using check_view(2) [of cfg now l s] r by simp
  have "breaker_trips cfg su f" using C(1) answer by (auto simp: cb_closed_def split: if_splits)
  with C(2,3) v1 show ?thesis by simp
qed

lemma tripped_blocks:
  assumes "l \<noteq> []" "config_in_range cfg" "st_find (cb_open_key l) (view s) = None"
    and r: "check_jump_host_circuit_breaker cfg (Some R) emit now l s = (Some (True, why, t), s1)"
    and u: "breaker_use view R emit l s1 n s2" "n < cb_open_seconds cfg * 1000"
  shows "(let ttl = (cb_open_seconds cfg * 1000 - n + 500) div 1000
      in fst (check_jump_host_circuit_breaker cfg' (Some R) emit now' l s2) = Some (True, cb_open_reason l ttl, ttl)) \<and>
    (\<forall>s3 d. view s3 = elapse d (view s2) \<and> cb_open_seconds cfg * 1000 \<le> n + d \<longrightarrow> st_find (cb_open_key l) (view s3) = None)"
proof -
  note used = used_breaker [OF u(1) assms(1) tripped_flag [OF assms(1-3) r] u(2)]
  then have "st_find (cb_open_key l) (view s2) = Some (DStr (RText ''1''), Some (st_now (view s1) + cb_open_seconds cfg * 1000))" by simp
  note flag = open_flag_exact [OF assms(1) this, of cfg' now'] and gone = st_find_elapse_Some [OF this]
  from u(2) have "0 \<le> (cb_open_seconds cfg * 1000 - n + 500) div 1000" by simp
  with flag gone used show ?thesis by (auto simp: check_view Let_def live_def max_def)
qed

end

text \<open>Whatever server answers, an open breaker is reported in one of two texts.\<close>

lemma cb_decide_reports:
  assumes "cb_decide cfg R emit l su f s = (Some (True, why, t), s')"
  shows "\<exists>p f n. why = cb_tripped_reason cfg l p f n \<and> t = cb_open_seconds cfg \<and>
       cb_min_samples cfg \<le> int n \<and> cb_threshold cfg \<le> int p"
proof -
  have "why = cb_tripped_reason cfg l (pct_trunc f (su + f)) f (su + f) \<and> t = cb_open_seconds cfg \<and>
     cb_min_samples cfg \<le> int (su + f) \<and> cb_threshold cfg \<le> int (pct_trunc f (su + f))"
    using assms by (auto simp: cb_decide_def cb_closed_def io_bind_def io_seq_def io_ret_def tell_def Let_def
      split: if_splits option.splits prod.splits)
  then show ?thesis by blast
qed

lemma check_reports:
  assumes "check_jump_host_circuit_breaker cfg client emit now l s = (Some (True, why, t), s')"
  shows "(why = cb_open_reason l t \<and> 0 \<le> t) \<or>
    (\<exists>p f n. why = cb_tripped_reason cfg l p f n \<and> t = cb_open_seconds cfg \<and>
       cb_min_samples cfg \<le> int n \<and> cb_threshold cfg \<le> int p)"
  using assms
  by (auto simp: check_jump_host_circuit_breaker_def cb_closed_def io_try_def io_bind_def io_seq_def
      io_ret_def tell_def Let_def dest: cb_decide_reports split: if_splits option.splits prod.splits)

lemma reason_text_props:
  "py_strip (cb_open_reason l t) = cb_open_reason l t"
  "py_in ''circuit breaker'' (py_lower (cb_open_reason l t))"
  "any_in [''aberto'', ''ativado'', ''bloqueado''] (py_lower (cb_open_reason l t))"
proof -
  have last: "last (cb_open_reason l t) = CHR ''.''" by (simp add: cb_open_reason_def)
  have "\<not> py_is_space CHR ''C''" "\<not> py_is_space CHR ''.''" by code_simp+
  with last show "py_strip (cb_open_reason l t) = cb_open_reason l t"
    by (intro py_strip_id) (simp add: cb_open_reason_def)
  have low: "py_lower ''Circuit breaker ABERTO para Jump Host '' = ''circuit breaker aberto para jump host ''"
    and ins: "py_in ''circuit breaker'' ''circuit breaker aberto para jump host ''"
      "py_in ''aberto'' ''circuit breaker aberto para jump host ''" by code_simp+
  show "py_in ''circuit breaker'' (py_lower (cb_open_reason l t))"
    unfolding cb_open_reason_def py_lower_append low by (rule py_in_appendL [OF ins(1)])
  have "py_in ''aberto'' (py_lower (cb_open_reason l t))"
    unfolding cb_open_reason_def py_lower_append low by (rule py_in_appendL [OF ins(2)])
  then show "any_in [''aberto'', ''ativado'', ''bloqueado''] (py_lower (cb_open_reason l t))" by simp
qed

lemma tripped_text_props:
  "py_strip (cb_tripped_reason cfg l p f n) = cb_tripped_reason cfg l p f n"
  "py_in ''circuit breaker'' (py_lower (cb_tripped_reason cfg l p f n))"
  "any_in [''aberto'', ''ativado'', ''bloqueado''] (py_lower (cb_tripped_reason cfg l p f n))"
proof -
  have last: "last (cb_tripped_reason cfg l p f n) = CHR ''.''" by (simp add: cb_tripped_reason_def)
  have "\<not> py_is_space CHR ''C''" "\<not> py_is_space CHR ''.''" by code_simp+
  with last show "py_strip (cb_tripped_reason cfg l p f n) = cb_tripped_reason cfg l p f n"
    by (intro py_strip_id) (simp add: cb_tripped_reason_def)
  have low: "py_lower ''Circuit breaker ATIVADO para Jump Host '' = ''circuit breaker ativado para jump host ''"
    and ins: "py_in ''circuit breaker'' ''circuit breaker ativado para jump host ''"
      "py_in ''ativado'' ''circuit breaker ativado para jump host ''" by code_simp+
  show "py_in ''circuit breaker'' (py_lower (cb_tripped_reason cfg l p f n))"
    unfolding cb_tripped_reason_def py_lower_append low by (rule py_in_appendL [OF ins(1)])
  have "py_in ''ativado'' (py_lower (cb_tripped_reason cfg l p f n))"
    unfolding cb_tripped_reason_def py_lower_append low by (rule py_in_appendL [OF ins(2)])
  then show "any_in [''aberto'', ''ativado'', ''bloqueado''] (py_lower (cb_tripped_reason cfg l p f n))" by simp
qed

lemma breaker_reason_class:
  assumes "check_jump_host_circuit_breaker cfg client emit now l s = (Some (True, why, t), s')"
  shows "classify_failure (Some why) = ''circuit_breaker''"
  using check_reports [OF assms] reason_text_props tripped_text_props
  by (auto intro: classify_breaker_text)

section \<open>Lemmas on the adaptive slots\<close>

text \<open>The entry of the slots hash for a label.\<close>

definition slots_of :: "store \<Rightarrow> string \<Rightarrow> rval option" where
  "slots_of st l = (case st_find slots_hash st of Some (DHash m, _) \<Rightarrow> map_of m l | _ \<Rightarrow> None)"

lemma adaptive_keys_distinct [simp]:
  "fail_streak_key l \<noteq> slots_hash" "success_streak_key l \<noteq> slots_hash" "cooldown_key l \<noteq> slots_hash"
  "slots_hash \<noteq> fail_streak_key l" "slots_hash \<noteq> success_streak_key l" "slots_hash \<noteq> cooldown_key l"
  "fail_streak_key l \<noteq> cooldown_key l'" "success_streak_key l \<noteq> cooldown_key l'"
  "cooldown_key l \<noteq> fail_streak_key l'" "cooldown_key l \<noteq> success_streak_key l'"
  "fail_streak_key l \<noteq> success_streak_key l'" "success_streak_key l \<noteq> fail_streak_key l'"
  by (simp_all add: fail_streak_key_def success_streak_key_def cooldown_key_def slots_hash_def)

lemma resolve_store:
  "\<exists>n. resolve_effective_jump_host_slots cfg (Some mem_redis) ov l b st = (Some n, st) \<and> 1 \<le> n \<and> n \<le> 16"
  by (auto simp: resolve_effective_jump_host_slots_def Let_def io_try_def io_bind_def io_ret_def io_raise_def
      st_hget_def clamp_slots_def split: option.splits rdata.splits)

lemma resolve_range:
  "fst (resolve_effective_jump_host_slots cfg client ov l b s) = Some n \<Longrightarrow> 1 \<le> n \<and> n \<le> 16"
  by (auto simp: resolve_effective_jump_host_slots_def Let_def io_try_def io_bind_def io_ret_def io_raise_def
      clamp_slots_def split: option.splits if_splits prod.splits)

text \<open>What one step of the adaptation may do to the store.\<close>

definition adapt_step_ok :: "string \<Rightarrow> (int \<Rightarrow> bool) \<Rightarrow> store \<Rightarrow> store \<Rightarrow> bool" where
  "adapt_step_ok l good st st' \<longleftrightarrow>
     (slots_of st' l = slots_of st l \<or>
      (\<exists>n t. slots_of st' l = Some (RText (show_int n)) \<and> good n \<and>
         st_find (cooldown_key l) st' = Some (DStr (RText ''1''), Some t) \<and> st_now st' < t))"

lemma slots_of_put [simp]: "slots_of (st_put k d e st) l =
   (if k = slots_hash then if live e st then (case d of DHash m \<Rightarrow> map_of m l | _ \<Rightarrow> None) else None else slots_of st l)"
  by (simp add: slots_of_def split: rdata.splits)

lemma slots_of_del [simp]: "k \<noteq> slots_hash \<Longrightarrow> slots_of (st_del k st) l = slots_of st l"
  by (simp add: slots_of_def)

lemma st_incr_frame:
  "st_incr k st = (r, st') \<Longrightarrow> st_now st' = st_now st \<and> (\<forall>k'. k' \<noteq> k \<longrightarrow> st_find k' st' = st_find k' st)"
  by (auto simp: st_incr_def split: option.splits prod.splits rdata.splits)

lemma st_expire_frame:
  "st_expire k n st = (r, st') \<Longrightarrow> st_now st' = st_now st \<and> (\<forall>k'. k' \<noteq> k \<longrightarrow> st_find k' st' = st_find k' st)"
  by (auto simp: st_expire_def split: option.splits prod.splits if_splits)

lemma st_hset_slots:
  "st_hset slots_hash l v st = (r, st') \<Longrightarrow>
     (r = None \<and> st' = st) \<or> (r = Some () \<and> slots_of st' l = Some v \<and> st_now st' = st_now st \<and>
       (\<forall>k'. k' \<noteq> slots_hash \<longrightarrow> st_find k' st' = st_find k' st))"
  using st_find_live [of slots_hash st]
  by (auto simp: st_hset_def slots_of_def update_conv' split: option.splits prod.splits rdata.splits)

lemma slots_of_cong: "st_find slots_hash st' = st_find slots_hash st \<Longrightarrow> slots_of st' l = slots_of st l"
  by (simp add: slots_of_def)

text \<open>The tail every change shares: write the slots, start the cooldown, clear a streak.\<close>

lemma write_slots_store:
  assumes "k \<noteq> slots_hash" "k \<noteq> cooldown_key l"
    and "io_seq (st_hset slots_hash l (RText (show_int n))) (io_seq (st_setex (cooldown_key l) c (RText ''1''))
       (st_delete [k])) st = (r, st')" "0 < c" "good n"
  shows "adapt_step_ok l good st st'"
proof -
  obtain r1 st1 where h: "st_hset slots_hash l (RText (show_int n)) st = (r1, st1)" by fastforce
  from st_hset_slots [OF h] show ?thesis
  proof
    assume "r1 = None \<and> st1 = st"
    with assms h show ?thesis by (auto simp: io_seq_def io_bind_def adapt_step_ok_def)
  next
    assume "r1 = Some () \<and> slots_of st1 l = Some (RText (show_int n)) \<and> st_now st1 = st_now st \<and>
       (\<forall>k'. k' \<noteq> slots_hash \<longrightarrow> st_find k' st1 = st_find k' st)"
    with assms h show ?thesis
      by (auto simp: io_seq_def io_bind_def adapt_step_ok_def st_setex_def st_delete_def)
  qed
qed

lemma io_seq_assoc: "io_seq (io_seq a b) c = io_seq a (io_seq b c)"
  by (auto simp: io_seq_def io_bind_def fun_eq_iff split: prod.splits option.splits)

lemma io_seq_ret_right: "io_seq m (io_ret ()) = m"
  by (auto simp: io_seq_def io_bind_def io_ret_def fun_eq_iff split: prod.splits option.splits)

text \<open>The head every step shares: count in one streak, clear the other; it leaves the slots alone.\<close>

lemma streak_head_store:
  assumes "io_bind (st_incr a) (\<lambda>n. io_seq (st_expire a t) (io_seq (st_delete [b]) (f n))) st = (r, st')"
    and "a \<noteq> slots_hash" "b \<noteq> slots_hash"
    and f: "\<And>n st1 r st'. f n st1 = (r, st') \<Longrightarrow> adapt_step_ok l good st1 st'"
  shows "adapt_step_ok l good st st'"
proof -
  obtain r1 st1 where i: "st_incr a st = (r1, st1)" by fastforce
  have f1: "st_find slots_hash st1 = st_find slots_hash st" using st_incr_frame [OF i] assms(2) by auto
  show ?thesis
  proof (cases r1)
    case None
    with assms(1) i slots_of_cong [OF f1] show ?thesis by (auto simp: io_bind_def adapt_step_ok_def)
  next
    case (Some n)
    obtain r2 st2 where e: "st_expire a t st1 = (r2, st2)" by fastforce
    have f2: "st_find slots_hash st2 = st_find slots_hash st1" using st_expire_frame [OF e] assms(2) by auto
    have "r2 = Some ()" using e by (auto simp: st_expire_def split: option.splits prod.splits)
    with assms(1) i Some e have "f n (st_del b st2) = (r, st')"
      by (simp add: io_bind_def io_seq_def st_delete_def)
    from f [OF this] assms(3) slots_of_cong [OF f1] slots_of_cong [OF f2] show ?thesis
      by (simp add: adapt_step_ok_def)
  qed
qed

lemma adapt_step_refl: "adapt_step_ok l good st st"
  by (simp add: adapt_step_ok_def)

lemma adapt_success_store:
  assumes "adapt_on_success cfg mem_redis no_emit l cur allowed st = (r, st')" "0 < adaptive_cooldown cfg"
  shows "adapt_step_ok l (\<lambda>n. cur < n \<and> n \<le> allowed \<and> n = cur + 1) st st'"
  using assms(1) unfolding adapt_on_success_def mem_redis_simps
proof (rule streak_head_store)
  fix n st1 r st'
  assume a: "(if adaptive_success_streak cfg \<le> n \<and> cur < allowed
     then let next_slots = min allowed (cur + 1) in
       io_seq (st_hset slots_hash l (RText (show_int next_slots)))
        (io_seq (st_setex (cooldown_key l) (adaptive_cooldown cfg) (RText ''1''))
        (io_seq (st_delete [success_streak_key l])
        (io_seq (tell no_emit (Counter ''jump_host_adaptive_slot_changes_total''
                   [(''jump_host'', l), (''direction'', ''up'')]))
                (tell no_emit (slot_change_event l ''up'' cur next_slots ''success_streak'')))))
     else io_ret ()) st1 = (r, st')"
  show "adapt_step_ok l (\<lambda>n. cur < n \<and> n \<le> allowed \<and> n = cur + 1) st1 st'"
  proof (cases "adaptive_success_streak cfg \<le> n \<and> cur < allowed")
    case True
    then have mn: "min allowed (cur + 1) = cur + 1" by simp
    from a True have "io_seq (st_hset slots_hash l (RText (show_int (cur + 1))))
        (io_seq (st_setex (cooldown_key l) (adaptive_cooldown cfg) (RText ''1'')) (st_delete [success_streak_key l])) st1
        = (r, st')" by (simp add: mn io_seq_ret_right)
    then show ?thesis using True by (intro write_slots_store [OF _ _ _ assms(2)]) auto
  next
    case False
    with a show ?thesis by (auto simp: io_ret_def adapt_step_refl)
  qed
qed simp_all

lemma adapt_failure_store:
  assumes "adapt_on_failure cfg mem_redis no_emit l cur message st = (r, st')"
    "0 < adaptive_cooldown cfg" "0 < severe_cooldown cfg"
  shows "adapt_step_ok l (\<lambda>n. 1 \<le> n \<and> n < cur) st st'"
  using assms(1) unfolding adapt_on_failure_def mem_redis_simps
proof (rule streak_head_store)
  fix n st1 r st'
  define sev where "sev = message_indicates_severe_jump_host_saturation message"
  define nx where "nx = (if sev \<and> severe_fail_streak cfg \<le> n
    then if severe_drop_to_one cfg then 1 else max 1 (cur - 2) else max 1 (cur - 1))"
  define cd where "cd = (if sev \<and> severe_fail_streak cfg \<le> n then severe_cooldown cfg else adaptive_cooldown cfg)"
  assume a: "(let severe = message_indicates_severe_jump_host_saturation message;
          severe_reached = severe_fail_streak cfg \<le> n; regular_reached = adaptive_fail_streak cfg \<le> n
      in if 1 < cur \<and> (regular_reached \<or> severe \<and> severe_reached)
         then let (next_slots, cooldown_seconds, why) =
              if severe \<and> severe_reached
              then (if severe_drop_to_one cfg then 1 else max 1 (cur - 2), severe_cooldown cfg,
                    ''severe_saturation_streak'')
              else (max 1 (cur - 1), adaptive_cooldown cfg, ''saturation_streak'')
            in io_seq (st_hset slots_hash l (RText (show_int next_slots)))
              (io_seq (st_setex (cooldown_key l) cooldown_seconds (RText ''1''))
              (io_seq (st_delete [fail_streak_key l])
              (io_seq (tell no_emit (Counter ''jump_host_adaptive_slot_changes_total''
                         [(''jump_host'', l), (''direction'', ''down'')]))
                      (tell no_emit (slot_change_event l ''down'' cur next_slots why)))))
         else io_ret ()) st1 = (r, st')"
  show "adapt_step_ok l (\<lambda>n. 1 \<le> n \<and> n < cur) st1 st'"
  proof (cases "1 < cur \<and> (adaptive_fail_streak cfg \<le> n \<or> sev \<and> severe_fail_streak cfg \<le> n)")
    case True
    with a have "io_seq (st_hset slots_hash l (RText (show_int nx)))
        (io_seq (st_setex (cooldown_key l) cd (RText ''1'')) (st_delete [fail_streak_key l])) st1 = (r, st')"
      by (auto simp: nx_def cd_def sev_def Let_def io_seq_ret_right split: if_splits)
    moreover have "0 < cd" using assms by (simp add: cd_def)
    moreover have "1 \<le> nx \<and> nx < cur" using True by (auto simp: nx_def)
    ultimately show ?thesis by (intro write_slots_store) auto
  next
    case False
    with a show ?thesis by (auto simp: io_ret_def adapt_step_refl sev_def Let_def split: if_splits)
  qed
qed simp_all

lemma adapt_store:
  assumes "adapt_jump_host_slots cfg (Some mem_redis) no_emit ov (Some li) success m st = (r, st')"
    and cfg: "config_in_range cfg"
    and c: "fst (resolve_effective_jump_host_slots cfg (Some mem_redis) ov (py_strip (li_label li)) (lock_base_slots li) st)
      = Some c"
  shows "adapt_step_ok (py_strip (li_label li))
      (\<lambda>n. if success then n = c + 1 \<and> n \<le> allowed_max_slots cfg li else 1 \<le> n \<and> n < c) st st'"
    and "(\<exists>v e. st_find (cooldown_key (py_strip (li_label li))) st = Some (DStr v, e) \<and> rv_truthy (Some v)) \<Longrightarrow> st' = st"
proof -
  define l where "l = py_strip (li_label li)"
  have cool: "0 < adaptive_cooldown cfg" "0 < severe_cooldown cfg" using cfg by (auto simp: config_in_range_def)
  have res: "resolve_effective_jump_host_slots cfg (Some mem_redis) ov l (lock_base_slots li) st = (Some c, st)"
    using resolve_store [of cfg ov l "lock_base_slots li" st] c by (auto simp: l_def)
  define skip where "skip = (case fst (st_get (cooldown_key l) st) of None \<Rightarrow> True | Some v \<Rightarrow> rv_truthy v)"
  have get: "io_try (io_bind (st_get (cooldown_key l)) (\<lambda>c. io_ret (rv_truthy c))) (io_ret True) st = (Some skip, st)"
    by (auto simp: skip_def io_try_def io_bind_def io_ret_def st_get_def split: option.splits rdata.splits)
  have run: "(r, st') = (if \<not> adaptive_enabled cfg \<or> l = [] \<or> skip then (Some (), st)
      else if success then io_try (adapt_on_success cfg mem_redis no_emit l c (allowed_max_slots cfg li)) (io_ret ()) st
      else if \<not> message_indicates_jump_host_saturation m then (Some (), st)
      else io_try (adapt_on_failure cfg mem_redis no_emit l c m) (io_ret ()) st)"
    using assms(1) res get
    by (auto simp: adapt_jump_host_slots_def l_def [symmetric] Let_def io_bind_def [of "resolve_effective_jump_host_slots cfg (Some mem_redis) ov l (lock_base_slots li)"]
        io_bind_def [of "io_try _ _"] io_ret_def split: if_splits)
  show "adapt_step_ok (py_strip (li_label li))
      (\<lambda>n. if success then n = c + 1 \<and> n \<le> allowed_max_slots cfg li else 1 \<le> n \<and> n < c) st st'"
  proof (cases success)
    case True
    obtain r1 st1 where s: "adapt_on_success cfg mem_redis no_emit l c (allowed_max_slots cfg li) st = (r1, st1)" by fastforce
    have "st' = st \<or> st' = st1" using run True s by (auto simp: io_try_def io_ret_def split: if_splits option.splits)
    with adapt_success_store [OF s cool(1)] True show ?thesis
      by (auto simp: l_def adapt_step_ok_def)
  next
    case False
    obtain r1 st1 where s: "adapt_on_failure cfg mem_redis no_emit l c m st = (r1, st1)" by fastforce
    have "st' = st \<or> st' = st1" using run False s by (auto simp: io_try_def io_ret_def split: if_splits option.splits)
    with adapt_failure_store [OF s cool] False show ?thesis
      by (auto simp: l_def adapt_step_ok_def)
  qed
  assume "\<exists>v e. st_find (cooldown_key (py_strip (li_label li))) st = Some (DStr v, e) \<and> rv_truthy (Some v)"
  then have skip by (auto simp: skip_def st_get_def l_def)
  with run show "st' = st" by simp
qed

section \<open>Lemmas on the reset\<close>

lemma clear_prefix_store:
  "\<exists>n st'. clear_prefix mem_redis p st = (Some n, st') \<and> st_now st' = st_now st \<and>
     (\<forall>k. st_find k st' = (if prefix p k then None else st_find k st))"
proof -
  define ks where "ks = filter (\<lambda>k. prefix p k \<and> st_find k st \<noteq> None) (remdups (map fst (st_data st)))"
  have scan: "st_scan p st = (Some ks, st)" by (simp add: st_scan_def ks_def)
  have mem: "k \<in> set ks \<longleftrightarrow> prefix p k \<and> st_find k st \<noteq> None" for k
  proof -
    have "st_find k st \<noteq> None \<Longrightarrow> k \<in> fst ` set (st_data st)"
      by (auto simp: st_find_def split: option.splits dest!: map_of_SomeD intro: rev_image_eqI)
    then show ?thesis by (auto simp: ks_def)
  qed
  show ?thesis
  proof (cases "ks = []")
    case True
    then have "st_find k st = None" if "prefix p k" for k
      using mem [of k] that by (simp del: not_None_eq)
    with True scan show ?thesis by (auto simp: clear_prefix_def io_bind_def io_ret_def)
  next
    case False
    with scan have "clear_prefix mem_redis p st = (Some (length ks), foldr st_del ks st)"
      by (simp add: clear_prefix_def io_bind_def io_seq_def io_ret_def st_delete_def)
    moreover have "st_find k (foldr st_del ks st) = (if prefix p k then None else st_find k st)" for k
      using mem [of k] by (cases "st_find k st = None") (simp_all add: st_find_foldr_del del: not_None_eq)
    ultimately show ?thesis by auto
  qed
qed

lemma reset_store:
  "\<exists>n1 n2 n3 st'. reset_circuit_breakers_for_new_batch (Some mem_redis) no_emit st
      = (Some \<lparr>open_cleared = n1, adaptive_cleared = n3, outcomes_cleared = n2, reset_failed = False\<rparr>, st') \<and>
     (\<forall>k. st_find k st' = (if prefix ''backup_center:cb:open:'' k \<or> prefix ''backup_center:cb:outcomes:'' k \<or>
         prefix ''backup_center:jump_host_adaptive:'' k then None else st_find k st))"
proof -
  obtain n1 st1 where 1: "clear_prefix mem_redis ''backup_center:cb:open:'' st = (Some n1, st1)"
    "\<forall>k. st_find k st1 = (if prefix ''backup_center:cb:open:'' k then None else st_find k st)"
    using clear_prefix_store [of "''backup_center:cb:open:''" st] by blast
  obtain n2 st2 where 2: "clear_prefix mem_redis ''backup_center:cb:outcomes:'' st1 = (Some n2, st2)"
    "\<forall>k. st_find k st2 = (if prefix ''backup_center:cb:outcomes:'' k then None else st_find k st1)"
    using clear_prefix_store [of "''backup_center:cb:outcomes:''" st1] by blast
  obtain n3 st3 where 3: "clear_prefix mem_redis ''backup_center:jump_host_adaptive:'' st2 = (Some n3, st3)"
    "\<forall>k. st_find k st3 = (if prefix ''backup_center:jump_host_adaptive:'' k then None else st_find k st2)"
    using clear_prefix_store [of "''backup_center:jump_host_adaptive:''" st2] by blast
  have "reset_circuit_breakers_for_new_batch (Some mem_redis) no_emit st
      = (Some \<lparr>open_cleared = n1, adaptive_cleared = n3, outcomes_cleared = n2, reset_failed = False\<rparr>, st3)"
    using 1(1) 2(1) 3(1)
    by (simp add: reset_circuit_breakers_for_new_batch_def io_bind_def io_attempt_def io_ret_def Let_def)
  moreover have "\<forall>k. st_find k st3 = (if prefix ''backup_center:cb:open:'' k \<or> prefix ''backup_center:cb:outcomes:'' k \<or>
         prefix ''backup_center:jump_host_adaptive:'' k then None else st_find k st)"
    using 1(2) 2(2) 3(2) by simp
  ultimately show ?thesis by blast
qed

section \<open>Properties\<close>

lemma default_in_range: "config_in_range default_config"
  unfolding default_config_def by (rule load_task_config_in_range)

lemma config_ranges:
  assumes "config_in_range cfg"
  shows "3 \<le> cb_min_samples cfg" "30 \<le> cb_threshold cfg" "10 \<le> cb_open_seconds cfg" "60 \<le> cb_window cfg"
  using assms by (auto simp: config_in_range_def)

lemma pct_trunc_full: "pct_trunc 10 10 = 100"
proof -
  have "bit_len 10 = 4" by (simp add: bit_len.simps)
  then have d: "fl_div 10 10 = (4503599627370496, 52)" by (simp add: fl_div_def rne_def Let_def)
  have "bit_len 450359962737049600 = 59" by (simp add: bit_len.simps)
  then have "fl_pct 10 10 = (450359962737049600, 52)" by (simp add: fl_pct_def d fl_scale_def rne_def Let_def)
  then show ?thesis by (simp add: pct_trunc_def)
qed

lemma ten_failures_trip: "breaker_trips default_config 0 10"
  by (simp add: breaker_trips_def pct_trunc_full)

lemma empty_world [simp]: "st_find k \<lparr>st_now = n, st_data = []\<rparr> = None"
  by (simp add: st_find_def)

text \<open>C31: On a Redis server that implements its commands, the breaker of a jump host with no previous
  state refines the pure decision on the recorded outcomes: after any sequence of recorded outcomes the
  check answers "open" exactly when the outcomes inside the sliding window reach the minimum sample and
  the failure percentage reaches the threshold, and otherwise answers "closed".\<close>

theorem breaker_decides_on_window:
  assumes "worker R view emit" and "config_in_range cfg" and "l \<noteq> []"
    and "st_find (cb_open_key l) (view s) = None" "st_find (cb_outcomes_key l) (view s) = None"
  shows "fst (check_jump_host_circuit_breaker cfg (Some R) emit now l
      (snd (io_for os (\<lambda>(t, b). record_jump_host_outcome cfg (Some R) emit t l b) s))) =
    Some (let (su, f) = window_counts (now - cb_window cfg * 1000) os
          in if breaker_trips cfg su f
             then (True, cb_tripped_reason cfg l (pct_trunc f (su + f)) f (su + f), cb_open_seconds cfg)
             else (False, [], 0))"
  using worker.record_then_check [OF assms(1,3,4,5,2), of now os _ _ "snd (io_for os _ s)"]
  by (cases "window_counts (now - cb_window cfg * 1000) os") (simp add: cb_closed_def)

theorem breaker_decides_on_window_witness:
  "fst (check_jump_host_circuit_breaker default_config (Some pair_redis) pair_emit 5000 ''jh:22''
      (snd (io_for (replicate 10 (4000, False))
        (\<lambda>(t, b). record_jump_host_outcome default_config (Some pair_redis) pair_emit t ''jh:22'' b)
        (\<lparr>st_now = 0, st_data = []\<rparr>, [])))) =
    Some (True, cb_tripped_reason default_config ''jh:22'' 100 10 10, 60)"
  using breaker_decides_on_window [OF pair.worker_axioms default_in_range, of "''jh:22''"
      "(\<lparr>st_now = 0, st_data = []\<rparr>, [])" 5000 "replicate 10 (4000, False)"]
    ten_failures_trip
  by (simp add: window_counts_def pct_trunc_full)


definition tripping_world :: pworld where
  "tripping_world = (\<lparr>st_now = 0, st_data = [(cb_outcomes_key ''jh:22'',
     DList (entries_of (replicate 10 (4000, False))), None)]\<rparr>, [])"

lemma tripping_world_find:
  "st_find (cb_open_key ''jh:22'') (fst tripping_world) = None"
  "st_list (cb_outcomes_key ''jh:22'') (fst tripping_world) = Some (entries_of (replicate 10 (4000, False)), None)"
  by (simp_all add: tripping_world_def st_find_def st_list_def)

lemma tripping_world_trips:
  "\<exists>s1. check_jump_host_circuit_breaker default_config (Some pair_redis) pair_emit 5000 ''jh:22'' tripping_world =
     (Some (True, cb_tripped_reason default_config ''jh:22'' 100 10 10, 60), s1)"
proof -
  obtain v where sc: "scan_outcomes (5000 - cb_window default_config * 1000) (entries_of (replicate 10 (4000, False)))
      = (v, 0, 10)"
    using scan_outcomes_entries [of "5000 - cb_window default_config * 1000" "replicate 10 (4000, False)"]
    by (cases "scan_outcomes (5000 - cb_window default_config * 1000) (entries_of (replicate 10 (4000, False)))")
      (simp add: window_counts_def)
  have "fst (check_jump_host_circuit_breaker default_config (Some pair_redis) pair_emit 5000 ''jh:22'' tripping_world)
     = Some (True, cb_tripped_reason default_config ''jh:22'' 100 10 10, 60)"
    unfolding pair.check_view
    by (subst check_no_flag(1) [OF _ tripping_world_find _ _ sc]) (simp_all add: ten_failures_trip pct_trunc_full)
  then show ?thesis by (metis prod.collapse)
qed


text \<open>The percentage is computed in floating point and truncated; even so the breaker is sound and
  nearly exact: it trips only if the failures are at least the threshold percentage of the samples, and
  it does trip as soon as they are one percentage point above it.\<close>

theorem breaker_threshold_exact:
  assumes "config_in_range cfg" and "su + f \<le> 2 ^ 40" and "cb_min_samples cfg \<le> int (su + f)"
  shows "(breaker_trips cfg su f \<longrightarrow> cb_threshold cfg * int (su + f) \<le> 100 * int f) \<and>
    ((cb_threshold cfg + 1) * int (su + f) \<le> 100 * int f \<longrightarrow> breaker_trips cfg su f)"
proof (intro conjI impI)
  have pos: "0 < su + f" and le: "f \<le> su + f" using assms(3) config_ranges(1) [OF assms(1)] by auto
  obtain t where t: "cb_threshold cfg = int t"
    using config_ranges(2) [OF assms(1)] nonneg_int_cases [of "cb_threshold cfg"] by auto
  show "cb_threshold cfg * int (su + f) \<le> 100 * int f" if "breaker_trips cfg su f"
  proof -
    have "t \<le> pct_trunc f (su + f)" using that t by (simp add: breaker_trips_def)
    from pct_trunc_sound [OF le pos assms(2) this] have "int (t * (su + f)) \<le> int (100 * f)"
      by (rule of_nat_mono)
    then show ?thesis using t by simp
  qed
  show "breaker_trips cfg su f" if a: "(cb_threshold cfg + 1) * int (su + f) \<le> 100 * int f"
  proof -
    have "int ((t + 1) * (su + f)) \<le> int (100 * f)" using a t by (simp add: algebra_simps)
    then have "(t + 1) * (su + f) \<le> 100 * f" by (simp only: of_nat_le_iff)
    from pct_trunc_complete [OF le pos this] show ?thesis using t assms(3) by (simp add: breaker_trips_def)
  qed
qed

theorem breaker_threshold_exact_witness:
  "breaker_trips default_config 2 8 \<and> \<not> breaker_trips default_config 4 6"
proof -
  have A: "breaker_trips default_config 2 8"
    by (rule breaker_threshold_exact [OF default_in_range, THEN conjunct2, THEN mp]) simp_all
  have B: "\<not> breaker_trips default_config 4 6"
    using breaker_threshold_exact [OF default_in_range, of 4 6] by auto
  from A B show ?thesis by simp
qed

text \<open>The text an open breaker returns, whatever the server answered, is classified as
  \<open>circuit_breaker\<close>, which is not a transient category: a task rejected by the breaker is never
  retried as a transient failure.\<close>

theorem breaker_report_not_retried:
  assumes "check_jump_host_circuit_breaker cfg client emit now l s = (Some (True, why, t), s')"
  shows "classify_failure (Some why) = ''circuit_breaker'' \<and>
    \<not> should_retry_transient_failure cfg (Some (classify_failure (Some why))) (Some why) name dev"
proof -
  have c: "classify_failure (Some why) = ''circuit_breaker''" by (rule breaker_reason_class [OF assms])
  have n: "py_lower (py_strip (or_empty (Some ''circuit_breaker''))) = ''circuit_breaker''" by code_simp
  have "\<not> is_transient_failure (Some ''circuit_breaker'')"
    unfolding is_transient_failure_def n by (simp add: TRANSIENT_FAILURE_CATEGORIES_def)
  with c n show ?thesis by (simp add: should_retry_transient_failure_def Let_def)
qed

theorem breaker_report_not_retried_witness:
  "classify_failure (Some (cb_tripped_reason default_config ''jh:22'' 100 10 10)) = ''circuit_breaker''"
proof -
  obtain s1 where "check_jump_host_circuit_breaker default_config (Some pair_redis) pair_emit 5000 ''jh:22'' tripping_world =
     (Some (True, cb_tripped_reason default_config ''jh:22'' 100 10 10, 60), s1)"
    using tripping_world_trips by blast
  from breaker_report_not_retried [OF this] show ?thesis by blast
qed

text \<open>The breaker fails open: the check never raises, and without a Redis server, or when reading
  the open flag raises, it answers "closed" and lets the backup run.\<close>

theorem breaker_fails_open:
  shows "(\<exists>b why t s'. check_jump_host_circuit_breaker cfg client emit now l s = (Some (b, why, t), s')) \<and>
    check_jump_host_circuit_breaker cfg None emit now l s = (Some (False, [], 0), s) \<and>
    (fst (r_get R (cb_open_key l) s) = None \<longrightarrow>
      fst (check_jump_host_circuit_breaker cfg (Some R) emit now l s) = Some (False, [], 0))"
proof (intro conjI impI)
  from io_totalD [OF check_total, of cfg client emit now l s]
  show "\<exists>b why t s'. check_jump_host_circuit_breaker cfg client emit now l s = (Some (b, why, t), s')"
    by (metis prod.collapse)
  show "check_jump_host_circuit_breaker cfg None emit now l s = (Some (False, [], 0), s)"
    by (simp add: check_jump_host_circuit_breaker_def cb_closed_def io_ret_def)
  show "fst (check_jump_host_circuit_breaker cfg (Some R) emit now l s) = Some (False, [], 0)"
    if "fst (r_get R (cb_open_key l) s) = None"
    using that by (auto simp: check_jump_host_circuit_breaker_def cb_closed_def io_try_def io_bind_def io_seq_def
        io_ret_def tell_def split: prod.splits option.splits)
qed

theorem breaker_fails_open_witness:
  "fst (check_jump_host_circuit_breaker default_config
     (Some (pair_redis\<lparr>r_get := \<lambda>k. io_raise\<rparr>)) pair_emit 0 ''jh:22'' tripping_world) = Some (False, [], 0)"
  by (rule breaker_fails_open [THEN conjunct2, THEN conjunct2, THEN mp]) (simp add: io_raise_def)

text \<open>The number of slots of a jump host is always between 1 and 16, whatever the environment,
  the stored override and the server say.\<close>

theorem effective_slots_bounded:
  assumes "resolve_effective_jump_host_slots cfg client overrides l base s = (Some n, s')"
  shows "1 \<le> n \<and> n \<le> 16"
  using resolve_range [of cfg client overrides l base s n] assms by simp

theorem effective_slots_bounded_witness:
  "resolve_effective_jump_host_slots default_config None [(''jh:22'', 40)] ''jh:22'' 3 () = (Some 16, ()) \<and>
   (1 :: int) \<le> 16 \<and> (16 :: int) \<le> 16"
proof -
  have run: "resolve_effective_jump_host_slots default_config None [(''jh:22'', 40)] ''jh:22'' 3 () = (Some 16, ())"
    by (simp add: resolve_effective_jump_host_slots_def static_slots_def clamp_slots_def io_ret_def)
  with effective_slots_bounded [OF run] show ?thesis by simp
qed

text \<open>One adaptation step changes the slots of a jump host by the rules only: it does nothing while
  the cooldown of the last change runs; a change after a success is exactly one slot up and never above
  the allowed maximum, a change after a failure goes down and never below one; and every change starts
  a cooldown.\<close>

theorem adaptive_slots_step:
  assumes "worker R view emit" and "config_in_range cfg"
    and "fst (resolve_effective_jump_host_slots cfg (Some R) ov (py_strip (li_label li)) (lock_base_slots li) s) = Some c"
    and "adapt_jump_host_slots cfg (Some R) emit ov (Some li) success m s = (r, s')"
  shows "(slots_of (view s') (py_strip (li_label li)) = slots_of (view s) (py_strip (li_label li)) \<or>
      (\<exists>n t. slots_of (view s') (py_strip (li_label li)) = Some (RText (show_int n)) \<and>
         (if success then n = c + 1 \<and> n \<le> allowed_max_slots cfg li else 1 \<le> n \<and> n < c) \<and>
         st_find (cooldown_key (py_strip (li_label li))) (view s') = Some (DStr (RText ''1''), Some t) \<and>
         st_now (view s') < t)) \<and>
    (st_find (cooldown_key (py_strip (li_label li))) (view s) = Some (DStr (RText ''1''), e) \<longrightarrow> view s' = view s)"
proof (intro conjI impI)
  have res: "fst (resolve_effective_jump_host_slots cfg (Some mem_redis) ov (py_strip (li_label li)) (lock_base_slots li) (view s))
      = Some c" using io_sim_fst [OF worker.resolve_sim [OF assms(1)]] assms(3) by simp
  obtain r' st' where run: "adapt_jump_host_slots cfg (Some mem_redis) no_emit ov (Some li) success m (view s) = (r', st')"
    by fastforce
  have v: "view s' = st'"
    using io_sim_snd [OF worker.adapt_sim [OF assms(1)], of cfg ov "Some li" success m s] assms(4) run by simp
  show "slots_of (view s') (py_strip (li_label li)) = slots_of (view s) (py_strip (li_label li)) \<or>
      (\<exists>n t. slots_of (view s') (py_strip (li_label li)) = Some (RText (show_int n)) \<and>
         (if success then n = c + 1 \<and> n \<le> allowed_max_slots cfg li else 1 \<le> n \<and> n < c) \<and>
         st_find (cooldown_key (py_strip (li_label li))) (view s') = Some (DStr (RText ''1''), Some t) \<and>
         st_now (view s') < t)"
    using adapt_store(1) [OF run assms(2) res] unfolding v adapt_step_ok_def .
  show "view s' = view s" if "st_find (cooldown_key (py_strip (li_label li))) (view s) = Some (DStr (RText ''1''), e)"
    using adapt_store(2) [OF run assms(2) res] that unfolding v by (auto simp: rv_truthy_def)
qed


definition cooling_world :: pworld where
  "cooling_world = (\<lparr>st_now = 0, st_data = [(cooldown_key ''jh:22'', DStr (RText ''1''), Some 1000)]\<rparr>, [])"

definition sample_lock :: lock_info where
  "sample_lock = \<lparr>li_base_key = [], li_label = ''jh:22'', li_group_name = [], li_base_slots = 3, li_max_slots = 3\<rparr>"

theorem adaptive_slots_step_witness:
  "fst (snd (adapt_jump_host_slots default_config (Some pair_redis) pair_emit [] (Some sample_lock) True None cooling_world))
     = fst cooling_world"
proof -
  define s where "s = cooling_world"
  have l: "py_strip (li_label sample_lock) = ''jh:22''" unfolding sample_lock_def by (simp; code_simp)
  obtain c where c: "fst (resolve_effective_jump_host_slots default_config (Some pair_redis) []
      (py_strip (li_label sample_lock)) (lock_base_slots sample_lock) s) = Some c"
    using io_totalD [OF resolve_total, of default_config "Some pair_redis" "[]" "py_strip (li_label sample_lock)"
       "lock_base_slots sample_lock" s] by (metis fst_conv)
  have f: "st_find (cooldown_key (py_strip (li_label sample_lock))) (fst s) = Some (DStr (RText ''1''), Some 1000)"
    unfolding l by (simp add: s_def cooling_world_def st_find_def)
  obtain r s' where "adapt_jump_host_slots default_config (Some pair_redis) pair_emit [] (Some sample_lock) True None s = (r, s')"
    by (metis surj_pair)
  with adaptive_slots_step [OF pair.worker_axioms default_in_range c this] f show ?thesis
    by (simp add: s_def)
qed

text \<open>The reset a new batch starts with never raises, and on a server that implements its commands
  it removes every open flag, every recorded outcome and every streak and cooldown, of every jump host,
  and nothing else: in particular the slot reductions, kept in the hash
  \<open>backup_center:jump_host_adaptive_slots\<close>, survive it.\<close>

theorem batch_reset_clears_breakers:
  assumes "worker R view emit" and "reset_circuit_breakers_for_new_batch (Some R) emit s = (r, s')"
  shows "(\<exists>x. r = Some x \<and> \<not> reset_failed x) \<and>
    (\<forall>l. st_find (cb_open_key l) (view s') = None \<and> st_find (cb_outcomes_key l) (view s') = None \<and>
         st_find (fail_streak_key l) (view s') = None \<and> st_find (success_streak_key l) (view s') = None \<and>
         st_find (cooldown_key l) (view s') = None \<and> slots_of (view s') l = slots_of (view s) l) \<and>
    (\<forall>k. \<not> prefix ''backup_center:cb:'' k \<longrightarrow> \<not> prefix ''backup_center:jump_host_adaptive:'' k \<longrightarrow>
         st_find k (view s') = st_find k (view s))"
proof -
  obtain n1 n2 n3 st' where run: "reset_circuit_breakers_for_new_batch (Some mem_redis) no_emit (view s)
      = (Some \<lparr>open_cleared = n1, adaptive_cleared = n3, outcomes_cleared = n2, reset_failed = False\<rparr>, st')"
    and find: "st_find k st' = (if prefix ''backup_center:cb:open:'' k \<or> prefix ''backup_center:cb:outcomes:'' k \<or>
         prefix ''backup_center:jump_host_adaptive:'' k then None else st_find k (view s))" for k
    using reset_store [of "view s"] by blast
  have v: "view s' = st'" using io_sim_snd [OF worker.reset_sim [OF assms(1)], of s] assms(2) run by simp
  have r: "r = fst (Some \<lparr>open_cleared = n1, adaptive_cleared = n3, outcomes_cleared = n2, reset_failed = False\<rparr>, st')"
    using io_sim_fst [OF worker.reset_sim [OF assms(1)], of s] assms(2) run by simp
  have keep: "prefix ''backup_center:cb:'' k" if "prefix ''backup_center:cb:open:'' k \<or> prefix ''backup_center:cb:outcomes:'' k" for k
    using that by (auto simp: prefix_def)
  have hash: "st_find slots_hash st' = st_find slots_hash (view s)"
    unfolding find by (simp add: slots_hash_def)
  from r find keep hash show ?thesis
    unfolding v by (auto simp: cb_open_key_def cb_outcomes_key_def fail_streak_key_def success_streak_key_def
        cooldown_key_def slots_of_def)
qed

theorem batch_reset_clears_breakers_witness:
  "st_find (cooldown_key ''jh:22'')
     (fst (snd (reset_circuit_breakers_for_new_batch (Some pair_redis) pair_emit cooling_world))) = None"
proof -
  obtain r s' where "reset_circuit_breakers_for_new_batch (Some pair_redis) pair_emit cooling_world = (r, s')"
    by (metis surj_pair)
  with batch_reset_clears_breakers [OF pair.worker_axioms this] show ?thesis by simp
qed

end
