(* ===== verification/ConnMode.thy ===== *)
theory ConnMode
  imports Models
begin

text \<open>
  How a device is reached (\<open>src/app/services/connection_mode.py\<close>): the effective connection type of a
  device in a group, from the subgroup, the overrides in \<open>extra_parameters\<close>, the MikroTik policy, the
  group and its legacy flags; and the device types mass backups leave out
  (\<open>src/app/services/mass_backup_scope.py\<close>). The environment is the parameter \<open>env\<close>.
\<close>

section \<open>Connection type\<close>

definition conn_truthy :: "pyval \<Rightarrow> bool" where
  "conn_truthy value \<longleftrightarrow> py_lower (py_strip (str_or_empty value)) \<in> set TRUE_WORDS"

definition normalize_connection_type_value :: "pyval \<Rightarrow> string" where
  "normalize_connection_type_value value =
     (let raw = py_lower (py_strip (str_or_empty value))
      in if raw \<in> {''jump'', ''jump_host''} then ''jump_host''
         else if raw \<in> {''vpn'', ''direct''} then raw
         else [])"

definition opt_str :: "string option \<Rightarrow> pyval" where
  "opt_str v = (case v of None \<Rightarrow> PNone | Some s \<Rightarrow> PStr s)"

definition normalized_connection_type :: "device_group option \<Rightarrow> string" where
  "normalized_connection_type grp =
     (case grp of None \<Rightarrow> [] | Some g \<Rightarrow> normalize_connection_type_value (opt_str (g_connection_type g)))"

definition py_or :: "pyval \<Rightarrow> pyval \<Rightarrow> pyval" where
  "py_or a b = (if truthy a then a else b)"

definition extra_connection_override :: "pyval \<Rightarrow> string" where
  "extra_connection_override extra_parameters =
     (case (if truthy extra_parameters then extra_parameters else PDict []) of
        PDict extra \<Rightarrow>
          (let override = normalize_connection_type_value
                 (py_or (dget extra ''connection_subgroup_type'') (dget extra ''subgroup_connection_type''));
               enabled = conn_truthy
                 (if dhas extra ''connection_subgroup_enabled''
                  then dget extra ''connection_subgroup_enabled''
                  else dget extra ''subgroup_connection_enabled'')
           in if override \<noteq> [] \<and> (enabled \<or> dhas extra ''connection_subgroup_type''
                 \<or> dhas extra ''subgroup_connection_type'')
              then override else [])
      | _ \<Rightarrow> [])"

definition normalized_device_connection_override :: "device option \<Rightarrow> string" where
  "normalized_device_connection_override device =
     (case device of
        None \<Rightarrow> []
      | Some d \<Rightarrow>
          (let subgroup_type =
             (case d_subgroup d of
                None \<Rightarrow> []
              | Some sg \<Rightarrow> if sg_is_active sg
                  then normalize_connection_type_value (PStr (sg_connection_type sg)) else [])
           in if subgroup_type \<noteq> [] then subgroup_type
              else extra_connection_override (d_extra_parameters d)))"

definition is_mikrotik_device :: "device option \<Rightarrow> bool" where
  "is_mikrotik_device device =
     (case device of
        None \<Rightarrow> False
      | Some d \<Rightarrow>
          (let type_name = (case d_type d of None \<Rightarrow> [] | Some t \<Rightarrow> py_lower (py_strip (dt_name t)));
               script_name = (case d_type d of None \<Rightarrow> [] | Some t \<Rightarrow> py_lower (py_strip (dt_script_name t)))
           in if py_in ''mikrotik'' type_name \<or> py_in ''routeros'' type_name
                 \<or> py_in ''mikrotik'' script_name \<or> py_in ''routeros'' script_name
              then True
              else (let name = py_lower (py_strip (d_name d))
                    in py_in ''mikrotik'' name \<or> py_in ''routeros'' name)))"

definition group_has_vpn_credentials :: "device_group option \<Rightarrow> bool" where
  "group_has_vpn_credentials grp =
     (case grp of
        None \<Rightarrow> False
      | Some g \<Rightarrow> py_strip (or_empty (g_vpn_server g)) \<noteq> [] \<and> py_strip (or_empty (g_vpn_username g)) \<noteq> []
          \<and> or_empty (g_vpn_password_encrypted g) \<noteq> [])"

definition mikrotik_flag :: "(string \<Rightarrow> string option) \<Rightarrow> string \<Rightarrow> bool" where
  "mikrotik_flag env name \<longleftrightarrow>
     py_lower (py_strip (case env name of None \<Rightarrow> ''1'' | Some v \<Rightarrow> v)) \<in> set TRUE_WORDS"

definition get_effective_connection_type ::
  "(string \<Rightarrow> string option) \<Rightarrow> device_group option \<Rightarrow> device option \<Rightarrow> string" where
  "get_effective_connection_type env grp device =
     (let override = normalized_device_connection_override device
      in if override \<noteq> [] then override
         else case grp of
           None \<Rightarrow> []
         | Some g \<Rightarrow>
             (let conn_type = normalized_connection_type grp;
                  disable_jump_for_mikrotik = mikrotik_flag env ''BACKUP_MIKROTIK_DISABLE_JUMP_HOST'';
                  prefer_vpn_for_mikrotik = mikrotik_flag env ''BACKUP_MIKROTIK_PREFER_VPN''
              in if disable_jump_for_mikrotik \<and> conn_type = ''jump_host'' \<and> is_mikrotik_device device
                 then (if prefer_vpn_for_mikrotik \<and> group_has_vpn_credentials grp then ''vpn'' else ''direct'')
                 else if conn_type \<noteq> [] then conn_type
                 else if flag (g_uses_jump_host g) then ''jump_host''
                 else if flag (g_uses_vpn g) then ''vpn''
                 else ''direct''))"

definition uses_jump_host :: "(string \<Rightarrow> string option) \<Rightarrow> device_group option \<Rightarrow> device option \<Rightarrow> bool" where
  "uses_jump_host env grp device \<longleftrightarrow> get_effective_connection_type env grp device = ''jump_host''"

definition uses_vpn_tunnel :: "(string \<Rightarrow> string option) \<Rightarrow> device_group option \<Rightarrow> device option \<Rightarrow> bool" where
  "uses_vpn_tunnel env grp device \<longleftrightarrow> get_effective_connection_type env grp device = ''vpn''"

section \<open>Types left out of mass backups\<close>

definition MASS_BACKUP_EXCLUDED_TYPE_KEYWORDS :: "string list" where
  "MASS_BACKUP_EXCLUDED_TYPE_KEYWORDS = [''grafana'', ''zabbix'']"

definition is_mass_backup_excluded_type :: "string option \<Rightarrow> string option \<Rightarrow> bool" where
  "is_mass_backup_excluded_type name script_name =
     (let content = py_lower (py_strip (or_empty name @ '' '' @ or_empty script_name))
      in any_in MASS_BACKUP_EXCLUDED_TYPE_KEYWORDS content)"

definition resolve_mass_backup_excluded_type_ids :: "device_type list \<Rightarrow> string set" where
  "resolve_mass_backup_excluded_type_ids type_rows =
     set (map dt_id (filter (\<lambda>t. is_mass_backup_excluded_type (Some (dt_name t)) (Some (dt_script_name t))) type_rows))"

section \<open>Lemmas\<close>

lemma normalize_conn_range:
  "normalize_connection_type_value v \<in> {[], ''jump_host'', ''vpn'', ''direct''}"
  by (auto simp: normalize_connection_type_value_def Let_def)

lemma extra_override_range:
  "extra_connection_override x \<in> {[], ''jump_host'', ''vpn'', ''direct''}"
proof -
  have "extra_connection_override x = [] \<or> (\<exists>v. extra_connection_override x = normalize_connection_type_value v)"
    unfolding extra_connection_override_def Let_def by (cases "if truthy x then x else PDict []") (simp_all, blast)
  then show ?thesis using normalize_conn_range by fastforce
qed

lemma override_range:
  "normalized_device_connection_override d \<in> {[], ''jump_host'', ''vpn'', ''direct''}"
proof (cases d)
  case None
  then show ?thesis by (simp add: normalized_device_connection_override_def)
next
  case (Some dev)
  define t where "t = (case d_subgroup dev of None \<Rightarrow> []
     | Some sg \<Rightarrow> if sg_is_active sg then normalize_connection_type_value (PStr (sg_connection_type sg)) else [])"
  have "t \<in> {[], ''jump_host'', ''vpn'', ''direct''}"
    unfolding t_def by (cases "d_subgroup dev") (simp_all del: insert_iff add: normalize_conn_range insertI1)
  moreover have "normalized_device_connection_override d = (if t \<noteq> [] then t else extra_connection_override (d_extra_parameters dev))"
    by (simp add: Some normalized_device_connection_override_def t_def Let_def)
  ultimately show ?thesis using extra_override_range [of "d_extra_parameters dev"] by metis
qed

lemma override_not_subgroup:
  assumes "d_subgroup d = Some sg" "sg_is_active sg"
    "normalize_connection_type_value (PStr (sg_connection_type sg)) \<noteq> []"
  shows "normalized_device_connection_override (Some d) = normalize_connection_type_value (PStr (sg_connection_type sg))"
  using assms by (simp add: normalized_device_connection_override_def Let_def)

section \<open>Properties\<close>



text \<open>Under the MikroTik policy (its flag set, as it is by default) a MikroTik device without an override
  never goes through a group whose connection type is jump host: it goes by VPN when the group has the
  credentials and VPN is preferred, else directly. The policy tests the connection type only, so a legacy
  group with the flag \<open>uses_jump_host\<close> and no connection type still routes it through the jump host.\<close>

theorem mikrotik_avoids_jump_host:
  assumes "mikrotik_flag env ''BACKUP_MIKROTIK_DISABLE_JUMP_HOST''" and "is_mikrotik_device d"
    and "normalized_device_connection_override d = []"
  shows "(normalized_connection_type (Some g) = ''jump_host'' \<longrightarrow>
       get_effective_connection_type env (Some g) d =
         (if mikrotik_flag env ''BACKUP_MIKROTIK_PREFER_VPN'' \<and> group_has_vpn_credentials (Some g) then ''vpn'' else ''direct'')) \<and>
    (uses_jump_host env (Some g) d \<longleftrightarrow> normalized_connection_type (Some g) = [] \<and> flag (g_uses_jump_host g))"
  using assms normalize_conn_range [of "opt_str (g_connection_type g)"]
  by (auto simp: get_effective_connection_type_def uses_jump_host_def normalized_connection_type_def Let_def)

theorem mikrotik_avoids_jump_host_witness:
  "get_effective_connection_type (\<lambda>_. None) (Some (blank_group\<lparr>g_connection_type := Some ''jump_host''\<rparr>))
      (Some (blank_device\<lparr>d_name := ''MikroTik-1''\<rparr>)) = ''direct'' \<and>
   uses_jump_host (\<lambda>_. None) (Some (blank_group\<lparr>g_connection_type := None, g_uses_jump_host := Some True\<rparr>))
      (Some (blank_device\<lparr>d_name := ''MikroTik-1''\<rparr>))"
proof -
  have a: "mikrotik_flag (\<lambda>_. None) ''BACKUP_MIKROTIK_DISABLE_JUMP_HOST''" by code_simp
  have b: "is_mikrotik_device (Some (blank_device\<lparr>d_name := ''MikroTik-1''\<rparr>))"
    unfolding blank_device_def by code_simp
  have c: "normalized_device_connection_override (Some (blank_device\<lparr>d_name := ''MikroTik-1''\<rparr>)) = []"
    unfolding blank_device_def by code_simp
  have d: "normalized_connection_type (Some (blank_group\<lparr>g_connection_type := Some ''jump_host''\<rparr>)) = ''jump_host''"
    "\<not> group_has_vpn_credentials (Some (blank_group\<lparr>g_connection_type := Some ''jump_host''\<rparr>))"
    "normalized_connection_type (Some (blank_group\<lparr>g_connection_type := None, g_uses_jump_host := Some True\<rparr>)) = []"
    unfolding blank_group_def by code_simp+
  note M = mikrotik_avoids_jump_host [OF a b c]
  show ?thesis
    using M [of "blank_group\<lparr>g_connection_type := Some ''jump_host''\<rparr>"]
      M [of "blank_group\<lparr>g_connection_type := None, g_uses_jump_host := Some True\<rparr>"] d
    by simp
qed

end
