(* ===== verification/Schedule.thy ===== *)
theory Schedule
  imports Models
begin

text \<open>
  The schedule of the daily backup routine (\<open>src/app/services/schedule_utils.py\<close>): the sanitised time
  of day and the next run, daily, weekly or monthly. The zone is a parameter: \<open>to_local\<close> and \<open>to_utc\<close>
  are \<open>astimezone\<close> to the application's zone and back, on a naive wall-clock value with its \<open>fold\<close>
  bit (two values of the same zone compare, and a \<open>timedelta\<close> adds, on the wall clock; \<open>replace\<close>
  keeps the fold, the sum and a new datetime have fold zero). A missing reference instant is the argument
  \<open>now\<close>.
\<close>

type_synonym wall = "naive \<times> bool"

record timezone =
  to_local :: "naive \<Rightarrow> wall"
  to_utc :: "wall \<Rightarrow> naive"

section \<open>Time of day\<close>

text \<open>\<open>map(int, raw.split(":"))\<close> unpacked into two names: anything else raises.\<close>

definition hh_mm :: "string \<Rightarrow> (int \<times> int) option" where
  "hh_mm raw =
     (case py_split CHR '':'' raw of
        [a, b] \<Rightarrow> (case (py_int a, py_int b) of (Some hh, Some mm) \<Rightarrow> Some (hh, mm) | _ \<Rightarrow> None)
      | _ \<Rightarrow> None)"

definition sanitize_daily_time :: "string option \<Rightarrow> string \<Rightarrow> string" where
  "sanitize_daily_time time_str default_time =
     (let raw = py_strip (or_empty time_str)
      in case hh_mm raw of
           None \<Rightarrow> default_time
         | Some (hh, mm) \<Rightarrow>
             if 0 \<le> hh \<and> hh \<le> 23 \<and> 0 \<le> mm \<and> mm \<le> 59 then pad2 hh @ '':'' @ pad2 mm else default_time)"

section \<open>The next run\<close>

definition compute_next_daily_run_at :: "timezone \<Rightarrow> naive \<Rightarrow> string option \<Rightarrow> naive option \<Rightarrow> naive option" where
  "compute_next_daily_run_at tz now time_str reference_utc =
     (let (reference_local, fold) = to_local tz (case reference_utc of None \<Rightarrow> now | Some r \<Rightarrow> r)
      in case hh_mm (sanitize_daily_time time_str ''02:00'') of
           None \<Rightarrow> None
         | Some (hh, mm) \<Rightarrow>
             (let candidate_local = at_time reference_local hh mm
              in Some (to_utc tz (if candidate_local \<le> reference_local
                                  then (candidate_local + DAY_US, False)
                                  else (candidate_local, fold)))))"

definition next_weekly :: "naive \<Rightarrow> int option \<Rightarrow> int \<Rightarrow> int \<Rightarrow> naive" where
  "next_weekly reference_local day_of_week hh mm =
     (let target_weekday = max 0 (min (case day_of_week of None \<Rightarrow> weekday reference_local | Some d \<Rightarrow> d) 6);
          candidate0 = at_time reference_local hh mm;
          days_ahead = (target_weekday - weekday candidate0) mod 7;
          candidate1 = candidate0 + days_ahead * DAY_US
      in if candidate1 \<le> reference_local then candidate1 + 7 * DAY_US else candidate1)"

definition next_monthly :: "naive \<Rightarrow> int option \<Rightarrow> int \<Rightarrow> int \<Rightarrow> naive" where
  "next_monthly reference_local day_of_month hh mm =
     (let target_day0 = (case day_of_month of None \<Rightarrow> 1 | Some d \<Rightarrow> if d = 0 then 1 else d);
          target_day = max 1 (min target_day0 31);
          year = year_of reference_local; month = month_of reference_local;
          candidate = mk_naive year month (min target_day (days_in_month year month)) hh mm
      in if candidate \<le> reference_local then
           (let (month', year') = (if month + 1 > 12 then (1, year + 1) else (month + 1, year))
            in mk_naive year' month' (min target_day (days_in_month year' month')) hh mm)
         else candidate)"

definition compute_next_run_at ::
  "timezone \<Rightarrow> naive \<Rightarrow> string option \<Rightarrow> string option \<Rightarrow> int option \<Rightarrow> int option \<Rightarrow> naive option \<Rightarrow> naive option" where
  "compute_next_run_at tz now time_str frequency day_of_week day_of_month reference_utc =
     (let reference_local = fst (to_local tz (case reference_utc of None \<Rightarrow> now | Some r \<Rightarrow> r))
      in case hh_mm (sanitize_daily_time time_str ''00:00'') of
           None \<Rightarrow> None
         | Some (hh, mm) \<Rightarrow>
             (let freq = py_lower (py_strip (if or_empty frequency = [] then ''daily'' else or_empty frequency))
              in if freq = ''weekly'' then Some (to_utc tz (next_weekly reference_local day_of_week hh mm, False))
                 else if freq = ''monthly'' then Some (to_utc tz (next_monthly reference_local day_of_month hh mm, False))
                 else compute_next_daily_run_at tz now (Some (pad2 hh @ '':'' @ pad2 mm)) reference_utc))"


section \<open>The specification: the first instant after the reference that fits\<close>

definition is_first_after :: "naive \<Rightarrow> (naive \<Rightarrow> bool) \<Rightarrow> naive \<Rightarrow> bool" where
  "is_first_after ref fits w \<longleftrightarrow> ref < w \<and> fits w \<and> (\<forall>w'. ref < w' \<and> fits w' \<longrightarrow> w \<le> w')"

definition mday_of :: "naive \<Rightarrow> int" where
  "mday_of t = snd (snd (civil_of_days (day_of t)))"

definition hm_tod :: "int \<Rightarrow> int \<Rightarrow> int" where
  "hm_tod hh mm = (hh * 3600 + mm * 60) * US"

definition fits_schedule :: "string \<Rightarrow> int option \<Rightarrow> int option \<Rightarrow> naive \<Rightarrow> int \<Rightarrow> int \<Rightarrow> naive \<Rightarrow> bool" where
  "fits_schedule freq day_of_week md ref hh mm w \<longleftrightarrow>
     tod_of w = hm_tod hh mm \<and>
     (if freq = ''weekly''
      then weekday w = max 0 (min (case day_of_week of None \<Rightarrow> weekday ref | Some d \<Rightarrow> d) 6)
      else if freq = ''monthly''
      then mday_of w = min (max 1 (min (case md of None \<Rightarrow> 1 | Some d \<Rightarrow> if d = 0 then 1 else d) 31))
             (days_in_month (year_of w) (month_of w))
      else True)"

section \<open>Lemmas on the time of day\<close>

lemma pad2_no_colon: "CHR '':'' \<notin> set (pad2 i)"
  by (simp add: pad2_def show_int_no_colon)

lemma pad2_no_space: "list_all (\<lambda>c. \<not> py_is_space c) (pad2 i)"
  using show_int_no_space [of i] by (simp add: pad2_def py_is_space_def)

lemma py_int_pad2: "0 \<le> i \<Longrightarrow> py_int (pad2 i) = Some i"
proof -
  assume i: "0 \<le> i"
  have nn: "show_int i = show_nat (nat i)" using i by (simp add: show_int_def)
  have z: "py_int (CHR ''0'' # show_nat n) = Some (int n)" for n
  proof -
    have "list_all (\<lambda>c. \<not> py_is_space c) (CHR ''0'' # show_nat n)"
      using show_int_no_space [of "int n"] by (simp add: show_int_def py_is_space_def)
    moreover have "digits_acc 0 False (CHR ''0'' # show_nat n) = digits_acc 0 True (show_nat n)"
      by (simp add: py_is_digit_def digit_val_def)
    moreover have "digits_acc 0 True (show_nat n) = digits_acc 0 False (show_nat n)"
    proof -
      obtain c s where cs: "show_nat n = c # s" using show_nat_nonempty [of n] by (cases "show_nat n") auto
      then have "py_is_digit c" using show_nat_digits [of n] digit_char_props(1) by auto
      then show ?thesis using cs by simp
    qed
    ultimately show ?thesis
      by (simp add: py_int_def py_strip_no_space digits_acc_show_nat)
  qed
  show ?thesis using i py_int_show_int [of i] by (auto simp: pad2_def nn z)
qed

lemma hh_mm_pad2: "0 \<le> h \<Longrightarrow> 0 \<le> m \<Longrightarrow> hh_mm (pad2 h @ '':'' @ pad2 m) = Some (h, m)"
  by (simp add: hh_mm_def py_split_append_sep py_split_absent pad2_no_colon py_int_pad2)

lemma strip_pad2: "py_strip (pad2 h @ '':'' @ pad2 m) = pad2 h @ '':'' @ pad2 m"
  using pad2_no_space [of h] pad2_no_space [of m]
  by (intro py_strip_no_space) (simp add: py_is_space_def)

lemma sanitize_pad2:
  "0 \<le> h \<Longrightarrow> h \<le> 23 \<Longrightarrow> 0 \<le> m \<Longrightarrow> m \<le> 59 \<Longrightarrow>
     sanitize_daily_time (Some (pad2 h @ '':'' @ pad2 m)) d = pad2 h @ '':'' @ pad2 m"
  unfolding sanitize_daily_time_def or_empty_def option.case Let_def strip_pad2 by (subst hh_mm_pad2) simp_all

lemma sanitize_cases:
  "sanitize_daily_time ts d = d \<or>
   (\<exists>h m. 0 \<le> h \<and> h \<le> 23 \<and> 0 \<le> m \<and> m \<le> 59 \<and> sanitize_daily_time ts d = pad2 h @ '':'' @ pad2 m)"
  by (auto simp: sanitize_daily_time_def Let_def split: option.split prod.split)

lemma default_times: "''02:00'' = pad2 2 @ '':'' @ pad2 0" "''00:00'' = pad2 0 @ '':'' @ pad2 0"
  by (simp_all add: pad2_def show_int_def show_nat.simps digit_char_def)

lemma sanitize_canonical:
  assumes "d = ''02:00'' \<or> d = ''00:00''"
  shows "\<exists>h m. 0 \<le> h \<and> h \<le> 23 \<and> 0 \<le> m \<and> m \<le> 59 \<and> sanitize_daily_time ts d = pad2 h @ '':'' @ pad2 m"
proof -
  have "\<exists>h m. (0 :: int) \<le> h \<and> h \<le> 23 \<and> (0 :: int) \<le> m \<and> m \<le> 59 \<and> d = pad2 h @ '':'' @ pad2 m"
    using assms default_times by (elim disjE) (rule exI [of _ 2], rule exI [of _ 0], simp, rule exI [of _ 0], rule exI [of _ 0], simp)
  then show ?thesis using sanitize_cases [of ts d] by metis
qed

section \<open>Lemmas on months\<close>

text \<open>Months counted from year zero: month \<open>k\<close> starts on day \<open>mstart k\<close> and has \<open>mlen k\<close> days.\<close>

definition mstart :: "int \<Rightarrow> int" where "mstart k = to_days (k div 12) (k mod 12 + 1) 1"
definition mlen :: "int \<Rightarrow> int" where "mlen k = days_in_month (k div 12) (k mod 12 + 1)"
definition month_index :: "naive \<Rightarrow> int" where "month_index t = 12 * year_of t + (month_of t - 1)"

lemma mlen_pos: "28 \<le> mlen k" "mlen k \<le> 31"
proof -
  have "0 \<le> k mod 12" "k mod 12 < 12" by simp_all
  then show "28 \<le> mlen k" "mlen k \<le> 31"
    using days_in_month_range [of "k mod 12 + 1" "k div 12"] by (simp_all add: mlen_def)
qed

lemma divmod12: "0 \<le> r \<Longrightarrow> r < 12 \<Longrightarrow> (12 * y + r) div 12 = (y :: int)" "0 \<le> r \<Longrightarrow> r < 12 \<Longrightarrow> (12 * y + r) mod 12 = (r :: int)"
  by simp_all

lemma mstart_Suc: "mstart (k + 1) = mstart k + mlen k"
proof -
  define y where "y = k div 12"
  define r where "r = k mod 12"
  have k: "k = 12 * y + r" "0 \<le> r" "r < 12" by (simp_all add: y_def r_def)
  show ?thesis
  proof (cases "r = 11")
    case True
    have "k + 1 = 12 * (y + 1) + 0" using k True by simp
    then have "(k + 1) div 12 = y + 1" "(k + 1) mod 12 = 0" by simp_all
    moreover have "days_in_month y 12 = 31" by (simp add: days_in_month_def month_lengths_def)
    ultimately show ?thesis
      using True to_days_next_year [of y 1] by (simp add: mstart_def mlen_def y_def [symmetric] r_def [symmetric])
  next
    case False
    have e: "k + 1 = 12 * y + (r + 1)" using k by simp
    have r: "0 \<le> r + 1" "r + 1 < 12" using k False by simp_all
    have "(k + 1) div 12 = y" "(k + 1) mod 12 = r + 1"
      unfolding e using divmod12 [OF r, of y] by blast+
    with k False to_days_next_month [of "r + 1" y 1] show ?thesis
      by (simp add: mstart_def mlen_def y_def [symmetric] r_def [symmetric] add.commute)
  qed
qed

lemma mstart_mono: "k < k' \<Longrightarrow> mstart k + mlen k \<le> mstart k'"
proof (induction k' rule: int_gr_induct)
  case base
  then show ?case by (simp add: mstart_Suc)
next
  case (step i)
  then show ?case using mstart_Suc [of i] mlen_pos(1) [of i] by simp
qed

lemma to_days_shift: "to_days y m d = to_days y m 1 + d - 1"
  by (simp add: to_days_def)

lemma month_index_spec:
  "mstart (month_index t) + mday_of t - 1 = day_of t" "1 \<le> mday_of t" "mday_of t \<le> mlen (month_index t)"
  "days_in_month (year_of t) (month_of t) = mlen (month_index t)"
proof -
  obtain y m d where c: "civil_of_days (day_of t) = (y, m, d)" by (cases "civil_of_days (day_of t)") auto
  note sp = civil_of_days_spec [OF c]
  have i: "(12 * y + (m - 1)) div 12 = y" "(12 * y + (m - 1)) mod 12 = m - 1"
    using divmod12 [of "m - 1" y] sp(2,3) by simp_all
  show "mstart (month_index t) + mday_of t - 1 = day_of t" "1 \<le> mday_of t" "mday_of t \<le> mlen (month_index t)"
    "days_in_month (year_of t) (month_of t) = mlen (month_index t)"
    using sp to_days_shift [of y m d]
    by (simp_all add: month_index_def year_of_def month_of_def mday_of_def c mstart_def mlen_def i)
qed

lemma month_index_unique:
  assumes "mstart k \<le> day_of t" "day_of t < mstart k + mlen k"
  shows "month_index t = k"
proof (rule ccontr)
  assume "month_index t \<noteq> k"
  then have "month_index t < k \<or> k < month_index t" by auto
  then show False
    using mstart_mono [of "month_index t" k] mstart_mono [of k "month_index t"] month_index_spec [of t] assms
    by auto
qed

lemma mday_in_month:
  assumes "day_of t = mstart k + d - 1" "1 \<le> d" "d \<le> mlen k"
  shows "month_index t = k" "mday_of t = d"
proof -
  show k: "month_index t = k" using assms by (intro month_index_unique) auto
  show "mday_of t = d" using month_index_spec(1) [of t] assms k by simp
qed

text \<open>A wall-clock instant as its day and its time of day.\<close>

lemma mk_day_tod:
  assumes "0 \<le> T" "T < DAY_US"
  shows "day_of (n * DAY_US + T) = n" "tod_of (n * DAY_US + T) = T"
  using assms by (simp_all add: day_of_def tod_of_def DAY_US_def)

lemma hm_tod_range: "0 \<le> h \<Longrightarrow> h \<le> 23 \<Longrightarrow> 0 \<le> m \<Longrightarrow> m \<le> 59 \<Longrightarrow> 0 \<le> hm_tod h m \<and> hm_tod h m < DAY_US"
  by (simp add: hm_tod_def US_def DAY_US_def)

lemma instant_less_iff:
  assumes "0 \<le> T" "T < DAY_US"
  shows "t < n * DAY_US + T \<longleftrightarrow> day_of t < n \<or> (day_of t = n \<and> tod_of t < T)"
proof -
  have D: "0 < DAY_US" by (simp add: DAY_US_def)
  note t = naive_decomp [of t]
  have "day_of t < n \<Longrightarrow> t < n * DAY_US + T"
  proof -
    assume "day_of t < n"
    then have "(day_of t + 1) * DAY_US \<le> n * DAY_US" using D by (intro mult_right_mono) auto
    with t assms show ?thesis by (simp add: algebra_simps)
  qed
  moreover have "n < day_of t \<Longrightarrow> n * DAY_US + T \<le> t"
  proof -
    assume "n < day_of t"
    then have "(n + 1) * DAY_US \<le> day_of t * DAY_US" using D by (intro mult_right_mono) auto
    with t assms show ?thesis by (simp add: algebra_simps)
  qed
  moreover have "day_of t = n \<Longrightarrow> (t < n * DAY_US + T \<longleftrightarrow> tod_of t < T)" using t by auto
  ultimately show ?thesis by (cases "day_of t < n"; cases "day_of t = n") auto
qed

text \<open>To find the first instant after \<open>ref\<close> it is enough to find its day: the days that fit are given by
  \<open>fit\<close>, and the first of them is \<open>n\<close> unless it is the reference's day and the time has passed.\<close>

lemma first_after_by_day:
  assumes "0 \<le> T" "T < DAY_US" and "fit n" and "day_of ref < n \<or> (day_of ref = n \<and> tod_of ref < T)"
    and "\<And>n'. fit n' \<Longrightarrow> day_of ref < n' \<or> (day_of ref = n' \<and> tod_of ref < T) \<Longrightarrow> n \<le> n'"
  shows "is_first_after ref (\<lambda>w. tod_of w = T \<and> fit (day_of w)) (n * DAY_US + T)"
  unfolding is_first_after_def
proof (intro conjI allI impI)
  note I = instant_less_iff [OF assms(1,2)] and M = mk_day_tod [OF assms(1,2)]
  show "ref < n * DAY_US + T" using assms(4) I by blast
  show "tod_of (n * DAY_US + T) = T" "fit (day_of (n * DAY_US + T))" using M assms(3) by simp_all
  fix w' assume w': "ref < w' \<and> tod_of w' = T \<and> fit (day_of w')"
  then have e: "w' = day_of w' * DAY_US + T" using naive_decomp(1) [of w'] by simp
  with w' have "day_of ref < day_of w' \<or> (day_of ref = day_of w' \<and> tod_of ref < T)"
    using I [of ref "day_of w'"] by metis
  then have "n \<le> day_of w'" using assms(5) w' by blast
  then have "n * DAY_US \<le> day_of w' * DAY_US" by (intro mult_right_mono) (simp_all add: DAY_US_def)
  then show "n * DAY_US + T \<le> w'" using e by linarith
qed

section \<open>Lemmas on the three frequencies\<close>

lemma next_daily_first:
  assumes "0 \<le> hh" "hh \<le> 23" "0 \<le> mm" "mm \<le> 59"
  shows "is_first_after ref (\<lambda>w. tod_of w = hm_tod hh mm)
    (if at_time ref hh mm \<le> ref then at_time ref hh mm + DAY_US else at_time ref hh mm)"
proof -
  note T = conjunct1 [OF hm_tod_range [OF assms]] conjunct2 [OF hm_tod_range [OF assms]]
  define n where "n = (if at_time ref hh mm \<le> ref then day_of ref + 1 else day_of ref)"
  have at: "at_time ref hh mm = day_of ref * DAY_US + hm_tod hh mm" by (simp add: at_time_def hm_tod_def)
  have le: "at_time ref hh mm \<le> ref \<longleftrightarrow> \<not> tod_of ref < hm_tod hh mm"
    using instant_less_iff [OF T, of ref "day_of ref"] unfolding at by auto
  have "is_first_after ref (\<lambda>w. tod_of w = hm_tod hh mm \<and> True) (n * DAY_US + hm_tod hh mm)"
    by (rule first_after_by_day [OF T]) (auto simp: n_def le)
  then show ?thesis by (auto simp: n_def at algebra_simps split: if_splits)
qed

lemma next_weekly_first:
  assumes "0 \<le> hh" "hh \<le> 23" "0 \<le> mm" "mm \<le> 59"
  shows "is_first_after ref (\<lambda>w. tod_of w = hm_tod hh mm \<and>
      weekday w = max 0 (min (case dw of None \<Rightarrow> weekday ref | Some d \<Rightarrow> d) 6)) (next_weekly ref dw hh mm)"
proof -
  note T = conjunct1 [OF hm_tod_range [OF assms]] conjunct2 [OF hm_tod_range [OF assms]]
  define g where "g = max 0 (min (case dw of None \<Rightarrow> weekday ref | Some d \<Rightarrow> d) 6)"
  have g: "0 \<le> g" "g < 7" by (auto simp: g_def)
  define a where "a = (g - day_of ref mod 7) mod 7"
  define n where "n = (if a = 0 \<and> \<not> tod_of ref < hm_tod hh mm then day_of ref + 7 else day_of ref + a)"
  have a: "0 \<le> a" "a < 7" by (simp_all add: a_def)
  have mod_a: "(day_of ref + a) mod 7 = g" using g by (simp add: a_def mod_simps)
  have fit: "n mod 7 = g" using mod_a by (auto simp: n_def)
  have least: "n \<le> n'" if "n' mod 7 = g" "day_of ref < n' \<or> (day_of ref = n' \<and> tod_of ref < hm_tod hh mm)" for n'
  proof -
    have "(n' - (day_of ref + a)) mod 7 = 0"
      using mod_a that(1) by (metis diff_self mod_0 mod_diff_eq)
    then obtain q where q: "n' = day_of ref + a + 7 * q" by (metis add.commute diff_add_cancel mod_0_imp_dvd dvdE)
    with that a have "0 \<le> q" by linarith
    moreover have "q = 0 \<Longrightarrow> \<not> (a = 0 \<and> \<not> tod_of ref < hm_tod hh mm)" using that(2) q by auto
    ultimately show ?thesis using q a by (auto simp: n_def) (cases "q = 0"; simp)
  qed
  have at: "at_time ref hh mm = day_of ref * DAY_US + hm_tod hh mm" by (simp add: at_time_def hm_tod_def)
  have wd: "weekday (at_time ref hh mm) = day_of ref mod 7"
    unfolding weekday_def at using mk_day_tod [OF T] by simp
  have c: "at_time ref hh mm + a * DAY_US = (day_of ref + a) * DAY_US + hm_tod hh mm" by (simp add: at algebra_simps)
  have le: "(day_of ref + a) * DAY_US + hm_tod hh mm \<le> ref \<longleftrightarrow> a = 0 \<and> \<not> tod_of ref < hm_tod hh mm"
    using instant_less_iff [OF T, of ref "day_of ref + a"] a by auto
  have "next_weekly ref dw hh mm = n * DAY_US + hm_tod hh mm"
    unfolding next_weekly_def Let_def g_def [symmetric] wd a_def [symmetric] c le
    by (auto simp: n_def algebra_simps)
  moreover have "is_first_after ref (\<lambda>w. tod_of w = hm_tod hh mm \<and> day_of w mod 7 = g) (n * DAY_US + hm_tod hh mm)"
    using a fit least by (intro first_after_by_day [OF T, where fit = "\<lambda>d. d mod 7 = g"]) (auto simp: n_def)
  ultimately show ?thesis by (simp add: weekday_def [abs_def] g_def)
qed

lemma next_monthly_first:
  assumes "0 \<le> hh" "hh \<le> 23" "0 \<le> mm" "mm \<le> 59"
  shows "is_first_after ref (\<lambda>w. tod_of w = hm_tod hh mm \<and>
      mday_of w = min (max 1 (min (case md of None \<Rightarrow> 1 | Some d \<Rightarrow> if d = 0 then 1 else d) 31))
        (days_in_month (year_of w) (month_of w))) (next_monthly ref md hh mm)"
proof -
  note T = conjunct1 [OF hm_tod_range [OF assms]] conjunct2 [OF hm_tod_range [OF assms]]
  define g where "g = max 1 (min (case md of None \<Rightarrow> 1 | Some d \<Rightarrow> if d = 0 then 1 else d) 31)"
  define k where "k = month_index ref"
  define tgt where "tgt i = mstart i + min g (mlen i) - 1" for i
  have g: "1 \<le> g" by (simp add: g_def)
  have tgt: "mstart i \<le> tgt i" "tgt i < mstart i + mlen i" for i
    using g mlen_pos(1) [of i] by (auto simp: tgt_def)
  have fit_iff: "mday_of w = min g (mlen (month_index w)) \<longleftrightarrow> (\<exists>i. day_of w = tgt i)" for w
  proof
    assume "mday_of w = min g (mlen (month_index w))"
    then have "day_of w = tgt (month_index w)" using month_index_spec(1) [of w] by (simp add: tgt_def)
    then show "\<exists>i. day_of w = tgt i" by blast
  next
    assume "\<exists>i. day_of w = tgt i"
    then obtain i where i: "day_of w = mstart i + min g (mlen i) - 1" by (auto simp: tgt_def)
    have "1 \<le> min g (mlen i)" "min g (mlen i) \<le> mlen i" using g mlen_pos(1) [of i] by auto
    from mday_in_month [OF i this] show "mday_of w = min g (mlen (month_index w))" by simp
  qed
  have tgt_mono: "i < j \<Longrightarrow> tgt i < tgt j" for i j
    using tgt(2) [of i] tgt(1) [of j] mstart_mono [of i j] by linarith
  define late where "late \<longleftrightarrow> \<not> (day_of ref < tgt k \<or> (day_of ref = tgt k \<and> tod_of ref < hm_tod hh mm))"
  define n where "n = (if late then tgt (k + 1) else tgt k)"
  have ref: "mstart k \<le> day_of ref" "day_of ref < mstart k + mlen k"
    using month_index_spec [of ref] by (auto simp: k_def)
  have next_later: "day_of ref < tgt (k + 1)" using ref tgt(1) [of "k + 1"] mstart_Suc [of k] by linarith
  have least: "n \<le> n'" if fit: "\<exists>i. n' = tgt i"
    and after: "day_of ref < n' \<or> (day_of ref = n' \<and> tod_of ref < hm_tod hh mm)" for n'
  proof -
    obtain i where i: "n' = tgt i" using fit by blast
    have ge: "k \<le> i"
    proof (rule ccontr)
      assume "\<not> k \<le> i"
      then have "tgt i < mstart k" using tgt(2) [of i] mstart_mono [of i k] by linarith
      then show False using after ref i by linarith
    qed
    have "late \<Longrightarrow> i \<noteq> k" using after i by (auto simp: late_def)
    with ge have "(if late then k + 1 else k) \<le> i" by auto
    then have "tgt (if late then k + 1 else k) \<le> tgt i"
      using tgt_mono [of "if late then k + 1 else k" i] by (cases "i = (if late then k + 1 else k)") auto
    then show ?thesis using i by (auto simp: n_def)
  qed
  have first: "is_first_after ref (\<lambda>w. tod_of w = hm_tod hh mm \<and> (\<exists>i. day_of w = tgt i)) (n * DAY_US + hm_tod hh mm)"
  proof (rule first_after_by_day [OF T, where fit = "\<lambda>d. \<exists>i. d = tgt i"])
    show "\<exists>i. n = tgt i" by (auto simp: n_def)
    show "day_of ref < n \<or> day_of ref = n \<and> tod_of ref < hm_tod hh mm"
      using next_later by (auto simp: n_def late_def)
  qed (rule least)
  have "next_monthly ref md hh mm = n * DAY_US + hm_tod hh mm"
  proof -
    have ym: "0 \<le> month_of ref - 1" "month_of ref - 1 < 12"
      using civil_of_days_spec [of "day_of ref"] by (cases "civil_of_days (day_of ref)"; simp add: month_of_def)+
    have mk: "mk_naive (i div 12) (i mod 12 + 1) (min g (days_in_month (i div 12) (i mod 12 + 1))) hh mm
        = tgt i * DAY_US + hm_tod hh mm" for i
      using to_days_shift [of "i div 12" "i mod 12 + 1" "min g (mlen i)"]
      by (simp add: mk_naive_def tgt_def hm_tod_def mstart_def mlen_def)
    have i0: "k div 12 = year_of ref" "k mod 12 + 1 = month_of ref"
      using divmod12 [OF ym, of "year_of ref"] by (simp_all add: k_def month_index_def)
    have i1: "(k + 1) div 12 = (if month_of ref + 1 > 12 then year_of ref + 1 else year_of ref)"
      "(k + 1) mod 12 + 1 = (if month_of ref + 1 > 12 then 1 else month_of ref + 1)"
    proof -
      have e: "k + 1 = (if month_of ref + 1 > 12 then 12 * (year_of ref + 1) + 0 else 12 * year_of ref + month_of ref)"
        using ym by (simp add: k_def month_index_def)
      show "(k + 1) div 12 = (if month_of ref + 1 > 12 then year_of ref + 1 else year_of ref)"
        "(k + 1) mod 12 + 1 = (if month_of ref + 1 > 12 then 1 else month_of ref + 1)"
        unfolding e using divmod12 [of "month_of ref" "year_of ref"] ym by auto
    qed
    have c: "tgt k * DAY_US + hm_tod hh mm \<le> ref \<longleftrightarrow> late"
      using instant_less_iff [OF T, of ref "tgt k"] by (auto simp: late_def)
    show ?thesis
      unfolding next_monthly_def Let_def g_def [symmetric]
      using mk [of k] mk [of "k + 1"] c by (auto simp: i0 i1 n_def)
  qed
  with first show ?thesis
    by (simp add: month_index_spec(4) fit_iff g_def [symmetric])
qed

definition norm_frequency :: "string option \<Rightarrow> string" where
  "norm_frequency frequency = py_lower (py_strip (if or_empty frequency = [] then ''daily'' else or_empty frequency))"

lemma compute_daily_first:
  assumes "hh_mm (sanitize_daily_time ts ''02:00'') = Some (hh, mm)" "0 \<le> hh" "hh \<le> 23" "0 \<le> mm" "mm \<le> 59"
  shows "\<exists>w f. compute_next_daily_run_at tz now ts ref = Some (to_utc tz (w, f)) \<and>
    is_first_after (fst (to_local tz (case ref of None \<Rightarrow> now | Some r \<Rightarrow> r))) (\<lambda>w. tod_of w = hm_tod hh mm) w"
proof -
  obtain l f where lf: "to_local tz (case ref of None \<Rightarrow> now | Some r \<Rightarrow> r) = (l, f)" by fastforce
  from next_daily_first [OF assms(2-5), of l] show ?thesis
    by (auto simp: compute_next_daily_run_at_def lf assms(1) Let_def)
qed

section \<open>Properties\<close>

text \<open>C29: The next run is the first one: for every reference instant, zone, frequency and (even invalid)
  time, the function returns the UTC reading of a wall-clock instant that is strictly after the local
  reference, fits the schedule (the sanitised time of day; the clamped weekday; the day of the month,
  capped at the month's last day), and precedes every other such instant.\<close>

theorem next_run_is_first:
  "\<exists>hh mm w f. hh_mm (sanitize_daily_time ts ''00:00'') = Some (hh, mm) \<and>
     0 \<le> hh \<and> hh \<le> 23 \<and> 0 \<le> mm \<and> mm \<le> 59 \<and>
     compute_next_run_at tz now ts frequency day_of_week md ref = Some (to_utc tz (w, f)) \<and>
     is_first_after (fst (to_local tz (case ref of None \<Rightarrow> now | Some r \<Rightarrow> r)))
       (fits_schedule (norm_frequency frequency) day_of_week md
          (fst (to_local tz (case ref of None \<Rightarrow> now | Some r \<Rightarrow> r))) hh mm) w"
proof -
  obtain hh mm where r: "0 \<le> hh" "hh \<le> 23" "0 \<le> mm" "mm \<le> 59"
    and s: "sanitize_daily_time ts ''00:00'' = pad2 hh @ '':'' @ pad2 mm"
    using sanitize_canonical [of "''00:00''" ts] by blast
  have hm: "hh_mm (sanitize_daily_time ts ''00:00'') = Some (hh, mm)" unfolding s by (rule hh_mm_pad2 [OF r(1,3)])
  have again: "hh_mm (sanitize_daily_time (Some (pad2 hh @ '':'' @ pad2 mm)) ''02:00'') = Some (hh, mm)"
    unfolding sanitize_pad2 [OF r] by (rule hh_mm_pad2 [OF r(1,3)])
  define l where "l = fst (to_local tz (case ref of None \<Rightarrow> now | Some r \<Rightarrow> r))"
  have run: "compute_next_run_at tz now ts frequency day_of_week md ref =
      (if norm_frequency frequency = ''weekly'' then Some (to_utc tz (next_weekly l day_of_week hh mm, False))
       else if norm_frequency frequency = ''monthly'' then Some (to_utc tz (next_monthly l md hh mm, False))
       else compute_next_daily_run_at tz now (Some (pad2 hh @ '':'' @ pad2 mm)) ref)"
    by (simp add: compute_next_run_at_def hm l_def [symmetric] norm_frequency_def Let_def)
  have "\<exists>w f. compute_next_run_at tz now ts frequency day_of_week md ref = Some (to_utc tz (w, f)) \<and>
     is_first_after l (fits_schedule (norm_frequency frequency) day_of_week md l hh mm) w"
    using next_weekly_first [OF r, of l day_of_week] next_monthly_first [OF r, of l md]
      compute_daily_first [OF again r, of tz now ref]
    unfolding run fits_schedule_def [abs_def] l_def [symmetric]
    by (cases "norm_frequency frequency = ''weekly''"; cases "norm_frequency frequency = ''monthly''") auto
  with hm r show ?thesis unfolding l_def by blast
qed

text \<open>In a zone with a constant offset (the application's zone since Brazil dropped daylight saving) the
  daily routine runs at the sanitised local time, strictly after the reference and at most a day after it,
  and no earlier instant after the reference has that local time.\<close>

theorem daily_run_within_a_day:
  assumes "\<And>u. to_local tz u = (u + off, False)" and "\<And>w f. to_utc tz (w, f) = w - off"
  shows "\<exists>hh mm r. hh_mm (sanitize_daily_time ts ''02:00'') = Some (hh, mm) \<and>
     compute_next_daily_run_at tz now ts (Some ref) = Some r \<and>
     ref < r \<and> r \<le> ref + DAY_US \<and> tod_of (r + off) = hm_tod hh mm \<and>
     (\<forall>r'. ref < r' \<and> tod_of (r' + off) = hm_tod hh mm \<longrightarrow> r \<le> r')"
proof -
  obtain hh mm where r: "0 \<le> hh" "hh \<le> 23" "0 \<le> mm" "mm \<le> 59"
    and s: "sanitize_daily_time ts ''02:00'' = pad2 hh @ '':'' @ pad2 mm"
    using sanitize_canonical [of "''02:00''" ts] by blast
  have hm: "hh_mm (sanitize_daily_time ts ''02:00'') = Some (hh, mm)" unfolding s by (rule hh_mm_pad2 [OF r(1,3)])
  obtain w f where w: "compute_next_daily_run_at tz now ts (Some ref) = Some (to_utc tz (w, f))"
    and first: "is_first_after (ref + off) (\<lambda>w. tod_of w = hm_tod hh mm) w"
    using compute_daily_first [OF hm r, of tz now "Some ref"] assms(1) by auto
  have "w \<le> ref + off + DAY_US"
  proof (rule ccontr)
    assume late: "\<not> w \<le> ref + off + DAY_US"
    have "tod_of (w - DAY_US) = hm_tod hh mm"
      using first by (simp add: is_first_after_def tod_of_def)
    with first late show False
      by (auto simp: is_first_after_def DAY_US_def dest!: spec [of _ "w - DAY_US"])
  qed
  with first w assms(2) hm show ?thesis
    by (intro exI [of _ hh] exI [of _ mm] exI [of _ "w - off"])
      (auto simp: is_first_after_def dest!: spec [of _ "_ + off"])
qed

definition recife :: timezone where
  "recife = \<lparr>to_local = (\<lambda>u. (u - 10800000000, False)), to_utc = (\<lambda>(w, f). w + 10800000000)\<rparr>"

theorem daily_run_within_a_day_witness:
  "\<exists>r. compute_next_daily_run_at recife 0 (Some ''25:00'') (Some 86400000000) = Some r \<and>
     86400000000 < r \<and> r \<le> 86400000000 + DAY_US"
proof -
  have a: "to_local recife u = (u + - 10800000000, False)" for u by (simp add: recife_def)
  have b: "to_utc recife (w, f) = w - - 10800000000" for w f by (simp add: recife_def)
  from daily_run_within_a_day [OF a b, of "Some ''25:00''" 0 86400000000] show ?thesis by blast
qed

text \<open>Sanitising a time of day gives a canonical \<open>HH:MM\<close> in range and is idempotent, whatever the
  default of the second call.\<close>

theorem sanitize_idempotent:
  assumes "d = ''02:00'' \<or> d = ''00:00''"
  shows "sanitize_daily_time (Some (sanitize_daily_time ts d)) d' = sanitize_daily_time ts d \<and>
    (\<exists>h m. 0 \<le> h \<and> h \<le> 23 \<and> 0 \<le> m \<and> m \<le> 59 \<and> hh_mm (sanitize_daily_time ts d) = Some (h, m) \<and>
       sanitize_daily_time ts d = pad2 h @ '':'' @ pad2 m)"
proof -
  obtain h m where r: "0 \<le> h" "h \<le> 23" "0 \<le> m" "m \<le> 59"
    and s: "sanitize_daily_time ts d = pad2 h @ '':'' @ pad2 m"
    using sanitize_canonical [OF assms, of ts] by blast
  have "hh_mm (pad2 h @ '':'' @ pad2 m) = Some (h, m)" by (rule hh_mm_pad2 [OF r(1,3)])
  with r show ?thesis unfolding s sanitize_pad2 [OF r] by blast
qed

theorem sanitize_idempotent_witness:
  "sanitize_daily_time (Some (sanitize_daily_time (Some '' 7:5 '') ''02:00'')) ''00:00'' = ''07:05''"
proof -
  have "sanitize_daily_time (Some '' 7:5 '') ''02:00'' = ''07:05''" by code_simp
  with sanitize_idempotent [of "''02:00''" "Some '' 7:5 ''" "''00:00''"] show ?thesis by simp
qed

end
