(* ===== verification/LogSanitizer.thy ===== *)
theory LogSanitizer
  imports PyVal
begin

text \<open>
  The rewriting of messages before they are shown or logged (\<open>src/app/utils/log_sanitizer.py\<close>):
  escape sequences and overstrikes are dropped, passwords on command lines masked, and internal
  exception texts replaced by friendly ones. \<open>re.sub\<close> is \<open>re_sub\<close>: at each place, from the left, a
  pattern sees the character before it and the rest of the text and answers how much it matches and
  what replaces it. Each pattern of the source is one such function; none matches the empty text.
\<close>

section \<open>Substitution\<close>

type_synonym sub_pattern = "char option \<Rightarrow> string \<Rightarrow> (nat \<times> string) option"

fun re_sub_from :: "sub_pattern \<Rightarrow> char option \<Rightarrow> nat \<Rightarrow> string \<Rightarrow> string" where
  "re_sub_from pat prev skip [] = []"
| "re_sub_from pat prev (Suc n) (c # s) = re_sub_from pat (Some c) n s"
| "re_sub_from pat prev 0 (c # s) =
     (case pat prev (c # s) of
        Some (Suc n, rep) \<Rightarrow> rep @ re_sub_from pat (Some c) n s
      | _ \<Rightarrow> c # re_sub_from pat (Some c) 0 s)"

definition re_sub :: "sub_pattern \<Rightarrow> string \<Rightarrow> string" where
  "re_sub pat s = re_sub_from pat None 0 s"

text \<open>The place of the first match: the text before it and the text after it.\<close>

fun re_split1 :: "sub_pattern \<Rightarrow> char option \<Rightarrow> string \<Rightarrow> string \<Rightarrow> (string \<times> string) option" where
  "re_split1 pat prev acc [] = None"
| "re_split1 pat prev acc (c # s) =
     (case pat prev (c # s) of
        Some (n, _) \<Rightarrow> Some (rev acc, drop n (c # s))
      | None \<Rightarrow> re_split1 pat (Some c) (c # acc) s)"

definition lit_pattern :: "string \<Rightarrow> string \<Rightarrow> sub_pattern" where
  "lit_pattern old new prev s = (if prefix old s then Some (length old, new) else None)"

definition py_replace :: "string \<Rightarrow> string \<Rightarrow> string \<Rightarrow> string" where
  "py_replace old new s = re_sub (lit_pattern old new) s"

section \<open>Characters\<close>

definition is_word_char :: "char \<Rightarrow> bool" where
  "is_word_char c \<longleftrightarrow> (let n = (of_char c :: nat) in
     (48 \<le> n \<and> n \<le> 57) \<or> (65 \<le> n \<and> n \<le> 90) \<or> n = 95 \<or> (97 \<le> n \<and> n \<le> 122) \<or>
     n \<in> {170, 178, 179, 181, 185, 186, 188, 189, 190} \<or> (192 \<le> n \<and> n \<noteq> 215 \<and> n \<noteq> 247))"

definition is_ascii_letter :: "char \<Rightarrow> bool" where
  "is_ascii_letter c \<longleftrightarrow> (let n = (of_char c :: nat) in (65 \<le> n \<and> n \<le> 90) \<or> (97 \<le> n \<and> n \<le> 122))"

definition is_profile_char :: "char \<Rightarrow> bool" where
  "is_profile_char c \<longleftrightarrow> is_ascii_letter c \<or> py_is_digit c \<or> c \<in> {CHR ''_'', CHR ''.'', CHR ''-''}"

text \<open>The boundary \<open>\b\<close> before a word character.\<close>

definition at_boundary :: "char option \<Rightarrow> bool" where
  "at_boundary prev \<longleftrightarrow> (case prev of None \<Rightarrow> True | Some c \<Rightarrow> \<not> is_word_char c)"

text \<open>A literal under \<open>(?i)\<close> at the start of the text.\<close>

definition ci_prefix :: "string \<Rightarrow> string \<Rightarrow> bool" where
  "ci_prefix lit s \<longleftrightarrow> prefix (py_lower lit) (py_lower s)"

section \<open>The patterns\<close>

text \<open>\<open>\x1B\[[0-9;?]*[A-Za-z]\<close>\<close>

definition ansi_pattern :: sub_pattern where
  "ansi_pattern prev s =
     (case s of
        c # d # r \<Rightarrow>
          if c = CHR 0x1B \<and> d = CHR ''['' then
            (let args = takeWhile (\<lambda>x. py_is_digit x \<or> x = CHR '';'' \<or> x = CHR ''?'') r
             in case drop (length args) r of
                  [] \<Rightarrow> None
                | e # _ \<Rightarrow> if is_ascii_letter e then Some (length args + 3, []) else None)
          else None
      | _ \<Rightarrow> None)"

text \<open>\<open>.\x08\<close>\<close>

definition overstrike_pattern :: sub_pattern where
  "overstrike_pattern prev s =
     (case s of c # d # _ \<Rightarrow> if c \<noteq> CHR 0x0A \<and> d = CHR 0x08 then Some (2, []) else None | _ \<Rightarrow> None)"

text \<open>\<open>('([^']*)'|\S+)\<close>: the length of the value.\<close>

definition env_value_length :: "string \<Rightarrow> nat option" where
  "env_value_length s =
     (let plain = length (takeWhile (\<lambda>x. \<not> py_is_space x) s);
          quoted = (case s of
             [] \<Rightarrow> None
           | q # r \<Rightarrow> if q = CHR 0x27 \<and> CHR 0x27 \<in> set r
                      then Some (length (takeWhile (\<lambda>x. x \<noteq> CHR 0x27) r) + 2) else None)
      in case quoted of Some n \<Rightarrow> Some n | None \<Rightarrow> if plain = 0 then None else Some plain)"

text \<open>\<open>(?i)\b(PGPASSWORD|MYSQL_PWD)=('([^']*)'|\S+)\<close> to \<open>\1=***\<close>\<close>

definition env_password_pattern :: sub_pattern where
  "env_password_pattern prev s =
     (if \<not> at_boundary prev then None
      else let n = (if ci_prefix ''pgpassword='' s then 10 else if ci_prefix ''mysql_pwd='' s then 9 else 0)
           in if n = 0 then None
              else case env_value_length (drop (n + 1) s) of
                     None \<Rightarrow> None
                   | Some k \<Rightarrow> Some (n + 1 + k, take n s @ ''=***''))"

text \<open>\<open>(?i)(--password=|-p)'?[^'\s]+\<close> to \<open>\1***\<close>\<close>

definition cli_value_length :: "string \<Rightarrow> nat option" where
  "cli_value_length s =
     (let (q, r) = (case s of [] \<Rightarrow> (0, []) | c # t \<Rightarrow> if c = CHR 0x27 then (1, t) else (0, s));
          k = length (takeWhile (\<lambda>x. x \<noteq> CHR 0x27 \<and> \<not> py_is_space x) r)
      in if k = 0 then None else Some (q + k))"

definition cli_password_pattern :: sub_pattern where
  "cli_password_pattern prev s =
     (let long = (if ci_prefix ''--password='' s
                  then map_option (\<lambda>k. (11 + k, take 11 s @ ''***'')) (cli_value_length (drop 11 s)) else None);
          short = (if ci_prefix ''-p'' s
                  then map_option (\<lambda>k. (2 + k, take 2 s @ ''***'')) (cli_value_length (drop 2 s)) else None)
      in case long of Some m \<Rightarrow> Some m | None \<Rightarrow> short)"

text \<open>\<open>\bDetalhes?:\<close> under \<open>re.I\<close>\<close>

definition detail_pattern :: sub_pattern where
  "detail_pattern prev s =
     (if \<not> at_boundary prev then None
      else if ci_prefix ''detalhes:'' s then Some (9, [])
      else if ci_prefix ''detalhe:'' s then Some (8, [])
      else None)"

text \<open>\<open>\s+\<close> to one space\<close>

definition spaces_pattern :: sub_pattern where
  "spaces_pattern prev s =
     (let n = length (takeWhile py_is_space s) in if n = 0 then None else Some (n, '' ''))"

text \<open>\<open>\s*Detalhe:\s*<literal>\s*\.?\<close>\<close>

definition useless_detail_pattern :: "string \<Rightarrow> sub_pattern" where
  "useless_detail_pattern lit prev s =
     (let a = takeWhile py_is_space s; s1 = drop (length a) s
      in if \<not> prefix ''Detalhe:'' s1 then None
         else let s2 = drop 8 s1; b = takeWhile py_is_space s2; s3 = drop (length b) s2
              in if \<not> prefix lit s3 then None
                 else let s4 = drop (length lit) s3; c = takeWhile py_is_space s4; s5 = drop (length c) s4;
                          dot = (case s5 of x # _ \<Rightarrow> if x = CHR ''.'' then 1 else 0 | [] \<Rightarrow> 0)
                      in Some (length a + 8 + length b + length lit + length c + dot, []))"

section \<open>The tables\<close>

definition quote :: string where "quote = [CHR 0x27]"

definition USELESS_DETAIL_PATTERNS :: "string list" where
  "USELESS_DETAIL_PATTERNS =
     [''<class '' @ quote @ ''pexpect.exceptions.EOF'' @ quote @ ''>'',
      ''<class '' @ quote @ ''pexpect.exceptions.TIMEOUT'' @ quote @ ''>'',
      ''<class '' @ quote @ ''EOFError'' @ quote @ ''>'']"

definition DETAIL_REPLACEMENTS :: "(string \<times> string) list" where
  "DETAIL_REPLACEMENTS =
     [(''<class '' @ quote @ ''pexpect.exceptions.EOF'' @ quote @ ''>'', ''conexao encerrada antes do login/banner''),
      (''pexpect.exceptions.EOF'', ''conexao encerrada antes do login/banner''),
      (''<class '' @ quote @ ''pexpect.exceptions.TIMEOUT'' @ quote @ ''>'', ''tempo esgotado aguardando resposta do equipamento''),
      (''pexpect.exceptions.TIMEOUT'', ''tempo esgotado aguardando resposta do equipamento''),
      (''<class '' @ quote @ ''EOFError'' @ quote @ ''>'', ''conexao encerrada pelo equipamento''),
      (''EOFError'', ''conexao encerrada pelo equipamento''),
      (''NetmikoTimeoutException'', ''tempo esgotado na conexao com o equipamento''),
      (''NetmikoAuthenticationException'', ''falha de autenticacao no equipamento''),
      (''ReadTimeout'', ''tempo esgotado aguardando resposta do equipamento''),
      (''ParamikoAuthenticationException'', ''falha de autenticacao SSH''),
      (''SSHException'', ''falha na negociacao SSH'')]"

definition FRIENDLY_ERROR_PATTERNS :: "(string list \<times> string) list" where
  "FRIENDLY_ERROR_PATTERNS =
     [([''incompatible ssh peer'', ''no acceptable kex algorithm'', ''kex algorithm''],
       ''SSH incompativel: o equipamento usa algoritmo antigo de troca de chaves que nao foi aceito nesta conexao.''),
      ([''no matching cipher'', ''no acceptable ciphers'', ''cipher''],
       ''SSH incompativel: o equipamento usa cifra/criptografia que nao foi aceita nesta conexao.''),
      ([''error reading ssh protocol banner'', ''ssh protocol banner''],
       ''A porta abriu, mas nao apresentou banner SSH valido. Confira se a porta/protocolo cadastrados estao corretos.''),
      ([''connection refused'', ''errno 111''],
       ''A porta recusou a conexao. Confira porta, NAT, firewall ou servico remoto.''),
      ([''no route to host'', ''network is unreachable'', ''unable to connect''],
       ''Nao ha rota/acesso de rede ate o equipamento.''),
      ([''authentication failed'', ''login failed'', ''permission denied'', ''bad username'', ''bad password''],
       ''Credenciais recusadas pelo equipamento.''),
      ([''pattern not detected'', ''prompt not detected''],
       ''O equipamento conectou, mas nao apresentou o prompt esperado para continuar o backup.''),
      ([''timed out'', ''timeout''],
       ''Tempo esgotado aguardando resposta do equipamento.''),
      ([''connection reset by peer'', ''closed by remote host'', ''transport shut down or saw eof''],
       ''A conexao foi encerrada pelo equipamento durante a tentativa.'')]"

section \<open>The functions\<close>

text \<open>\<open>re.split(r";\s*", s)\<close>.\<close>

fun split_profiles :: "string list \<Rightarrow> string list" where
  "split_profiles [] = []"
| "split_profiles (p # ps) = p # map (dropWhile py_is_space) ps"

definition profile_name :: "string \<Rightarrow> string option" where
  "profile_name part =
     (let s = dropWhile py_is_space part; name = takeWhile is_profile_char s;
          r = dropWhile py_is_space (drop (length name) s)
      in case r of
           c # _ \<Rightarrow> if name \<noteq> [] \<and> c = CHR '':'' then Some name else None
         | [] \<Rightarrow> None)"

definition extract_attempted_profiles :: "string \<Rightarrow> string list" where
  "extract_attempted_profiles s =
     (let detail_text = (case re_split1 detail_pattern None [] s of None \<Rightarrow> s | Some (_, r) \<Rightarrow> r);
          parts = split_profiles (py_split CHR '';'' detail_text);
          profiles = foldl (\<lambda>acc part. case profile_name part of
                              None \<Rightarrow> acc
                            | Some name \<Rightarrow> if name \<in> set acc then acc else acc @ [name]) [] parts
      in take 6 profiles)"

fun join_str :: "string \<Rightarrow> string list \<Rightarrow> string" where
  "join_str sep [] = []"
| "join_str sep [w] = w"
| "join_str sep (w # ws) = w @ sep @ join_str sep ws"

definition friendly_detail_for :: "string \<Rightarrow> string option" where
  "friendly_detail_for s =
     (let low = py_lower s
      in case find (\<lambda>(markers, _). any_in markers low) FRIENDLY_ERROR_PATTERNS of
           None \<Rightarrow> None
         | Some (_, friendly) \<Rightarrow>
             (let profiles = extract_attempted_profiles s
              in if profiles \<noteq> []
                 then Some (friendly @ '' Tentativas realizadas: '' @ join_str '', '' profiles @ ''.'')
                 else Some friendly))"

text \<open>The masking steps, then the rewriting steps.\<close>

definition mask_secrets :: "string \<Rightarrow> string" where
  "mask_secrets s =
     re_sub cli_password_pattern (re_sub env_password_pattern
       (re_sub overstrike_pattern (re_sub ansi_pattern s)))"

definition rewrite_details :: "string \<Rightarrow> string" where
  "rewrite_details text0 =
     (let text1 = (case friendly_detail_for text0 of
             None \<Rightarrow> text0
           | Some friendly_detail \<Rightarrow>
               (let prefix0 = py_strip (case re_split1 detail_pattern None [] text0 of None \<Rightarrow> text0 | Some (p, _) \<Rightarrow> p);
                    prefix1 = (if prefix0 = [] then ''Falha durante a operacao.'' else prefix0)
                in prefix1 @ '' Detalhe: '' @ friendly_detail));
          text2 = foldl (\<lambda>t (old, new). py_replace old new t) text1 DETAIL_REPLACEMENTS;
          text3 = foldl (\<lambda>t lit. re_sub (useless_detail_pattern lit) t) text2 USELESS_DETAIL_PATTERNS;
          text4 = py_replace ''despositivo'' ''dispositivo'' text3
      in py_strip (re_sub spaces_pattern text4))"

definition sanitize_operational_message :: "pyval \<Rightarrow> string" where
  "sanitize_operational_message message =
     (let s = str_or_empty message in if s = [] then s else rewrite_details (mask_secrets s))"

section \<open>Lemmas on substitution\<close>

lemma re_sub_from_skip: "re_sub_from pat prev (length u) (u @ s) =
  re_sub_from pat (if u = [] then prev else Some (last u)) 0 s"
  by (induction u arbitrary: prev) auto

text \<open>A stretch in which no match starts is copied.\<close>

lemma re_sub_from_copy:
  assumes "\<And>prev' a b. u = a @ b \<Longrightarrow> b \<noteq> [] \<Longrightarrow> pat prev' (b @ s) = None"
  shows "re_sub_from pat prev 0 (u @ s) = u @ re_sub_from pat (if u = [] then prev else Some (last u)) 0 s"
  using assms
proof (induction u arbitrary: prev)
  case (Cons c u)
  have "pat prev ((c # u) @ s) = None" by (rule Cons.prems [of "[]"]) simp_all
  moreover have "re_sub_from pat (Some c) 0 (u @ s) = u @ re_sub_from pat (if u = [] then Some c else Some (last u)) 0 s"
    by (rule Cons.IH) (rule Cons.prems [of "c # _"], simp_all)
  ultimately show ?case by simp
qed simp

lemma re_sub_id:
  assumes "\<And>prev a b. s = a @ b \<Longrightarrow> pat prev b = None"
  shows "re_sub pat s = s"
  using re_sub_from_copy [of s pat "[]" None] assms by (simp add: re_sub_def)

lemma re_sub_ansi_id: "CHR 0x1B \<notin> set s \<Longrightarrow> re_sub ansi_pattern s = s"
  by (rule re_sub_id) (auto simp: ansi_pattern_def split: list.splits)

lemma re_sub_overstrike_id: "CHR 0x08 \<notin> set s \<Longrightarrow> re_sub overstrike_pattern s = s"
  by (rule re_sub_id) (auto simp: overstrike_pattern_def split: list.splits)

lemma lower_eq_sign: "py_lower_char c = CHR ''='' \<longleftrightarrow> c = CHR ''=''"
proof
  assume a: "py_lower_char c = CHR ''=''"
  let ?n = "of_char c :: nat"
  show "c = CHR ''=''"
  proof (cases "(65 \<le> ?n \<and> ?n \<le> 90) \<or> (192 \<le> ?n \<and> ?n \<le> 222 \<and> ?n \<noteq> 215)")
    case True
    then have "?n + 32 < 256" by auto
    then have "(of_char (char_of (?n + 32) :: char) :: nat) = ?n + 32" by (simp add: of_char_of)
    moreover have "py_lower_char c = char_of (?n + 32)" using True by (auto simp: py_lower_char_def Let_def)
    ultimately have "(of_char (py_lower_char c) :: nat) = ?n + 32" by simp
    then have "?n + 32 = 61" unfolding a by simp
    with True show ?thesis by auto
  next
    case False
    then have "py_lower_char c = c" unfolding py_lower_char_def Let_def by (rule if_not_P)
    with a show ?thesis by simp
  qed
next
  show "c = CHR ''='' \<Longrightarrow> py_lower_char c = CHR ''=''" by (simp add: py_lower_char_def)
qed

text \<open>A match of a variable name ends in the first equality sign of the text.\<close>

lemma ci_prefix_first_eq:
  assumes "ci_prefix (name @ ''='') (b @ w @ CHR ''='' # s)" "CHR ''='' \<notin> set name" "CHR ''='' \<notin> set b"
    "CHR ''='' \<notin> set w" "py_lower name = name"
  shows "length b + length w = length name"
proof -
  let ?t = "map py_lower_char (b @ w @ CHR ''='' # s)"
  obtain r where r: "?t = name @ CHR ''='' # r"
    using assms(1,5) by (auto simp: ci_prefix_def prefix_def py_lower_def lower_eq_sign py_lower_char_def)
  have "takeWhile (\<lambda>c. c \<noteq> CHR ''='') ?t = name"
    unfolding r using assms(2) by (subst takeWhile_append2) auto
  moreover have "takeWhile (\<lambda>c. c \<noteq> CHR ''='') ?t = map py_lower_char (b @ w)"
  proof -
    have "\<forall>c \<in> set (map py_lower_char (b @ w)). c \<noteq> CHR ''=''"
    proof
      fix c assume "c \<in> set (map py_lower_char (b @ w))"
      then obtain d where d: "d \<in> set (b @ w)" "c = py_lower_char d" by auto
      then have "d \<noteq> CHR ''=''" using assms(3,4) by auto
      then show "c \<noteq> CHR ''=''" using lower_eq_sign [of d] unfolding d(2) by blast
    qed
    then have "takeWhile (\<lambda>c. c \<noteq> CHR ''='') (map py_lower_char (b @ w) @ CHR ''='' # map py_lower_char s)
        = map py_lower_char (b @ w)"
      by (subst takeWhile_append2) auto
    moreover have "?t = map py_lower_char (b @ w) @ CHR ''='' # map py_lower_char s"
      by (simp add: lower_eq_sign)
    ultimately show ?thesis by simp
  qed
  ultimately have "length name = length (b @ w)" by (metis length_map)
  then show ?thesis by simp
qed

text \<open>What a shell gives as the value of a variable: a text without spaces that does not start with a quote, or a quoted text.\<close>

definition given_value :: "string \<Rightarrow> bool" where
  "given_value v \<longleftrightarrow> (v \<noteq> [] \<and> hd v \<noteq> CHR 0x27 \<and> list_all (\<lambda>c. \<not> py_is_space c) v) \<or>
     (\<exists>q. v = CHR 0x27 # q @ [CHR 0x27] \<and> CHR 0x27 \<notin> set q)"

definition password_variable :: "string \<Rightarrow> bool" where
  "password_variable var \<longleftrightarrow> var = ''PGPASSWORD'' \<or> var = ''MYSQL_PWD''"

definition names_password :: "string \<Rightarrow> bool" where
  "names_password s \<longleftrightarrow> list_ex (\<lambda>b. ci_prefix ''pgpassword='' b \<or> ci_prefix ''mysql_pwd='' b) (suffixes s)"

lemma given_length:
  assumes "given_value v" "post = [] \<or> py_is_space (hd post)"
  shows "env_value_length (v @ post) = Some (length v)"
proof -
  have stop: "takeWhile (\<lambda>x. \<not> py_is_space x) post = []" using assms(2) by (cases post) auto
  from assms(1) show ?thesis
    unfolding given_value_def
  proof (elim disjE conjE exE)
    assume v: "v \<noteq> []" "hd v \<noteq> CHR 0x27" "list_all (\<lambda>c. \<not> py_is_space c) v"
    then have "takeWhile (\<lambda>x. \<not> py_is_space x) (v @ post) = v" by (subst takeWhile_append2) (auto simp: list_all_iff stop)
    with v(1,2) show ?thesis by (cases v) (auto simp: env_value_length_def Let_def)
  next
    fix q assume v: "v = CHR 0x27 # q @ [CHR 0x27]" "CHR 0x27 \<notin> set q"
    then have "takeWhile (\<lambda>x. x \<noteq> CHR 0x27) (q @ CHR 0x27 # post) = q" by (subst takeWhile_append2) auto
    with v show ?thesis by (simp add: env_value_length_def Let_def)
  qed
qed

text \<open>Before the first assignment to such a variable no match starts.\<close>

lemma no_earlier_match:
  assumes "pre = a @ b" "b \<noteq> []" "\<not> names_password pre" "password_variable var"
  shows "\<not> ci_prefix ''pgpassword='' (b @ var @ CHR ''='' # s)" "\<not> ci_prefix ''mysql_pwd='' (b @ var @ CHR ''='' # s)"
proof -
  have low: "py_lower ''pgpassword'' = ''pgpassword''" "py_lower ''mysql_pwd'' = ''mysql_pwd''" "py_lower ''='' = ''=''" by code_simp+
  have fits: "length b + length var = length nm \<and> prefix (nm @ ''='') (py_lower (b @ var @ CHR ''='' # s))"
    if p: "ci_prefix (nm @ ''='') (b @ var @ CHR ''='' # s)" and nm: "nm = ''pgpassword'' \<or> nm = ''mysql_pwd''" for nm
  proof -
    have l: "py_lower nm = nm" using nm low by auto
    have pre: "prefix (nm @ ''='') (py_lower b @ py_lower (var @ CHR ''='' # s))"
      using p by (simp add: ci_prefix_def py_lower_append l low(3))
    have whole: "py_lower (nm @ ''='') = nm @ ''=''" unfolding py_lower_append l low(3) ..
    have "\<not> ci_prefix (nm @ ''='') b"
      using assms(1,3) nm by (auto simp: names_password_def list_ex_iff suffix_def)
    then have "\<not> prefix (nm @ ''='') (py_lower b)" unfolding ci_prefix_def whole .
    moreover have "prefix (py_lower b) (py_lower b @ py_lower (var @ CHR ''='' # s))" by simp
    ultimately have "prefix (py_lower b) (nm @ ''='')" "py_lower b \<noteq> nm @ ''=''"
      using prefix_same_cases [OF pre, of "py_lower b"] by auto
    then have inside: "prefix (py_lower b) nm" by (simp add: prefix_snoc [of _ nm "CHR ''=''"])
    have "CHR ''='' \<notin> set b"
    proof
      assume "CHR ''='' \<in> set b"
      then have "py_lower_char CHR ''='' \<in> set (py_lower b)" unfolding py_lower_def set_map by (rule imageI)
      then have "CHR ''='' \<in> set (py_lower b)" by (simp add: py_lower_char_def)
      then have "CHR ''='' \<in> set nm" using set_mono_prefix [OF inside] by blast
      then show False using nm by auto
    qed
    moreover have "CHR ''='' \<notin> set var" using assms(4) by (auto simp: password_variable_def)
    ultimately show ?thesis
      using ci_prefix_first_eq [of nm b var s] p pre l nm by (auto simp: py_lower_append)
  qed
  have len: "0 < length b" using assms(2) by simp
  show "\<not> ci_prefix ''pgpassword='' (b @ var @ CHR ''='' # s)"
  proof
    assume "ci_prefix ''pgpassword='' (b @ var @ CHR ''='' # s)"
    then have f: "length b + length var = 10" "prefix ''pgpassword='' (py_lower (b @ var @ CHR ''='' # s))"
      using fits [of "''pgpassword''"] by simp_all
    with len assms(4) have "var = ''MYSQL_PWD''" "length b = 1" by (auto simp: password_variable_def)
    with f(2) show False by (cases b) (simp_all add: py_lower_def py_lower_char_def)
  qed
  show "\<not> ci_prefix ''mysql_pwd='' (b @ var @ CHR ''='' # s)"
  proof
    assume "ci_prefix ''mysql_pwd='' (b @ var @ CHR ''='' # s)"
    then have "length b + length var = 9" using fits [of "''mysql_pwd''"] by simp
    with len assms(4) show False by (auto simp: password_variable_def)
  qed
qed

text \<open>The value of a masked variable does not reach the masked text.\<close>

lemma env_mask_value:
  assumes pre: "\<not> names_password pre" "pre = [] \<or> \<not> is_word_char (last pre)"
    and var: "password_variable var" and v: "given_value v" and post: "post = [] \<or> py_is_space (hd post)"
  shows "re_sub env_password_pattern (pre @ var @ CHR ''='' # v @ post) =
    pre @ var @ ''=***'' @ re_sub_from env_password_pattern None 0 post"
proof -
  let ?x = "var @ CHR ''='' # v @ post"
  define p where "p = (if pre = [] then None else Some (last pre))"
  have none: "env_password_pattern prev' (b @ ?x) = None" if "pre = a @ b" "b \<noteq> []" for prev' a b
    using no_earlier_match [OF that pre(1) var] by (simp add: env_password_pattern_def)
  have bd: "at_boundary p" using pre(2) by (auto simp: p_def at_boundary_def)
  have hit: "env_password_pattern p ?x = Some (length (var @ ''='' @ v), var @ ''=***'')"
    using var unfolding password_variable_def
  proof
    assume var: "var = ''PGPASSWORD''"
    have "py_lower ''PGPASSWORD='' = py_lower ''pgpassword=''" by code_simp
    then have "ci_prefix ''pgpassword='' (''PGPASSWORD='' @ v @ post)" by (simp only: ci_prefix_def py_lower_append) simp
    then show ?thesis using bd given_length [OF v post] by (simp add: env_password_pattern_def Let_def var)
  next
    assume var: "var = ''MYSQL_PWD''"
    have "py_lower ''MYSQL_PWD='' = py_lower ''mysql_pwd=''" by code_simp
    then have "ci_prefix ''mysql_pwd='' (''MYSQL_PWD='' @ v @ post)" by (simp only: ci_prefix_def py_lower_append) simp
    moreover have "\<not> ci_prefix ''pgpassword='' (''MYSQL_PWD='' @ v @ post)" by (simp add: ci_prefix_def py_lower_def py_lower_char_def)
    ultimately show ?thesis using bd given_length [OF v post] by (simp add: env_password_pattern_def Let_def var)
  qed
  obtain c u where cu: "var @ ''='' @ v = c # u" using var by (auto simp: password_variable_def)
  have x: "?x = c # (u @ post)" using cu by simp
  have sp: "re_sub_from env_password_pattern q 0 post = re_sub_from env_password_pattern None 0 post" for q
  proof (cases post)
    case (Cons d r)
    with assms(5) have "py_is_space d" by simp
    then have "\<not> ci_prefix ''pgpassword='' (d # r)" "\<not> ci_prefix ''mysql_pwd='' (d # r)"
      by (auto simp: ci_prefix_def py_lower_def py_lower_char_def py_is_space_def Let_def split: if_splits)
    with Cons show ?thesis by (simp add: env_password_pattern_def)
  qed simp
  have "re_sub_from env_password_pattern p 0 ?x = (var @ ''=***'') @ re_sub_from env_password_pattern (Some c) (length u) (u @ post)"
    using hit unfolding x cu by simp
  also have "\<dots> = var @ ''=***'' @ re_sub_from env_password_pattern None 0 post"
    unfolding re_sub_from_skip by (subst sp) simp
  finally have at_x: "re_sub_from env_password_pattern p 0 ?x = var @ ''=***'' @ re_sub_from env_password_pattern None 0 post" .
  have "re_sub env_password_pattern (pre @ ?x) = pre @ re_sub_from env_password_pattern p 0 ?x"
    unfolding re_sub_def p_def by (rule re_sub_from_copy) (rule none)
  then show ?thesis unfolding at_x .
qed

section \<open>Properties\<close>


text \<open>A second assignment inside the quotes of the first is taken for the end of neither: what follows it is shown.\<close>

lemma nested_assignment_leaks:
  "mask_secrets (''MYSQL_PWD='' @ [CHR 0x27] @ ''a'' @ [CHR 0x27] @ ''leak'') = ''MYSQL_PWD=***leak''"
  by code_simp


end
