(* ===== verification/TaskLogs.thy ===== *)
theory TaskLogs
  imports Redis LogSanitizer
begin

text \<open>
  The task records and realtime logs in Redis (\<open>src/app/services/realtime_backup_logs.py\<close>): the
  metadata of a task, the lock that lets a tenant have one bulk operation at a time, the log of a task
  and the global log with their sequence numbers, the pruning by age and the scan for recent entries.

  \<open>None\<close> for the client is the connection that failed. The instant \<open>now\<close> (UTC) is an argument of
  each call and stands for the clock readings made during it. The loop of the pruning may run for ever
  on a server that never empties the list, so it has a fuel; each round pops an entry, so one more than
  the length of the list is enough (\<open>prune_removes_stale_prefix\<close>).
\<close>

section \<open>Keys and configuration\<close>

definition TASK_LOG_PREFIX :: string where "TASK_LOG_PREFIX = ''backup_center:task_logs:''"
definition TASK_LOG_SEQ_PREFIX :: string where "TASK_LOG_SEQ_PREFIX = ''backup_center:task_logs_seq:''"
definition TASK_META_PREFIX :: string where "TASK_META_PREFIX = ''backup_center:task_meta:''"
definition TENANT_ACTIVE_BULK_PREFIX :: string where
  "TENANT_ACTIVE_BULK_PREFIX = ''backup_center:tenant_active_bulk:''"
definition GLOBAL_LOG_KEY :: string where "GLOBAL_LOG_KEY = ''backup_center:global_logs''"
definition GLOBAL_LOG_SEQ_KEY :: string where "GLOBAL_LOG_SEQ_KEY = ''backup_center:global_logs_seq''"

definition task_log_key :: "string \<Rightarrow> string" where "task_log_key t = TASK_LOG_PREFIX @ t"
definition task_log_seq_key :: "string \<Rightarrow> string" where "task_log_seq_key t = TASK_LOG_SEQ_PREFIX @ t"
definition task_meta_key :: "string \<Rightarrow> string" where "task_meta_key t = TASK_META_PREFIX @ t"
definition tenant_active_bulk_key :: "string \<Rightarrow> string" where
  "tenant_active_bulk_key t = TENANT_ACTIVE_BULK_PREFIX @ t"

record log_config =
  retention_days :: int
  task_log_max :: int
  global_log_max :: int
  bulk_lock_ttl :: int
  single_lock :: bool

definition ttl_seconds :: "log_config \<Rightarrow> int" where
  "ttl_seconds cfg = retention_days cfg * 24 * 60 * 60"

definition env_or :: "(string \<Rightarrow> string option) \<Rightarrow> string \<Rightarrow> int \<Rightarrow> int option" where
  "env_or env name d = (case env name of None \<Rightarrow> Some d | Some v \<Rightarrow> if v = [] then Some d else py_int v)"

text \<open>An unreadable number stops the import of the module: \<^const>\<open>None\<close>.\<close>

definition load_log_config :: "(string \<Rightarrow> string option) \<Rightarrow> int \<Rightarrow> log_config option" where
  "load_log_config env setting_days =
     Option.bind (env_or env ''REALTIME_TASK_LOG_MAX_ENTRIES'' 2000) (\<lambda>tm.
     Option.bind (env_or env ''REALTIME_GLOBAL_LOG_MAX_ENTRIES'' 50000) (\<lambda>gm.
     Option.bind (env_or env ''BULK_ACTIVE_LOCK_TTL_SECONDS'' 1800) (\<lambda>bt.
       Some \<lparr>retention_days = max (if setting_days = 0 then 90 else setting_days) 1,
             task_log_max = max tm 200, global_log_max = max gm 1000, bulk_lock_ttl = max bt 300,
             single_lock = py_lower (py_strip (case env ''BULK_TENANT_SINGLE_ACTIVE_LOCK_ENABLED'' of
               None \<Rightarrow> ''0'' | Some v \<Rightarrow> if v = [] then ''0'' else v)) \<in> set TRUE_WORDS\<rparr>)))"

definition log_config_ok :: "log_config \<Rightarrow> bool" where
  "log_config_ok cfg \<longleftrightarrow> 1 \<le> retention_days cfg \<and> 200 \<le> task_log_max cfg \<and> 1000 \<le> global_log_max cfg
     \<and> 300 \<le> bulk_lock_ttl cfg"

definition now_iso :: "naive \<Rightarrow> string" where "now_iso now = isoformat now @ ''Z''"

section \<open>Task metadata and the bulk lock\<close>

definition get_task_meta :: "'s redis option \<Rightarrow> (tele \<Rightarrow> 's \<Rightarrow> 's) \<Rightarrow> string \<Rightarrow> ('s, pydict) io" where
  "get_task_meta client emit task_id =
     (case client of
        None \<Rightarrow> io_ret []
      | Some R \<Rightarrow>
          if task_id = [] then io_ret []
          else io_try
            (io_bind (r_get R (task_meta_key task_id)) (\<lambda>raw.
               if \<not> rv_truthy raw then io_ret []
               else case json_loads (the raw) of
                      None \<Rightarrow> io_raise
                    | Some (PDict data) \<Rightarrow> io_ret data
                    | Some _ \<Rightarrow> io_ret []))
            (io_seq (tell emit (LogLine (''Falha ao ler task meta '' @ task_id))) (io_ret [])))"

definition release_tenant_bulk_lock ::
  "'s redis option \<Rightarrow> (tele \<Rightarrow> 's \<Rightarrow> 's) \<Rightarrow> string \<Rightarrow> string \<Rightarrow> ('s, unit) io" where
  "release_tenant_bulk_lock client emit tenant_id task_id =
     (case client of
        None \<Rightarrow> io_ret ()
      | Some R \<Rightarrow>
          if tenant_id = [] then io_ret ()
          else io_try
            (io_bind (r_get R (tenant_active_bulk_key tenant_id)) (\<lambda>current.
               if task_id \<noteq> [] \<and> rv_truthy current \<and> rv_text (the current) \<noteq> task_id then io_ret ()
               else r_delete R [tenant_active_bulk_key tenant_id]))
            (tell emit (LogLine ''Falha ao liberar lock de lote bulk'')))"

definition acquire_tenant_bulk_lock ::
  "log_config \<Rightarrow> 's redis option \<Rightarrow> (tele \<Rightarrow> 's \<Rightarrow> 's) \<Rightarrow> string \<Rightarrow> string \<Rightarrow> ('s, bool \<times> string option) io" where
  "acquire_tenant_bulk_lock cfg client emit tenant_id task_id =
     (if \<not> single_lock cfg then io_ret (True, None)
      else case client of
        None \<Rightarrow> io_ret (True, None)
      | Some R \<Rightarrow>
          if tenant_id = [] \<or> task_id = [] then io_ret (True, None)
          else
            (let key = tenant_active_bulk_key tenant_id;
                 take_it =
                   io_bind (r_set_nx R key (RText task_id) (bulk_lock_ttl cfg)) (\<lambda>acquired.
                     if acquired then io_ret (True, None)
                     else io_bind (r_get R key) (\<lambda>existing.
                       io_ret (False, if rv_truthy existing then Some (rv_text (the existing)) else None)))
             in io_try
               (io_bind (r_get R key) (\<lambda>existing.
                  if rv_truthy existing then
                    io_bind (get_task_meta client emit (rv_text (the existing))) (\<lambda>meta.
                      if meta \<noteq> [] \<and> truthy (dget meta ''is_bulk'') \<and> \<not> truthy (dget meta ''completed'')
                      then io_ret (False, Some (rv_text (the existing)))
                      else if meta = [] then io_ret (False, Some (rv_text (the existing)))
                      else io_seq (r_delete R [key]) take_it)
                  else take_it))
               (io_seq (tell emit (LogLine ''Falha ao adquirir lock de lote bulk'')) (io_ret (True, None)))))"

definition write_task_meta ::
  "log_config \<Rightarrow> 's redis option \<Rightarrow> (tele \<Rightarrow> 's \<Rightarrow> 's) \<Rightarrow> string \<Rightarrow> pydict \<Rightarrow> ('s, unit) io" where
  "write_task_meta cfg client emit task_id payload =
     (case client of
        None \<Rightarrow> io_ret ()
      | Some R \<Rightarrow>
          io_try
            (io_seq (r_setex R (task_meta_key task_id) (ttl_seconds cfg) (RJson (PDict payload)))
               (if single_lock cfg \<and> truthy (dget payload ''is_bulk'') \<and> truthy (dget payload ''tenant_id'')
                then (let tenant_id = py_str (dget payload ''tenant_id'')
                      in if truthy (dget payload ''completed'')
                         then release_tenant_bulk_lock client emit tenant_id task_id
                         else r_setex R (tenant_active_bulk_key tenant_id) (bulk_lock_ttl cfg) (RText task_id))
                else io_ret ()))
            (tell emit (LogLine (''Falha ao salvar task meta '' @ task_id))))"

definition opt_text :: "string \<Rightarrow> pyval" where
  "opt_text s = (if s = [] then PNone else PStr s)"

definition register_task ::
  "log_config \<Rightarrow> 's redis option \<Rightarrow> (tele \<Rightarrow> 's \<Rightarrow> 's) \<Rightarrow> naive \<Rightarrow>
   string \<Rightarrow> string \<Rightarrow> string option \<Rightarrow> string option \<Rightarrow> string option \<Rightarrow> ('s, unit) io" where
  "register_task cfg client emit now task_id tenant_id device_id device_name group_id =
     (if task_id = [] then io_ret ()
      else write_task_meta cfg client emit task_id
        [(''task_id'', PStr task_id), (''tenant_id'', PStr tenant_id),
         (''device_id'', opt_text (or_empty device_id)),
         (''device_name'', PStr (if or_empty device_name = [] then ''Dispositivo'' else or_empty device_name)),
         (''group_id'', opt_text (or_empty group_id)),
         (''status'', PStr ''queued''), (''progress'', PInt 0),
         (''message'', PStr ''Task enfileirada, aguardando worker...''),
         (''created_at'', PStr (now_iso now)), (''updated_at'', PStr (now_iso now)),
         (''completed'', PBool False)])"

definition merged_meta :: "naive \<Rightarrow> string \<Rightarrow> pydict \<Rightarrow> pydict \<Rightarrow> pydict" where
  "merged_meta now task_id current upd =
     dput (dput (dupdate current upd) ''task_id'' (PStr task_id)) ''updated_at'' (PStr (now_iso now))"

definition update_task_meta ::
  "log_config \<Rightarrow> 's redis option \<Rightarrow> (tele \<Rightarrow> 's \<Rightarrow> 's) \<Rightarrow> naive \<Rightarrow> string \<Rightarrow> pydict \<Rightarrow> ('s, pydict) io" where
  "update_task_meta cfg client emit now task_id upd =
     (if task_id = [] then io_ret []
      else io_bind (get_task_meta client emit task_id) (\<lambda>current.
        let current' = merged_meta now task_id current upd
        in io_seq (write_task_meta cfg client emit task_id current') (io_ret current')))"

section \<open>Pruning\<close>

text \<open>\<open>_parse_iso_timestamp\<close>: the naive part and the offset, if there is one.\<close>

definition parse_iso_timestamp :: "pyval \<Rightarrow> (naive \<times> int option) option" where
  "parse_iso_timestamp raw =
     (if \<not> truthy raw then None
      else let value = py_strip (py_str raw)
           in fromisoformat (if suffix ''Z'' value then butlast value @ ''+00:00'' else value))"

datatype age_verdict = Unreadable | NoTimestamp | Fresh | Stale | Raises

text \<open>What the age check says of an entry: reading a timestamp of something that is not a dictionary, and
  comparing a timestamp without an offset with the (aware) cutoff, raise.\<close>

definition entry_age :: "naive \<Rightarrow> rval \<Rightarrow> age_verdict" where
  "entry_age cutoff raw =
     (case json_loads raw of
        None \<Rightarrow> Unreadable
      | Some (PDict item) \<Rightarrow>
          (case parse_iso_timestamp (if truthy (dget item ''created_at'') then dget item ''created_at''
                                     else dget item ''timestamp_iso'') of
             None \<Rightarrow> NoTimestamp
           | Some (t, None) \<Rightarrow> Raises
           | Some (t, Some off) \<Rightarrow> if t - off \<ge> cutoff then Fresh else Stale)
      | Some _ \<Rightarrow> Raises)"

fun prune_loop :: "nat \<Rightarrow> 's redis \<Rightarrow> naive \<Rightarrow> int \<Rightarrow> ('s, int) io" where
  "prune_loop 0 R cutoff removed = io_raise"
| "prune_loop (Suc fuel) R cutoff removed =
     io_bind (r_head R GLOBAL_LOG_KEY) (\<lambda>raw.
       if \<not> rv_truthy raw then io_ret removed
       else case entry_age cutoff (the raw) of
              Unreadable \<Rightarrow> io_seq (r_lpop R GLOBAL_LOG_KEY) (prune_loop fuel R cutoff (removed + 1))
            | NoTimestamp \<Rightarrow> io_seq (r_lpop R GLOBAL_LOG_KEY) (prune_loop fuel R cutoff (removed + 1))
            | Fresh \<Rightarrow> io_ret removed
            | Stale \<Rightarrow> io_seq (r_lpop R GLOBAL_LOG_KEY) (prune_loop fuel R cutoff (removed + 1))
            | Raises \<Rightarrow> io_raise)"

definition prune_global_logs_by_age :: "nat \<Rightarrow> log_config \<Rightarrow> 's redis \<Rightarrow> naive \<Rightarrow> ('s, int) io" where
  "prune_global_logs_by_age fuel cfg R now = prune_loop fuel R (now - retention_days cfg * DAY_US) 0"

text \<open>The module variable \<open>_global_prune_cache_until\<close> is an argument and part of the result; times of the
  monotonic clock are milliseconds.\<close>

definition maybe_prune_global_logs_by_age ::
  "nat \<Rightarrow> log_config \<Rightarrow> 's redis \<Rightarrow> naive \<Rightarrow> int \<Rightarrow> int \<Rightarrow> int \<Rightarrow> ('s, int \<times> int) io" where
  "maybe_prune_global_logs_by_age fuel cfg R now now_mono interval cache_until =
     (if now_mono < cache_until then io_ret (0, cache_until)
      else io_bind (prune_global_logs_by_age fuel cfg R now) (\<lambda>removed. io_ret (removed, now_mono + interval)))"

fun prune_keep :: "naive \<Rightarrow> rval list \<Rightarrow> (rval list \<times> int) option" where
  "prune_keep cutoff [] = Some ([], 0)"
| "prune_keep cutoff (raw # raws) =
     (case entry_age cutoff raw of
        Raises \<Rightarrow> None
      | Fresh \<Rightarrow> map_option (\<lambda>(keep, removed). (raw # keep, removed)) (prune_keep cutoff raws)
      | _ \<Rightarrow> map_option (\<lambda>(keep, removed). (keep, removed + 1)) (prune_keep cutoff raws))"

definition rewrite_global_log :: "'s redis \<Rightarrow> rval list \<Rightarrow> ('s, unit) io \<Rightarrow> ('s, unit) io" where
  "rewrite_global_log R keep after =
     io_seq (r_delete R [GLOBAL_LOG_KEY])
       (io_seq (if keep = [] then io_ret () else r_rpush R GLOBAL_LOG_KEY keep) after)"

definition prune_global_logs ::
  "log_config \<Rightarrow> 's redis option \<Rightarrow> naive \<Rightarrow> int \<Rightarrow> bool \<Rightarrow> ('s, int) io" where
  "prune_global_logs cfg client now days dry_run =
     (case client of
        None \<Rightarrow> io_ret 0
      | Some R \<Rightarrow>
          io_bind (r_lrange R GLOBAL_LOG_KEY 0 (- 1)) (\<lambda>raw_entries.
            if raw_entries = [] then io_ret 0
            else case prune_keep (now - max days 1 * DAY_US) raw_entries of
                   None \<Rightarrow> io_raise
                 | Some (keep, removed) \<Rightarrow>
                     if dry_run then io_ret removed
                     else io_seq (rewrite_global_log R keep (r_expire R GLOBAL_LOG_KEY (ttl_seconds cfg)))
                       (io_ret removed)))"

fun split_tenant :: "string \<Rightarrow> rval list \<Rightarrow> (rval list \<times> int) option" where
  "split_tenant target [] = Some ([], 0)"
| "split_tenant target (raw # raws) =
     (case json_loads raw of
        None \<Rightarrow> map_option (\<lambda>(keep, removed). (raw # keep, removed)) (split_tenant target raws)
      | Some (PDict item) \<Rightarrow>
          if str_or_empty (dget item ''tenant_id'') = target
          then map_option (\<lambda>(keep, removed). (keep, removed + 1)) (split_tenant target raws)
          else map_option (\<lambda>(keep, removed). (raw # keep, removed)) (split_tenant target raws)
      | Some _ \<Rightarrow> None)"

definition clear_tenant_global_logs ::
  "log_config \<Rightarrow> 's redis option \<Rightarrow> (tele \<Rightarrow> 's \<Rightarrow> 's) \<Rightarrow> string \<Rightarrow> ('s, int) io" where
  "clear_tenant_global_logs cfg client emit tenant_id =
     (case client of
        None \<Rightarrow> io_ret 0
      | Some R \<Rightarrow>
          if tenant_id = [] then io_ret 0
          else io_bind (io_attempt (r_lrange R GLOBAL_LOG_KEY 0 (- 1))) (\<lambda>got.
            case got of
              None \<Rightarrow> io_seq (tell emit (LogLine ''Falha ao listar logs globais'')) (io_ret 0)
            | Some raw_entries \<Rightarrow>
                if raw_entries = [] then io_ret 0
                else case split_tenant tenant_id raw_entries of
                       None \<Rightarrow> io_raise
                     | Some (kept, removed) \<Rightarrow>
                         if removed \<le> 0 then io_ret 0
                         else io_try
                           (io_seq (rewrite_global_log R kept
                              (if kept = [] then io_ret () else r_expire R GLOBAL_LOG_KEY (ttl_seconds cfg)))
                              (io_ret removed))
                           (io_seq (tell emit (LogLine ''Falha ao regravar logs globais'')) (io_ret 0))))"

section \<open>Appending\<close>

definition log_level :: "string option \<Rightarrow> string" where
  "log_level level =
     (let l = py_strip (py_lower (if or_empty level = [] then ''info'' else or_empty level))
      in if l \<in> {''info'', ''success'', ''warning'', ''error''} then l else ''info'')"

definition log_entry ::
  "string \<Rightarrow> int \<Rightarrow> int \<Rightarrow> pyval \<Rightarrow> string \<Rightarrow> string \<Rightarrow> string \<Rightarrow> string \<Rightarrow> naive \<Rightarrow> pydict" where
  "log_entry task_id sq global_sq tenant_id device_name message level timestamp now =
     [(''task_id'', PStr task_id), (''seq'', PInt sq), (''tenant_id'', tenant_id),
      (''device_name'', PStr (if device_name = [] then ''Sistema'' else device_name)),
      (''message'', PStr message), (''level'', PStr level), (''timestamp'', PStr timestamp),
      (''timestamp_iso'', PStr (now_iso now)), (''global_seq'', PInt global_sq)]"

text \<open>The readings of the clocks in one call: the UTC instant, the local time of day as text and the
  monotonic clock.\<close>

record clocks =
  ck_now :: naive
  ck_hms :: string
  ck_mono :: int

definition append_failed :: "(tele \<Rightarrow> 's \<Rightarrow> 's) \<Rightarrow> string \<Rightarrow> ('s, unit) io" where
  "append_failed emit tid = tell emit (LogLine (''Falha ao gravar log realtime task='' @ tid))"

definition append_task_log ::
  "nat \<Rightarrow> log_config \<Rightarrow> 's redis option \<Rightarrow> (tele \<Rightarrow> 's \<Rightarrow> 's) \<Rightarrow> clocks \<Rightarrow> int \<Rightarrow> int \<Rightarrow>
   string option \<Rightarrow> string \<Rightarrow> pyval \<Rightarrow> string option \<Rightarrow> ('s, int) io" where
  "append_task_log fuel cfg client emit ck interval cache_until task_id device_name message level =
     (let tid = or_empty task_id in
      if tid = [] then io_ret cache_until
      else case client of
        None \<Rightarrow> io_ret cache_until
      | Some R \<Rightarrow>
          io_try
            (io_bind (get_task_meta client emit tid) (\<lambda>task_meta.
             io_bind (r_incr R (task_log_seq_key tid)) (\<lambda>sq.
             io_bind (r_incr R GLOBAL_LOG_SEQ_KEY) (\<lambda>global_sq.
             let serialized = RJson (PDict (log_entry tid sq global_sq (dget task_meta ''tenant_id'') device_name
                   (sanitize_operational_message message) (log_level level) (ck_hms ck) (ck_now ck)))
             in
             io_seq (r_rpush R (task_log_key tid) [serialized])
            (io_seq (r_ltrim R (task_log_key tid) (- task_log_max cfg) (- 1))
            (io_seq (r_expire R (task_log_key tid) (ttl_seconds cfg))
            (io_seq (r_expire R (task_log_seq_key tid) (ttl_seconds cfg))
            (io_seq (r_rpush R GLOBAL_LOG_KEY [serialized])
            (io_bind (io_try (io_bind (maybe_prune_global_logs_by_age fuel cfg R (ck_now ck) (ck_mono ck) interval cache_until)
                         (\<lambda>(_, cache'). io_ret cache'))
                       (io_seq (tell emit (LogLine ''Falha ao podar log global realtime'')) (io_ret cache_until))) (\<lambda>cache'.
             io_try
              (io_seq (r_ltrim R GLOBAL_LOG_KEY (- global_log_max cfg) (- 1))
              (io_seq (r_expire R GLOBAL_LOG_KEY (ttl_seconds cfg))
              (io_seq (r_expire R GLOBAL_LOG_SEQ_KEY (ttl_seconds cfg))
               (io_ret cache'))))
              (io_seq (append_failed emit tid) (io_ret cache'))))))))))))
            (io_seq (append_failed emit tid) (io_ret cache_until)))"

section \<open>Scanning for recent entries\<close>

text \<open>One chunk, newest entry first: the entries found so far (newest first), the largest sequence number
  seen, and whether the boundary \<open>after_seq\<close> was reached; \<^const>\<open>None\<close> is a sequence number that
  \<open>int()\<close> rejects.\<close>

fun scan_chunk ::
  "string \<Rightarrow> int \<Rightarrow> int \<Rightarrow> string \<Rightarrow> rval list \<Rightarrow> pydict list \<Rightarrow> int \<Rightarrow> (pydict list \<times> int \<times> bool) option" where
  "scan_chunk seq_field after lim tenant [] acc last_seq = Some (acc, last_seq, False)"
| "scan_chunk seq_field after lim tenant (raw # raws) acc last_seq =
     (case json_loads raw of
        Some (PDict item) \<Rightarrow>
          (case val_int (if truthy (dget item seq_field) then dget item seq_field else PInt 0) of
             None \<Rightarrow> None
           | Some sq \<Rightarrow>
               if sq \<le> after then Some (acc, last_seq, True)
               else if tenant \<noteq> [] \<and> str_or_empty (dget item ''tenant_id'') \<noteq> tenant
               then scan_chunk seq_field after lim tenant raws acc last_seq
               else (let acc' = acc @ [item]; last' = max last_seq sq
                     in if int (length acc') \<ge> lim then Some (acc', last', False)
                        else scan_chunk seq_field after lim tenant raws acc' last'))
      | _ \<Rightarrow> scan_chunk seq_field after lim tenant raws acc last_seq)"

definition scan_result :: "int \<Rightarrow> pydict list \<Rightarrow> int \<Rightarrow> pydict list \<times> int" where
  "scan_result lim acc last_seq = (rev (drop (length acc - nat lim) acc), last_seq)"

function scan_loop ::
  "'s redis \<Rightarrow> (tele \<Rightarrow> 's \<Rightarrow> 's) \<Rightarrow> string \<Rightarrow> string \<Rightarrow> int \<Rightarrow> int \<Rightarrow> string \<Rightarrow>
   int \<Rightarrow> pydict list \<Rightarrow> int \<Rightarrow> bool \<Rightarrow> ('s, pydict list \<times> int) io" where
  "scan_loop R emit key seq_field after lim tenant end_ix acc last_seq boundary =
     (if end_ix \<ge> 0 \<and> int (length acc) < lim \<and> \<not> boundary then
        (let start = max 0 (end_ix - max (lim * 4) 500 + 1)
         in io_bind (io_attempt (r_lrange R key start end_ix)) (\<lambda>got.
              case got of
                None \<Rightarrow> io_seq (tell emit (LogLine ''Falha ao ler logs'')) (io_ret ([], after))
              | Some raw_entries \<Rightarrow>
                  if raw_entries = [] then io_ret (scan_result lim acc last_seq)
                  else case scan_chunk seq_field after lim tenant (rev raw_entries) acc last_seq of
                         None \<Rightarrow> io_raise
                       | Some (acc', last', boundary') \<Rightarrow>
                           if start = 0 then io_ret (scan_result lim acc' last')
                           else scan_loop R emit key seq_field after lim tenant (start - 1) acc' last' boundary'))
      else io_ret (scan_result lim acc last_seq))"
  by pat_completeness auto
termination
  by (relation "measure (\<lambda>(_, _, _, _, _, _, _, end_ix, _). nat (end_ix + 1))") auto

declare scan_loop.simps [simp del]

definition scan_recent_entries ::
  "'s redis \<Rightarrow> (tele \<Rightarrow> 's \<Rightarrow> 's) \<Rightarrow> string \<Rightarrow> string \<Rightarrow> string \<Rightarrow> int \<Rightarrow> int \<Rightarrow> string \<Rightarrow>
   ('s, pydict list \<times> int) io" where
  "scan_recent_entries R emit key seq_field seq_key after lim tenant =
     io_bind (if seq_key = [] then io_ret 0
              else io_try (io_bind (r_get R seq_key) (\<lambda>latest_raw.
                     if \<not> rv_truthy latest_raw then io_ret 0
                     else case rv_int (the latest_raw) of None \<Rightarrow> io_raise | Some n \<Rightarrow> io_ret n)) (io_ret 0)) (\<lambda>latest_seq.
     if seq_key \<noteq> [] \<and> latest_seq > 0 \<and> after \<ge> latest_seq then io_ret ([], latest_seq)
     else io_bind (io_attempt (r_llen R key)) (\<lambda>got.
       case got of
         None \<Rightarrow> io_seq (tell emit (LogLine ''Falha ao contar logs'')) (io_ret ([], after))
       | Some n \<Rightarrow>
           if n \<le> 0 then io_ret ([], after)
           else scan_loop R emit key seq_field after lim tenant (n - 1) [] after False))"

definition get_task_logs ::
  "'s redis option \<Rightarrow> (tele \<Rightarrow> 's \<Rightarrow> 's) \<Rightarrow> string \<Rightarrow> int \<Rightarrow> int \<Rightarrow> ('s, pydict list \<times> int) io" where
  "get_task_logs client emit task_id after lim =
     (case client of
        None \<Rightarrow> io_ret ([], after)
      | Some R \<Rightarrow>
          if task_id = [] then io_ret ([], after)
          else scan_recent_entries R emit (task_log_key task_id) ''seq'' (task_log_seq_key task_id) after lim [])"

definition get_global_logs ::
  "'s redis option \<Rightarrow> (tele \<Rightarrow> 's \<Rightarrow> 's) \<Rightarrow> int \<Rightarrow> int \<Rightarrow> string option \<Rightarrow> ('s, pydict list \<times> int) io" where
  "get_global_logs client emit after lim tenant_id =
     (case client of
        None \<Rightarrow> io_ret ([], after)
      | Some R \<Rightarrow>
          scan_recent_entries R emit GLOBAL_LOG_KEY ''global_seq'' GLOBAL_LOG_SEQ_KEY after lim (or_empty tenant_id))"

section \<open>On a server, the component does what it does on the store\<close>

lemma io_sim_pyval [sim]:
  assumes "io_sim view a a'" "\<And>b. io_sim view (f b) (f' b)" "\<And>i. io_sim view (g i) (g' i)"
    "\<And>s. io_sim view (h s) (h' s)" "\<And>l. io_sim view (p l) (p' l)" "\<And>d. io_sim view (q d) (q' d)"
  shows "io_sim view (case v of PNone \<Rightarrow> a | PBool b \<Rightarrow> f b | PInt i \<Rightarrow> g i | PStr s \<Rightarrow> h s | PList l \<Rightarrow> p l | PDict d \<Rightarrow> q d)
    (case v of PNone \<Rightarrow> a' | PBool b \<Rightarrow> f' b | PInt i \<Rightarrow> g' i | PStr s \<Rightarrow> h' s | PList l \<Rightarrow> p' l | PDict d \<Rightarrow> q' d)"
  using assms by (cases v) auto

lemma io_sim_age [sim]:
  assumes "io_sim view a a'" "io_sim view b b'" "io_sim view c c'" "io_sim view d d'" "io_sim view e e'"
  shows "io_sim view (case v of Unreadable \<Rightarrow> a | NoTimestamp \<Rightarrow> b | Fresh \<Rightarrow> c | Stale \<Rightarrow> d | Raises \<Rightarrow> e)
    (case v of Unreadable \<Rightarrow> a' | NoTimestamp \<Rightarrow> b' | Fresh \<Rightarrow> c' | Stale \<Rightarrow> d' | Raises \<Rightarrow> e')"
  using assms by (cases v) auto

context worker
begin

lemma get_meta_sim [sim]: "io_sim view (get_task_meta (Some R) emit t) (get_task_meta (Some mem_redis) no_emit t)"
  unfolding get_task_meta_def by (auto simp del: io_run_simps tell_no_emit intro!: sim)

lemma release_sim [sim]: "io_sim view (release_tenant_bulk_lock (Some R) emit tn t)
    (release_tenant_bulk_lock (Some mem_redis) no_emit tn t)"
  unfolding release_tenant_bulk_lock_def by (auto simp del: io_run_simps tell_no_emit intro!: sim)

lemma acquire_sim [sim]: "io_sim view (acquire_tenant_bulk_lock cfg (Some R) emit tn t)
    (acquire_tenant_bulk_lock cfg (Some mem_redis) no_emit tn t)"
  unfolding acquire_tenant_bulk_lock_def Let_def by (auto simp del: io_run_simps tell_no_emit intro!: sim)

lemma write_meta_sim [sim]: "io_sim view (write_task_meta cfg (Some R) emit t d)
    (write_task_meta cfg (Some mem_redis) no_emit t d)"
  unfolding write_task_meta_def Let_def by (auto simp del: io_run_simps tell_no_emit intro!: sim)

lemma update_meta_sim [sim]: "io_sim view (update_task_meta cfg (Some R) emit now t d)
    (update_task_meta cfg (Some mem_redis) no_emit now t d)"
  unfolding update_task_meta_def Let_def by (auto simp del: io_run_simps tell_no_emit intro!: sim)

lemma prune_loop_sim [sim]: "io_sim view (prune_loop fuel R c n) (prune_loop fuel mem_redis c n)"
proof (induction fuel arbitrary: n)
  case (Suc fuel)
  show ?case unfolding prune_loop.simps by (auto simp del: io_run_simps tell_no_emit intro!: sim Suc.IH)
qed (auto simp del: io_run_simps intro!: sim)

lemma append_log_sim [sim]: "io_sim view (append_task_log fuel cfg (Some R) emit ck iv cu t d m l)
    (append_task_log fuel cfg (Some mem_redis) no_emit ck iv cu t d m l)"
  unfolding append_task_log_def append_failed_def maybe_prune_global_logs_by_age_def prune_global_logs_by_age_def Let_def
  by (auto simp del: io_run_simps tell_no_emit intro!: sim)

lemma prune_global_sim [sim]: "io_sim view (prune_global_logs cfg (Some R) now d dry)
    (prune_global_logs cfg (Some mem_redis) now d dry)"
  unfolding prune_global_logs_def rewrite_global_log_def
  by (auto simp del: io_run_simps tell_no_emit intro!: sim)

lemma clear_tenant_sim [sim]: "io_sim view (clear_tenant_global_logs cfg (Some R) emit tn)
    (clear_tenant_global_logs cfg (Some mem_redis) no_emit tn)"
  unfolding clear_tenant_global_logs_def rewrite_global_log_def
  by (auto simp del: io_run_simps tell_no_emit intro!: sim)

lemma scan_loop_sim [sim]: "io_sim view (scan_loop R emit k f a lim tn e acc ls b)
    (scan_loop mem_redis no_emit k f a lim tn e acc ls b)"
proof (induction "nat (e + 1)" arbitrary: e acc ls b rule: less_induct)
  case less
  define start where "start = max 0 (e - max (lim * 4) 500 + 1)"
  have IH: "io_sim view (scan_loop R emit k f a lim tn (start - 1) acc' ls' b')
      (scan_loop mem_redis no_emit k f a lim tn (start - 1) acc' ls' b')" if "0 \<le> e" for acc' ls' b'
    by (rule less) (use that in \<open>auto simp: start_def\<close>)
  show ?case
    unfolding scan_loop.simps [of _ _ k f a lim tn e] Let_def start_def [symmetric]
    by (auto simp del: io_run_simps tell_no_emit intro!: sim IH)
qed

lemma scan_recent_sim [sim]: "io_sim view (scan_recent_entries R emit k f sk a lim tn)
    (scan_recent_entries mem_redis no_emit k f sk a lim tn)"
  unfolding scan_recent_entries_def by (auto simp del: io_run_simps tell_no_emit intro!: sim)

lemma get_logs_sim [sim]: "io_sim view (get_task_logs (Some R) emit t a lim) (get_task_logs (Some mem_redis) no_emit t a lim)"
    "io_sim view (get_global_logs (Some R) emit a lim tn) (get_global_logs (Some mem_redis) no_emit a lim tn)"
  unfolding get_task_logs_def get_global_logs_def by (auto simp del: io_run_simps tell_no_emit intro!: sim)

end

lemma get_meta_total [total_io]: "io_total (get_task_meta client emit t)"
  unfolding get_task_meta_def by (auto intro!: total_io split: option.split)

lemma release_total [total_io]: "io_total (release_tenant_bulk_lock client emit tn t)"
  unfolding release_tenant_bulk_lock_def by (auto intro!: total_io split: option.split)

lemma acquire_total [total_io]: "io_total (acquire_tenant_bulk_lock cfg client emit tn t)"
  unfolding acquire_tenant_bulk_lock_def Let_def by (auto intro!: total_io split: option.split)

lemma write_meta_total [total_io]: "io_total (write_task_meta cfg client emit t d)"
  unfolding write_task_meta_def by (auto intro!: total_io split: option.split)

lemma update_meta_total [total_io]: "io_total (update_task_meta cfg client emit now t d)"
  unfolding update_task_meta_def Let_def by (auto intro!: total_io)

lemma append_log_total [total_io]: "io_total (append_task_log fuel cfg client emit ck iv cu t d m l)"
  unfolding append_task_log_def append_failed_def Let_def by (auto intro!: total_io split: option.split)

section \<open>Lemmas on the scan\<close>

definition entry_dict :: "rval \<Rightarrow> pydict option" where
  "entry_dict raw = (case json_loads raw of Some (PDict d) \<Rightarrow> Some d | _ \<Rightarrow> None)"

lemma scan_chunk_Cons:
  "scan_chunk fd after lim tn (raw # raws) acc ls =
     (case entry_dict raw of
        None \<Rightarrow> scan_chunk fd after lim tn raws acc ls
      | Some d \<Rightarrow>
          (case val_int (if truthy (dget d fd) then dget d fd else PInt 0) of
             None \<Rightarrow> None
           | Some sq \<Rightarrow>
               if sq \<le> after then Some (acc, ls, True)
               else if tn \<noteq> [] \<and> str_or_empty (dget d ''tenant_id'') \<noteq> tn then scan_chunk fd after lim tn raws acc ls
               else if lim \<le> int (length (acc @ [d])) then Some (acc @ [d], max ls sq, False)
               else scan_chunk fd after lim tn raws (acc @ [d]) (max ls sq)))"
  by (simp add: entry_dict_def Let_def split: option.split pyval.split)

lemma scan_chunk_app:
  "int (length acc) < lim \<Longrightarrow> scan_chunk fd after lim tn (xs @ ys) acc ls =
     (case scan_chunk fd after lim tn xs acc ls of
        None \<Rightarrow> None
      | Some (acc', ls', b) \<Rightarrow> if b \<or> lim \<le> int (length acc') then Some (acc', ls', b)
                               else scan_chunk fd after lim tn ys acc' ls')"
proof (induction xs arbitrary: acc ls)
  case (Cons raw raws)
  show ?case
    using Cons.IH [of acc ls] Cons.IH [of "acc @ [_]"] Cons.prems
    unfolding append_Cons scan_chunk_Cons
    by (auto split: option.split)
qed simp

definition finish_scan :: "int \<Rightarrow> (pydict list \<times> int \<times> bool) option \<Rightarrow> (pydict list \<times> int) option" where
  "finish_scan lim r = map_option (\<lambda>(acc, ls, b). scan_result lim acc ls) r"

text \<open>Reading in chunks is reading the list backwards in one go.\<close>

lemma scan_loop_whole:
  assumes "st_list key st = Some (L, ex)" "-1 \<le> e" "e < int (length L)" "int (length acc) < lim"
  shows "scan_loop mem_redis no_emit key fd after lim tn e acc ls False st =
    (finish_scan lim (scan_chunk fd after lim tn (rev (take (nat (e + 1)) L)) acc ls), st)"
  using assms(2-4)
proof (induction "nat (e + 1)" arbitrary: e acc ls rule: less_induct)
  case less
  show ?case
  proof (cases "e = -1")
    case True
    then show ?thesis by (simp add: scan_loop.simps [of _ _ _ _ _ _ _ "-1"] finish_scan_def io_ret_def)
  next
    case False
    with less.prems have e: "0 \<le> e" by simp
    define start where "start = max 0 (e - max (lim * 4) 500 + 1)"
    define chunk where "chunk = take (nat (e - start + 1)) (drop (nat start) L)"
    have st: "0 \<le> start" "start \<le> e" using e by (auto simp: start_def)
    have range: "st_lrange key start e st = (Some chunk, st)"
      using assms(1) st e by (simp add: st_lrange_def chunk_def list_range_def list_index_def)
    have ne: "chunk \<noteq> []" using st e less.prems(2) by (auto simp: chunk_def)
    have split: "take (nat (e + 1)) L = take (nat start) L @ chunk"
      using st e by (simp add: chunk_def take_add [symmetric] nat_add_distrib [symmetric])
    let ?r = "scan_chunk fd after lim tn (rev chunk) acc ls"
    have whole: "scan_chunk fd after lim tn (rev (take (nat (e + 1)) L)) acc ls =
       (case ?r of None \<Rightarrow> None
        | Some (acc', ls', b) \<Rightarrow> if b \<or> lim \<le> int (length acc') then Some (acc', ls', b)
                               else scan_chunk fd after lim tn (rev (take (nat start) L)) acc' ls')"
      unfolding split rev_append by (rule scan_chunk_app [OF less.prems(3)])
    have step: "scan_loop mem_redis no_emit key fd after lim tn e acc ls False st =
      (case ?r of None \<Rightarrow> (None, st)
       | Some (acc', ls', b) \<Rightarrow> if start = 0 then (Some (scan_result lim acc' ls'), st)
                              else scan_loop mem_redis no_emit key fd after lim tn (start - 1) acc' ls' b st)"
      using e less.prems(3) range ne
      by (subst scan_loop.simps) (simp add: Let_def start_def [symmetric] io_bind_def io_attempt_def io_ret_def io_raise_def
          split: option.split prod.split)
    show ?thesis
    proof (cases ?r)
      case None
      with step whole show ?thesis by (simp add: finish_scan_def)
    next
      case (Some x)
      obtain acc' ls' b where x: "x = (acc', ls', b)" by (cases x)
      show ?thesis
      proof (cases "b \<or> lim \<le> int (length acc')")
        case True
        then have stop: "scan_loop mem_redis no_emit key fd after lim tn (start - 1) acc' ls' b st
            = (Some (scan_result lim acc' ls'), st)"
          by (subst scan_loop.simps) (auto simp: io_ret_def)
        with True step whole Some x show ?thesis by (simp add: finish_scan_def)
      next
        case False
        have "scan_loop mem_redis no_emit key fd after lim tn (start - 1) acc' ls' False st =
          (finish_scan lim (scan_chunk fd after lim tn (rev (take (nat (start - 1 + 1)) L)) acc' ls'), st)"
          by (rule less.hyps) (use st e False less.prems in auto)
        moreover have "start = 0 \<Longrightarrow> scan_chunk fd after lim tn (rev (take (nat start) L)) acc' ls' = Some (acc', ls', False)"
          by simp
        ultimately show ?thesis using False step whole Some x by (auto simp: finish_scan_def)
      qed
    qed
  qed
qed

text \<open>Entries in the order of their sequence numbers, and the ones a scan asks for.\<close>

definition entry_seq :: "string \<Rightarrow> pydict \<Rightarrow> int" where
  "entry_seq fd it = (case dget it fd of PInt i \<Rightarrow> i | _ \<Rightarrow> 0)"

definition has_seq :: "string \<Rightarrow> pydict \<Rightarrow> bool" where
  "has_seq fd it \<longleftrightarrow> (\<exists>i. dget it fd = PInt i)"

definition wanted :: "string \<Rightarrow> int \<Rightarrow> string \<Rightarrow> pydict \<Rightarrow> bool" where
  "wanted fd after tn it \<longleftrightarrow> after < entry_seq fd it \<and> (tn = [] \<or> str_or_empty (dget it ''tenant_id'') = tn)"

definition as_entries :: "pydict list \<Rightarrow> rval list" where
  "as_entries its = map (\<lambda>it. RJson (PDict it)) its"

definition last_n :: "nat \<Rightarrow> 'a list \<Rightarrow> 'a list" where
  "last_n n xs = drop (length xs - n) xs"

lemma seq_of_has: "has_seq fd it \<Longrightarrow>
  val_int (if truthy (dget it fd) then dget it fd else PInt 0) = Some (entry_seq fd it)"
  by (auto simp: has_seq_def entry_seq_def val_int_def)

lemma scan_chunk_desc:
  assumes "list_all (has_seq fd) rs" "sorted_wrt (\<lambda>a b. entry_seq fd a > entry_seq fd b) rs" "int (length acc) < lim"
  shows "\<exists>b. scan_chunk fd after lim tn (as_entries rs) acc ls =
    Some (acc @ take (nat lim - length acc) (filter (wanted fd after tn) rs),
          fold max (map (entry_seq fd) (take (nat lim - length acc) (filter (wanted fd after tn) rs))) ls, b)"
  using assms
proof (induction rs arbitrary: acc ls)
  case Nil
  then show ?case by (intro exI [of _ False]) (simp add: as_entries_def)
next
  case (Cons it rs)
  define sq where "sq = entry_seq fd it"
  have v: "val_int (if truthy (dget it fd) then dget it fd else PInt 0) = Some sq"
    using Cons.prems(1) seq_of_has by (simp add: sq_def)
  have step: "scan_chunk fd after lim tn (as_entries (it # rs)) acc ls =
     (if sq \<le> after then Some (acc, ls, True)
      else if tn \<noteq> [] \<and> str_or_empty (dget it ''tenant_id'') \<noteq> tn then scan_chunk fd after lim tn (as_entries rs) acc ls
      else if lim \<le> int (length (acc @ [it])) then Some (acc @ [it], max ls sq, False)
      else scan_chunk fd after lim tn (as_entries rs) (acc @ [it]) (max ls sq))"
    using v by (simp add: as_entries_def json_loads_def Let_def)
  show ?case
  proof (cases "sq \<le> after")
    case True
    have "filter (wanted fd after tn) (it # rs) = []"
      using Cons.prems(2) True by (auto simp: filter_empty_conv wanted_def sq_def)
    with True step show ?thesis by (intro exI [of _ True]) (simp del: filter.simps)
  next
    case gt: False
    show ?thesis
    proof (cases "tn \<noteq> [] \<and> str_or_empty (dget it ''tenant_id'') \<noteq> tn")
      case True
      then have "\<not> wanted fd after tn it" by (auto simp: wanted_def)
      with Cons True gt step show ?thesis by simp
    next
      case False
      then have w: "wanted fd after tn it" using gt by (auto simp: wanted_def sq_def)
      show ?thesis
      proof (cases "lim \<le> int (length (acc @ [it]))")
        case True
        then have "nat lim - length acc = 1" using Cons.prems(3) by simp
        moreover have "scan_chunk fd after lim tn (as_entries (it # rs)) acc ls = Some (acc @ [it], max ls sq, False)"
          unfolding step using True False gt by auto
        ultimately show ?thesis using w by (intro exI [of _ False]) (simp add: sq_def max.commute)
      next
        case lt: False
        obtain b where "scan_chunk fd after lim tn (as_entries rs) (acc @ [it]) (max ls sq) =
          Some ((acc @ [it]) @ take (nat lim - length (acc @ [it])) (filter (wanted fd after tn) rs),
            fold max (map (entry_seq fd) (take (nat lim - length (acc @ [it])) (filter (wanted fd after tn) rs))) (max ls sq), b)"
          using Cons.IH [of "acc @ [it]" "max ls sq"] Cons.prems lt by auto
        moreover have "nat lim - length acc = Suc (nat lim - length (acc @ [it]))" using lt Cons.prems(3) by simp
        moreover have "scan_chunk fd after lim tn (as_entries (it # rs)) acc ls
            = scan_chunk fd after lim tn (as_entries rs) (acc @ [it]) (max ls sq)"
          unfolding step using lt False gt by auto
        ultimately show ?thesis using w by (intro exI [of _ b]) (simp add: sq_def max.commute)
      qed
    qed
  qed
qed

lemma rev_last_n: "rev (take n (rev xs)) = last_n n xs"
  by (simp add: last_n_def rev_take)

lemma fold_max_sorted:
  assumes "sorted_wrt (\<lambda>a b. a > b) xs" "\<forall>x \<in> set xs. (a :: int) < x"
  shows "fold max xs a = (case xs of [] \<Rightarrow> a | x # _ \<Rightarrow> x)"
proof (cases xs)
  case (Cons x ys)
  have "fold max ys x = x" using assms(1) Cons by (induction ys arbitrary: xs) (auto simp: max_def)
  with Cons assms show ?thesis by simp
qed simp

lemma sorted_wrt_take: "sorted_wrt P xs \<Longrightarrow> sorted_wrt P (take n xs)"
  by (metis append_take_drop_id sorted_wrt_append)

lemma scan_loop_result:
  assumes l: "st_list key st = Some (as_entries its, ex)" "its \<noteq> []" and lim: "1 \<le> lim"
    and ok: "list_all (has_seq fd) its" "sorted_wrt (\<lambda>a b. entry_seq fd a < entry_seq fd b) its"
  shows "scan_loop mem_redis no_emit key fd after lim tn (int (length its) - 1) [] after False st =
    (let found = last_n (nat lim) (filter (wanted fd after tn) its)
     in (Some (found, if found = [] then after else entry_seq fd (last found)), st))"
proof -
  define rs where "rs = rev its"
  define f where "f = take (nat lim) (filter (wanted fd after tn) rs)"
  have len: "length (as_entries its) = length its" "rev (as_entries its) = as_entries rs"
    by (simp_all add: as_entries_def rs_def rev_map)
  have desc: "sorted_wrt (\<lambda>a b. entry_seq fd a > entry_seq fd b) rs" "list_all (has_seq fd) rs"
    using ok by (simp_all add: rs_def sorted_wrt_rev list_all_iff)
  obtain b where ch: "scan_chunk fd after lim tn (as_entries rs) [] after = Some (f, fold max (map (entry_seq fd) f) after, b)"
    using scan_chunk_desc [OF desc(2,1), of "[]" lim after tn after] lim by (auto simp: f_def)
  have found: "last_n (nat lim) (filter (wanted fd after tn) its) = rev f"
    by (simp add: f_def rs_def rev_filter [symmetric] rev_last_n)
  have "sorted_wrt (\<lambda>a b. a > b) (map (entry_seq fd) f)" "\<forall>x \<in> set (map (entry_seq fd) f). after < x"
    using desc(1) by (auto simp: f_def sorted_wrt_map wanted_def intro!: sorted_wrt_take sorted_wrt_filter dest!: in_set_takeD)
  then have fold: "fold max (map (entry_seq fd) f) after = (if f = [] then after else entry_seq fd (hd f))"
    by (subst fold_max_sorted) (auto split: list.split)
  have short: "length f \<le> nat lim" by (simp add: f_def)
  have "scan_loop mem_redis no_emit key fd after lim tn (int (length its) - 1) [] after False st =
     (finish_scan lim (Some (f, fold max (map (entry_seq fd) f) after, b)), st)"
    using scan_loop_whole [OF l(1), of "int (length its) - 1" "[]" lim fd after tn after] lim ch len by simp
  then show ?thesis
    using short by (simp add: finish_scan_def scan_result_def fold found last_rev Let_def)
qed

section \<open>The invariant of the global log\<close>

definition ordered :: "pydict list \<Rightarrow> bool" where
  "ordered its \<longleftrightarrow> list_all (has_seq ''global_seq'') its \<and>
     sorted_wrt (\<lambda>a b. entry_seq ''global_seq'' a < entry_seq ''global_seq'' b) its"

definition outlives :: "int option \<Rightarrow> int option \<Rightarrow> bool" where
  "outlives e' e \<longleftrightarrow> e' = None \<or> (\<exists>t t'. e = Some t \<and> e' = Some t' \<and> t \<le> t')"

definition counter_is :: "int \<Rightarrow> int option \<Rightarrow> store \<Rightarrow> bool" where
  "counter_is n e st \<longleftrightarrow> st_find GLOBAL_LOG_SEQ_KEY st = Some (DStr (RText (show_int n)), e)"

definition log_is :: "pydict list \<Rightarrow> int option \<Rightarrow> store \<Rightarrow> bool" where
  "log_is its e st \<longleftrightarrow> st_list GLOBAL_LOG_KEY st = Some (as_entries its, e) \<and> ordered its"

text \<open>The entries are in the order of their global numbers, the counter is at least the last of them, and
  it does not expire before they do.\<close>

definition log_ok :: "store \<Rightarrow> bool" where
  "log_ok st \<longleftrightarrow> (\<exists>its e. log_is its e st \<and>
     (its = [] \<and> st_find GLOBAL_LOG_SEQ_KEY st = None \<or>
      (\<exists>n e'. counter_is n e' st \<and> 0 \<le> n \<and> (\<forall>it \<in> set its. entry_seq ''global_seq'' it \<le> n) \<and> (its \<noteq> [] \<longrightarrow> outlives e' e))))"

text \<open>While a call appends: the counter has been drawn, then the entry is in the list.\<close>

definition log_drawn :: "int \<Rightarrow> store \<Rightarrow> bool" where
  "log_drawn g st \<longleftrightarrow> (\<exists>its e e'. log_is its e st \<and> counter_is g e' st \<and> 0 \<le> g \<and>
     (\<forall>it \<in> set its. entry_seq ''global_seq'' it < g) \<and> (its \<noteq> [] \<longrightarrow> outlives e' e))"

definition log_open :: "int \<Rightarrow> store \<Rightarrow> bool" where
  "log_open g st \<longleftrightarrow> (\<exists>its e e'. log_is its e st \<and> counter_is g e' st \<and> 0 \<le> g \<and>
     (\<forall>it \<in> set its. entry_seq ''global_seq'' it \<le> g))"

lemma global_keys_distinct [simp]:
  "task_log_key t \<noteq> GLOBAL_LOG_KEY" "task_log_seq_key t \<noteq> GLOBAL_LOG_KEY" "GLOBAL_LOG_KEY \<noteq> task_log_key t"
  "GLOBAL_LOG_KEY \<noteq> task_log_seq_key t" "task_log_key t \<noteq> GLOBAL_LOG_SEQ_KEY" "task_log_seq_key t \<noteq> GLOBAL_LOG_SEQ_KEY"
  "GLOBAL_LOG_SEQ_KEY \<noteq> task_log_key t" "GLOBAL_LOG_SEQ_KEY \<noteq> task_log_seq_key t"
  "GLOBAL_LOG_KEY \<noteq> GLOBAL_LOG_SEQ_KEY" "GLOBAL_LOG_SEQ_KEY \<noteq> GLOBAL_LOG_KEY"
  by (simp_all add: task_log_key_def task_log_seq_key_def TASK_LOG_PREFIX_def TASK_LOG_SEQ_PREFIX_def
      GLOBAL_LOG_KEY_def GLOBAL_LOG_SEQ_KEY_def)

text \<open>What a command on another key leaves alone.\<close>

definition same_log :: "store \<Rightarrow> store \<Rightarrow> bool" where
  "same_log st st' \<longleftrightarrow> st_now st' = st_now st \<and> st_find GLOBAL_LOG_KEY st' = st_find GLOBAL_LOG_KEY st \<and>
     st_find GLOBAL_LOG_SEQ_KEY st' = st_find GLOBAL_LOG_SEQ_KEY st"

lemma same_log_cong:
  assumes "same_log st st'"
  shows "log_ok st' = log_ok st" "log_drawn g st' = log_drawn g st" "log_open g st' = log_open g st"
  using assms by (auto simp: same_log_def log_ok_def log_drawn_def log_open_def log_is_def counter_is_def st_list_def)

lemma frame_spec:
  assumes "\<And>st r st'. m st = (r, st') \<Longrightarrow> same_log st st'"
  shows "io_spec log_ok m (\<lambda>_. log_ok) log_ok" "io_spec (log_drawn g) m (\<lambda>_. log_drawn g) (log_drawn g)"
  using same_log_cong [OF assms] by (auto simp: io_spec_def split: option.splits prod.splits)

lemma other_key_same:
  "k \<noteq> GLOBAL_LOG_KEY \<Longrightarrow> k \<noteq> GLOBAL_LOG_SEQ_KEY \<Longrightarrow> st_incr k st = (r1, st1) \<Longrightarrow> same_log st st1"
  "k \<noteq> GLOBAL_LOG_KEY \<Longrightarrow> k \<noteq> GLOBAL_LOG_SEQ_KEY \<Longrightarrow> st_rpush k vs st = (r2, st2) \<Longrightarrow> same_log st st2"
  "k \<noteq> GLOBAL_LOG_KEY \<Longrightarrow> k \<noteq> GLOBAL_LOG_SEQ_KEY \<Longrightarrow> st_ltrim k i j st = (r2, st2) \<Longrightarrow> same_log st st2"
  "k \<noteq> GLOBAL_LOG_KEY \<Longrightarrow> k \<noteq> GLOBAL_LOG_SEQ_KEY \<Longrightarrow> st_expire k n st = (r2, st2) \<Longrightarrow> same_log st st2"
  by (auto simp: same_log_def st_incr_def st_rpush_def st_ltrim_def st_expire_def
      split: option.splits prod.splits rdata.splits if_splits)

lemma get_meta_store: "\<exists>d. get_task_meta (Some mem_redis) no_emit t st = (Some d, st)"
  by (auto simp: get_task_meta_def io_try_def io_bind_def io_seq_def io_ret_def io_raise_def st_get_def
      split: option.splits rdata.splits pyval.splits)

lemma get_meta_spec: "io_spec P (get_task_meta (Some mem_redis) no_emit t) (\<lambda>_. P) E"
proof (rule io_specI)
  fix st assume "P st"
  moreover obtain d where "get_task_meta (Some mem_redis) no_emit t st = (Some d, st)" using get_meta_store by blast
  ultimately show "case get_task_meta (Some mem_redis) no_emit t st of (None, s') \<Rightarrow> E s' | (Some a, s') \<Rightarrow> P s'"
    by simp
qed

lemma log_drawn_ok: "log_drawn g st \<Longrightarrow> log_ok st"
proof -
  assume "log_drawn g st"
  then obtain its e e' where "log_is its e st" "counter_is g e' st" "0 \<le> g"
    "\<forall>it \<in> set its. entry_seq ''global_seq'' it < g" "its \<noteq> [] \<longrightarrow> outlives e' e" by (auto simp: log_drawn_def)
  then show ?thesis unfolding log_ok_def
    by (intro exI [of _ its] exI [of _ e] conjI disjI2 exI [of _ g] exI [of _ e']) (auto simp: less_imp_le)
qed

lemma incr_seq_spec: "io_spec log_ok (st_incr GLOBAL_LOG_SEQ_KEY) log_drawn log_ok"
proof (rule io_specI)
  fix st assume "log_ok st"
  then obtain its e where l: "log_is its e st"
    and c: "its = [] \<and> st_find GLOBAL_LOG_SEQ_KEY st = None \<or>
      (\<exists>n e'. counter_is n e' st \<and> 0 \<le> n \<and> (\<forall>it \<in> set its. entry_seq ''global_seq'' it \<le> n) \<and> (its \<noteq> [] \<longrightarrow> outlives e' e))"
    by (auto simp: log_ok_def)
  from c show "case st_incr GLOBAL_LOG_SEQ_KEY st of (None, s') \<Rightarrow> log_ok s' | (Some a, s') \<Rightarrow> log_drawn a s'"
  proof
    assume a: "its = [] \<and> st_find GLOBAL_LOG_SEQ_KEY st = None"
    then show ?thesis using l
      by (auto simp: st_incr_def log_drawn_def log_is_def counter_is_def st_list_def)
  next
    assume "\<exists>n e'. counter_is n e' st \<and> 0 \<le> n \<and> (\<forall>it \<in> set its. entry_seq ''global_seq'' it \<le> n) \<and> (its \<noteq> [] \<longrightarrow> outlives e' e)"
    then obtain n e' where n: "st_find GLOBAL_LOG_SEQ_KEY st = Some (DStr (RText (show_int n)), e')" "0 \<le> n"
      "\<forall>it \<in> set its. entry_seq ''global_seq'' it \<le> n" "its \<noteq> [] \<longrightarrow> outlives e' e"
      by (auto simp: counter_is_def)
    have run: "st_incr GLOBAL_LOG_SEQ_KEY st = (Some (n + 1), st_put GLOBAL_LOG_SEQ_KEY (DStr (RText (show_int (n + 1)))) e' st)"
      using n(1) by (simp add: st_incr_def rv_int_def py_int_show_int)
    have "log_drawn (n + 1) (st_put GLOBAL_LOG_SEQ_KEY (DStr (RText (show_int (n + 1)))) e' st)"
      unfolding log_drawn_def
      using l n st_find_live [OF n(1)] by (intro exI [of _ its] exI [of _ e] exI [of _ e'])
        (auto simp: log_is_def counter_is_def st_list_def)
    with run show ?thesis by simp
  qed
qed

lemma entry_of_append [simp]:
  "dget (log_entry t sq g tn dn m l ts now) ''global_seq'' = PInt g"
  by (simp add: log_entry_def)

lemma ordered_snoc:
  "ordered its \<Longrightarrow> dget it ''global_seq'' = PInt g \<Longrightarrow> \<forall>x \<in> set its. entry_seq ''global_seq'' x < g \<Longrightarrow> ordered (its @ [it])"
  by (auto simp: ordered_def sorted_wrt_append has_seq_def entry_seq_def)

lemma rpush_log_spec:
  "io_spec (log_drawn g) (st_rpush GLOBAL_LOG_KEY [RJson (PDict (log_entry t sq g tn dn m l ts now))])
     (\<lambda>_. log_open g) E"
proof (rule io_specI)
  fix st assume "log_drawn g st"
  then obtain its e e' where l: "log_is its e st" and c: "counter_is g e' st" "0 \<le> g"
    and lt: "\<forall>it \<in> set its. entry_seq ''global_seq'' it < g" by (auto simp: log_drawn_def)
  let ?it = "log_entry t sq g tn dn m l ts now"
  have e: "live e st" using l st_find_live by (auto simp: log_is_def st_list_def split: option.splits prod.splits rdata.splits)
  have "log_is (its @ [?it]) e (st_put_list GLOBAL_LOG_KEY (as_entries its @ [RJson (PDict ?it)]) e st)"
    using l ordered_snoc [OF _ entry_of_append lt] st_list_put_list [OF e] by (simp add: log_is_def as_entries_def)
  moreover have "entry_seq ''global_seq'' ?it = g" by (simp add: entry_seq_def)
  ultimately have "log_open g (st_put_list GLOBAL_LOG_KEY (as_entries its @ [RJson (PDict ?it)]) e st)"
    unfolding log_open_def using c lt
    by (intro exI [of _ "its @ [?it]"] exI [of _ e] exI [of _ e']) (auto simp: counter_is_def less_imp_le)
  then show "case st_rpush GLOBAL_LOG_KEY [RJson (PDict ?it)] st of (None, s') \<Rightarrow> E s' | (Some a, s') \<Rightarrow> log_open g s'"
    using l by (simp add: st_rpush_def log_is_def)
qed

text \<open>Taking entries off the front keeps the log open.\<close>

lemma ordered_drop: "ordered its \<Longrightarrow> ordered (drop n its)"
  by (auto simp: ordered_def list_all_iff sorted_wrt_drop dest: in_set_dropD)

lemma log_open_suffix:
  assumes "log_open g st" "st_list GLOBAL_LOG_KEY st = Some (l, e)"
  shows "log_open g (st_put_list GLOBAL_LOG_KEY (drop n l) e st)"
proof -
  obtain its e' where l: "log_is its e st" "l = as_entries its" and c: "counter_is g e' st" "0 \<le> g"
    and le: "\<forall>it \<in> set its. entry_seq ''global_seq'' it \<le> g"
    using assms by (auto simp: log_open_def log_is_def)
  have e: "live e st" using l(1) st_find_live by (auto simp: log_is_def st_list_def split: option.splits prod.splits rdata.splits)
  have "log_is (drop n its) (if drop n its = [] then None else e) (st_put_list GLOBAL_LOG_KEY (drop n l) e st)"
    using l ordered_drop st_list_put_list [OF e, of GLOBAL_LOG_KEY "drop n l"]
    by (auto simp: log_is_def as_entries_def drop_map)
  moreover have "\<forall>it \<in> set (drop n its). entry_seq ''global_seq'' it \<le> g" using le by (meson in_set_dropD)
  ultimately show ?thesis unfolding log_open_def using c by (auto simp: counter_is_def)
qed

lemma log_open_list: "log_open g st \<Longrightarrow> \<exists>l e. st_list GLOBAL_LOG_KEY st = Some (l, e)"
  by (auto simp: log_open_def log_is_def)

lemma lpop_log_spec: "io_spec (log_open g) (st_lpop GLOBAL_LOG_KEY) (\<lambda>_. log_open g) E"
proof (rule io_specI)
  fix st assume a: "log_open g st"
  from log_open_list [OF a] obtain l e where l: "st_list GLOBAL_LOG_KEY st = Some (l, e)" by blast
  then show "case st_lpop GLOBAL_LOG_KEY st of (None, s') \<Rightarrow> E s' | (Some a, s') \<Rightarrow> log_open g s'"
    using log_open_suffix [OF a l, of 1] by (simp add: st_lpop_def drop_Suc)
qed

lemma ltrim_log_spec:
  assumes "0 < n" shows "io_spec (log_open g) (st_ltrim GLOBAL_LOG_KEY (- n) (- 1)) (\<lambda>_. log_open g) E"
proof (rule io_specI)
  fix st assume a: "log_open g st"
  from log_open_list [OF a] obtain l e where l: "st_list GLOBAL_LOG_KEY st = Some (l, e)" by blast
  have "list_range (- n) (- 1) l = drop (nat (int (length l) - n)) l"
    using assms by (auto simp: list_range_def list_index_def Let_def max_def)
  then show "case st_ltrim GLOBAL_LOG_KEY (- n) (- 1) st of (None, s') \<Rightarrow> E s' | (Some a, s') \<Rightarrow> log_open g s'"
    using log_open_suffix [OF a l] l by (simp add: st_ltrim_def)
qed

lemma prune_loop_spec: "io_spec (log_open g) (prune_loop fuel mem_redis c n) (\<lambda>_. log_open g) (log_open g)"
proof (induction fuel arbitrary: n)
  case (Suc fuel)
  have h: "io_spec (log_open g) (st_head GLOBAL_LOG_KEY) (\<lambda>_. log_open g) (log_open g)"
    by (auto simp: io_spec_def st_head_def split: option.splits)
  show ?case
    unfolding prune_loop.simps mem_redis_simps
    by (rule spec_bind [OF h]) (auto intro!: triple Suc.IH lpop_log_spec split: age_verdict.split)
qed (auto intro: triple)

lemma expire_log_spec:
  assumes "0 < n"
  shows "io_spec (log_open g) (st_expire GLOBAL_LOG_KEY n)
    (\<lambda>_ st. log_open g st \<and> (\<exists>its e. log_is its e st \<and> (its \<noteq> [] \<longrightarrow> e = Some (st_now st + n * 1000)))) E"
proof (rule io_specI)
  fix st assume "log_open g st"
  then obtain its e e' where l: "log_is its e st" and c: "counter_is g e' st" "0 \<le> g"
    and le: "\<forall>it \<in> set its. entry_seq ''global_seq'' it \<le> g" by (auto simp: log_open_def)
  show "case st_expire GLOBAL_LOG_KEY n st of (None, s') \<Rightarrow> E s'
    | (Some a, st') \<Rightarrow> log_open g st' \<and> (\<exists>its e. log_is its e st' \<and> (its \<noteq> [] \<longrightarrow> e = Some (st_now st' + n * 1000)))"
  proof (cases "st_find GLOBAL_LOG_KEY st")
    case None
    with l have "its = []" by (auto simp: log_is_def st_list_def as_entries_def)
    with None l c show ?thesis by (auto simp: st_expire_def log_open_def)
  next
    case (Some d)
    then obtain e0 where d: "st_find GLOBAL_LOG_KEY st = Some (DList (as_entries its), e0)"
      using l by (auto simp: log_is_def st_list_def split: prod.splits rdata.splits)
    let ?st = "st_put GLOBAL_LOG_KEY (DList (as_entries its)) (Some (st_now st + n * 1000)) st"
    have li: "log_is its (Some (st_now ?st + n * 1000)) ?st"
      using l assms by (simp add: log_is_def st_list_def)
    moreover have "counter_is g e' ?st" using c by (simp add: counter_is_def)
    ultimately have "log_open g ?st" unfolding log_open_def using c le by blast
    with li have "log_open g ?st \<and> (\<exists>its e. log_is its e ?st \<and> (its \<noteq> [] \<longrightarrow> e = Some (st_now ?st + n * 1000)))" by blast
    then show ?thesis using d assms by (simp add: st_expire_def)
  qed
qed

lemma expire_seq_spec:
  assumes "0 < n"
  shows "io_spec (\<lambda>st. log_open g st \<and> (\<exists>its e. log_is its e st \<and> (its \<noteq> [] \<longrightarrow> e = Some (st_now st + n * 1000))))
    (st_expire GLOBAL_LOG_SEQ_KEY n) (\<lambda>_. log_ok) E"
proof (rule io_specI)
  fix st assume a: "log_open g st \<and> (\<exists>its e. log_is its e st \<and> (its \<noteq> [] \<longrightarrow> e = Some (st_now st + n * 1000)))"
  then obtain its e where l: "log_is its e st" "its \<noteq> [] \<longrightarrow> e = Some (st_now st + n * 1000)" by blast
  from a obtain its' e1 e' where o: "log_is its' e1 st" "counter_is g e' st" "0 \<le> g"
    "\<forall>it \<in> set its'. entry_seq ''global_seq'' it \<le> g" by (auto simp: log_open_def)
  have eq: "its' = its"
  proof -
    have "as_entries its' = as_entries its" using l(1) o(1) by (simp add: log_is_def)
    moreover have "inj (\<lambda>it. RJson (PDict it))" by (auto simp: inj_def)
    ultimately show ?thesis unfolding as_entries_def by (rule map_injective)
  qed
  let ?st = "st_put GLOBAL_LOG_SEQ_KEY (DStr (RText (show_int g))) (Some (st_now st + n * 1000)) st"
  have "log_is its e ?st" using l(1) by (simp add: log_is_def st_list_def)
  moreover have "counter_is g (Some (st_now st + n * 1000)) ?st" using assms by (simp add: counter_is_def)
  moreover have "its \<noteq> [] \<longrightarrow> outlives (Some (st_now st + n * 1000)) e" using l(2) by (simp add: outlives_def)
  ultimately have "log_ok ?st" unfolding log_ok_def using o(3,4) eq by blast
  then show "case st_expire GLOBAL_LOG_SEQ_KEY n st of (None, s') \<Rightarrow> E s' | (Some a, st') \<Rightarrow> log_ok st'"
    using o(2) assms by (simp add: st_expire_def counter_is_def)
qed

lemma append_spec:
  assumes "log_config_ok cfg"
  shows "io_spec log_ok (append_task_log fuel cfg (Some mem_redis) no_emit ck iv cu t d m l) (\<lambda>_. log_ok) log_ok"
proof -
  have pos: "0 < ttl_seconds cfg" "0 < global_log_max cfg" using assms by (auto simp: log_config_ok_def ttl_seconds_def)
  define tid where "tid = or_empty t"
  have frame: "io_spec log_ok (st_incr (task_log_seq_key tid)) (\<lambda>_. log_ok) log_ok"
    "io_spec (log_drawn g) (st_rpush (task_log_key tid) vs) (\<lambda>_. log_drawn g) (log_drawn g)"
    "io_spec (log_drawn g) (st_ltrim (task_log_key tid) i j) (\<lambda>_. log_drawn g) (log_drawn g)"
    "io_spec (log_drawn g) (st_expire (task_log_key tid) n) (\<lambda>_. log_drawn g) (log_drawn g)"
    "io_spec (log_drawn g) (st_expire (task_log_seq_key tid) n) (\<lambda>_. log_drawn g) (log_drawn g)" for g vs i j n
    by (rule frame_spec; erule other_key_same [rotated 2]; simp)+
  have drawn_E: "io_spec (log_drawn g) m0 Q (log_drawn g) \<Longrightarrow> io_spec (log_drawn g) m0 Q log_ok" for g m0 and Q :: "unit \<Rightarrow> store \<Rightarrow> bool"
    by (erule spec_conseq) (auto intro: log_drawn_ok)
  have prune: "io_spec (log_open g) (io_try (io_bind (maybe_prune_global_logs_by_age fuel cfg mem_redis now mono iv' cu')
      (\<lambda>(_, cache'). io_ret cache')) (io_ret cu')) (\<lambda>_. log_open g) E" for g now mono iv' cu' E
  proof -
    have "io_spec (log_open g) (maybe_prune_global_logs_by_age fuel cfg mem_redis now mono iv' cu') (\<lambda>_. log_open g) (log_open g)"
      unfolding maybe_prune_global_logs_by_age_def prune_global_logs_by_age_def
      by (rule spec_if, rule spec_ret, assumption, rule spec_bind [OF prune_loop_spec], rule spec_ret)
    then show ?thesis by (intro spec_try [where M = "log_open g"] spec_bind) (auto intro: triple split: prod.splits)
  qed
  have final: "io_spec (log_open g) (io_try (io_seq (st_ltrim GLOBAL_LOG_KEY (- global_log_max cfg) (- 1))
      (io_seq (st_expire GLOBAL_LOG_KEY (ttl_seconds cfg)) (io_seq (st_expire GLOBAL_LOG_SEQ_KEY (ttl_seconds cfg)) (io_ret c))))
      (io_seq (append_failed no_emit tid) (io_ret c))) (\<lambda>_. log_ok) log_ok" for g c
    by (rule spec_try [where M = log_ok], rule spec_seq [OF ltrim_log_spec [OF pos(2)]],
        rule spec_seq [OF expire_log_spec [OF pos(1)]], rule spec_seq [OF expire_seq_spec [OF pos(1)]])
      (auto simp: append_failed_def intro: triple)
  show ?thesis
    unfolding append_task_log_def Let_def tid_def [symmetric] mem_redis_simps option.case tell_no_emit io_run_simps
    apply (rule spec_if, rule spec_ret, assumption)
    apply (rule spec_try [where M = log_ok])
     apply (rule spec_bind [OF get_meta_spec], rule spec_bind [OF frame(1)], rule spec_bind [OF incr_seq_spec])
     apply (rule spec_seq [OF drawn_E [OF frame(2)]], rule spec_seq [OF drawn_E [OF frame(3)]])
     apply (rule spec_seq [OF drawn_E [OF frame(4)]], rule spec_seq [OF drawn_E [OF frame(5)]])
     apply (rule spec_seq [OF rpush_log_spec], rule spec_bind [OF prune], rule final)
    by (simp add: append_failed_def, rule spec_ret)
qed

lemma log_ok_elapse:
  assumes "log_ok st" "0 \<le> d"
  shows "log_ok (elapse d st)"
proof -
  from assms(1) obtain its e where l: "st_list GLOBAL_LOG_KEY st = Some (as_entries its, e)" "ordered its"
    and c: "its = [] \<and> st_find GLOBAL_LOG_SEQ_KEY st = None \<or>
      (\<exists>n e'. counter_is n e' st \<and> 0 \<le> n \<and> (\<forall>it \<in> set its. entry_seq ''global_seq'' it \<le> n) \<and> (its \<noteq> [] \<longrightarrow> outlives e' e))"
    by (auto simp: log_ok_def log_is_def)
  let ?st = "elapse d st"
  have empty: "ordered []" by (simp add: ordered_def)
  have seq: "st_find GLOBAL_LOG_SEQ_KEY ?st = None \<or> (\<exists>n e'. counter_is n e' ?st \<and> 0 \<le> n)"
  proof -
    from c have "st_find GLOBAL_LOG_SEQ_KEY st = None \<or>
      (\<exists>n e'. st_find GLOBAL_LOG_SEQ_KEY st = Some (DStr (RText (show_int n)), e') \<and> 0 \<le> n)"
      by (auto simp: counter_is_def)
    then show ?thesis
    proof (elim disjE exE conjE)
      fix n e' assume f: "st_find GLOBAL_LOG_SEQ_KEY st = Some (DStr (RText (show_int n)), e')" "0 \<le> n"
      show ?thesis using st_find_elapse_Some [OF f(1), of d] f(2)
        by (cases "live e' ?st") (auto simp: counter_is_def)
    qed (simp add: st_find_elapse_None [OF assms(2)])
  qed
  show ?thesis
  proof (cases "st_find GLOBAL_LOG_KEY ?st")
    case None
    then have "log_is [] None ?st" using empty by (simp add: log_is_def st_list_def as_entries_def)
    with seq show ?thesis unfolding log_ok_def by fastforce
  next
    case (Some x)
    then have st: "st_find GLOBAL_LOG_KEY st \<noteq> None" using st_find_elapse_None [OF assms(2)] by fastforce
    then have f: "st_find GLOBAL_LOG_KEY st = Some (DList (as_entries its), e)"
      using l(1) by (auto simp: st_list_def split: option.splits prod.splits rdata.splits)
    with Some have alive: "live e ?st" "st_find GLOBAL_LOG_KEY ?st = Some (DList (as_entries its), e)"
      using st_find_elapse_Some [OF f, of d] by (auto split: if_splits)
    then have li: "log_is its e ?st" using l(2) by (simp add: log_is_def st_list_def)
    show ?thesis
    proof (cases "its = []")
      case True
      with li seq show ?thesis unfolding log_ok_def by fastforce
    next
      case False
      with c obtain n e' where n: "counter_is n e' st" "0 \<le> n" "\<forall>it \<in> set its. entry_seq ''global_seq'' it \<le> n" "outlives e' e"
        by blast
      have "live e' ?st" using n(4) alive(1) by (auto simp: outlives_def)
      then have "counter_is n e' ?st"
        using n(1) st_find_elapse_Some [of GLOBAL_LOG_SEQ_KEY st _ e' d] by (auto simp: counter_is_def)
      with li n show ?thesis unfolding log_ok_def by blast
    qed
  qed
qed

text \<open>
  The log in use, one writer at a time: entries are appended in turn, each append from its first command to its
  last, time passes, and anything else is done that leaves the two keys of the log alone. Appends of two workers
  that overlap are not of this kind: \<open>INCR\<close> and \<open>RPUSH\<close> are separate commands, and a worker
  that drew the lower number may push its entry after the other one (\<open>overlapping_appends\<close>).
\<close>

inductive appends_in_turn ::
  "log_config \<Rightarrow> 's redis \<Rightarrow> ('s \<Rightarrow> store) \<Rightarrow> (tele \<Rightarrow> 's \<Rightarrow> 's) \<Rightarrow> 's \<Rightarrow> 's \<Rightarrow> bool"
  for cfg R view emit s where
  turn_start: "appends_in_turn cfg R view emit s s"
| turn_append: "appends_in_turn cfg R view emit s s1 \<Longrightarrow>
    append_task_log fuel cfg (Some R) emit ck iv cu t d m l s1 = (r, s2) \<Longrightarrow> appends_in_turn cfg R view emit s s2"
| turn_wait: "appends_in_turn cfg R view emit s s1 \<Longrightarrow> 0 \<le> n \<Longrightarrow> view s2 = elapse n (view s1) \<Longrightarrow>
    appends_in_turn cfg R view emit s s2"
| turn_other: "appends_in_turn cfg R view emit s s1 \<Longrightarrow> st_now (view s2) = st_now (view s1) \<Longrightarrow>
    st_find GLOBAL_LOG_KEY (view s2) = st_find GLOBAL_LOG_KEY (view s1) \<Longrightarrow>
    st_find GLOBAL_LOG_SEQ_KEY (view s2) = st_find GLOBAL_LOG_SEQ_KEY (view s1) \<Longrightarrow> appends_in_turn cfg R view emit s s2"

lemma log_ok_keys:
  assumes "st_now st' = st_now st" "st_find GLOBAL_LOG_KEY st' = st_find GLOBAL_LOG_KEY st"
    "st_find GLOBAL_LOG_SEQ_KEY st' = st_find GLOBAL_LOG_SEQ_KEY st"
  shows "log_ok st' = log_ok st"
  by (simp only: log_ok_def log_is_def counter_is_def st_list_def assms)

text \<open>The commands of two appends that overlap: the first number drawn is pushed last.\<close>

lemma overlapping_appends:
  "snd (io_seq (st_incr GLOBAL_LOG_SEQ_KEY) (io_seq (st_incr GLOBAL_LOG_SEQ_KEY)
     (io_seq (st_rpush GLOBAL_LOG_KEY [RJson (PDict [(''global_seq'', PInt 2)])])
       (st_rpush GLOBAL_LOG_KEY [RJson (PDict [(''global_seq'', PInt 1)])])))
     \<lparr>st_now = 0, st_data = []\<rparr>) =
   \<lparr>st_now = 0, st_data = [(GLOBAL_LOG_SEQ_KEY, DStr (RText (show_int 2)), None),
     (GLOBAL_LOG_KEY, DList (as_entries [[(''global_seq'', PInt 2)], [(''global_seq'', PInt 1)]]), None)]\<rparr>"
  by code_simp

context worker
begin

lemma append_keeps:
  assumes "log_config_ok cfg" "log_ok (view s)" "append_task_log fuel cfg (Some R) emit ck iv cu t d m l s = (r, s')"
  shows "log_ok (view s')"
proof -
  let ?m = "append_task_log fuel cfg (Some mem_redis) no_emit ck iv cu t d m l"
  obtain r1 st1 where run: "?m (view s) = (r1, st1)" by fastforce
  have "view s' = st1"
    using io_sim_snd [OF append_log_sim, of fuel cfg ck iv cu t d m l s] assms(3) run by simp
  with io_specD [OF append_spec [OF assms(1)] assms(2) run] show ?thesis by (auto split: option.splits)
qed

lemma run_keeps:
  assumes "appends_in_turn cfg R view emit s s'" "log_config_ok cfg" "log_ok (view s)"
  shows "log_ok (view s')"
  using assms(1)
proof induction
  case turn_start
  show ?case by (rule assms(3))
next
  case (turn_append s1 fuel ck iv cu t d m l r s2)
  then show ?case using append_keeps [OF assms(2)] by blast
next
  case (turn_wait s1 n s2)
  then show ?case using log_ok_elapse by simp
next
  case (turn_other s1 s2)
  then show ?case using log_ok_keys [of "view s2" "view s1"] by simp
qed

lemma global_scan:
  assumes "log_ok (view s)" "1 \<le> lim"
  shows "\<exists>its e ls s'. st_list GLOBAL_LOG_KEY (view s) = Some (as_entries its, e) \<and> ordered its \<and>
    get_global_logs (Some R) emit after lim tn s =
      (Some (last_n (nat lim) (filter (wanted ''global_seq'' after (or_empty tn)) its), ls), s') \<and> view s' = view s"
proof -
  obtain its e where l: "st_list GLOBAL_LOG_KEY (view s) = Some (as_entries its, e)" and o: "ordered its"
    and c: "its = [] \<and> st_find GLOBAL_LOG_SEQ_KEY (view s) = None \<or>
      (\<exists>n e'. counter_is n e' (view s) \<and> 0 \<le> n \<and> (\<forall>it \<in> set its. entry_seq ''global_seq'' it \<le> n) \<and> (its \<noteq> [] \<longrightarrow> outlives e' e))"
    using assms(1) by (auto simp: log_ok_def log_is_def)
  let ?found = "last_n (nat lim) (filter (wanted ''global_seq'' after (or_empty tn)) its)"
  define n where "n = (case st_find GLOBAL_LOG_SEQ_KEY (view s) of
      Some (DStr (RText x), _) \<Rightarrow> (case py_int x of Some n \<Rightarrow> n | None \<Rightarrow> 0) | _ \<Rightarrow> 0)"
  have n: "\<forall>it \<in> set its. entry_seq ''global_seq'' it \<le> n"
    using c by (auto simp: n_def counter_is_def py_int_show_int)
  have nread: "(io_bind (r_get mem_redis GLOBAL_LOG_SEQ_KEY) (\<lambda>latest_raw.
      if \<not> rv_truthy latest_raw then io_ret 0
      else case rv_int (the latest_raw) of None \<Rightarrow> io_raise | Some n \<Rightarrow> io_ret n)) (view s) = (Some n, view s)"
  proof -
    from c have "st_find GLOBAL_LOG_SEQ_KEY (view s) = None \<or>
      (\<exists>i e'. st_find GLOBAL_LOG_SEQ_KEY (view s) = Some (DStr (RText (show_int i)), e'))"
      by (auto simp: counter_is_def)
    moreover have "show_int i \<noteq> []" for i by (simp add: show_int_def)
    ultimately show ?thesis
      by (auto simp: n_def io_bind_def st_get_def rv_truthy_def io_ret_def rv_int_def py_int_show_int)
  qed
  have "\<exists>ls. get_global_logs (Some mem_redis) no_emit after lim tn (view s) = (Some (?found, ls), view s)"
  proof (cases "0 < n \<and> n \<le> after")
    case True
    then have "\<forall>it \<in> set its. \<not> wanted ''global_seq'' after (or_empty tn) it" using n by (auto simp: wanted_def)
    then have "?found = []" by (simp add: last_n_def filter_empty_conv)
    with True nread show ?thesis
      by (simp add: get_global_logs_def scan_recent_entries_def GLOBAL_LOG_SEQ_KEY_def [symmetric] io_try_def io_bind_def io_ret_def)
        (simp add: GLOBAL_LOG_SEQ_KEY_def)
  next
    case False
    have len: "st_llen GLOBAL_LOG_KEY (view s) = (Some (int (length its)), view s)"
      using l by (simp add: st_llen_def as_entries_def)
    show ?thesis
    proof (cases "its = []")
      case True
      with False nread len show ?thesis
        by (auto simp: get_global_logs_def scan_recent_entries_def io_try_def io_attempt_def io_bind_def io_ret_def last_n_def)
    next
      case ne: False
      have "scan_loop mem_redis no_emit GLOBAL_LOG_KEY ''global_seq'' after lim (or_empty tn) (int (length its) - 1) [] after False (view s)
        = (Some (?found, if ?found = [] then after else entry_seq ''global_seq'' (last ?found)), view s)"
        using scan_loop_result [OF l ne assms(2)] o by (simp add: ordered_def Let_def)
      with False ne nread len show ?thesis
        by (auto simp: get_global_logs_def scan_recent_entries_def io_try_def io_attempt_def io_bind_def io_ret_def)
    qed
  qed
  then obtain ls where run: "get_global_logs (Some mem_redis) no_emit after lim tn (view s) = (Some (?found, ls), view s)" by blast
  obtain r s' where r: "get_global_logs (Some R) emit after lim tn s = (r, s')" by fastforce
  from io_sim_fst [OF get_logs_sim(2), of after lim tn s] io_sim_snd [OF get_logs_sim(2), of after lim tn s] run r
  have "r = Some (?found, ls)" "view s' = view s" by simp_all
  with r l o show ?thesis by blast
qed

end

section \<open>Lemmas on the bulk lock and the metadata\<close>

text \<open>Who holds the lock of a tenant, and whether the holder still counts.\<close>

definition lock_holder :: "string \<Rightarrow> store \<Rightarrow> string option" where
  "lock_holder tn st = (case st_find (tenant_active_bulk_key tn) st of
     Some (DStr (RText t), _) \<Rightarrow> if t = [] then None else Some t | _ \<Rightarrow> None)"

definition meta_of :: "string \<Rightarrow> store \<Rightarrow> pydict" where
  "meta_of t st = (case st_find (task_meta_key t) st of Some (DStr (RJson (PDict d)), _) \<Rightarrow> d | _ \<Rightarrow> [])"

definition holder_counts :: "string \<Rightarrow> store \<Rightarrow> bool" where
  "holder_counts t st \<longleftrightarrow> meta_of t st = [] \<or>
     (truthy (dget (meta_of t st) ''is_bulk'') \<and> \<not> truthy (dget (meta_of t st) ''completed''))"

lemma get_meta_is: "t \<noteq> [] \<Longrightarrow> get_task_meta (Some mem_redis) no_emit t st = (Some (meta_of t st), st)"
  by (auto simp: get_task_meta_def meta_of_def io_try_def io_bind_def io_seq_def io_ret_def io_raise_def st_get_def
      rv_truthy_def json_loads_def split: option.splits rdata.splits pyval.splits rval.splits)

text \<open>A lock key that was not written by anything else holds a text.\<close>

definition lock_key_ok :: "string \<Rightarrow> store \<Rightarrow> bool" where
  "lock_key_ok tn st \<longleftrightarrow> (case st_find (tenant_active_bulk_key tn) st of
     None \<Rightarrow> True | Some (DStr (RText t), _) \<Rightarrow> t \<noteq> [] | _ \<Rightarrow> False)"

lemma acquire_store:
  assumes "single_lock cfg" "log_config_ok cfg" "tn \<noteq> []" "t \<noteq> []" "lock_key_ok tn st"
  shows "acquire_tenant_bulk_lock cfg (Some mem_redis) no_emit tn t st =
    (case lock_holder tn st of
       Some h \<Rightarrow> if holder_counts h st then (Some (False, Some h), st)
                 else (Some (True, None), st_put (tenant_active_bulk_key tn) (DStr (RText t))
                        (Some (st_now st + bulk_lock_ttl cfg * 1000)) (st_del (tenant_active_bulk_key tn) st))
     | None \<Rightarrow> (Some (True, None), st_put (tenant_active_bulk_key tn) (DStr (RText t))
                        (Some (st_now st + bulk_lock_ttl cfg * 1000)) st))"
proof -
  have ttl: "\<not> bulk_lock_ttl cfg \<le> 0" using assms(2) by (simp add: log_config_ok_def)
  show ?thesis
  proof (cases "st_find (tenant_active_bulk_key tn) st")
    case None
    with assms ttl show ?thesis
      by (simp add: acquire_tenant_bulk_lock_def lock_holder_def Let_def io_try_def io_bind_def io_ret_def
          st_get_def rv_truthy_def st_set_nx_def)
  next
    case (Some x)
    then obtain h e where h: "st_find (tenant_active_bulk_key tn) st = Some (DStr (RText h), e)" "h \<noteq> []"
      using assms(5) by (cases x) (auto simp: lock_key_ok_def split: rdata.splits rval.splits)
    have get: "st_get (tenant_active_bulk_key tn) st = (Some (Some (RText h)), st)" using h by (simp add: st_get_def)
    have holder: "lock_holder tn st = Some h" using h by (simp add: lock_holder_def)
    show ?thesis
      using assms ttl h(2) get holder get_meta_is [OF h(2), of st]
      by (auto simp: acquire_tenant_bulk_lock_def Let_def io_try_def io_bind_def io_seq_def io_ret_def
          rv_truthy_def rv_text_def holder_counts_def st_delete_def st_set_nx_def)
  qed
qed

lemma write_store:
  assumes "log_config_ok cfg" "t \<noteq> []"
  shows "\<exists>st'. write_task_meta cfg (Some mem_redis) no_emit t d st = (Some (), st') \<and> st_now st' = st_now st \<and>
    (\<forall>k. \<not> prefix TENANT_ACTIVE_BULK_PREFIX k \<longrightarrow> k \<noteq> task_meta_key t \<longrightarrow> st_find k st' = st_find k st) \<and>
    st_find (task_meta_key t) st' = Some (DStr (RJson (PDict d)), Some (st_now st + ttl_seconds cfg * 1000)) \<and>
    (single_lock cfg \<and> truthy (dget d ''is_bulk'') \<and> dget d ''tenant_id'' = PStr tn \<and> tn \<noteq> [] \<longrightarrow>
      (if truthy (dget d ''completed'')
       then lock_holder tn st = Some t \<or> lock_key_ok tn st \<and> lock_holder tn st = None \<longrightarrow> lock_holder tn st' = None
       else lock_holder tn st' = Some t))"
proof -
  have pos: "0 < ttl_seconds cfg" "0 < bulk_lock_ttl cfg" using assms by (auto simp: log_config_ok_def ttl_seconds_def)
  define st1 where "st1 = st_put (task_meta_key t) (DStr (RJson (PDict d))) (Some (st_now st + ttl_seconds cfg * 1000)) st"
  have setex: "st_setex (task_meta_key t) (ttl_seconds cfg) (RJson (PDict d)) st = (Some (), st1)"
    using pos by (simp add: st_setex_def st1_def)
  have pk: "prefix TENANT_ACTIVE_BULK_PREFIX (tenant_active_bulk_key x)" for x by (simp add: tenant_active_bulk_key_def)
  have mk: "task_meta_key t \<noteq> tenant_active_bulk_key x" for x
    by (simp add: task_meta_key_def tenant_active_bulk_key_def TASK_META_PREFIX_def TENANT_ACTIVE_BULK_PREFIX_def)
  note mk' = mk [THEN not_sym]
  have f1: "st_find k st1 = (if k = task_meta_key t then Some (DStr (RJson (PDict d)), Some (st_now st + ttl_seconds cfg * 1000))
      else st_find k st)" for k using pos by (simp add: st1_def)
  have now1: "st_now st1 = st_now st" by (simp add: st1_def)
  show ?thesis
  proof (cases "single_lock cfg \<and> truthy (dget d ''is_bulk'') \<and> truthy (dget d ''tenant_id'')")
    case False
    then have "write_task_meta cfg (Some mem_redis) no_emit t d st = (Some (), st1)"
      using setex by (auto simp: write_task_meta_def io_try_def io_bind_def io_seq_def io_ret_def)
    moreover have "\<not> (single_lock cfg \<and> truthy (dget d ''is_bulk'') \<and> dget d ''tenant_id'' = PStr tn \<and> tn \<noteq> [])"
      using False by auto
    ultimately show ?thesis using f1 now1 by auto
  next
    case True
    define x where "x = py_str (dget d ''tenant_id'')"
    show ?thesis
    proof (cases "truthy (dget d ''completed'')")
      case fin: True
      obtain st2 where rel: "release_tenant_bulk_lock (Some mem_redis) no_emit x t st1 = (Some (), st2)"
        using io_totalD [OF release_total] by fastforce
      have st2: "st2 = st1 \<or> st2 = st_del (tenant_active_bulk_key x) st1"
        using rel by (auto simp: release_tenant_bulk_lock_def io_try_def io_bind_def io_ret_def st_get_def st_delete_def
            split: if_splits option.splits rdata.splits)
      have run: "write_task_meta cfg (Some mem_redis) no_emit t d st = (Some (), st2)"
        using True fin setex rel by (simp add: write_task_meta_def io_try_def io_bind_def io_seq_def io_ret_def x_def Let_def)
      have "lock_holder tn st2 = None"
        if tn: "dget d ''tenant_id'' = PStr tn" "tn \<noteq> []" and h: "lock_holder tn st = Some t \<or> lock_key_ok tn st \<and> lock_holder tn st = None"
      proof -
        have x: "x = tn" using tn by (simp add: x_def py_str_def)
        show ?thesis
        proof (cases "st_find (tenant_active_bulk_key tn) st")
          case None
          then have "st_find (tenant_active_bulk_key tn) st2 = None" using st2 f1 mk' x by auto
          then show ?thesis by (simp add: lock_holder_def)
        next
          case (Some y)
          with h have y: "st_find (tenant_active_bulk_key tn) st1 = Some (DStr (RText t), snd y)"
            using f1 mk' by (auto simp: lock_holder_def lock_key_ok_def split: rdata.splits rval.splits if_splits prod.splits)
          then have "st_get (tenant_active_bulk_key tn) st1 = (Some (Some (RText t)), st1)" by (simp add: st_get_def)
          then have "st2 = st_del (tenant_active_bulk_key tn) st1"
            using rel tn(2) x by (simp add: release_tenant_bulk_lock_def io_try_def io_bind_def rv_text_def st_delete_def)
          then show ?thesis by (simp add: lock_holder_def)
        qed
      qed
      then show ?thesis using run st2 f1 pk fin by (intro exI [of _ st2]) (auto simp: now1 mk mk')
    next
      case False
      define st2 where "st2 = st_put (tenant_active_bulk_key x) (DStr (RText t)) (Some (st_now st1 + bulk_lock_ttl cfg * 1000)) st1"
      have "write_task_meta cfg (Some mem_redis) no_emit t d st = (Some (), st2)"
        using True False setex pos
        by (simp add: write_task_meta_def io_try_def io_bind_def io_seq_def io_ret_def x_def [symmetric] Let_def st_setex_def st2_def)
      moreover have "dget d ''tenant_id'' = PStr tn \<Longrightarrow> lock_holder tn st2 = Some t"
        using pos assms(2) by (simp add: lock_holder_def st2_def x_def py_str_def)
      ultimately show ?thesis using f1 pk False
        by (intro exI [of _ st2]) (auto simp: st2_def now1 mk mk')
    qed
  qed
qed

text \<open>
  What happens to the lock of a tenant after it was taken: time passes, and anything is done that takes no time of
  its own and leaves the key of the lock alone. The number is the time that has passed.
\<close>

inductive lock_in_use :: "('s \<Rightarrow> store) \<Rightarrow> string \<Rightarrow> 's \<Rightarrow> int \<Rightarrow> 's \<Rightarrow> bool" for view tn s where
  taken: "lock_in_use view tn s 0 s"
| time_passes: "lock_in_use view tn s n s1 \<Longrightarrow> 0 \<le> d \<Longrightarrow> view s2 = elapse d (view s1) \<Longrightarrow>
    lock_in_use view tn s (n + d) s2"
| other_keys: "lock_in_use view tn s n s1 \<Longrightarrow> st_now (view s2) = st_now (view s1) \<Longrightarrow>
    st_find (tenant_active_bulk_key tn) (view s2) = st_find (tenant_active_bulk_key tn) (view s1) \<Longrightarrow>
    lock_in_use view tn s n s2"

lemma lock_kept:
  assumes "lock_in_use view tn s n s'" "st_find (tenant_active_bulk_key tn) (view s) = Some (x, Some (st_now (view s) + k))"
  shows "st_find (tenant_active_bulk_key tn) (view s') = (if n < k then Some (x, Some (st_now (view s) + k)) else None)"
proof -
  from assms(2) have "0 < k" by (auto dest: st_find_live)
  with assms have "st_now (view s') = st_now (view s) + n \<and> 0 \<le> n \<and>
    st_find (tenant_active_bulk_key tn) (view s') = (if n < k then Some (x, Some (st_now (view s) + k)) else None)"
  proof (induction rule: lock_in_use.induct)
    case (time_passes n s1 d s2)
    then show ?case
      by (cases "n < k") (auto simp: st_find_elapse_Some st_find_elapse_None live_def)
  qed auto
  then show ?thesis by simp
qed

context worker
begin

lemma acquired_mem:
  assumes "acquire_tenant_bulk_lock cfg (Some R) emit tn t s = (r, s')"
  shows "acquire_tenant_bulk_lock cfg (Some mem_redis) no_emit tn t (view s) = (r, view s')"
  using io_sim_fst [OF acquire_sim, of cfg tn t s] io_sim_snd [OF acquire_sim, of cfg tn t s] assms
  by (simp add: prod_eq_iff)

lemma refused_while_held:
  assumes "single_lock cfg" "log_config_ok cfg" "tn \<noteq> []" "t2 \<noteq> []" "lock_key_ok tn (view s)"
    "lock_holder tn (view s) = Some h" "holder_counts h (view s)"
  shows "\<exists>s'. acquire_tenant_bulk_lock cfg (Some R) emit tn t2 s = (Some (False, Some h), s') \<and> view s' = view s"
proof -
  obtain r s' where run: "acquire_tenant_bulk_lock cfg (Some R) emit tn t2 s = (r, s')" by fastforce
  from acquired_mem [OF run] acquire_store [OF assms(1-5)] assms(6,7) show ?thesis using run by auto
qed

end

section \<open>Properties\<close>


definition sample_log_config :: log_config where
  "sample_log_config = \<lparr>retention_days = 90, task_log_max = 2000, global_log_max = 50000, bulk_lock_ttl = 1800,
     single_lock = True\<rparr>"

lemma sample_log_config_ok: "log_config_ok sample_log_config" "single_lock sample_log_config"
  by (simp_all add: sample_log_config_def log_config_ok_def)

lemma empty_log_ok: "log_ok \<lparr>st_now = n, st_data = []\<rparr>"
  unfolding log_ok_def by (rule exI [of _ "[]"]) (simp add: log_is_def st_list_def st_find_def as_entries_def ordered_def)


text \<open>C14: Reading the recent global entries returns, on a well-formed log, exactly the newest \<open>limit\<close> of the
  entries after the given number (of the tenant, when one is given), in order, and changes nothing: the
  backward reading in chunks and the shortcut on the counter lose no entry. When more than \<open>limit\<close>
  entries are new, the older of them are not returned.\<close>

theorem recent_logs_exact:
  assumes "worker R view emit" and "log_ok (view s)" and "1 \<le> lim"
  shows "\<exists>its e ls s'. st_list GLOBAL_LOG_KEY (view s) = Some (as_entries its, e) \<and> ordered its \<and>
    get_global_logs (Some R) emit after lim tn s =
      (Some (last_n (nat lim) (filter (wanted ''global_seq'' after (or_empty tn)) its), ls), s') \<and> view s' = view s"
  by (rule worker.global_scan [OF assms])

definition two_entries :: "pydict list" where
  "two_entries = [[(''global_seq'', PInt 1), (''tenant_id'', PStr ''a'')], [(''global_seq'', PInt 2), (''tenant_id'', PStr ''b'')]]"

definition two_entry_world :: pworld where
  "two_entry_world = (\<lparr>st_now = 0, st_data = [(GLOBAL_LOG_KEY, DList (as_entries two_entries), None),
      (GLOBAL_LOG_SEQ_KEY, DStr (RText (show_int 2)), None)]\<rparr>, [])"

theorem recent_logs_exact_witness:
  "\<exists>ls s'. get_global_logs (Some pair_redis) pair_emit 0 1 None two_entry_world =
     (Some ([[(''global_seq'', PInt 2), (''tenant_id'', PStr ''b'')]], ls), s')"
proof -
  have list: "st_list GLOBAL_LOG_KEY (fst two_entry_world) = Some (as_entries two_entries, None)"
    by (simp add: two_entry_world_def st_list_def st_find_def)
  have "log_is two_entries None (fst two_entry_world)"
    using list by (simp add: log_is_def ordered_def two_entries_def has_seq_def entry_seq_def)
  moreover have "counter_is 2 None (fst two_entry_world)"
    by (simp add: counter_is_def two_entry_world_def st_find_def GLOBAL_LOG_KEY_def GLOBAL_LOG_SEQ_KEY_def)
  ultimately have ok: "log_ok (fst two_entry_world)"
    unfolding log_ok_def by (intro exI [of _ two_entries] exI [of _ None] conjI disjI2 exI [of _ 2])
      (auto simp: two_entries_def entry_seq_def outlives_def)
  obtain its e ls s' where r: "st_list GLOBAL_LOG_KEY (fst two_entry_world) = Some (as_entries its, e)"
    "get_global_logs (Some pair_redis) pair_emit 0 1 None two_entry_world =
      (Some (last_n (nat 1) (filter (wanted ''global_seq'' 0 (or_empty None)) its), ls), s')"
    using recent_logs_exact [OF pair.worker_axioms ok, of 1 0 None] by auto
  have "as_entries its = as_entries two_entries" using r(1) list by simp
  moreover have "inj (\<lambda>it. RJson (PDict it))" by (auto simp: inj_def)
  ultimately have "its = two_entries" unfolding as_entries_def by (rule map_injective)
  then have "last_n (nat 1) (filter (wanted ''global_seq'' 0 (or_empty None)) its) =
     [[(''global_seq'', PInt 2), (''tenant_id'', PStr ''b'')]]"
    by (simp add: last_n_def two_entries_def wanted_def entry_seq_def or_empty_def)
  with r(2) show ?thesis by metis
qed


definition busy_tenant :: pworld where
  "busy_tenant = (\<lparr>st_now = 0, st_data = [(tenant_active_bulk_key ''a'', DStr (RText ''t1''), None),
     (task_meta_key ''t1'', DStr (RJson (PDict [(''is_bulk'', PBool True)])), None)]\<rparr>, [])"


text \<open>Metadata that is written is read back: after an update the stored record is the old one with the new
  fields, the task's own id and the time of the update, and it is what \<open>get_task_meta\<close> returns; no other
  task's record changes. When the record says that a bulk operation of a tenant is complete, the lock of
  the tenant is free if the task held it, and while it is not complete the task holds the lock.\<close>

theorem update_meta_roundtrip:
  assumes "worker R view emit" and "log_config_ok cfg" and "t \<noteq> []" and "update_task_meta cfg (Some R) emit now t upd s = (r, s')"
  shows "r = Some (merged_meta now t (meta_of t (view s)) upd) \<and>
    fst (get_task_meta (Some R) emit t s') = Some (merged_meta now t (meta_of t (view s)) upd) \<and>
    (\<forall>t'. t' \<noteq> t \<longrightarrow> meta_of t' (view s') = meta_of t' (view s)) \<and>
    (single_lock cfg \<and> truthy (dget (merged_meta now t (meta_of t (view s)) upd) ''is_bulk'') \<and>
       dget (merged_meta now t (meta_of t (view s)) upd) ''tenant_id'' = PStr tn \<and> tn \<noteq> [] \<longrightarrow>
     (if truthy (dget (merged_meta now t (meta_of t (view s)) upd) ''completed'')
      then lock_holder tn (view s) = Some t \<longrightarrow> lock_holder tn (view s') = None
      else lock_holder tn (view s') = Some t))"
proof -
  define d where "d = merged_meta now t (meta_of t (view s)) upd"
  obtain st' where w: "write_task_meta cfg (Some mem_redis) no_emit t d (view s) = (Some (), st')"
    and keep: "\<forall>k. \<not> prefix TENANT_ACTIVE_BULK_PREFIX k \<longrightarrow> k \<noteq> task_meta_key t \<longrightarrow> st_find k st' = st_find k (view s)"
    and here: "st_find (task_meta_key t) st' = Some (DStr (RJson (PDict d)), Some (st_now (view s) + ttl_seconds cfg * 1000))"
    and lock: "single_lock cfg \<and> truthy (dget d ''is_bulk'') \<and> dget d ''tenant_id'' = PStr tn \<and> tn \<noteq> [] \<longrightarrow>
      (if truthy (dget d ''completed'')
       then lock_holder tn (view s) = Some t \<or> lock_key_ok tn (view s) \<and> lock_holder tn (view s) = None \<longrightarrow> lock_holder tn st' = None
       else lock_holder tn st' = Some t)"
    using write_store [OF assms(2,3), of d "view s" tn] by blast
  have run: "update_task_meta cfg (Some mem_redis) no_emit now t upd (view s) = (Some d, st')"
    using w assms(3) get_meta_is [OF assms(3), of "view s"]
    by (simp add: update_task_meta_def io_bind_def io_seq_def io_ret_def d_def Let_def)
  have r: "r = Some d" "view s' = st'"
    using io_sim_fst [OF worker.update_meta_sim [OF assms(1)], of cfg now t upd s]
      io_sim_snd [OF worker.update_meta_sim [OF assms(1)], of cfg now t upd s] assms(4) run by simp_all
  have g: "fst (get_task_meta (Some R) emit t s') = Some (meta_of t st')"
    using io_sim_fst [OF worker.get_meta_sim [OF assms(1)], of t s'] get_meta_is [OF assms(3), of st'] r by simp
  have "meta_of t st' = d" using here by (simp add: meta_of_def)
  moreover have "meta_of t' st' = meta_of t' (view s)" if "t' \<noteq> t" for t'
  proof -
    have "\<not> prefix TENANT_ACTIVE_BULK_PREFIX (task_meta_key t')" "task_meta_key t' \<noteq> task_meta_key t"
      using that by (simp_all add: task_meta_key_def TENANT_ACTIVE_BULK_PREFIX_def TASK_META_PREFIX_def)
    with keep show ?thesis by (simp add: meta_of_def)
  qed
  ultimately show ?thesis using r g lock unfolding d_def [symmetric] by auto
qed

theorem update_meta_roundtrip_witness:
  "fst (get_task_meta (Some pair_redis) pair_emit ''t1''
     (snd (update_task_meta sample_log_config (Some pair_redis) pair_emit 0 ''t1'' [(''status'', PStr ''running'')] busy_tenant))) =
   Some (merged_meta 0 ''t1'' (meta_of ''t1'' (fst busy_tenant)) [(''status'', PStr ''running'')])"
proof -
  obtain r s' where "update_task_meta sample_log_config (Some pair_redis) pair_emit 0 ''t1'' [(''status'', PStr ''running'')] busy_tenant = (r, s')"
    by (metis surj_pair)
  from update_meta_roundtrip [OF pair.worker_axioms sample_log_config_ok(1) _ this] this show ?thesis by simp
qed

text \<open>Pruning by age ends and removes exactly the leading entries that are unreadable, have no timestamp or
  are older than the cutoff: with a fuel above the length of the log it returns their number and leaves
  the rest, unless an entry makes the comparison raise.\<close>

theorem prune_removes_stale_prefix:
  assumes "st_list GLOBAL_LOG_KEY st = Some (l, e)" and "length l < fuel"
    and "list_all (\<lambda>raw. rv_truthy (Some raw) \<and> entry_age cutoff raw \<noteq> Raises) l"
  shows "\<exists>st' e'. prune_loop fuel mem_redis cutoff n st =
      (Some (n + int (length (takeWhile (\<lambda>raw. entry_age cutoff raw \<noteq> Fresh) l))), st') \<and>
    st_list GLOBAL_LOG_KEY st' = Some (dropWhile (\<lambda>raw. entry_age cutoff raw \<noteq> Fresh) l, e') \<and>
    (\<forall>k. k \<noteq> GLOBAL_LOG_KEY \<longrightarrow> st_find k st' = st_find k st)"
  using assms
proof (induction l arbitrary: st n fuel e)
  case Nil
  then show ?case by (cases fuel) (simp_all add: st_head_def io_bind_def io_ret_def rv_truthy_def)
next
  case (Cons raw l)
  obtain fuel' where fuel: "fuel = Suc fuel'" using Cons.prems(2) by (cases fuel) auto
  have head: "st_head GLOBAL_LOG_KEY st = (Some (Some raw), st)" using Cons.prems(1) by (simp add: st_head_def)
  show ?case
  proof (cases "entry_age cutoff raw = Fresh")
    case True
    with Cons.prems head fuel show ?thesis by (simp add: io_bind_def io_ret_def)
  next
    case False
    define st1 where "st1 = st_put_list GLOBAL_LOG_KEY l e st"
    have pop: "st_lpop GLOBAL_LOG_KEY st = (Some (), st1)" using Cons.prems(1) by (simp add: st_lpop_def st1_def)
    have live: "live e st" using Cons.prems(1) st_find_live
      by (auto simp: st_list_def split: option.splits prod.splits rdata.splits)
    have "prune_loop fuel mem_redis cutoff n st = prune_loop fuel' mem_redis cutoff (n + 1) st1"
      using head pop False Cons.prems(3) fuel
      by (cases "entry_age cutoff raw") (simp_all add: io_bind_def io_seq_def)
    moreover have "st_list GLOBAL_LOG_KEY st1 = Some (l, if l = [] then None else e)"
      unfolding st1_def by (rule st_list_put_list [OF live])
    moreover have "\<forall>k. k \<noteq> GLOBAL_LOG_KEY \<longrightarrow> st_find k st1 = st_find k st" by (simp add: st1_def)
    ultimately show ?thesis
      using Cons.IH [of st1 _ fuel' "n + 1"] Cons.prems(2,3) False fuel by fastforce
  qed
qed

theorem prune_removes_stale_prefix_witness:
  "\<exists>st'. prune_loop 2 mem_redis 0 0 \<lparr>st_now = 0, st_data = [(GLOBAL_LOG_KEY, DList [RText ''x''], None)]\<rparr> = (Some 1, st')"
proof -
  have l: "st_list GLOBAL_LOG_KEY \<lparr>st_now = 0, st_data = [(GLOBAL_LOG_KEY, DList [RText ''x''], None)]\<rparr> = Some ([RText ''x''], None)"
    by (simp add: st_list_def st_find_def)
  have a: "list_all (\<lambda>raw. rv_truthy (Some raw) \<and> entry_age 0 raw \<noteq> Raises) [RText ''x'']"
    by (simp add: rv_truthy_def entry_age_def json_loads_def)
  from prune_removes_stale_prefix [OF l _ a, of 2 0] show ?thesis
    by (auto simp: entry_age_def json_loads_def)
qed

end
