(* ===== verification/BackupRun.thy ===== *)
theory BackupRun
  imports JumpHost TaskLogs ConnMode
begin

text \<open>
  The backup task of one device (\<open>src/app/tasks/backups.py\<close>): the stop switch and the cancellation of
  a batch, the check for running batches, the eligibility of a device, the wait for a slot of its jump
  host, and the task that ties them together.

  What the process sees is the record \<open>'s machine\<close>: its environment and configuration, the Redis client
  and telemetry sink, the clocks (milliseconds for the monotonic one), \<open>time.sleep\<close>, the query for a
  device row (which may raise), and the module variables \<open>_global_prune_cache_until\<close> and
  \<open>_bulk_device_count_cache\<close>, read and written in the world. The executor that talks to the device
  (\<open>backup_executor.run_backup_for_device_id\<close>) is an argument: it returns a flag and a message or raises,
  and may change the world in any way. A loop that waits has a fuel and answers \<open>OutOfFuel\<close> without it.
\<close>

record 's machine =
  m_env :: "string \<Rightarrow> string option"
  m_cfg :: task_config
  m_log :: log_config
  m_client :: "'s redis option"
  m_emit :: "tele \<Rightarrow> 's \<Rightarrow> 's"
  m_now :: "'s \<Rightarrow> naive"
  m_hms :: "'s \<Rightarrow> string"
  m_mono :: "'s \<Rightarrow> int"
  m_sleep :: "int \<Rightarrow> ('s, unit) io"
  m_device :: "string \<Rightarrow> ('s, device option) io"
  m_prune_interval :: int
  m_prune_fuel :: nat
  m_prune_cache :: "'s \<Rightarrow> int"
  m_set_prune_cache :: "int \<Rightarrow> 's \<Rightarrow> 's"
  m_counts :: "'s \<Rightarrow> (string \<times> int) list"
  m_set_counts :: "(string \<times> int) list \<Rightarrow> 's \<Rightarrow> 's"

definition io_read :: "('s \<Rightarrow> 'a) \<Rightarrow> ('s, 'a) io" where
  "io_read f s = (Some (f s), s)"

definition io_write :: "('s \<Rightarrow> 's) \<Rightarrow> ('s, unit) io" where
  "io_write f s = (Some (), f s)"

definition tell_m :: "'s machine \<Rightarrow> tele \<Rightarrow> ('s, unit) io" where
  "tell_m M t = tell (m_emit M) t"

definition task_log :: "'s machine \<Rightarrow> string option \<Rightarrow> string \<Rightarrow> string \<Rightarrow> string \<Rightarrow> ('s, unit) io" where
  "task_log M task who msg level =
     io_bind (io_read (\<lambda>s. (\<lparr>ck_now = m_now M s, ck_hms = m_hms M s, ck_mono = m_mono M s\<rparr>, m_prune_cache M s)))
       (\<lambda>(ck, cache). io_bind
          (append_task_log (m_prune_fuel M) (m_log M) (m_client M) (m_emit M) ck (m_prune_interval M) cache
             task who (PStr msg) (Some level))
          (\<lambda>cache'. io_write (m_set_prune_cache M cache')))"

definition task_meta :: "'s machine \<Rightarrow> string \<Rightarrow> pydict \<Rightarrow> ('s, pydict) io" where
  "task_meta M task upd =
     io_bind (io_read (m_now M)) (\<lambda>now. update_task_meta (m_log M) (m_client M) (m_emit M) now task upd)"

section \<open>Stopping\<close>

definition is_global_backup_stop_enabled :: "'s machine \<Rightarrow> ('s, bool) io" where
  "is_global_backup_stop_enabled M =
     (case m_client M of
        None \<Rightarrow> io_ret False
      | Some R \<Rightarrow> io_try
          (io_bind (r_get R ''backup_center:force_stop_backups'') (\<lambda>flg.
             io_ret (py_strip (case flg of None \<Rightarrow> [] | Some v \<Rightarrow> rv_text v) = ''1'')))
          (io_seq (tell_m M (LogLine ''Falha ao verificar bloqueio global de backups'')) (io_ret False)))"

definition is_bulk_cancelled :: "'s machine \<Rightarrow> string option \<Rightarrow> ('s, bool) io" where
  "is_bulk_cancelled M bulk_task_id =
     (if or_empty bulk_task_id = [] then io_ret False
      else io_bind (get_task_meta (m_client M) (m_emit M) (or_empty bulk_task_id)) (\<lambda>meta.
             io_ret (truthy (dget meta ''cancel_requested''))))"

definition should_stop_now :: "'s machine \<Rightarrow> string option \<Rightarrow> ('s, bool) io" where
  "should_stop_now M bulk_task_id =
     io_bind (is_global_backup_stop_enabled M) (\<lambda>stop.
       if stop then io_ret True else is_bulk_cancelled M bulk_task_id)"

section \<open>Running batches\<close>

text \<open>\<open>datetime.fromisoformat(value.replace("Z", "+00:00")).replace(tzinfo=None)\<close>: the offset is dropped.\<close>

definition activity_time :: "string \<Rightarrow> naive option" where
  "activity_time value =
     (if value = [] then None else map_option fst (fromisoformat (replace_char CHR ''Z'' ''+00:00'' value)))"

definition latest_activity :: "pydict \<Rightarrow> naive option" where
  "latest_activity meta =
     foldl (\<lambda>latest v. case activity_time v of
              None \<Rightarrow> latest
            | Some t \<Rightarrow> (case latest of None \<Rightarrow> Some t | Some l \<Rightarrow> if t > l then Some t else Some l))
       None
       (map (\<lambda>k. py_strip (str_or_empty (dget meta k))) [''last_child_activity_at'', ''updated_at'', ''created_at''])"

datatype batch_verdict = BatchGone | BatchOther | BatchRunning

definition batch_verdict :: "task_config \<Rightarrow> naive \<Rightarrow> pydict \<Rightarrow> batch_verdict" where
  "batch_verdict cfg now meta =
     (if \<not> truthy (dget meta ''is_bulk'') \<or> truthy (dget meta ''completed'') then BatchGone
      else let kind0 = dget meta ''operation_kind'';
               kind = py_lower (py_strip (if truthy kind0 then py_str kind0 else ''backup_bulk''))
           in if kind \<notin> {''backup_bulk'', ''backup_reprocess''} then BatchOther
              else case latest_activity meta of
                     Some t \<Rightarrow> if now - t > bulk_active_stale cfg * US then BatchGone else BatchRunning
                   | None \<Rightarrow> BatchRunning)"

fun scan_batches :: "task_config \<Rightarrow> 's redis \<Rightarrow> naive \<Rightarrow> string list \<Rightarrow> ('s, bool) io" where
  "scan_batches cfg R now [] = io_ret False"
| "scan_batches cfg R now (key # keys) =
     io_bind (r_get R key) (\<lambda>task_id.
       if \<not> rv_truthy task_id then io_seq (r_delete R [key]) (scan_batches cfg R now keys)
       else io_bind (r_get R (task_meta_key (rv_text (the task_id)))) (\<lambda>raw.
         if \<not> rv_truthy raw then io_seq (r_delete R [key]) (scan_batches cfg R now keys)
         else case json_loads (the raw) of
           Some (PDict meta) \<Rightarrow>
             (case batch_verdict cfg now meta of
                BatchGone \<Rightarrow> io_seq (r_delete R [key]) (scan_batches cfg R now keys)
              | BatchOther \<Rightarrow> scan_batches cfg R now keys
              | BatchRunning \<Rightarrow> io_ret True)
         | _ \<Rightarrow> io_seq (r_delete R [key]) (scan_batches cfg R now keys)))"

definition has_active_bulk_operation :: "'s machine \<Rightarrow> ('s, bool) io" where
  "has_active_bulk_operation M =
     (case m_client M of
        None \<Rightarrow> io_ret False
      | Some R \<Rightarrow>
          io_bind (io_read (m_now M)) (\<lambda>now. io_try
            (io_bind (r_scan R TENANT_ACTIVE_BULK_PREFIX) (\<lambda>keys. scan_batches (m_cfg M) R now keys))
            (io_seq (tell_m M (LogLine ''Falha ao verificar lotes bulk ativos antes do scheduler.'')) (io_ret False))))"

definition touch_bulk_activity :: "'s machine \<Rightarrow> string option \<Rightarrow> ('s, unit) io" where
  "touch_bulk_activity M bulk_task_id =
     (if or_empty bulk_task_id = [] then io_ret ()
      else io_bind (io_read (m_now M)) (\<lambda>now.
             io_bind (task_meta M (or_empty bulk_task_id) [(''last_child_activity_at'', PStr (now_iso now))]) (\<lambda>_. io_ret ())))"

text \<open>\<open>_sleep_with_stop_poll\<close>, in milliseconds: it sleeps in steps of at most a second.\<close>

function sleep_with_stop_poll :: "'s machine \<Rightarrow> int \<Rightarrow> string option \<Rightarrow> ('s, bool) io" where
  "sleep_with_stop_poll M remaining bulk_task_id =
     (if remaining > 0 then
        io_bind (should_stop_now M bulk_task_id) (\<lambda>stop.
          if stop then io_ret True
          else io_seq (m_sleep M (min 1000 remaining))
                 (sleep_with_stop_poll M (remaining - min 1000 remaining) bulk_task_id))
      else should_stop_now M bulk_task_id)"
  by pat_completeness auto
termination by (relation "measure (\<lambda>(_, r, _). nat r)") auto

declare sleep_with_stop_poll.simps [simp del]

definition get_bulk_device_count :: "'s machine \<Rightarrow> string option \<Rightarrow> ('s, int) io" where
  "get_bulk_device_count M bulk_task_id =
     (let bulk_id = py_strip (or_empty bulk_task_id)
      in if bulk_id = [] then io_ret 0
         else io_bind (io_read (m_counts M)) (\<lambda>cache.
           case map_of cache bulk_id of
             Some n \<Rightarrow> io_ret n
           | None \<Rightarrow>
               io_bind (get_task_meta (m_client M) (m_emit M) bulk_id) (\<lambda>meta.
                 case val_int (if truthy (dget meta ''total_devices'') then dget meta ''total_devices''
                               else if truthy (dget meta ''total_tasks'') then dget meta ''total_tasks'' else PInt 0) of
                   None \<Rightarrow> io_seq (tell_m M (LogLine ''Falha ao obter tamanho do lote'')) (io_ret 0)
                 | Some total0 \<Rightarrow>
                     io_seq (io_write (m_set_counts M ((bulk_id, max 0 total0) # cache))) (io_ret (max 0 total0)))))"

definition max_transient_retries_for_bulk :: "'s machine \<Rightarrow> string option \<Rightarrow> int" where
  "max_transient_retries_for_bulk M bulk_task_id = transient_max_retries (m_cfg M)"

definition is_large_bulk_operation :: "'s machine \<Rightarrow> string option \<Rightarrow> ('s, bool) io" where
  "is_large_bulk_operation M bulk_task_id =
     io_bind (get_bulk_device_count M bulk_task_id) (\<lambda>n. io_ret (n \<ge> retry_threshold (m_cfg M)))"

definition effective_jump_host_wait_seconds :: "'s machine \<Rightarrow> string option \<Rightarrow> ('s, int) io" where
  "effective_jump_host_wait_seconds M bulk_task_id =
     io_bind (is_large_bulk_operation M bulk_task_id) (\<lambda>large.
       io_ret (if large then max 30 (min (lock_wait_seconds (m_cfg M)) (lock_wait_seconds_large (m_cfg M)))
               else lock_wait_seconds (m_cfg M)))"

section \<open>The device\<close>

record device_context =
  cx_device_id :: string
  cx_device_name :: string
  cx_tenant_id :: string
  cx_device_type :: string
  cx_script_name :: string
  cx_group_name :: string
  cx_target_host :: string
  cx_target_port :: string
  cx_jump_host :: string

definition unknown_context :: "string \<Rightarrow> string \<Rightarrow> device_context" where
  "unknown_context device_id jump =
     \<lparr>cx_device_id = device_id, cx_device_name = ''unknown'', cx_tenant_id = ''unknown'', cx_device_type = ''unknown'',
      cx_script_name = ''unknown'', cx_group_name = ''unknown'', cx_target_host = ''unknown'', cx_target_port = ''0'',
      cx_jump_host = jump\<rparr>"

definition or_unknown :: "string \<Rightarrow> string" where
  "or_unknown s = (if s = [] then ''unknown'' else s)"

definition or_22 :: "int option \<Rightarrow> int" where
  "or_22 p = (case p of None \<Rightarrow> 22 | Some n \<Rightarrow> if n = 0 then 22 else n)"

definition group_label :: "device_group option \<Rightarrow> string" where
  "group_label g = (case g of None \<Rightarrow> ''Sem grupo'' | Some g \<Rightarrow> if g_name g = [] then ''Sem grupo'' else g_name g)"

definition device_context_of :: "(string \<Rightarrow> string option) \<Rightarrow> string \<Rightarrow> device \<Rightarrow> device_context" where
  "device_context_of env device_id d =
     \<lparr>cx_device_id = device_id,
      cx_device_name = d_name d,
      cx_tenant_id = or_unknown (d_tenant_id d),
      cx_device_type = (case d_type d of None \<Rightarrow> ''unknown'' | Some t \<Rightarrow> or_unknown (py_strip (dt_name t))),
      cx_script_name = (case d_type d of None \<Rightarrow> ''unknown'' | Some t \<Rightarrow> or_unknown (py_strip (dt_script_name t))),
      cx_group_name = group_label (d_group d),
      cx_target_host = d_ip_address d,
      cx_target_port = show_int (or_22 (d_port d)),
      cx_jump_host =
        (case d_group d of
           None \<Rightarrow> ''direct''
         | Some g \<Rightarrow> if uses_jump_host env (Some g) (Some d) \<and> or_empty (g_jump_host g) \<noteq> []
                     then or_empty (g_jump_host g) @ '':'' @ show_int (or_22 (g_jump_port g)) else ''direct'')\<rparr>"

definition resolve_device_observability_context :: "'s machine \<Rightarrow> string \<Rightarrow> ('s, device_context) io" where
  "resolve_device_observability_context M device_id =
     io_try
       (io_bind (m_device M device_id) (\<lambda>dev. io_ret (case dev of
          None \<Rightarrow> unknown_context device_id ''direct''
        | Some d \<Rightarrow> device_context_of (m_env M) device_id d)))
       (io_seq (tell_m M (LogLine ''Falha ao resolver contexto de observabilidade''))
          (io_ret (unknown_context device_id ''unknown'')))"

definition execution_verdict :: "device option \<Rightarrow> bool \<times> string option \<times> string option" where
  "execution_verdict dev =
     (case dev of
        None \<Rightarrow> (False, Some ''Dispositivo nao encontrado.'', Some ''device_not_found'')
      | Some d \<Rightarrow>
          if \<not> flag (d_is_active d) then (False, Some ''Dispositivo inativo. Backup bloqueado.'', Some ''device_inactive'')
          else case d_group d of
            None \<Rightarrow> (True, None, None)
          | Some g \<Rightarrow>
              if \<not> flag (g_is_active g)
              then (False, Some (''Grupo \"'' @ group_label (Some g) @ ''\" esta inativo. Backup bloqueado.''), Some ''group_inactive'')
              else (True, None, None))"

definition validate_device_execution_allowed :: "'s machine \<Rightarrow> string \<Rightarrow> ('s, bool \<times> string option \<times> string option) io" where
  "validate_device_execution_allowed M device_id =
     io_try
       (io_bind (m_device M device_id) (\<lambda>dev. io_ret (execution_verdict dev)))
       (io_seq (tell_m M (LogLine ''Falha ao validar elegibilidade de execucao''))
          (io_ret (False, Some ''Falha ao validar estado do dispositivo/grupo.'', Some ''validation_error'')))"

definition normalize_host :: "string option \<Rightarrow> string" where
  "normalize_host value = py_lower (py_strip (or_empty value))"

definition jump_host_lock_of :: "task_config \<Rightarrow> (string \<Rightarrow> string option) \<Rightarrow> device option \<Rightarrow> lock_info option" where
  "jump_host_lock_of cfg env dev =
     (case dev of
        None \<Rightarrow> None
      | Some d \<Rightarrow>
          (case d_group d of
             None \<Rightarrow> None
           | Some g \<Rightarrow>
               if \<not> uses_jump_host env (Some g) (Some d) then None
               else
                 (let jump_host = py_strip (or_empty (g_jump_host g));
                      jump_port = or_22 (g_jump_port g);
                      target_host = normalize_host (Some (d_ip_address d));
                      jump_host_normalized = normalize_host (Some jump_host)
                  in if jump_host = [] then None
                     else if target_host \<noteq> [] \<and> target_host = jump_host_normalized then None
                     else Some
                       \<lparr>li_base_key = ''backup_center:jump_host_lock:'' @ jump_host_normalized @ '':'' @ show_int jump_port,
                        li_label = jump_host @ '':'' @ show_int jump_port,
                        li_group_name = py_strip (group_label (Some g)),
                        li_base_slots = max_slots cfg, li_max_slots = max_slots cfg\<rparr>)))"

definition resolve_jump_host_lock :: "'s machine \<Rightarrow> string \<Rightarrow> ('s, lock_info option) io" where
  "resolve_jump_host_lock M device_id =
     io_try
       (io_bind (m_device M device_id) (\<lambda>dev. io_ret (jump_host_lock_of (m_cfg M) (m_env M) dev)))
       (io_seq (tell_m M (LogLine ''Falha ao resolver lock de Jump Host'')) (io_ret None))"

section \<open>Waiting for a slot of the jump host\<close>

datatype acquisition =
    NoLock
  | Unlocked lock_info
  | Acquired lock_info string nat
  | SlotCancelled string
  | SlotTimeout string
  | OutOfFuel

definition slot_key :: "lock_info \<Rightarrow> nat \<Rightarrow> string" where
  "slot_key li idx = li_base_key li @ '':slot:'' @ show_int (int idx)"

definition wait_metrics :: "'s machine \<Rightarrow> lock_info \<Rightarrow> int \<Rightarrow> string \<Rightarrow> ('s, unit) io" where
  "wait_metrics M li slots outcome =
     io_seq (tell_m M (Observe ''jump_host_wait_seconds'' [(''jump_host'', li_label li), (''result'', outcome)]))
       (tell_m M (Counter ''jump_host_slot_acquire_total''
          [(''jump_host'', li_label li), (''result'', outcome), (''slots'', show_int slots)]))"

definition cancelled_text :: "lock_info \<Rightarrow> string" where
  "cancelled_text li = ''Execucao interrompida enquanto aguardava slot do Jump Host '' @ li_label li @ ''.''"

definition timeout_text :: "lock_info \<Rightarrow> int \<Rightarrow> int \<Rightarrow> string" where
  "timeout_text li slots wait_seconds =
     ''Timeout aguardando slot do Jump Host '' @ li_label li @ '' (limite '' @ show_int slots @
     '' conexoes simultaneas) apos '' @ show_int wait_seconds @ ''s.''"

text \<open>One round over the slots, numbered from one; a slot whose acquisition raises is skipped.\<close>

fun try_slots :: "'s machine \<Rightarrow> 's redis \<Rightarrow> lock_info \<Rightarrow> string \<Rightarrow> nat list \<Rightarrow> ('s, nat option) io" where
  "try_slots M R li token [] = io_ret None"
| "try_slots M R li token (idx # idxs) =
     io_bind (io_try (r_set_nx R (slot_key li idx) (RText token) (lock_timeout_seconds (m_cfg M)))
                (io_seq (tell_m M (LogLine ''Falha ao tentar adquirir slot'')) (io_ret False))) (\<lambda>acquired.
       if acquired then io_ret (Some idx) else try_slots M R li token idxs)"

fun wait_for_slot ::
  "nat \<Rightarrow> 's machine \<Rightarrow> 's redis \<Rightarrow> lock_info \<Rightarrow> int \<Rightarrow> int \<Rightarrow> string \<Rightarrow> string \<Rightarrow> string option \<Rightarrow>
   int \<Rightarrow> int \<Rightarrow> bool \<Rightarrow> ('s, acquisition) io" where
  "wait_for_slot 0 M R li slots base token task bulk wait_seconds started waiting_logged = io_ret OutOfFuel"
| "wait_for_slot (Suc fuel) M R li slots base token task bulk wait_seconds started waiting_logged =
     io_bind (should_stop_now M bulk) (\<lambda>stop.
     if stop then io_seq (wait_metrics M li slots ''cancelled'') (io_ret (SlotCancelled (cancelled_text li)))
     else io_bind (io_read (m_mono M)) (\<lambda>now.
     if now - started \<ge> wait_seconds * 1000
     then io_seq (wait_metrics M li slots ''timeout'') (io_ret (SlotTimeout (timeout_text li slots wait_seconds)))
     else io_bind (try_slots M R li token [0..<nat slots]) (\<lambda>got.
     case got of
       Some idx \<Rightarrow>
         io_seq (wait_metrics M li slots ''acquired'')
        (io_seq (if waiting_logged
                 then task_log M (Some task) ''Sistema''
                        (''Slot '' @ show_int (int idx + 1) @ ''/'' @ show_int slots @ '' liberado no Jump Host '' @ li_label li
                         @ ''. Prosseguindo com o backup.'') ''info''
                 else io_ret ())
         (io_ret (Acquired (li\<lparr>li_max_slots := slots, li_base_slots := base\<rparr>) (slot_key li idx) (idx + 1))))
     | None \<Rightarrow>
         io_seq (if waiting_logged then io_ret ()
                 else task_log M (Some task) ''Sistema''
                        (''Jump Host compartilhado detectado ('' @ li_label li @ ''). Aguardando slot livre (max ''
                         @ show_int slots @ '' conexoes simultaneas) para evitar excesso de canais SSH.'') ''info'')
        (io_bind (sleep_with_stop_poll M 1000 bulk) (\<lambda>stopped.
           if stopped then io_seq (wait_metrics M li slots ''cancelled'') (io_ret (SlotCancelled (cancelled_text li)))
           else wait_for_slot fuel M R li slots base token task bulk wait_seconds started True)))))"

text \<open>The part of \<open>_jump_host_lock_context\<close> before the \<open>yield\<close>, and its \<open>finally\<close>.\<close>

definition enter_jump_host_lock ::
  "nat \<Rightarrow> 's machine \<Rightarrow> string \<Rightarrow> string \<Rightarrow> string \<Rightarrow> string option \<Rightarrow> ('s, acquisition) io" where
  "enter_jump_host_lock fuel M token device_id task bulk =
     io_bind (resolve_jump_host_lock M device_id) (\<lambda>lock_info.
     case lock_info of
       None \<Rightarrow> io_ret NoLock
     | Some li \<Rightarrow>
         (case m_client M of
            None \<Rightarrow>
              io_seq (tell_m M (LogLine ''Redis indisponivel; seguindo sem lock de Jump Host''))
                (io_ret (Unlocked (li\<lparr>li_max_slots := (if li_base_slots li = 0 then 1 else li_base_slots li)\<rparr>)))
          | Some R \<Rightarrow>
              (let base = lock_base_slots li
               in io_bind (resolve_effective_jump_host_slots (m_cfg M) (Some R)
                     (parse_jump_host_slot_overrides (m_env M)) (li_label li) base) (\<lambda>slots.
                  io_bind (effective_jump_host_wait_seconds M bulk) (\<lambda>wait_seconds.
                  io_bind (io_read (m_mono M)) (\<lambda>started.
                  wait_for_slot fuel M R li slots base token task bulk wait_seconds started False))))))"

definition leave_jump_host_lock :: "'s machine \<Rightarrow> string \<Rightarrow> acquisition \<Rightarrow> ('s, unit) io" where
  "leave_jump_host_lock M token acq =
     (case (m_client M, acq) of
        (Some R, Acquired li key idx) \<Rightarrow>
          io_try
            (io_bind (r_get R key) (\<lambda>owner. if owner = Some (RText token) then r_unlock R key token else io_ret ()))
            (tell_m M (LogLine ''Falha ao liberar lock de Jump Host''))
      | _ \<Rightarrow> io_ret ())"

section \<open>The task\<close>

datatype executor_end = Returned bool "string option" | RaisedExn "string option" string

type_synonym 's executor = "string \<Rightarrow> string \<Rightarrow> 's \<Rightarrow> executor_end \<times> 's"

definition run_executor :: "'s executor \<Rightarrow> string \<Rightarrow> string \<Rightarrow> ('s, executor_end) io" where
  "run_executor ex device_id task s = (let (r, s') = ex device_id task s in (Some r, s'))"

record attempt =
  at_task :: string
  at_bulk :: "string option"
  at_device :: string
  at_started :: int
  at_context :: device_context

definition base_metric_labels :: "device_context \<Rightarrow> (string \<times> string) list" where
  "base_metric_labels cx =
     [(''tenant_id'', or_unknown (cx_tenant_id cx)), (''device_type'', or_unknown (cx_device_type cx)),
      (''script_name'', or_unknown (cx_script_name cx)), (''group_name'', or_unknown (cx_group_name cx)),
      (''target_host'', or_unknown (cx_target_host cx)),
      (''target_port'', if cx_target_port cx = [] then ''0'' else cx_target_port cx),
      (''jump_host'', or_unknown (cx_jump_host cx))]"

text \<open>The fields both events of an attempt have; the task is declared with \<open>max_retries=0\<close>, so it is the first.\<close>

definition attempt_fields :: "string option \<Rightarrow> string \<Rightarrow> string \<Rightarrow> device_context \<Rightarrow> (string \<times> string) list" where
  "attempt_fields bulk task device_id cx =
     [(''task_id'', task)] @ (if or_empty bulk = [] then [] else [(''bulk_task_id'', or_empty bulk)]) @
     [(''device_id'', device_id)] @ base_metric_labels cx @
     [(''attempt'', ''1''), (''retries_done'', ''0''), (''max_retries'', ''0'')]"

definition track_attempt_outcome :: "'s machine \<Rightarrow> attempt \<Rightarrow> string \<Rightarrow> string \<Rightarrow> string option \<Rightarrow> ('s, unit) io" where
  "track_attempt_outcome M a outcome category message =
     (let labels = base_metric_labels (at_context a) @ [(''outcome'', or_unknown outcome),
                     (''category'', if category = [] then ''none'' else category)]
      in io_bind (io_read (\<lambda>s. max 0 (m_mono M s - at_started a))) (\<lambda>duration_ms.
         io_seq (tell_m M (Observe ''backup_task_duration_seconds'' labels))
        (io_seq (tell_m M (Counter ''backup_task_total'' labels))
        (io_seq (tell_m M (Event ''backup_task_attempt_finished''
            (attempt_fields (at_bulk a) (at_task a) (at_device a) (at_context a) @
             [(''outcome'', or_unknown outcome), (''category'', if category = [] then ''none'' else category),
              (''duration_ms'', show_int duration_ms)] @
             (if or_empty message = [] then [] else [(''message'', take 500 (or_empty message))]))))
         (touch_bulk_activity M (at_bulk a))))))"

definition task_result :: "string \<Rightarrow> bool \<Rightarrow> string \<Rightarrow> string option \<Rightarrow> bool \<Rightarrow> pydict" where
  "task_result device_id success message category with_category =
     [(''device_id'', PStr device_id), (''success'', PBool success), (''message'', PStr message)] @
     (if with_category then [(''failure_category'', opt_str category)] else [])"

text \<open>Every exit of the task writes the final metadata, a log line and the telemetry.\<close>

definition finish_task ::
  "'s machine \<Rightarrow> attempt \<Rightarrow> string \<Rightarrow> string \<Rightarrow> pydict \<Rightarrow> string \<Rightarrow> string \<Rightarrow> string \<Rightarrow> string \<Rightarrow> string option \<Rightarrow> ('s, pydict) io" where
  "finish_task M a status message res line level outcome category tracked =
     io_bind (task_meta M (at_task a)
        [(''status'', PStr status), (''progress'', PInt 100), (''message'', PStr message),
         (''completed'', PBool True), (''result'', PDict res)]) (\<lambda>_.
     io_seq (task_log M (Some (at_task a)) ''Sistema'' line level)
    (io_seq (track_attempt_outcome M a outcome category tracked) (io_ret res)))"

definition finish_backup :: "'s machine \<Rightarrow> attempt \<Rightarrow> string \<Rightarrow> lock_info option \<Rightarrow> bool \<Rightarrow> string option \<Rightarrow> ('s, pydict) io" where
  "finish_backup M a cb_jump_label li success message0 =
     (let ov = parse_jump_host_slot_overrides (m_env M);
          message1 = py_strip (or_empty message0);
          message = (if \<not> success \<and> message1 = [] then ''Falha sem mensagem retornada pelo executor.'' else message1);
          category = (if \<not> success then Some (classify_failure (Some message)) else None);
          res = task_result (at_device a) success message category True
      in if success then
           io_seq (adapt_jump_host_slots (m_cfg M) (m_client M) (m_emit M) ov li True (Some message))
          (io_seq (if cb_jump_label \<noteq> ''direct''
                   then io_bind (io_read (m_mono M)) (\<lambda>now.
                          record_jump_host_outcome (m_cfg M) (m_client M) (m_emit M) now cb_jump_label True)
                   else io_ret ())
           (finish_task M a ''success'' (if message = [] then ''Backup concluido com sucesso.'' else message) res
              ''Backup finalizado com sucesso.'' ''success'' ''success'' ''none'' (Some message)))
         else
           io_seq (adapt_jump_host_slots (m_cfg M) (m_client M) (m_emit M) ov li False (Some message))
          (io_seq (if cb_jump_label \<noteq> ''direct'' then
                     (if category = Some ''banner_timeout''
                      then io_bind (io_read (m_mono M)) (\<lambda>now.
                             record_jump_host_outcome (m_cfg M) (m_client M) (m_emit M) now cb_jump_label True)
                      else if or_empty category \<in> set CB_FAILURE_CATEGORIES
                      then io_bind (io_read (m_mono M)) (\<lambda>now.
                             record_jump_host_outcome (m_cfg M) (m_client M) (m_emit M) now cb_jump_label False)
                      else io_ret ())
                   else io_ret ())
           (finish_task M a ''failed'' message res ''Backup finalizado com falha.'' ''error'' ''failed''
              (if or_empty category = [] then ''failure'' else or_empty category) (Some message))))"

text \<open>The lock for the adaptation after an exception: resolved again when the \<open>with\<close> gave none.\<close>

definition lock_or_resolve :: "'s machine \<Rightarrow> string \<Rightarrow> lock_info option \<Rightarrow> ('s, lock_info option) io" where
  "lock_or_resolve M device_id li = (case li of None \<Rightarrow> resolve_jump_host_lock M device_id | Some l \<Rightarrow> io_ret (Some l))"

definition fail_backup :: "'s machine \<Rightarrow> attempt \<Rightarrow> lock_info option \<Rightarrow> string option \<Rightarrow> string \<Rightarrow> ('s, pydict) io" where
  "fail_backup M a li exn_text cls =
     (let error_text = safe_error_text (Some (exn_text, cls)) ''Erro sem detalhe.'';
          category0 = classify_failure (Some error_text);
          category = (if category0 = [] then ''task_exception'' else category0);
          message = ''Erro na task: '' @ error_text;
          res = task_result (at_device a) False message (Some category) True
      in io_bind (lock_or_resolve M (at_device a) li) (\<lambda>li'.
         io_seq (adapt_jump_host_slots (m_cfg M) (m_client M) (m_emit M) (parse_jump_host_slot_overrides (m_env M)) li' False (Some error_text))
           (finish_task M a ''failed'' message res (''Erro na task ('' @ category @ ''): '' @ error_text) ''error''
              ''failed'' category (Some error_text))))"

definition run_with_lock ::
  "nat \<Rightarrow> 's machine \<Rightarrow> 's executor \<Rightarrow> string \<Rightarrow> attempt \<Rightarrow> string \<Rightarrow> ('s, pydict) io" where
  "run_with_lock fuel M ex token a cb_jump_label =
     io_bind (enter_jump_host_lock fuel M token (at_device a) (at_task a) (at_bulk a)) (\<lambda>acq.
     case acq of
       SlotCancelled why \<Rightarrow>
         finish_task M a ''stopped'' why (task_result (at_device a) False why (Some ''cancelled'') True)
           why ''warning'' ''stopped'' ''jump_host_slot_cancelled'' (Some why)
     | SlotTimeout why \<Rightarrow>
         io_bind (resolve_jump_host_lock M (at_device a)) (\<lambda>li.
         io_seq (adapt_jump_host_slots (m_cfg M) (m_client M) (m_emit M) (parse_jump_host_slot_overrides (m_env M)) li False (Some why))
           (finish_task M a ''failed'' why (task_result (at_device a) False why (Some ''jump_host_slot_timeout'') True)
              why ''error'' ''failed'' ''jump_host_slot_timeout'' (Some why)))
     | OutOfFuel \<Rightarrow> io_raise
     | _ \<Rightarrow>
         (let li = (case acq of Unlocked l \<Rightarrow> Some l | Acquired l key idx \<Rightarrow> Some l | _ \<Rightarrow> None)
          in io_bind (run_executor ex (at_device a) (at_task a)) (\<lambda>r.
             io_seq (leave_jump_host_lock M token acq)
               (case r of
                  Returned success message \<Rightarrow> finish_backup M a cb_jump_label li success message
                | RaisedExn exn_text cls \<Rightarrow> fail_backup M a li exn_text cls))))"

definition internal_run_backup_task ::
  "nat \<Rightarrow> 's machine \<Rightarrow> 's executor \<Rightarrow> string \<Rightarrow> string \<Rightarrow> string \<Rightarrow> string option \<Rightarrow> ('s, pydict) io" where
  "internal_run_backup_task fuel M ex token task_id device_id bulk_task_id =
     io_bind (io_read (m_mono M)) (\<lambda>started.
     io_bind (resolve_device_observability_context M device_id) (\<lambda>cx.
     let a = \<lparr>at_task = task_id, at_bulk = bulk_task_id, at_device = device_id, at_started = started, at_context = cx\<rparr>
     in
     io_seq (tell_m M (Event ''backup_task_attempt_started'' (attempt_fields bulk_task_id task_id device_id cx)))
    (io_seq (touch_bulk_activity M bulk_task_id)
    (io_bind (should_stop_now M bulk_task_id) (\<lambda>stop.
     if stop then
       (let why = ''Backup interrompido pelo operador (parada for'' @ [CHR 0xE7] @ ''ada).''
        in finish_task M a ''stopped'' (''Execucao interrompida por parada for'' @ [CHR 0xE7] @ ''ada.'')
             (task_result device_id False why None False)
             (''Task interrompida por parada for'' @ [CHR 0xE7] @ ''ada.'') ''warning'' ''stopped'' ''cancelled'' (Some why))
     else
     io_bind (validate_device_execution_allowed M device_id) (\<lambda>(allowed, block_message, block_category).
     if \<not> allowed then
       (let why = (if or_empty block_message = [] then ''Execucao bloqueada por politica de estado.'' else or_empty block_message);
            category = (if or_empty block_category = [] then ''blocked'' else or_empty block_category)
        in finish_task M a ''failed'' why (task_result device_id False why (Some category) True)
             why ''warning'' ''failed'' category (Some why))
     else
     io_bind (task_meta M task_id
        [(''status'', PStr ''running''), (''progress'', PInt 10),
         (''message'', PStr ''Iniciando conexao com o dispositivo...''), (''completed'', PBool False)]) (\<lambda>_.
     io_seq (task_log M (Some task_id) ''Sistema'' (''Backup iniciado para dispositivo '' @ device_id) ''info'')
    (let cb_jump_label = or_unknown (cx_jump_host cx)
     in io_bind (if cb_jump_label \<noteq> ''direct''
                 then io_bind (io_read (m_mono M)) (\<lambda>now.
                        check_jump_host_circuit_breaker (m_cfg M) (m_client M) (m_emit M) now cb_jump_label)
                 else io_ret (False, [], 0)) (\<lambda>(cb_open, cb_reason, cb_retry_after).
        if cb_open then
          finish_task M a ''failed'' cb_reason (task_result device_id False cb_reason (Some ''circuit_breaker'') True)
            cb_reason ''warning'' ''circuit_breaker'' ''circuit_breaker'' (Some cb_reason)
        else run_with_lock fuel M ex token a cb_jump_label)))))))))"

end
