(* ===== verification/BackupTask.thy ===== *)
theory BackupTask
  imports BackupRun Footprint
begin

text \<open>
  What holds of the backup task of \<open>BackupRun\<close>: who gets a slot of the jump host and who frees it, that the
  wait for one ends, what the task leaves in its metadata, and when the device is contacted at all.
\<close>

section \<open>Lemmas on the slots\<close>

lemma slot_key_inj: "slot_key li i = slot_key li j \<longleftrightarrow> i = j"
proof
  assume "slot_key li i = slot_key li j"
  then have "py_int (show_int (int i)) = py_int (show_int (int j))" by (simp add: slot_key_def)
  then show "i = j" by (simp add: py_int_show_int)
qed simp

definition free_slot :: "lock_info \<Rightarrow> store \<Rightarrow> nat \<Rightarrow> bool" where
  "free_slot li st i \<longleftrightarrow> st_find (slot_key li i) st = None"

definition hold_slot :: "task_config \<Rightarrow> lock_info \<Rightarrow> string \<Rightarrow> nat \<Rightarrow> store \<Rightarrow> store" where
  "hold_slot cfg li token i st =
     st_put (slot_key li i) (DStr (RText token)) (Some (st_now st + lock_timeout_seconds cfg * 1000)) st"

context worker
begin

lemma try_slots_view:
  assumes "0 < lock_timeout_seconds (m_cfg M)"
  shows "fst (try_slots M R li token idxs s) = Some (find (free_slot li (view s)) idxs) \<and>
    view (snd (try_slots M R li token idxs s)) =
      (case find (free_slot li (view s)) idxs of None \<Rightarrow> view s | Some i \<Rightarrow> hold_slot (m_cfg M) li token i (view s))"
proof (induction idxs arbitrary: s)
  case Nil
  then show ?case by (simp add: io_ret_def)
next
  case (Cons i idxs)
  obtain r s1 where set: "r_set_nx R (slot_key li i) (RText token) (lock_timeout_seconds (m_cfg M)) s = (r, s1)" by fastforce
  have nx: "r = fst (st_set_nx (slot_key li i) (RText token) (lock_timeout_seconds (m_cfg M)) (view s))"
    "view s1 = snd (st_set_nx (slot_key li i) (RText token) (lock_timeout_seconds (m_cfg M)) (view s))"
    using io_sim_fst [OF sim_set_nx] io_sim_snd [OF sim_set_nx] set by (metis fst_conv, metis snd_conv)
  show ?case
  proof (cases "free_slot li (view s) i")
    case True
    then have "r = Some True" "view s1 = hold_slot (m_cfg M) li token i (view s)"
      using nx assms by (simp_all add: st_set_nx_def free_slot_def hold_slot_def)
    with set True show ?thesis by (simp add: io_bind_def io_try_def io_ret_def)
  next
    case False
    then have "st_find (slot_key li i) (view s) \<noteq> None" by (simp add: free_slot_def)
    then have "r = Some False" "view s1 = view s"
      using nx assms by (simp_all add: st_set_nx_def del: not_None_eq)
    with set False Cons.IH [of s1] show ?thesis by (simp add: io_bind_def io_try_def split: option.split)
  qed
qed

lemma leave_view:
  assumes "m_client M = Some R" "m_emit M = emit"
  shows "fst (leave_jump_host_lock M token (Acquired li key idx) s) = Some () \<and>
    view (snd (leave_jump_host_lock M token (Acquired li key idx) s)) =
      (case st_find key (view s) of Some (DStr v, _) \<Rightarrow> if v = RText token then st_del key (view s) else view s | _ \<Rightarrow> view s)"
proof -
  have "io_sim view (leave_jump_host_lock M token (Acquired li key idx))
     (io_try (io_bind (st_get key) (\<lambda>owner. if owner = Some (RText token) then st_unlock key token else io_ret ())) (io_ret ()))"
    unfolding leave_jump_host_lock_def tell_m_def assms prod.case option.case acquisition.case
    by (intro sim)
  from io_sim_fst [OF this, of s] io_sim_snd [OF this, of s] show ?thesis
    by (auto simp: io_try_def io_bind_def io_ret_def st_get_def st_unlock_def split: option.splits rdata.splits prod.splits)
qed

end


section \<open>Footprints of the task's steps\<close>

context client_order
begin

lemma within_get_meta [within]: "io_within r (get_task_meta (Some R) emit t)"
  unfolding get_task_meta_def by (auto intro!: within)

lemma within_release: "free (tenant_active_bulk_key tn) \<Longrightarrow> io_within r (release_tenant_bulk_lock (Some R) emit tn t)"
  unfolding release_tenant_bulk_lock_def by (auto intro!: within within_delete)

lemma within_write_meta:
  assumes "free (task_meta_key t)" "\<And>tn. free (tenant_active_bulk_key tn)"
  shows "io_within r (write_task_meta cfg (Some R) emit t d)"
  unfolding write_task_meta_def Let_def using assms by (auto intro!: within within_setex within_release)

lemma within_update_meta:
  assumes "free (task_meta_key t)" "\<And>tn. free (tenant_active_bulk_key tn)"
  shows "io_within r (update_task_meta cfg (Some R) emit now t d)"
  unfolding update_task_meta_def Let_def using assms by (auto intro!: within within_write_meta)

lemma within_prune:
  assumes "free GLOBAL_LOG_KEY"
  shows "io_within r (prune_loop fuel R cutoff n)"
proof (induction fuel arbitrary: n)
  case (Suc fuel)
  then show ?case
    by (auto intro!: within within_lpop assms split: age_verdict.split)
qed (auto intro: within)

lemma within_append:
  assumes "free (task_log_key (or_empty t))" "free (task_log_seq_key (or_empty t))" "free GLOBAL_LOG_KEY" "free GLOBAL_LOG_SEQ_KEY"
  shows "io_within r (append_task_log fuel cfg (Some R) emit ck iv cache t who m level)"
  unfolding append_task_log_def append_failed_def maybe_prune_global_logs_by_age_def prune_global_logs_by_age_def Let_def
  using assms
  by (auto intro!: within within_incr within_rpush within_ltrim within_expire within_prune)

end

text \<open>A machine whose client, sink and setters respect a relation.\<close>

locale machine_order = client_order r R emit free
  for r :: "'s \<Rightarrow> 's \<Rightarrow> bool" and R emit free +
  fixes M :: "'s machine"
  assumes client: "m_client M = Some R" and sink: "m_emit M = emit"
    and prune_cache_within: "r s (m_set_prune_cache M n s)" and counts_within: "r s (m_set_counts M c s)"
begin

lemma within_read [within]: "io_within r (io_read f)"
  by (simp add: io_within_def io_read_def r_refl)

lemma within_tell_m [within]: "io_within r (tell_m M t)"
  unfolding tell_m_def sink by (rule within_tell)

lemma within_task_log:
  assumes "free (task_log_key (or_empty t))" "free (task_log_seq_key (or_empty t))" "free GLOBAL_LOG_KEY" "free GLOBAL_LOG_SEQ_KEY"
  shows "io_within r (task_log M t who m level)"
proof -
  have "io_within r (io_write (m_set_prune_cache M n))" for n
    by (simp add: io_within_def io_write_def prune_cache_within)
  then show ?thesis
    unfolding task_log_def client sink by (intro within within_append assms)
qed

lemma within_task_meta:
  assumes "free (task_meta_key t)" "\<And>tn. free (tenant_active_bulk_key tn)"
  shows "io_within r (task_meta M t d)"
  unfolding task_meta_def client sink by (intro within within_update_meta assms)

lemma within_should_stop [within]: "io_within r (should_stop_now M bulk)"
  unfolding should_stop_now_def is_global_backup_stop_enabled_def is_bulk_cancelled_def client sink
  by (auto intro!: within)

lemma within_wait_metrics [within]: "io_within r (wait_metrics M li slots x)"
  unfolding wait_metrics_def by (intro within)

lemma within_try_slots:
  assumes "\<And>i. free (slot_key li i)"
  shows "io_within r (try_slots M R li token idxs)"
  by (induction idxs) (auto intro!: within within_set_nx assms)

lemma within_touch:
  assumes "bulk \<noteq> None \<Longrightarrow> free (task_meta_key (the bulk))" "\<And>tn. free (tenant_active_bulk_key tn)"
  shows "io_within r (touch_bulk_activity M bulk)"
  unfolding touch_bulk_activity_def using assms
  by (cases bulk) (auto intro!: within within_task_meta simp: or_empty_def)

lemma within_track:
  assumes "at_bulk a \<noteq> None \<Longrightarrow> free (task_meta_key (the (at_bulk a)))" "\<And>tn. free (tenant_active_bulk_key tn)"
  shows "io_within r (track_attempt_outcome M a x c m)"
  unfolding track_attempt_outcome_def Let_def by (intro within within_touch assms)

end


section \<open>A host\<close>

text \<open>The monotonic clock does not go back.\<close>

definition later :: "'s machine \<Rightarrow> 's \<Rightarrow> 's \<Rightarrow> bool" where
  "later M s s' \<longleftrightarrow> m_mono M s \<le> m_mono M s'"

text \<open>
  A worker process on a server: its client and sink are the server's, the module variables are not in the
  store, the clock goes forward and \<open>time.sleep(n)\<close> returns after at least \<open>n\<close> milliseconds.
\<close>

locale host = worker R view emit for R :: "'s redis" and view emit +
  fixes M :: "'s machine"
  assumes host_client: "m_client M = Some R" and host_sink: "m_emit M = emit"
    and prune_cache_frame: "view (m_set_prune_cache M n s) = view s"
    and counts_frame: "view (m_set_counts M c s) = view s"
    and forward: "machine_order (later M) R emit (\<lambda>_. True) M"
    and sleep_total: "io_total (m_sleep M n)"
    and sleep_advances: "0 \<le> n \<Longrightarrow> m_mono M s + n \<le> m_mono M (snd (m_sleep M n s))"
begin

lemma same_key_machine: "machine_order (same_key view k) R emit (\<lambda>k'. k' \<noteq> k) M"
  by (rule machine_order.intro [OF same_key_client])
    (unfold_locales, simp_all add: host_client host_sink same_key_def prune_cache_frame counts_frame)

lemmas fwd = machine_order.within_should_stop [OF forward] machine_order.within_read [OF forward]
  machine_order.within_wait_metrics [OF forward]

lemma fwd_log: "io_within (later M) (task_log M task who msg lvl)"
  by (rule machine_order.within_task_log [OF forward]) simp_all

lemma fwd_slots: "io_within (later M) (try_slots M R li token idxs)"
  by (rule machine_order.within_try_slots [OF forward]) simp

lemma at_least_spec: "io_within (later M) m \<Longrightarrow> io_spec (\<lambda>s. t \<le> m_mono M s) m (\<lambda>_ s. t \<le> m_mono M s) (\<lambda>_. True)"
  unfolding io_spec_def io_within_def later_def
  by (auto split: prod.splits option.splits) (metis order_trans snd_conv)

lemma nap_spec: "io_spec (\<lambda>s. t \<le> m_mono M s) (m_sleep M 1000) (\<lambda>_ s. t + 1000 \<le> m_mono M s) (\<lambda>_. True)"
proof (rule io_specI)
  fix s assume "t \<le> m_mono M s"
  with sleep_advances [of 1000 s] show "case m_sleep M 1000 s of (None, s') \<Rightarrow> True | (Some a, s') \<Rightarrow> t + 1000 \<le> m_mono M s'"
    by (cases "m_sleep M 1000 s") (simp split: option.split)
qed

lemma poll_spec:
  "io_spec (\<lambda>s. t \<le> m_mono M s) (sleep_with_stop_poll M 1000 bulk) (\<lambda>stopped s. stopped \<or> t + 1000 \<le> m_mono M s) (\<lambda>_. True)"
proof -
  have stop: "io_spec (\<lambda>s. u \<le> m_mono M s) (should_stop_now M bulk) (\<lambda>_ s. u \<le> m_mono M s) (\<lambda>_. True)" for u
    by (intro at_least_spec fwd)
  have last: "io_spec (\<lambda>s. t + 1000 \<le> m_mono M s) (sleep_with_stop_poll M 0 bulk) (\<lambda>stopped s. stopped \<or> t + 1000 \<le> m_mono M s) (\<lambda>_. True)"
    by (subst sleep_with_stop_poll.simps) (auto intro: spec_conseq [OF stop])
  show ?thesis
    by (subst sleep_with_stop_poll.simps) (auto intro!: spec_bind [OF stop] spec_seq [OF nap_spec] spec_ret last)
qed

text \<open>The steps that read the clock.\<close>

lemma spec_read: "(\<And>v. io_spec (\<lambda>s. P s \<and> f s = v) (g v) Q E) \<Longrightarrow> io_spec P (io_bind (io_read f) g) Q E"
  by (simp add: io_spec_def io_bind_def io_read_def)

lemma spec_pure: "(\<And>s. P s \<Longrightarrow> b) \<Longrightarrow> (b \<Longrightarrow> io_spec P m Q E) \<Longrightarrow> io_spec P m Q E"
  by (auto simp: io_spec_def)

lemma spec_option: "io_spec P m Q E \<Longrightarrow> (\<And>x. io_spec P (f x) Q E) \<Longrightarrow>
  io_spec P (case o' of None \<Rightarrow> m | Some x \<Rightarrow> f x) Q E"
  by (cases o') auto

lemma ends_ret: "acq \<noteq> OutOfFuel \<Longrightarrow> io_spec P (io_seq m (io_ret acq)) (\<lambda>acq _. acq \<noteq> OutOfFuel) (\<lambda>_. True)"
  by (auto simp: io_spec_def io_seq_def io_bind_def io_ret_def split: prod.splits option.splits)

lemma ends_ret2: "acq \<noteq> OutOfFuel \<Longrightarrow> io_spec P (io_seq m (io_seq n (io_ret acq))) (\<lambda>acq _. acq \<noteq> OutOfFuel) (\<lambda>_. True)"
  by (auto simp: io_spec_def io_seq_def io_bind_def io_ret_def split: prod.splits option.splits)

lemma wait_step:
  assumes rest: "fuel \<noteq> 0 \<Longrightarrow> io_spec (\<lambda>s. started + (wait_seconds - int fuel) * 1000 + 1000 \<le> m_mono M s)
      (wait_for_slot fuel M R li slots base token task bulk wait_seconds started True) (\<lambda>acq _. acq \<noteq> OutOfFuel) (\<lambda>_. True)"
  shows "io_spec (\<lambda>s. started + (wait_seconds - int fuel) * 1000 \<le> m_mono M s)
      (wait_for_slot (Suc fuel) M R li slots base token task bulk wait_seconds started logged)
      (\<lambda>acq _. acq \<noteq> OutOfFuel) (\<lambda>_. True)"
proof -
  define t where "t = started + (wait_seconds - int fuel) * 1000"
  have keep: "io_spec (\<lambda>s. t \<le> m_mono M s) m (\<lambda>_ s. t \<le> m_mono M s) (\<lambda>_. True)" if "io_within (later M) m" for m :: "('s, 'b) io"
    using that by (rule at_least_spec)
  have again: "io_spec (\<lambda>s. t \<le> m_mono M s)
      (io_bind (sleep_with_stop_poll M 1000 bulk) (\<lambda>stopped.
         if stopped then io_seq (wait_metrics M li slots ''cancelled'') (io_ret (SlotCancelled (cancelled_text li)))
         else wait_for_slot fuel M R li slots base token task bulk wait_seconds started True))
      (\<lambda>acq _. acq \<noteq> OutOfFuel) (\<lambda>_. True)" if "fuel \<noteq> 0"
  proof (rule spec_bind [OF poll_spec])
    show "io_spec (\<lambda>s. stopped \<or> t + 1000 \<le> m_mono M s)
        (if stopped then io_seq (wait_metrics M li slots ''cancelled'') (io_ret (SlotCancelled (cancelled_text li)))
         else wait_for_slot fuel M R li slots base token task bulk wait_seconds started True)
        (\<lambda>acq _. acq \<noteq> OutOfFuel) (\<lambda>_. True)" for stopped
      using rest [OF that] by (cases stopped) (auto intro: ends_ret simp: t_def)
  qed
  show ?thesis
    unfolding wait_for_slot.simps t_def [symmetric]
  proof (rule spec_bind [OF keep [OF fwd(1)]], goal_cases)
    case (1 stop)
    show ?case
    proof (cases stop)
      case False
      have log: "io_spec (\<lambda>s. t \<le> m_mono M s) (if b then io_ret () else task_log M task who msg lvl)
          (\<lambda>_ s. t \<le> m_mono M s) (\<lambda>_. True)" for b task who msg lvl
        using keep [OF fwd_log] by (simp add: spec_ret)
      have narrow: "io_spec (\<lambda>s. t \<le> m_mono M s) m Q E \<Longrightarrow> io_spec (\<lambda>s. t \<le> m_mono M s \<and> m_mono M s = now) m Q E"
        for m :: "('s, acquisition) io" and Q E now by (erule spec_conseq) auto
      show ?thesis
        apply (simp only: False if_False)
        apply (rule spec_read)
        subgoal for now
          apply (cases "now - started \<ge> wait_seconds * 1000")
           apply (simp add: ends_ret)
          apply (rule spec_pure [where b = "fuel \<noteq> 0"])
           apply (auto simp: t_def)[1]
          apply (simp only: if_False)
          apply (rule narrow)
          apply (rule spec_bind [OF keep [OF fwd_slots]])
          apply (rule spec_option)
           apply (rule spec_seq [OF log])
           apply (erule again)
          apply (simp only: ends_ret2 acquisition.simps not_False_eq_True)
          done
        done
    qed (simp add: ends_ret)
  qed
qed

lemma wait_spec:
  "io_spec (\<lambda>s. started + (wait_seconds - int fuel) * 1000 \<le> m_mono M s)
     (wait_for_slot (Suc fuel) M R li slots base token task bulk wait_seconds started logged)
     (\<lambda>acq _. acq \<noteq> OutOfFuel) (\<lambda>_. True)"
proof (induction fuel arbitrary: logged)
  case 0
  show ?case by (rule wait_step) simp
next
  case (Suc fuel)
  show ?case by (rule wait_step) (rule spec_conseq [OF Suc.IH], auto simp: algebra_simps)
qed

lemma enter_spec:
  assumes "lock_wait_seconds (m_cfg M) < int fuel" "30 < fuel"
  shows "io_spec (\<lambda>_. True) (enter_jump_host_lock fuel M token device_id task bulk) (\<lambda>acq _. acq \<noteq> OutOfFuel) (\<lambda>_. True)"
proof -
  obtain n where n: "fuel = Suc n" using assms(2) by (cases fuel) auto
  have any: "io_spec P m (\<lambda>_ _. True) (\<lambda>_. True)" for P and m :: "('s, 'b) io"
    by (auto simp: io_spec_def split: prod.splits option.splits)
  have wait: "io_spec (\<lambda>_. True) (effective_jump_host_wait_seconds M bulk) (\<lambda>w _. w \<le> int n) (\<lambda>_. True)"
    unfolding effective_jump_host_wait_seconds_def
    by (rule spec_bind [OF any]) (use assms n in \<open>auto intro!: spec_ret\<close>)
  have run: "io_spec (\<lambda>s. w \<le> int n \<and> m_mono M s = started)
      (wait_for_slot fuel M R li slots base token task bulk w started False) (\<lambda>acq _. acq \<noteq> OutOfFuel) (\<lambda>_. True)" for w started li slots base
    unfolding n by (rule spec_conseq [OF wait_spec]) auto
  show ?thesis
    unfolding enter_jump_host_lock_def host_client Let_def
    by (rule spec_bind [OF any])
      (auto split: option.split intro!: spec_ret spec_bind [OF any] spec_bind [OF wait] spec_read run)
qed

section \<open>The task reports how it ended\<close>

lemma tell_m_total [total_io]: "io_total (tell_m M t)"
  unfolding tell_m_def by (rule io_total_tell)

lemma read_total [total_io]: "io_total (io_read f)"
  by (simp add: io_total_def io_read_def)

lemma write_total [total_io]: "io_total (io_write f)"
  by (simp add: io_total_def io_write_def)

lemma prod_total [total_io]: "(\<And>x y. io_total (f x y)) \<Longrightarrow> io_total (case p of (x, y) \<Rightarrow> f x y)"
  by (cases p) auto

lemma log_total [total_io]: "io_total (task_log M task who msg lvl)"
  unfolding task_log_def by (intro total_io)

lemma meta_total [total_io]: "io_total (task_meta M task d)"
  unfolding task_meta_def by (intro total_io)

lemma stop_total [total_io]: "io_total (should_stop_now M bulk)"
  unfolding should_stop_now_def is_global_backup_stop_enabled_def is_bulk_cancelled_def by (intro total_io)

lemma poll_total [total_io]: "io_total (sleep_with_stop_poll M 1000 bulk)"
proof -
  have "io_total (sleep_with_stop_poll M 0 bulk)" by (subst sleep_with_stop_poll.simps) (simp add: stop_total)
  then show ?thesis by (subst sleep_with_stop_poll.simps) (auto intro!: total_io sleep_total)
qed

lemma slots_total [total_io]: "io_total (try_slots M R' li token idxs)"
  by (induction idxs) (auto intro!: total_io)

lemma wait_total [total_io]: "io_total (wait_for_slot fuel M R' li slots base token task bulk w started logged)"
proof (induction fuel arbitrary: logged)
  case (Suc fuel)
  show ?case unfolding wait_for_slot.simps by (intro total_io Suc.IH) (auto simp: wait_metrics_def intro!: total_io)
qed (simp add: total_io)

lemma lock_total [total_io]: "io_total (resolve_jump_host_lock M device_id)"
  unfolding resolve_jump_host_lock_def by (intro total_io)

lemma count_total [total_io]: "io_total (get_bulk_device_count M bulk)"
  unfolding get_bulk_device_count_def Let_def by (intro total_io)

lemma enter_total [total_io]: "io_total (enter_jump_host_lock fuel M token device_id task bulk)"
  unfolding enter_jump_host_lock_def effective_jump_host_wait_seconds_def is_large_bulk_operation_def Let_def
  by (intro total_io)

lemma touch_total [total_io]: "io_total (touch_bulk_activity M bulk)"
  unfolding touch_bulk_activity_def by (intro total_io)

lemma track_total [total_io]: "io_total (track_attempt_outcome M a x c m)"
  unfolding track_attempt_outcome_def Let_def by (intro total_io)

lemma leave_total [total_io]: "io_total (leave_jump_host_lock M token acq)"
  unfolding leave_jump_host_lock_def by (cases acq) (auto intro!: total_io split: option.split)

lemma executor_total [total_io]: "io_total (run_executor ex d t)"
  by (auto simp: io_total_def run_executor_def Let_def split: prod.splits)

lemma context_total [total_io]: "io_total (resolve_device_observability_context M d)"
  unfolding resolve_device_observability_context_def by (intro total_io)

lemma allowed_total [total_io]: "io_total (validate_device_execution_allowed M d)"
  unfolding validate_device_execution_allowed_def by (intro total_io)

end

text \<open>The metadata of a task that is over, and the result it returned.\<close>

definition reported :: "string \<Rightarrow> pydict \<Rightarrow> pydict \<Rightarrow> bool" where
  "reported task res meta \<longleftrightarrow>
     dget meta ''task_id'' = PStr task \<and> dget meta ''completed'' = PBool True \<and> dget meta ''progress'' = PInt 100 \<and>
     dget meta ''result'' = PDict res \<and>
     dget meta ''status'' \<in> {PStr ''success'', PStr ''failed'', PStr ''stopped''} \<and>
     (dget res ''success'' = PBool True \<longleftrightarrow> dget meta ''status'' = PStr ''success'')"

text \<open>A call that always returns a result which is also reported.\<close>

definition reports :: "('s \<Rightarrow> store) \<Rightarrow> string \<Rightarrow> ('s, pydict) io \<Rightarrow> bool" where
  "reports view task m \<longleftrightarrow>
     io_spec (\<lambda>_. True) m (\<lambda>res s. reported task res (meta_of task (view s))) (\<lambda>_. False)"

lemma total_spec: "io_total m \<Longrightarrow> io_spec P m (\<lambda>_ _. True) E"
proof (rule io_specI)
  fix s assume "io_total m"
  from io_totalD [OF this, of s] show "case m s of (None, s') \<Rightarrow> E s' | (Some a, s') \<Rightarrow> True" by auto
qed

named_theorems reporting \<open>calls that end in a report\<close>

lemma reports_bind [reporting]: "io_total m \<Longrightarrow> (\<And>a. reports view task (f a)) \<Longrightarrow> reports view task (io_bind m f)"
  unfolding reports_def by (rule spec_bind [OF total_spec])

lemma reports_seq [reporting]: "io_total m \<Longrightarrow> reports view task n \<Longrightarrow> reports view task (io_seq m n)"
  unfolding io_seq_def by (rule reports_bind)

lemma reports_if [reporting]: "(b \<Longrightarrow> reports view task m) \<Longrightarrow> (\<not> b \<Longrightarrow> reports view task n) \<Longrightarrow> reports view task (if b then m else n)"
  by simp

lemma reports_prod [reporting]: "(\<And>x y. reports view task (f x y)) \<Longrightarrow> reports view task (case p of (x, y) \<Rightarrow> f x y)"
  by (cases p) auto

lemma reports_let [reporting]: "(\<And>x. reports view task (f x)) \<Longrightarrow> reports view task (Let v f)"
  by simp

context host
begin

lemma update_meta_view:
  assumes "log_config_ok cfg" "t \<noteq> []" "update_task_meta cfg (Some R) emit now t upd s = (r, s')"
  shows "r \<noteq> None \<and> meta_of t (view s') = merged_meta now t (meta_of t (view s)) upd"
proof -
  define d where "d = merged_meta now t (meta_of t (view s)) upd"
  obtain st' where w: "write_task_meta cfg (Some mem_redis) no_emit t d (view s) = (Some (), st')"
    and here: "st_find (task_meta_key t) st' = Some (DStr (RJson (PDict d)), Some (st_now (view s) + ttl_seconds cfg * 1000))"
    using write_store [OF assms(1,2), of d "view s"] by blast
  have "update_task_meta cfg (Some mem_redis) no_emit now t upd (view s) = (Some d, st')"
    using w assms(2) get_meta_is [OF assms(2), of "view s"]
    by (simp add: update_task_meta_def io_bind_def io_seq_def io_ret_def d_def Let_def)
  then have "r = Some d" "view s' = st'"
    using io_sim_fst [OF update_meta_sim, of cfg now t upd s] io_sim_snd [OF update_meta_sim, of cfg now t upd s] assms(3)
    by simp_all
  with here show ?thesis by (simp add: meta_of_def d_def)
qed

text \<open>An update of the metadata is there afterwards; what keeps the key keeps what holds of it.\<close>

lemma meta_spec:
  assumes "log_config_ok (m_log M)" "t \<noteq> []"
  shows "io_spec (\<lambda>_. True) (task_meta M t d) (\<lambda>_ s. \<exists>now old. meta_of t (view s) = merged_meta now t old d) (\<lambda>_. False)"
proof (rule io_specI)
  fix s
  obtain r s' where run: "update_task_meta (m_log M) (Some R) emit (m_now M s) t d s = (r, s')" by fastforce
  with update_meta_view [OF assms run] show "case task_meta M t d s of (None, s') \<Rightarrow> False
      | (Some _, s') \<Rightarrow> \<exists>now old. meta_of t (view s') = merged_meta now t old d"
    by (auto simp: task_meta_def io_bind_def io_read_def host_client host_sink intro!: exI)
qed

lemma same_meta_spec:
  assumes "io_within (same_key view (task_meta_key t)) m" "io_total m"
  shows "io_spec (\<lambda>s. Q (meta_of t (view s))) m (\<lambda>_ s. Q (meta_of t (view s))) (\<lambda>_. False)"
proof (rule io_specI)
  fix s assume Q: "Q (meta_of t (view s))"
  from io_totalD [OF assms(2), of s] io_withinD [OF assms(1), of s] Q
  show "case m s of (None, s') \<Rightarrow> False | (Some _, s') \<Rightarrow> Q (meta_of t (view s'))"
    by (auto simp: same_key_def meta_of_def)
qed

lemma meta_keys:
  "task_meta_key t' \<noteq> task_meta_key t \<longleftrightarrow> t' \<noteq> t" "tenant_active_bulk_key tn \<noteq> task_meta_key t"
  "task_log_key t' \<noteq> task_meta_key t" "task_log_seq_key t' \<noteq> task_meta_key t" "GLOBAL_LOG_KEY \<noteq> task_meta_key t"
  "GLOBAL_LOG_SEQ_KEY \<noteq> task_meta_key t"
  by (simp_all add: task_meta_key_def tenant_active_bulk_key_def TASK_META_PREFIX_def TENANT_ACTIVE_BULK_PREFIX_def
      task_log_key_def TASK_LOG_PREFIX_def task_log_seq_key_def TASK_LOG_SEQ_PREFIX_def GLOBAL_LOG_KEY_def GLOBAL_LOG_SEQ_KEY_def)

lemma log_keeps_meta:
  "io_spec (\<lambda>s. Q (meta_of t (view s))) (task_log M task who msg lvl) (\<lambda>_ s. Q (meta_of t (view s))) (\<lambda>_. False)"
  by (intro same_meta_spec machine_order.within_task_log [OF same_key_machine] total_io) (simp_all add: meta_keys)

lemma finish_reports [reporting]:
  assumes "log_config_ok (m_log M)" "at_task a \<noteq> []" "at_bulk a \<noteq> Some (at_task a)"
    and "(status, dget res ''success'') \<in> {(''success'', PBool True), (''failed'', PBool False), (''stopped'', PBool False)}"
  shows "reports view (at_task a) (finish_task M a status message res line level outcome category tracked)"
proof -
  let ?d = "[(''status'', PStr status), (''progress'', PInt 100), (''message'', PStr message),
         (''completed'', PBool True), (''result'', PDict res)]"
  let ?Q = "\<lambda>s. reported (at_task a) res (meta_of (at_task a) (view s))"
  have written: "io_spec (\<lambda>_. True) (task_meta M (at_task a) ?d) (\<lambda>_. ?Q) (\<lambda>_. False)"
    by (rule spec_conseq [OF meta_spec [OF assms(1,2)]]) (use assms(4) in \<open>auto simp: reported_def merged_meta_def\<close>)
  have log: "io_spec ?Q (task_log M (Some (at_task a)) ''Sistema'' line level) (\<lambda>_. ?Q) (\<lambda>_. False)"
    by (rule log_keeps_meta)
  have track: "io_spec ?Q (track_attempt_outcome M a outcome category tracked) (\<lambda>_. ?Q) (\<lambda>_. False)"
    by (intro same_meta_spec machine_order.within_track [OF same_key_machine] total_io) (use assms(3) in \<open>auto simp: meta_keys\<close>)
  show ?thesis
    unfolding reports_def finish_task_def
    by (intro spec_bind [OF written] spec_seq [OF log] spec_seq [OF track] spec_ret)
qed

lemma backup_reports:
  assumes "log_config_ok (m_log M)" "at_task a \<noteq> []" "at_bulk a \<noteq> Some (at_task a)"
  shows "reports view (at_task a) (finish_backup M a lab li ok message)"
    and "reports view (at_task a) (fail_backup M a li x c)"
  unfolding finish_backup_def fail_backup_def lock_or_resolve_def Let_def
  by (intro reporting total_io finish_reports assms; simp add: task_result_def)+

lemma run_reports:
  assumes "log_config_ok (m_log M)" "at_task a \<noteq> []" "at_bulk a \<noteq> Some (at_task a)"
    and "lock_wait_seconds (m_cfg M) < int fuel" "30 < fuel"
  shows "reports view (at_task a) (run_with_lock fuel M ex token a lab)"
proof -
  have enter: "io_spec (\<lambda>_. True) (enter_jump_host_lock fuel M token (at_device a) (at_task a) (at_bulk a))
      (\<lambda>acq _. acq \<noteq> OutOfFuel) (\<lambda>_. False)"
  proof (rule io_specI)
    fix s
    obtain acq s' where run: "enter_jump_host_lock fuel M token (at_device a) (at_task a) (at_bulk a) s = (Some acq, s')"
      using io_totalD [OF enter_total] by blast
    from io_specD [OF enter_spec [OF assms(4,5)] TrueI run] run
    show "case enter_jump_host_lock fuel M token (at_device a) (at_task a) (at_bulk a) s of
        (None, s') \<Rightarrow> False | (Some acq, s') \<Rightarrow> acq \<noteq> OutOfFuel" by simp
  qed
  have guard: "reports view (at_task a) m \<Longrightarrow> io_spec (\<lambda>_. b) m
      (\<lambda>res s. reported (at_task a) res (meta_of (at_task a) (view s))) (\<lambda>_. False)" for m b
    unfolding reports_def by (erule spec_conseq) auto
  have proceed: "reports view (at_task a) (io_bind (run_executor ex (at_device a) (at_task a)) (\<lambda>r.
      io_seq (leave_jump_host_lock M token acq)
        (case r of Returned success message \<Rightarrow> finish_backup M a lab li success message
           | RaisedExn exn_text cls \<Rightarrow> fail_backup M a li exn_text cls)))" for acq li
    by (intro reporting total_io) (simp split: executor_end.split add: backup_reports [OF assms(1-3)])
  show ?thesis
    unfolding reports_def run_with_lock_def Let_def
  proof (rule spec_bind [OF enter])
    fix acq
    show "io_spec (\<lambda>s. acq \<noteq> OutOfFuel) (case acq of
       SlotCancelled why \<Rightarrow>
         finish_task M a ''stopped'' why (task_result (at_device a) False why (Some ''cancelled'') True)
           why ''warning'' ''stopped'' ''jump_host_slot_cancelled'' (Some why)
     | SlotTimeout why \<Rightarrow>
         io_bind (resolve_jump_host_lock M (at_device a)) (\<lambda>li.
         io_seq (adapt_jump_host_slots (m_cfg M) (m_client M) (m_emit M) (parse_jump_host_slot_overrides (m_env M)) li False (Some why))
           (finish_task M a ''failed'' why (task_result (at_device a) False why (Some ''jump_host_slot_timeout'') True)
              why ''error'' ''failed'' ''jump_host_slot_timeout'' (Some why)))
     | OutOfFuel \<Rightarrow> io_raise
     | _ \<Rightarrow> io_bind (run_executor ex (at_device a) (at_task a)) (\<lambda>r.
             io_seq (leave_jump_host_lock M token acq)
               (case r of
                  Returned success message \<Rightarrow> finish_backup M a lab (case acq of Unlocked l \<Rightarrow> Some l | Acquired l key idx \<Rightarrow> Some l | _ \<Rightarrow> None) success message
                | RaisedExn exn_text cls \<Rightarrow> fail_backup M a (case acq of Unlocked l \<Rightarrow> Some l | Acquired l key idx \<Rightarrow> Some l | _ \<Rightarrow> None) exn_text cls)))
      (\<lambda>res s. reported (at_task a) res (meta_of (at_task a) (view s))) (\<lambda>_. False)"
    proof (cases acq)
      case (SlotCancelled why)
      show ?thesis unfolding SlotCancelled acquisition.case
        by (intro guard finish_reports assms(1-3)) (simp add: task_result_def)
    next
      case (SlotTimeout why)
      show ?thesis unfolding SlotTimeout acquisition.case
        by (intro guard reporting total_io finish_reports assms(1-3)) (simp add: task_result_def)
    next
      case OutOfFuel
      then show ?thesis by (simp add: io_spec_def)
    qed (simp_all only: acquisition.case guard proceed)
  qed
qed

lemma task_reports:
  assumes "log_config_ok (m_log M)" "task \<noteq> []" "bulk \<noteq> Some task"
    and "lock_wait_seconds (m_cfg M) < int fuel" "30 < fuel"
  shows "reports view task (internal_run_backup_task fuel M ex token task device_id bulk)"
proof -
  have finish: "reports view task (finish_task M \<lparr>at_task = task, at_bulk = bulk, at_device = device_id, at_started = t, at_context = cx\<rparr>
      status message res line level outcome category tracked)"
    if "(status, dget res ''success'') \<in> {(''success'', PBool True), (''failed'', PBool False), (''stopped'', PBool False)}"
    for t cx status message res line level outcome category tracked
    using finish_reports [of "\<lparr>at_task = task, at_bulk = bulk, at_device = device_id, at_started = t, at_context = cx\<rparr>"] assms(1-3) that
    by simp
  have run: "reports view task (run_with_lock fuel M ex token \<lparr>at_task = task, at_bulk = bulk, at_device = device_id, at_started = t, at_context = cx\<rparr> lab)"
    for t cx lab
    using run_reports [of "\<lparr>at_task = task, at_bulk = bulk, at_device = device_id, at_started = t, at_context = cx\<rparr>"] assms by simp
  show ?thesis
    unfolding internal_run_backup_task_def Let_def
    by (intro reporting total_io finish run) (simp_all add: task_result_def)
qed

end

section \<open>A process on the paired server\<close>

text \<open>The store and the telemetry, with the two module variables beside them.\<close>

type_synonym hworld = "pworld \<times> int \<times> (string \<times> int) list"

definition beside :: "(pworld, 'a) io \<Rightarrow> (hworld, 'a) io" where
  "beside m w = (let (a, p) = m (fst w) in (a, (p, snd w)))"

definition host_redis :: "hworld redis" where
  "host_redis = \<lparr>r_get = \<lambda>k. beside (r_get pair_redis k), r_setex = \<lambda>k n v. beside (r_setex pair_redis k n v),
     r_set_nx = \<lambda>k v n. beside (r_set_nx pair_redis k v n), r_delete = \<lambda>ks. beside (r_delete pair_redis ks),
     r_incr = \<lambda>k. beside (r_incr pair_redis k), r_expire = \<lambda>k n. beside (r_expire pair_redis k n),
     r_ttl = \<lambda>k. beside (r_ttl pair_redis k), r_rpush = \<lambda>k vs. beside (r_rpush pair_redis k vs),
     r_lrange = \<lambda>k i j. beside (r_lrange pair_redis k i j), r_ltrim = \<lambda>k i j. beside (r_ltrim pair_redis k i j),
     r_llen = \<lambda>k. beside (r_llen pair_redis k), r_head = \<lambda>k. beside (r_head pair_redis k),
     r_lpop = \<lambda>k. beside (r_lpop pair_redis k), r_hget = \<lambda>h f. beside (r_hget pair_redis h f),
     r_hset = \<lambda>h f v. beside (r_hset pair_redis h f v), r_scan = \<lambda>p. beside (r_scan pair_redis p),
     r_unlock = \<lambda>k t. beside (r_unlock pair_redis k t)\<rparr>"

definition host_emit :: "tele \<Rightarrow> hworld \<Rightarrow> hworld" where
  "host_emit t w = (pair_emit t (fst w), snd w)"

definition host_view :: "hworld \<Rightarrow> store" where
  "host_view w = fst (fst w)"

lemma beside_sim: "io_sim fst m m' \<Longrightarrow> io_sim host_view (beside m) m'"
  by (simp add: io_sim_def beside_def host_view_def Let_def case_prod_beta)

interpretation hosted: worker host_redis host_view host_emit
proof
  show "host_view (host_emit t s) = host_view s" for t s
    by (simp add: host_view_def host_emit_def pair.emit_frame)
qed (simp_all add: host_redis_def beside_sim pair.redis_server_axioms redis_server.sim_get redis_server.sim_setex
  redis_server.sim_set_nx redis_server.sim_delete redis_server.sim_incr redis_server.sim_expire redis_server.sim_ttl
  redis_server.sim_rpush redis_server.sim_lrange redis_server.sim_ltrim redis_server.sim_llen redis_server.sim_head
  redis_server.sim_lpop redis_server.sim_hget redis_server.sim_hset redis_server.sim_scan redis_server.sim_unlock)

text \<open>A worker with the default configuration whose database holds the given devices.\<close>

definition sample_machine :: "(string \<Rightarrow> device option) \<Rightarrow> hworld machine" where
  "sample_machine devices =
     \<lparr>m_env = \<lambda>_. None, m_cfg = default_config, m_log = sample_log_config, m_client = Some host_redis, m_emit = host_emit,
      m_now = \<lambda>w. st_now (host_view w) * 1000, m_hms = \<lambda>_. ''00:00:00'', m_mono = \<lambda>w. st_now (host_view w),
      m_sleep = \<lambda>n. io_write (\<lambda>w. ((elapse n (fst (fst w)), snd (fst w)), snd w)),
      m_device = \<lambda>d. io_ret (devices d), m_prune_interval = 300000, m_prune_fuel = 100,
      m_prune_cache = \<lambda>w. fst (snd w), m_set_prune_cache = \<lambda>n w. (fst w, n, snd (snd w)),
      m_counts = \<lambda>w. snd (snd w), m_set_counts = \<lambda>c w. (fst w, fst (snd w), c)\<rparr>"

text \<open>The commands take no time on the store.\<close>

lemma st_now_commands:
  "st_now (snd (st_get k st)) = st_now st" "st_now (snd (st_setex k n v st)) = st_now st"
  "st_now (snd (st_set_nx k v n st)) = st_now st" "st_now (snd (st_delete ks st)) = st_now st"
  "st_now (snd (st_incr k st)) = st_now st" "st_now (snd (st_expire k n st)) = st_now st"
  "st_now (snd (st_ttl k st)) = st_now st" "st_now (snd (st_rpush k vs st)) = st_now st"
  "st_now (snd (st_lrange k i j st)) = st_now st" "st_now (snd (st_ltrim k i j st)) = st_now st"
  "st_now (snd (st_llen k st)) = st_now st" "st_now (snd (st_head k st)) = st_now st"
  "st_now (snd (st_lpop k st)) = st_now st" "st_now (snd (st_hget k f st)) = st_now st"
  "st_now (snd (st_hset k f v st)) = st_now st" "st_now (snd (st_scan k st)) = st_now st"
  "st_now (snd (st_unlock k tok st)) = st_now st"
  by (auto simp: st_get_def st_setex_def st_set_nx_def st_delete_def st_incr_def st_expire_def st_ttl_def st_rpush_def
      st_lrange_def st_ltrim_def st_llen_def st_head_def st_lpop_def st_hget_def st_hset_def st_scan_def st_unlock_def
      split: option.splits rdata.splits prod.splits)

lemma later_sim:
  assumes "io_sim host_view m m'" "\<And>st. st_now (snd (m' st)) = st_now st"
  shows "io_within (later (sample_machine devices)) m"
  using assms io_sim_snd [OF assms(1)] by (simp add: io_within_def later_def sample_machine_def)

lemma sample_forward: "machine_order (later (sample_machine devices)) host_redis host_emit (\<lambda>_. True) (sample_machine devices)"
proof
  fix s s1 s2 :: hworld and t n c
  have same: "host_view s' = host_view s \<Longrightarrow> later (sample_machine devices) s s'" for s s' :: hworld
    by (simp add: later_def sample_machine_def)
  show "later (sample_machine devices) s (host_emit t s)" by (rule same) (rule hosted.emit_frame)
  show "later (sample_machine devices) s (m_set_prune_cache (sample_machine devices) n s)"
    by (rule same) (simp add: sample_machine_def host_view_def)
  show "later (sample_machine devices) s (m_set_counts (sample_machine devices) c s)"
    by (rule same) (simp add: sample_machine_def host_view_def)
  show "later (sample_machine devices) s s" by (simp add: later_def)
  show "later (sample_machine devices) s s1 \<Longrightarrow> later (sample_machine devices) s1 s2 \<Longrightarrow> later (sample_machine devices) s s2"
    by (simp add: later_def)
  show "m_client (sample_machine devices) = Some host_redis" "m_emit (sample_machine devices) = host_emit"
    by (simp_all add: sample_machine_def)
qed (auto intro: later_sim [OF hosted.sim_get] later_sim [OF hosted.sim_setex] later_sim [OF hosted.sim_set_nx]
      later_sim [OF hosted.sim_delete] later_sim [OF hosted.sim_incr] later_sim [OF hosted.sim_expire]
      later_sim [OF hosted.sim_ttl] later_sim [OF hosted.sim_rpush] later_sim [OF hosted.sim_lrange]
      later_sim [OF hosted.sim_ltrim] later_sim [OF hosted.sim_llen] later_sim [OF hosted.sim_head]
      later_sim [OF hosted.sim_lpop] later_sim [OF hosted.sim_hget] later_sim [OF hosted.sim_hset]
      later_sim [OF hosted.sim_scan] later_sim [OF hosted.sim_unlock] st_now_commands)

interpretation sample_order: machine_order "later (sample_machine devices)" host_redis host_emit "\<lambda>_. True" "sample_machine devices"
  for devices
  by (rule sample_forward)

interpretation sample: host host_redis host_view host_emit "sample_machine devices" for devices
  by (intro host.intro host_axioms.intro hosted.worker_axioms sample_forward)
    (auto simp: sample_machine_def host_view_def io_total_def io_write_def elapse_def)

section \<open>Runs that never reach the device\<close>

lemma bind_const:
  assumes "\<And>s. fst (m s) = Some v"
  shows "io_bind m f = io_seq m (f v)"
proof
  fix s
  obtain r s' where "m s = (r, s')" by fastforce
  with assms [of s] show "io_bind m f s = io_seq m (f v) s" by (simp add: io_bind_def io_seq_def)
qed

text \<open>The verdict on a device whose row the database answers with \<open>row\<close>, or fails to answer.\<close>

definition verdict_of :: "device option option \<Rightarrow> bool \<times> string option \<times> string option" where
  "verdict_of row = (case row of
     None \<Rightarrow> (False, Some ''Falha ao validar estado do dispositivo/grupo.'', Some ''validation_error'')
   | Some dev \<Rightarrow> execution_verdict dev)"

lemma validate_const:
  assumes "\<And>s. fst (m_device M device_id s) = row"
  shows "fst (validate_device_execution_allowed M device_id s) = Some (verdict_of row)"
proof -
  obtain r s' where "m_device M device_id s = (r, s')" by fastforce
  with assms [of s] show ?thesis
    by (auto simp: validate_device_execution_allowed_def verdict_of_def io_try_def io_bind_def io_seq_def io_ret_def
        tell_m_def tell_def split: option.split)
qed

text \<open>What the task does before it is allowed to go on: with a device that is not eligible, all it does.\<close>

lemma blocked_run:
  assumes "\<And>s. fst (m_device M device_id s) = row" "\<not> fst (verdict_of row)"
  shows "internal_run_backup_task fuel M ex token task device_id bulk = internal_run_backup_task fuel' M ex' token' task device_id bulk"
proof -
  obtain v1 v2 where v: "verdict_of row = (False, v1, v2)" using assms(2) by (cases "verdict_of row") auto
  have go: "io_bind (validate_device_execution_allowed M device_id) f =
      io_seq (validate_device_execution_allowed M device_id) (f (False, v1, v2))" for f
    by (rule bind_const) (simp add: validate_const [OF assms(1)] v)
  show ?thesis
    by (simp only: internal_run_backup_task_def Let_def go prod.case simp_thms if_True)
qed

context host
begin

lemma finish_returns: "io_spec P (finish_task M a status message res line level outcome category tracked) (\<lambda>r _. r = res) (\<lambda>_. False)"
  unfolding finish_task_def
  by (intro spec_bind [OF total_spec] spec_seq [OF total_spec] spec_ret total_io refl)

lemma blocked_fails:
  assumes "\<And>s. fst (m_device M device_id s) = row" "\<not> fst (verdict_of row)"
  shows "io_spec (\<lambda>_. True) (internal_run_backup_task fuel M ex token task device_id bulk)
    (\<lambda>res _. dget res ''success'' = PBool False \<and> dget res ''device_id'' = PStr device_id) (\<lambda>_. False)"
proof -
  obtain v1 v2 where v: "verdict_of row = (False, v1, v2)" using assms(2) by (cases "verdict_of row") auto
  have go: "io_bind (validate_device_execution_allowed M device_id) f =
      io_seq (validate_device_execution_allowed M device_id) (f (False, v1, v2))" for f
    by (rule bind_const) (simp add: validate_const [OF assms(1)] v)
  have fin: "dget res ''success'' = PBool False \<and> dget res ''device_id'' = PStr device_id \<Longrightarrow>
    io_spec P (finish_task M a status message res line level outcome category tracked)
      (\<lambda>res _. dget res ''success'' = PBool False \<and> dget res ''device_id'' = PStr device_id) (\<lambda>_. False)"
    for P a status message res line level outcome category tracked
    by (rule spec_conseq [OF finish_returns]) auto
  show ?thesis
    apply (simp only: internal_run_backup_task_def Let_def go prod.case simp_thms if_True)
    by (intro spec_bind [OF total_spec] spec_seq [OF total_spec] total_io spec_if)
      (simp_all add: fin task_result_def)
qed

end

section \<open>Properties\<close>

text \<open>C12: Every run of the backup task returns, and leaves a report of how it ended: whatever the executor, the
  device and the server's contents, with a fuel above the longest configurable wait (1800 seconds) the task returns a result, and
  its metadata then says that it is completed at 100 percent with that result, under the status success,
  failed or stopped, success exactly when the result says so.\<close>

theorem every_run_is_reported:
  assumes "host R view emit M" and "log_config_ok (m_log M)" and "task \<noteq> []" and "bulk \<noteq> Some task"
    and "config_in_range (m_cfg M)" and "1800 < fuel"
  shows "\<exists>res s'. internal_run_backup_task fuel M ex token task device_id bulk s = (Some res, s') \<and>
    reported task res (meta_of task (view s'))"
proof -
  have fuel: "lock_wait_seconds (m_cfg M) < int fuel" "30 < fuel" using assms(5,6) by (auto simp: config_in_range_def)
  obtain r s' where run: "internal_run_backup_task fuel M ex token task device_id bulk s = (r, s')" by fastforce
  from io_specD [OF host.task_reports [OF assms(1-4) fuel, unfolded reports_def] TrueI run] run
  show ?thesis by (auto split: option.splits)
qed

definition empty_hworld :: hworld where
  "empty_hworld = ((\<lparr>st_now = 0, st_data = []\<rparr>, []), 0, [])"

definition good_executor :: "hworld executor" where
  "good_executor d t w = (Returned True (Some ''ok''), w)"

theorem every_run_is_reported_witness:
  "\<exists>res s'. internal_run_backup_task 2000 (sample_machine (\<lambda>_. None)) good_executor ''tok'' ''t1'' ''d1'' (Some ''b1'') empty_hworld
      = (Some res, s') \<and> reported ''t1'' res (meta_of ''t1'' (host_view s'))"
  by (rule every_run_is_reported [OF sample.host_axioms])
    (simp_all add: sample_machine_def sample_log_config_ok default_in_range)

text \<open>C27: The wait for a slot of the jump host ends: with a fuel above the longest configurable number of
  seconds the acquisition returns an answer and is never out of
  fuel, because every round without a free slot sleeps at least a second of the clock the limit is measured on.\<close>

theorem slot_wait_ends:
  assumes "host R view emit M" and "config_in_range (m_cfg M)" and "1800 < fuel"
  shows "\<exists>acq s'. enter_jump_host_lock fuel M token device_id task bulk s = (Some acq, s') \<and> acq \<noteq> OutOfFuel"
proof -
  obtain acq s' where run: "enter_jump_host_lock fuel M token device_id task bulk s = (Some acq, s')"
    using io_totalD [OF host.enter_total [OF assms(1)]] by blast
  have "lock_wait_seconds (m_cfg M) < int fuel" "30 < fuel" using assms(2,3) by (auto simp: config_in_range_def)
  from io_specD [OF host.enter_spec [OF assms(1) this] TrueI run] run show ?thesis by simp
qed

theorem slot_wait_ends_witness:
  "\<exists>acq s'. enter_jump_host_lock 2000 (sample_machine (\<lambda>_. None)) ''tok'' ''d1'' ''t1'' None empty_hworld = (Some acq, s') \<and>
     acq \<noteq> OutOfFuel"
  by (rule slot_wait_ends [OF sample.host_axioms]) (simp_all add: sample_machine_def default_in_range)

text \<open>C26: A slot of a jump host belongs to one task at a time: a round over the slots takes the first free one and
  no other key of the store changes, so a held slot is never taken; the release frees the slot exactly
  when it still holds the task's own token, and otherwise leaves the store as it is.\<close>

theorem slots_are_exclusive:
  assumes "worker R view emit" and "0 < lock_timeout_seconds (m_cfg M)" and "m_client M = Some R" and "m_emit M = emit"
    and "try_slots M R li token [0..<nat slots] s = (r, s1)"
    and "leave_jump_host_lock M token (Acquired li key idx) s = (r2, s2)"
  shows "r = Some (find (free_slot li (view s)) [0..<nat slots]) \<and>
    (\<forall>k. st_find k (view s1) =
       (case find (free_slot li (view s)) [0..<nat slots] of
          None \<Rightarrow> st_find k (view s)
        | Some i \<Rightarrow> if k = slot_key li i
                     then Some (DStr (RText token), Some (st_now (view s) + lock_timeout_seconds (m_cfg M) * 1000))
                     else st_find k (view s))) \<and>
    (\<forall>k. st_find k (view s2) =
       (if k = key \<and> map_option fst (st_find key (view s)) = Some (DStr (RText token)) then None else st_find k (view s)))"
proof -
  from worker.try_slots_view [OF assms(1,2), of li token "[0..<nat slots]" s] assms(5)
  have take: "r = Some (find (free_slot li (view s)) [0..<nat slots])"
    "view s1 = (case find (free_slot li (view s)) [0..<nat slots] of None \<Rightarrow> view s
       | Some i \<Rightarrow> hold_slot (m_cfg M) li token i (view s))" by simp_all
  from worker.leave_view [OF assms(1,3,4), of token li key idx s] assms(6)
  have free: "view s2 = (case st_find key (view s) of
      Some (DStr v, _) \<Rightarrow> if v = RText token then st_del key (view s) else view s | _ \<Rightarrow> view s)" by simp
  from take assms(2) have "\<forall>k. st_find k (view s1) =
       (case find (free_slot li (view s)) [0..<nat slots] of
          None \<Rightarrow> st_find k (view s)
        | Some i \<Rightarrow> if k = slot_key li i
                     then Some (DStr (RText token), Some (st_now (view s) + lock_timeout_seconds (m_cfg M) * 1000))
                     else st_find k (view s))"
    by (simp add: hold_slot_def split: option.split)
  moreover from free have "\<forall>k. st_find k (view s2) =
       (if k = key \<and> map_option fst (st_find key (view s)) = Some (DStr (RText token)) then None else st_find k (view s))"
    by (auto split: option.splits prod.splits rdata.splits)
  ultimately show ?thesis using take(1) by blast
qed

definition two_slots :: lock_info where
  "two_slots = \<lparr>li_base_key = ''backup_center:jump_host_lock:h:22'', li_label = ''h:22'', li_group_name = ''g'',
     li_base_slots = 2, li_max_slots = 2\<rparr>"

definition one_taken :: pworld where
  "one_taken = (\<lparr>st_now = 0, st_data = [(slot_key two_slots 0, DStr (RText ''other''), Some 9000)]\<rparr>, [])"

definition pair_machine :: "pworld machine" where
  "pair_machine =
     \<lparr>m_env = \<lambda>_. None, m_cfg = default_config, m_log = sample_log_config, m_client = Some pair_redis, m_emit = pair_emit,
      m_now = \<lambda>w. 0, m_hms = \<lambda>_. [], m_mono = \<lambda>w. st_now (fst w), m_sleep = \<lambda>n. io_ret (), m_device = \<lambda>d. io_ret None,
      m_prune_interval = 300000, m_prune_fuel = 100, m_prune_cache = \<lambda>w. 0, m_set_prune_cache = \<lambda>n w. w,
      m_counts = \<lambda>w. [], m_set_counts = \<lambda>c w. w\<rparr>"

theorem slots_are_exclusive_witness:
  "fst (try_slots pair_machine pair_redis two_slots ''mine'' [0..<2] one_taken) = Some (Some 1) \<and>
   st_find (slot_key two_slots 0) (fst (snd (leave_jump_host_lock pair_machine ''mine''
     (Acquired two_slots (slot_key two_slots 0) 1) one_taken))) = Some (DStr (RText ''other''), Some 9000)"
proof -
  obtain r s1 where run: "try_slots pair_machine pair_redis two_slots ''mine'' [0..<nat 2] one_taken = (r, s1)" by (metis surj_pair)
  obtain r2 s2 where out: "leave_jump_host_lock pair_machine ''mine'' (Acquired two_slots (slot_key two_slots 0) 1) one_taken = (r2, s2)"
    by (metis surj_pair)
  have cfg: "0 < lock_timeout_seconds (m_cfg pair_machine)" "m_client pair_machine = Some pair_redis" "m_emit pair_machine = pair_emit"
    by (simp_all add: pair_machine_def)
  have "slot_key two_slots 1 \<noteq> slot_key two_slots 0" by (simp add: slot_key_inj)
  then have "find (free_slot two_slots (fst one_taken)) [0..<nat 2] = Some 1"
    "st_find (slot_key two_slots 0) (fst one_taken) = Some (DStr (RText ''other''), Some 9000)"
    by (simp_all add: one_taken_def free_slot_def st_find_def upt_rec)
  with slots_are_exclusive [OF pair.worker_axioms cfg run out] run out show ?thesis by simp
qed

definition must_not_run :: "device option option \<Rightarrow> bool" where
  "must_not_run row \<longleftrightarrow>
     (case row of
        Some (Some d) \<Rightarrow> \<not> flag (d_is_active d) \<or> (\<exists>g. d_group d = Some g \<and> \<not> flag (g_is_active g))
      | _ \<Rightarrow> True)"

lemma must_not_run_blocked: "must_not_run row \<Longrightarrow> \<not> fst (verdict_of row)"
  by (auto simp: must_not_run_def verdict_of_def execution_verdict_def split: option.splits)

text \<open>C28: A device that must not be backed up is never contacted: when the database says that the device does
  not exist, is inactive or belongs to an inactive group, or fails to answer, the run does exactly the
  same whatever the executor is (so it does not call it), takes no slot of the jump host, and returns an
  unsuccessful result for that device.\<close>

theorem ineligible_device_not_contacted:
  assumes "host R view emit M" and "\<And>s. fst (m_device M device_id s) = row" and "must_not_run row"
  shows "internal_run_backup_task fuel M ex token task device_id bulk = internal_run_backup_task fuel' M ex' token' task device_id bulk \<and>
    (\<exists>res s'. internal_run_backup_task fuel M ex token task device_id bulk s = (Some res, s') \<and>
       dget res ''success'' = PBool False \<and> dget res ''device_id'' = PStr device_id)"
proof
  show "internal_run_backup_task fuel M ex token task device_id bulk = internal_run_backup_task fuel' M ex' token' task device_id bulk"
    using blocked_run assms(2) must_not_run_blocked [OF assms(3)] .
  obtain r s' where run: "internal_run_backup_task fuel M ex token task device_id bulk s = (r, s')" by fastforce
  from io_specD [OF host.blocked_fails [OF assms(1,2) must_not_run_blocked [OF assms(3)]] TrueI run] run
  show "\<exists>res s'. internal_run_backup_task fuel M ex token task device_id bulk s = (Some res, s') \<and>
       dget res ''success'' = PBool False \<and> dget res ''device_id'' = PStr device_id"
    by (auto split: option.splits)
qed

definition retired_device :: device where
  "retired_device = blank_device\<lparr>d_is_active := Some False\<rparr>"

theorem ineligible_device_not_contacted_witness:
  "internal_run_backup_task 9 (sample_machine (\<lambda>_. Some retired_device)) good_executor ''tok'' ''t1'' ''d1'' None =
   internal_run_backup_task 0 (sample_machine (\<lambda>_. Some retired_device)) (\<lambda>d t w. (RaisedExn None [], w)) [] ''t1'' ''d1'' None"
proof -
  have row: "fst (m_device (sample_machine (\<lambda>_. Some retired_device)) ''d1'' s) = Some (Some retired_device)" for s
    by (simp add: sample_machine_def io_ret_def)
  have "must_not_run (Some (Some retired_device))"
    by (simp add: must_not_run_def retired_device_def flag_def)
  from ineligible_device_not_contacted [OF sample.host_axioms row this] show ?thesis by blast
qed

end
