(* ===== verification/Faults.thy ===== *)
theory Faults
  imports BackupRun
begin

text \<open>
  Calls that raise exceptions the code tells apart: a VPN error, which the group backup and the VPN service
  catch by its class, and any other exception, each with the text of the exception. A call returns the
  exception or a value; that it does not return at all (a loop out of fuel) is the raising of \<^const>\<open>io_raise\<close>,
  which no handler catches.
\<close>

datatype fault = VpnFault string | OtherFault string

definition fault_text :: "fault \<Rightarrow> string" where
  "fault_text e = (case e of VpnFault t \<Rightarrow> t | OtherFault t \<Rightarrow> t)"

type_synonym ('s, 'a) fio = "('s, fault + 'a) io"

text \<open>An operation of the host: it ends with a value or an exception.\<close>

type_synonym ('s, 'a) op = "'s \<Rightarrow> (fault + 'a) \<times> 's"

definition f_ret :: "'a \<Rightarrow> ('s, 'a) fio" where
  "f_ret a = io_ret (Inr a)"

definition f_raise :: "fault \<Rightarrow> ('s, 'a) fio" where
  "f_raise e = io_ret (Inl e)"

definition f_call :: "('s, 'a) op \<Rightarrow> ('s, 'a) fio" where
  "f_call f s = (let (r, s') = f s in (Some r, s'))"

definition f_bind :: "('s, 'a) fio \<Rightarrow> ('a \<Rightarrow> ('s, 'b) fio) \<Rightarrow> ('s, 'b) fio" where
  "f_bind m f = io_bind m (\<lambda>r. case r of Inl e \<Rightarrow> io_ret (Inl e) | Inr a \<Rightarrow> f a)"

definition f_seq :: "('s, unit) fio \<Rightarrow> ('s, 'b) fio \<Rightarrow> ('s, 'b) fio" where
  "f_seq m n = f_bind m (\<lambda>_. n)"

text \<open>A call of the modules whose exceptions carry no text: what it raises is some other exception.\<close>

definition f_lift :: "('s, 'a) io \<Rightarrow> ('s, 'a) fio" where
  "f_lift m = io_try (io_bind m (\<lambda>a. io_ret (Inr a))) (io_ret (Inl (OtherFault [])))"

text \<open>\<open>try: m except Exception as e: h\<close> and \<open>try: m finally: c\<close>.\<close>

definition f_catch :: "('s, 'a) fio \<Rightarrow> (fault \<Rightarrow> ('s, 'a) fio) \<Rightarrow> ('s, 'a) fio" where
  "f_catch m h = io_bind m (\<lambda>r. case r of Inl e \<Rightarrow> h e | Inr a \<Rightarrow> f_ret a)"

definition f_finally :: "('s, 'a) fio \<Rightarrow> ('s, unit) fio \<Rightarrow> ('s, 'a) fio" where
  "f_finally m c = io_bind m (\<lambda>r. io_bind c (\<lambda>q. case q of Inl e \<Rightarrow> io_ret (Inl e) | Inr _ \<Rightarrow> io_ret r))"

fun f_for :: "'a list \<Rightarrow> ('a \<Rightarrow> ('s, unit) fio) \<Rightarrow> ('s, unit) fio" where
  "f_for [] f = f_ret ()"
| "f_for (x # xs) f = f_seq (f x) (f_for xs f)"

section \<open>Running a call\<close>

lemma f_ret_run [simp]: "f_ret a s = (Some (Inr a), s)" and f_raise_run [simp]: "f_raise e s = (Some (Inl e), s)"
  by (simp_all add: f_ret_def f_raise_def io_ret_def)

lemma f_laws [simp]: "f_bind (f_ret a) f = f a" "f_bind (f_raise e) f = f_raise e" "f_seq (f_ret ()) n = n"
  "f_seq (f_raise e) n = f_raise e" "f_catch (f_ret a) h = f_ret a" "f_catch (f_raise e) h = h e"
  by (simp_all add: f_bind_def f_seq_def f_catch_def f_ret_def f_raise_def)

section \<open>Triples\<close>

text \<open>From a world in \<open>P\<close>: a call that returns a value ends in \<open>Q\<close>, one that raises in \<open>X\<close>, and it always
  ends.\<close>

named_theorems fault_triple \<open>rules for triples of calls with exceptions\<close>

definition f_spec :: "('s \<Rightarrow> bool) \<Rightarrow> ('s, 'a) fio \<Rightarrow> ('a \<Rightarrow> 's \<Rightarrow> bool) \<Rightarrow> (fault \<Rightarrow> 's \<Rightarrow> bool) \<Rightarrow> bool" where
  "f_spec P m Q X \<longleftrightarrow>
     (\<forall>s. P s \<longrightarrow> (\<exists>r s'. m s = (Some r, s') \<and> (case r of Inl e \<Rightarrow> X e s' | Inr a \<Rightarrow> Q a s')))"

lemma f_specI: "(\<And>s. P s \<Longrightarrow> \<exists>r s'. m s = (Some r, s') \<and> (case r of Inl e \<Rightarrow> X e s' | Inr a \<Rightarrow> Q a s')) \<Longrightarrow> f_spec P m Q X"
  by (simp add: f_spec_def)

lemma f_specE:
  assumes "f_spec P m Q X" "P s"
  obtains (returned) a s' where "m s = (Some (Inr a), s')" "Q a s'"
  | (raised) e s' where "m s = (Some (Inl e), s')" "X e s'"
  using assms unfolding f_spec_def by (metis (no_types, lifting) sum.case(1) sum.case(2) sum.exhaust)

lemma f_spec_ret [fault_triple]: "(\<And>s. P s \<Longrightarrow> Q a s) \<Longrightarrow> f_spec P (f_ret a) Q X"
  by (simp add: f_spec_def)

lemma f_spec_raise [fault_triple]: "(\<And>s. P s \<Longrightarrow> X e s) \<Longrightarrow> f_spec P (f_raise e) Q X"
  by (simp add: f_spec_def)

lemma f_spec_bind [fault_triple]:
  assumes "f_spec P m M X" "\<And>a. f_spec (M a) (f a) Q X"
  shows "f_spec P (f_bind m f) Q X"
proof (rule f_specI)
  fix s assume "P s"
  with assms(1) show "\<exists>r s'. f_bind m f s = (Some r, s') \<and> (case r of Inl e \<Rightarrow> X e s' | Inr a \<Rightarrow> Q a s')"
  proof (cases rule: f_specE)
    case (returned a s')
    with assms(2) [of a] show ?thesis by (auto simp: f_spec_def f_bind_def io_bind_def)
  qed (simp add: f_bind_def io_bind_def io_ret_def)
qed

lemma f_spec_seq [fault_triple]: "f_spec P m (\<lambda>_. M) X \<Longrightarrow> f_spec M n Q X \<Longrightarrow> f_spec P (f_seq m n) Q X"
  unfolding f_seq_def by (rule f_spec_bind)

lemma f_spec_catch:
  assumes "f_spec P m Q M" "\<And>e. f_spec (M e) (h e) Q X"
  shows "f_spec P (f_catch m h) Q X"
proof (rule f_specI)
  fix s assume "P s"
  with assms(1) show "\<exists>r s'. f_catch m h s = (Some r, s') \<and> (case r of Inl e \<Rightarrow> X e s' | Inr a \<Rightarrow> Q a s')"
  proof (cases rule: f_specE)
    case (raised e s')
    with assms(2) [of e] show ?thesis by (auto simp: f_spec_def f_catch_def io_bind_def)
  qed (simp add: f_catch_def io_bind_def)
qed

text \<open>After \<open>finally\<close>: the body's end carried through the clean-up.\<close>

lemma f_spec_finally:
  assumes "f_spec P m Q0 X0" "\<And>a. f_spec (Q0 a) c (\<lambda>_. Q a) X" "\<And>e. f_spec (X0 e) c (\<lambda>_. X e) X"
  shows "f_spec P (f_finally m c) Q X"
proof (rule f_specI)
  fix s assume "P s"
  with assms(1) show "\<exists>r s'. f_finally m c s = (Some r, s') \<and> (case r of Inl e \<Rightarrow> X e s' | Inr a \<Rightarrow> Q a s')"
  proof (cases rule: f_specE)
    case (returned a s1)
    from assms(2) returned(2) show ?thesis
    proof (cases rule: f_specE)
      case (returned b s2)
      then show ?thesis using \<open>m s = (Some (Inr a), s1)\<close> by (simp add: f_finally_def io_bind_def io_ret_def)
    next
      case (raised e s2)
      then show ?thesis using \<open>m s = (Some (Inr a), s1)\<close> by (simp add: f_finally_def io_bind_def io_ret_def)
    qed
  next
    case (raised e s1)
    from assms(3) raised(2) show ?thesis
    proof (cases rule: f_specE)
      case (returned b s2)
      then show ?thesis using \<open>m s = (Some (Inl e), s1)\<close> by (simp add: f_finally_def io_bind_def io_ret_def)
    next
      case (raised e' s2)
      then show ?thesis using \<open>m s = (Some (Inl e), s1)\<close> by (simp add: f_finally_def io_bind_def io_ret_def)
    qed
  qed
qed

lemma f_spec_if [fault_triple]: "(b \<Longrightarrow> f_spec P m Q X) \<Longrightarrow> (\<not> b \<Longrightarrow> f_spec P n Q X) \<Longrightarrow> f_spec P (if b then m else n) Q X"
  by simp

lemma f_spec_conseq:
  assumes "f_spec P m Q X" "\<And>s. P' s \<Longrightarrow> P s" "\<And>a s. Q a s \<Longrightarrow> Q' a s" "\<And>e s. X e s \<Longrightarrow> X' e s"
  shows "f_spec P' m Q' X'"
  using assms unfolding f_spec_def by (metis (mono_tags, lifting) sum.case_eq_if)

lemma f_spec_weaken: "f_spec P m Q (\<lambda>_ _. False) \<Longrightarrow> f_spec P m Q X"
  by (erule f_spec_conseq) auto

lemma f_spec_for:
  assumes "\<And>x. x \<in> set xs \<Longrightarrow> f_spec I (f x) (\<lambda>_. I) X"
  shows "f_spec I (f_for xs f) (\<lambda>_. I) X"
  using assms by (induction xs) (auto intro!: fault_triple)

text \<open>A call that ends, whatever it does.\<close>

lemma f_spec_lift: "io_spec P m Q E \<Longrightarrow> (\<And>s. E s \<Longrightarrow> X (OtherFault []) s) \<Longrightarrow> f_spec P (f_lift m) Q X"
  unfolding f_spec_def io_spec_def f_lift_def io_try_def io_bind_def io_ret_def
  by (fastforce split: prod.splits option.splits)

lemma f_spec_call: "(\<And>s. P s \<Longrightarrow> case f s of (Inl e, s') \<Rightarrow> X e s' | (Inr a, s') \<Rightarrow> Q a s') \<Longrightarrow> f_spec P (f_call f) Q X"
  unfolding f_spec_def f_call_def Let_def by (fastforce split: prod.splits sum.splits)

text \<open>Calls that always end, with a value or an exception.\<close>

lemma f_total [total_io]: "io_total (f_ret a)" "io_total (f_raise e)" "io_total (f_call g)" "io_total (f_lift m)"
  by (simp_all add: io_total_def f_call_def f_lift_def io_try_def io_ret_def Let_def split: prod.split option.split)

lemma sum_total [total_io]: "(\<And>e. io_total (f e)) \<Longrightarrow> (\<And>a. io_total (g a)) \<Longrightarrow> io_total (case r of Inl e \<Rightarrow> f e | Inr a \<Rightarrow> g a)"
  by (cases r) auto

lemma f_bind_total [total_io]: "io_total m \<Longrightarrow> (\<And>a. io_total (f a)) \<Longrightarrow> io_total (f_bind m f)"
  unfolding f_bind_def by (intro total_io)

lemma f_seq_total [total_io]: "io_total m \<Longrightarrow> io_total n \<Longrightarrow> io_total (f_seq m n)"
  unfolding f_seq_def by (intro total_io)

lemma f_catch_total [total_io]: "io_total m \<Longrightarrow> (\<And>e. io_total (h e)) \<Longrightarrow> io_total (f_catch m h)"
  unfolding f_catch_def by (intro total_io)

lemma f_finally_total [total_io]: "io_total m \<Longrightarrow> io_total c \<Longrightarrow> io_total (f_finally m c)"
  unfolding f_finally_def by (intro total_io)

lemma f_for_total [total_io]: "(\<And>x. io_total (f x)) \<Longrightarrow> io_total (f_for xs f)"
  by (induction xs) (auto intro!: total_io)

lemma f_spec_total: "io_total m \<Longrightarrow> f_spec P m (\<lambda>_ _. True) (\<lambda>_ _. True)"
proof (rule f_specI)
  fix s assume "io_total m"
  from io_totalD [OF this, of s] show "\<exists>r s'. m s = (Some r, s') \<and> (case r of Inl e \<Rightarrow> True | Inr a \<Rightarrow> True)"
    by (metis (mono_tags, lifting) sum.case_eq_if)
qed

lemma total_f_spec: "f_spec (\<lambda>_. True) m Q X \<Longrightarrow> io_total m"
  unfolding f_spec_def io_total_def by (metis fst_conv option.distinct(1))

lemma f_spec_pure: "io_total m \<Longrightarrow> f_spec (\<lambda>_. b) m (\<lambda>_ _. b) (\<lambda>_ _. True)"
  using f_spec_total [of m "\<lambda>_. True"] by (cases b) (simp_all add: f_spec_def)

text \<open>The handler at the top of a task sees the exception or the value.\<close>

lemma f_spec_io: "f_spec P m Q X \<Longrightarrow> io_spec P m (\<lambda>r s. case r of Inl e \<Rightarrow> X e s | Inr a \<Rightarrow> Q a s) (\<lambda>_. False)"
  by (rule io_specI) (auto simp: f_spec_def dest!: spec)

end
