(* ===== verification/Vpn.thy ===== *)
theory Vpn
  imports Faults
begin

text \<open>
  The VPN service of the workers (\<open>src/app/services/vpn_service.py\<close>): the check of the NetworkManager
  backend, the clean-up of VPN profiles, the connection of a group's VPN, its removal, the global lock and the
  session the group backup runs in.

  The host is the record \<open>'s vpn_host\<close>: the environment, \<open>shutil.which\<close>, the command \<open>nmcli\<close> (it ends with a
  return code and its output, or raises), the clock and \<open>sleep\<close>, the decryption of a stored secret, the
  calls on the lock file, the levels the logger has, and the two attributes in which the service remembers
  an unavailable backend. Times are milliseconds. The two loops that wait have a fuel.
\<close>

record nm_result =
  nm_code :: int
  nm_stdout :: string
  nm_stderr :: string

record vpn_config =
  vc_settle :: int
  vc_lock_timeout :: int
  vc_recheck :: int

record 's vpn_host =
  vh_env :: "string \<Rightarrow> string option"
  vh_cfg :: vpn_config
  vh_has_nmcli :: "'s \<Rightarrow> bool"
  vh_nmcli :: "string list \<Rightarrow> int \<Rightarrow> ('s, nm_result) op"
  vh_time :: "'s \<Rightarrow> int"
  vh_sleep :: "int \<Rightarrow> 's \<Rightarrow> 's"
  vh_decrypt :: "string \<Rightarrow> fault + string"
  vh_levels :: "string list"
  vh_log :: "string \<Rightarrow> string \<Rightarrow> 's \<Rightarrow> 's"
  vh_unavailable :: "'s \<Rightarrow> int \<times> string"
  vh_set_unavailable :: "int \<times> string \<Rightarrow> 's \<Rightarrow> 's"
  vh_open_lock :: "('s, string) op"
  vh_flock :: "string \<Rightarrow> ('s, bool) op"
  vh_write_pid :: "string \<Rightarrow> ('s, unit) op"
  vh_unlock :: "string \<Rightarrow> ('s, unit) op"
  vh_close :: "string \<Rightarrow> ('s, unit) op"

definition load_vpn_config :: "(string \<Rightarrow> string option) \<Rightarrow> vpn_config option" where
  "load_vpn_config env =
     (case (py_int (case env ''VPN_SETTLE_SECONDS'' of None \<Rightarrow> ''8'' | Some v \<Rightarrow> v),
            env_or env ''VPN_GLOBAL_LOCK_TIMEOUT_SECONDS'' 3600, env_or env ''VPN_NMCLI_BACKEND_RECHECK_SECONDS'' 60) of
        (Some settle, Some lock_timeout, Some recheck) \<Rightarrow>
          Some \<lparr>vc_settle = settle, vc_lock_timeout = max 60 lock_timeout, vc_recheck = max 10 recheck\<rparr>
      | _ \<Rightarrow> None)"

definition truthy_env :: "(string \<Rightarrow> string option) \<Rightarrow> string \<Rightarrow> string \<Rightarrow> bool" where
  "truthy_env env name dflt \<longleftrightarrow>
     py_lower (py_strip (case env name of None \<Rightarrow> dflt | Some v \<Rightarrow> v)) \<in> {''1'', ''true'', ''on'', ''yes''}"

section \<open>Small steps\<close>

definition f_read :: "('s \<Rightarrow> 'a) \<Rightarrow> ('s, 'a) fio" where
  "f_read f s = (Some (Inr (f s)), s)"

definition f_write :: "('s \<Rightarrow> 's) \<Rightarrow> ('s, unit) fio" where
  "f_write f s = (Some (Inr ()), f s)"

definition vpn_log :: "'s vpn_host \<Rightarrow> string \<Rightarrow> string \<Rightarrow> ('s, unit) fio" where
  "vpn_log V level message = (if level \<in> set (vh_levels V) then f_write (vh_log V level message) else f_ret ())"

definition vpn_sleep :: "'s vpn_host \<Rightarrow> int \<Rightarrow> ('s, unit) fio" where
  "vpn_sleep V seconds = f_write (vh_sleep V (seconds * 1000))"

definition run_nmcli :: "'s vpn_host \<Rightarrow> string list \<Rightarrow> int \<Rightarrow> bool \<Rightarrow> ('s, nm_result) fio" where
  "run_nmcli V args timeout check =
     f_bind (f_call (vh_nmcli V args timeout)) (\<lambda>res.
       if check \<and> nm_code res \<noteq> 0 then
         (let stderr = py_strip (nm_stderr res); stdout = py_strip (nm_stdout res);
              details = (if stderr \<noteq> [] then stderr else if stdout \<noteq> [] then stdout
                         else ''code='' @ show_int (nm_code res))
          in f_raise (VpnFault (''nmcli '' @ py_join CHR '' '' args @ '' falhou: '' @ details)))
       else f_ret res)"

text \<open>A command whose result is not looked at.\<close>

definition try_nmcli :: "'s vpn_host \<Rightarrow> string list \<Rightarrow> ('s, unit) fio" where
  "try_nmcli V args = f_bind (run_nmcli V args 60 False) (\<lambda>_. f_ret ())"

definition connection_name :: "string \<Rightarrow> string" where
  "connection_name group_id = ''group_vpn_'' @ take 12 (filter (\<lambda>c. c \<noteq> CHR ''-'') group_id)"

definition is_source_connection_error :: "string \<Rightarrow> bool" where
  "is_source_connection_error message = py_in ''could not find source connection'' (py_lower (py_strip message))"

definition should_retry_activation_with_eth0 :: "string \<Rightarrow> bool" where
  "should_retry_activation_with_eth0 message =
     (let normalized = py_lower (py_strip message)
      in if is_source_connection_error normalized then True
         else if \<not> py_in ''connection activation failed'' normalized then False
         else py_in ''unknown reason'' normalized \<or> py_in ''nm_device=eth0'' normalized \<or> py_in ''device=eth0'' normalized)"

definition retry_connection_up_on_eth0 :: "'s vpn_host \<Rightarrow> string \<Rightarrow> ('s, unit) fio" where
  "retry_connection_up_on_eth0 V conn_name =
     f_seq (vpn_log V ''warning''
        (''Falha ao subir VPN pela origem escolhida pelo NetworkManager; reativando '' @ [CHR 0x27] @ ''container-eth0'' @
         [CHR 0x27] @ '' e tentando novamente com ifname=eth0.''))
    (f_seq (try_nmcli V [''connection'', ''up'', ''container-eth0''])
     (f_bind (run_nmcli V [''connection'', ''up'', conn_name, ''ifname'', ''eth0''] 90 True) (\<lambda>_. f_ret ())))"

definition vpn_group_has_credentials :: "device_group \<Rightarrow> bool" where
  "vpn_group_has_credentials g \<longleftrightarrow>
     py_strip (or_empty (g_vpn_server g)) \<noteq> [] \<and> py_strip (or_empty (g_vpn_username g)) \<noteq> [] \<and>
     or_empty (g_vpn_password_encrypted g) \<noteq> []"

section \<open>The backend\<close>

definition mark_unavailable :: "'s vpn_host \<Rightarrow> int \<Rightarrow> string \<Rightarrow> ('s, 'a) fio" where
  "mark_unavailable V now reason =
     f_seq (f_write (vh_set_unavailable V (now + vc_recheck (vh_cfg V) * 1000, reason))) (f_raise (VpnFault reason))"

definition ensure_nmcli :: "'s vpn_host \<Rightarrow> ('s, unit) fio" where
  "ensure_nmcli V =
     f_bind (f_read (vh_has_nmcli V)) (\<lambda>found.
     if \<not> found
     then f_raise (VpnFault (''nmcli n'' @ a_tilde @ ''o encontrado. VPN por L2TP/IPsec indispon'' @ i_acute @ ''vel neste worker.''))
     else f_bind (f_read (vh_time V)) (\<lambda>now.
          f_bind (f_read (vh_unavailable V)) (\<lambda>(until, reason).
     if now < until
     then f_raise (VpnFault (if reason \<noteq> [] then reason
            else ''backend do NetworkManager indispon'' @ i_acute @ ''vel.''))
     else f_catch
       (f_bind (run_nmcli V [''--terse'', ''--fields'', ''RUNNING'', ''general'', ''status''] 10 False) (\<lambda>res.
          let output = py_lower (py_strip (nm_stdout res @ '' '' @ nm_stderr res))
          in if nm_code res \<noteq> 0 \<or> \<not> py_in ''running'' output then
               (let details = (if output \<noteq> [] then output else ''code='' @ show_int (nm_code res))
                in mark_unavailable V now
                     (''NetworkManager indispon'' @ i_acute @ ''vel neste worker para VPN L2TP/IPsec (nmcli general status: '' @
                      details @ '').''))
             else f_write (vh_set_unavailable V (0, []))))
       (\<lambda>e. case e of
              VpnFault t \<Rightarrow> f_raise e
            | OtherFault t \<Rightarrow> mark_unavailable V now (''Falha ao validar backend de VPN no worker: '' @ t)))))"

section \<open>Profiles\<close>

text \<open>\<open>line.rsplit(sep, n)\<close>.\<close>

definition py_rsplit :: "char \<Rightarrow> nat \<Rightarrow> string \<Rightarrow> string list" where
  "py_rsplit sep n s =
     (let ps = py_split sep s; k = length ps - n
      in if length ps \<le> n + 1 then ps else py_join sep (take k ps) # drop k ps)"

definition drop_profile :: "'s vpn_host \<Rightarrow> string \<Rightarrow> ('s, unit) fio" where
  "drop_profile V name =
     f_seq (try_nmcli V [''connection'', ''down'', name]) (try_nmcli V [''connection'', ''delete'', name])"

definition active_fields :: "string list" where
  "active_fields = [''--terse'', ''--fields'', ''NAME,TYPE,STATE'', ''con'', ''show'', ''--active'']"

definition cleanup_active_vpns :: "'s vpn_host \<Rightarrow> string \<Rightarrow> ('s, unit) fio" where
  "cleanup_active_vpns V keep =
     f_bind (run_nmcli V active_fields 60 False) (\<lambda>res.
       f_for (py_splitlines (nm_stdout res)) (\<lambda>line.
         case py_rsplit CHR '':'' 2 (py_strip line) of
           [name, conn_type, state] \<Rightarrow>
             if conn_type = ''vpn'' \<and> state = ''activated'' \<and> name \<noteq> keep
             then f_seq (vpn_log V ''warning'' (''Desconectando VPN ativa anterior: '' @ name)) (drop_profile V name)
             else f_ret ()
         | _ \<Rightarrow> f_ret ()))"

definition cleanup_vpn_profiles :: "'s vpn_host \<Rightarrow> string option \<Rightarrow> ('s, unit) fio" where
  "cleanup_vpn_profiles V keep =
     f_seq (cleanup_active_vpns V (or_empty keep))
    (f_bind (run_nmcli V [''--terse'', ''--fields'', ''NAME,TYPE'', ''con'', ''show''] 60 False) (\<lambda>res.
       f_for (py_splitlines (nm_stdout res)) (\<lambda>line.
         case py_rsplit CHR '':'' 1 (py_strip line) of
           [name, conn_type] \<Rightarrow>
             if conn_type \<noteq> ''vpn'' then f_ret ()
             else if or_empty keep \<noteq> [] \<and> name = or_empty keep then f_ret ()
             else drop_profile V name
         | _ \<Rightarrow> f_ret ())))"

definition count_active_vpns :: "string \<Rightarrow> nat" where
  "count_active_vpns out =
     length (filter (\<lambda>line. case py_rsplit CHR '':'' 2 line of
         [name, conn_type, state] \<Rightarrow> conn_type = ''vpn'' \<and> state = ''activated'' | _ \<Rightarrow> False) (py_splitlines out))"

fun quiescent_loop :: "nat \<Rightarrow> 's vpn_host \<Rightarrow> int \<Rightarrow> int \<Rightarrow> ('s, unit) fio" where
  "quiescent_loop 0 V timeout_seconds started = io_raise"
| "quiescent_loop (Suc fuel) V timeout_seconds started =
     f_bind (f_read (vh_time V)) (\<lambda>now.
     if now - started < timeout_seconds * 1000 then
       f_bind (run_nmcli V active_fields 60 False) (\<lambda>res.
       if count_active_vpns (nm_stdout res) = 0 then f_ret ()
       else f_seq (vpn_sleep V 1) (quiescent_loop fuel V timeout_seconds started))
     else f_ret ())"

definition wait_for_vpn_quiescent :: "nat \<Rightarrow> 's vpn_host \<Rightarrow> int \<Rightarrow> ('s, unit) fio" where
  "wait_for_vpn_quiescent fuel V timeout_seconds =
     f_bind (f_read (vh_time V)) (\<lambda>started. quiescent_loop fuel V timeout_seconds started)"

section \<open>Connecting and disconnecting\<close>

text \<open>\<open>(out or err or "").strip() or "sem saida"\<close>.\<close>

definition nm_output :: "nm_result \<Rightarrow> string" where
  "nm_output res =
     (let t = py_strip (if nm_stdout res \<noteq> [] then nm_stdout res else nm_stderr res) in if t = [] then ''sem saida'' else t)"

definition nm_diagnostic :: "'s vpn_host \<Rightarrow> string \<Rightarrow> string list \<Rightarrow> ('s, unit) fio" where
  "nm_diagnostic V title args =
     f_catch (f_bind (run_nmcli V args 60 False) (\<lambda>res. vpn_log V ''warning'' (title @ nm_output res))) (\<lambda>_. f_ret ())"

definition emit_nm_diagnostics :: "'s vpn_host \<Rightarrow> ('s, unit) fio" where
  "emit_nm_diagnostics V =
     f_seq (nm_diagnostic V ''Diagnostico NM (device status): '' [''device'', ''status''])
       (nm_diagnostic V ''Diagnostico NM (active conns): ''
          [''--terse'', ''--fields'', ''NAME,TYPE,DEVICE,STATE'', ''con'', ''show'', ''--active''])"

definition decrypt_opt :: "'s vpn_host \<Rightarrow> string option \<Rightarrow> ('s, string) fio" where
  "decrypt_opt V secret = (if or_empty secret = [] then f_ret [] else io_ret (vh_decrypt V (or_empty secret)))"

definition vpn_needed :: "device_group \<Rightarrow> bool" where
  "vpn_needed g \<longleftrightarrow> flag (g_uses_vpn g) \<or> vpn_group_has_credentials g"

text \<open>The activation of the group's profile, with the second try on \<open>eth0\<close>.\<close>

definition bring_up :: "'s vpn_host \<Rightarrow> string \<Rightarrow> string \<Rightarrow> string \<Rightarrow> ('s, unit) fio" where
  "bring_up V conn_name vpn_data secrets =
     f_seq (drop_profile V conn_name)
    (f_bind (run_nmcli V [''connection'', ''add'', ''type'', ''vpn'', ''con-name'', conn_name, ''vpn-type'', ''l2tp'',
               ''vpn.data'', vpn_data, ''vpn.secrets'', secrets] 60 True) (\<lambda>_.
     f_catch (f_bind (run_nmcli V [''connection'', ''up'', conn_name] 90 True) (\<lambda>_. f_ret ()))
       (\<lambda>e. case e of
              VpnFault t \<Rightarrow>
                if should_retry_activation_with_eth0 t
                then f_seq (emit_nm_diagnostics V) (retry_connection_up_on_eth0 V conn_name)
                else f_raise e
            | OtherFault t \<Rightarrow> f_raise e)))"

definition connect_group_vpn :: "nat \<Rightarrow> 's vpn_host \<Rightarrow> device_group \<Rightarrow> ('s, string option) fio" where
  "connect_group_vpn fuel V g =
     f_seq (ensure_nmcli V)
    (if \<not> vpn_needed g then f_ret None
     else let vpn_server = py_strip (or_empty (g_vpn_server g)); vpn_user = py_strip (or_empty (g_vpn_username g))
     in f_bind (decrypt_opt V (g_vpn_password_encrypted g)) (\<lambda>vpn_pass.
        f_bind (decrypt_opt V (g_vpn_ipsec_secret_encrypted g)) (\<lambda>vpn_ipsec.
     if vpn_server = [] \<or> vpn_user = [] \<or> vpn_pass = []
     then f_raise (VpnFault (''Grupo '' @ [CHR 0x27] @ g_name g @ [CHR 0x27] @
            '' est'' @ [CHR 0xE1] @ '' com VPN ativa, mas faltam dados (server/user/password).''))
     else let conn_name = connection_name (g_id g);
              vpn_data = ''gateway='' @ vpn_server @ '',user='' @ vpn_user @
                (if vpn_ipsec = [] then [] else '',ipsec-enabled=yes'');
              secrets = ''password-flags=0,password='' @ vpn_pass @
                (if vpn_ipsec = [] then [] else '',ipsec-psk-flags=0,ipsec-psk='' @ vpn_ipsec)
     in f_seq (vpn_log V ''info'' (''Conectando VPN do grupo '' @ [CHR 0x27] @ g_name g @ [CHR 0x27] @ '' ('' @ conn_name @ '')...''))
       (f_seq (cleanup_vpn_profiles V (Some conn_name))
       (f_seq (wait_for_vpn_quiescent fuel V 20)
       (f_seq (vpn_sleep V 2)
       (f_seq (drop_profile V conn_name)
       (f_seq (f_catch (bring_up V conn_name vpn_data secrets)
                 (\<lambda>e. f_seq (emit_nm_diagnostics V)
                     (f_seq (cleanup_vpn_profiles V None)
                     (f_seq (wait_for_vpn_quiescent fuel V 20) (f_raise e)))))
       (f_seq (vpn_log V ''success'' (''VPN conectada para o grupo '' @ [CHR 0x27] @ g_name g @ [CHR 0x27] @ ''.''))
          (f_ret (Some conn_name)))))))))))"

definition disconnect_group_vpn :: "nat \<Rightarrow> 's vpn_host \<Rightarrow> device_group \<Rightarrow> ('s, unit) fio" where
  "disconnect_group_vpn fuel V g =
     (if \<not> vpn_needed g then f_ret ()
      else let conn_name = connection_name (g_id g)
      in f_seq (vpn_log V ''info'' (''Desconectando VPN do grupo '' @ [CHR 0x27] @ g_name g @ [CHR 0x27] @ '' ('' @ conn_name @ '')...''))
        (f_seq (drop_profile V conn_name)
        (f_seq (cleanup_vpn_profiles V None)
        (f_seq (wait_for_vpn_quiescent fuel V 20)
        (if vc_settle (vh_cfg V) > 0
         then f_seq (vpn_log V ''info'' (''Aguardando estabiliza'' @ [CHR 0xE7, CHR 0xE3] @ ''o de VPN ('' @
                show_int (vc_settle (vh_cfg V)) @ ''s)...''))
              (vpn_sleep V (vc_settle (vh_cfg V)))
         else f_ret ())))))"

section \<open>The global lock and the session\<close>

fun flock_loop :: "nat \<Rightarrow> 's vpn_host \<Rightarrow> string \<Rightarrow> int \<Rightarrow> int \<Rightarrow> ('s, string) fio" where
  "flock_loop 0 V handle timeout_seconds start = io_raise"
| "flock_loop (Suc fuel) V handle timeout_seconds start =
     f_bind (f_call (vh_flock V handle)) (\<lambda>locked.
     if locked then f_seq (f_call (vh_write_pid V handle)) (f_ret handle)
     else f_bind (f_read (vh_time V)) (\<lambda>now.
          if now - start \<ge> timeout_seconds * 1000
          then f_seq (f_call (vh_close V handle)) (f_raise (VpnFault ''Timeout aguardando lock global de VPN.''))
          else f_seq (vpn_sleep V 1) (flock_loop fuel V handle timeout_seconds start)))"

definition lock_seconds :: "'s vpn_host \<Rightarrow> int option \<Rightarrow> int" where
  "lock_seconds V timeout =
     max 60 (case timeout of None \<Rightarrow> vc_lock_timeout (vh_cfg V)
             | Some t \<Rightarrow> if t = 0 then vc_lock_timeout (vh_cfg V) else t)"

definition acquire_lock :: "nat \<Rightarrow> 's vpn_host \<Rightarrow> int option \<Rightarrow> ('s, string) fio" where
  "acquire_lock fuel V timeout =
     f_bind (f_call (vh_open_lock V)) (\<lambda>handle.
     f_bind (f_read (vh_time V)) (\<lambda>start. flock_loop fuel V handle (lock_seconds V timeout) start))"

definition release_lock :: "'s vpn_host \<Rightarrow> string option \<Rightarrow> ('s, unit) fio" where
  "release_lock V lock_handle =
     (case lock_handle of
        None \<Rightarrow> f_ret ()
      | Some h \<Rightarrow> f_finally (f_call (vh_unlock V h)) (f_call (vh_close V h)))"

text \<open>The generator \<open>vpn_session\<close> around its body: the handle is known to the clean-up only if the lock was
  acquired.\<close>

definition vpn_session :: "nat \<Rightarrow> 's vpn_host \<Rightarrow> device_group \<Rightarrow> int option \<Rightarrow> ('s, 'a) fio \<Rightarrow> ('s, 'a) fio" where
  "vpn_session fuel V g timeout body =
     io_bind (if truthy_env (vh_env V) ''VPN_ISOLATED_WORKER'' ''0'' then f_ret None
              else f_bind (acquire_lock fuel V timeout) (\<lambda>h. f_ret (Some h))) (\<lambda>got.
     let lock_handle = (case got of Inl e \<Rightarrow> None | Inr h \<Rightarrow> h)
     in f_finally (case got of Inl e \<Rightarrow> f_raise e | Inr _ \<Rightarrow> f_bind (connect_group_vpn fuel V g) (\<lambda>_. body))
          (f_finally (disconnect_group_vpn fuel V g) (release_lock V lock_handle)))"

end
