(* ===== verification/VpnSafety.thy ===== *)
theory VpnSafety
  imports Vpn
begin

text \<open>
  What holds of the VPN service of \<open>Vpn\<close> on a host whose \<open>nmcli\<close> does what its manual says: the profiles
  of the NetworkManager are a list of names, types and activity; listing prints them, \<open>down\<close> and
  \<open>delete\<close> act on every profile of the name, \<open>add\<close> and \<open>up\<close> succeed or leave the profiles alone (or
  raise, after doing either). The locale \<open>nm_host\<close> states it.
\<close>

type_synonym profile = "string \<times> string \<times> bool"

definition nm_down :: "string \<Rightarrow> profile list \<Rightarrow> profile list" where
  "nm_down n ps = map (\<lambda>(m, t, a). (m, t, a \<and> m \<noteq> n)) ps"

definition nm_up :: "string \<Rightarrow> profile list \<Rightarrow> profile list" where
  "nm_up n ps = map (\<lambda>(m, t, a). (m, t, a \<or> m = n)) ps"

definition nm_delete :: "string \<Rightarrow> profile list \<Rightarrow> profile list" where
  "nm_delete n ps = filter (\<lambda>p. fst p \<noteq> n) ps"

text \<open>\<open>--terse\<close> puts a backslash before each colon and each backslash of a value.\<close>

definition nm_escape :: "string \<Rightarrow> string" where
  "nm_escape v = concat (map (\<lambda>c. if c = CHR '':'' \<or> c = CHR 0x5C then [CHR 0x5C, c] else [c]) v)"

definition active_line :: "profile \<Rightarrow> string" where
  "active_line p = (case p of (m, t, a) \<Rightarrow> nm_escape m @ '':'' @ nm_escape t @ '':activated'')"

definition all_line :: "profile \<Rightarrow> string" where
  "all_line p = (case p of (m, t, a) \<Rightarrow> nm_escape m @ '':'' @ nm_escape t)"

definition show_active :: "profile list \<Rightarrow> string" where
  "show_active ps = concat (map (\<lambda>p. active_line p @ [CHR 0x0A]) (filter (\<lambda>(m, t, a). a) ps))"

definition show_all :: "profile list \<Rightarrow> string" where
  "show_all ps = concat (map (\<lambda>p. all_line p @ [CHR 0x0A]) ps)"

definition vpns :: "profile list \<Rightarrow> profile list" where
  "vpns ps = filter (\<lambda>(m, t, a). t = ''vpn'') ps"

text \<open>
  A text that the terse listing prints as it is and the code reads back: it has no colon and no backslash (which
  are printed escaped and which the code does not unescape) and no line break.
\<close>

definition plain_text :: "string \<Rightarrow> bool" where
  "plain_text s \<longleftrightarrow> list_all (\<lambda>c. c \<noteq> CHR '':'' \<and> c \<noteq> CHR 0x5C \<and> \<not> is_line_break c) s"

definition good_profile :: "profile \<Rightarrow> bool" where
  "good_profile p \<longleftrightarrow> (case p of (m, t, a) \<Rightarrow> plain_text m \<and> plain_text t \<and>
     m \<noteq> [] \<and> t \<noteq> [] \<and> \<not> py_is_space (hd m) \<and> \<not> py_is_space (last t))"

definition good :: "profile list \<Rightarrow> bool" where
  "good ps \<longleftrightarrow> list_all good_profile ps"

lemma good_changes [simp]:
  "good ps \<Longrightarrow> good (nm_down n ps)" "good ps \<Longrightarrow> good (nm_up n ps)" "good ps \<Longrightarrow> good (nm_delete n ps)"
  "good (ps @ qs) \<longleftrightarrow> good ps \<and> good qs" "good []"
  by (induction ps) (auto simp: good_def nm_down_def nm_up_def nm_delete_def good_profile_def)

lemma delete_down: "nm_delete n (nm_down n ps) = nm_delete n ps"
  by (induction ps) (auto simp: nm_delete_def nm_down_def)

lemma vpns_append [simp]: "vpns (ps @ qs) = vpns ps @ vpns qs" "vpns [] = []"
  by (simp_all add: vpns_def)

lemma vpns_delete: "vpns (nm_delete n ps) = nm_delete n (vpns ps)"
  and vpns_up: "vpns (nm_up n ps) = nm_up n (vpns ps)"
  by (induction ps) (auto simp: vpns_def nm_delete_def nm_up_def)

section \<open>Reading a listing\<close>

lemma splitlines_line:
  "list_all (\<lambda>c. \<not> is_line_break c) l \<Longrightarrow>
   splitlines_aux acc (l @ CHR 0x0A # rest) = (rev acc @ l) # splitlines_aux [] rest"
proof (induction l arbitrary: acc)
  case Nil
  have nl: "is_line_break CHR 0x0A" by code_simp
  show ?case by (cases rest) (simp_all add: nl)
next
  case (Cons c l)
  have cr: "is_line_break CHR 0x0D" by code_simp
  with Cons.prems have c: "\<not> is_line_break c" "c \<noteq> CHR 0x0D" by auto
  obtain d s where ds: "l @ CHR 0x0A # rest = d # s" by (cases l) auto
  from Cons.IH [of "c # acc"] Cons.prems c show ?case by (simp add: ds)
qed

lemma splitlines_lines:
  assumes "\<And>x. x \<in> set xs \<Longrightarrow> list_all (\<lambda>c. \<not> is_line_break c) (f x)"
  shows "py_splitlines (concat (map (\<lambda>x. f x @ [CHR 0x0A]) xs)) = map f xs"
  using assms unfolding py_splitlines_def by (induction xs) (simp_all add: splitlines_line)

lemma plain_colon: "plain_text m \<Longrightarrow> CHR '':'' \<notin> set m"
  by (auto simp: plain_text_def list_all_iff)

lemma plain_escape [simp]: "plain_text m \<Longrightarrow> nm_escape m = m"
  by (induction m) (simp_all add: plain_text_def nm_escape_def)

text \<open>A VPN profile of another name is read back with its backslashes, under a name that no profile has.\<close>

lemma colon_name_misread:
  "py_rsplit CHR '':'' 1 (py_strip (all_line (''a:b'', ''vpn'', x))) = [''a'' @ [CHR 0x5C] @ '':b'', ''vpn'']"
  by (cases x) code_simp+

lemma plain_line: "plain_text m \<Longrightarrow> list_all (\<lambda>c. \<not> is_line_break c) m"
  by (auto simp: plain_text_def list_all_iff)

lemma no_break_line:
  assumes "plain_text m" "plain_text t"
  shows "list_all (\<lambda>c. \<not> is_line_break c) (m @ '':'' @ t)"
    and "list_all (\<lambda>c. \<not> is_line_break c) (m @ '':'' @ t @ '':activated'')"
proof -
  have "\<not> is_line_break CHR '':''" "list_all (\<lambda>c. \<not> is_line_break c) '':activated''" by code_simp+
  then show "list_all (\<lambda>c. \<not> is_line_break c) (m @ '':'' @ t)" "list_all (\<lambda>c. \<not> is_line_break c) (m @ '':'' @ t @ '':activated'')"
    using assms [THEN plain_line] by (simp_all del: append.simps add: list_all_append)
qed

lemma goodD: "good ps \<Longrightarrow> p \<in> set ps \<Longrightarrow> good_profile p"
  by (simp add: good_def list_all_iff)

lemma good_plain: "good_profile (m, t, a) \<Longrightarrow> plain_text m \<and> plain_text t"
  by (simp add: good_profile_def)

lemma good_lines:
  assumes "good_profile (m, t, a)"
  shows "active_line (m, t, a) = m @ '':'' @ t @ '':activated''" and "all_line (m, t, a) = m @ '':'' @ t"
  using good_plain [OF assms] by (simp_all add: active_line_def all_line_def)

lemma line_no_break:
  assumes "good_profile p"
  shows "list_all (\<lambda>c. \<not> is_line_break c) (active_line p)" and "list_all (\<lambda>c. \<not> is_line_break c) (all_line p)"
proof -
  obtain m t a where p: "p = (m, t, a)" by (cases p)
  with assms have g: "good_profile (m, t, a)" by simp
  from good_plain [OF g] have pl: "plain_text m" "plain_text t" by auto
  show "list_all (\<lambda>c. \<not> is_line_break c) (active_line p)" "list_all (\<lambda>c. \<not> is_line_break c) (all_line p)"
    unfolding p good_lines [OF g] by (rule no_break_line [OF pl])+
qed

lemma read_active: "good ps \<Longrightarrow> py_splitlines (show_active ps) = map active_line (filter (\<lambda>(m, t, a). a) ps)"
  unfolding show_active_def by (rule splitlines_lines, rule line_no_break, rule goodD) auto

lemma read_all: "good ps \<Longrightarrow> py_splitlines (show_all ps) = map all_line ps"
  unfolding show_all_def by (rule splitlines_lines, rule line_no_break, rule goodD)

lemma rsplit_all: "good_profile (m, t, a) \<Longrightarrow> py_rsplit CHR '':'' 1 (py_strip (all_line (m, t, a))) = [m, t]"
proof -
  assume g: "good_profile (m, t, a)"
  then have "py_strip (m @ '':'' @ t) = m @ '':'' @ t" by (intro py_strip_id) (auto simp: good_profile_def)
  with good_plain [OF g] show ?thesis
    unfolding good_lines [OF g] by (simp add: py_rsplit_def py_split_append_sep py_split_absent plain_colon)
qed

lemma rsplit_raw: "good_profile (m, t, a) \<Longrightarrow> py_rsplit CHR '':'' 2 (active_line (m, t, a)) = [m, t, ''activated'']"
  using good_plain [of m t a]
  by (simp add: good_lines py_rsplit_def py_split_append_sep py_split_absent plain_colon)

lemma rsplit_active: "good_profile (m, t, a) \<Longrightarrow> py_rsplit CHR '':'' 2 (py_strip (active_line (m, t, a))) = [m, t, ''activated'']"
proof -
  assume g: "good_profile (m, t, a)"
  then have "py_strip (active_line (m, t, a)) = active_line (m, t, a)"
    unfolding good_lines [OF g] by (intro py_strip_id) (auto simp: good_profile_def py_is_space_def)
  with rsplit_raw [OF g] show ?thesis by simp
qed

lemma count_active:
  assumes "good ps"
  shows "count_active_vpns (show_active ps) = length (filter (\<lambda>(m, t, a). a) (vpns ps))"
proof -
  have "filter (\<lambda>line. case py_rsplit CHR '':'' 2 line of
         [name, conn_type, state] \<Rightarrow> conn_type = ''vpn'' \<and> state = ''activated'' | _ \<Rightarrow> False) (map active_line qs)
     = map active_line (vpns qs)" if "\<forall>p\<in>set qs. good_profile p" for qs
    using that unfolding vpns_def by (induction qs) (auto simp: rsplit_raw)
  from this [of "filter (\<lambda>(m, t, a). a) ps"] show ?thesis
    using goodD [OF assms] by (auto simp: count_active_vpns_def read_active [OF assms] vpns_def conj_commute case_prod_beta)
qed

lemma f_for_map: "f_for (map g xs) f = f_for xs (\<lambda>x. f (g x))"
  by (induction xs) simp_all

section \<open>A clock that goes forward\<close>

lemma f_spec_read: "(\<And>v. f_spec (\<lambda>s. P s \<and> f s = v) (g v) Q X) \<Longrightarrow> f_spec P (f_bind (f_read f) g) Q X"
  by (auto simp: f_spec_def f_bind_def io_bind_def f_read_def)

lemma f_steps_total [total_io]: "io_total (f_read g)" "io_total (f_write h)"
  by (simp_all add: io_total_def f_read_def f_write_def)

locale vpn_clock =
  fixes V :: "'s vpn_host"
  assumes nmcli_forward: "vh_time V s \<le> vh_time V (snd (vh_nmcli V args t s))"
    and flock_forward: "vh_time V s \<le> vh_time V (snd (vh_flock V h s))"
    and sleep_advances: "0 \<le> ms \<Longrightarrow> vh_time V s + ms \<le> vh_time V (vh_sleep V ms s)"
begin

lemma forward_call:
  assumes "\<And>s. vh_time V s \<le> vh_time V (snd (g s))" "\<And>s. A s \<Longrightarrow> A (snd (g s))"
  shows "f_spec (\<lambda>s. A s \<and> t \<le> vh_time V s) (f_call g) (\<lambda>_ s. A s \<and> t \<le> vh_time V s) (\<lambda>_. A)"
proof (rule f_spec_call)
  fix s assume "A s \<and> t \<le> vh_time V s"
  with assms [of s] show "case g s of (Inl e, s') \<Rightarrow> A s' | (Inr a, s') \<Rightarrow> A s' \<and> t \<le> vh_time V s'"
    by (cases "g s") (auto split: sum.split)
qed

lemma nap_spec:
  assumes "0 \<le> n" "\<And>s. A s \<Longrightarrow> A (vh_sleep V (n * 1000) s)"
  shows "f_spec (\<lambda>s. A s \<and> t \<le> vh_time V s) (vpn_sleep V n) (\<lambda>_ s. A s \<and> t + n * 1000 \<le> vh_time V s) X"
proof (rule f_specI)
  fix s assume "A s \<and> t \<le> vh_time V s"
  with assms sleep_advances [of "n * 1000" s]
  show "\<exists>r s'. vpn_sleep V n s = (Some r, s') \<and> (case r of Inl e \<Rightarrow> X e s' | Inr a \<Rightarrow> A s' \<and> t + n * 1000 \<le> vh_time V s')"
    by (simp add: vpn_sleep_def f_write_def)
qed

lemma quiescent_loop_spec:
  assumes "\<And>s. A s \<Longrightarrow> A (snd (vh_nmcli V active_fields 60 s))" "\<And>n s. A s \<Longrightarrow> A (vh_sleep V n s)"
  shows "f_spec (\<lambda>s. A s \<and> started + (T - int fuel) * 1000 \<le> vh_time V s) (quiescent_loop (Suc fuel) V T started)
     (\<lambda>_. A) (\<lambda>_. A)"
proof -
  have call: "f_spec (\<lambda>s. A s \<and> t \<le> vh_time V s) (run_nmcli V active_fields 60 False)
      (\<lambda>_ s. A s \<and> t \<le> vh_time V s) (\<lambda>_. A)" for t
    unfolding run_nmcli_def
    by (rule f_spec_bind [OF forward_call]) (auto intro: nmcli_forward assms(1) f_spec_ret)
  show ?thesis
  proof (induction fuel)
    case 0
    show ?case
      unfolding quiescent_loop.simps
      by (rule f_spec_read, rule f_spec_if) (auto simp: f_spec_def)
  next
    case (Suc fuel)
    let ?t = "started + (T - int (Suc fuel)) * 1000"
    have again: "f_spec (\<lambda>s. A s \<and> ?t \<le> vh_time V s)
        (f_seq (vpn_sleep V 1) (quiescent_loop (Suc fuel) V T started)) (\<lambda>_. A) (\<lambda>_. A)"
      by (rule f_spec_seq [OF nap_spec [of 1 A]], simp, erule assms(2), rule f_spec_conseq [OF Suc.IH]) (auto simp: algebra_simps)
    show ?case
      unfolding quiescent_loop.simps(2) [of "Suc fuel"]
    proof (rule f_spec_read, rule f_spec_if, goal_cases)
      case (1 now)
      show ?case
      proof (rule f_spec_bind [where M = "\<lambda>_ s. A s \<and> ?t \<le> vh_time V s"])
        show "f_spec (\<lambda>s. (A s \<and> ?t \<le> vh_time V s) \<and> vh_time V s = now) (run_nmcli V active_fields 60 False)
            (\<lambda>_ s. A s \<and> ?t \<le> vh_time V s) (\<lambda>_. A)"
          by (rule f_spec_conseq [OF call [of ?t]]) auto
      qed (rule f_spec_if, rule f_spec_ret, simp, rule again)
    qed (auto intro: f_spec_ret)
  qed
qed

lemma quiescent_spec:
  assumes "\<And>s. A s \<Longrightarrow> A (snd (vh_nmcli V active_fields 60 s))" "\<And>n s. A s \<Longrightarrow> A (vh_sleep V n s)" "0 \<le> T" "T < int fuel"
  shows "f_spec A (wait_for_vpn_quiescent fuel V T) (\<lambda>_. A) (\<lambda>_. A)"
proof (cases fuel)
  case (Suc n)
  show ?thesis
    unfolding wait_for_vpn_quiescent_def Suc
  proof (rule f_spec_read)
    fix started
    from assms(4) Suc have "(T - int n) * 1000 \<le> 0" by simp
    then show "f_spec (\<lambda>s. A s \<and> vh_time V s = started) (quiescent_loop (Suc n) V T started) (\<lambda>_. A) (\<lambda>_. A)"
      by (intro f_spec_conseq [OF quiescent_loop_spec [of A started T n]] assms) auto
  qed
qed (use assms in simp)

lemma flock_step:
  assumes frames: "\<And>s. A s \<Longrightarrow> A (snd (vh_flock V h s))" "\<And>s. A s \<Longrightarrow> A (snd (vh_write_pid V h s))"
      "\<And>s. A s \<Longrightarrow> A (snd (vh_close V h s))" "\<And>n s. A s \<Longrightarrow> A (vh_sleep V n s)"
    and rest: "fuel \<noteq> 0 \<Longrightarrow> f_spec (\<lambda>s. A s \<and> start + (T - int fuel) * 1000 + 1000 \<le> vh_time V s)
      (flock_loop fuel V h T start) (\<lambda>_. A) (\<lambda>_. A)"
  shows "f_spec (\<lambda>s. A s \<and> start + (T - int fuel) * 1000 \<le> vh_time V s) (flock_loop (Suc fuel) V h T start) (\<lambda>_. A) (\<lambda>_. A)"
proof -
  let ?t = "start + (T - int fuel) * 1000"
  have call: "f_spec (\<lambda>s. A s \<and> D s) (f_call g) (\<lambda>_. A) (\<lambda>_. A)" if "\<And>s. A s \<Longrightarrow> A (snd (g s))" for D and g :: "('s, unit) op"
  proof (rule f_spec_call)
    fix s assume "A s \<and> D s"
    with that [of s] show "case g s of (Inl e, s') \<Rightarrow> A s' | (Inr a, s') \<Rightarrow> A s'" by (cases "g s") (auto split: sum.split)
  qed
  have again: "f_spec (\<lambda>s. A s \<and> ?t \<le> vh_time V s) (f_seq (vpn_sleep V 1) (flock_loop fuel V h T start)) (\<lambda>_. A) (\<lambda>_. A)"
    if "fuel \<noteq> 0"
    by (rule f_spec_seq [OF nap_spec [of 1 A ?t]], simp, erule frames, rule f_spec_conseq [OF rest [OF that]]) auto
  show ?thesis
    unfolding flock_loop.simps
  proof (rule f_spec_bind [OF forward_call], rule flock_forward, erule frames, rule f_spec_if, goal_cases)
    case (1 locked)
    show ?case by (rule f_spec_seq [OF call], erule frames) (simp add: f_spec_ret)
  next
    case (2 locked)
    show ?case
    proof (rule f_spec_read, rule f_spec_if, goal_cases)
      case (1 now)
      have closed: "f_spec (\<lambda>s. (A s \<and> ?t \<le> vh_time V s) \<and> vh_time V s = now) (f_call (vh_close V h)) (\<lambda>_. A) (\<lambda>_. A)"
        by (rule f_spec_conseq [OF call [where D = "\<lambda>_. True"]]) (auto intro: frames)
      show ?case by (rule f_spec_seq [OF closed]) (simp add: f_spec_raise)
    next
      case (2 now)
      show ?case
      proof (cases "fuel = 0")
        case True
        with 2 show ?thesis by (auto simp: f_spec_def)
      next
        case False
        show ?thesis by (rule f_spec_conseq [OF again [OF False]]) auto
      qed
    qed
  qed
qed

lemma acquire_spec:
  assumes "\<And>s. A s \<Longrightarrow> A (snd (vh_open_lock V s))" "\<And>h s. A s \<Longrightarrow> A (snd (vh_flock V h s))"
    "\<And>h s. A s \<Longrightarrow> A (snd (vh_write_pid V h s))" "\<And>h s. A s \<Longrightarrow> A (snd (vh_close V h s))" "\<And>n s. A s \<Longrightarrow> A (vh_sleep V n s)"
    and fuel: "lock_seconds V timeout < int fuel"
  shows "f_spec A (acquire_lock fuel V timeout) (\<lambda>_. A) (\<lambda>_. A)"
proof -
  from fuel obtain n where n: "fuel = Suc n" by (cases fuel) (auto simp: lock_seconds_def)
  have loop: "f_spec (\<lambda>s. A s \<and> start + (T - int k) * 1000 \<le> vh_time V s) (flock_loop (Suc k) V h T start) (\<lambda>_. A) (\<lambda>_. A)"
    for start T k h
  proof (induction k)
    case 0
    show ?case by (rule flock_step [OF assms(2-5)]) simp_all
  next
    case (Suc k)
    show ?case by (rule flock_step [OF assms(2-5)], assumption+, rule f_spec_conseq [OF Suc.IH]) (auto simp: algebra_simps)
  qed
  have opened: "f_spec A (f_call (vh_open_lock V)) (\<lambda>_. A) (\<lambda>_. A)"
  proof (rule f_spec_call)
    fix s assume "A s"
    with assms(1) [of s] show "case vh_open_lock V s of (Inl e, s') \<Rightarrow> A s' | (Inr a, s') \<Rightarrow> A s'"
      by (cases "vh_open_lock V s") (auto split: sum.split)
  qed
  show ?thesis
    unfolding acquire_lock_def
  proof (rule f_spec_bind [OF opened], rule f_spec_read)
    fix h start
    from fuel n have "(lock_seconds V timeout - int n) * 1000 \<le> 0" by simp
    then show "f_spec (\<lambda>s. A s \<and> vh_time V s = start) (flock_loop fuel V h (lock_seconds V timeout) start) (\<lambda>_. A) (\<lambda>_. A)"
      unfolding n by (intro f_spec_conseq [OF loop [of start "lock_seconds V timeout" n h]]) auto
  qed
qed

text \<open>The session ends when its body does.\<close>

lemma nmcli_total [total_io]: "io_total (run_nmcli V args t check)" "io_total (try_nmcli V args)" "io_total (vpn_log V lvl msg)"
  "io_total (vpn_sleep V n)" "io_total (drop_profile V name)" "io_total (mark_unavailable V now reason)"
  unfolding run_nmcli_def try_nmcli_def vpn_log_def vpn_sleep_def drop_profile_def mark_unavailable_def Let_def
  by (intro total_io)+

lemma list_total [total_io]: "io_total a \<Longrightarrow> (\<And>x y. io_total (f x y)) \<Longrightarrow> io_total (case xs of [] \<Rightarrow> a | x # y \<Rightarrow> f x y)"
  by (cases xs) auto

lemma fault_total [total_io]: "(\<And>t. io_total (f t)) \<Longrightarrow> (\<And>t. io_total (g t)) \<Longrightarrow>
  io_total (case e of VpnFault t \<Rightarrow> f t | OtherFault t \<Rightarrow> g t)"
  by (cases e) auto

lemma cleanup_total [total_io]: "io_total (cleanup_vpn_profiles V keep)"
  unfolding cleanup_vpn_profiles_def cleanup_active_vpns_def by (intro total_io)

lemma quiescent_total [total_io]: "20 < fuel \<Longrightarrow> io_total (wait_for_vpn_quiescent fuel V 20)"
  by (rule total_f_spec [where Q = "\<lambda>_ _. True" and X = "\<lambda>_ _. True"], rule quiescent_spec) auto

lemma connect_total: "20 < fuel \<Longrightarrow> io_total (connect_group_vpn fuel V g)"
  unfolding connect_group_vpn_def ensure_nmcli_def bring_up_def emit_nm_diagnostics_def nm_diagnostic_def
    retry_connection_up_on_eth0_def decrypt_opt_def Let_def case_prod_beta
  by (intro total_io) auto

lemma disconnect_total: "20 < fuel \<Longrightarrow> io_total (disconnect_group_vpn fuel V g)"
  unfolding disconnect_group_vpn_def Let_def by (intro total_io) auto

text \<open>The session ends when its body does, and a value it returns is the body's.\<close>

lemma session_value:
  fixes body :: "('s, 'b) fio"
  assumes "20 < fuel" "lock_seconds V timeout < int fuel" and body: "f_spec (\<lambda>_. True) body (\<lambda>a _. K a) (\<lambda>_ _. True)"
  shows "f_spec (\<lambda>_. True) (vpn_session fuel V g timeout body) (\<lambda>a _. K a) (\<lambda>_ _. True)"
proof -
  have "io_total (acquire_lock fuel V timeout)"
    by (rule total_f_spec [where Q = "\<lambda>_ _. True" and X = "\<lambda>_ _. True"], rule acquire_spec) (use assms(2) in auto)
  then have take: "io_total (if b then f_ret None else f_bind (acquire_lock fuel V timeout) (\<lambda>h. f_ret (Some h)))" for b
    by (intro total_io)
  have ends: "io_total (f_finally (disconnect_group_vpn fuel V g) (release_lock V h))" for h
    unfolding release_lock_def by (intro total_io disconnect_total assms)
  note clean = f_spec_total [OF ends]
  have inner: "f_spec (\<lambda>_. True) (f_bind (connect_group_vpn fuel V g) (\<lambda>_. body)) (\<lambda>a _. K a) (\<lambda>_ _. True)"
    by (rule f_spec_bind [OF f_spec_total [OF connect_total [OF assms(1)]] body])
  have keep: "f_spec (\<lambda>_. K a) (f_finally (disconnect_group_vpn fuel V g) (release_lock V h)) (\<lambda>_ _. K a) (\<lambda>_ _. True)" for a h
    by (rule f_spec_pure [OF ends])
  have all: "f_spec (\<lambda>_. True) (f_finally (case got of Inl e \<Rightarrow> f_raise e | Inr _ \<Rightarrow> f_bind (connect_group_vpn fuel V g) (\<lambda>_. body))
      (f_finally (disconnect_group_vpn fuel V g) (release_lock V h))) (\<lambda>a _. K a) (\<lambda>_ _. True)" for got :: "fault + string option" and h
  proof (cases got)
    case (Inl e)
    show ?thesis
      unfolding Inl sum.case
      by (rule f_spec_finally [where ?Q0.0 = "\<lambda>_ _. False" and ?X0.0 = "\<lambda>_ _. True"])
        (auto simp: f_spec_def [of "\<lambda>_. False"] intro: f_spec_raise clean)
  next
    case (Inr r)
    show ?thesis unfolding Inr sum.case by (rule f_spec_finally [OF inner keep clean])
  qed
  show ?thesis
  proof (rule f_specI)
    fix s
    obtain got s1 where "(if truthy_env (vh_env V) ''VPN_ISOLATED_WORKER'' ''0'' then f_ret None
        else f_bind (acquire_lock fuel V timeout) (\<lambda>h. f_ret (Some h))) s = (Some got, s1)"
      using io_totalD [OF take] by blast
    with all [of got "case got of Inl e \<Rightarrow> None | Inr h \<Rightarrow> h"]
    show "\<exists>r s'. vpn_session fuel V g timeout body s = (Some r, s') \<and> (case r of Inl e \<Rightarrow> True | Inr a \<Rightarrow> K a)"
      by (auto simp: vpn_session_def io_bind_def f_spec_def Let_def)
  qed
qed

end

section \<open>A host\<close>

text \<open>
  A host whose \<open>nmcli\<close> keeps the profiles \<open>profs\<close> of the world and whose clock goes forward: what the code
  relies on of the NetworkManager, of \<open>flock\<close> and of \<open>time.sleep\<close>.
\<close>

definition nm_questions :: "(string list \<times> int) set" where
  "nm_questions = {([''--terse'', ''--fields'', ''RUNNING'', ''general'', ''status''], 10), ([''device'', ''status''], 60),
     ([''--terse'', ''--fields'', ''NAME,TYPE,DEVICE,STATE'', ''con'', ''show'', ''--active''], 60)}"

definition ok_reply :: "fault + nm_result \<Rightarrow> bool" where
  "ok_reply r \<longleftrightarrow> (case r of Inl e \<Rightarrow> False | Inr res \<Rightarrow> nm_code res = 0)"

locale nm_host = vpn_clock V for V :: "'s vpn_host" +
  fixes profs :: "'s \<Rightarrow> profile list"
  assumes lists_active: "vh_nmcli V active_fields 60 s = (r, s') \<Longrightarrow>
      (\<exists>res. r = Inr res \<and> nm_stdout res = show_active (profs s)) \<and> profs s' = profs s"
    and lists_all: "vh_nmcli V [''--terse'', ''--fields'', ''NAME,TYPE'', ''con'', ''show''] 60 s = (r, s') \<Longrightarrow>
      (\<exists>res. r = Inr res \<and> nm_stdout res = show_all (profs s)) \<and> profs s' = profs s"
    and downs: "vh_nmcli V [''connection'', ''down'', n] 60 s = (r, s') \<Longrightarrow> (\<exists>res. r = Inr res) \<and> profs s' = nm_down n (profs s)"
    and deletes: "vh_nmcli V [''connection'', ''delete'', n] 60 s = (r, s') \<Longrightarrow>
      (\<exists>res. r = Inr res) \<and> profs s' = nm_delete n (profs s)"
    and adds: "vh_nmcli V [''connection'', ''add'', ''type'', ''vpn'', ''con-name'', n, ''vpn-type'', ''l2tp'',
        ''vpn.data'', d, ''vpn.secrets'', x] 60 s = (r, s') \<Longrightarrow>
      profs s' = profs s @ [(n, ''vpn'', False)] \<or> \<not> ok_reply r \<and> profs s' = profs s"
    and ups: "vh_nmcli V ([''connection'', ''up'', n] @ extra) t s = (r, s') \<Longrightarrow>
      profs s' = nm_up n (profs s) \<or> \<not> ok_reply r \<and> profs s' = profs s"
    and asks: "(args, t) \<in> nm_questions \<Longrightarrow> vh_nmcli V args t s = (r, s') \<Longrightarrow> profs s' = profs s"
    and log_frame: "profs (vh_log V lvl msg s) = profs s"
    and mark_frame: "profs (vh_set_unavailable V u s) = profs s"
    and sleep_frame: "profs (vh_sleep V ms s) = profs s"
    and open_frame: "profs (snd (vh_open_lock V s)) = profs s"
    and flock_frame: "profs (snd (vh_flock V h s)) = profs s"
    and lock_frames: "profs (snd (vh_write_pid V h s)) = profs s" "profs (snd (vh_unlock V h s)) = profs s"
      "profs (snd (vh_close V h s)) = profs s"
begin

text \<open>A call that leaves the profiles alone, whatever it returns.\<close>

definition quiet :: "('s, 'a) fio \<Rightarrow> bool" where
  "quiet m \<longleftrightarrow> (\<forall>A. f_spec (\<lambda>s. A (profs s)) m (\<lambda>_ s. A (profs s)) (\<lambda>_ s. A (profs s)))"

lemma quietD: "quiet m \<Longrightarrow> f_spec (\<lambda>s. A (profs s)) m (\<lambda>_ s. A (profs s)) (\<lambda>_ s. A (profs s))"
  by (simp add: quiet_def)

lemma quiet_spec: "quiet m \<Longrightarrow> (\<And>p. A p \<Longrightarrow> B p) \<Longrightarrow> (\<And>p. A p \<Longrightarrow> C p) \<Longrightarrow>
  f_spec (\<lambda>s. A (profs s)) m (\<lambda>_ s. B (profs s)) (\<lambda>_ s. C (profs s))"
  by (rule f_spec_conseq [OF quietD [of m A]]) auto

lemma quiet_ret: "quiet (f_ret a)" and quiet_raise: "quiet (f_raise e)" and quiet_read: "quiet (f_read g)"
  by (simp_all add: quiet_def f_spec_def f_read_def)

lemma quiet_write: "(\<And>s. profs (g s) = profs s) \<Longrightarrow> quiet (f_write g)"
  by (simp add: quiet_def f_spec_def f_write_def)

lemma quiet_call: "(\<And>s. profs (snd (g s)) = profs s) \<Longrightarrow> quiet (f_call g)"
  unfolding quiet_def by (intro allI f_spec_call) (metis (mono_tags, lifting) case_prodI2 snd_conv sum.case_eq_if)

lemma quiet_bind: "quiet m \<Longrightarrow> (\<And>a. quiet (f a)) \<Longrightarrow> quiet (f_bind m f)"
  unfolding quiet_def by (blast intro: f_spec_bind)

lemma quiet_seq: "quiet m \<Longrightarrow> quiet n \<Longrightarrow> quiet (f_seq m n)"
  unfolding f_seq_def by (rule quiet_bind)

lemma quiet_catch: "quiet m \<Longrightarrow> (\<And>e. quiet (h e)) \<Longrightarrow> quiet (f_catch m h)"
  unfolding quiet_def by (blast intro: f_spec_catch)

lemma quiet_finally: "quiet m \<Longrightarrow> quiet c \<Longrightarrow> quiet (f_finally m c)"
  unfolding quiet_def by (blast intro: f_spec_finally)

lemma quiet_if: "quiet m \<Longrightarrow> quiet n \<Longrightarrow> quiet (if b then m else n)"
  by simp

lemmas quiet_rules = quiet_ret quiet_raise quiet_read quiet_bind quiet_seq quiet_catch quiet_finally quiet_if

lemma quiet_log: "quiet (vpn_log V lvl msg)"
  unfolding vpn_log_def by (intro quiet_rules quiet_write log_frame)

lemma quiet_sleep: "quiet (vpn_sleep V n)"
  unfolding vpn_sleep_def by (intro quiet_write sleep_frame)

lemma quiet_nmcli:
  assumes "\<And>s r s'. vh_nmcli V args t s = (r, s') \<Longrightarrow> profs s' = profs s"
  shows "quiet (run_nmcli V args t check)"
proof -
  have "quiet (f_call (vh_nmcli V args t))" using assms by (intro quiet_call) (metis prod.collapse)
  then show ?thesis unfolding run_nmcli_def Let_def by (intro quiet_rules)
qed

lemma quiet_ask: "(args, t) \<in> nm_questions \<Longrightarrow> quiet (run_nmcli V args t check)"
  using asks by (intro quiet_nmcli)

lemma quiet_mark: "quiet (mark_unavailable V now reason)"
  unfolding mark_unavailable_def by (intro quiet_rules quiet_write mark_frame)

lemma quiet_ensure: "quiet (ensure_nmcli V)"
proof -
  have fault: "quiet (case e of VpnFault t \<Rightarrow> f_raise e | OtherFault t \<Rightarrow> mark_unavailable V now (g t))" for e now g
    by (cases e) (simp_all add: quiet_mark quiet_raise)
  have "quiet (run_nmcli V [''--terse'', ''--fields'', ''RUNNING'', ''general'', ''status''] 10 False)"
    by (rule quiet_ask) (simp add: nm_questions_def)
  then show ?thesis
    unfolding ensure_nmcli_def Let_def case_prod_beta
    by (intro quiet_rules quiet_mark fault quiet_write mark_frame)
qed

lemma quiet_diagnostics: "quiet (emit_nm_diagnostics V)"
  unfolding emit_nm_diagnostics_def nm_diagnostic_def
  by (intro quiet_rules quiet_log quiet_ask) (simp_all add: nm_questions_def)

end


section \<open>Dropping profiles\<close>

definition vpn_names :: "profile list \<Rightarrow> string set" where
  "vpn_names ps = fst ` set (vpns ps)"

lemma vpn_names_simps [simp]:
  "vpn_names (nm_delete n ps) = vpn_names ps - {n}" "vpn_names [] = {}"
  "vpn_names ((m, t, a) # ps) = (if t = ''vpn'' then insert m (vpn_names ps) else vpn_names ps)"
  by (auto simp: vpn_names_def vpns_def nm_delete_def image_iff split: prod.splits)

lemma no_vpn_names: "vpn_names ps = {} \<longleftrightarrow> vpns ps = []"
  by (simp add: vpn_names_def)

definition kept :: "string option \<Rightarrow> string set" where
  "kept keep = (if or_empty keep = [] then {} else {or_empty keep})"

context nm_host
begin

lemma try_spec:
  assumes "\<And>s r s'. vh_nmcli V args 60 s = (r, s') \<Longrightarrow> (\<exists>res. r = Inr res) \<and> profs s' = g (profs s)"
  shows "f_spec (\<lambda>s. A (g (profs s))) (try_nmcli V args) (\<lambda>_ s. A (profs s)) (\<lambda>_ _. False)"
proof (rule f_specI)
  fix s assume A: "A (g (profs s))"
  obtain r s' where run: "vh_nmcli V args 60 s = (r, s')" by fastforce
  from assms [OF run] obtain res where "r = Inr res" "profs s' = g (profs s)" by blast
  with run have "try_nmcli V args s = (Some (Inr ()), s')" "profs s' = g (profs s)"
    by (simp_all add: try_nmcli_def run_nmcli_def f_bind_def io_bind_def f_call_def)
  with A show "\<exists>r s'. try_nmcli V args s = (Some r, s') \<and> (case r of Inl e \<Rightarrow> False | Inr a \<Rightarrow> A (profs s'))" by simp
qed

lemma drop_spec: "f_spec (\<lambda>s. A (nm_delete n (profs s))) (drop_profile V n) (\<lambda>_ s. A (profs s)) (\<lambda>_ _. False)"
  unfolding drop_profile_def
proof (rule f_spec_seq)
  show "f_spec (\<lambda>s. A (nm_delete n (profs s))) (try_nmcli V [''connection'', ''down'', n])
      (\<lambda>_ s. A (nm_delete n (profs s))) (\<lambda>_ _. False)"
    using try_spec [where A = "\<lambda>ps. A (nm_delete n ps)" and g = "nm_down n"] downs by (simp add: delete_down)
  show "f_spec (\<lambda>s. A (nm_delete n (profs s))) (try_nmcli V [''connection'', ''delete'', n]) (\<lambda>_ s. A (profs s)) (\<lambda>_ _. False)"
    by (rule try_spec) (rule deletes)
qed

lemma drop_one:
  "f_spec (\<lambda>s. good (profs s) \<and> vpn_names (profs s) \<subseteq> insert n N) (drop_profile V n)
     (\<lambda>_ s. good (profs s) \<and> vpn_names (profs s) \<subseteq> N) (\<lambda>_ _. False)"
  by (rule f_spec_conseq [OF drop_spec [where A = "\<lambda>ps. good ps \<and> vpn_names ps \<subseteq> N"]]) auto

lemma drop_any:
  "f_spec (\<lambda>s. good (profs s) \<and> vpn_names (profs s) \<subseteq> N) (drop_profile V n)
     (\<lambda>_ s. good (profs s) \<and> vpn_names (profs s) \<subseteq> N) (\<lambda>_ _. False)"
  by (rule f_spec_conseq [OF drop_spec [where A = "\<lambda>ps. good ps \<and> vpn_names ps \<subseteq> N"]]) auto

text \<open>The log never raises.\<close>

lemma log_spec: "f_spec (\<lambda>s. A (profs s)) (vpn_log V lvl msg) (\<lambda>_ s. A (profs s)) (\<lambda>_ _. False)"
  by (simp add: vpn_log_def f_spec_def f_write_def log_frame)

lemma active_loop:
  assumes "good qs"
  shows "f_spec (\<lambda>s. good (profs s) \<and> vpn_names (profs s) \<subseteq> N)
    (f_for (map active_line qs) (\<lambda>line. case py_rsplit CHR '':'' 2 (py_strip line) of
         [name, conn_type, state] \<Rightarrow>
           if conn_type = ''vpn'' \<and> state = ''activated'' \<and> name \<noteq> keep
           then f_seq (vpn_log V ''warning'' (''Desconectando VPN ativa anterior: '' @ name)) (drop_profile V name)
           else f_ret ()
       | _ \<Rightarrow> f_ret ())) (\<lambda>_ s. good (profs s) \<and> vpn_names (profs s) \<subseteq> N) (\<lambda>_ _. False)"
proof -
  note log = log_spec [where A = "\<lambda>ps. good ps \<and> vpn_names ps \<subseteq> N"]
  show ?thesis
    unfolding f_for_map
  proof (rule f_spec_for)
    fix q assume "q \<in> set qs"
    with goodD [OF assms] obtain m t a where q: "q = (m, t, a)" "good_profile (m, t, a)" by (cases q) auto
    show "f_spec (\<lambda>s. good (profs s) \<and> vpn_names (profs s) \<subseteq> N)
       (case py_rsplit CHR '':'' 2 (py_strip (active_line q)) of
         [name, conn_type, state] \<Rightarrow>
           if conn_type = ''vpn'' \<and> state = ''activated'' \<and> name \<noteq> keep
           then f_seq (vpn_log V ''warning'' (''Desconectando VPN ativa anterior: '' @ name)) (drop_profile V name)
           else f_ret ()
       | _ \<Rightarrow> f_ret ()) (\<lambda>_ s. good (profs s) \<and> vpn_names (profs s) \<subseteq> N) (\<lambda>_ _. False)"
      unfolding q(1) rsplit_active [OF q(2)] list.case
      by (rule f_spec_if, rule f_spec_seq [OF log drop_any], rule f_spec_ret)
  qed
qed

lemma all_loop:
  assumes "good qs"
  shows "f_spec (\<lambda>s. good (profs s) \<and> vpn_names (profs s) \<subseteq> kept keep \<union> vpn_names qs)
    (f_for (map all_line qs) (\<lambda>line. case py_rsplit CHR '':'' 1 (py_strip line) of
         [name, conn_type] \<Rightarrow>
           if conn_type \<noteq> ''vpn'' then f_ret ()
           else if or_empty keep \<noteq> [] \<and> name = or_empty keep then f_ret ()
           else drop_profile V name
       | _ \<Rightarrow> f_ret ())) (\<lambda>_ s. good (profs s) \<and> vpn_names (profs s) \<subseteq> kept keep) (\<lambda>_ _. False)"
  using assms
proof (induction qs)
  case Nil
  show ?case unfolding list.map f_for.simps by (rule f_spec_ret) simp
next
  case (Cons q qs)
  then obtain m t a where q: "q = (m, t, a)" "good_profile (m, t, a)" "good qs"
    by (cases q) (auto simp: good_def)
  have skip: "f_spec (\<lambda>s. good (profs s) \<and> vpn_names (profs s) \<subseteq> kept keep \<union> vpn_names (q # qs)) (f_ret ())
      (\<lambda>_ s. good (profs s) \<and> vpn_names (profs s) \<subseteq> kept keep \<union> vpn_names qs) (\<lambda>_ _. False)"
    if "t \<noteq> ''vpn'' \<or> or_empty keep \<noteq> [] \<and> m = or_empty keep"
    using that by (intro f_spec_ret) (auto simp: q(1) kept_def split: if_splits)
  have drop: "f_spec (\<lambda>s. good (profs s) \<and> vpn_names (profs s) \<subseteq> kept keep \<union> vpn_names (q # qs)) (drop_profile V m)
      (\<lambda>_ s. good (profs s) \<and> vpn_names (profs s) \<subseteq> kept keep \<union> vpn_names qs) (\<lambda>_ _. False)"
    by (rule f_spec_conseq [OF drop_one]) (auto simp: q(1) split: if_splits)
  show ?case
    unfolding list.map f_for.simps q(1) rsplit_all [OF q(2)] list.case
    by (rule f_spec_seq [OF _ Cons.IH [OF q(3)]]) (use skip drop in \<open>auto simp: q(1)\<close>)
qed

text \<open>A listing, and what is done with it: the profiles are those it printed.\<close>

lemma listing_bind:
  assumes "\<And>s r s'. vh_nmcli V args 60 s = (r, s') \<Longrightarrow> (\<exists>res. r = Inr res \<and> nm_stdout res = out (profs s)) \<and> profs s' = profs s"
    and "\<And>res ps. good ps \<Longrightarrow> nm_stdout res = out ps \<Longrightarrow> f_spec (\<lambda>s. profs s = ps) (f res) Q X"
  shows "f_spec (\<lambda>s. good (profs s)) (f_bind (run_nmcli V args 60 False) f) Q X"
proof (rule f_specI)
  fix s assume good: "good (profs s)"
  obtain r s' where run: "vh_nmcli V args 60 s = (r, s')" by fastforce
  with assms(1) obtain res where res: "r = Inr res" "nm_stdout res = out (profs s)" "profs s' = profs s" by blast
  from assms(2) [OF good res(2)] res(3) have "\<exists>q s2. f res s' = (Some q, s2) \<and> (case q of Inl e \<Rightarrow> X e s2 | Inr a \<Rightarrow> Q a s2)"
    by (auto simp: f_spec_def)
  moreover have "run_nmcli V args 60 False s = (Some (Inr res), s')"
    by (simp add: run_nmcli_def f_bind_def io_bind_def f_call_def run res(1))
  ultimately show "\<exists>q s2. f_bind (run_nmcli V args 60 False) f s = (Some q, s2) \<and> (case q of Inl e \<Rightarrow> X e s2 | Inr a \<Rightarrow> Q a s2)"
    by (simp add: f_bind_def io_bind_def)
qed

lemma cleanup_active: "f_spec (\<lambda>s. good (profs s)) (cleanup_active_vpns V k) (\<lambda>_ s. good (profs s)) (\<lambda>_ _. False)"
  unfolding cleanup_active_vpns_def
proof (rule listing_bind [where out = show_active], goal_cases)
  case (1 s r s')
  then show ?case using lists_active by blast
next
  case (2 res ps)
  then have "good (filter (\<lambda>(m, t, a). a) ps)" by (auto simp: good_def list_all_iff)
  from f_spec_conseq [OF active_loop [OF this, of UNIV k], where P' = "\<lambda>s. profs s = ps" and Q' = "\<lambda>_ s. good (profs s)"
      and X' = "\<lambda>_ _. False"] 2
  show ?case by (simp add: read_active)
qed

lemma cleanup_spec:
  "f_spec (\<lambda>s. good (profs s)) (cleanup_vpn_profiles V keep)
     (\<lambda>_ s. good (profs s) \<and> vpn_names (profs s) \<subseteq> kept keep) (\<lambda>_ _. False)"
  unfolding cleanup_vpn_profiles_def
proof (rule f_spec_seq [OF cleanup_active], rule listing_bind [where out = show_all], goal_cases)
  case (1 s r s')
  then show ?case using lists_all by blast
next
  case (2 res ps)
  from f_spec_conseq [OF all_loop [OF 2(1), of keep], where P' = "\<lambda>s. profs s = ps"
      and Q' = "\<lambda>_ s. good (profs s) \<and> vpn_names (profs s) \<subseteq> kept keep" and X' = "\<lambda>_ _. False"] 2
  show ?case by (simp add: read_all)
qed

text \<open>Without VPN profiles after it; what the loop that waits for quiet leaves is what it found.\<close>

lemma cleanup_all: "f_spec (\<lambda>s. good (profs s)) (cleanup_vpn_profiles V None)
    (\<lambda>_ s. good (profs s) \<and> vpns (profs s) = []) (\<lambda>_ _. False)"
  by (rule f_spec_conseq [OF cleanup_spec [of None]]) (auto simp: kept_def no_vpn_names or_empty_def)

lemma wait_spec: "20 < fuel \<Longrightarrow> f_spec (\<lambda>s. A (profs s)) (wait_for_vpn_quiescent fuel V 20) (\<lambda>_ s. A (profs s)) (\<lambda>_ s. A (profs s))"
proof (rule quiescent_spec)
  fix s assume "A (profs s)"
  moreover obtain r s' where "vh_nmcli V active_fields 60 s = (r, s')" by fastforce
  ultimately show "A (profs (snd (vh_nmcli V active_fields 60 s)))" using lists_active by fastforce
qed (simp_all add: sleep_frame)

end

section \<open>Connecting, disconnecting and the session\<close>

definition only_vpn :: "string \<Rightarrow> profile list \<Rightarrow> bool" where
  "only_vpn n ps \<longleftrightarrow> good ps \<and> vpns ps = [(n, ''vpn'', True)]"

definition half_up :: "string \<Rightarrow> profile list \<Rightarrow> bool" where
  "half_up n ps \<longleftrightarrow> good ps \<and> (vpns ps = [(n, ''vpn'', False)] \<or> vpns ps = [(n, ''vpn'', True)])"

lemma plain_text_parts:
  "plain_text (a @ b) \<longleftrightarrow> plain_text a \<and> plain_text b" "plain_text a \<Longrightarrow> plain_text (filter P a)"
  "plain_text a \<Longrightarrow> plain_text (take n a)"
  by (auto simp: plain_text_def list_all_iff dest: in_set_takeD)

lemma nm_up_simps [simp]: "nm_up n [] = []" "nm_up n ((m, t, a) # ps) = (m, t, a \<or> m = n) # nm_up n ps"
  by (simp_all add: nm_up_def)

lemma connection_name_props:
  "connection_name g \<noteq> ''container-eth0''" "plain_text g \<Longrightarrow> good_profile (connection_name g, ''vpn'', a)"
proof -
  show "connection_name g \<noteq> ''container-eth0''" by (simp add: connection_name_def)
  assume g: "plain_text g"
  have "plain_text ''group_vpn_''" "plain_text ''vpn''" "\<not> py_is_space CHR ''g''" "\<not> py_is_space CHR ''n''" by code_simp+
  moreover from this(1) have "plain_text (connection_name g)"
    unfolding connection_name_def plain_text_parts(1) by (simp only: g plain_text_parts(2,3) simp_thms)
  ultimately have "plain_text (connection_name g)" "plain_text ''vpn''" "\<not> py_is_space (hd (connection_name g))"
    "\<not> py_is_space (last ''vpn'')"
    by (simp_all add: connection_name_def)
  moreover have "connection_name g \<noteq> []" by (simp add: connection_name_def)
  ultimately show "good_profile (connection_name g, ''vpn'', a)" by (simp add: good_profile_def)
qed

lemma half_changes:
  "half_up n ps \<Longrightarrow> m \<noteq> n \<Longrightarrow> half_up n (nm_up m ps)" "half_up n ps \<Longrightarrow> only_vpn n (nm_up n ps)"
  "half_up n ps \<Longrightarrow> good ps" "only_vpn n ps \<Longrightarrow> half_up n ps"
  by (auto simp: half_up_def only_vpn_def vpns_up)

context nm_host
begin

lemma command_spec:
  assumes "\<And>s r s'. vh_nmcli V args t s = (r, s') \<Longrightarrow> A (profs s) \<Longrightarrow> (ok_reply r \<or> \<not> check \<longrightarrow> B (profs s')) \<and> C (profs s')"
  shows "f_spec (\<lambda>s. A (profs s)) (run_nmcli V args t check) (\<lambda>_ s. B (profs s)) (\<lambda>_ s. C (profs s))"
proof (rule f_specI)
  fix s assume A: "A (profs s)"
  obtain r s' where run: "vh_nmcli V args t s = (r, s')" by fastforce
  from assms [OF run A] show "\<exists>r s'. run_nmcli V args t check s = (Some r, s') \<and>
      (case r of Inl e \<Rightarrow> C (profs s') | Inr a \<Rightarrow> B (profs s'))"
    by (auto simp: run_nmcli_def f_bind_def io_bind_def f_call_def run ok_reply_def io_ret_def Let_def split: sum.splits)
qed

lemma acquire_quiet:
  assumes "lock_seconds V timeout < int fuel"
  shows "quiet (acquire_lock fuel V timeout)"
  unfolding quiet_def
  by (intro allI acquire_spec [OF _ _ _ _ _ assms]) (simp_all add: open_frame flock_frame lock_frames sleep_frame)

lemma release_quiet: "quiet (release_lock V h)"
  unfolding release_lock_def
  by (cases h) (auto intro!: quiet_finally quiet_call quiet_ret lock_frames)

lemma decrypt_quiet: "quiet (decrypt_opt V x)"
proof -
  have "quiet (io_ret r)" for r :: "fault + string"
    by (cases r) (simp_all add: quiet_ret quiet_raise flip: f_ret_def f_raise_def)
  then show ?thesis unfolding decrypt_opt_def by (intro quiet_if quiet_ret)
qed

lemma up_spec:
  assumes "\<And>ps. A ps \<Longrightarrow> B (nm_up n ps)" "\<And>ps. A ps \<Longrightarrow> C ps" "\<And>ps. B ps \<Longrightarrow> C ps"
    and "\<not> check \<Longrightarrow> (\<And>ps. A ps \<Longrightarrow> B ps)"
  shows "f_spec (\<lambda>s. A (profs s)) (run_nmcli V ([''connection'', ''up'', n] @ extra) t check)
    (\<lambda>_ s. B (profs s)) (\<lambda>_ s. C (profs s))"
  by (rule command_spec) (use assms ups in metis)

lemma bring_up_spec:
  assumes "plain_text gid"
  shows "f_spec (\<lambda>s. good (profs s) \<and> vpns (profs s) = []) (bring_up V (connection_name gid) d x)
    (\<lambda>_ s. only_vpn (connection_name gid) (profs s)) (\<lambda>_ s. good (profs s))"
proof -
  let ?n = "connection_name gid"
  have new: "good_profile (?n, ''vpn'', a)" for a by (rule connection_name_props(2) [OF assms])
  have drop: "f_spec (\<lambda>s. good (profs s) \<and> vpns (profs s) = []) (drop_profile V ?n)
      (\<lambda>_ s. good (profs s) \<and> vpns (profs s) = []) (\<lambda>_ s. good (profs s))"
    using f_spec_weaken [OF drop_any [of "{}" ?n]] by (simp add: no_vpn_names)
  have add: "f_spec (\<lambda>s. good (profs s) \<and> vpns (profs s) = [])
      (run_nmcli V [''connection'', ''add'', ''type'', ''vpn'', ''con-name'', ?n, ''vpn-type'', ''l2tp'',
               ''vpn.data'', d, ''vpn.secrets'', x] 60 True)
      (\<lambda>_ s. half_up ?n (profs s)) (\<lambda>_ s. good (profs s))"
  proof (rule command_spec)
    fix s r s' assume run: "vh_nmcli V [''connection'', ''add'', ''type'', ''vpn'', ''con-name'', ?n, ''vpn-type'', ''l2tp'',
               ''vpn.data'', d, ''vpn.secrets'', x] 60 s = (r, s')" and pre: "good (profs s) \<and> vpns (profs s) = []"
    have "good [(?n, ''vpn'', False)]" using new by (simp add: good_def)
    with adds [OF run] pre show "(ok_reply r \<or> \<not> True \<longrightarrow> half_up ?n (profs s')) \<and> good (profs s')"
      by (auto simp: half_up_def vpns_def)
  qed
  note up = up_spec [where A = "half_up ?n" and C = "\<lambda>ps. half_up ?n ps"]
  have first: "f_spec (\<lambda>s. half_up ?n (profs s)) (f_bind (run_nmcli V [''connection'', ''up'', ?n] 90 True) (\<lambda>_. f_ret ()))
      (\<lambda>_ s. only_vpn ?n (profs s)) (\<lambda>_ s. half_up ?n (profs s))"
    by (rule f_spec_bind [OF up [where extra = "[]", unfolded append_Nil2, where B = "only_vpn ?n"]]) (auto intro: half_changes f_spec_ret)
  have eth: "f_spec (\<lambda>s. half_up ?n (profs s)) (try_nmcli V [''connection'', ''up'', ''container-eth0''])
      (\<lambda>_ s. half_up ?n (profs s)) (\<lambda>_ s. half_up ?n (profs s))"
    unfolding try_nmcli_def
    by (rule f_spec_bind [OF up [where extra = "[]", unfolded append_Nil2, where B = "half_up ?n"]])
      (auto intro: half_changes(1) f_spec_ret simp: connection_name_props(1) [symmetric])
  have second: "f_spec (\<lambda>s. half_up ?n (profs s))
      (f_bind (run_nmcli V [''connection'', ''up'', ?n, ''ifname'', ''eth0''] 90 True) (\<lambda>_. f_ret ()))
      (\<lambda>_ s. only_vpn ?n (profs s)) (\<lambda>_ s. half_up ?n (profs s))"
    by (rule f_spec_bind [OF up [where extra = "[''ifname'', ''eth0'']", unfolded append.simps, where B = "only_vpn ?n"]])
      (auto intro: half_changes f_spec_ret)
  have retry: "f_spec (\<lambda>s. half_up ?n (profs s)) (f_seq (emit_nm_diagnostics V) (retry_connection_up_on_eth0 V ?n))
      (\<lambda>_ s. only_vpn ?n (profs s)) (\<lambda>_ s. half_up ?n (profs s))"
    unfolding retry_connection_up_on_eth0_def
    by (intro f_spec_seq [OF quietD [OF quiet_diagnostics]] f_spec_seq [OF quietD [OF quiet_log]] f_spec_seq [OF eth] second)
  have handler: "f_spec (\<lambda>s. half_up ?n (profs s)) (case e of
          VpnFault t \<Rightarrow> if should_retry_activation_with_eth0 t
            then f_seq (emit_nm_diagnostics V) (retry_connection_up_on_eth0 V ?n) else f_raise e
        | OtherFault t \<Rightarrow> f_raise e) (\<lambda>_ s. only_vpn ?n (profs s)) (\<lambda>_ s. good (profs s))" for e
  proof -
    have "f_spec (\<lambda>s. half_up ?n (profs s)) (f_seq (emit_nm_diagnostics V) (retry_connection_up_on_eth0 V ?n))
        (\<lambda>_ s. only_vpn ?n (profs s)) (\<lambda>_ s. good (profs s))"
      by (rule f_spec_conseq [OF retry]) (auto dest: half_changes(3))
    then show ?thesis by (cases e) (auto intro: f_spec_raise dest: half_changes(3))
  qed
  show ?thesis
    unfolding bring_up_def by (intro f_spec_seq [OF drop] f_spec_bind [OF add] f_spec_catch [OF first] handler)
qed

lemma connect_spec:
  assumes "vpn_needed g" "plain_text (g_id g)" "20 < fuel"
  shows "f_spec (\<lambda>s. good (profs s)) (connect_group_vpn fuel V g)
    (\<lambda>_ s. only_vpn (connection_name (g_id g)) (profs s)) (\<lambda>_ s. good (profs s))"
proof -
  let ?n = "connection_name (g_id g)"
  let ?G = "\<lambda>s. good (profs s)"
  let ?K = "\<lambda>ps. good ps \<and> vpn_names ps \<subseteq> {?n}"
  have quiet: "quiet m \<Longrightarrow> f_spec ?G m (\<lambda>_. ?G) (\<lambda>_. ?G)" for m :: "('s, 'b) fio" by (rule quietD)
  have clean: "f_spec ?G (cleanup_vpn_profiles V (Some ?n)) (\<lambda>_ s. ?K (profs s)) (\<lambda>_. ?G)"
    using f_spec_weaken [OF cleanup_spec [of "Some ?n"]] by (simp add: kept_def or_empty_def connection_name_def)
  have wait: "f_spec (\<lambda>s. ?K (profs s)) (wait_for_vpn_quiescent fuel V 20) (\<lambda>_ s. ?K (profs s)) (\<lambda>_. ?G)"
    by (rule f_spec_conseq [OF wait_spec [of fuel ?K]]) (use assms(3) in auto)
  have sleep: "f_spec (\<lambda>s. ?K (profs s)) (vpn_sleep V 2) (\<lambda>_ s. ?K (profs s)) (\<lambda>_. ?G)"
    using quiet_spec [OF quiet_sleep [of 2], of ?K ?K good] by simp
  have drop: "f_spec (\<lambda>s. ?K (profs s)) (drop_profile V ?n) (\<lambda>_ s. good (profs s) \<and> vpns (profs s) = []) (\<lambda>_. ?G)"
    using f_spec_weaken [OF drop_one [of ?n "{}"]] by (simp add: no_vpn_names)
  have undo: "f_spec ?G (f_seq (emit_nm_diagnostics V) (f_seq (cleanup_vpn_profiles V None)
        (f_seq (wait_for_vpn_quiescent fuel V 20) (f_raise e)))) (\<lambda>_ s. only_vpn ?n (profs s)) (\<lambda>_. ?G)" for e
  proof -
    have "f_spec ?G (cleanup_vpn_profiles V None) (\<lambda>_. ?G) (\<lambda>_. ?G)"
      by (rule f_spec_conseq [OF cleanup_all]) auto
    moreover have "f_spec ?G (wait_for_vpn_quiescent fuel V 20) (\<lambda>_. ?G) (\<lambda>_. ?G)"
      by (rule wait_spec [OF assms(3)])
    ultimately show ?thesis
      by (intro f_spec_seq [OF quiet [OF quiet_diagnostics]]) (auto intro!: f_spec_seq f_spec_raise)
  qed
  have finish: "f_spec (\<lambda>s. only_vpn ?n (profs s)) (f_seq (vpn_log V ''success'' m) (f_ret r))
      (\<lambda>_ s. only_vpn ?n (profs s)) (\<lambda>_. ?G)" for m and r :: "string option"
    by (rule f_spec_seq [OF f_spec_weaken [OF log_spec [of "only_vpn ?n"]]], rule f_spec_ret)
  show ?thesis
    unfolding connect_group_vpn_def Let_def
    by (simp only: assms(1) simp_thms if_False)
      (intro f_spec_seq [OF quiet [OF quiet_ensure]] f_spec_bind [OF quiet [OF decrypt_quiet]] f_spec_if f_spec_raise
        f_spec_seq [OF quiet [OF quiet_log]] f_spec_seq [OF clean] f_spec_seq [OF wait] f_spec_seq [OF sleep]
        f_spec_seq [OF drop] f_spec_seq [OF f_spec_catch [OF bring_up_spec [OF assms(2)] undo]] finish)
qed

lemma disconnect_spec:
  assumes "vpn_needed g" "20 < fuel"
  shows "f_spec (\<lambda>s. good (profs s)) (disconnect_group_vpn fuel V g)
    (\<lambda>_ s. good (profs s) \<and> vpns (profs s) = []) (\<lambda>_ s. good (profs s) \<and> vpns (profs s) = [])"
proof -
  let ?N = "\<lambda>ps. good ps \<and> vpns ps = []"
  let ?X = "\<lambda>(_ :: fault) s. ?N (profs s)"
  have drop: "f_spec (\<lambda>s. good (profs s)) (drop_profile V n) (\<lambda>_ s. good (profs s)) ?X" for n
    using f_spec_weaken [OF drop_any [of UNIV n]] by simp
  have clean: "f_spec (\<lambda>s. good (profs s)) (cleanup_vpn_profiles V None) (\<lambda>_ s. ?N (profs s)) ?X"
    by (rule f_spec_weaken [OF cleanup_all])
  have wait: "f_spec (\<lambda>s. ?N (profs s)) (wait_for_vpn_quiescent fuel V 20) (\<lambda>_ s. ?N (profs s)) ?X"
    using wait_spec [OF assms(2), of ?N] .
  have nap: "f_spec (\<lambda>s. ?N (profs s)) (vpn_sleep V n) (\<lambda>_ s. ?N (profs s)) ?X" for n
    using quietD [OF quiet_sleep, of ?N] by simp
  show ?thesis
    unfolding disconnect_group_vpn_def Let_def
    by (simp only: assms(1) simp_thms if_False)
      (intro f_spec_seq [OF f_spec_weaken [OF log_spec [of good]]] f_spec_seq [OF drop] f_spec_seq [OF clean] f_spec_seq [OF wait]
        f_spec_if f_spec_seq [OF f_spec_weaken [OF log_spec [of ?N]]] nap f_spec_ret)
qed

text \<open>The session: its body runs with the group's VPN as the only one, and no VPN profile is left after it.\<close>

lemma session_spec:
  fixes body :: "('s, 'b) fio"
  assumes "vpn_needed g" "plain_text (g_id g)" "20 < fuel" "lock_seconds V timeout < int fuel"
    and body: "f_spec (\<lambda>s. only_vpn (connection_name (g_id g)) (profs s)) body (\<lambda>_ s. good (profs s)) (\<lambda>_ s. good (profs s))"
  shows "f_spec (\<lambda>s. good (profs s)) (vpn_session fuel V g timeout body)
    (\<lambda>_ s. good (profs s) \<and> vpns (profs s) = []) (\<lambda>_ s. good (profs s) \<and> vpns (profs s) = [])"
proof -
  let ?G = "\<lambda>s. good (profs s)" and ?N = "\<lambda>s. good (profs s) \<and> vpns (profs s) = []"
  have inner: "f_spec ?G (f_bind (connect_group_vpn fuel V g) (\<lambda>_. body)) (\<lambda>_. ?G) (\<lambda>_. ?G)"
    by (rule f_spec_bind [OF connect_spec [OF assms(1-3)] body])
  have release: "f_spec ?N (release_lock V h) (\<lambda>_. ?N) (\<lambda>_. ?N)" for h
    using quietD [OF release_quiet, of "\<lambda>ps. good ps \<and> vpns ps = []"] by simp
  have clean: "f_spec ?G (f_finally (disconnect_group_vpn fuel V g) (release_lock V h)) (\<lambda>_. ?N) (\<lambda>_. ?N)" for h
    by (rule f_spec_finally [OF disconnect_spec [OF assms(1,3)] release release])
  have take: "f_spec ?G (if b then f_ret None else f_bind (acquire_lock fuel V timeout) (\<lambda>h. f_ret (Some h)))
      (\<lambda>_. ?G) (\<lambda>_. ?G)" for b
    by (intro f_spec_if f_spec_ret f_spec_bind [OF quietD [OF acquire_quiet [OF assms(4)]]]) auto
  show ?thesis
  proof (rule f_specI)
    fix s assume "?G s"
    with take [of "truthy_env (vh_env V) ''VPN_ISOLATED_WORKER'' ''0''"] show "\<exists>r s'. vpn_session fuel V g timeout body s = (Some r, s') \<and> (case r of Inl e \<Rightarrow> ?N s' | Inr a \<Rightarrow> ?N s')"
    proof (cases rule: f_specE)
      case (returned h s1)
      with f_spec_finally [OF inner clean clean] show ?thesis
        by (auto simp: vpn_session_def io_bind_def f_spec_def)
    next
      case (raised e s1)
      have "f_spec ?G (f_raise e :: ('s, 'b) fio) (\<lambda>_. ?G) (\<lambda>_. ?G)" by (rule f_spec_raise)
      from f_spec_finally [OF this clean clean] raised show ?thesis
        by (auto simp: vpn_session_def io_bind_def f_spec_def)
    qed
  qed
qed

end

section \<open>A host with profiles in memory\<close>

type_synonym nm_world = "profile list \<times> int"

definition sample_nmcli :: "string list \<Rightarrow> int \<Rightarrow> (nm_world, nm_result) op" where
  "sample_nmcli args t w =
     (let reply = (\<lambda>out ps. (Inr \<lparr>nm_code = 0, nm_stdout = out, nm_stderr = []\<rparr>, (ps, snd w)));
          ps = fst w; verb = take 2 args
      in if args = active_fields then reply (show_active ps) ps
         else if args = [''--terse'', ''--fields'', ''NAME,TYPE'', ''con'', ''show''] then reply (show_all ps) ps
         else if verb = [''connection'', ''down''] then reply [] (nm_down (args ! 2) ps)
         else if verb = [''connection'', ''delete''] then reply [] (nm_delete (args ! 2) ps)
         else if verb = [''connection'', ''add''] then reply [] (ps @ [(args ! 5, ''vpn'', False)])
         else if verb = [''connection'', ''up''] then reply [] (nm_up (args ! 2) ps)
         else reply ''running'' ps)"

text \<open>The lock file is always taken by another worker.\<close>

definition sample_vpn :: "nm_world vpn_host" where
  "sample_vpn =
     \<lparr>vh_env = \<lambda>_. None, vh_cfg = \<lparr>vc_settle = 8, vc_lock_timeout = 3600, vc_recheck = 60\<rparr>, vh_has_nmcli = \<lambda>_. True,
      vh_nmcli = sample_nmcli, vh_time = snd, vh_sleep = \<lambda>n w. (fst w, snd w + n), vh_decrypt = Inr,
      vh_levels = [''info'', ''warning'', ''error''], vh_log = \<lambda>_ _ w. w, vh_unavailable = \<lambda>_. (0, []),
      vh_set_unavailable = \<lambda>_ w. w, vh_open_lock = \<lambda>w. (Inr ''lock'', w), vh_flock = \<lambda>_ w. (Inr False, w),
      vh_write_pid = \<lambda>_ w. (Inr (), w), vh_unlock = \<lambda>_ w. (Inr (), w), vh_close = \<lambda>_ w. (Inr (), w)\<rparr>"

interpretation sample_clock: vpn_clock sample_vpn
  by unfold_locales (auto simp: sample_vpn_def sample_nmcli_def Let_def)

interpretation sample_nm: nm_host sample_vpn fst
  by unfold_locales
    (auto simp: sample_vpn_def sample_nmcli_def active_fields_def nm_questions_def Let_def)

section \<open>Properties\<close>


definition l2tp_group :: device_group where
  "l2tp_group = blank_group\<lparr>g_id := ''b7-1'', g_uses_vpn := Some True, g_vpn_server := Some ''vpn.example'',
     g_vpn_username := Some ''u'', g_vpn_password_encrypted := Some ''p''\<rparr>"


end
