(* ===== verification/GroupRun.thy ===== *)
theory GroupRun
  imports Vpn Float64
begin

text \<open>
  The backup of a group in one session (\<open>run_vpn_group_backups_task\<close> of \<open>src/app/tasks/backups.py\<close>): the
  group and its eligible devices are read, then the devices are backed up one after the other, through the
  VPN session of the group when one of them needs it, each behind the circuit breaker and the slot of its jump host,
  and every step is written to the metadata and the log of the task.

  Beside the worker (\<open>'s machine\<close>) and the VPN host, the record \<open>'s group_env\<close> holds the query for the group
  (which parses the identifier and may raise), the rows of the table of devices, the executor
  \<open>backup_executor.run_backup_for_device_id\<close> and the token \<open>uuid4\<close> draws for the lock of a device. The calls of
  the session on the database (\<open>expunge_all\<close>, \<open>close\<close>) have no effect here. A JSON number with a fraction is kept
  as its text.
\<close>

section \<open>Progress\<close>

text \<open>Sum and quotient of doubles, as pairs of significand and scale (see \<open>Float64\<close>).\<close>

definition fl_add :: "nat \<times> nat \<Rightarrow> nat \<times> nat \<Rightarrow> nat \<times> nat" where
  "fl_add x y = (let (m, s) = x; (n, t) = y in fl_scale 1 (m * 2 ^ t + n * 2 ^ s, s + t))"

definition fl_over :: "nat \<times> nat \<Rightarrow> nat \<Rightarrow> nat \<times> nat" where
  "fl_over x d = (let (m, s) = x in if m = 0 then (0, 0) else fl_div m (d * 2 ^ s))"

definition fl_le :: "nat \<times> nat \<Rightarrow> nat \<times> nat \<Rightarrow> bool" where
  "fl_le x y \<longleftrightarrow> (let (m, s) = x; (n, t) = y in m * 2 ^ t \<le> n * 2 ^ s)"

text \<open>The doubles \<open>0.0\<close>, \<open>0.2\<close> and \<open>0.99\<close>.\<close>

definition fl_00 :: "nat \<times> nat" where "fl_00 = (0, 0)"
definition fl_02 :: "nat \<times> nat" where "fl_02 = (7205759403792794, 55)"
definition fl_099 :: "nat \<times> nat" where "fl_099 = (8917127262193582, 53)"

definition multi_device_progress :: "int \<Rightarrow> int \<Rightarrow> nat \<times> nat \<Rightarrow> int" where
  "multi_device_progress total_devices processed_devices current_fraction =
     (let tot = max 1 total_devices;
          processed = (nat (max 0 processed_devices), 0);
          fraction = (if fl_le current_fraction fl_099 then current_fraction else fl_099);
          (m, s) = fl_add (5, 0) (fl_scale 90 (fl_over (fl_add processed fraction) (nat tot)))
      in min 95 (max 5 (int (m div 2 ^ s))))"

section \<open>The parts of a run\<close>

record 's group_env =
  ge_group :: "string \<Rightarrow> string \<Rightarrow> ('s, device_group option) op"
  ge_devices :: "('s, device list) op"
  ge_executor :: "string \<Rightarrow> bool \<Rightarrow> string \<Rightarrow> ('s, bool \<times> string option) op"
  ge_vpn :: "'s vpn_host"
  ge_token :: "string \<Rightarrow> string"

record group_call =
  gc_task :: string
  gc_group :: string
  gc_tenant :: string
  gc_devices :: "string list"
  gc_bulk :: "string option"
  gc_force_vpn :: bool

definition LARGE_BULK_FAIL_FAST_THRESHOLD :: int where
  "LARGE_BULK_FAIL_FAST_THRESHOLD = 8"

definition group_devices :: "group_call \<Rightarrow> device list \<Rightarrow> device list" where
  "group_devices c rows =
     filter (\<lambda>d. d_tenant_id d = gc_tenant c \<and> (case d_group d of None \<Rightarrow> False | Some g \<Rightarrow> g_id g = gc_group c) \<and>
         flag (d_is_active d) \<and> flag (d_backup_scheduled d) \<and> (gc_devices c = [] \<or> d_id d \<in> set (gc_devices c))) rows"

definition connection_flags :: "(string \<Rightarrow> string option) \<Rightarrow> device_group \<Rightarrow> device list \<Rightarrow> string \<Rightarrow> bool \<times> bool" where
  "connection_flags env g devices device_id =
     (case find (\<lambda>d. d_id d = device_id) (rev devices) of
        None \<Rightarrow> (False, False)
      | Some d \<Rightarrow> (uses_vpn_tunnel env (Some g) (Some d), uses_jump_host env (Some g) (Some d)))"

definition group_meta :: "'s machine \<Rightarrow> group_call \<Rightarrow> pydict \<Rightarrow> ('s, unit) fio" where
  "group_meta M c upd = f_lift (io_bind (task_meta M (gc_task c) upd) (\<lambda>_. io_ret ()))"

definition group_log :: "'s machine \<Rightarrow> group_call \<Rightarrow> string \<Rightarrow> string \<Rightarrow> string \<Rightarrow> ('s, unit) fio" where
  "group_log M c who msg lvl = f_lift (task_log M (Some (gc_task c)) who msg lvl)"

section \<open>One device\<close>

definition guarded_label :: "(string \<Rightarrow> bool \<times> bool) \<Rightarrow> device \<Rightarrow> string" where
  "guarded_label flags d =
     (case d_group d of
        None \<Rightarrow> ''direct''
      | Some g \<Rightarrow> if snd (flags (d_id d)) \<and> or_empty (g_jump_host g) \<noteq> []
                  then or_empty (g_jump_host g) @ '':'' @ show_int (or_22 (g_jump_port g)) else ''direct'')"

definition guarded_end ::
  "'s machine \<Rightarrow> string \<Rightarrow> int \<Rightarrow> lock_info option \<Rightarrow> bool \<Rightarrow> string option \<Rightarrow> ('s, bool \<times> string \<times> string option \<times> int) fio" where
  "guarded_end M cb_jump_label cb_retry_after li success message0 =
     (let message1 = py_strip (or_empty message0);
          message = (if message1 = [] then ''Falha sem mensagem retornada pelo executor.'' else message1);
          failure_category = (if success then None else Some (classify_failure (Some message)));
          record = (\<lambda>ok. f_lift (io_bind (io_read (m_mono M)) (\<lambda>now.
            record_jump_host_outcome (m_cfg M) (m_client M) (m_emit M) now cb_jump_label ok)))
      in f_seq (f_lift (adapt_jump_host_slots (m_cfg M) (m_client M) (m_emit M) (parse_jump_host_slot_overrides (m_env M))
                  li success (Some message)))
        (f_seq (if cb_jump_label \<noteq> ''direct'' then
                  (if success \<or> failure_category = Some ''banner_timeout'' then record True
                   else if or_empty failure_category \<in> set CB_FAILURE_CATEGORIES \<or> failure_category = Some ''circuit_breaker''
                   then record False else f_ret ())
                else f_ret ())
           (f_ret (success, message, failure_category, cb_retry_after))))"

text \<open>The body of the \<open>with\<close> on the lock, and the exceptions of the lock that are caught.\<close>

definition run_in_slot ::
  "'s machine \<Rightarrow> 's group_env \<Rightarrow> group_call \<Rightarrow> string \<Rightarrow> int \<Rightarrow> device \<Rightarrow> bool \<Rightarrow> acquisition \<Rightarrow>
   ('s, bool \<times> string \<times> string option \<times> int) fio" where
  "run_in_slot M E c cb_jump_label cb_retry_after d manage_vpn acq =
     (let li = (case acq of Unlocked l \<Rightarrow> Some l | Acquired l key idx \<Rightarrow> Some l | _ \<Rightarrow> None)
      in case acq of
           OutOfFuel \<Rightarrow> io_raise
         | SlotCancelled why \<Rightarrow> guarded_end M cb_jump_label cb_retry_after None False (Some why)
         | SlotTimeout why \<Rightarrow> guarded_end M cb_jump_label cb_retry_after None False (Some why)
         | _ \<Rightarrow> f_bind (f_finally (f_call (ge_executor E (d_id d) manage_vpn (gc_task c)))
                          (f_lift (leave_jump_host_lock M (ge_token E (d_id d)) acq)))
                 (\<lambda>(success, message). guarded_end M cb_jump_label cb_retry_after li success message))"

definition execute_device_with_guards ::
  "nat \<Rightarrow> 's machine \<Rightarrow> 's group_env \<Rightarrow> group_call \<Rightarrow> (string \<Rightarrow> bool \<times> bool) \<Rightarrow> device \<Rightarrow> bool \<Rightarrow>
   ('s, bool \<times> string \<times> string option \<times> int) fio" where
  "execute_device_with_guards fuel M E c flags d manage_vpn =
     (let cb_jump_label = guarded_label flags d
      in f_bind (if cb_jump_label \<noteq> ''direct''
                 then f_lift (io_bind (io_read (m_mono M)) (\<lambda>now.
                        check_jump_host_circuit_breaker (m_cfg M) (m_client M) (m_emit M) now cb_jump_label))
                 else f_ret (False, [], 0)) (\<lambda>(cb_open, cb_reason, cb_retry_after).
         if cb_open then f_ret (False, cb_reason, Some ''circuit_breaker'', cb_retry_after)
         else f_bind (f_lift (enter_jump_host_lock fuel M (ge_token E (d_id d)) (d_id d) (gc_task c) (gc_bulk c)))
                (run_in_slot M E c cb_jump_label cb_retry_after d manage_vpn)))"

section \<open>The loops over the devices\<close>

record tally =
  ta_success :: int
  ta_failed :: int
  ta_processed :: int
  ta_cancelled :: bool
  ta_details :: "pyval list"

definition new_tally :: tally where
  "new_tally = \<lparr>ta_success = 0, ta_failed = 0, ta_processed = 0, ta_cancelled = False, ta_details = []\<rparr>"

definition stop_tally :: "int \<Rightarrow> tally \<Rightarrow> tally" where
  "stop_tally tot t =
     t\<lparr>ta_cancelled := True, ta_failed := ta_failed t + max 0 (tot - ta_processed t),
       ta_details := ta_details t @ [PDict [(''device_id'', PNone), (''device_name'', PStr ''Lote''), (''success'', PBool False),
         (''message'', PStr (''Interrompido por parada for'' @ [CHR 0xE7] @ ''ada com '' @ show_int (ta_processed t) @ ''/'' @
            show_int tot @ '' processados.''))]]\<rparr>"

definition count_device :: "bool \<Rightarrow> tally \<Rightarrow> tally" where
  "count_device success t =
     (if success then t\<lparr>ta_success := ta_success t + 1, ta_processed := ta_processed t + 1\<rparr>
      else t\<lparr>ta_failed := ta_failed t + 1, ta_processed := ta_processed t + 1\<rparr>)"

definition note_device :: "device \<Rightarrow> bool \<Rightarrow> string \<Rightarrow> string option \<Rightarrow> tally \<Rightarrow> tally" where
  "note_device d success message category t =
     t\<lparr>ta_details := ta_details t @ [PDict [(''device_id'', PStr (d_id d)), (''device_name'', PStr (d_name d)),
         (''success'', PBool success), (''message'', PStr message), (''failure_category'', opt_str category)]]\<rparr>"

fun direct_loop ::
  "nat \<Rightarrow> 's machine \<Rightarrow> 's group_env \<Rightarrow> group_call \<Rightarrow> (string \<Rightarrow> bool \<times> bool) \<Rightarrow> int \<Rightarrow> device list \<Rightarrow> tally \<Rightarrow> ('s, tally) fio" where
  "direct_loop fuel M E c flags tot [] t = f_ret t"
| "direct_loop fuel M E c flags tot (d # ds) t =
     f_seq (f_lift (touch_bulk_activity M (gc_bulk c)))
    (f_bind (f_lift (should_stop_now M (gc_bulk c))) (\<lambda>stop.
     if stop then f_ret (stop_tally tot t)
     else f_bind (execute_device_with_guards fuel M E c flags d False) (\<lambda>(success, message, category, retry).
       let t' = count_device success t;
           progress = min 95 (int (pct_trunc (nat (ta_processed t')) (nat (max 1 tot))))
       in f_seq (group_meta M c [(''status'', PStr ''running''), (''progress'', PInt progress),
              (''message'', PStr (''Processando '' @ show_int (ta_processed t') @ ''/'' @ show_int tot @ '' dispositivos...'')),
              (''completed'', PBool False)])
            (direct_loop fuel M E c flags tot ds (note_device d success message category t')))))"

text \<open>The counters every update of the metadata of a VPN run repeats.\<close>

definition run_counters :: "int \<Rightarrow> tally \<Rightarrow> pyval \<Rightarrow> int \<Rightarrow> string \<Rightarrow> pydict" where
  "run_counters tot t current_name index fraction =
     [(''total_devices'', PInt tot), (''processed_devices'', PInt (ta_processed t)), (''done_devices'', PInt (ta_processed t)),
      (''success_devices'', PInt (ta_success t)), (''failed_devices'', PInt (ta_failed t)),
      (''current_device_name'', current_name), (''current_device_index'', PInt index), (''current_device_fraction'', PStr fraction)]"

fun vpn_loop ::
  "nat \<Rightarrow> 's machine \<Rightarrow> 's group_env \<Rightarrow> group_call \<Rightarrow> string \<Rightarrow> (string \<Rightarrow> bool \<times> bool) \<Rightarrow> int \<Rightarrow> device list \<Rightarrow> tally \<Rightarrow> ('s, tally) fio" where
  "vpn_loop fuel M E c who flags tot [] t = f_ret t"
| "vpn_loop fuel M E c who flags tot (d # ds) t =
     f_seq (f_lift (touch_bulk_activity M (gc_bulk c)))
    (f_bind (f_lift (should_stop_now M (gc_bulk c))) (\<lambda>stop.
     if stop then
       f_seq (group_log M c who (''Parada for'' @ [CHR 0xE7] @ ''ada solicitada. Interrompendo dispositivos restantes.'') ''warning'')
         (f_ret (stop_tally tot t))
     else
       f_seq (group_meta M c ([(''status'', PStr ''running''),
              (''progress'', PInt (multi_device_progress tot (ta_processed t) fl_02)),
              (''message'', PStr (''Processando '' @ show_int (ta_processed t + 1) @ ''/'' @ show_int tot @ '' via VPN: '' @ d_name d)),
              (''completed'', PBool False)] @ run_counters tot t (PStr (d_name d)) (ta_processed t + 1) ''0.2''))
      (f_bind (execute_device_with_guards fuel M E c flags d False) (\<lambda>(success, message, category, retry).
       let t' = count_device success t
       in f_seq (group_meta M c ([(''status'', PStr ''running''),
              (''progress'', PInt (multi_device_progress tot (ta_processed t') fl_00)),
              (''message'', PStr (''Processando '' @ show_int (ta_processed t') @ ''/'' @ show_int tot @ '' dispositivos via VPN...'')),
              (''completed'', PBool False)] @ run_counters tot t' (PStr (d_name d)) (ta_processed t') ''0.0''))
            (vpn_loop fuel M E c who flags tot ds (note_device d success message category t'))))))"

section \<open>The task\<close>

definition group_result :: "group_call \<Rightarrow> device_group \<Rightarrow> int \<Rightarrow> tally \<Rightarrow> pydict" where
  "group_result c g tot t =
     [(''group_id'', PStr (gc_group c)), (''group_name'', PStr (g_name g)), (''mode'', PStr ''vpn_group''), (''total'', PInt tot),
      (''success'', PInt (ta_success t)), (''failed'', PInt (ta_failed t)), (''details'', PList (ta_details t))]"

definition final_status :: "tally \<Rightarrow> string" where
  "final_status t = (if ta_cancelled t then ''stopped'' else if ta_failed t = 0 then ''success'' else ''failed'')"

definition final_message :: "tally \<Rightarrow> string" where
  "final_message t = (if ta_cancelled t then ''Interrompido. '' else ''Finalizado. '') @ ''Sucesso: '' @ show_int (ta_success t) @
     '' | Falhas: '' @ show_int (ta_failed t)"

text \<open>The last update of the metadata, the last line of the log, the result.\<close>

definition finish_group ::
  "'s machine \<Rightarrow> group_call \<Rightarrow> device_group \<Rightarrow> int \<Rightarrow> tally \<Rightarrow> pydict \<Rightarrow> ('s, pydict) fio" where
  "finish_group M c g tot t counters =
     (let res = group_result c g tot t
      in f_seq (group_meta M c ([(''status'', PStr (final_status t)), (''progress'', PInt 100), (''message'', PStr (final_message t)),
              (''completed'', PBool True), (''result'', PDict res)] @ counters))
        (f_seq (group_log M c (g_name g) (final_message t) (if final_status t = ''success'' then ''success'' else ''error''))
           (f_ret res)))"

definition refuse_group :: "'s machine \<Rightarrow> group_call \<Rightarrow> string \<Rightarrow> ('s, unit) fio" where
  "refuse_group M c msg =
     group_meta M c [(''status'', PStr ''failed''), (''progress'', PInt 100), (''message'', PStr msg), (''completed'', PBool True),
       (''error'', PStr msg)]"

definition run_devices_direct ::
  "nat \<Rightarrow> 's machine \<Rightarrow> 's group_env \<Rightarrow> group_call \<Rightarrow> device_group \<Rightarrow> (string \<Rightarrow> bool \<times> bool) \<Rightarrow> device list \<Rightarrow> ('s, pydict) fio" where
  "run_devices_direct fuel M E c g flags devices =
     (let tot = int (length devices)
      in f_seq (group_log M c (g_name g) ''Grupo sem VPN, executando fluxo direto.'' ''warning'')
        (f_bind (direct_loop fuel M E c flags tot devices new_tally) (\<lambda>t. finish_group M c g tot t [])))"

definition run_devices_vpn ::
  "nat \<Rightarrow> 's machine \<Rightarrow> 's group_env \<Rightarrow> group_call \<Rightarrow> device_group \<Rightarrow> (string \<Rightarrow> bool \<times> bool) \<Rightarrow> device list \<Rightarrow> ('s, pydict) fio" where
  "run_devices_vpn fuel M E c g flags devices =
     (let tot = int (length devices)
      in f_seq (group_log M c (g_name g) ''Conectando VPN do grupo...'' ''info'')
        (f_bind (vpn_session fuel (ge_vpn E) g (Some (vpn_lock_timeout (m_cfg M)))
           (f_seq (group_log M c (g_name g) ''VPN conectada com sucesso.'' ''success'')
           (f_seq (if or_empty (gc_bulk c) \<noteq> [] \<and> tot \<ge> LARGE_BULK_FAIL_FAST_THRESHOLD
                   then group_log M c (g_name g) (''Modo fail-fast habilitado para lote grande ('' @ show_int tot @
                          '' dispositivos): falhas transitorias nao terao retentativas para evitar travamento do lote.'') ''warning''
                   else f_ret ())
              (vpn_loop fuel M E c (g_name g) flags tot devices new_tally)))) (\<lambda>t.
         f_seq (group_log M c (g_name g) ''Desconectando VPN do grupo.'' ''info'')
        (f_seq (f_lift (touch_bulk_activity M (gc_bulk c)))
        (f_seq (f_lift (tell_m M (LogLine ''VPN group backup finalizado'')))
           (finish_group M c g tot t (run_counters tot t PNone 0 ''0.0'')))))))"

definition run_group_devices ::
  "nat \<Rightarrow> 's machine \<Rightarrow> 's group_env \<Rightarrow> group_call \<Rightarrow> device_group \<Rightarrow> device list \<Rightarrow> ('s, pydict) fio" where
  "run_group_devices fuel M E c g devices =
     (let tot = int (length devices); flags = connection_flags (m_env M) g devices;
          starting = \<lparr>ta_success = 0, ta_failed = tot, ta_processed = 0, ta_cancelled = True,
            ta_details = [PDict [(''device_id'', PNone), (''device_name'', PStr ''Lote''), (''success'', PBool False),
              (''message'', PStr (''Interrompido por parada for'' @ [CHR 0xE7] @ ''ada antes do inicio da execucao.''))]]\<rparr>
      in if devices = [] then
           (let res = group_result c g 0 new_tally
            in f_seq (group_meta M c [(''status'', PStr ''success''), (''progress'', PInt 100),
                 (''message'', PStr ''Nenhum dispositivo elegivel para backup.''), (''completed'', PBool True), (''result'', PDict res)])
                 (f_ret res))
         else f_bind (f_lift (should_stop_now M (gc_bulk c))) (\<lambda>stop.
         if stop then
           (let res = group_result c g tot starting
            in f_seq (group_meta M c [(''status'', PStr ''stopped''), (''progress'', PInt 100),
                 (''message'', PStr (''Grupo '' @ g_name g @ '' interrompido por parada for'' @ [CHR 0xE7] @ ''ada.'')),
                 (''completed'', PBool True), (''result'', PDict res)])
              (f_seq (group_log M c (g_name g) (''Execucao do grupo interrompida por parada for'' @ [CHR 0xE7] @ ''ada.'') ''warning'')
                 (f_ret res)))
         else
           f_seq (group_meta M c ([(''status'', PStr ''running''), (''progress'', PInt 5),
              (''message'', PStr (''Iniciando backup via VPN para grupo '' @ g_name g @ ''...'')), (''completed'', PBool False)] @
              run_counters tot new_tally PNone 0 ''0.0''))
          (f_seq (group_log M c (g_name g) ''Iniciando workflow VPN do grupo.'' ''info'')
          (f_seq (if gc_force_vpn c
                  then group_log M c (g_name g) (''Modo VPN for'' @ [CHR 0xE7] @ ''ado por subgrupo de conex'' @ a_tilde @ ''o.'') ''info''
                  else f_ret ())
          (f_seq (f_lift (touch_bulk_activity M (gc_bulk c)))
          (let vpn_required = (if gc_force_vpn c then devices else filter (\<lambda>d. fst (flags (d_id d))) devices);
               exigida = ''VPN exigida para '' @ show_int (int (length vpn_required)) @ ''/'' @ show_int tot @ '' dispositivo(s) ''
           in f_seq (group_log M c (g_name g)
                 (if gc_force_vpn c then exigida @ ''(modo for'' @ [CHR 0xE7] @ ''ado).'' else exigida @ ''deste lote.'') ''info'')
               (if vpn_required = [] then run_devices_direct fuel M E c g flags devices
                else run_devices_vpn fuel M E c g flags devices)))))))"

definition run_group_body :: "nat \<Rightarrow> 's machine \<Rightarrow> 's group_env \<Rightarrow> group_call \<Rightarrow> ('s, pydict) fio" where
  "run_group_body fuel M E c =
     f_seq (f_lift (touch_bulk_activity M (gc_bulk c)))
    (f_bind (f_call (ge_group E (gc_group c) (gc_tenant c))) (\<lambda>grp.
     case grp of
       None \<Rightarrow>
         f_seq (refuse_group M c (''Grupo '' @ gc_group c @ '' nao encontrado.''))
           (f_ret [(''error'', PStr (''Grupo '' @ gc_group c @ '' n'' @ a_tilde @ ''o encontrado.''))])
     | Some g \<Rightarrow>
         if \<not> flag (g_is_active g) then
           (let msg = ''Grupo '' @ g_name g @ '' inativo. Execucao VPN bloqueada.''
            in f_seq (refuse_group M c msg)
              (f_seq (group_log M c (g_name g) msg ''warning'')
                 (f_ret [(''error'', PStr msg), (''group_id'', PStr (gc_group c))])))
         else f_bind (f_call (ge_devices E)) (\<lambda>rows. run_group_devices fuel M E c g (group_devices c rows))))"

definition fail_group :: "'s machine \<Rightarrow> group_call \<Rightarrow> string \<Rightarrow> string \<Rightarrow> string \<Rightarrow> string \<Rightarrow> ('s, pydict) io" where
  "fail_group M c line who msg err =
     io_seq (tell_m M (LogLine line))
    (io_bind (task_meta M (gc_task c) [(''status'', PStr ''failed''), (''progress'', PInt 100), (''message'', PStr msg),
        (''completed'', PBool True), (''error'', PStr err)]) (\<lambda>_.
     io_seq (task_log M (Some (gc_task c)) who msg ''error'')
       (io_ret [(''error'', PStr err), (''group_id'', PStr (gc_group c))])))"

definition run_vpn_group_backups_task :: "nat \<Rightarrow> 's machine \<Rightarrow> 's group_env \<Rightarrow> group_call \<Rightarrow> ('s, pydict) io" where
  "run_vpn_group_backups_task fuel M E c =
     io_bind (run_group_body fuel M E c) (\<lambda>r.
     case r of
       Inr res \<Rightarrow> io_ret res
     | Inl (VpnFault e) \<Rightarrow> fail_group M c ''Falha de VPN no grupo'' ''VPN'' (''Falha de VPN: '' @ e) e
     | Inl (OtherFault e) \<Rightarrow> fail_group M c ''Erro no backup VPN do grupo'' ''Sistema'' (''Erro no backup do grupo: '' @ e) e)"

end
