(* ===== verification/GroupSafety.thy ===== *)
theory GroupSafety
  imports GroupRun BackupTask VpnSafety
begin

text \<open>
  What holds of the backup of a group of \<open>GroupRun\<close>, on a worker (locale \<open>host\<close>) with a VPN host whose clock
  goes forward: it ends, it leaves a report, and the report accounts for every eligible device.
\<close>

section \<open>The numbers of a run\<close>

text \<open>The loop is at a tally that accounts for the devices it has left behind.\<close>

definition on_track :: "int \<Rightarrow> nat \<Rightarrow> tally \<Rightarrow> bool" where
  "on_track tot left t \<longleftrightarrow> 0 \<le> ta_success t \<and> 0 \<le> ta_failed t \<and> ta_success t + ta_failed t = ta_processed t \<and>
     ta_processed t + int left = tot"

definition accounted :: "int \<Rightarrow> tally \<Rightarrow> bool" where
  "accounted tot t \<longleftrightarrow> 0 \<le> ta_success t \<and> 0 \<le> ta_failed t \<and> ta_success t + ta_failed t = tot"

lemma tally_steps:
  "on_track tot (Suc n) t \<Longrightarrow> on_track tot n (note_device d ok msg cat (count_device ok t))"
  "on_track tot n t \<Longrightarrow> accounted tot (stop_tally tot t)" "on_track tot 0 t \<Longrightarrow> accounted tot t"
  "on_track (int n) n new_tally"
  by (auto simp: on_track_def accounted_def note_device_def count_device_def stop_tally_def new_tally_def)

lemma dget_dupdate_other: "k \<notin> fst ` set e \<Longrightarrow> dget (dupdate d e) k = dget d k"
  by (induction e arbitrary: d) auto

lemma dupdate_append: "dupdate d (a @ b) = dupdate (dupdate d a) b"
  by (simp add: dupdate_def)

text \<open>The metadata of the task of a group that is over, and the result it returned.\<close>

definition group_counts :: "int \<Rightarrow> pydict \<Rightarrow> pyval \<Rightarrow> bool" where
  "group_counts n res status \<longleftrightarrow>
     (\<exists>a b. dget res ''total'' = PInt n \<and> dget res ''success'' = PInt a \<and> dget res ''failed'' = PInt b \<and>
        0 \<le> a \<and> 0 \<le> b \<and> a + b = n \<and> (status = PStr ''success'' \<longrightarrow> b = 0) \<and> (status = PStr ''failed'' \<longrightarrow> b \<noteq> 0)) \<and>
     status \<in> {PStr ''success'', PStr ''failed'', PStr ''stopped''}"

definition group_reported :: "string \<Rightarrow> int \<Rightarrow> pydict \<Rightarrow> pydict \<Rightarrow> bool" where
  "group_reported task n res meta \<longleftrightarrow>
     dget meta ''task_id'' = PStr task \<and> dget meta ''completed'' = PBool True \<and> dget meta ''progress'' = PInt 100 \<and>
     (if dhas res ''error'' then dget meta ''status'' = PStr ''failed''
      else dget meta ''result'' = PDict res \<and> group_counts n res (dget meta ''status''))"

locale group_host = host R view emit M + vpn_clock "ge_vpn E"
  for R :: "'s redis" and view emit and M :: "'s machine" and E :: "'s group_env" +
  fixes c :: group_call and fuel :: nat
  assumes log_ok: "log_config_ok (m_log M)" and named: "gc_task c \<noteq> []" and cfg_ok: "config_in_range (m_cfg M)"
    and enough: "21600 < fuel" "lock_seconds (ge_vpn E) None < int fuel"
begin

lemma enter_ends:
  "f_spec P (f_lift (enter_jump_host_lock fuel M token d (gc_task c) (gc_bulk c))) (\<lambda>acq _. acq \<noteq> OutOfFuel) (\<lambda>_ _. True)"
proof (rule f_spec_lift)
  have "lock_wait_seconds (m_cfg M) < int fuel" "30 < fuel" using cfg_ok enough(1) by (auto simp: config_in_range_def)
  from enter_spec [OF this] show "io_spec P (enter_jump_host_lock fuel M token d (gc_task c) (gc_bulk c)) (\<lambda>acq _. acq \<noteq> OutOfFuel) (\<lambda>_. True)"
    by (rule spec_conseq) auto
qed simp

lemma end_total [total_io]: "io_total (guarded_end M lab ra li ok msg)"
  unfolding guarded_end_def Let_def by (intro total_io)

lemma slot_total: "acq \<noteq> OutOfFuel \<Longrightarrow> io_total (run_in_slot M E c lab ra d manage acq)"
  by (cases acq) (auto simp: run_in_slot_def Let_def intro!: total_io)

lemma guards_total [total_io]: "io_total (execute_device_with_guards fuel M E c flags d manage)"
proof -
  have "f_spec (\<lambda>_. True) (f_bind (f_lift (enter_jump_host_lock fuel M (ge_token E (d_id d)) (d_id d) (gc_task c) (gc_bulk c)))
      (run_in_slot M E c lab ra d manage)) (\<lambda>_ _. True) (\<lambda>_ _. True)" for lab ra
  proof (rule f_spec_bind [OF enter_ends])
    show "f_spec (\<lambda>_. acq \<noteq> OutOfFuel) (run_in_slot M E c lab ra d manage acq) (\<lambda>_ _. True) (\<lambda>_ _. True)" for acq
      using f_spec_total [OF slot_total, of acq] by (cases "acq = OutOfFuel") (simp_all add: f_spec_def)
  qed
  note core = total_f_spec [OF this]
  show ?thesis
    unfolding execute_device_with_guards_def Let_def
    by (rule f_bind_total, (intro total_io)[1], intro prod_total, rule io_total_if, rule f_total, rule core)
qed

lemma steps_total [total_io]: "io_total (group_meta M c d)" "io_total (group_log M c who msg lvl)"
  unfolding group_meta_def group_log_def by (intro total_io)+

lemma some_spec: "io_total m \<Longrightarrow> f_spec P m (\<lambda>_ _. True) (\<lambda>_ _. True)"
  by (rule f_spec_total)

lemma direct_loop_spec:
  "on_track tot (length ds) t \<Longrightarrow> f_spec (\<lambda>_. True) (direct_loop fuel M E c flags tot ds t) (\<lambda>t' _. accounted tot t') (\<lambda>_ _. True)"
proof (induction ds arbitrary: t)
  case Nil
  then show ?case unfolding direct_loop.simps by (intro f_spec_ret) (simp add: tally_steps(3))
next
  case (Cons d ds)
  then have t: "on_track tot (Suc (length ds)) t" by simp
  have rest: "f_spec (\<lambda>_. True) (direct_loop fuel M E c flags tot ds (note_device d ok msg cat (count_device ok t)))
      (\<lambda>t' _. accounted tot t') (\<lambda>_ _. True)" for ok msg cat
    by (rule Cons.IH [OF tally_steps(1) [OF t]])
  show ?case
    unfolding direct_loop.simps Let_def case_prod_beta
    by (intro f_spec_seq [OF some_spec] f_spec_bind [OF some_spec] f_spec_if f_spec_ret rest total_io tally_steps(2) [OF t])
qed

lemma vpn_loop_spec:
  "on_track tot (length ds) t \<Longrightarrow> f_spec (\<lambda>_. True) (vpn_loop fuel M E c who flags tot ds t) (\<lambda>t' _. accounted tot t') (\<lambda>_ _. True)"
proof (induction ds arbitrary: t)
  case Nil
  then show ?case unfolding vpn_loop.simps by (intro f_spec_ret) (simp add: tally_steps(3))
next
  case (Cons d ds)
  then have t: "on_track tot (Suc (length ds)) t" by simp
  have rest: "f_spec (\<lambda>_. True) (vpn_loop fuel M E c who flags tot ds (note_device d ok msg cat (count_device ok t)))
      (\<lambda>t' _. accounted tot t') (\<lambda>_ _. True)" for ok msg cat
    by (rule Cons.IH [OF tally_steps(1) [OF t]])
  show ?case
    unfolding vpn_loop.simps Let_def case_prod_beta
    by (intro f_spec_seq [OF some_spec] f_spec_bind [OF some_spec] f_spec_if f_spec_ret rest total_io tally_steps(2) [OF t])
qed

text \<open>The report: the last update of the metadata, and the log line that leaves it.\<close>

lemma meta_end: "f_spec P (group_meta M c d) (\<lambda>_ s. \<exists>now old. meta_of (gc_task c) (view s) = merged_meta now (gc_task c) old d) X"
  unfolding group_meta_def
proof (rule f_spec_lift [where E = "\<lambda>_. False"])
  show "io_spec P (io_bind (task_meta M (gc_task c) d) (\<lambda>_. io_ret ()))
      (\<lambda>_ s. \<exists>now old. meta_of (gc_task c) (view s) = merged_meta now (gc_task c) old d) (\<lambda>_. False)"
    by (rule spec_conseq [OF spec_bind [OF meta_spec [OF log_ok named] spec_ret]]) auto
qed simp

lemma log_after: "f_spec (\<lambda>s. Q (meta_of (gc_task c) (view s))) (group_log M c who msg lvl) (\<lambda>_ s. Q (meta_of (gc_task c) (view s))) X"
  unfolding group_log_def by (rule f_spec_lift [OF log_keeps_meta]) simp

abbreviation ended :: "int \<Rightarrow> pydict \<Rightarrow> 's \<Rightarrow> bool" where
  "ended n res s \<equiv> group_reported (gc_task c) n res (meta_of (gc_task c) (view s))"

lemma meta_report:
  assumes "\<And>now old. group_reported (gc_task c) n res (merged_meta now (gc_task c) old d)"
  shows "f_spec P (group_meta M c d) (\<lambda>_. ended n res) X"
  by (rule f_spec_conseq [OF meta_end]) (use assms in auto)

lemma finish_spec:
  assumes "accounted n t" "counters = [] \<or> counters = run_counters n t x i f"
  shows "f_spec P (finish_group M c g n t counters) (\<lambda>res. ended n res) X"
proof -
  let ?res = "group_result c g n t"
  let ?d = "[(''status'', PStr (final_status t)), (''progress'', PInt 100), (''message'', PStr (final_message t)),
        (''completed'', PBool True), (''result'', PDict ?res)]"
  have other: "k \<notin> fst ` set counters" if "k \<in> {''status'', ''progress'', ''completed'', ''result''}" for k
    using assms(2) that by (auto simp: run_counters_def)
  have get: "dget (merged_meta now (gc_task c) old (?d @ counters)) k = dget (dupdate old ?d) k"
    if "k \<in> {''status'', ''progress'', ''completed'', ''result''}" for now old k
  proof -
    from that have "k \<noteq> ''updated_at''" "k \<noteq> ''task_id''" by auto
    with dget_dupdate_other [OF other [OF that], of "dupdate old ?d"] show ?thesis
      by (simp only: merged_meta_def dupdate_append dget_dput if_False)
  qed
  have task: "dget (merged_meta now (gc_task c) old upd) ''task_id'' = PStr (gc_task c)" for now old upd
    by (simp add: merged_meta_def)
  have counts: "group_counts n ?res (PStr (final_status t))"
    using assms(1) by (auto simp: group_counts_def group_result_def accounted_def final_status_def)
  have "group_reported (gc_task c) n ?res (merged_meta now (gc_task c) old (?d @ counters))" for now old
  proof -
    have "dget (merged_meta now (gc_task c) old (?d @ counters)) ''status'' = PStr (final_status t)"
      "dget (merged_meta now (gc_task c) old (?d @ counters)) ''progress'' = PInt 100"
      "dget (merged_meta now (gc_task c) old (?d @ counters)) ''completed'' = PBool True"
      "dget (merged_meta now (gc_task c) old (?d @ counters)) ''result'' = PDict ?res"
      by (subst get; simp)+
    moreover have "\<not> dhas ?res ''error''" by (simp add: group_result_def dhas_def)
    ultimately show ?thesis using counts by (simp only: group_reported_def task if_False simp_thms)
  qed
  then show ?thesis
    unfolding finish_group_def Let_def
    by (intro f_spec_seq [OF meta_report] f_spec_seq [OF log_after] f_spec_ret)
qed

text \<open>A tally that accounts for the devices, in any world.\<close>

lemma finish_after:
  assumes "counters = [] \<or> counters = run_counters n t x i f"
  shows "f_spec (\<lambda>_. accounted n t) (finish_group M c g n t counters) (\<lambda>res. ended n res) (\<lambda>_ _. True)"
  using finish_spec [OF _ assms] by (cases "accounted n t") (auto simp: f_spec_def)

lemma direct_spec:
  "f_spec (\<lambda>_. True) (run_devices_direct fuel M E c g flags ds) (\<lambda>res. ended (int (length ds)) res) (\<lambda>_ _. True)"
  unfolding run_devices_direct_def Let_def
  by (intro f_spec_seq [OF some_spec] steps_total f_spec_bind [OF direct_loop_spec [OF tally_steps(4)]] finish_after) simp

lemma lock_fuel: "lock_seconds (ge_vpn E) (Some (vpn_lock_timeout (m_cfg M))) < int fuel"
  using cfg_ok enough by (auto simp: lock_seconds_def config_in_range_def)

lemma vpn_spec:
  "f_spec (\<lambda>_. True) (run_devices_vpn fuel M E c g flags ds) (\<lambda>res. ended (int (length ds)) res) (\<lambda>_ _. True)"
proof -
  let ?n = "int (length ds)"
  have session: "f_spec (\<lambda>_. True) (vpn_session fuel (ge_vpn E) g (Some (vpn_lock_timeout (m_cfg M)))
      (f_seq (group_log M c (g_name g) ''VPN conectada com sucesso.'' ''success'')
      (f_seq (if or_empty (gc_bulk c) \<noteq> [] \<and> ?n \<ge> LARGE_BULK_FAIL_FAST_THRESHOLD
              then group_log M c (g_name g) (''Modo fail-fast habilitado para lote grande ('' @ show_int ?n @
                     '' dispositivos): falhas transitorias nao terao retentativas para evitar travamento do lote.'') ''warning''
              else f_ret ())
         (vpn_loop fuel M E c (g_name g) flags ?n ds new_tally)))) (\<lambda>t _. accounted ?n t) (\<lambda>_ _. True)"
    by (intro session_value lock_fuel f_spec_seq [OF some_spec] total_io vpn_loop_spec [OF tally_steps(4)])
      (use enough in simp)
  show ?thesis
    unfolding run_devices_vpn_def Let_def
    by (rule f_spec_seq [OF some_spec [OF steps_total(2)]], rule f_spec_bind [OF session])
      (rule f_spec_seq [OF f_spec_pure [OF steps_total(2)]], rule f_spec_seq [OF f_spec_pure [OF f_total(4)]],
        rule f_spec_seq [OF f_spec_pure [OF f_total(4)]], rule finish_after, rule disjI2, rule refl)
qed

lemma devices_spec:
  "f_spec (\<lambda>_. True) (run_group_devices fuel M E c g ds) (\<lambda>res. ended (int (length ds)) res) (\<lambda>_ _. True)"
proof (cases "ds = []")
  case True
  have done0: "group_reported (gc_task c) 0 (group_result c g 0 new_tally) (merged_meta now (gc_task c) old
      [(''status'', PStr ''success''), (''progress'', PInt 100), (''message'', PStr ''Nenhum dispositivo elegivel para backup.''),
       (''completed'', PBool True), (''result'', PDict (group_result c g 0 new_tally))])" for now old
    by (simp add: group_reported_def merged_meta_def group_result_def dhas_def group_counts_def new_tally_def)
  show ?thesis
    unfolding run_group_devices_def Let_def True
    by (simp only: simp_thms if_True list.size of_nat_0) (rule f_spec_seq [OF meta_report [OF done0]], rule f_spec_ret)
next
  case False
  have stopped: "f_spec (\<lambda>_. True) (f_seq (group_meta M c [(''status'', PStr ''stopped''), (''progress'', PInt 100),
        (''message'', PStr msg), (''completed'', PBool True), (''result'', PDict (group_result c g (int (length ds)) t))])
      (f_seq (group_log M c who line lvl) (f_ret (group_result c g (int (length ds)) t))))
      (\<lambda>res. ended (int (length ds)) res) (\<lambda>_ _. True)"
    if "ta_success t = 0" "ta_failed t = int (length ds)" for msg who line lvl t
  proof -
    have "group_reported (gc_task c) (int (length ds)) (group_result c g (int (length ds)) t) (merged_meta now (gc_task c) old
        [(''status'', PStr ''stopped''), (''progress'', PInt 100), (''message'', PStr msg), (''completed'', PBool True),
         (''result'', PDict (group_result c g (int (length ds)) t))])" for now old
      using that by (simp add: group_reported_def merged_meta_def group_result_def dhas_def group_counts_def)
    then show ?thesis
      by (rule f_spec_seq [OF meta_report]) (intro f_spec_seq [OF log_after] f_spec_ret)
  qed
  show ?thesis
    unfolding run_group_devices_def Let_def
    by (simp only: False if_False, intro f_spec_bind [OF some_spec] f_spec_if f_spec_seq [OF some_spec] direct_spec vpn_spec
        total_io stopped) simp_all
qed

lemma refuse_spec:
  assumes "dhas res ''error''"
  shows "f_spec (\<lambda>_. True) (refuse_group M c msg) (\<lambda>_. ended n res) (\<lambda>_ _. True)"
  unfolding refuse_group_def
  by (rule meta_report) (use assms in \<open>simp add: group_reported_def merged_meta_def\<close>)

lemma body_spec:
  assumes "\<And>w rs. fst (ge_devices E w) = Inr rs \<Longrightarrow> int (length (group_devices c rs)) = n"
  shows "f_spec (\<lambda>_. True) (run_group_body fuel M E c) (\<lambda>res. ended n res) (\<lambda>_ _. True)"
proof -
  have rows: "f_spec (\<lambda>_. True) (f_call (ge_devices E)) (\<lambda>rs _. int (length (group_devices c rs)) = n) (\<lambda>_ _. True)"
  proof (rule f_spec_call)
    fix w
    show "case ge_devices E w of (Inl e, s') \<Rightarrow> True | (Inr rs, s') \<Rightarrow> int (length (group_devices c rs)) = n"
      using assms [of w] by (cases "ge_devices E w") (auto split: sum.split)
  qed
  have run: "f_spec (\<lambda>_. int (length ds) = n) (run_group_devices fuel M E c g ds) (\<lambda>res. ended n res) (\<lambda>_ _. True)" for ds g
    using devices_spec [of g ds] by (auto simp: f_spec_def)
  show ?thesis
    unfolding run_group_body_def Let_def
  proof (intro f_spec_seq [OF some_spec] f_spec_bind [OF some_spec] total_io)
    fix grp
    have missing: "f_spec (\<lambda>_. True) (f_seq (refuse_group M c msg) (f_ret [(''error'', e)])) (\<lambda>res. ended n res) (\<lambda>_ _. True)" for msg e
      by (intro f_spec_seq [OF refuse_spec] f_spec_ret) (simp_all add: dhas_def)
    have inactive: "f_spec (\<lambda>_. True) (f_seq (refuse_group M c msg) (f_seq (group_log M c who msg lvl)
        (f_ret [(''error'', e), (''group_id'', g)]))) (\<lambda>res. ended n res) (\<lambda>_ _. True)" for msg who lvl e g
      by (intro f_spec_seq [OF refuse_spec] f_spec_seq [OF log_after] f_spec_ret) (simp_all add: dhas_def)
    show "f_spec (\<lambda>_. True) (case grp of None \<Rightarrow>
         f_seq (refuse_group M c (''Grupo '' @ gc_group c @ '' nao encontrado.''))
           (f_ret [(''error'', PStr (''Grupo '' @ gc_group c @ '' n'' @ a_tilde @ ''o encontrado.''))])
     | Some g \<Rightarrow>
         if \<not> flag (g_is_active g) then
            f_seq (refuse_group M c (''Grupo '' @ g_name g @ '' inativo. Execucao VPN bloqueada.''))
              (f_seq (group_log M c (g_name g) (''Grupo '' @ g_name g @ '' inativo. Execucao VPN bloqueada.'') ''warning'')
                 (f_ret [(''error'', PStr (''Grupo '' @ g_name g @ '' inativo. Execucao VPN bloqueada.'')), (''group_id'', PStr (gc_group c))]))
         else f_bind (f_call (ge_devices E)) (\<lambda>rows. run_group_devices fuel M E c g (group_devices c rows)))
      (\<lambda>res. ended n res) (\<lambda>_ _. True)"
      by (cases grp) (simp_all only: option.case missing, intro f_spec_if inactive f_spec_bind [OF rows run])
  qed
qed

lemma fail_spec: "io_spec (\<lambda>_. True) (fail_group M c line who msg err) (\<lambda>res. ended n res) (\<lambda>_. False)"
proof -
  let ?r = "[(''error'', PStr err), (''group_id'', PStr (gc_group c))]"
  have written: "io_spec (\<lambda>_. True) (task_meta M (gc_task c) [(''status'', PStr ''failed''), (''progress'', PInt 100), (''message'', PStr msg),
        (''completed'', PBool True), (''error'', PStr err)]) (\<lambda>_. ended n ?r) (\<lambda>_. False)"
    by (rule spec_conseq [OF meta_spec [OF log_ok named]]) (auto simp: group_reported_def merged_meta_def dhas_def)
  have log: "io_spec (ended n ?r) (task_log M (Some (gc_task c)) who msg ''error'') (\<lambda>_. ended n ?r) (\<lambda>_. False)"
    by (rule log_keeps_meta)
  show ?thesis
    unfolding fail_group_def
    by (intro spec_seq [OF total_spec] total_io spec_bind [OF written] spec_seq [OF log] spec_ret)
qed

lemma run_spec:
  assumes "\<And>w rs. fst (ge_devices E w) = Inr rs \<Longrightarrow> int (length (group_devices c rs)) = n"
  shows "io_spec (\<lambda>_. True) (run_vpn_group_backups_task fuel M E c) (\<lambda>res. ended n res) (\<lambda>_. False)"
  unfolding run_vpn_group_backups_task_def
proof (rule spec_bind)
  have "f_spec (\<lambda>_. True) (run_group_body fuel M E c) (\<lambda>res. ended n res) (\<lambda>_ _. True)"
    by (rule body_spec) (rule assms)
  from f_spec_io [OF this]
  show "io_spec (\<lambda>_. True) (run_group_body fuel M E c) (\<lambda>r s. case r of Inl e \<Rightarrow> True | Inr res \<Rightarrow> ended n res s) (\<lambda>_. False)" .
  show "io_spec (\<lambda>s. case r of Inl e \<Rightarrow> True | Inr res \<Rightarrow> ended n res s) (case r of
       Inr res \<Rightarrow> io_ret res
     | Inl (VpnFault e) \<Rightarrow> fail_group M c ''Falha de VPN no grupo'' ''VPN'' (''Falha de VPN: '' @ e) e
     | Inl (OtherFault e) \<Rightarrow> fail_group M c ''Erro no backup VPN do grupo'' ''Sistema'' (''Erro no backup do grupo: '' @ e) e)
      (\<lambda>res. ended n res) (\<lambda>_. False)" for r
    using fail_spec by (cases r) (auto intro: spec_ret split: fault.split)
qed

end

section \<open>A worker with a VPN host\<close>

text \<open>The worker of \<open>BackupTask\<close>, a NetworkManager that agrees to everything, a lock that is free, one group with
  two devices, the second of which fails.\<close>

definition sample_nm_host :: "hworld vpn_host" where
  "sample_nm_host =
     \<lparr>vh_env = \<lambda>_. None, vh_cfg = \<lparr>vc_settle = 8, vc_lock_timeout = 3600, vc_recheck = 60\<rparr>, vh_has_nmcli = \<lambda>_. True,
      vh_nmcli = \<lambda>_ _ w. (Inr \<lparr>nm_code = 0, nm_stdout = ''running'', nm_stderr = []\<rparr>, w),
      vh_time = \<lambda>w. st_now (host_view w), vh_sleep = \<lambda>n w. ((elapse n (fst (fst w)), snd (fst w)), snd w),
      vh_decrypt = Inr, vh_levels = [''info'', ''warning'', ''error''], vh_log = \<lambda>_ _ w. w,
      vh_unavailable = \<lambda>_. (0, []), vh_set_unavailable = \<lambda>_ w. w, vh_open_lock = \<lambda>w. (Inr ''lock'', w),
      vh_flock = \<lambda>_ w. (Inr True, w), vh_write_pid = \<lambda>_ w. (Inr (), w), vh_unlock = \<lambda>_ w. (Inr (), w),
      vh_close = \<lambda>_ w. (Inr (), w)\<rparr>"

definition two_devices :: "device list" where
  "two_devices = map (\<lambda>i. blank_device\<lparr>d_id := i, d_backup_scheduled := Some True, d_group := Some l2tp_group\<rparr>) [''d1'', ''d2'']"

definition sample_group_env :: "hworld group_env" where
  "sample_group_env =
     \<lparr>ge_group = \<lambda>_ _ w. (Inr (Some l2tp_group), w), ge_devices = \<lambda>w. (Inr two_devices, w),
      ge_executor = \<lambda>d _ _ w. (if d = ''d1'' then Inr (True, Some ''ok'') else Inl (OtherFault ''boom''), w),
      ge_vpn = sample_nm_host, ge_token = \<lambda>d. ''tok-'' @ d\<rparr>"

definition sample_group_call :: group_call where
  "sample_group_call = \<lparr>gc_task = ''g1'', gc_group = ''b7-1'', gc_tenant = ''t'', gc_devices = [], gc_bulk = Some ''b1'', gc_force_vpn = False\<rparr>"

interpretation sample_group: group_host host_redis host_view host_emit "sample_machine devices" sample_group_env sample_group_call 30000
  for devices
  by unfold_locales
    (auto simp: sample_group_env_def sample_nm_host_def sample_group_call_def sample_machine_def sample_log_config_ok default_in_range
      host_view_def elapse_def lock_seconds_def)

section \<open>Properties\<close>

text \<open>C23: The backup of a group ends and accounts for every device: whatever the executor, the VPN host, the
  queries and the server's contents, with a fuel above the longest configurable waits the task returns a result, and its metadata
  then says that it is completed at 100 percent; either the result is an error and the status is failed, or the
  metadata holds the result, which counts the eligible devices as successes and failures and nothing else, under the
  status success only without failures and failed only with some.\<close>

theorem group_run_accounts_for_devices:
  assumes "group_host R view emit M E c fuel"
    and "\<And>w rs. fst (ge_devices E w) = Inr rs \<Longrightarrow> int (length (group_devices c rs)) = n"
  shows "\<exists>res s'. run_vpn_group_backups_task fuel M E c s = (Some res, s') \<and>
    group_reported (gc_task c) n res (meta_of (gc_task c) (view s'))"
proof -
  obtain r s' where run: "run_vpn_group_backups_task fuel M E c s = (r, s')" by fastforce
  have "io_spec (\<lambda>_. True) (run_vpn_group_backups_task fuel M E c)
      (\<lambda>res s. group_reported (gc_task c) n res (meta_of (gc_task c) (view s))) (\<lambda>_. False)"
    by (rule group_host.run_spec [OF assms(1)]) (rule assms(2))
  from io_specD [OF this TrueI run] run show ?thesis by (auto split: option.splits)
qed

theorem group_run_accounts_for_devices_witness:
  "\<exists>res s'. run_vpn_group_backups_task 30000 (sample_machine (\<lambda>_. None)) sample_group_env sample_group_call empty_hworld = (Some res, s') \<and>
     group_reported ''g1'' 2 res (meta_of ''g1'' (host_view s'))"
proof -
  have rows: "int (length (group_devices sample_group_call rs)) = 2" if "fst (ge_devices sample_group_env w) = Inr rs" for w rs
    using that by (auto simp: sample_group_env_def two_devices_def group_devices_def sample_group_call_def blank_device_def
        l2tp_group_def blank_group_def flag_def)
  from group_run_accounts_for_devices [OF sample_group.group_host_axioms rows] show ?thesis
    by (simp add: sample_group_call_def)
qed

end
