(* ===== verification/Dispatch.thy ===== *)
theory Dispatch
  imports BackupRun Schedule "HOL-Library.List_Lexorder" "HOL-Library.Char_ord"
begin

text \<open>
  What puts backups on the queues of the workers (\<open>src/app/tasks/backups.py\<close>): the periodic pass over the
  schedules (\<open>run_scheduled_backups\<close>) and the backup of one group (\<open>run_backup_group_task\<close>).

  Celery is the argument \<open>send\<close>: it takes a message (which task, with which arguments, on which queue) and
  returns the id of the task or raises. The session of the database is its rows, kept apart from the world
  until the commit: a call that raises before it leaves the database as it was. A device's row carries its
  group, so the outer join with the groups is the look at \<^const>\<open>d_group\<close>.
\<close>

section \<open>Messages\<close>

record group_order =
  go_group :: string
  go_tenant :: string
  go_devices :: "string list"
  go_bulk :: "string option"
  go_force_vpn :: "bool option"

text \<open>The tasks with their arguments: the backup of a device (and the batch it belongs to), of a group, and the check of
  a device's connection.\<close>

datatype order = RunDevice string "string option" | RunGroup group_order | AuditDevice string "string option"

record message =
  mg_order :: order
  mg_queue :: string
  mg_task_id :: "string option"
  mg_countdown :: int

definition to_queue :: "string \<Rightarrow> order \<Rightarrow> message" where
  "to_queue queue job = \<lparr>mg_order = job, mg_queue = queue, mg_task_id = None, mg_countdown = 0\<rparr>"

section \<open>The rows of a pass\<close>

record backup_db =
  bd_devices :: "device list"
  bd_schedules :: "schedule list"
  bd_types :: "device_type list"

record 's dispatcher =
  di_machine :: "'s machine"
  di_send :: "message \<Rightarrow> ('s, string) io"
  di_tz :: timezone
  di_fresh :: "nat \<Rightarrow> string"

type_synonym row = "schedule \<times> device"

text \<open>\<open>active_device_filters\<close>.\<close>

definition active_device :: "device \<Rightarrow> bool" where
  "active_device d \<longleftrightarrow> flag (d_is_active d) \<and> flag (d_backup_scheduled d) \<and>
     (case d_group d of None \<Rightarrow> True | Some g \<Rightarrow> flag (g_is_active g))"

definition scheduled_device :: "backup_db \<Rightarrow> schedule \<Rightarrow> device option" where
  "scheduled_device db s = find (\<lambda>d. d_id d = s_device_id s \<and> active_device d) (bd_devices db)"

definition query_schedules :: "backup_db \<Rightarrow> row list" where
  "query_schedules db =
     List.map_filter (\<lambda>s. if flag (s_is_active s) then map_option (Pair s) (scheduled_device db s) else None) (bd_schedules db)"

definition tenant_daily_time :: "row list \<Rightarrow> string \<Rightarrow> string" where
  "tenant_daily_time rows tenant_id =
     (let tenant_times = map (\<lambda>(s, d). sanitize_daily_time (Some (s_time s)) ''02:00'')
            (filter (\<lambda>(s, d). d_tenant_id d = tenant_id \<and> s_time s \<noteq> []) rows)
      in if tenant_times \<noteq> [] then most_common tenant_times else ''02:00'')"

text \<open>The schedules for devices that have none. The argument \<open>n\<close> counts the identifiers drawn so far.\<close>

fun new_schedules :: "timezone \<Rightarrow> (nat \<Rightarrow> string) \<Rightarrow> naive \<Rightarrow> row list \<Rightarrow> nat \<Rightarrow> device list \<Rightarrow> schedule list" where
  "new_schedules tz fresh now rows n [] = []"
| "new_schedules tz fresh now rows n (d # ds) =
     (if d_id d \<in> set (map (\<lambda>(s, _). s_device_id s) rows) then new_schedules tz fresh now rows n ds
      else let schedule_time = tenant_daily_time rows (d_tenant_id d)
           in \<lparr>s_id = fresh n, s_device_id = d_id d, s_frequency = DAILY, s_time = schedule_time, s_day_of_week = None,
               s_day_of_month = None, s_is_active = Some True, s_last_run_at = None,
               s_next_run_at = compute_next_daily_run_at tz now (Some schedule_time) (Some now)\<rparr>
              # new_schedules tz fresh now rows (Suc n) ds)"

section \<open>Normalising the schedules\<close>

definition as_daily :: "string \<Rightarrow> schedule \<Rightarrow> schedule" where
  "as_daily time s = s\<lparr>s_frequency := DAILY, s_time := time, s_day_of_week := None, s_day_of_month := None\<rparr>"

definition row_time :: "row list \<Rightarrow> row \<Rightarrow> string" where
  "row_time rows = (\<lambda>(s, d). if s_time s = [] then tenant_daily_time rows (d_tenant_id d)
     else sanitize_daily_time (Some (s_time s)) ''02:00'')"

text \<open>The loop reads the rows it has already changed through \<open>_tenant_daily_time\<close>. It returns the rows, how many
  had no next run, and the tenants that are due.\<close>

fun normalise_rows :: "timezone \<Rightarrow> naive \<Rightarrow> row list \<Rightarrow> row list \<Rightarrow> row list \<times> nat \<times> string list" where
  "normalise_rows tz now before [] = (before, 0, [])"
| "normalise_rows tz now before ((s, d) # rest) =
     (let time = row_time (before @ (s, d) # rest) (s, d);
          s' = as_daily time s
      in case s_next_run_at s of
           None \<Rightarrow>
             (let s'' = s'\<lparr>s_next_run_at := compute_next_daily_run_at tz now (Some (if time = [] then ''02:00'' else time)) (Some now)\<rparr>;
                  (rows, initialized, due) = normalise_rows tz now (before @ [(s'', d)]) rest
              in (rows, Suc initialized, due))
         | Some next \<Rightarrow>
             (let (rows, initialized, due) = normalise_rows tz now (before @ [(s', d)]) rest
              in (rows, initialized, if next \<le> now then d_tenant_id d # due else due)))"

section \<open>The batch of a tenant\<close>

definition tenant_devices :: "backup_db \<Rightarrow> string \<Rightarrow> device list" where
  "tenant_devices db tenant_id = filter (\<lambda>d. d_tenant_id d = tenant_id \<and> active_device d) (bd_devices db)"

definition left_out :: "backup_db \<Rightarrow> device \<Rightarrow> bool" where
  "left_out db d = (case d_type d of None \<Rightarrow> False | Some t \<Rightarrow> dt_id t \<in> resolve_mass_backup_excluded_type_ids (bd_types db))"

definition eligible_devices :: "backup_db \<Rightarrow> string \<Rightarrow> device list" where
  "eligible_devices db tenant_id = filter (\<lambda>d. \<not> left_out db d) (tenant_devices db tenant_id)"

datatype route = ByVpn | ByJump | Direct

definition due_route :: "(string \<Rightarrow> string option) \<Rightarrow> device \<Rightarrow> route" where
  "due_route env d =
     (if d_group d \<noteq> None \<and> uses_vpn_tunnel env (d_group d) (Some d) then ByVpn
      else if d_group d \<noteq> None \<and> uses_jump_host env (d_group d) (Some d) then ByJump
      else Direct)"

definition on_route :: "(string \<Rightarrow> string option) \<Rightarrow> route \<Rightarrow> device list \<Rightarrow> device list" where
  "on_route env r ds = filter (\<lambda>d. due_route env d = r) ds"

definition group_key :: "device \<Rightarrow> string" where
  "group_key d = (case d_group d of None \<Rightarrow> ''None'' | Some g \<Rightarrow> g_id g)"

text \<open>\<open>due_vpn_by_group\<close>, in the order in which the groups appear.\<close>

definition vpn_orders :: "string \<Rightarrow> device list \<Rightarrow> order list" where
  "vpn_orders tenant_id ds =
     map (\<lambda>g. RunGroup \<lparr>go_group = g, go_tenant = tenant_id,
            go_devices = sort (remdups (map d_id (filter (\<lambda>d. group_key d = g) ds))), go_bulk = None, go_force_vpn = None\<rparr>)
       (from_keys (map group_key ds))"

definition tenant_messages :: "(string \<Rightarrow> string option) \<Rightarrow> string \<Rightarrow> device list \<Rightarrow> message list" where
  "tenant_messages env tenant_id ds =
     map (\<lambda>d. to_queue ''celery'' (RunDevice (d_id d) None)) (on_route env Direct ds) @
     map (\<lambda>d. to_queue ''jump_queue'' (RunDevice (d_id d) None)) (on_route env ByJump ds) @
     map (to_queue ''vpn_queue'') (vpn_orders tenant_id (on_route env ByVpn ds))"

definition advance_rows :: "timezone \<Rightarrow> naive \<Rightarrow> string \<Rightarrow> row list \<Rightarrow> row list" where
  "advance_rows tz now tenant_id rows =
     (let tenant_time = tenant_daily_time rows tenant_id;
          next_run = compute_next_daily_run_at tz now (Some tenant_time) (Some (now + US))
      in map (\<lambda>(s, d). if d_tenant_id d = tenant_id
                then ((as_daily tenant_time s)\<lparr>s_last_run_at := Some now, s_next_run_at := next_run\<rparr>, d) else (s, d)) rows)"

record batch_counts =
  bc_devices :: nat
  bc_direct :: nat
  bc_jump :: nat
  bc_vpn_groups :: nat
  bc_batches :: nat

definition no_batches :: batch_counts where
  "no_batches = \<lparr>bc_devices = 0, bc_direct = 0, bc_jump = 0, bc_vpn_groups = 0, bc_batches = 0\<rparr>"

definition count_batch :: "(string \<Rightarrow> string option) \<Rightarrow> string \<Rightarrow> device list \<Rightarrow> batch_counts \<Rightarrow> batch_counts" where
  "count_batch env tenant_id ds c =
     \<lparr>bc_devices = bc_devices c + length ds, bc_direct = bc_direct c + length (on_route env Direct ds),
      bc_jump = bc_jump c + length (on_route env ByJump ds),
      bc_vpn_groups = bc_vpn_groups c + length (vpn_orders tenant_id (on_route env ByVpn ds)), bc_batches = bc_batches c + 1\<rparr>"

definition send_all :: "(message \<Rightarrow> ('s, string) io) \<Rightarrow> message list \<Rightarrow> ('s, unit) io" where
  "send_all send ms = io_for ms (\<lambda>m. io_bind (send m) (\<lambda>_. io_ret ()))"

fun dispatch_tenants ::
  "'s dispatcher \<Rightarrow> backup_db \<Rightarrow> naive \<Rightarrow> string list \<Rightarrow> row list \<Rightarrow> batch_counts \<Rightarrow> ('s, row list \<times> batch_counts) io" where
  "dispatch_tenants D db now [] rows c = io_ret (rows, c)"
| "dispatch_tenants D db now (t # ts) rows c =
     (let env = m_env (di_machine D); ds = eligible_devices db t
      in io_seq (send_all (di_send D) (tenant_messages env t ds))
           (dispatch_tenants D db now ts (advance_rows (di_tz D) now t rows) (count_batch env t ds c)))"

section \<open>The pass\<close>

text \<open>The commit: every row of the session replaces the stored one.\<close>

definition store_rows :: "row list \<Rightarrow> schedule list \<Rightarrow> schedule list" where
  "store_rows rows stored =
     map (\<lambda>s. case find (\<lambda>(r, _). s_id r = s_id s) rows of None \<Rightarrow> s | Some (r, _) \<Rightarrow> r) stored"

definition paused_pass :: "string \<Rightarrow> pydict" where
  "paused_pass reason =
     [(''schedules_checked'', PInt 0), (''devices_queued'', PInt 0), (''direct_devices_queued'', PInt 0),
      (''vpn_groups_queued'', PInt 0), (''initialized_next_run'', PInt 0), (reason, PBool True)]"

definition pass_summary :: "nat \<Rightarrow> nat \<Rightarrow> batch_counts \<Rightarrow> pydict" where
  "pass_summary checked initialized c =
     [(''schedules_checked'', PInt (int checked)), (''tenant_batches_queued'', PInt (int (bc_batches c))),
      (''devices_queued'', PInt (int (bc_devices c))), (''direct_devices_queued'', PInt (int (bc_direct c))),
      (''jump_devices_queued'', PInt (int (bc_jump c))), (''vpn_groups_queued'', PInt (int (bc_vpn_groups c))),
      (''initialized_next_run'', PInt (int initialized)), (''skipped_not_ready'', PInt 0)]"

definition with_new_schedules :: "timezone \<Rightarrow> (nat \<Rightarrow> string) \<Rightarrow> naive \<Rightarrow> backup_db \<Rightarrow> backup_db" where
  "with_new_schedules tz fresh now db =
     db\<lparr>bd_schedules := bd_schedules db @ new_schedules tz fresh now (query_schedules db) 0 (filter active_device (bd_devices db))\<rparr>"

definition run_scheduled_backups :: "'s dispatcher \<Rightarrow> backup_db \<Rightarrow> ('s, pydict \<times> backup_db) io" where
  "run_scheduled_backups D db =
     (let M = di_machine D
      in io_bind (is_global_backup_stop_enabled M) (\<lambda>stop.
         if stop then io_ret (paused_pass ''blocked_by_force_stop'', db)
         else io_bind (has_active_bulk_operation M) (\<lambda>bulk.
         if bulk then io_ret (paused_pass ''blocked_by_running_bulk'', db)
         else io_bind (io_read (m_now M)) (\<lambda>now.
           let db' = with_new_schedules (di_tz D) (di_fresh D) now db;
               added = length (bd_schedules db') - length (bd_schedules db);
               (rows, initialized, due) = normalise_rows (di_tz D) now [] (query_schedules db')
           in io_bind (dispatch_tenants D db' now (sort (remdups due)) rows no_batches) (\<lambda>(rows', c).
                io_ret (pass_summary (length rows') (added + initialized) c,
                  db'\<lparr>bd_schedules := store_rows rows' (bd_schedules db')\<rparr>))))))"

section \<open>The backup of one group\<close>

definition group_device :: "string \<Rightarrow> string \<Rightarrow> device \<Rightarrow> bool" where
  "group_device group_id tenant_id d \<longleftrightarrow>
     map_option g_id (d_group d) = Some group_id \<and> d_tenant_id d = tenant_id \<and> d_is_active d = Some True"

definition group_summary :: "string \<Rightarrow> nat \<Rightarrow> pyval list \<Rightarrow> pydict" where
  "group_summary group_id tot details =
     [(''group_id'', PStr group_id), (''total'', PInt (int tot)), (''success'', PInt 0), (''failed'', PInt 0),
      (''skipped'', PInt 0), (''details'', PList details)]"

definition target_queue :: "(string \<Rightarrow> string option) \<Rightarrow> device_group \<Rightarrow> device \<Rightarrow> string" where
  "target_queue env g d =
     (if uses_vpn_tunnel env (Some g) (Some d) then ''vpn_queue''
      else if uses_jump_host env (Some g) (Some d) then ''jump_queue'' else ''celery'')"

fun queue_devices ::
  "(message \<Rightarrow> ('s, string) io) \<Rightarrow> (string \<Rightarrow> string option) \<Rightarrow> device_group \<Rightarrow> device list \<Rightarrow> pyval list \<Rightarrow> ('s, pyval list) io" where
  "queue_devices send env g [] details = io_ret details"
| "queue_devices send env g (d # ds) details =
     io_bind (send (to_queue (target_queue env g d) (RunDevice (d_id d) None))) (\<lambda>tid.
       queue_devices send env g ds (details @ [PDict [(''device_id'', PStr (d_id d)), (''device_name'', PStr (d_name d)),
         (''task_id'', PStr tid), (''queue'', PStr (target_queue env g d))]]))"

text \<open>The queries are the lists \<open>groups\<close> and \<open>devices\<close>; \<open>parses\<close> says whether \<open>uuid.UUID(group_id)\<close> is a
  valid identifier. The exception's text in the error report is left empty.\<close>

definition run_backup_group_task ::
  "'s dispatcher \<Rightarrow> (string \<Rightarrow> bool) \<Rightarrow> device_group list \<Rightarrow> device list \<Rightarrow> string \<Rightarrow> string \<Rightarrow> ('s, pydict) io" where
  "run_backup_group_task D parses groups devices group_id tenant_id =
     (let env = m_env (di_machine D)
      in io_try
        (if \<not> parses group_id then io_raise
         else case find (\<lambda>g. g_id g = group_id \<and> g_tenant_id g = tenant_id) groups of
           None \<Rightarrow> io_ret [(''error'', PStr (''Grupo '' @ group_id @ '' n'' @ [CHR 0xE3] @ ''o encontrado para o tenant informado.''))]
         | Some g \<Rightarrow>
             if \<not> flag (g_is_active g) then
               io_ret (group_summary group_id 0 [] @ [(''message'', PStr (''Grupo '' @ g_name g @ '' inativo. Execucao ignorada.''))])
             else
               (let rows = filter (group_device group_id tenant_id) devices;
                    scheduled = filter (\<lambda>d. flag (d_backup_scheduled d)) rows
                in if uses_vpn_tunnel env (Some g) None \<and> scheduled \<noteq> []
                   then io_bind (di_send D (to_queue ''vpn_queue'' (RunGroup \<lparr>go_group = group_id, go_tenant = tenant_id,
                            go_devices = map d_id scheduled, go_bulk = None, go_force_vpn = None\<rparr>))) (\<lambda>tid.
                          io_ret (group_summary group_id (length rows) [PDict [(''group_name'', PStr (g_name g)),
                            (''task_id'', PStr tid), (''mode'', PStr ''vpn_group'')]]))
                   else io_bind (queue_devices (di_send D) env g scheduled []) (\<lambda>details.
                          io_ret (group_summary group_id (length rows) details))))
        (io_seq (tell_m (di_machine D) (LogLine (''Erro no backup do grupo '' @ group_id)))
           (io_ret [(''error'', PStr [])])))"

end
