(* ===== verification/DispatchSafety.thy ===== *)
theory DispatchSafety
  imports Dispatch Footprint BackupTask
begin

text \<open>
  What a pass over the schedules puts on the queues: every device of a tenant that is due, once, on the queue of
  its route; and nothing more for this tenant before its next run.
\<close>

section \<open>Sending\<close>

lemma send_all_append: "send_all send (xs @ ys) = io_seq (send_all send xs) (send_all send ys)"
  by (induction xs) (simp_all add: send_all_def io_seq_def io_bind_def io_ret_def fun_eq_iff split: option.split prod.split)

lemma seq_assoc: "io_seq (io_seq a b) c = io_seq a (io_seq b c)" "io_bind (io_seq a m) f = io_seq a (io_bind m f)"
  "io_bind (io_ret x) f = f x" "io_seq (io_ret x) c = c"
  by (simp_all add: io_seq_def io_bind_def io_ret_def fun_eq_iff split: option.split prod.split)

definition batch_messages :: "(string \<Rightarrow> string option) \<Rightarrow> backup_db \<Rightarrow> string list \<Rightarrow> message list" where
  "batch_messages env db ts = concat (map (\<lambda>t. tenant_messages env t (eligible_devices db t)) ts)"

lemma dispatch_sends:
  "dispatch_tenants D db now ts rows c =
     io_seq (send_all (di_send D) (batch_messages (m_env (di_machine D)) db ts))
       (io_ret (fold (advance_rows (di_tz D) now) ts rows,
          fold (\<lambda>t. count_batch (m_env (di_machine D)) t (eligible_devices db t)) ts c))"
  by (induction ts arbitrary: rows c)
    (simp_all add: batch_messages_def send_all_append seq_assoc Let_def, simp add: send_all_def seq_assoc)

section \<open>The rows of a pass\<close>

lemma query_schedules_iff:
  "(s, d) \<in> set (query_schedules db) \<longleftrightarrow> s \<in> set (bd_schedules db) \<and> flag (s_is_active s) \<and> scheduled_device db s = Some d"
  by (force simp: query_schedules_def map_filter_def)

lemma scheduled_deviceD: "scheduled_device db s = Some d \<Longrightarrow> d \<in> set (bd_devices db) \<and> d_id d = s_device_id s \<and> active_device d"
  by (auto simp: scheduled_device_def find_Some_iff)

lemma query_scheduledD: "(s, d) \<in> set (query_schedules db) \<Longrightarrow> scheduled_device db s = Some d"
  by (simp add: query_schedules_iff)

lemma scheduled_device_cong: "bd_devices db = bd_devices db' \<Longrightarrow> s_device_id s = s_device_id s' \<Longrightarrow>
  scheduled_device db s = scheduled_device db' s'"
  by (simp add: scheduled_device_def)

text \<open>A row before and after: the same schedule of the same device.\<close>

definition same_row :: "row \<Rightarrow> row \<Rightarrow> bool" where
  "same_row = (\<lambda>(s, d) (s', d'). d = d' \<and> s_id s = s_id s' \<and> s_device_id s = s_device_id s' \<and> s_is_active s = s_is_active s')"

lemma same_row_refl [simp]: "same_row r r" and same_row_trans: "same_row a b \<Longrightarrow> same_row b c \<Longrightarrow> same_row a c"
  by (auto simp: same_row_def split: prod.splits)

lemma advance_same: "list_all2 same_row rows (fold (advance_rows tz now) ts rows)"
proof (induction ts arbitrary: rows)
  case (Cons t ts)
  have "list_all2 same_row rows (advance_rows tz now t rows)"
    by (auto simp: advance_rows_def Let_def list_all2_map2 list_all2_same same_row_def as_daily_def split: if_splits)
  from list_all2_trans [OF same_row_trans this Cons.IH] show ?case by simp
qed (simp add: list_all2_same)

definition row_due :: "naive \<Rightarrow> row \<Rightarrow> bool" where
  "row_due now r \<longleftrightarrow> (case s_next_run_at (fst r) of None \<Rightarrow> False | Some n \<Rightarrow> n \<le> now)"

lemma normalise_spec:
  "normalise_rows tz now before rest = (rows, i, due) \<Longrightarrow>
     (\<exists>rest'. rows = before @ rest' \<and> list_all2 same_row rest rest') \<and> set due = {d_tenant_id (snd r) | r. r \<in> set rest \<and> row_due now r}"
proof (induction rest arbitrary: before rows i due)
  case (Cons r rest)
  obtain s d where r: "r = (s, d)" by fastforce
  define s1 where "s1 = as_daily (row_time (before @ (s, d) # rest) (s, d)) s"
  define s2 where "s2 = (case s_next_run_at s of Some n \<Rightarrow> s1 | None \<Rightarrow>
    s1\<lparr>s_next_run_at := compute_next_daily_run_at tz now (Some (if row_time (before @ (s, d) # rest) (s, d) = [] then ''02:00''
       else row_time (before @ (s, d) # rest) (s, d))) (Some now)\<rparr>)"
  have same: "same_row r (s2, d)"
    by (auto simp: r s2_def s1_def same_row_def as_daily_def split: option.split)
  obtain rows' i' due' where go: "normalise_rows tz now (before @ [(s2, d)]) rest = (rows', i', due')" by (metis prod_cases3)
  have "rows = rows' \<and> due = (if row_due now r then d_tenant_id d # due' else due')"
    using Cons.prems go by (cases "s_next_run_at s") (simp_all add: r s1_def s2_def row_due_def Let_def)
  with Cons.IH [OF go] same show ?case by (auto simp: r intro!: exI [of _ "(s2, d) # _"])
qed auto

section \<open>The messages of a batch\<close>

fun asked_for :: "order \<Rightarrow> string set" where
  "asked_for (RunDevice d b) = {d}"
| "asked_for (RunGroup g) = set (go_devices g)"
| "asked_for (AuditDevice d b) = {}"

definition names :: "string \<Rightarrow> message \<Rightarrow> bool" where
  "names x m \<longleftrightarrow> x \<in> asked_for (mg_order m)"

lemma names_simps [simp]: "names x (to_queue q (RunDevice y b)) \<longleftrightarrow> y = x" "names x (to_queue q (RunGroup g)) \<longleftrightarrow> x \<in> set (go_devices g)"
  by (auto simp: names_def to_queue_def)

definition group_message :: "string \<Rightarrow> device list \<Rightarrow> string \<Rightarrow> message" where
  "group_message t vs g = to_queue ''vpn_queue'' (RunGroup \<lparr>go_group = g, go_tenant = t,
     go_devices = sort (remdups (map d_id (filter (\<lambda>d. group_key d = g) vs))), go_bulk = None, go_force_vpn = None\<rparr>)"

text \<open>The message that carries one device.\<close>

definition device_message :: "(string \<Rightarrow> string option) \<Rightarrow> string \<Rightarrow> device list \<Rightarrow> device \<Rightarrow> message" where
  "device_message env t ds d =
     (case due_route env d of
        Direct \<Rightarrow> to_queue ''celery'' (RunDevice (d_id d) None)
      | ByJump \<Rightarrow> to_queue ''jump_queue'' (RunDevice (d_id d) None)
      | ByVpn \<Rightarrow> group_message t (on_route env ByVpn ds) (group_key d))"

lemma find_hit: "find P xs = Some x \<Longrightarrow> x \<in> set xs \<and> P x"
  by (induction xs) (auto split: if_splits)

lemma by_id: "distinct (map d_id ds) \<Longrightarrow> d \<in> set ds \<Longrightarrow> e \<in> set ds \<Longrightarrow> d_id e = d_id d \<longleftrightarrow> e = d"
  by (auto simp: distinct_map inj_on_def)

lemma filter_map_one:
  assumes "distinct xs" "\<And>y. y \<in> set xs \<Longrightarrow> P (f y) \<longleftrightarrow> y = x"
  shows "filter P (map f xs) = (if x \<in> set xs then [f x] else [])"
  using assms by (induction xs) (auto simp: filter_empty_conv)

lemma tenant_messages_exact:
  assumes ids: "distinct (map d_id ds)"
  shows "filter (names x) (tenant_messages env t ds) =
    (case find (\<lambda>d. d_id d = x) ds of None \<Rightarrow> [] | Some d \<Rightarrow> [device_message env t ds d])"
proof -
  have one: "filter (names x) (map (\<lambda>d. to_queue q (RunDevice (d_id d) None)) (on_route env r ds)) =
      (case find (\<lambda>d. d_id d = x) ds of Some d \<Rightarrow> if due_route env d = r then [to_queue q (RunDevice x None)] else [] | None \<Rightarrow> [])" for q r
    using ids
  proof (induction ds)
    case (Cons a ds)
    have "find (\<lambda>d. d_id d = x) ds = None" if "d_id a = x" using Cons.prems that by (auto simp: find_None_iff image_iff)
    with Cons show ?case by (cases "d_id a = x") (simp_all add: on_route_def)
  qed (simp add: on_route_def)
  let ?vs = "on_route env ByVpn ds"
  have vpn: "filter (names x) (map (to_queue ''vpn_queue'') (vpn_orders t ?vs)) =
      (case find (\<lambda>d. d_id d = x) ds of Some d \<Rightarrow> if due_route env d = ByVpn then [group_message t ?vs (group_key d)] else [] | None \<Rightarrow> [])"
  proof -
    have orders: "map (to_queue ''vpn_queue'') (vpn_orders t ?vs) = map (group_message t ?vs) (from_keys (map group_key ?vs))"
      by (simp add: vpn_orders_def group_message_def)
    have in_group: "names x (group_message t ?vs g) \<longleftrightarrow> (\<exists>d \<in> set ?vs. d_id d = x \<and> group_key d = g)" for g
      by (auto simp: group_message_def)
    show ?thesis
    proof (cases "find (\<lambda>d. d_id d = x) ?vs")
      case None
      then have "filter (names x) (map (group_message t ?vs) (from_keys (map group_key ?vs))) = []"
        by (auto simp: filter_empty_conv in_group find_None_iff simp del: filter_map)
      moreover have "find (\<lambda>d. d_id d = x) ds = Some d \<Longrightarrow> due_route env d \<noteq> ByVpn" for d
        using None by (auto simp: find_None_iff find_Some_iff on_route_def)
      ultimately show ?thesis unfolding orders by (auto split: option.split)
    next
      case (Some d)
      then have d: "d \<in> set ?vs" "d_id d = x" by (auto simp: find_Some_iff)
      then have d': "d \<in> set ds" "due_route env d = ByVpn" by (auto simp: on_route_def)
      have at: "find (\<lambda>d. d_id d = x) ds = Some d"
      proof (cases "find (\<lambda>d. d_id d = x) ds")
        case None
        with d d' show ?thesis by (auto simp: find_None_iff)
      next
        case (Some e)
        then have "e \<in> set ds" "d_id e = d_id d" using d by (auto simp: find_Some_iff)
        with Some show ?thesis using by_id [OF ids d'(1)] by auto
      qed
      have key: "names x (group_message t ?vs g) \<longleftrightarrow> g = group_key d" for g
      proof -
        have "e = d" if "e \<in> set ?vs" "d_id e = x" for e
          using by_id [OF ids d'(1), of e] that d(2) by (simp add: on_route_def)
        then show ?thesis unfolding in_group using d by metis
      qed
      have "group_key d \<in> set (from_keys (map group_key ?vs))" using d(1) by simp
      with filter_map_one [OF distinct_from_keys, of "map group_key ?vs" "names x" "group_message t ?vs" "group_key d"] key
      have "filter (names x) (map (group_message t ?vs) (from_keys (map group_key ?vs))) = [group_message t ?vs (group_key d)]"
        by metis
      with at d' show ?thesis unfolding orders by simp
    qed
  qed
  show ?thesis
  proof (cases "find (\<lambda>d. d_id d = x) ds")
    case None
    then show ?thesis by (simp add: tenant_messages_def one vpn)
  next
    case (Some d)
    then have "d_id d = x" by (auto dest: find_hit)
    with Some show ?thesis
      by (cases "due_route env d") (simp_all add: tenant_messages_def one vpn device_message_def)
  qed
qed

lemma names_eligible:
  assumes "distinct (map d_id (bd_devices db))"
  shows "distinct (map d_id (eligible_devices db t))"
  using assms by (simp add: eligible_devices_def tenant_devices_def distinct_map_filter)

lemma batch_messages_exact:
  assumes ids: "distinct (map d_id (bd_devices db))" and ts: "distinct ts" and d: "d \<in> set (bd_devices db)"
  shows "filter (names (d_id d)) (batch_messages env db ts) =
    (if active_device d \<and> \<not> left_out db d \<and> d_tenant_id d \<in> set ts
     then [device_message env (d_tenant_id d) (eligible_devices db (d_tenant_id d)) d] else [])"
proof -
  have find: "find (\<lambda>e. d_id e = d_id d) (eligible_devices db t) =
      (if active_device d \<and> \<not> left_out db d \<and> d_tenant_id d = t then Some d else None)" for t
  proof -
    have "e = d" if "e \<in> set (eligible_devices db t)" "d_id e = d_id d" for e
      using by_id [OF ids d, of e] that by (auto simp: eligible_devices_def tenant_devices_def)
    moreover have "d \<in> set (eligible_devices db t) \<longleftrightarrow> active_device d \<and> \<not> left_out db d \<and> d_tenant_id d = t"
      using d by (auto simp: eligible_devices_def tenant_devices_def)
    ultimately show ?thesis
      by (cases "find (\<lambda>e. d_id e = d_id d) (eligible_devices db t)") (auto simp: find_None_iff dest: find_hit)
  qed
  from ts show ?thesis
    by (induction ts) (auto simp: batch_messages_def tenant_messages_exact [OF names_eligible [OF ids]] find)
qed

section \<open>Properties\<close>

text \<open>A world in which neither the stop switch nor a running batch holds the pass back; \<open>s2\<close> is the world after
  the two checks.\<close>

definition goes_ahead :: "'s machine \<Rightarrow> 's \<Rightarrow> 's \<Rightarrow> bool" where
  "goes_ahead M s s2 \<longleftrightarrow> (\<exists>s1. is_global_backup_stop_enabled M s = (Some False, s1) \<and> has_active_bulk_operation M s1 = (Some False, s2))"

definition tenant_due :: "backup_db \<Rightarrow> naive \<Rightarrow> string \<Rightarrow> bool" where
  "tenant_due db now t \<longleftrightarrow> (\<exists>r \<in> set (query_schedules db). d_tenant_id (snd r) = t \<and> row_due now r)"

definition constant_offset :: "timezone \<Rightarrow> int \<Rightarrow> bool" where
  "constant_offset tz off \<longleftrightarrow> (\<forall>u. to_local tz u = (u + off, False)) \<and> (\<forall>w f. to_utc tz (w, f) = w - off)"

lemma next_run_after:
  assumes "constant_offset tz off"
  shows "\<exists>r. compute_next_daily_run_at tz now ts (Some ref) = Some r \<and> ref < r \<and> r \<le> ref + DAY_US"
proof -
  have a: "to_local tz u = (u + off, False)" and b: "to_utc tz (w, f) = w - off" for u w f
    using assms by (simp_all add: constant_offset_def)
  have "\<exists>hh mm r. hh_mm (sanitize_daily_time ts ''02:00'') = Some (hh, mm) \<and>
     compute_next_daily_run_at tz now ts (Some ref) = Some r \<and>
     ref < r \<and> r \<le> ref + DAY_US \<and> tod_of (r + off) = hm_tod hh mm \<and>
     (\<forall>r'. ref < r' \<and> tod_of (r' + off) = hm_tod hh mm \<longrightarrow> r \<le> r')"
    by (rule daily_run_within_a_day [OF a b])
  then show ?thesis by blast
qed

lemma new_schedules_fresh: "s \<in> set (new_schedules tz fresh now rows n ds) \<Longrightarrow>
  \<exists>time. s_next_run_at s = compute_next_daily_run_at tz now (Some time) (Some now)"
  by (induction ds arbitrary: n) (auto simp: Let_def split: if_splits)

lemma new_rows_not_due:
  assumes "constant_offset tz off"
  shows "tenant_due (with_new_schedules tz fresh now db) now t \<longleftrightarrow> tenant_due db now t"
proof -
  let ?db = "with_new_schedules tz fresh now db"
  have dev: "scheduled_device ?db s = scheduled_device db s" for s
    by (rule scheduled_device_cong) (simp_all add: with_new_schedules_def)
  have old: "r \<in> set (query_schedules db)" if "r \<in> set (query_schedules ?db)" "row_due now r" for r
  proof -
    obtain s d where r: "r = (s, d)" by fastforce
    have "\<not> row_due now r" if "s \<in> set (new_schedules tz fresh now (query_schedules db) 0 (filter active_device (bd_devices db)))"
    proof -
      from new_schedules_fresh [OF that] obtain time
        where "s_next_run_at s = compute_next_daily_run_at tz now (Some time) (Some now)" ..
      with next_run_after [OF assms, of now "Some time" now] show ?thesis by (auto simp: r row_due_def)
    qed
    moreover have "bd_schedules ?db = bd_schedules db @ new_schedules tz fresh now (query_schedules db) 0 (filter active_device (bd_devices db))"
      by (simp add: with_new_schedules_def)
    ultimately show ?thesis using that unfolding r query_schedules_iff dev by auto
  qed
  have "set (query_schedules db) \<subseteq> set (query_schedules ?db)"
    by (auto simp: query_schedules_iff dev) (simp add: with_new_schedules_def)
  with old show ?thesis by (auto simp: tenant_due_def)
qed

text \<open>The pass in one equation: it sends the messages of the due tenants and then commits.\<close>

lemma pass_run:
  assumes "goes_ahead (di_machine D) s s2" "constant_offset (di_tz D) off"
  defines "now \<equiv> m_now (di_machine D) s2"
  shows "\<exists>ts res rows. distinct ts \<and> set ts = {t. tenant_due db now t} \<and>
    list_all2 same_row (query_schedules (with_new_schedules (di_tz D) (di_fresh D) now db)) rows \<and>
    run_scheduled_backups D db s =
      io_seq (send_all (di_send D) (batch_messages (m_env (di_machine D)) (with_new_schedules (di_tz D) (di_fresh D) now db) ts))
        (io_ret (res, (with_new_schedules (di_tz D) (di_fresh D) now db)\<lparr>bd_schedules :=
           store_rows (fold (advance_rows (di_tz D) now) ts rows)
             (bd_schedules (with_new_schedules (di_tz D) (di_fresh D) now db))\<rparr>)) s2"
proof -
  let ?db = "with_new_schedules (di_tz D) (di_fresh D) now db"
  from assms(1) obtain s1 where calm: "is_global_backup_stop_enabled (di_machine D) s = (Some False, s1)"
      "has_active_bulk_operation (di_machine D) s1 = (Some False, s2)"
    by (auto simp: goes_ahead_def)
  obtain rows i due where n: "normalise_rows (di_tz D) now [] (query_schedules ?db) = (rows, i, due)" by (metis prod_cases3)
  from normalise_spec [OF n] have rows: "list_all2 same_row (query_schedules ?db) rows" by simp
  have due: "set due = {t. tenant_due ?db now t}"
    unfolding conjunct2 [OF normalise_spec [OF n]] tenant_due_def by blast
  let ?ts = "sort (remdups due)"
  have ts: "distinct ?ts" "set ?ts = {t. tenant_due db now t}"
    using due by (simp_all add: new_rows_not_due [OF assms(2)])
  have "\<exists>res. run_scheduled_backups D db s =
      io_seq (send_all (di_send D) (batch_messages (m_env (di_machine D)) ?db ?ts))
        (io_ret (res, ?db\<lparr>bd_schedules := store_rows (fold (advance_rows (di_tz D) now) ?ts rows) (bd_schedules ?db)\<rparr>)) s2"
    by (simp add: run_scheduled_backups_def io_bind_def [of "is_global_backup_stop_enabled _"] calm
        io_bind_def [of "has_active_bulk_operation _"] io_bind_def [of "io_read _"] io_read_def n dispatch_sends seq_assoc Let_def
        flip: now_def) blast
  with ts rows show ?thesis by blast
qed

lemma list_all2_partner:
  assumes "list_all2 P xs ys"
  shows "x \<in> set xs \<Longrightarrow> \<exists>y \<in> set ys. P x y" "y \<in> set ys \<Longrightarrow> \<exists>x \<in> set xs. P x y"
  using assms by (induction rule: list_all2_induct) auto

text \<open>What the commit leaves: the rows of the session are the rows of the table.\<close>

lemma stored_rows:
  assumes "list_all2 same_row (query_schedules db) rows" "(s, d) \<in> set (query_schedules (db\<lparr>bd_schedules := store_rows rows (bd_schedules db)\<rparr>))"
  shows "(s, d) \<in> set rows"
proof -
  let ?db = "db\<lparr>bd_schedules := store_rows rows (bd_schedules db)\<rparr>"
  have dev: "scheduled_device ?db x = scheduled_device db x" for x by (rule scheduled_device_cong) simp_all
  from assms(2) have s: "s \<in> set (store_rows rows (bd_schedules db))" "flag (s_is_active s)" "scheduled_device db s = Some d"
    by (simp_all add: query_schedules_iff dev)
  from s(1) obtain s0 where s0: "s0 \<in> set (bd_schedules db)"
    "s = (case find (\<lambda>(r, _). s_id r = s_id s0) rows of None \<Rightarrow> s0 | Some (r, _) \<Rightarrow> r)"
    by (auto simp: store_rows_def)
  show ?thesis
  proof (cases "find (\<lambda>(r, _). s_id r = s_id s0) rows")
    case None
    with s0 s have "(s, d) \<in> set (query_schedules db)" by (simp add: query_schedules_iff)
    with list_all2_partner(1) [OF assms(1)] obtain r where "r \<in> set rows" "same_row (s, d) r" by blast
    moreover have "s = s0" using None s0 by simp
    ultimately show ?thesis using None by (force simp: find_None_iff same_row_def)
  next
    case (Some p)
    then have p: "p \<in> set rows" "fst p = s" using s0 by (auto split: prod.splits dest: find_hit)
    with list_all2_partner(2) [OF assms(1)] obtain q where q: "q \<in> set (query_schedules db)" "same_row q p" by blast
    have "scheduled_device db (fst q) = Some (snd q)" using q(1) query_scheduledD by simp
    then have "scheduled_device db s = Some (snd p)"
      using scheduled_device_cong [of db db s "fst q"] p q(2) by (simp add: same_row_def split: prod.splits)
    with s p show ?thesis by (cases p) simp
  qed
qed

lemma same_devices: "bd_devices (with_new_schedules tz fresh now db) = bd_devices db" "bd_types (with_new_schedules tz fresh now db) = bd_types db"
  by (simp_all add: with_new_schedules_def)

lemma eligible_cong: "bd_devices db = bd_devices db' \<Longrightarrow> bd_types db = bd_types db' \<Longrightarrow>
  eligible_devices db = eligible_devices db' \<and> left_out db = left_out db'"
proof -
  assume same: "bd_devices db = bd_devices db'" "bd_types db = bd_types db'"
  then have "left_out db = left_out db'" by (intro ext) (simp add: left_out_def cong: option.case_cong)
  with same show ?thesis by (simp add: eligible_devices_def tenant_devices_def fun_eq_iff)
qed

lemma batch_asks: "m \<in> set (batch_messages env db ts) \<Longrightarrow> asked_for (mg_order m) \<subseteq> d_id ` set (bd_devices db)"
  by (auto simp: batch_messages_def tenant_messages_def on_route_def vpn_orders_def to_queue_def eligible_devices_def tenant_devices_def)


definition sample_dispatcher :: "hworld dispatcher" where
  "sample_dispatcher = \<lparr>di_machine = sample_machine (\<lambda>_. None), di_send = \<lambda>m. io_ret ''id'', di_tz = recife, di_fresh = \<lambda>n. ''new''\<rparr>"

definition due_db :: backup_db where
  "due_db = \<lparr>bd_devices = [blank_device\<lparr>d_backup_scheduled := Some True\<rparr>], bd_schedules = [\<lparr>s_id = ''s'', s_device_id = ''d'',
     s_frequency = WEEKLY, s_time = ''03:00'', s_day_of_week = Some 2, s_day_of_month = None, s_is_active = Some True,
     s_last_run_at = None, s_next_run_at = Some (- 1)\<rparr>], bd_types = []\<rparr>"

lemma sample_goes_ahead: "goes_ahead (di_machine sample_dispatcher) empty_hworld empty_hworld"
  by (simp add: goes_ahead_def sample_dispatcher_def sample_machine_def is_global_backup_stop_enabled_def has_active_bulk_operation_def
      host_redis_def beside_def pair_redis_def lift_cmd_def empty_hworld_def io_try_def io_bind_def io_ret_def io_read_def st_get_def st_scan_def
      st_find_def)

lemma sample_offset: "constant_offset (di_tz sample_dispatcher) (- 10800000000)"
  by (simp add: constant_offset_def recife_def sample_dispatcher_def)

lemma due_db_facts:
  "distinct (map d_id (bd_devices due_db))" "tenant_due due_db 0 ''t''" "bd_devices due_db = [blank_device\<lparr>d_backup_scheduled := Some True\<rparr>]"
  "active_device (blank_device\<lparr>d_backup_scheduled := Some True\<rparr>)" "\<not> left_out due_db (blank_device\<lparr>d_backup_scheduled := Some True\<rparr>)"
  by (simp_all add: due_db_def tenant_due_def query_schedules_def map_filter_def scheduled_device_def active_device_def blank_device_def
      row_due_def left_out_def)

lemma sample_now: "m_now (di_machine sample_dispatcher) empty_hworld = 0"
  by (simp add: sample_dispatcher_def sample_machine_def empty_hworld_def host_view_def)


definition in_step :: "timezone \<Rightarrow> naive \<Rightarrow> string \<Rightarrow> row list \<Rightarrow> bool" where
  "in_step tz now t rows \<longleftrightarrow> (\<exists>time. \<forall>r \<in> set rows. d_tenant_id (snd r) = t \<longrightarrow>
     s_time (fst r) = time \<and> s_next_run_at (fst r) = compute_next_daily_run_at tz now (Some time) (Some (now + US)))"

lemma advance_row:
  assumes "r \<in> set (advance_rows tz now u rows)"
  shows "d_tenant_id (snd r) \<noteq> u \<Longrightarrow> r \<in> set rows"
    "d_tenant_id (snd r) = u \<Longrightarrow> s_time (fst r) = tenant_daily_time rows u \<and>
       s_next_run_at (fst r) = compute_next_daily_run_at tz now (Some (tenant_daily_time rows u)) (Some (now + US))"
proof -
  from assms obtain s d where "(s, d) \<in> set rows" "r = (if d_tenant_id d = u then ((as_daily (tenant_daily_time rows u) s)
      \<lparr>s_last_run_at := Some now, s_next_run_at := compute_next_daily_run_at tz now (Some (tenant_daily_time rows u)) (Some (now + US))\<rparr>, d)
      else (s, d))"
    by (auto simp: advance_rows_def Let_def)
  then show "d_tenant_id (snd r) \<noteq> u \<Longrightarrow> r \<in> set rows"
    "d_tenant_id (snd r) = u \<Longrightarrow> s_time (fst r) = tenant_daily_time rows u \<and>
       s_next_run_at (fst r) = compute_next_daily_run_at tz now (Some (tenant_daily_time rows u)) (Some (now + US))"
    by (simp_all add: as_daily_def split: if_splits)
qed

lemma advance_in_step: "t \<in> set ts \<Longrightarrow> in_step tz now t (fold (advance_rows tz now) ts rows)"
proof (induction ts rule: rev_induct)
  case (snoc u ts)
  show ?case
  proof (cases "t = u")
    case True
    show ?thesis
      unfolding in_step_def True fold_append comp_apply fold_simps using advance_row(2) by blast
  next
    case False
    with snoc obtain time where "\<forall>r \<in> set (fold (advance_rows tz now) ts rows). d_tenant_id (snd r) = t \<longrightarrow>
        s_time (fst r) = time \<and> s_next_run_at (fst r) = compute_next_daily_run_at tz now (Some time) (Some (now + US))"
      by (auto simp: in_step_def)
    with False advance_row(1) show ?thesis unfolding in_step_def fold_append comp_apply fold_simps by metis
  qed
qed simp



end
