(* ===== verification/Phases.thy ===== *)
theory Phases
  imports Dispatch
begin

text \<open>
  The phases of a mass backup (\<open>src/app/tasks/backups.py\<close>). The devices reached directly go first; when they are
  done Celery calls \<open>enqueue_jump_and_vpn_after_direct_phase_task\<close>, which queues the groups behind a jump host
  and leaves the VPN groups to \<open>enqueue_vpn_groups_after_direct_phase_task\<close>, the callback of that phase.

  The payload is a list of items as the page that starts the batch writes them (an absent key is
  \<^const>\<open>None\<close>, and so is a null item). The broker is \<open>send\<close> and \<open>chord\<close>: the second takes the messages of a phase and the
  arguments of the task to run when all of them are done. The identifiers drawn by \<open>uuid4\<close> are the function \<open>fresh\<close>.
\<close>

section \<open>Calls\<close>

record phase_item =
  pi_group_id :: "string option"
  pi_group_name :: "string option"
  pi_device_ids :: "string list option"
  pi_force_vpn :: "bool option"

record vpn_phase =
  vp_tenant :: string
  vp_groups :: "phase_item option list"
  vp_bulk :: "string option"

record 's phase_env =
  ph_machine :: "'s machine"
  ph_send :: "message \<Rightarrow> ('s, string) io"
  ph_chord :: "message list \<Rightarrow> vpn_phase \<Rightarrow> ('s, unit) io"
  ph_fresh :: "nat \<Rightarrow> string"

definition item_group :: "phase_item option \<Rightarrow> string" where
  "item_group item = py_strip (or_empty (Option.bind item pi_group_id))"

definition item_name :: "phase_item option \<Rightarrow> string" where
  "item_name item =
     (let name = or_empty (Option.bind item pi_group_name)
      in py_strip (if name \<noteq> [] then name else if item_group item \<noteq> [] then item_group item else ''Grupo Jump Host''))"

definition item_devices :: "phase_item option \<Rightarrow> string list" where
  "item_devices item = sort (remdups (case Option.bind item pi_device_ids of None \<Rightarrow> [] | Some ds \<Rightarrow> ds))"

definition item_force :: "phase_item option \<Rightarrow> bool" where
  "item_force item = flag (Option.bind item pi_force_vpn)"

definition usable_item :: "phase_item option \<Rightarrow> bool" where
  "usable_item item \<longleftrightarrow> item_group item \<noteq> [] \<and> item_devices item \<noteq> []"

definition bulk_arg :: "string option \<Rightarrow> string option" where
  "bulk_arg bulk = (if or_empty bulk \<noteq> [] then bulk else None)"

section \<open>The record of the batch\<close>

text \<open>\<open>[str(tid) for tid in (value or []) if tid]\<close>; iterating over a number raises.\<close>

definition child_ids :: "pyval \<Rightarrow> string list option" where
  "child_ids v =
     (if \<not> truthy v then Some []
      else case v of
        PList xs \<Rightarrow> Some (map py_str (filter truthy xs))
      | PDict d \<Rightarrow> Some (filter (\<lambda>k. k \<noteq> []) (map fst d))
      | PStr s \<Rightarrow> Some (map (\<lambda>c. [c]) s)
      | _ \<Rightarrow> None)"

text \<open>\<open>int(value or 0)\<close>.\<close>

definition int_or_zero :: "pyval \<Rightarrow> int option" where
  "int_or_zero v = (if truthy v then val_int v else Some 0)"

definition device_counts :: "pyval \<Rightarrow> (string \<times> nat) list \<Rightarrow> pydict" where
  "device_counts v new =
     (let child_count = (case v of PDict d \<Rightarrow> d | _ \<Rightarrow> [])
      in foldl (\<lambda>d (k, n). dput d k (PInt (int n))) child_count new)"

definition with_children :: "pydict \<Rightarrow> (string \<times> nat) list \<Rightarrow> nat \<Rightarrow> string \<Rightarrow> pydict option" where
  "with_children current new pending message =
     (case (child_ids (dget current ''child_task_ids''), int_or_zero (dget current ''total_tasks'')) of
        (Some old, Some tot) \<Rightarrow>
          (let merged = from_keys (old @ map fst new);
               min_expected = int (length merged) + int pending
           in Some [(''child_task_ids'', PList (map PStr merged)),
                (''child_task_device_count'', PDict (device_counts (dget current ''child_task_device_count'') new)),
                (''total_tasks'', PInt (if tot < min_expected then min_expected else tot)),
                (''status'', PStr ''running''), (''message'', PStr message)])
      | _ \<Rightarrow> None)"

definition record_children :: "'s machine \<Rightarrow> string option \<Rightarrow> (string \<times> nat) list \<Rightarrow> nat \<Rightarrow> string \<Rightarrow> string \<Rightarrow> ('s, unit) io" where
  "record_children M bulk new pending message line =
     (if or_empty bulk = [] then io_ret ()
      else io_bind (get_task_meta (m_client M) (m_emit M) (or_empty bulk)) (\<lambda>current.
        case with_children current new pending message of
          None \<Rightarrow> io_raise
        | Some upd \<Rightarrow>
            io_bind (task_meta M (or_empty bulk) upd) (\<lambda>_. task_log M bulk ''Backup em massa'' line ''info'')))"

definition register_group :: "'s machine \<Rightarrow> string \<Rightarrow> string option \<Rightarrow> string \<Rightarrow> string \<Rightarrow> string \<Rightarrow> ('s, unit) io" where
  "register_group M tenant bulk task_id name group_id =
     (if or_empty bulk = [] then io_ret ()
      else io_bind (io_read (m_now M)) (\<lambda>now.
        register_task (m_log M) (m_client M) (m_emit M) now task_id tenant None (Some name) (Some group_id)))"

definition stop_phase :: "'s machine \<Rightarrow> string option \<Rightarrow> string \<Rightarrow> string \<Rightarrow> ('s, unit) io" where
  "stop_phase M bulk line message =
     (if or_empty bulk = [] then io_ret ()
      else io_seq (task_log M bulk ''Backup em massa'' line ''warning'')
        (io_bind (task_meta M (or_empty bulk) [(''status'', PStr ''stopping''), (''message'', PStr message)]) (\<lambda>_. io_ret ())))"

section \<open>The VPN phase\<close>

definition vpn_message :: "string \<Rightarrow> string option \<Rightarrow> phase_item option \<Rightarrow> message" where
  "vpn_message tenant bulk item = to_queue ''vpn_queue'' (RunGroup \<lparr>go_group = item_group item, go_tenant = tenant,
     go_devices = item_devices item, go_bulk = bulk_arg bulk, go_force_vpn = Some (item_force item)\<rparr>)"

fun queue_vpn_items ::
  "'s phase_env \<Rightarrow> string \<Rightarrow> string option \<Rightarrow> phase_item option list \<Rightarrow> (string \<times> nat) list \<Rightarrow> ('s, (string \<times> nat) list) io" where
  "queue_vpn_items P tenant bulk [] new = io_ret new"
| "queue_vpn_items P tenant bulk (item # items) new =
     (if \<not> usable_item item then queue_vpn_items P tenant bulk items new
      else io_bind (ph_send P (vpn_message tenant bulk item)) (\<lambda>tid.
           io_seq (register_group (ph_machine P) tenant bulk tid (''Grupo VPN '' @ item_group item) (item_group item))
             (queue_vpn_items P tenant bulk items (new @ [(tid, length (item_devices item))]))))"

definition vpn_result :: "(string \<times> nat) list \<Rightarrow> pydict" where
  "vpn_result new = [(''queued_vpn_groups'', PInt (int (length new))), (''task_ids'', PList (map (PStr \<circ> fst) new))]"

definition enqueue_vpn_groups_after_direct_phase_task ::
  "'s phase_env \<Rightarrow> string option \<Rightarrow> vpn_phase \<Rightarrow> ('s, pydict) io" where
  "enqueue_vpn_groups_after_direct_phase_task P task_id c =
     (let M = ph_machine P; bulk = vp_bulk c
      in if vp_groups c = [] then
           io_seq (if or_empty bulk \<noteq> [] then task_log M bulk ''Backup em massa'' ''Fase direta concluida. Nenhum grupo VPN pendente.'' ''info''
                   else io_ret ())
             (io_ret (vpn_result []))
         else io_bind (should_stop_now M bulk) (\<lambda>stop.
           if stop then
             io_seq (stop_phase M bulk ''Parada solicitada. Grupos VPN nao foram enfileirados apos a fase direta.''
                 ''Parada solicitada. Fase VPN nao sera iniciada.'')
               (io_ret (vpn_result [] @ [(''stopped'', PBool True)]))
           else io_bind (queue_vpn_items P (vp_tenant c) bulk (vp_groups c) []) (\<lambda>new.
             let queued = show_int (int (length new))
             in io_seq (record_children M bulk new 0
                   (''Fase direta concluida. '' @ queued @ '' grupo(s) VPN enfileirado(s) para a fase final.'')
                   (''Fase direta concluida. Enfileirado(s) '' @ queued @ '' grupo(s) VPN somente apos finalizar os dispositivos sem VPN.''))
               (io_seq (task_log M task_id ''Sistema'' (''Callback da fase direta finalizado. Grupos VPN enfileirados: '' @ queued @ ''.'') ''info'')
                 (io_ret (vpn_result new))))))"

section \<open>The jump-host phase\<close>

definition jump_message :: "task_config \<Rightarrow> string \<Rightarrow> string option \<Rightarrow> string \<Rightarrow> nat \<Rightarrow> phase_item option \<Rightarrow> message" where
  "jump_message cfg tenant bulk task_id before item =
     \<lparr>mg_order = RunGroup \<lparr>go_group = item_group item, go_tenant = tenant, go_devices = item_devices item, go_bulk = bulk_arg bulk,
        go_force_vpn = None\<rparr>,
      mg_queue = ''jump_queue'', mg_task_id = Some task_id, mg_countdown = max 0 (int before * phase_group_stagger cfg)\<rparr>"

text \<open>\<open>before\<close> items have been passed and \<open>n\<close> identifiers drawn. The messages are only prepared.\<close>

fun prepare_jump_items ::
  "'s phase_env \<Rightarrow> string \<Rightarrow> string option \<Rightarrow> nat \<Rightarrow> nat \<Rightarrow> phase_item option list \<Rightarrow> message list \<Rightarrow> ('s, message list) io" where
  "prepare_jump_items P tenant bulk before n [] sigs = io_ret sigs"
| "prepare_jump_items P tenant bulk before n (item # items) sigs =
     (if \<not> usable_item item then prepare_jump_items P tenant bulk (Suc before) n items sigs
      else io_seq (register_group (ph_machine P) tenant bulk (ph_fresh P n) (''Grupo Jump Host '' @ item_name item) (item_group item))
        (prepare_jump_items P tenant bulk (Suc before) (Suc n) items
           (sigs @ [jump_message (m_cfg (ph_machine P)) tenant bulk (ph_fresh P n) before item])))"

fun message_size :: "order \<Rightarrow> nat" where
  "message_size (RunDevice d b) = 1"
| "message_size (RunGroup g) = length (go_devices g)"
| "message_size (AuditDevice d b) = 1"

definition prepared :: "message list \<Rightarrow> (string \<times> nat) list" where
  "prepared sigs = map (\<lambda>m. (or_empty (mg_task_id m), message_size (mg_order m))) sigs"

definition jump_result :: "nat \<Rightarrow> nat \<Rightarrow> string list \<Rightarrow> pydict" where
  "jump_result jump vpn ids =
     [(''queued_jump_groups'', PInt (int jump)), (''queued_vpn_groups'', PInt (int vpn)), (''task_ids'', PList (map PStr ids))]"

definition launch_jump_phase :: "'s phase_env \<Rightarrow> message list \<Rightarrow> vpn_phase \<Rightarrow> ('s, unit) io" where
  "launch_jump_phase P sigs c =
     (if vp_groups c \<noteq> [] then ph_chord P sigs c
      else io_for sigs (\<lambda>m. io_bind (ph_send P m) (\<lambda>_. io_ret ())))"

text \<open>A task that runs another one in its own process gives it no task id.\<close>

definition enqueue_jump_and_vpn_after_direct_phase_task ::
  "'s phase_env \<Rightarrow> string \<Rightarrow> phase_item option list \<Rightarrow> vpn_phase \<Rightarrow> ('s, pydict) io" where
  "enqueue_jump_and_vpn_after_direct_phase_task P task_id jump_groups c =
     (let M = ph_machine P; bulk = vp_bulk c; pending = length (vp_groups c)
      in if jump_groups = [] then enqueue_vpn_groups_after_direct_phase_task P None c
         else io_bind (should_stop_now M bulk) (\<lambda>stop.
           if stop then
             io_seq (stop_phase M bulk ''Parada solicitada. Grupos Jump/VPN nao foram enfileirados apos a fase direta.''
                 ''Parada solicitada. Fases Jump/VPN nao serao iniciadas.'')
               (io_ret (jump_result 0 0 [] @ [(''stopped'', PBool True)]))
           else io_bind (prepare_jump_items P (vp_tenant c) bulk 0 0 jump_groups []) (\<lambda>sigs.
             if sigs = [] then
               (if vp_groups c \<noteq> [] then enqueue_vpn_groups_after_direct_phase_task P None c
                else io_ret (jump_result 0 0 []))
             else
               (let queued = show_int (int (length sigs)); vpn = show_int (int pending)
                in io_seq (record_children M bulk (prepared sigs) pending
                     (''Fase Jump Host iniciada com '' @ queued @ '' grupo(s). Fase VPN pendente: '' @ vpn @ '' grupo(s).'')
                     (''Fase 2 (Jump Host) enfileirada com '' @ queued @ '' grupo(s). Fase 3 (VPN): '' @ vpn @ '' grupo(s) aguardando callback.''))
                  (io_seq (launch_jump_phase P sigs c)
                  (io_seq (task_log M (Some task_id) ''Sistema'' (''Callback da fase direta finalizado. Grupos Jump enfileirados: '' @
                       queued @ ''. Grupos VPN pendentes: '' @ vpn @ ''.'') ''info'')
                    (io_ret (jump_result (length sigs) pending (map fst (prepared sigs))))))))))"

end
