(* ===== verification/PhaseSafety.thy ===== *)
theory PhaseSafety
  imports Phases BackupTask
begin

text \<open>
  The order of the phases of a mass backup. The locale \<open>phase_host\<close> is a worker whose broker keeps what it was
  given, an \<open>outbox\<close> that nothing else writes; it is interpreted on any machine with a list of events beside its
  world (\<open>aside_machine\<close>).
\<close>

section \<open>A broker that keeps what it is given\<close>

text \<open>A message; the messages of a phase with the VPN phase as callback; the same with both later phases; these alone.\<close>

datatype event = Sent message | Launched "message list" vpn_phase | Phased "message list" "phase_item list" vpn_phase
  | Started "phase_item list" vpn_phase

text \<open>The messages of the jump-host phase: one per item that has a group and devices, in order.\<close>

fun jump_messages :: "task_config \<Rightarrow> string \<Rightarrow> string option \<Rightarrow> (nat \<Rightarrow> string) \<Rightarrow> nat \<Rightarrow> nat \<Rightarrow> phase_item option list \<Rightarrow> message list" where
  "jump_messages cfg tenant bulk fresh before n [] = []"
| "jump_messages cfg tenant bulk fresh before n (item # items) =
     (if usable_item item
      then jump_message cfg tenant bulk (fresh n) before item # jump_messages cfg tenant bulk fresh (Suc before) (Suc n) items
      else jump_messages cfg tenant bulk fresh (Suc before) n items)"

definition vpn_sent :: "vpn_phase \<Rightarrow> event list" where
  "vpn_sent c = map (Sent \<circ> vpn_message (vp_tenant c) (vp_bulk c)) (filter usable_item (vp_groups c))"

definition jump_order :: "vpn_phase \<Rightarrow> phase_item option \<Rightarrow> order" where
  "jump_order c item = RunGroup \<lparr>go_group = item_group item, go_tenant = vp_tenant c, go_devices = item_devices item,
     go_bulk = bulk_arg (vp_bulk c), go_force_vpn = None\<rparr>"

lemma jump_messages_facts:
  "map mg_order (jump_messages cfg (vp_tenant c) (vp_bulk c) fresh before n items) = map (jump_order c) (filter usable_item items)"
  "m \<in> set (jump_messages cfg (vp_tenant c) (vp_bulk c) fresh before n items) \<Longrightarrow> mg_queue m = ''jump_queue''"
  by (induction items arbitrary: before n) (auto simp: jump_message_def jump_order_def split: if_splits)

lemma spec_bind_value:
  "io_spec P m (\<lambda>a s. P' s \<and> a = v) E \<Longrightarrow> io_spec P' (f v) Q E \<Longrightarrow> io_spec P (io_bind m f) Q E"
  unfolding io_spec_def io_bind_def by (fastforce split: prod.splits option.splits)

locale phase_host = machine_order "\<lambda>s s'. outbox s' = outbox s" R emit "\<lambda>_. True" M
  for outbox :: "'s \<Rightarrow> event list" and R emit M +
  fixes P :: "'s phase_env"
  assumes machine: "ph_machine P = M"
    and send_kept: "case ph_send P m s of (None, s') \<Rightarrow> outbox s' = outbox s | (Some _, s') \<Rightarrow> outbox s' = outbox s @ [Sent m]"
    and chord_kept: "case ph_chord P ms c s of (None, s') \<Rightarrow> outbox s' = outbox s | (Some _, s') \<Rightarrow> outbox s' = outbox s @ [Launched ms c]"
begin

abbreviation holds :: "event list \<Rightarrow> 's \<Rightarrow> bool" where
  "holds es \<equiv> \<lambda>s. outbox s = es"

lemma quiet:
  assumes "io_within (\<lambda>s s'. outbox s' = outbox s) m"
  shows "io_spec (holds es) m (\<lambda>_. holds es) (\<lambda>_. True)"
proof (rule io_specI)
  fix s assume "outbox s = es"
  with assms have "outbox (snd (m s)) = es" by (simp add: io_within_def)
  then show "case m s of (None, s') \<Rightarrow> True | (Some a, s') \<Rightarrow> outbox s' = es" by (auto split: prod.split option.split)
qed

lemma send_spec: "io_spec (holds es) (ph_send P m) (\<lambda>_. holds (es @ [Sent m])) (\<lambda>_. True)"
  by (rule io_specI) (insert send_kept [where m = m], fastforce split: prod.splits option.splits)

lemma chord_spec: "io_spec (holds es) (ph_chord P ms c) (\<lambda>_. holds (es @ [Launched ms c])) (\<lambda>_. True)"
  by (rule io_specI) (insert chord_kept [where ms = ms and c = c], fastforce split: prod.splits option.splits)

lemma register_quiet [within]: "io_within (\<lambda>s s'. outbox s' = outbox s) (register_group M tenant bulk t name g)"
  unfolding register_group_def register_task_def client sink by (intro within within_write_meta) auto

lemma record_quiet [within]: "io_within (\<lambda>s s'. outbox s' = outbox s) (record_children M bulk new pending message line)"
  unfolding record_children_def client sink by (intro within within_task_meta within_task_log) auto

lemma stop_quiet [within]: "io_within (\<lambda>s s'. outbox s' = outbox s) (stop_phase M bulk line message)"
  unfolding stop_phase_def by (intro within within_task_meta within_task_log) auto

lemma log_quiet [within]: "io_within (\<lambda>s s'. outbox s' = outbox s) (task_log M t who m level)"
  by (rule within_task_log) auto

lemma vpn_items_spec:
  "io_spec (holds es) (queue_vpn_items P tenant bulk items new)
     (\<lambda>_. holds (es @ map (Sent \<circ> vpn_message tenant bulk) (filter usable_item items))) (\<lambda>_. True)"
proof (induction items arbitrary: es new)
  case (Cons item items)
  have "io_spec (holds es) (ph_send P (vpn_message tenant bulk item)) (\<lambda>_. holds (es @ [Sent (vpn_message tenant bulk item)])) (\<lambda>_. True)"
    by (rule send_spec)
  moreover have "io_spec (holds es) (register_group M tenant bulk t n g) (\<lambda>_. holds es) (\<lambda>_. True)" for es t n g
    by (rule quiet [OF register_quiet])
  ultimately show ?case
    using Cons.IH [of es] Cons.IH [of "es @ [Sent (vpn_message tenant bulk item)]"]
    by (cases "usable_item item") (auto simp: machine intro!: triple)
qed (auto intro: triple)

lemma jump_items_spec:
  "io_spec (holds es) (prepare_jump_items P tenant bulk before n items sigs)
     (\<lambda>res s. outbox s = es \<and> res = sigs @ jump_messages (m_cfg M) tenant bulk (ph_fresh P) before n items) (\<lambda>_. True)"
proof (induction items arbitrary: before n sigs)
  case (Cons item items)
  have "io_spec (holds es) (register_group M tenant bulk t m g) (\<lambda>_. holds es) (\<lambda>_. True)" for t m g
    by (rule quiet [OF register_quiet])
  then show ?case
    using Cons.IH [of "Suc before" n sigs]
      Cons.IH [of "Suc before" "Suc n" "sigs @ [jump_message (m_cfg M) tenant bulk (ph_fresh P n) before item]"]
    by (cases "usable_item item") (auto simp: machine intro!: triple)
qed (auto intro: triple)

lemma for_spec: "io_spec (holds es) (io_for ms (\<lambda>m. io_bind (ph_send P m) (\<lambda>_. io_ret ()))) (\<lambda>_. holds (es @ map Sent ms)) (\<lambda>_. True)"
proof (induction ms arbitrary: es)
  case (Cons m ms)
  have "io_spec (holds es) (io_bind (ph_send P m) (\<lambda>_. io_ret ())) (\<lambda>_. holds (es @ [Sent m])) (\<lambda>_. True)"
    by (rule spec_bind [OF send_spec]) (auto intro: triple)
  from spec_seq [OF this Cons.IH] show ?case by simp
qed (auto intro: triple)

lemma vpn_phase_spec:
  "io_spec (holds es) (enqueue_vpn_groups_after_direct_phase_task P task c)
     (\<lambda>res s. if dhas res ''stopped'' then outbox s = es else outbox s = es @ vpn_sent c) (\<lambda>_. True)"
proof -
  have stop: "io_spec (holds es) (should_stop_now M b) (\<lambda>_. holds es) (\<lambda>_. True)" for es b by (intro quiet within)
  have log: "io_spec (holds es) (task_log M t who m level) (\<lambda>_. holds es) (\<lambda>_. True)" for es t who m level by (intro quiet within)
  have rec: "io_spec (holds es) (record_children M b new n m l) (\<lambda>_. holds es) (\<lambda>_. True)" for es b new n m l by (intro quiet within)
  have sp: "io_spec (holds es) (stop_phase M b l m) (\<lambda>_. holds es) (\<lambda>_. True)" for es b l m by (intro quiet within)
  show ?thesis
    unfolding enqueue_vpn_groups_after_direct_phase_task_def Let_def machine
    by (auto intro!: triple stop log rec sp vpn_items_spec simp: vpn_result_def vpn_sent_def dhas_def)
qed

lemma jump_phase_spec:
  "io_spec (holds es) (enqueue_jump_and_vpn_after_direct_phase_task P task jump c)
     (\<lambda>res s. let sigs = jump_messages (m_cfg M) (vp_tenant c) (vp_bulk c) (ph_fresh P) 0 0 jump
        in if dhas res ''stopped'' then outbox s = es
           else if sigs = [] then outbox s = es @ vpn_sent c
           else if vp_groups c = [] then outbox s = es @ map Sent sigs
           else outbox s = es @ [Launched sigs c]) (\<lambda>_. True)"
proof -
  let ?sigs = "jump_messages (m_cfg M) (vp_tenant c) (vp_bulk c) (ph_fresh P) 0 0 jump"
  have stop: "io_spec (holds es) (should_stop_now M b) (\<lambda>_. holds es) (\<lambda>_. True)" for es b by (intro quiet within)
  have log: "io_spec (holds es) (task_log M t who m level) (\<lambda>_. holds es) (\<lambda>_. True)" for es t who m level by (intro quiet within)
  have rec: "io_spec (holds es) (record_children M b new n m l) (\<lambda>_. holds es) (\<lambda>_. True)" for es b new n m l by (intro quiet within)
  have sp: "io_spec (holds es) (stop_phase M b l m) (\<lambda>_. holds es) (\<lambda>_. True)" for es b l m by (intro quiet within)
  have go: "io_spec (holds es) (launch_jump_phase P sigs c)
      (\<lambda>_. holds (es @ (if vp_groups c = [] then map Sent sigs else [Launched sigs c]))) (\<lambda>_. True)" for sigs
    unfolding launch_jump_phase_def by (auto intro: for_spec chord_spec)
  define Q where "Q = (\<lambda>res s. if dhas res ''stopped'' then outbox s = es else if ?sigs = [] then outbox s = es @ vpn_sent c
    else if vp_groups c = [] then outbox s = es @ map Sent ?sigs else outbox s = es @ [Launched ?sigs c])"
  have empty: "io_spec (holds es) (enqueue_vpn_groups_after_direct_phase_task P None c) Q (\<lambda>_. True)" if "?sigs = []"
    by (rule spec_conseq [OF vpn_phase_spec [of es None c]]) (use that in \<open>auto simp: Q_def split: if_splits\<close>)
  have ret: "io_spec (holds es') (io_ret res) Q (\<lambda>_. True)"
    if "if dhas res ''stopped'' then es' = es else if ?sigs = [] then es' = es @ vpn_sent c
      else if vp_groups c = [] then es' = es @ map Sent ?sigs else es' = es @ [Launched ?sigs c]" for res es'
    using that by (auto simp: Q_def intro: triple)
  have "io_spec (holds es) (enqueue_jump_and_vpn_after_direct_phase_task P task jump c) Q (\<lambda>_. True)"
  proof (cases "jump = []")
    case True
    then have "enqueue_jump_and_vpn_after_direct_phase_task P task jump c = enqueue_vpn_groups_after_direct_phase_task P None c"
      by (simp add: enqueue_jump_and_vpn_after_direct_phase_task_def Let_def)
    with True empty show ?thesis by simp
  next
    case False
    show ?thesis
      unfolding enqueue_jump_and_vpn_after_direct_phase_task_def Let_def machine if_not_P [OF False]
    proof (rule spec_bind [OF stop], rule spec_if, goal_cases)
      case 1
      show ?case by (rule spec_seq [OF sp], rule ret) (simp add: jump_result_def dhas_def)
    next
      case 2
      show ?case
      proof (rule spec_bind_value [OF jump_items_spec], goal_cases)
        case 1
        show ?case
        proof (cases "?sigs = []")
          case True
          have "io_spec (holds es) (io_ret (jump_result 0 0 [])) Q (\<lambda>_. True)" if "vp_groups c = []"
            by (rule ret) (simp add: True that vpn_sent_def jump_result_def dhas_def)
          with True empty show ?thesis by simp
        next
          case False
          show ?thesis
            unfolding append_Nil if_not_P [OF False]
            by (intro spec_seq [OF rec] spec_seq [OF go] spec_seq [OF log] ret) (simp add: False jump_result_def dhas_def)
        qed
      qed
    qed
  qed
  then show ?thesis by (simp only: Q_def Let_def)
qed

end

section \<open>Any machine with an outbox\<close>

definition aside :: "('s, 'a) io \<Rightarrow> ('s \<times> 'e, 'a) io" where
  "aside m = (\<lambda>(s, e). case m s of (a, s') \<Rightarrow> (a, (s', e)))"

definition aside_redis :: "'s redis \<Rightarrow> ('s \<times> 'e) redis" where
  "aside_redis R = \<lparr>r_get = \<lambda>k. aside (r_get R k), r_setex = \<lambda>k n v. aside (r_setex R k n v),
     r_set_nx = \<lambda>k v n. aside (r_set_nx R k v n), r_delete = \<lambda>ks. aside (r_delete R ks), r_incr = \<lambda>k. aside (r_incr R k),
     r_expire = \<lambda>k n. aside (r_expire R k n), r_ttl = \<lambda>k. aside (r_ttl R k), r_rpush = \<lambda>k vs. aside (r_rpush R k vs),
     r_lrange = \<lambda>k i j. aside (r_lrange R k i j), r_ltrim = \<lambda>k i j. aside (r_ltrim R k i j), r_llen = \<lambda>k. aside (r_llen R k),
     r_head = \<lambda>k. aside (r_head R k), r_lpop = \<lambda>k. aside (r_lpop R k), r_hget = \<lambda>h f. aside (r_hget R h f),
     r_hset = \<lambda>h f v. aside (r_hset R h f v), r_scan = \<lambda>p. aside (r_scan R p), r_unlock = \<lambda>k t. aside (r_unlock R k t)\<rparr>"

definition aside_emit :: "(tele \<Rightarrow> 's \<Rightarrow> 's) \<Rightarrow> tele \<Rightarrow> 's \<times> 'e \<Rightarrow> 's \<times> 'e" where
  "aside_emit emit t w = (emit t (fst w), snd w)"

definition aside_machine :: "'s machine \<Rightarrow> ('s \<times> 'e) machine" where
  "aside_machine M =
     \<lparr>m_env = m_env M, m_cfg = m_cfg M, m_log = m_log M, m_client = map_option aside_redis (m_client M), m_emit = aside_emit (m_emit M),
      m_now = m_now M \<circ> fst, m_hms = m_hms M \<circ> fst, m_mono = m_mono M \<circ> fst, m_sleep = \<lambda>n. aside (m_sleep M n),
      m_device = \<lambda>d. aside (m_device M d), m_prune_interval = m_prune_interval M, m_prune_fuel = m_prune_fuel M,
      m_prune_cache = m_prune_cache M \<circ> fst, m_set_prune_cache = \<lambda>n w. (m_set_prune_cache M n (fst w), snd w),
      m_counts = m_counts M \<circ> fst, m_set_counts = \<lambda>c w. (m_set_counts M c (fst w), snd w)\<rparr>"

lemma aside_within: "io_within (\<lambda>s s'. snd s' = snd s) (aside m)"
  by (auto simp: io_within_def aside_def split: prod.split)

text \<open>A broker that takes every message.\<close>

definition posting :: "'s machine \<Rightarrow> (nat \<Rightarrow> string) \<Rightarrow> ('s \<times> event list) phase_env" where
  "posting M fresh = \<lparr>ph_machine = aside_machine M, ph_send = \<lambda>m w. (Some (fresh (length (snd w))), (fst w, snd w @ [Sent m])),
     ph_chord = \<lambda>ms c w. (Some (), (fst w, snd w @ [Launched ms c])), ph_fresh = fresh\<rparr>"

lemma posting_host:
  assumes "m_client M = Some R"
  shows "phase_host snd (aside_redis R) (aside_emit (m_emit M)) (aside_machine M) (posting M fresh)"
  by unfold_locales
    (auto simp: aside_machine_def posting_def aside_redis_def aside_within assms aside_emit_def)

interpretation posted: phase_host snd "aside_redis host_redis" "aside_emit host_emit" "aside_machine (sample_machine devices)"
  "posting (sample_machine devices) fresh" for devices fresh
  using posting_host [of "sample_machine devices" host_redis fresh] by (simp add: sample_machine_def)

section \<open>Properties\<close>


lemma log_returns: "io_total (task_log M t who m level)"
proof -
  have "io_total (io_read f)" "io_total (io_write g)" for f :: "'s \<Rightarrow> 'b" and g :: "'s \<Rightarrow> 's"
    by (simp_all add: io_total_def io_read_def io_write_def)
  then show ?thesis unfolding task_log_def by (auto intro!: total_io split: prod.split)
qed

lemma unit_returns: "io_total m \<Longrightarrow> \<exists>s'. m s = (Some (), s')"
proof -
  assume "io_total m"
  then have "fst (m s) \<noteq> None" unfolding io_total_def by blast
  then show ?thesis by (cases "m s"; cases "fst (m s)") auto
qed

definition two_phases :: vpn_phase where
  "two_phases = \<lparr>vp_tenant = ''t'', vp_groups = [Some \<lparr>pi_group_id = Some ''v'', pi_group_name = None, pi_device_ids = Some [''d2''],
     pi_force_vpn = None\<rparr>], vp_bulk = None\<rparr>"

definition jump_item :: "phase_item option" where
  "jump_item = Some \<lparr>pi_group_id = Some ''j'', pi_group_name = Some ''POP'', pi_device_ids = Some [''d3'', ''d1'', ''d3''], pi_force_vpn = None\<rparr>"

lemma jump_item_facts: "item_group jump_item = ''j''" "item_devices jump_item = [''d1'', ''d3'']" "usable_item jump_item"
proof -
  show g: "item_group jump_item = ''j''" by (simp add: item_group_def jump_item_def, code_simp?)
  show d: "item_devices jump_item = [''d1'', ''d3'']" by (simp add: item_devices_def jump_item_def, code_simp?)
  show "usable_item jump_item" by (simp add: usable_item_def g d)
qed


end
