(* ===== verification/BatchStatus.thy ===== *)
theory BatchStatus
  imports Phases GroupRun "HOL-Library.Monad_Syntax"
begin

text \<open>
  The progress of a mass backup, as the page that polls it computes it from its child tasks
  (\<open>_refresh_bulk_task_meta\<close> of \<open>src/app/web/tenant/backups.py\<close>), and the handlers of a batch: its status, its
  cancellation and the status of one task.

  \<^const>\<open>None\<close> is an exception (a value of the record that cannot be read as a number or a text). The result backend of
  Celery is the state and the result of a task. The counters of a record are not negative; a number with a
  fraction is its decimal text. Doubles are those of \<open>Float64\<close>.
\<close>

section \<open>Reading the record\<close>

definition int_or :: "pyval \<Rightarrow> int \<Rightarrow> int option" where
  "int_or v d = (if truthy v then val_int v else Some d)"

definition text_or :: "pyval \<Rightarrow> string \<Rightarrow> string option" where
  "text_or v d = (if truthy v then (case v of PStr s \<Rightarrow> Some s | _ \<Rightarrow> None) else Some d)"

fun opt_map :: "('a \<Rightarrow> 'b option) \<Rightarrow> 'a list \<Rightarrow> 'b list option" where
  "opt_map f [] = Some []"
| "opt_map f (x # xs) = do { y \<leftarrow> f x; ys \<leftarrow> opt_map f xs; Some (y # ys) }"

text \<open>\<open>{str(k): int(v) for k, v in (value or {}).items()}\<close>, with \<open>int(v or 0)\<close> or \<open>int(v)\<close>.\<close>

definition int_items :: "(pyval \<Rightarrow> int option) \<Rightarrow> pyval \<Rightarrow> (string \<times> int) list option" where
  "int_items num v =
     (if \<not> truthy v then Some []
      else case v of PDict d \<Rightarrow> opt_map (\<lambda>(k, x). map_option (Pair k) (num x)) d | _ \<Rightarrow> None)"

definition upper_ascii :: "string \<Rightarrow> string" where
  "upper_ascii s = map (\<lambda>c. let n = (of_char c :: nat) in if 97 \<le> n \<and> n \<le> 122 then char_of (n - 32) else c) s"

section \<open>The tally of a batch\<close>

record batch_tally =
  bt_success_tasks :: int
  bt_failed_tasks :: int
  bt_done_tasks :: int
  bt_running :: int
  bt_queued :: int
  bt_done :: int
  bt_success :: int
  bt_failed :: int
  bt_estimated :: "nat \<times> nat"
  bt_finished :: "string list"
  bt_no_ping :: int
  bt_login_fail :: int
  bt_login_ok :: int
  bt_categories :: "(string \<times> int) list"

definition BATCH_CATEGORIES :: "(string \<times> int) list" where
  "BATCH_CATEGORIES = map (\<lambda>c. (c, 0))
     [''auth'', ''timeout'', ''port_refused'', ''vpn'', ''no_ping'', ''connection'', ''script'', ''unknown'']"

definition new_batch_tally :: "string list \<Rightarrow> batch_tally" where
  "new_batch_tally finished =
     \<lparr>bt_success_tasks = 0, bt_failed_tasks = 0, bt_done_tasks = 0, bt_running = 0, bt_queued = 0, bt_done = 0, bt_success = 0,
      bt_failed = 0, bt_estimated = fl_00, bt_finished = finished, bt_no_ping = 0, bt_login_fail = 0, bt_login_ok = 0,
      bt_categories = BATCH_CATEGORIES\<rparr>"

definition bump :: "string \<Rightarrow> int \<Rightarrow> batch_tally \<Rightarrow> batch_tally" where
  "bump cat n t = t\<lparr>bt_categories := map (\<lambda>(k, v). if k = cat then (k, v + n) else (k, v)) (bt_categories t)\<rparr>"

definition failure_bucket :: "pydict \<Rightarrow> string option" where
  "failure_bucket item =
     (let fc = dget item ''failure_category''
      in do {
        raw \<leftarrow> (if truthy fc then Some (py_str fc)
               else do { m \<leftarrow> text_or (dget item ''message'') []; Some (classify_failure (Some m)) });
        let cat = py_lower (py_strip raw);
        Some (if cat \<in> set (map fst BATCH_CATEGORIES) then cat else ''unknown'')
      })"

section \<open>A task that succeeded\<close>

text \<open>What a result says: whether the task succeeded, its devices with and without success, and how many there were.\<close>

type_synonym verdict = "bool \<times> int \<times> int \<times> int"

definition audit_verdict :: "pydict \<Rightarrow> int \<Rightarrow> batch_tally \<Rightarrow> (batch_tally \<times> verdict) option" where
  "audit_verdict result tot t =
     do {
       raw \<leftarrow> text_or (dget result ''classification'') [];
       let classification = py_lower (py_strip raw);
       let ping_ok = truthy (dget result ''ping_ok'');
       let login_ok = truthy (dget result ''login_ok'');
       Some (if classification = ''ready'' \<or> (ping_ok \<and> login_ok)
             then (t\<lparr>bt_login_ok := bt_login_ok t + 1\<rparr>, (True, 1, 0, tot))
             else if classification = ''no_ping'' \<or> \<not> ping_ok
             then (t\<lparr>bt_no_ping := bt_no_ping t + 1\<rparr>, (False, 0, 1, tot))
             else (t\<lparr>bt_login_fail := bt_login_fail t + 1\<rparr>, (False, 0, 1, tot)))
     }"

fun count_details :: "pyval list \<Rightarrow> batch_tally \<Rightarrow> batch_tally option" where
  "count_details [] t = Some t"
| "count_details (v # vs) t =
     (case v of
        PDict item \<Rightarrow>
          (if truthy (dget item ''success'') then count_details vs t
           else do { cat \<leftarrow> failure_bucket item; count_details vs (bump cat 1 t) })
      | _ \<Rightarrow> count_details vs t)"

definition details_of :: "pyval \<Rightarrow> pyval list option" where
  "details_of v = (if \<not> truthy v then Some [] else case v of PList xs \<Rightarrow> Some xs | PStr s \<Rightarrow> Some [] | PDict d \<Rightarrow> Some [] | _ \<Rightarrow> None)"

definition group_verdict :: "pydict \<Rightarrow> int \<Rightarrow> batch_tally \<Rightarrow> (batch_tally \<times> verdict) option" where
  "group_verdict result tot t =
     do {
       ok \<leftarrow> int_or (dget result ''success'') 0;
       fail \<leftarrow> int_or (dget result ''failed'') 0;
       items \<leftarrow> details_of (dget result ''details'');
       t' \<leftarrow> count_details items t;
       tot' \<leftarrow> int_or (dget result ''total'') tot;
       Some (t', (fail = 0 \<and> ok \<ge> 0, ok, fail, tot'))
     }"

definition single_verdict :: "pydict \<Rightarrow> int \<Rightarrow> batch_tally \<Rightarrow> (batch_tally \<times> verdict) option" where
  "single_verdict result tot t =
     (if truthy (dget result ''success'') then Some (t, (True, 1, 0, tot))
      else do { cat \<leftarrow> failure_bucket result; Some (bump cat 1 t, (False, 0, 1, tot)) })"

definition result_verdict :: "pyval \<Rightarrow> int \<Rightarrow> batch_tally \<Rightarrow> (batch_tally \<times> verdict) option" where
  "result_verdict result tot t =
     (case result of
        PDict r \<Rightarrow>
          do {
            check \<leftarrow> text_or (dget r ''check_type'') [];
            if py_lower (py_strip check) = ''connection_audit'' then audit_verdict r tot t
            else if dhas r ''total'' \<and> dhas r ''success'' \<and> dhas r ''failed'' then group_verdict r tot t
            else if dhas r ''success'' then single_verdict r tot t
            else if truthy (dget r ''error'') then Some (t, (False, 0, max 1 tot, tot))
            else Some (t, (True, max 1 tot, 0, tot))
          }
      | _ \<Rightarrow> Some (t, (True, max 1 tot, 0, tot)))"

definition settle :: "batch_tally \<times> verdict \<Rightarrow> batch_tally" where
  "settle = (\<lambda>(t, (task_success, ok, fail, tot)).
     let t1 = (if task_success then t\<lparr>bt_success_tasks := bt_success_tasks t + 1\<rparr> else t\<lparr>bt_failed_tasks := bt_failed_tasks t + 1\<rparr>);
         (ok', fail') = (if ok + fail \<le> 0 then (max 1 tot, 0) else if tot > ok + fail then (ok + (tot - (ok + fail)), fail) else (ok, fail))
     in t1\<lparr>bt_done := bt_done t + (ok' + fail'), bt_success := bt_success t + ok', bt_failed := bt_failed t + fail'\<rparr>)"

definition finish_child :: "string \<Rightarrow> batch_tally \<Rightarrow> batch_tally" where
  "finish_child child_id t = t\<lparr>bt_done_tasks := bt_done_tasks t + 1, bt_finished := child_id # bt_finished t\<rparr>"

section \<open>A task that failed, and one that is still open\<close>

definition child_counts :: "pydict \<Rightarrow> (int \<times> int \<times> int) option" where
  "child_counts meta =
     do {
       raw_done \<leftarrow> int_or (py_or (dget meta ''done_devices'') (dget meta ''processed_devices'')) 0;
       raw_success \<leftarrow> int_or (dget meta ''success_devices'') 0;
       raw_failed \<leftarrow> int_or (dget meta ''failed_devices'') 0;
       Some (max 0 raw_done, max 0 raw_success, max 0 raw_failed)
     }"

definition count_failed_child :: "string \<Rightarrow> int \<Rightarrow> pydict \<Rightarrow> batch_tally \<Rightarrow> batch_tally option" where
  "count_failed_child kind tot meta t =
     do {
       (n_done, n_ok, n_failed) \<leftarrow> child_counts meta;
       let remaining = max 0 (max 1 tot - n_done);
       let t' = bump ''unknown'' (max 1 remaining)
             (t\<lparr>bt_failed_tasks := bt_failed_tasks t + 1, bt_done := bt_done t + (n_done + remaining), bt_success := bt_success t + n_ok,
                bt_failed := bt_failed t + (n_failed + remaining)\<rparr>);
       Some (if kind = ''connection_audit'' then t'\<lparr>bt_login_fail := bt_login_fail t' + (n_failed + remaining)\<rparr> else t')
     }"

text \<open>Doubles: \<open>0.01\<close>, the difference cut at zero, the smaller of two, the value of a decimal text.\<close>

definition fl_001 :: "nat \<times> nat" where "fl_001 = (5764607523034235, 59)"

definition fl_minus :: "nat \<times> nat \<Rightarrow> nat \<times> nat \<Rightarrow> nat \<times> nat" where
  "fl_minus x y = (let (m, s) = x; (n, u) = y in if fl_le x y then fl_00 else fl_scale 1 (m * 2 ^ u - n * 2 ^ s, s + u))"

definition fl_min :: "nat \<times> nat \<Rightarrow> nat \<times> nat \<Rightarrow> nat \<times> nat" where
  "fl_min x y = (if fl_le x y then x else y)"

definition fl_pos :: "nat \<times> nat \<Rightarrow> bool" where
  "fl_pos x \<longleftrightarrow> \<not> fl_le x fl_00"

definition decimal_fl :: "string \<Rightarrow> (nat \<times> nat) option" where
  "decimal_fl s =
     (case py_split CHR ''.'' s of
        [a] \<Rightarrow> map_option (\<lambda>n. (nat n, 0)) (py_int a)
      | [a, b] \<Rightarrow> map_option (\<lambda>n. if n \<le> 0 then fl_00 else fl_div (nat n) (10 ^ length b)) (py_int (a @ b))
      | _ \<Rightarrow> None)"

definition fl_of :: "pyval \<Rightarrow> (nat \<times> nat) option" where
  "fl_of v =
     (if \<not> truthy v then Some fl_00
      else case v of PInt i \<Rightarrow> Some (nat i, 0) | PBool b \<Rightarrow> Some (1, 0) | PStr s \<Rightarrow> decimal_fl s | _ \<Rightarrow> None)"

text \<open>The part of the devices in progress. Every difference of the source is cut at zero.\<close>

definition estimated_partial :: "int \<Rightarrow> int \<Rightarrow> int \<Rightarrow> nat \<times> nat \<Rightarrow> nat \<times> nat" where
  "estimated_partial tot n_done progress fraction =
     (let child_fraction = fl_min fl_099 fraction
      in if n_done > 0 \<or> fl_pos child_fraction
         then fl_min (fl_minus (nat (tot - n_done), 0) fl_001) child_fraction
         else if progress > 0
         then fl_min (fl_minus (nat tot, 0) fl_001) (fl_minus (fl_scale (nat tot) (fl_div (nat progress) 100)) (nat n_done, 0))
         else fl_00)"

definition OPEN_STATES :: "string set" where
  "OPEN_STATES = {''PENDING'', ''RECEIVED'', ''RETRY'', ''STARTED''}"

definition count_open_child ::
  "string \<Rightarrow> bool \<Rightarrow> string set \<Rightarrow> string \<Rightarrow> string \<Rightarrow> int \<Rightarrow> pydict \<Rightarrow> batch_tally \<Rightarrow> batch_tally option" where
  "count_open_child kind cancel forced child_id state count meta t =
     do {
       let tot = max 1 count;
       progress \<leftarrow> int_or (dget meta ''progress'') 0;
       (n_done, n_ok, n_failed) \<leftarrow> child_counts meta;
       t1 \<leftarrow> (if state \<in> {''STARTED'', ''RETRY''} \<and> tot > 1
              then do {
                fraction \<leftarrow> fl_of (dget meta ''current_device_fraction'');
                Some (t\<lparr>bt_done := bt_done t + min tot n_done, bt_success := bt_success t + n_ok, bt_failed := bt_failed t + n_failed,
                   bt_estimated := fl_add (bt_estimated t) (estimated_partial tot n_done progress fraction)\<rparr>)
              }
              else Some t);
       Some (if cancel \<and> (child_id \<in> forced \<or> forced = {}) \<and> state \<in> OPEN_STATES
             then (let remaining = max 0 (tot - n_done);
                       t2 = bump ''unknown'' remaining (finish_child child_id
                         (t1\<lparr>bt_failed_tasks := bt_failed_tasks t1 + 1, bt_done := bt_done t1 + remaining, bt_failed := bt_failed t1 + remaining\<rparr>))
                   in if kind = ''connection_audit'' then t2\<lparr>bt_login_fail := bt_login_fail t2 + remaining\<rparr> else t2)
             else if state = ''STARTED'' then t1\<lparr>bt_running := bt_running t1 + 1\<rparr>
             else t1\<lparr>bt_queued := bt_queued t1 + 1\<rparr>)
     }"

section \<open>One child\<close>

definition child_state :: "string option \<Rightarrow> pydict \<Rightarrow> string" where
  "child_state state meta =
     (let st = upper_ascii (or_empty state);
          status = py_lower (py_strip (str_or_empty (dget meta ''status'')))
      in if st \<in> {''PENDING'', ''RECEIVED''} \<and> truthy (dget meta ''completed'')
         then (if status \<in> {''success'', ''completed''} then ''SUCCESS''
               else if status \<in> {''failed'', ''failure'', ''error'', ''stopped'', ''revoked''} then ''FAILURE'' else st)
         else st)"

definition child_result :: "pyval \<Rightarrow> pydict \<Rightarrow> pyval" where
  "child_result result meta =
     (case result of
        PDict d \<Rightarrow> PDict d
      | _ \<Rightarrow> (case dget meta ''result'' of PDict d \<Rightarrow> PDict d | _ \<Rightarrow> result))"

record 's backend =
  be_state :: "string \<Rightarrow> ('s, string option) io"
  be_result :: "string \<Rightarrow> ('s, pyval) io"
  be_revoke :: "string \<Rightarrow> string \<Rightarrow> ('s, unit) io"

definition opt_io :: "'a option \<Rightarrow> ('s, 'a) io" where
  "opt_io v = (case v of None \<Rightarrow> io_raise | Some a \<Rightarrow> io_ret a)"

fun count_children ::
  "'s machine \<Rightarrow> 's backend \<Rightarrow> string \<Rightarrow> bool \<Rightarrow> string set \<Rightarrow> (string \<times> int) list \<Rightarrow> string list \<Rightarrow> batch_tally \<Rightarrow> ('s, batch_tally) io" where
  "count_children M B kind cancel forced counts [] t = io_ret t"
| "count_children M B kind cancel forced counts (c # cs) t =
     io_bind (get_task_meta (m_client M) (m_emit M) c) (\<lambda>meta.
     io_bind (be_state B c) (\<lambda>raw.
       let state = child_state raw meta;
           count = (case map_of counts c of None \<Rightarrow> 1 | Some n \<Rightarrow> n)
       in io_bind
            (if state = ''SUCCESS''
             then io_bind (be_result B c) (\<lambda>res.
                    opt_io (map_option settle (result_verdict (child_result res meta) count (finish_child c t))))
             else if state \<in> {''FAILURE'', ''REVOKED''} then opt_io (count_failed_child kind count meta (finish_child c t))
             else opt_io (count_open_child kind cancel forced c state count meta t))
            (count_children M B kind cancel forced counts cs)))"

section \<open>The batch\<close>

text \<open>What the record said before this refresh.\<close>

record batch_before =
  bb_total_tasks :: int
  bb_total_devices :: int
  bb_tally :: batch_tally

definition read_before :: "pydict \<Rightarrow> batch_before option" where
  "read_before meta =
     do {
       total_tasks \<leftarrow> int_or (dget meta ''total_tasks'') 0;
       total_devices \<leftarrow> int_or (dget meta ''total_devices'') 0;
       done_tasks \<leftarrow> int_or (dget meta ''done_tasks'') 0;
       success_tasks \<leftarrow> int_or (dget meta ''success_tasks'') 0;
       failed_tasks \<leftarrow> int_or (dget meta ''failed_tasks'') 0;
       n_done \<leftarrow> int_or (dget meta ''done_devices'') 0;
       n_success \<leftarrow> int_or (dget meta ''success_devices'') 0;
       n_failed \<leftarrow> int_or (dget meta ''failed_devices'') 0;
       finished \<leftarrow> child_ids (dget meta ''finished_task_ids'');
       categories \<leftarrow> int_items (\<lambda>v. int_or v 0) (dget meta ''failure_category_counts'');
       no_ping \<leftarrow> int_or (dget meta ''no_ping_devices'') 0;
       login_fail \<leftarrow> int_or (dget meta ''ping_ok_login_fail_devices'') 0;
       login_ok \<leftarrow> int_or (dget meta ''ping_login_ok_devices'') 0;
       Some \<lparr>bb_total_tasks = total_tasks, bb_total_devices = total_devices,
         bb_tally = \<lparr>bt_success_tasks = success_tasks, bt_failed_tasks = failed_tasks, bt_done_tasks = done_tasks, bt_running = 0,
           bt_queued = 0, bt_done = n_done, bt_success = n_success, bt_failed = n_failed, bt_estimated = fl_00,
           bt_finished = finished, bt_no_ping = no_ping, bt_login_fail = login_fail, bt_login_ok = login_ok, bt_categories = categories\<rparr>\<rparr>
     }"

definition merge_categories :: "(string \<times> int) list \<Rightarrow> (string \<times> int) list \<Rightarrow> (string \<times> int) list" where
  "merge_categories now prev =
     foldl (\<lambda>cats (c, n). if c \<in> set (map fst cats) then map (\<lambda>(k, v). if k = c then (k, max v n) else (k, v)) cats else cats @ [(c, n)])
       now prev"

text \<open>The counters never go back, whatever the result backend has forgotten.\<close>

definition keep_monotone :: "batch_tally \<Rightarrow> batch_tally \<Rightarrow> batch_tally" where
  "keep_monotone prev t =
     (let ok_tasks = max (bt_success_tasks t) (bt_success_tasks prev);
          bad_tasks = max (bt_failed_tasks t) (bt_failed_tasks prev);
          ok = max (bt_success t) (bt_success prev);
          bad = max (bt_failed t) (bt_failed prev)
      in t\<lparr>bt_success_tasks := ok_tasks, bt_failed_tasks := bad_tasks,
           bt_done_tasks := max (max (bt_done_tasks t) (bt_done_tasks prev)) (ok_tasks + bad_tasks),
           bt_success := ok, bt_failed := bad, bt_done := max (max (bt_done t) (bt_done prev)) (ok + bad),
           bt_no_ping := max (bt_no_ping t) (bt_no_ping prev), bt_login_fail := max (bt_login_fail t) (bt_login_fail prev),
           bt_login_ok := max (bt_login_ok t) (bt_login_ok prev),
           bt_categories := merge_categories (bt_categories t) (bt_categories prev)\<rparr>)"

definition batch_devices :: "int \<Rightarrow> batch_tally \<Rightarrow> int" where
  "batch_devices before t =
     (let tot = max (if before \<le> 0 then bt_done t + bt_running t + bt_queued t else before) before
      in if bt_done t > tot then bt_done t else tot)"

definition batch_progress :: "int \<Rightarrow> int \<Rightarrow> batch_tally \<Rightarrow> int" where
  "batch_progress total_tasks total_devices t =
     (let base = (if total_devices > 0 then fl_add (nat (bt_done t), 0) (bt_estimated t) else (nat (bt_done_tasks t), 0));
          tot = (if total_devices > 0 then total_devices else total_tasks);
          (m, s) = fl_scale 100 (fl_over base (nat (max 1 tot)))
      in min 100 (int (m div 2 ^ s)))"

definition closing_message :: "string \<Rightarrow> string \<Rightarrow> int \<Rightarrow> batch_tally \<Rightarrow> string" where
  "closing_message start kind total_devices t =
     (if kind = ''connection_audit''
      then start @ '': aptos='' @ show_int (bt_login_ok t) @ '', sem ping='' @ show_int (bt_no_ping t) @ '', ping sem login='' @
        show_int (bt_login_fail t) @ '' ('' @ show_int total_devices @ '' total).''
      else start @ '': '' @ show_int (bt_success t) @ '' dispositivos com sucesso, '' @ show_int (bt_failed t) @ '' com falha ('' @
        show_int total_devices @ '' total).'')"

definition running_message :: "bool \<Rightarrow> int \<Rightarrow> batch_tally \<Rightarrow> string" where
  "running_message cancel total_devices t =
     (let done_of = show_int (bt_done t) @ ''/'' @ show_int total_devices;
          open_tasks = '' ('' @ show_int (bt_running t) @ '' em execucao, '' @ show_int (bt_queued t) @ '' em fila).''
      in if cancel then ''Interrompendo lote: '' @ done_of @ '' concluidos'' @ open_tasks
         else ''Processando lote: '' @ done_of @ '' dispositivos concluidos'' @ open_tasks)"

text \<open>Status, progress, completion and message.\<close>

definition batch_state :: "string \<Rightarrow> bool \<Rightarrow> bool \<Rightarrow> int \<Rightarrow> int \<Rightarrow> batch_tally \<Rightarrow> string \<times> int \<times> bool \<times> string" where
  "batch_state kind cancel was_completed total_tasks total_devices t =
     (if total_tasks \<le> 0
      then (if cancel then ''stopped'' else ''success'', 100, True,
        if cancel then ''Lote interrompido pelo usuario.'' else ''Nenhuma task pendente para este lote.'')
      else
        (let progress = batch_progress total_tasks total_devices t;
             completed = (was_completed \<or> bt_done_tasks t \<ge> total_tasks)
         in if completed
            then (if cancel then ''stopped'' else if kind = ''connection_audit'' then ''success''
                  else if bt_failed t > 0 then ''failed'' else ''success'',
              progress, True,
              closing_message (if cancel then ''Lote interrompido'' else ''Lote concluido'') kind total_devices t)
            else (if cancel then ''stopping'' else ''running'', max 5 progress, False, running_message cancel total_devices t)))"

definition batch_record :: "string \<Rightarrow> bool \<Rightarrow> bool \<Rightarrow> int \<Rightarrow> int \<Rightarrow> batch_tally \<Rightarrow> pydict" where
  "batch_record kind cancel was_completed total_tasks total_devices t =
     (let (status, progress, completed, message) = batch_state kind cancel was_completed total_tasks total_devices t
      in [(''is_bulk'', PBool True), (''operation_kind'', PStr kind), (''status'', PStr status), (''progress'', PInt progress),
          (''completed'', PBool completed), (''message'', PStr message), (''total_tasks'', PInt total_tasks),
          (''done_tasks'', PInt (bt_done_tasks t)), (''success_tasks'', PInt (bt_success_tasks t)),
          (''failed_tasks'', PInt (bt_failed_tasks t)), (''total_devices'', PInt total_devices), (''done_devices'', PInt (bt_done t)),
          (''success_devices'', PInt (bt_success t)), (''failed_devices'', PInt (bt_failed t)), (''running_tasks'', PInt (bt_running t)),
          (''queued_tasks'', PInt (max 0 (total_tasks - bt_done_tasks t - bt_running t))), (''no_ping_devices'', PInt (bt_no_ping t)),
          (''ping_ok_login_fail_devices'', PInt (bt_login_fail t)), (''ping_login_ok_devices'', PInt (bt_login_ok t)),
          (''failure_category_counts'', PDict (map (\<lambda>(c, n). (c, PInt n)) (bt_categories t))),
          (''finished_task_ids'', PList (map PStr (sort (remdups (bt_finished t))))), (''cancel_requested'', PBool cancel)])"

definition refresh_bulk_task_meta :: "'s machine \<Rightarrow> 's backend \<Rightarrow> pydict \<Rightarrow> ('s, pydict) io" where
  "refresh_bulk_task_meta M B meta =
     io_bind (opt_io (do {
         children \<leftarrow> child_ids (dget meta ''child_task_ids'');
         total_tasks \<leftarrow> int_or (dget meta ''total_tasks'') (int (length children));
         before \<leftarrow> read_before meta;
         counts \<leftarrow> int_items val_int (dget meta ''child_task_device_count'');
         kind \<leftarrow> text_or (dget meta ''operation_kind'') ''backup_bulk'';
         forced \<leftarrow> child_ids (dget meta ''force_cancelled_child_ids'');
         Some (children, total_tasks, before, counts, py_lower (py_strip kind), forced)
       })) (\<lambda>(children, total_tasks, before, counts, kind, forced).
     let cancel = truthy (dget meta ''cancel_requested'')
     in io_bind (count_children M B kind cancel (set forced) counts children (new_batch_tally (bt_finished (bb_tally before)))) (\<lambda>t.
          let t' = keep_monotone (bb_tally before) t
          in io_ret (batch_record kind cancel (truthy (dget meta ''completed'')) (max total_tasks (bb_total_tasks before))
               (batch_devices (bb_total_devices before) t') t')))"

section \<open>The handlers\<close>

datatype reply = Forbid | Reply int pydict

text \<open>The caller of a page: the role and the tenant of the session, and the tenants of the database.\<close>

record caller =
  ca_super :: bool
  ca_slug :: "string option"
  ca_tenants :: "tenant list"

definition refuse :: "int \<Rightarrow> string \<Rightarrow> reply" where
  "refuse code msg = Reply code [(''ok'', PBool False), (''error'', PStr msg)]"

text \<open>\<open>get_db_and_tenant\<close> and the guards every handler of a task starts with.\<close>

definition with_task_meta ::
  "'s machine \<Rightarrow> caller \<Rightarrow> string \<Rightarrow> string \<Rightarrow> (tenant \<Rightarrow> pydict \<Rightarrow> ('s, reply) io) \<Rightarrow> ('s, reply) io" where
  "with_task_meta M ca slug task_id k =
     (if \<not> ca_super ca \<and> ca_slug ca \<noteq> Some slug then io_ret Forbid
      else case find (\<lambda>t. t_slug t = slug) (ca_tenants ca) of
        None \<Rightarrow> io_ret (refuse 404 ''Tenant not found'')
      | Some t \<Rightarrow>
          io_bind (get_task_meta (m_client M) (m_emit M) task_id) (\<lambda>meta.
            if meta = [] then io_ret (refuse 404 ''Task not found'')
            else if truthy (dget meta ''tenant_id'') \<and> py_str (dget meta ''tenant_id'') \<noteq> t_id t then io_ret (refuse 403 ''Forbidden'')
            else k t meta))"

definition only_bulk :: "pydict \<Rightarrow> ('s, reply) io \<Rightarrow> ('s, reply) io" where
  "only_bulk meta k = (if \<not> truthy (dget meta ''is_bulk'') then io_ret (refuse 400 ''Task is not a bulk operation'') else k)"

text \<open>\<open>due\<close> compares the time of the last refresh with the clock, a double; \<open>stamp\<close> is the time written.\<close>

definition counter_fields :: "string list" where
  "counter_fields = [''total_devices'', ''queued_direct'', ''queued_vpn_groups'', ''skipped_not_ready'', ''skipped_mass_excluded'',
     ''total_tasks'', ''done_tasks'', ''success_tasks'', ''failed_tasks'', ''done_devices'', ''success_devices'', ''failed_devices'',
     ''running_tasks'', ''queued_tasks'', ''no_ping_devices'', ''ping_ok_login_fail_devices'', ''ping_login_ok_devices'']"

definition batch_reply :: "string \<Rightarrow> string \<Rightarrow> pydict \<Rightarrow> pydict option" where
  "batch_reply task_id cancel_url current =
     do {
       progress \<leftarrow> int_or_zero (dget current ''progress'');
       counters \<leftarrow> opt_map (\<lambda>k. map_option (\<lambda>n. (k, PInt n)) (int_or_zero (dget current k))) counter_fields;
       Some ([(''ok'', PBool True), (''task_id'', PStr task_id), (''is_bulk'', PBool True),
          (''operation_kind'', py_or (dget current ''operation_kind'') (PStr ''backup_bulk'')), (''status'', dget current ''status''),
          (''progress'', PInt progress), (''message'', dget current ''message''), (''completed'', PBool (truthy (dget current ''completed'')))] @
          counters @
          [(''failure_category_counts'', py_or (dget current ''failure_category_counts'') (PDict [])),
           (''group_summary'', py_or (dget current ''group_summary'') (PList [])),
           (''cancel_requested'', PBool (truthy (dget current ''cancel_requested''))), (''cancel_url'', PStr cancel_url),
           (''updated_at'', dget current ''updated_at'')])
     }"

definition bulk_task_status ::
  "'s machine \<Rightarrow> 's backend \<Rightarrow> (pyval \<Rightarrow> 's \<Rightarrow> bool) \<Rightarrow> ('s \<Rightarrow> pyval) \<Rightarrow> string \<Rightarrow> caller \<Rightarrow> string \<Rightarrow> string \<Rightarrow> ('s, reply) io" where
  "bulk_task_status M B due stamp cancel_url ca slug task_id =
     with_task_meta M ca slug task_id (\<lambda>t meta. only_bulk meta
       (io_bind (io_read (\<lambda>s. (stamp s, due (dget meta ''bulk_last_refresh_ts'') s))) (\<lambda>(now_ts, is_due).
        let should_refresh = (if \<not> truthy (dget meta ''completed'') then is_due else \<not> truthy (dget meta ''status''))
        in io_bind
             (if should_refresh
              then io_bind (refresh_bulk_task_meta M B meta) (\<lambda>r.
                     let refreshed = dput r ''bulk_last_refresh_ts'' now_ts
                     in io_bind (task_meta M task_id refreshed) (\<lambda>_. io_ret (dupdate meta refreshed)))
              else io_ret meta)
             (\<lambda>current. io_bind (opt_io (batch_reply task_id cancel_url current)) (\<lambda>d. io_ret (Reply 200 d))))))"

fun revoke_children :: "'s machine \<Rightarrow> 's backend \<Rightarrow> string \<Rightarrow> string list \<Rightarrow> string list \<Rightarrow> ('s, string list) io" where
  "revoke_children M B signal [] forced = io_ret forced"
| "revoke_children M B signal (c # cs) forced =
     io_bind (be_state B c) (\<lambda>state.
       if state \<in> {Some ''SUCCESS'', Some ''FAILURE'', Some ''REVOKED''} then revoke_children M B signal cs forced
       else io_bind (io_attempt (be_revoke B c signal)) (\<lambda>r.
         case r of
           Some _ \<Rightarrow> revoke_children M B signal cs (forced @ [c])
         | None \<Rightarrow> io_seq (tell_m M (LogLine (''Falha ao revogar child task '' @ c))) (revoke_children M B signal cs forced)))"

definition STOP_KEY :: string where
  "STOP_KEY = ''backup_center:force_stop_backups''"

definition set_stop_flag :: "'s machine \<Rightarrow> string \<Rightarrow> ('s, unit) io" where
  "set_stop_flag M task_id =
     (case m_client M of
        None \<Rightarrow> io_ret ()
      | Some R \<Rightarrow> io_try (r_setex R STOP_KEY (60 * 3) (RText ''1''))
          (tell_m M (LogLine (''Falha ao definir bloqueio global temporario ao cancelar lote '' @ task_id))))"

definition cancel_bulk_task ::
  "'s machine \<Rightarrow> 's backend \<Rightarrow> ('s \<Rightarrow> int) \<Rightarrow> caller \<Rightarrow> string \<Rightarrow> string \<Rightarrow> ('s, reply) io" where
  "cancel_bulk_task M B unix_time ca slug task_id =
     with_task_meta M ca slug task_id (\<lambda>t meta. only_bulk meta
       (io_bind (opt_io (child_ids (dget meta ''child_task_ids''))) (\<lambda>children.
        let kind = py_lower (py_strip (str_or_empty (dget meta ''operation_kind'')))
        in io_bind (revoke_children M B (if kind = ''connection_audit'' then ''SIGKILL'' else ''SIGTERM'') children []) (\<lambda>forced.
           io_seq (set_stop_flag M task_id)
          (io_bind (io_read unix_time) (\<lambda>now.
           io_bind (task_meta M task_id [(''cancel_requested'', PBool True), (''status'', PStr ''stopping''), (''completed'', PBool False),
               (''message'', PStr ''Solicitacao de parada recebida. Interrompendo tasks em andamento...''),
               (''force_cancelled_child_ids'', PList (map PStr forced)), (''cancel_requested_at'', PInt now)]) (\<lambda>_.
           io_seq (task_log M (Some task_id) ''Backup em massa''
               (''Parada solicitada pelo usuario. Revogacao enviada para '' @ show_int (int (length forced)) @ '' task(s).'') ''warning'')
             (io_ret (Reply 200 [(''ok'', PBool True), (''task_id'', PStr task_id), (''status'', PStr ''stopping''),
                (''revoke_requested'', PInt (int (length forced)))])))))))))"

section \<open>One task, and the logs\<close>

definition task_failed_result :: "pyval \<Rightarrow> bool" where
  "task_failed_result result =
     (case result of PDict d \<Rightarrow> dget d ''success'' = PBool False \<or> truthy (dget d ''error'') | _ \<Rightarrow> False)"

text \<open>Status, progress, message and completion, from the record and the state of Celery.\<close>

definition infer_status :: "string option \<Rightarrow> pyval \<Rightarrow> pydict \<Rightarrow> int \<Rightarrow> pyval \<times> int \<times> pyval \<times> bool" where
  "infer_status state result meta progress =
     (let status = py_or (dget meta ''status'') (PStr ''queued'');
          message = py_or (dget meta ''message'') (PStr ''Aguardando atualizacao...'');
          completed = truthy (dget meta ''completed'')
      in if state = Some ''STARTED'' \<and> progress < 5 then (PStr ''running'', 5, PStr ''Task iniciada no worker.'', completed)
         else if state = Some ''SUCCESS'' \<and> \<not> completed
         then (if task_failed_result result
               then (PStr ''failed'', 100, PStr (py_str (py_or (dget (as_dict result) ''message'') (dget (as_dict result) ''error''))), True)
               else (PStr ''success'', 100, message, True))
         else if state = Some ''FAILURE''
         then (PStr ''failed'', 100, if truthy (dget meta ''error'') then message else PStr ''Task finalizada com erro.'', True)
         else (status, progress, message, completed))"

definition task_status :: "'s machine \<Rightarrow> 's backend \<Rightarrow> caller \<Rightarrow> string \<Rightarrow> string \<Rightarrow> ('s, reply) io" where
  "task_status M B ca slug task_id =
     with_task_meta M ca slug task_id (\<lambda>t meta.
       io_bind (be_state B task_id) (\<lambda>state.
       io_bind (opt_io (int_or_zero (dget meta ''progress''))) (\<lambda>progress0.
       io_bind (if state = Some ''SUCCESS'' then be_result B task_id else io_ret PNone) (\<lambda>result.
       let (status, progress, message, completed) = infer_status state result meta progress0
       in io_ret (Reply 200 [(''ok'', PBool True), (''task_id'', PStr task_id), (''status'', status),
            (''progress'', PInt (max 0 (min progress 100))), (''message'', message), (''completed'', PBool completed),
            (''celery_state'', opt_str state), (''device_name'', dget meta ''device_name''), (''updated_at'', dget meta ''updated_at'')])))))"

definition after_arg :: "string option \<Rightarrow> int" where
  "after_arg arg = (case Option.bind arg py_int of None \<Rightarrow> 0 | Some n \<Rightarrow> n)"

definition logs_reply :: "pydict \<Rightarrow> pydict list \<Rightarrow> int \<Rightarrow> reply" where
  "logs_reply head entries newest = Reply 200 ((''ok'', PBool True) # head @ [(''entries'', PList (map PDict entries)), (''last_seq'', PInt newest)])"

definition task_logs :: "'s machine \<Rightarrow> caller \<Rightarrow> string \<Rightarrow> string \<Rightarrow> string option \<Rightarrow> ('s, reply) io" where
  "task_logs M ca slug task_id after =
     with_task_meta M ca slug task_id (\<lambda>t meta.
       io_bind (get_task_logs (m_client M) (m_emit M) task_id (after_arg after) 150) (\<lambda>(entries, newest).
         io_ret (logs_reply [(''task_id'', PStr task_id)] entries newest)))"

definition bulk_task_logs :: "'s machine \<Rightarrow> caller \<Rightarrow> string \<Rightarrow> string \<Rightarrow> string option \<Rightarrow> ('s, reply) io" where
  "bulk_task_logs M ca slug task_id after =
     with_task_meta M ca slug task_id (\<lambda>t meta. only_bulk meta
       (io_bind (opt_io (child_ids (dget meta ''child_task_ids''))) (\<lambda>children.
        io_bind (get_global_logs (m_client M) (m_emit M) (after_arg after) 100 (Some (t_id t))) (\<lambda>(entries, newest).
          io_ret (logs_reply [(''task_id'', PStr task_id)]
            (filter (\<lambda>e. str_or_empty (dget e ''task_id'') \<in> set (children @ [task_id])) entries)
            (if newest \<noteq> 0 then newest else after_arg after))))))"

definition global_backup_logs :: "'s machine \<Rightarrow> caller \<Rightarrow> string \<Rightarrow> string option \<Rightarrow> ('s, reply) io" where
  "global_backup_logs M ca slug after =
     (if \<not> ca_super ca \<and> ca_slug ca \<noteq> Some slug then io_ret Forbid
      else case find (\<lambda>t. t_slug t = slug) (ca_tenants ca) of
        None \<Rightarrow> io_ret (refuse 404 ''Tenant not found'')
      | Some t \<Rightarrow>
          io_bind (get_global_logs (m_client M) (m_emit M) (after_arg after) 120 (Some (t_id t))) (\<lambda>(entries, newest).
            io_ret (logs_reply [] entries newest)))"

end
