(* ===== verification/BatchSafety.thy ===== *)
theory BatchSafety
  imports BatchStatus DispatchSafety PhaseSafety
begin

text \<open>
  What the page of a batch may tell: counters that fit together and never go back, every device of finished tasks
  counted once, nothing of another tenant; and what a cancellation does to everybody.
\<close>

section \<open>Counters\<close>

lemma dget_record:
  assumes "batch_state kind cancel was tt td t = (status, progress, completed, message)"
  shows "batch_record kind cancel was tt td t =
    [(''is_bulk'', PBool True), (''operation_kind'', PStr kind), (''status'', PStr status), (''progress'', PInt progress),
          (''completed'', PBool completed), (''message'', PStr message), (''total_tasks'', PInt tt),
          (''done_tasks'', PInt (bt_done_tasks t)), (''success_tasks'', PInt (bt_success_tasks t)),
          (''failed_tasks'', PInt (bt_failed_tasks t)), (''total_devices'', PInt td), (''done_devices'', PInt (bt_done t)),
          (''success_devices'', PInt (bt_success t)), (''failed_devices'', PInt (bt_failed t)), (''running_tasks'', PInt (bt_running t)),
          (''queued_tasks'', PInt (max 0 (tt - bt_done_tasks t - bt_running t))), (''no_ping_devices'', PInt (bt_no_ping t)),
          (''ping_ok_login_fail_devices'', PInt (bt_login_fail t)), (''ping_login_ok_devices'', PInt (bt_login_ok t)),
          (''failure_category_counts'', PDict (map (\<lambda>(c, n). (c, PInt n)) (bt_categories t))),
          (''finished_task_ids'', PList (map PStr (sort (remdups (bt_finished t))))), (''cancel_requested'', PBool cancel)]"
  by (simp add: batch_record_def assms)

definition monotone_counters :: "string list" where
  "monotone_counters = [''total_tasks'', ''done_tasks'', ''success_tasks'', ''failed_tasks'', ''total_devices'', ''done_devices'',
     ''success_devices'', ''failed_devices'', ''no_ping_devices'', ''ping_ok_login_fail_devices'', ''ping_login_ok_devices'']"

definition counter :: "pydict \<Rightarrow> string \<Rightarrow> int" where
  "counter d k = (case int_or_zero (dget d k) of Some n \<Rightarrow> n | None \<Rightarrow> 0)"

lemma counter_int [simp]: "dget d k = PInt n \<Longrightarrow> counter d k = n"
  by (auto simp: counter_def int_or_zero_def val_int_def)

lemma int_or_zero_eq: "int_or v 0 = int_or_zero v"
  by (simp add: int_or_def int_or_zero_def)

lemma read_before_counters:
  assumes "read_before meta = Some b"
  shows "bb_total_tasks b = counter meta ''total_tasks''" "bb_total_devices b = counter meta ''total_devices''"
    "bt_done_tasks (bb_tally b) = counter meta ''done_tasks''" "bt_success_tasks (bb_tally b) = counter meta ''success_tasks''"
    "bt_failed_tasks (bb_tally b) = counter meta ''failed_tasks''" "bt_done (bb_tally b) = counter meta ''done_devices''"
    "bt_success (bb_tally b) = counter meta ''success_devices''" "bt_failed (bb_tally b) = counter meta ''failed_devices''"
    "bt_no_ping (bb_tally b) = counter meta ''no_ping_devices''" "bt_login_fail (bb_tally b) = counter meta ''ping_ok_login_fail_devices''"
    "bt_login_ok (bb_tally b) = counter meta ''ping_login_ok_devices''"
  using assms by (auto simp: read_before_def counter_def int_or_zero_eq split: Option.bind_splits)

text \<open>What a refresh returns: the record of a tally that was kept monotone.\<close>

lemma refresh_cases:
  assumes "refresh_bulk_task_meta M B meta s = (Some r, s')"
  obtains kind before tt t where "read_before meta = Some before"
    "int_or (dget meta ''total_tasks'') (int (length (the (child_ids (dget meta ''child_task_ids''))))) = Some tt"
    "r = batch_record kind (truthy (dget meta ''cancel_requested'')) (truthy (dget meta ''completed'')) (max tt (bb_total_tasks before))
      (batch_devices (bb_total_devices before) (keep_monotone (bb_tally before) t)) (keep_monotone (bb_tally before) t)"
  using assms
  by (auto simp: refresh_bulk_task_meta_def opt_io_def io_bind_def io_ret_def io_raise_def Let_def
      split: option.splits prod.splits Option.bind_splits)

lemma progress_bound: "batch_progress tt td t \<le> 100"
  by (simp add: batch_progress_def Let_def split: prod.split)

lemma state_facts:
  assumes "batch_state kind cancel was tt td t = (status, progress, completed, message)"
  shows "progress \<le> 100" "completed \<longleftrightarrow> tt \<le> 0 \<or> was \<or> tt \<le> bt_done_tasks t" "completed \<or> 5 \<le> progress"
    "status \<in> {''success'', ''failed'', ''stopped''} \<longleftrightarrow> completed"
  using assms progress_bound [of tt td t] by (auto simp: batch_state_def Let_def split: if_splits)

lemma kept_facts:
  "bt_success_tasks prev \<le> bt_success_tasks (keep_monotone prev t)" "bt_failed_tasks prev \<le> bt_failed_tasks (keep_monotone prev t)"
  "bt_done_tasks prev \<le> bt_done_tasks (keep_monotone prev t)" "bt_success prev \<le> bt_success (keep_monotone prev t)"
  "bt_failed prev \<le> bt_failed (keep_monotone prev t)" "bt_done prev \<le> bt_done (keep_monotone prev t)"
  "bt_no_ping prev \<le> bt_no_ping (keep_monotone prev t)" "bt_login_fail prev \<le> bt_login_fail (keep_monotone prev t)"
  "bt_login_ok prev \<le> bt_login_ok (keep_monotone prev t)"
  "bt_success_tasks (keep_monotone prev t) + bt_failed_tasks (keep_monotone prev t) \<le> bt_done_tasks (keep_monotone prev t)"
  "bt_success (keep_monotone prev t) + bt_failed (keep_monotone prev t) \<le> bt_done (keep_monotone prev t)"
  by (simp_all add: keep_monotone_def Let_def)

lemma devices_facts: "before \<le> batch_devices before t" "bt_done t \<le> batch_devices before t"
  by (auto simp: batch_devices_def Let_def)

section \<open>Finished tasks\<close>

text \<open>The result of a group run: its devices with and without success are all of its devices.\<close>

definition full_result :: "pydict \<Rightarrow> int \<Rightarrow> int \<Rightarrow> bool" where
  "full_result res ok bad \<longleftrightarrow> dget res ''check_type'' = PNone \<and> dget res ''total'' = PInt (ok + bad) \<and> dget res ''success'' = PInt ok \<and>
     dget res ''failed'' = PInt bad \<and> 0 \<le> ok \<and> 0 \<le> bad \<and>
     (\<exists>items. dget res ''details'' = PList items \<and> (\<forall>t. count_details items t \<noteq> None))"

text \<open>The successes a result is credited with: a result without any device counts as so many successes as its task
  was given devices, and as one at least.\<close>

definition credited :: "int \<Rightarrow> int \<Rightarrow> int \<Rightarrow> int" where
  "credited n ok bad = (if ok + bad = 0 then max 1 n else ok)"

definition given :: "(string \<times> int) list \<Rightarrow> string \<Rightarrow> int" where
  "given counts c = (case map_of counts c of None \<Rightarrow> 1 | Some n \<Rightarrow> n)"

lemma dget_dhas: "dget d k \<noteq> PNone \<Longrightarrow> dhas d k"
  by (auto simp: dget_def dhas_def split: option.splits) (metis map_of_SomeD image_eqI fst_conv)

text \<open>Only the counts of categories change while the details are read.\<close>

lemma bump_keeps: "bt_done (bump c n t) = bt_done t" "bt_success (bump c n t) = bt_success t" "bt_failed (bump c n t) = bt_failed t"
  "bt_done_tasks (bump c n t) = bt_done_tasks t" "bt_success_tasks (bump c n t) = bt_success_tasks t"
  "bt_failed_tasks (bump c n t) = bt_failed_tasks t"
  by (simp_all add: bump_def)

lemma details_keep:
  "count_details vs t = Some t' \<Longrightarrow> bt_done t' = bt_done t \<and> bt_success t' = bt_success t \<and> bt_failed t' = bt_failed t \<and>
     bt_done_tasks t' = bt_done_tasks t \<and> bt_success_tasks t' = bt_success_tasks t \<and> bt_failed_tasks t' = bt_failed_tasks t"
  by (induction vs t rule: count_details.induct)
    (auto simp: bump_keeps split: pyval.splits if_splits Option.bind_splits)

lemma full_verdict:
  assumes "full_result res ok bad"
  shows "\<exists>t'. map_option settle (result_verdict (PDict res) n t) = Some t' \<and> bt_done t' = bt_done t + (credited n ok bad + bad) \<and>
    bt_success t' = bt_success t + credited n ok bad \<and> bt_failed t' = bt_failed t + bad \<and> bt_done_tasks t' = bt_done_tasks t \<and>
    bt_success_tasks t' = bt_success_tasks t + (if bad = 0 then 1 else 0) \<and> bt_failed_tasks t' = bt_failed_tasks t + (if bad = 0 then 0 else 1)"
proof -
  from assms obtain items where d: "dget res ''check_type'' = PNone" "dget res ''total'' = PInt (ok + bad)" "dget res ''success'' = PInt ok"
      "dget res ''failed'' = PInt bad" "0 \<le> ok" "0 \<le> bad" "dget res ''details'' = PList items"
    and c: "\<And>t. count_details items t \<noteq> None" by (auto simp: full_result_def)
  from c obtain t1 where t1: "count_details items t = Some t1" by (meson not_Some_eq)
  have h: "dhas res ''total''" "dhas res ''success''" "dhas res ''failed''" by (rule dget_dhas, simp add: d)+
  have none: "py_lower (py_strip []) \<noteq> ''connection_audit''" by (simp add: py_strip_def py_rstrip_def py_lstrip_def)
  have items: "details_of (PList items) = Some items" by (simp add: details_of_def)
  have "result_verdict (PDict res) n t = Some (t1, (bad = 0, ok, bad, if ok + bad = 0 then n else ok + bad))"
    using d(5,6) by (simp add: result_verdict_def group_verdict_def d(1-4,7) h none text_or_def int_or_def val_int_def items t1)
  with details_keep [OF t1] d(5,6) show ?thesis by (auto simp: settle_def Let_def credited_def)
qed

lemma io_totalE:
  assumes "io_total m"
  obtains a s' where "m s = (Some a, s')"
proof -
  from assms have "fst (m s) \<noteq> None" unfolding io_total_def by blast
  with that show ?thesis by (cases "m s"; cases "fst (m s)") auto
qed

lemma count_finished:
  assumes "\<And>c. c \<in> set cs \<Longrightarrow> be_state B c = io_ret (Some ''SUCCESS'') \<and> be_result B c = io_ret (PDict (res c)) \<and> full_result (res c) (ok c) (bad c)"
  shows "\<exists>t' s'. count_children M B kind cancel forced counts cs t s = (Some t', s') \<and>
    bt_done t' = bt_done t + (\<Sum>c\<leftarrow>cs. credited (given counts c) (ok c) (bad c) + bad c) \<and> bt_success t' = bt_success t + (\<Sum>c\<leftarrow>cs. credited (given counts c) (ok c) (bad c)) \<and>
    bt_failed t' = bt_failed t + (\<Sum>c\<leftarrow>cs. bad c) \<and> bt_done_tasks t' = bt_done_tasks t + int (length cs) \<and>
    bt_success_tasks t' + bt_failed_tasks t' = bt_success_tasks t + bt_failed_tasks t + int (length cs) \<and>
    bt_success_tasks t \<le> bt_success_tasks t' \<and> bt_failed_tasks t \<le> bt_failed_tasks t'"
  using assms
proof (induction cs arbitrary: t s)
  case (Cons c cs)
  have state: "child_state (Some ''SUCCESS'') meta = ''SUCCESS''" for meta
    by (simp add: child_state_def upper_ascii_def or_empty_def Let_def) 
  obtain meta s1 where meta: "get_task_meta (m_client M) (m_emit M) c s = (Some meta, s1)"
    by (rule io_totalE [OF get_meta_total])
  from Cons.prems [of c] have c: "be_state B c = io_ret (Some ''SUCCESS'')" "be_result B c = io_ret (PDict (res c))"
    "full_result (res c) (ok c) (bad c)" by auto
  from full_verdict [OF c(3)] obtain t1 where t1: "map_option settle (result_verdict (PDict (res c))
      (given counts c) (finish_child c t)) = Some t1"
    "bt_done t1 = bt_done t + (credited (given counts c) (ok c) (bad c) + bad c)" "bt_success t1 = bt_success t + credited (given counts c) (ok c) (bad c)" "bt_failed t1 = bt_failed t + bad c"
    "bt_done_tasks t1 = bt_done_tasks t + 1" "bt_success_tasks t1 = bt_success_tasks t + (if bad c = 0 then 1 else 0)"
    "bt_failed_tasks t1 = bt_failed_tasks t + (if bad c = 0 then 0 else 1)"
    by (fastforce simp: finish_child_def)
  from t1(1) obtain v where v: "result_verdict (PDict (res c)) (given counts c) (finish_child c t) = Some v"
    "settle v = t1" by blast
  have "count_children M B kind cancel forced counts (c # cs) t s = count_children M B kind cancel forced counts cs t1 s1"
    by (simp add: v io_bind_def meta c io_ret_def state Let_def child_result_def opt_io_def given_def [symmetric])
  moreover obtain t' s' where "count_children M B kind cancel forced counts cs t1 s1 = (Some t', s')"
    "bt_done t' = bt_done t1 + (\<Sum>c\<leftarrow>cs. credited (given counts c) (ok c) (bad c) + bad c)" "bt_success t' = bt_success t1 + (\<Sum>c\<leftarrow>cs. credited (given counts c) (ok c) (bad c))"
    "bt_failed t' = bt_failed t1 + (\<Sum>c\<leftarrow>cs. bad c)" "bt_done_tasks t' = bt_done_tasks t1 + int (length cs)"
    "bt_success_tasks t' + bt_failed_tasks t' = bt_success_tasks t1 + bt_failed_tasks t1 + int (length cs)"
    "bt_success_tasks t1 \<le> bt_success_tasks t'" "bt_failed_tasks t1 \<le> bt_failed_tasks t'"
    using Cons.IH [of t1 s1] Cons.prems by auto
  ultimately show ?case using t1(2-7) by (intro exI [of _ t'] exI [of _ s'], cases "bad c = 0") (simp_all del: count_children.simps)
qed (simp add: io_ret_def)

section \<open>Cancelling, and who may\<close>

definition stop_flag_set :: "store \<Rightarrow> bool" where
  "stop_flag_set st \<longleftrightarrow> (\<exists>e. st_find STOP_KEY st = Some (DStr (RText ''1''), e))"

lemma stop_key: "task_meta_key t \<noteq> STOP_KEY" "tenant_active_bulk_key t \<noteq> STOP_KEY" "task_log_key t \<noteq> STOP_KEY"
  "task_log_seq_key t \<noteq> STOP_KEY" "GLOBAL_LOG_KEY \<noteq> STOP_KEY" "GLOBAL_LOG_SEQ_KEY \<noteq> STOP_KEY"
  by (simp_all add: STOP_KEY_def task_meta_key_def tenant_active_bulk_key_def TASK_META_PREFIX_def TENANT_ACTIVE_BULK_PREFIX_def
      task_log_key_def TASK_LOG_PREFIX_def task_log_seq_key_def TASK_LOG_SEQ_PREFIX_def GLOBAL_LOG_KEY_def GLOBAL_LOG_SEQ_KEY_def)

context host
begin

lemma flag_spec: "io_spec (\<lambda>_. True) (set_stop_flag M t) (\<lambda>_ s. stop_flag_set (view s)) (\<lambda>_. False)"
proof (rule io_specI)
  fix s
  have "fst (r_setex R STOP_KEY (60 * 3) (RText ''1'') s) = Some ()"
    "view (snd (r_setex R STOP_KEY (60 * 3) (RText ''1'') s)) = st_put STOP_KEY (DStr (RText ''1'')) (Some (st_now (view s) + 180000)) (view s)"
    using io_sim_fst [OF sim_setex, of STOP_KEY "60 * 3" "RText ''1''" s] io_sim_snd [OF sim_setex, of STOP_KEY "60 * 3" "RText ''1''" s]
    by (simp_all add: st_setex_def)
  moreover have "stop_flag_set (st_put STOP_KEY (DStr (RText ''1'')) (Some (st_now st + 180000)) st)" for st
    by (simp add: stop_flag_set_def st_find_def st_put_def update_conv')
  ultimately show "case set_stop_flag M t s of (None, s') \<Rightarrow> False | (Some _, s') \<Rightarrow> stop_flag_set (view s')"
    by (auto simp: set_stop_flag_def host_client io_try_def split: prod.split option.split)
qed

lemma flag_stays:
  assumes "io_within (same_key view STOP_KEY) m"
  shows "io_spec (\<lambda>s. stop_flag_set (view s)) m (\<lambda>_ s. stop_flag_set (view s)) (\<lambda>_. True)"
proof (rule io_specI)
  fix s assume "stop_flag_set (view s)"
  with io_withinD [OF assms, of s] have "stop_flag_set (view (snd (m s)))" by (simp add: same_key_def stop_flag_set_def)
  then show "case m s of (None, s') \<Rightarrow> True | (Some _, s') \<Rightarrow> stop_flag_set (view s')" by (auto split: prod.split option.split)
qed

lemma flag_stops:
  assumes "stop_flag_set (view s)"
  shows "fst (is_global_backup_stop_enabled M s) = Some True" "fst (should_stop_now M bulk s) = Some True"
proof -
  have one: "py_strip ''1'' = ''1''" by code_simp
  from assms obtain e where "st_find STOP_KEY (view s) = Some (DStr (RText ''1''), e)" by (auto simp: stop_flag_set_def)
  then have "fst (r_get R STOP_KEY s) = Some (Some (RText ''1''))"
    using io_sim_fst [OF sim_get, of STOP_KEY s] by (simp add: st_get_def)
  then show stop: "fst (is_global_backup_stop_enabled M s) = Some True"
    by (auto simp: is_global_backup_stop_enabled_def host_client STOP_KEY_def io_try_def io_bind_def io_ret_def rv_text_def one
        split: prod.splits option.splits)
  then show "fst (should_stop_now M bulk s) = Some True"
    by (cases "is_global_backup_stop_enabled M s") (auto simp: should_stop_now_def io_bind_def io_ret_def split: option.splits)
qed

text \<open>The last two steps of a cancellation keep the flag and mark the record.\<close>

lemma mark_spec:
  assumes "log_config_ok (m_log M)" "t \<noteq> []" "map_of d ''cancel_requested'' = Some (PBool True)" "distinct (map fst d)"
  shows "io_spec (\<lambda>s. stop_flag_set (view s)) (io_bind (task_meta M t d) (\<lambda>_. io_seq (task_log M (Some t) who m level) (io_ret rep)))
    (\<lambda>_ s. stop_flag_set (view s) \<and> truthy (dget (meta_of t (view s)) ''cancel_requested'')) (\<lambda>_. True)"
proof -
  have meta: "io_spec (\<lambda>s. stop_flag_set (view s)) (task_meta M t d)
      (\<lambda>_ s. stop_flag_set (view s) \<and> truthy (dget (meta_of t (view s)) ''cancel_requested'')) (\<lambda>_. True)"
  proof -
    have keep: "io_spec (\<lambda>s. stop_flag_set (view s)) (task_meta M t d) (\<lambda>_ s. stop_flag_set (view s)) (\<lambda>_. True)"
      by (intro flag_stays machine_order.within_task_meta [OF same_key_machine]) (simp_all add: stop_key)
    have "dget (merged_meta now t old d) ''cancel_requested'' = PBool True" for now old
      by (simp add: merged_meta_def dget_dupdate [OF assms(4)] assms(3))
    then have "io_spec (\<lambda>_. True) (task_meta M t d) (\<lambda>_ s. truthy (dget (meta_of t (view s)) ''cancel_requested'')) (\<lambda>_. True)"
      by (intro spec_conseq [OF meta_spec [OF assms(1,2), of d]]) auto
    with keep show ?thesis unfolding io_spec_def by (fastforce split: prod.splits option.splits)
  qed
  have log: "io_spec (\<lambda>s. stop_flag_set (view s) \<and> truthy (dget (meta_of t (view s)) ''cancel_requested'')) (task_log M (Some t) who m level)
      (\<lambda>_ s. stop_flag_set (view s) \<and> truthy (dget (meta_of t (view s)) ''cancel_requested'')) (\<lambda>_. True)"
  proof -
    have keep: "io_spec (\<lambda>s. stop_flag_set (view s)) (task_log M (Some t) who m level) (\<lambda>_ s. stop_flag_set (view s)) (\<lambda>_. True)"
      by (intro flag_stays machine_order.within_task_log [OF same_key_machine]) (simp_all add: stop_key)
    with log_keeps_meta [of "\<lambda>d. truthy (dget d ''cancel_requested'')" t "Some t" who m level]
    show ?thesis unfolding io_spec_def by (fastforce split: prod.splits option.splits)
  qed
  show ?thesis by (rule spec_bind [OF meta], rule spec_seq [OF log]) (auto intro: triple)
qed

lemma tail_spec:
  assumes "log_config_ok (m_log M)" "t \<noteq> []" "\<And>now. map_of (upd now) ''cancel_requested'' = Some (PBool True) \<and> distinct (map fst (upd now))"
  shows "io_spec (\<lambda>_. True) (io_seq (set_stop_flag M t) (io_bind (io_read clock) (\<lambda>now.
      io_bind (task_meta M t (upd now)) (\<lambda>_. io_seq (task_log M (Some t) who m level) (io_ret rep)))))
    (\<lambda>_ s. stop_flag_set (view s) \<and> truthy (dget (meta_of t (view s)) ''cancel_requested'')) (\<lambda>_. True)"
proof (rule spec_seq)
  show "io_spec (\<lambda>_. True) (set_stop_flag M t) (\<lambda>_ s. stop_flag_set (view s)) (\<lambda>_. True)"
    by (rule spec_conseq [OF flag_spec]) auto
  show "io_spec (\<lambda>s. stop_flag_set (view s)) (io_bind (io_read clock) (\<lambda>now.
      io_bind (task_meta M t (upd now)) (\<lambda>_. io_seq (task_log M (Some t) who m level) (io_ret rep))))
    (\<lambda>_ s. stop_flag_set (view s) \<and> truthy (dget (meta_of t (view s)) ''cancel_requested'')) (\<lambda>_. True)"
    by (rule spec_read, rule spec_conseq [OF mark_spec [OF assms(1,2)]]) (use assms(3) in auto)
qed

lemma cancel_spec:
  assumes "log_config_ok (m_log M)" "t \<noteq> []"
  shows "io_spec (\<lambda>_. True) (cancel_bulk_task M B clock ca slug t)
    (\<lambda>rep s. \<forall>d. rep = Reply 200 d \<longrightarrow> stop_flag_set (view s) \<and> truthy (dget (meta_of t (view s)) ''cancel_requested'')) (\<lambda>_. True)"
proof -
  have any: "io_spec (\<lambda>_. True) m (\<lambda>_ _. True) (\<lambda>_. True)" for m :: "('s, 'b) io"
    by (rule io_specI) (auto split: prod.split option.split)
  note tail = spec_conseq [OF tail_spec [OF assms]]
  show ?thesis
    unfolding cancel_bulk_task_def with_task_meta_def only_bulk_def refuse_def Let_def
    by (auto intro!: spec_if spec_ret spec_bind [OF any] tail split: option.split)
qed

lemma meta_read: "t \<noteq> [] \<Longrightarrow> fst (get_task_meta (m_client M) (m_emit M) t s) = Some (meta_of t (view s)) \<and>
    view (snd (get_task_meta (m_client M) (m_emit M) t s)) = view s"
  using io_sim_fst [OF get_meta_sim, of t s] io_sim_snd [OF get_meta_sim, of t s] get_meta_is [of t "view s"]
  by (simp add: host_client host_sink)

lemma page_refused:
  assumes "t \<noteq> []" "find (\<lambda>x. t_slug x = slug) (ca_tenants ca) = Some owner" "truthy (dget (meta_of t (view s)) ''tenant_id'')"
    "py_str (dget (meta_of t (view s)) ''tenant_id'') \<noteq> t_id owner"
  shows "\<exists>rep s'. with_task_meta M ca slug t k s = (Some rep, s') \<and> rep \<in> {Forbid, refuse 403 ''Forbidden''} \<and> view s' = view s"
proof -
  obtain meta s' where m: "get_task_meta (m_client M) (m_emit M) t s = (meta, s')" by fastforce
  with meta_read [OF assms(1), of s] have "meta = Some (meta_of t (view s))" "view s' = view s" by simp_all
  moreover have "meta_of t (view s) \<noteq> []" using assms(3) by auto
  ultimately show ?thesis using m assms(2-4) by (auto simp: with_task_meta_def io_bind_def io_ret_def)
qed

text \<open>A cancellation with no child tasks, to the end.\<close>

lemma cancel_runs:
  assumes "t \<noteq> []" "ca_super ca" "find (\<lambda>x. t_slug x = slug) (ca_tenants ca) = Some owner" "meta_of t (view s) = [(''is_bulk'', PBool True)]"
  shows "\<exists>d s'. cancel_bulk_task M B clock ca slug t s = (Some (Reply 200 d), s')"
proof -
  have bind: "io_bind m f s = (case fst (m s) of None \<Rightarrow> (None, snd (m s)) | Some a \<Rightarrow> f a (snd (m s)))"
    for m :: "('q, 'a) io" and f :: "'a \<Rightarrow> ('q, 'b) io" and s
    by (auto simp: io_bind_def split: prod.splits option.splits)
  have log: "fst (task_log M t w m l s) = Some ()" for t w m l s using unit_returns [OF log_returns [of M t w m l], of s] by auto
  have flg: "fst (set_stop_flag M t s) = Some ()" for t s
  proof -
    obtain a s1 where "set_stop_flag M t s = (a, s1)" by fastforce
    with io_specD [OF flag_spec TrueI this] show ?thesis by (cases a) auto
  qed
  have upd: "fst (task_meta M t d s) \<noteq> None" for t d s using io_totalD [OF meta_total, of t d s] by auto
  have const: "v \<noteq> None \<Longrightarrow> (case v of None \<Rightarrow> a | Some _ \<Rightarrow> b) = b" for v :: "'x option" and a b :: 'y by auto
  show ?thesis
    using meta_read [OF assms(1), of s] assms(2,3)
    by (simp add: cancel_bulk_task_def with_task_meta_def only_bulk_def assms(4) bind io_seq_def child_ids_def opt_io_def io_ret_def
        io_read_def log flg const upd)
qed

end

section \<open>Properties\<close>



text \<open>C10: A cancelled batch stops, and so does everybody's. When the page has answered that a batch is being stopped, the
  batch is marked in its record and the global stop switch is set: a task that asks whether to stop is told yes
  whatever batch it belongs to, and a pass over the schedules of all tenants queues nothing and writes nothing.\<close>

theorem cancelled_batch_stops_all_tenants:
  assumes "host R view emit M" and "log_config_ok (m_log M)" and "task_id \<noteq> []"
    and "cancel_bulk_task M B unix_time ca slug task_id s = (Some (Reply 200 d), s')" and "di_machine D = M"
  shows "truthy (dget (meta_of task_id (view s')) ''cancel_requested'') \<and> fst (should_stop_now M bulk s') = Some True \<and>
    fst (run_scheduled_backups D db s') = Some (paused_pass ''blocked_by_force_stop'', db)"
proof -
  have ok: "stop_flag_set (view s') \<and> truthy (dget (meta_of task_id (view s')) ''cancel_requested'')"
    using io_specD [OF host.cancel_spec [OF assms(1-3)] _ assms(4)] by simp
  note stops = host.flag_stops [OF assms(1) conjunct1 [OF ok]]
  have "fst (run_scheduled_backups D db s') = Some (paused_pass ''blocked_by_force_stop'', db)"
    using stops(1) by (cases "is_global_backup_stop_enabled M s'") (simp add: run_scheduled_backups_def assms(5) io_bind_def io_ret_def)
  with ok stops(2) show ?thesis by blast
qed

text \<open>C11: The pages of a batch or of a task are closed to other tenants. If the record of the task belongs to a tenant, then
  a request made for another tenant's pages (whoever makes it) is refused by each of them, and the store is as
  it was: nothing is shown, refreshed or cancelled.\<close>

theorem task_pages_isolated:
  assumes "host R view emit M" and "task_id \<noteq> []" and "find (\<lambda>x. t_slug x = slug) (ca_tenants ca) = Some owner"
    and "truthy (dget (meta_of task_id (view s)) ''tenant_id'')" and "py_str (dget (meta_of task_id (view s)) ''tenant_id'') \<noteq> t_id owner"
    and "page \<in> {task_status M B ca slug task_id, task_logs M ca slug task_id after, bulk_task_logs M ca slug task_id after,
      bulk_task_status M B due stamp url ca slug task_id, cancel_bulk_task M B clock ca slug task_id}"
  shows "\<exists>rep s'. page s = (Some rep, s') \<and> rep \<in> {Forbid, refuse 403 ''Forbidden''} \<and> view s' = view s"
proof -
  obtain k where "page = with_task_meta M ca slug task_id k"
    using assms(6) by (auto simp: task_status_def task_logs_def bulk_task_logs_def bulk_task_status_def cancel_bulk_task_def)
  then show ?thesis using host.page_refused [OF assms(1-5)] by simp
qed

section \<open>Examples\<close>

definition batch_world :: "pydict \<Rightarrow> hworld" where
  "batch_world meta = ((\<lparr>st_now = 0, st_data = [(task_meta_key ''b1'', DStr (RJson (PDict meta)), None)]\<rparr>, []), 0, [])"

lemma batch_world_meta: "meta_of ''b1'' (host_view (batch_world meta)) = meta"
  by (simp add: batch_world_def meta_of_def host_view_def st_find_def)

definition idle_backend :: "'s backend" where
  "idle_backend = \<lparr>be_state = \<lambda>c. io_ret (Some ''SUCCESS''),
     be_result = \<lambda>c. io_ret (PDict [(''total'', PInt 3), (''success'', PInt 2), (''failed'', PInt 1), (''details'', PList [])]),
     be_revoke = \<lambda>c sig. io_ret ()\<rparr>"

definition root_caller :: caller where
  "root_caller = \<lparr>ca_super = True, ca_slug = None, ca_tenants = [blank_tenant\<lparr>t_slug := ''acme''\<rparr>]\<rparr>"

abbreviation quiet_machine :: "hworld machine" where
  "quiet_machine \<equiv> sample_machine (\<lambda>_. None)"



theorem cancelled_batch_stops_all_tenants_witness:
  "\<exists>d s'. cancel_bulk_task quiet_machine idle_backend (\<lambda>_. 0) root_caller ''acme'' ''b1'' (batch_world [(''is_bulk'', PBool True)]) =
      (Some (Reply 200 d), s') \<and>
    fst (run_scheduled_backups sample_dispatcher due_db s') = Some (paused_pass ''blocked_by_force_stop'', due_db)"
proof -
  obtain d s' where run: "cancel_bulk_task quiet_machine idle_backend (\<lambda>_. 0) root_caller ''acme'' ''b1'' (batch_world [(''is_bulk'', PBool True)]) =
      (Some (Reply 200 d), s')"
    using sample.cancel_runs [of "''b1''" root_caller "''acme''" _ "batch_world [(''is_bulk'', PBool True)]"] batch_world_meta
    by (fastforce simp: root_caller_def)
  have "log_config_ok (m_log quiet_machine)" by (simp add: sample_machine_def sample_log_config_ok)
  moreover have "di_machine sample_dispatcher = quiet_machine" by (simp add: sample_dispatcher_def)
  ultimately show ?thesis using cancelled_batch_stops_all_tenants [OF sample.host_axioms _ _ run] run by blast
qed

theorem task_pages_isolated_witness:
  "\<exists>rep s'. cancel_bulk_task quiet_machine idle_backend (\<lambda>_. 0) root_caller ''acme'' ''b1'' (batch_world [(''tenant_id'', PStr ''other'')]) =
      (Some rep, s') \<and> rep \<in> {Forbid, refuse 403 ''Forbidden''} \<and> host_view s' = host_view (batch_world [(''tenant_id'', PStr ''other'')])"
  by (rule task_pages_isolated [OF sample.host_axioms])
    (auto simp: root_caller_def batch_world_meta blank_tenant_def py_str_def)

end
