(* ===== verification/Preflight.thy ===== *)
theory Preflight
  imports Phases
begin

text \<open>
  What the pages that start a batch do before they queue it (\<open>src/app/web/tenant/devices.py\<close>): which devices the last
  connection tests and a probe of the jump hosts leave out, and how the rest is put together by group and by
  phase. The probe (\<open>run_network_precheck\<close>, sockets) is an argument: it says whether the port answers and how it was
  tried, or raises. The column \<open>extra_parameters\<close> holds a JSON object or null.
\<close>

section \<open>How a device is reached\<close>

definition device_subgroup_connection_type :: "device \<Rightarrow> string" where
  "device_subgroup_connection_type d =
     (let own = (case d_subgroup d of
            None \<Rightarrow> []
          | Some sg \<Rightarrow> if sg_is_active sg then normalize_connection_type_value (PStr (sg_connection_type sg)) else []);
          extra = as_dict (d_extra_parameters d)
      in if own \<noteq> [] then own
         else if extra = [] then []
         else let conn = normalize_connection_type_value
                    (py_or (dget extra ''connection_subgroup_type'') (dget extra ''subgroup_connection_type''));
                  enabled = conn_truthy (if dhas extra ''connection_subgroup_enabled'' then dget extra ''connection_subgroup_enabled''
                    else dget extra ''subgroup_connection_enabled'')
              in if conn \<noteq> [] \<and> (enabled \<or> dhas extra ''connection_subgroup_type'' \<or> dhas extra ''subgroup_connection_type'')
                 then conn else [])"

definition by_vpn :: "(string \<Rightarrow> string option) \<Rightarrow> device \<Rightarrow> bool" where
  "by_vpn env d \<longleftrightarrow> d_group d \<noteq> None \<and> uses_vpn_tunnel env (d_group d) (Some d)"

definition by_jump :: "(string \<Rightarrow> string option) \<Rightarrow> device \<Rightarrow> bool" where
  "by_jump env d \<longleftrightarrow> d_group d \<noteq> None \<and> uses_jump_host env (d_group d) (Some d)"

definition backup_queue_for_device :: "(string \<Rightarrow> string option) \<Rightarrow> device \<Rightarrow> string" where
  "backup_queue_for_device env d = (if by_vpn env d then ''vpn_queue'' else ''celery'')"

text \<open>\<open>int(group.jump_port or 22)\<close>.\<close>

definition jump_port :: "device_group \<Rightarrow> int" where
  "jump_port g = (case g_jump_port g of None \<Rightarrow> 22 | Some p \<Rightarrow> if p = 0 then 22 else p)"

section \<open>Smoothing the queue\<close>

definition enqueue_throttle :: "(string \<Rightarrow> string option) \<Rightarrow> device \<Rightarrow> string \<times> nat" where
  "enqueue_throttle env d =
     (case d_group d of
        None \<Rightarrow> (''direct:global'', 0)
      | Some g \<Rightarrow>
          if uses_jump_host env (Some g) (Some d) \<and> or_empty (g_jump_host g) \<noteq> []
          then (''jump:'' @ py_lower (py_strip (or_empty (g_jump_host g))) @ '':'' @ show_int (jump_port g), 8)
          else (''direct:global'', 0))"

definition DIRECT_GLOBAL_BATCH_SIZE :: nat where
  "DIRECT_GLOBAL_BATCH_SIZE = 25"

definition next_countdown_for_device ::
  "(string \<Rightarrow> string option) \<Rightarrow> device \<Rightarrow> (string \<times> nat) list \<Rightarrow> nat \<times> (string \<times> nat) list" where
  "next_countdown_for_device env d counters =
     (let (key, step) = enqueue_throttle env d;
          slot = (case map_of counters key of None \<Rightarrow> 0 | Some n \<Rightarrow> n)
      in (if step > 0 then slot * step else slot div DIRECT_GLOBAL_BATCH_SIZE, AList.update key (slot + 1) counters))"

section \<open>Groups of devices for the phases\<close>

type_synonym bucket = "(string \<times> phase_item) list"

definition new_entry :: "device_group \<Rightarrow> phase_item" where
  "new_entry g = \<lparr>pi_group_id = Some (g_id g), pi_group_name = Some (g_name g), pi_device_ids = Some [], pi_force_vpn = Some False\<rparr>"

definition entry_ids :: "phase_item \<Rightarrow> string list" where
  "entry_ids e = (case pi_device_ids e of None \<Rightarrow> [] | Some ids \<Rightarrow> ids)"

definition append_group_phase_bucket :: "bucket \<Rightarrow> device \<Rightarrow> bool \<Rightarrow> bucket" where
  "append_group_phase_bucket bucket d force_vpn =
     (case d_group d of
        None \<Rightarrow> bucket
      | Some g \<Rightarrow>
          (let entry = (case map_of bucket (g_id g) of None \<Rightarrow> new_entry g | Some e \<Rightarrow> e)
           in AList.update (g_id g)
                (entry\<lparr>pi_device_ids := Some (entry_ids entry @ [d_id d]),
                   pi_force_vpn := (if force_vpn then Some True else pi_force_vpn entry)\<rparr>) bucket))"

definition finalize_group_phase_payload :: "bucket \<Rightarrow> phase_item list" where
  "finalize_group_phase_payload bucket =
     map (\<lambda>e. \<lparr>pi_group_id = Some (py_strip (or_empty (pi_group_id e))), pi_group_name = Some (py_strip (or_empty (pi_group_name e))),
            pi_device_ids = Some (sort (remdups (entry_ids e))), pi_force_vpn = Some (flag (pi_force_vpn e))\<rparr>)
       (filter (\<lambda>e. entry_ids e \<noteq> [])
          (sort_key (\<lambda>e. py_lower (or_empty (pi_group_name e))) (map snd bucket)))"

definition split_mass_backup_devices :: "device list \<Rightarrow> string set \<Rightarrow> device list \<times> device list" where
  "split_mass_backup_devices devices excluded_type_ids =
     (let left_out = (\<lambda>d. case d_type d of None \<Rightarrow> False | Some t \<Rightarrow> dt_id t \<in> excluded_type_ids)
      in (filter (\<lambda>d. \<not> left_out d) devices, filter left_out devices))"

definition value_bool :: "string option \<Rightarrow> bool \<Rightarrow> bool" where
  "value_bool value dflt = (case value of None \<Rightarrow> dflt | Some v \<Rightarrow> py_lower (py_strip v) \<in> set TRUE_WORDS)"

section \<open>The check of the last connection tests\<close>

record preflight =
  pf_enabled :: bool
  pf_include_unvalidated :: bool
  pf_skipped :: nat
  pf_audit_queued :: nat
  pf_counts :: "(string \<times> nat) list"

definition no_preflight :: preflight where
  "no_preflight = \<lparr>pf_enabled = False, pf_include_unvalidated = False, pf_skipped = 0, pf_audit_queued = 0, pf_counts = []\<rparr>"

record preflight_rules =
  pr_max_age :: int
  pr_skip_unready :: bool
  pr_require_ready :: bool
  pr_auto_audit :: bool
  pr_audit_limit :: int

definition preflight_rules :: "(string \<Rightarrow> string option) \<Rightarrow> bool \<Rightarrow> preflight_rules" where
  "preflight_rules env enqueue_audit =
     \<lparr>pr_max_age = env_int env ''BULK_PREFLIGHT_MAX_AGE_MINUTES'' 45 5 (Some 720),
      pr_skip_unready = env_flag_lower env ''BULK_PREFLIGHT_SKIP_UNREADY'' ''1'',
      pr_require_ready = env_flag_lower env ''BULK_PREFLIGHT_REQUIRE_READY'' ''0'',
      pr_auto_audit = (enqueue_audit \<and> env_flag_lower env ''BULK_PREFLIGHT_AUTO_AUDIT'' ''1''),
      pr_audit_limit = env_int env ''BULK_PREFLIGHT_AUTO_AUDIT_LIMIT'' 120 0 (Some 5000)\<rparr>"

text \<open>The class of a device: it was ready lately, or what its last test found.\<close>

definition test_class :: "int \<Rightarrow> naive \<Rightarrow> device \<Rightarrow> string" where
  "test_class max_age now d =
     (let extra = as_dict (d_extra_parameters d);
          test_group = py_lower (py_strip (str_or_empty (dget extra ''connection_test_group'')))
      in if fst (is_connection_ready_recent (PDict extra) max_age now) then ''ready''
         else if test_group \<noteq> [] then test_group else ''unknown'')"

definition ready_now :: "int \<Rightarrow> naive \<Rightarrow> device \<Rightarrow> bool" where
  "ready_now max_age now d = fst (is_connection_ready_recent (PDict (as_dict (d_extra_parameters d))) max_age now)"

definition should_skip :: "preflight_rules \<Rightarrow> bool \<Rightarrow> naive \<Rightarrow> device \<Rightarrow> bool" where
  "should_skip rules include_unvalidated now d \<longleftrightarrow>
     \<not> include_unvalidated \<and> \<not> ready_now (pr_max_age rules) now d \<and> pr_skip_unready rules \<and>
     (test_class (pr_max_age rules) now d \<in> {''no_ping'', ''ping_ok_login_fail''} \<or> pr_require_ready rules)"

definition count_class :: "string \<Rightarrow> (string \<times> nat) list \<Rightarrow> (string \<times> nat) list" where
  "count_class c counts = AList.update c (Suc (case map_of counts c of None \<Rightarrow> 0 | Some n \<Rightarrow> n)) counts"

definition count_device_metric :: "'s machine \<Rightarrow> string \<Rightarrow> string \<Rightarrow> ('s, unit) io" where
  "count_device_metric M tenant_id classification =
     tell_m M (Counter ''bulk_preflight_devices_total'' [(''tenant_id'', tenant_id), (''classification'', classification)])"

definition queue_audit :: "'s phase_env \<Rightarrow> string option \<Rightarrow> device \<Rightarrow> ('s, bool) io" where
  "queue_audit P bulk d =
     io_try (io_bind (ph_send P (to_queue (backup_queue_for_device (m_env (ph_machine P)) d) (AuditDevice (d_id d) bulk))) (\<lambda>_. io_ret True))
       (io_seq (tell_m (ph_machine P) (LogLine (''Falha ao enfileirar auditoria automatica para '' @ d_id d))) (io_ret False))"

fun preflight_devices ::
  "'s phase_env \<Rightarrow> preflight_rules \<Rightarrow> string \<Rightarrow> string option \<Rightarrow> bool \<Rightarrow> device list \<Rightarrow> device list \<times> preflight \<Rightarrow> ('s, device list \<times> preflight) io" where
  "preflight_devices P rules tenant_id bulk include_unvalidated [] acc = io_ret acc"
| "preflight_devices P rules tenant_id bulk include_unvalidated (d # ds) (allowed, pf) =
     io_bind (io_read (m_now (ph_machine P))) (\<lambda>now.
       let c = test_class (pr_max_age rules) now d;
           skip = should_skip rules include_unvalidated now d
       in io_seq (count_device_metric (ph_machine P) tenant_id c)
         (io_bind (if \<not> ready_now (pr_max_age rules) now d \<and> pr_auto_audit rules \<and> int (pf_audit_queued pf) < pr_audit_limit rules
                   then queue_audit P bulk d else io_ret False) (\<lambda>audited.
          preflight_devices P rules tenant_id bulk include_unvalidated ds
            (if skip then allowed else allowed @ [d],
             pf\<lparr>pf_skipped := pf_skipped pf + (if skip then 1 else 0), pf_audit_queued := pf_audit_queued pf + (if audited then 1 else 0),
                pf_counts := count_class c (pf_counts pf)\<rparr>))))"

definition bulk_preflight_filter_devices ::
  "'s phase_env \<Rightarrow> device list \<Rightarrow> string \<Rightarrow> string option \<Rightarrow> bool \<Rightarrow> bool \<Rightarrow> ('s, device list \<times> preflight) io" where
  "bulk_preflight_filter_devices P devices tenant_id bulk include_unvalidated enqueue_audit =
     (let env = m_env (ph_machine P)
      in if \<not> env_flag_lower env ''BULK_PREFLIGHT_ENABLED'' ''1'' then io_ret (devices, no_preflight)
         else preflight_devices P (preflight_rules env enqueue_audit) tenant_id bulk include_unvalidated devices
                ([], no_preflight\<lparr>pf_enabled := True, pf_include_unvalidated := include_unvalidated\<rparr>))"

section \<open>The probe of the jump hosts\<close>

record endpoint =
  ep_endpoint :: string
  ep_host :: string
  ep_port :: int
  ep_devices :: nat
  ep_groups :: "string list"

record unreachable =
  un_endpoint :: string
  un_devices :: nat
  un_groups :: "string list"
  un_method :: string

record jump_preflight =
  jp_enabled :: bool
  jp_checked :: nat
  jp_total :: nat
  jp_truncated :: bool
  jp_skipped :: nat
  jp_unreachable :: "unreachable list"

definition no_jump_preflight :: jump_preflight where
  "no_jump_preflight = \<lparr>jp_enabled = False, jp_checked = 0, jp_total = 0, jp_truncated = False, jp_skipped = 0, jp_unreachable = []\<rparr>"

text \<open>\<open>_device_jump_endpoint\<close>: \<^const>\<open>None\<close> is the empty key of a device that needs no jump host.\<close>

definition device_jump_endpoint :: "(string \<Rightarrow> string option) \<Rightarrow> device \<Rightarrow> (string \<times> string \<times> int) option" where
  "device_jump_endpoint env d =
     (case d_group d of
        None \<Rightarrow> None
      | Some g \<Rightarrow>
          if \<not> uses_jump_host env (Some g) (Some d) then None
          else (let host = py_strip (or_empty (g_jump_host g)); port = jump_port g
                in Some (if host \<noteq> [] then host @ '':'' @ show_int port else ''missing:'' @ g_id g, host, port)))"

definition group_label :: "device \<Rightarrow> string" where
  "group_label d =
     (let name = (case d_group d of None \<Rightarrow> [] | Some g \<Rightarrow> py_strip (g_name g)) in if name \<noteq> [] then name else ''Sem grupo'')"

definition new_endpoint :: "string \<Rightarrow> int \<Rightarrow> endpoint" where
  "new_endpoint host port =
     \<lparr>ep_endpoint = (if host \<noteq> [] then host @ '':'' @ show_int port else ''jump_host_sem_config''), ep_host = host, ep_port = port,
      ep_devices = 0, ep_groups = []\<rparr>"

fun endpoint_map :: "(string \<Rightarrow> string option) \<Rightarrow> device list \<Rightarrow> (string \<times> endpoint) list \<Rightarrow> (string \<times> endpoint) list" where
  "endpoint_map env [] m = m"
| "endpoint_map env (d # ds) m =
     (case device_jump_endpoint env d of
        None \<Rightarrow> endpoint_map env ds m
      | Some (key, host, port) \<Rightarrow>
          (let e = (case map_of m key of None \<Rightarrow> new_endpoint host port | Some e \<Rightarrow> e)
           in endpoint_map env ds (AList.update key
                (e\<lparr>ep_devices := Suc (ep_devices e), ep_groups := List.insert (group_label d) (ep_groups e)\<rparr>) m)))"

definition unreachable_of :: "endpoint \<Rightarrow> string \<Rightarrow> unreachable" where
  "unreachable_of e m = \<lparr>un_endpoint = ep_endpoint e, un_devices = ep_devices e, un_groups = sort (ep_groups e), un_method = m\<rparr>"

text \<open>\<open>probe\<close> is called with the host, the port and the seconds to wait.\<close>

fun probe_endpoints ::
  "(string \<Rightarrow> int \<Rightarrow> int \<Rightarrow> ('s, bool \<times> string) io) \<Rightarrow> int \<Rightarrow> (string \<times> endpoint) list \<Rightarrow> string list \<times> unreachable list \<Rightarrow>
   ('s, string list \<times> unreachable list) io" where
  "probe_endpoints probe timeout [] acc = io_ret acc"
| "probe_endpoints probe timeout ((key, e) # es) (bad, rows) =
     (if py_strip (ep_host e) = [] then probe_endpoints probe timeout es (bad @ [key], rows @ [unreachable_of e ''missing_jump_host''])
      else io_bind (io_attempt (probe (py_strip (ep_host e)) (if ep_port e = 0 then 22 else ep_port e) timeout)) (\<lambda>r.
        let (ok, how) = (case r of None \<Rightarrow> (False, ''exception'') | Some (ok, m) \<Rightarrow> (ok, if m = [] then ''direct'' else m))
        in probe_endpoints probe timeout es
             (if ok then (bad, rows) else (bad @ [key], rows @ [unreachable_of e how]))))"

text \<open>Endpoints over the limit count as reachable.\<close>

fun pass_reachable ::
  "'s machine \<Rightarrow> string \<Rightarrow> bool \<Rightarrow> string list \<Rightarrow> device list \<Rightarrow> device list \<times> nat \<Rightarrow> ('s, device list \<times> nat) io" where
  "pass_reachable M tenant_id skip_unreachable bad [] acc = io_ret acc"
| "pass_reachable M tenant_id skip_unreachable bad (d # ds) (allowed, skipped) =
     (case device_jump_endpoint (m_env M) d of
        None \<Rightarrow> pass_reachable M tenant_id skip_unreachable bad ds (allowed @ [d], skipped)
      | Some (key, host, port) \<Rightarrow>
          io_seq (count_device_metric M tenant_id (if key \<in> set bad then ''jump_host_unreachable'' else ''jump_host_ready''))
            (pass_reachable M tenant_id skip_unreachable bad ds
               (if key \<in> set bad \<and> skip_unreachable then (allowed, Suc skipped) else (allowed @ [d], skipped))))"

definition bulk_preflight_jump_hosts ::
  "'s machine \<Rightarrow> (string \<Rightarrow> int \<Rightarrow> int \<Rightarrow> ('s, bool \<times> string) io) \<Rightarrow> device list \<Rightarrow> string \<Rightarrow> ('s, device list \<times> jump_preflight) io" where
  "bulk_preflight_jump_hosts M probe devices tenant_id =
     (let env = m_env M
      in if \<not> env_flag_lower env ''BULK_PREFLIGHT_JUMP_ENABLED'' ''1'' then io_ret (devices, no_jump_preflight)
         else let timeout = env_int env ''BULK_PREFLIGHT_JUMP_TIMEOUT_SECONDS'' 3 1 (Some 15);
                  skip_unreachable = env_flag_lower env ''BULK_PREFLIGHT_SKIP_UNREACHABLE'' ''1'';
                  max_endpoints = env_int env ''BULK_PREFLIGHT_JUMP_MAX_ENDPOINTS'' 30 1 (Some 500);
                  endpoints = endpoint_map env devices []
              in if endpoints = [] then io_ret (devices, no_jump_preflight\<lparr>jp_enabled := True\<rparr>)
                 else let ordered = sort_key (\<lambda>(_, e). - int (ep_devices e)) endpoints;
                          probed = take (nat max_endpoints) ordered
                      in io_bind (probe_endpoints probe timeout probed ([], [])) (\<lambda>(bad, rows).
                         io_bind (pass_reachable M tenant_id skip_unreachable bad devices ([], 0)) (\<lambda>(allowed, skipped).
                         io_ret (allowed,
                           \<lparr>jp_enabled = True, jp_checked = length probed, jp_total = length ordered,
                            jp_truncated = (length probed < length ordered), jp_skipped = skipped, jp_unreachable = rows\<rparr>))))"

definition format_jump_unreachable_summary :: "jump_preflight \<Rightarrow> string" where
  "format_jump_unreachable_summary jp =
     (let rows = jp_unreachable jp; limit = 3;
          part = (\<lambda>r. (if un_endpoint r \<noteq> [] then un_endpoint r else ''desconhecido'') @ '' ('' @ show_int (int (un_devices r)) @ '' disp.'' @
             (if py_strip (un_method r) \<noteq> [] then '' via '' @ py_strip (un_method r) else []) @ '')'');
          parts = map part (take limit rows);
          more = (if length rows > length parts then [CHR ''+'' # show_int (int (length rows - length parts)) @ '' endpoint(s)''] else [])
      in join_str ''; '' (parts @ more))"

end
