(* ===== verification/Launch.thy ===== *)
theory Launch
  imports Preflight BatchStatus
begin

text \<open>
  The page that starts a batch for all devices, a group or a subgroup (\<open>run_backup_all\<close> in
  \<open>src/app/web/tenant/devices.py\<close>), and what it shares with the pages for selected devices and for failed ones
  (\<open>LaunchMore\<close>).

  The broker takes a message (\<open>ph_send\<close>), the messages of a phase with the arguments of its callback (\<open>ln_chord\<close>), or
  the callback alone (\<open>ln_start\<close>). The activity log (\<open>ln_activity\<close>, a row of the database) may raise. Addresses
  (\<open>url_for\<close>) are \<open>ln_url\<close>. The identifiers of \<open>uuid4\<close> are \<open>ph_fresh\<close>: the first one names the batch.
\<close>

section \<open>Requests and replies\<close>

record 's launcher =
  ln_phase :: "'s phase_env"
  ln_chord :: "message list \<Rightarrow> phase_item list \<Rightarrow> vpn_phase \<Rightarrow> ('s, unit) io"
  ln_start :: "phase_item list \<Rightarrow> vpn_phase \<Rightarrow> ('s, unit) io"
  ln_probe :: "string \<Rightarrow> int \<Rightarrow> int \<Rightarrow> ('s, bool \<times> string) io"
  ln_activity :: "string \<Rightarrow> string \<Rightarrow> string \<Rightarrow> ('s, unit) io"
  ln_url :: "string \<Rightarrow> string \<Rightarrow> string \<Rightarrow> string"

record launch_db =
  ld_devices :: "device list"
  ld_types :: "device_type list"
  ld_groups :: "device_group list"
  ld_backups :: "backup list"

record launch_form =
  lf_requested_with :: "string option"
  lf_accept :: "string option"
  lf_group_id :: "string option"
  lf_arg_group_id :: "string option"
  lf_arg_return_group_id :: "string option"
  lf_subgroup :: "string option"
  lf_arg_subgroup :: "string option"
  lf_include_unvalidated :: "string option"
  lf_include_unscheduled :: "string option"
  lf_device_ids :: "string list"
  lf_scope :: "string option"
  lf_transient_only :: "string option"

datatype target = DevicesPage "string option" "string option" | SchedulesPage

type_synonym flash = "string \<times> string"

datatype page = Denied | Plain int string | Json int pydict | Redirect "flash list" target

definition is_ajax :: "launch_form \<Rightarrow> bool" where
  "is_ajax f \<longleftrightarrow> lf_requested_with f = Some ''XMLHttpRequest'' \<or> py_in ''application/json'' (or_empty (lf_accept f))"

definition with_launch_tenant :: "caller \<Rightarrow> string \<Rightarrow> (tenant \<Rightarrow> ('s, page) io) \<Rightarrow> ('s, page) io" where
  "with_launch_tenant ca slug k =
     (if \<not> ca_super ca \<and> ca_slug ca \<noteq> Some slug then io_ret Denied
      else case find (\<lambda>t. t_slug t = slug) (ca_tenants ca) of
        None \<Rightarrow> io_ret (Plain 404 ''Tenant not found'')
      | Some t \<Rightarrow> k t)"

definition clear_global_force_stop_flag :: "'s machine \<Rightarrow> ('s, bool) io" where
  "clear_global_force_stop_flag M =
     (case m_client M of
        None \<Rightarrow> io_ret False
      | Some R \<Rightarrow> io_try
          (io_bind (r_get R STOP_KEY) (\<lambda>v.
             if py_strip (case v of None \<Rightarrow> [] | Some x \<Rightarrow> rv_text x) = ''1''
             then io_seq (r_delete R [STOP_KEY])
                    (io_seq (tell_m M (LogLine ''Flag global de stop removida para novo backup manual.'')) (io_ret True))
             else io_ret False))
          (io_seq (tell_m M (LogLine ''Falha ao limpar flag global de stop'')) (io_ret False)))"

section \<open>The devices in scope\<close>

datatype subgroup_filter = AnySubgroup | NoSubgroup | Subgroup string

text \<open>The filter, and the text kept for the address of the page.\<close>

definition read_subgroup :: "string option \<Rightarrow> string option \<Rightarrow> subgroup_filter \<times> string" where
  "read_subgroup form arg =
     (let raw = py_strip (if or_empty form \<noteq> [] then or_empty form else or_empty arg)
      in if raw = [] then (AnySubgroup, [])
         else if py_lower raw \<in> {''none'', ''__none__''} then (NoSubgroup, ''none'')
         else case parse_uuid raw of None \<Rightarrow> (AnySubgroup, []) | Some u \<Rightarrow> (Subgroup u, raw))"

definition in_subgroup :: "subgroup_filter \<Rightarrow> device \<Rightarrow> bool" where
  "in_subgroup fil d =
     (case fil of AnySubgroup \<Rightarrow> True | NoSubgroup \<Rightarrow> d_subgroup d = None | Subgroup u \<Rightarrow> map_option sg_id (d_subgroup d) = Some u)"

definition in_active_group :: "device \<Rightarrow> bool" where
  "in_active_group d = (case d_group d of None \<Rightarrow> True | Some g \<Rightarrow> flag (g_is_active g))"

definition in_group :: "string option \<Rightarrow> device \<Rightarrow> bool" where
  "in_group raw d =
     (case parse_uuid (or_empty raw) of None \<Rightarrow> True | Some u \<Rightarrow> map_option g_id (d_group d) = Some u)"

definition devices_in_scope :: "launch_db \<Rightarrow> launch_form \<Rightarrow> string \<Rightarrow> device list" where
  "devices_in_scope db f tenant_id =
     filter (\<lambda>d. d_tenant_id d = tenant_id \<and> d_is_active d \<noteq> Some False \<and> in_active_group d \<and>
         (value_bool (lf_include_unscheduled f) True \<or> flag (d_backup_scheduled d)) \<and>
         in_group (lf_group_id f) d \<and> in_subgroup (fst (read_subgroup (lf_subgroup f) (lf_arg_subgroup f))) d)
       (ld_devices db)"

section \<open>The phases of a batch\<close>

record batch_plan =
  bp_direct :: "phase_item list"
  bp_single :: "device list"
  bp_jump :: "phase_item list"
  bp_vpn :: "phase_item list"

record buckets =
  bu_direct :: bucket
  bu_single :: "device list"
  bu_jump :: bucket
  bu_vpn :: bucket

definition force_vpn_subgroup :: "(string \<Rightarrow> string option) \<Rightarrow> device \<Rightarrow> bool" where
  "force_vpn_subgroup env d \<longleftrightarrow>
     device_subgroup_connection_type d = ''vpn'' \<and> d_group d \<noteq> None \<and> \<not> uses_vpn_tunnel env (d_group d) None"

text \<open>With a group given, devices reached directly stay by themselves.\<close>

definition place_device :: "(string \<Rightarrow> string option) \<Rightarrow> bool \<Rightarrow> device \<Rightarrow> buckets \<Rightarrow> buckets" where
  "place_device env single_group_mode d b =
     (if by_vpn env d then b\<lparr>bu_vpn := append_group_phase_bucket (bu_vpn b) d (force_vpn_subgroup env d)\<rparr>
      else if by_jump env d then b\<lparr>bu_jump := append_group_phase_bucket (bu_jump b) d False\<rparr>
      else if single_group_mode \<or> d_group d = None then b\<lparr>bu_single := bu_single b @ [d]\<rparr>
      else b\<lparr>bu_direct := append_group_phase_bucket (bu_direct b) d False\<rparr>)"

definition plan_batch :: "(string \<Rightarrow> string option) \<Rightarrow> bool \<Rightarrow> device list \<Rightarrow> batch_plan" where
  "plan_batch env single_group_mode ds =
     (let b = fold (place_device env single_group_mode) ds \<lparr>bu_direct = [], bu_single = [], bu_jump = [], bu_vpn = []\<rparr>
      in \<lparr>bp_direct = finalize_group_phase_payload (bu_direct b), bp_single = bu_single b,
          bp_jump = finalize_group_phase_payload (bu_jump b), bp_vpn = finalize_group_phase_payload (bu_vpn b)\<rparr>)"

definition item_count :: "phase_item list \<Rightarrow> nat" where
  "item_count items = sum_list (map (length \<circ> entry_ids) items)"

definition queued_direct :: "batch_plan \<Rightarrow> nat" where
  "queued_direct p = item_count (bp_direct p) + length (bp_single p)"

section \<open>The messages of the first phase\<close>

definition register_child :: "'s machine \<Rightarrow> string \<Rightarrow> string option \<Rightarrow> string option \<Rightarrow> string \<Rightarrow> string option \<Rightarrow> ('s, unit) io" where
  "register_child M tenant_id task_id device_id name group_id =
     (case task_id of
        None \<Rightarrow> io_ret ()
      | Some tid \<Rightarrow> io_bind (io_read (m_now M)) (\<lambda>now.
          register_task (m_log M) (m_client M) (m_emit M) now tid tenant_id device_id (Some name) group_id))"

definition group_signature :: "string \<Rightarrow> string option \<Rightarrow> string option \<Rightarrow> phase_item \<Rightarrow> message" where
  "group_signature tenant_id bulk task_id item =
     \<lparr>mg_order = RunGroup \<lparr>go_group = or_empty (pi_group_id item), go_tenant = tenant_id, go_devices = entry_ids item,
        go_bulk = bulk, go_force_vpn = None\<rparr>,
      mg_queue = ''celery'', mg_task_id = task_id, mg_countdown = 0\<rparr>"

definition direct_group_name :: "phase_item \<Rightarrow> string" where
  "direct_group_name item =
     ''Grupo Direto '' @ (if or_empty (pi_group_name item) \<noteq> [] then or_empty (pi_group_name item) else or_empty (pi_group_id item))"

text \<open>Without a batch (\<open>bulk\<close>) the tasks get no identifier and are not registered. \<open>n\<close> identifiers have been drawn.\<close>

fun group_signatures ::
  "'s phase_env \<Rightarrow> string \<Rightarrow> string option \<Rightarrow> nat \<Rightarrow> phase_item list \<Rightarrow> message list \<Rightarrow> ('s, message list) io" where
  "group_signatures P tenant_id bulk n [] sigs = io_ret sigs"
| "group_signatures P tenant_id bulk n (item # items) sigs =
     (let task_id = map_option (\<lambda>_. ph_fresh P n) bulk
      in io_seq (register_child (ph_machine P) tenant_id task_id None (direct_group_name item) (pi_group_id item))
           (group_signatures P tenant_id bulk (Suc n) items (sigs @ [group_signature tenant_id bulk task_id item])))"

definition device_signature :: "(string \<Rightarrow> string option) \<Rightarrow> string option \<Rightarrow> string option \<Rightarrow> nat \<Rightarrow> device \<Rightarrow> message" where
  "device_signature env bulk task_id countdown d =
     \<lparr>mg_order = RunDevice (d_id d) bulk, mg_queue = backup_queue_for_device env d, mg_task_id = task_id,
      mg_countdown = (if bulk = None then 0 else int countdown)\<rparr>"

fun device_signatures ::
  "'s phase_env \<Rightarrow> string \<Rightarrow> string option \<Rightarrow> nat \<Rightarrow> (string \<times> nat) list \<Rightarrow> device list \<Rightarrow> message list \<Rightarrow> ('s, message list) io" where
  "device_signatures P tenant_id bulk n counters [] sigs = io_ret sigs"
| "device_signatures P tenant_id bulk n counters (d # ds) sigs =
     (let env = m_env (ph_machine P); task_id = map_option (\<lambda>_. ph_fresh P n) bulk;
          (countdown, counters') = next_countdown_for_device env d counters
      in io_seq (register_child (ph_machine P) tenant_id task_id (Some (d_id d)) (d_name d) None)
           (device_signatures P tenant_id bulk (Suc n) counters' ds (sigs @ [device_signature env bulk task_id countdown d])))"

definition batch_signatures :: "'s phase_env \<Rightarrow> string \<Rightarrow> string option \<Rightarrow> batch_plan \<Rightarrow> ('s, message list) io" where
  "batch_signatures P tenant_id bulk p =
     io_bind (group_signatures P tenant_id bulk 1 (bp_direct p) []) (\<lambda>sigs.
       device_signatures P tenant_id bulk (1 + length (bp_direct p)) [] (bp_single p) sigs)"

section \<open>Starting the phases\<close>

definition phases_text :: "batch_plan \<Rightarrow> string" where
  "phases_text p =
     ''Fase 1 (direto) enfileirada: '' @ show_int (int (queued_direct p)) @ '' dispositivos. Fase 2 (jump host): '' @
     show_int (int (length (bp_jump p))) @ '' grupo(s). Fase 3 (VPN): '' @ show_int (int (length (bp_vpn p))) @ '' grupo(s) apos fase 2.''"

definition no_direct_text :: "batch_plan \<Rightarrow> string" where
  "no_direct_text p =
     ''Sem fase direta. Iniciando fase 2 (jump host: '' @ show_int (int (length (bp_jump p))) @ '' grupo(s)) e fase 3 (VPN: '' @
     show_int (int (length (bp_vpn p))) @ '' grupo(s)) em sequencia.''"

definition launch_log :: "'s machine \<Rightarrow> string option \<Rightarrow> string \<Rightarrow> string \<Rightarrow> string \<Rightarrow> ('s, unit) io" where
  "launch_log M bulk who line level = (if bulk = None then io_ret () else task_log M bulk who line level)"

text \<open>\<open>phased_deferred\<close>: something is left for the later phases.\<close>

definition start_phases :: "'s launcher \<Rightarrow> string \<Rightarrow> string option \<Rightarrow> message list \<Rightarrow> batch_plan \<Rightarrow> (string \<Rightarrow> ('s, unit) io) \<Rightarrow> ('s, bool) io" where
  "start_phases L tenant_id bulk sigs p note =
     (let c = \<lparr>vp_tenant = tenant_id, vp_groups = map Some (bp_vpn p), vp_bulk = bulk\<rparr>
      in if sigs \<noteq> [] \<and> (bp_jump p \<noteq> [] \<or> bp_vpn p \<noteq> [])
         then io_seq (ln_chord L sigs (bp_jump p) c) (io_seq (note (phases_text p)) (io_ret True))
         else if sigs \<noteq> [] then io_seq (send_all (ph_send (ln_phase L)) sigs) (io_ret False)
         else if bp_jump p \<noteq> [] \<or> bp_vpn p \<noteq> []
         then io_seq (ln_start L (bp_jump p) c) (io_seq (note (no_direct_text p)) (io_ret True))
         else io_ret False)"

section \<open>The record of the batch\<close>

text \<open>\<open>dict(value or {})\<close>; a list of pairs is not read.\<close>

definition dict_or :: "pyval \<Rightarrow> pydict option" where
  "dict_or v = (if \<not> truthy v then Some [] else case v of PDict d \<Rightarrow> Some d | _ \<Rightarrow> None)"

definition merge_children :: "pydict \<Rightarrow> (string \<times> nat) list \<Rightarrow> nat \<Rightarrow> (string list \<times> pydict \<times> int) option" where
  "merge_children current children total_tasks =
     do {
       old \<leftarrow> child_ids (dget current ''child_task_ids'');
       counts \<leftarrow> dict_or (dget current ''child_task_device_count'');
       tot \<leftarrow> int_or_zero (dget current ''total_tasks'');
       let merged = from_keys (filter (\<lambda>t. t \<noteq> []) (map fst children) @ old);
       Some (merged, device_counts (PDict counts) children, max (max (int total_tasks) tot) (int (length merged)))
     }"

definition merge_existing_bulk_children ::
  "'s machine \<Rightarrow> string \<Rightarrow> (string \<times> nat) list \<Rightarrow> nat \<Rightarrow> ('s, string list \<times> pydict \<times> int) io" where
  "merge_existing_bulk_children M bulk children total_tasks =
     io_bind (get_task_meta (m_client M) (m_emit M) bulk) (\<lambda>current. opt_io (merge_children current children total_tasks))"

definition reserve_bulk :: "'s machine \<Rightarrow> string \<Rightarrow> string \<Rightarrow> ('s, page option) io" where
  "reserve_bulk M tenant_id bulk =
     io_bind (acquire_tenant_bulk_lock (m_log M) (m_client M) (m_emit M) tenant_id bulk) (\<lambda>(ok, existing).
       io_ret (if ok then None else Some (Json 409 [(''ok'', PBool False),
         (''error'', PStr (''Ja existe um lote de backup em andamento para este tenant. '' @
            ''Aguarde finalizar ou use Parar lote/Parar todos antes de iniciar outro.'')),
         (''active_task_id'', opt_str existing)])))"

definition unreachable_row :: "unreachable \<Rightarrow> pyval" where
  "unreachable_row u = PDict [(''endpoint'', PStr (un_endpoint u)), (''devices'', PInt (int (un_devices u))),
     (''groups'', PList (map PStr (un_groups u))), (''tcp_method'', PStr (un_method u))]"

definition preflight_fields :: "bool \<Rightarrow> nat \<Rightarrow> preflight \<Rightarrow> jump_preflight \<Rightarrow> pydict" where
  "preflight_fields tell_unvalidated excluded pf jp =
     [(''skipped_not_ready'', PInt (int (pf_skipped pf))), (''skipped_jump_unreachable'', PInt (int (jp_skipped jp))),
      (''skipped_mass_excluded'', PInt (int excluded)), (''preflight_enabled'', PBool (pf_enabled pf))] @
     (if tell_unvalidated then [(''preflight_include_unvalidated'', PBool (pf_include_unvalidated pf))] else []) @
     [(''preflight_audit_queued'', PInt (int (pf_audit_queued pf))),
      (''preflight_counts'', PDict (map (\<lambda>(k, n). (k, PInt (int n))) (pf_counts pf))),
      (''jump_preflight_enabled'', PBool (jp_enabled jp)), (''jump_preflight_checked_endpoints'', PInt (int (jp_checked jp))),
      (''jump_preflight_total_endpoints'', PInt (int (jp_total jp))), (''jump_preflight_probe_truncated'', PBool (jp_truncated jp)),
      (''jump_preflight_unreachable_endpoints'', PList (map unreachable_row (jp_unreachable jp)))]"

text \<open>The counters of a batch that starts.\<close>

definition fresh_counters :: "string \<Rightarrow> string \<Rightarrow> nat \<Rightarrow> pydict \<Rightarrow> int \<Rightarrow> string list \<Rightarrow> pydict \<Rightarrow> pyval \<Rightarrow> pydict" where
  "fresh_counters kind message devices queued total_tasks ids counts groups =
     [(''is_bulk'', PBool True), (''operation_kind'', PStr kind), (''status'', PStr ''running''), (''progress'', PInt 5),
      (''completed'', PBool False), (''cancel_requested'', PBool False), (''message'', PStr message),
      (''total_devices'', PInt (int devices))] @ queued @
     [(''total_tasks'', PInt total_tasks), (''done_tasks'', PInt 0), (''success_tasks'', PInt 0), (''failed_tasks'', PInt 0),
      (''running_tasks'', PInt 0), (''queued_tasks'', PInt total_tasks), (''child_task_ids'', PList (map PStr ids)),
      (''child_task_device_count'', PDict counts), (''finished_task_ids'', PList []), (''group_summary'', groups)]"

definition queued_fields :: "batch_plan \<Rightarrow> pydict" where
  "queued_fields p =
     [(''queued_direct'', PInt (int (queued_direct p))), (''queued_jump'', PInt (int (item_count (bp_jump p)))),
      (''queued_jump_groups'', PInt (int (length (bp_jump p)))), (''queued_vpn_groups'', PInt (int (length (bp_vpn p))))]"

definition pending_groups :: "bool \<Rightarrow> batch_plan \<Rightarrow> nat" where
  "pending_groups deferred p = (if deferred then length (bp_jump p) + length (bp_vpn p) else 0)"

definition batch_links :: "'s launcher \<Rightarrow> string \<Rightarrow> string \<Rightarrow> pydict" where
  "batch_links L slug bulk =
     [(''status_url'', PStr (ln_url L ''tenant_backups.bulk_task_status'' slug bulk)),
      (''logs_url'', PStr (ln_url L ''tenant_backups.bulk_task_logs'' slug bulk)),
      (''cancel_url'', PStr (ln_url L ''tenant_backups.cancel_bulk_task'' slug bulk))]"

section \<open>Texts\<close>

definition num :: "nat \<Rightarrow> string" where
  "num n = show_int (int n)"

definition EXCLUDED_LABEL :: string where
  "EXCLUDED_LABEL = ''Grafana/Zabbix''"

definition skip_notes :: "nat \<Rightarrow> preflight \<Rightarrow> jump_preflight \<Rightarrow> string \<Rightarrow> flash list" where
  "skip_notes excluded pf jp flow =
     (if excluded > 0 then [(num excluded @ '' dispositivo(s) '' @ EXCLUDED_LABEL @ '' foram ignorados no '' @ flow @ ''.'', ''warning'')] else []) @
     (if pf_skipped pf > 0
      then [(num (pf_skipped pf) @ '' dispositivo(s) foram ignorados no preflight de conectividade (audit_queued='' @
             num (pf_audit_queued pf) @ '').'', ''warning'')] else []) @
     (if jp_skipped jp > 0
      then [(num (jp_skipped jp) @ '' dispositivo(s) foram ignorados por indisponibilidade de Jump Host ('' @
             format_jump_unreachable_summary jp @ '').'', ''warning'')] else [])"

definition excluded_log :: "'s machine \<Rightarrow> string option \<Rightarrow> string \<Rightarrow> nat \<Rightarrow> string \<Rightarrow> ('s, unit) io" where
  "excluded_log M bulk who excluded flow =
     (if excluded > 0
      then launch_log M bulk who (num excluded @ '' dispositivo(s) de tipo '' @ EXCLUDED_LABEL @ '' foram ignorados no '' @ flow @ ''.'') ''warning''
      else io_ret ())"

definition preflight_log :: "'s machine \<Rightarrow> string option \<Rightarrow> string \<Rightarrow> bool \<Rightarrow> preflight \<Rightarrow> ('s, unit) io" where
  "preflight_log M bulk who include_unvalidated pf =
     (if pf_skipped pf > 0
      then launch_log M bulk who (''Preflight: '' @ num (pf_skipped pf) @ '' dispositivo(s) ignorados por conectividade (audit_queued='' @
             num (pf_audit_queued pf) @ '').'') ''warning''
      else if include_unvalidated
      then launch_log M bulk who (''Preflight em modo informativo (include_unvalidated=1): '' @
             ''nenhum dispositivo foi excluido por conectividade.'') ''info''
      else io_ret ())"

definition jump_preflight_log :: "'s machine \<Rightarrow> string option \<Rightarrow> string \<Rightarrow> jump_preflight \<Rightarrow> ('s, unit) io" where
  "jump_preflight_log M bulk who jp =
     (if jp_skipped jp > 0
      then launch_log M bulk who (''Preflight Jump Host: '' @ num (jp_skipped jp) @
             '' dispositivo(s) ignorados por indisponibilidade de bastion ('' @ format_jump_unreachable_summary jp @ '').'') ''warning''
      else io_ret ())"

section \<open>All devices, a group or a subgroup\<close>

record group_row =
  gr_name :: string
  gr_mode :: string
  gr_devices :: nat

definition add_summary :: "(string \<Rightarrow> string option) \<Rightarrow> device \<Rightarrow> (string \<times> group_row) list \<Rightarrow> (string \<times> group_row) list" where
  "add_summary env d rows =
     (let name = (case d_group d of None \<Rightarrow> ''Sem grupo'' | Some g \<Rightarrow> g_name g);
          mode = (if d_group d = None then ''direct'' else get_effective_connection_type env (d_group d) (Some d));
          row = (case map_of rows name of None \<Rightarrow> \<lparr>gr_name = name, gr_mode = (if mode = [] then ''direct'' else mode), gr_devices = 0\<rparr>
                 | Some r \<Rightarrow> r)
      in AList.update name (row\<lparr>gr_devices := Suc (gr_devices row)\<rparr>) rows)"

text \<open>Sorted by the number of devices, most first, and then by the name: two stable sorts.\<close>

definition summary_rows :: "(string \<Rightarrow> string option) \<Rightarrow> device list \<Rightarrow> pyval" where
  "summary_rows env ds =
     PList (map (\<lambda>r. PDict [(''group_name'', PStr (gr_name r)), (''connection_mode'', PStr (gr_mode r)), (''devices'', PInt (int (gr_devices r)))])
       (sort_key (\<lambda>r. - int (gr_devices r)) (sort_key (\<lambda>r. py_lower (gr_name r)) (map snd (fold (add_summary env) ds [])))))"

definition preflights ::
  "'s launcher \<Rightarrow> device list \<Rightarrow> string \<Rightarrow> string option \<Rightarrow> bool \<Rightarrow> ('s, device list \<times> preflight \<times> jump_preflight) io" where
  "preflights L ds tenant_id bulk include_unvalidated =
     io_bind (bulk_preflight_filter_devices (ln_phase L) ds tenant_id bulk include_unvalidated False) (\<lambda>(ds1, pf).
     io_bind (bulk_preflight_jump_hosts (ph_machine (ln_phase L)) (ln_probe L) ds1 tenant_id) (\<lambda>(ds2, jp).
     io_ret (ds2, pf, jp)))"

definition count_subgroups :: "device list \<Rightarrow> nat" where
  "count_subgroups ds = length (filter (\<lambda>d. device_subgroup_connection_type d \<noteq> []) ds)"

definition MASS :: string where
  "MASS = ''Backup em massa''"

definition nothing_to_run :: "launch_form \<Rightarrow> preflight \<Rightarrow> jump_preflight \<Rightarrow> page" where
  "nothing_to_run f pf jp =
     (let label = (if value_bool (lf_include_unscheduled f) True then ''ativos'' else ''agendados'');
          msg = ''Nenhum dispositivo '' @ label @ '' elegivel para backup em massa ('' @ EXCLUDED_LABEL @ '' sao ignorados nesse fluxo).'' @
            (if pf_skipped pf > 0 then CHR '' '' # num (pf_skipped pf) @ '' dispositivo(s) foram ignorados no preflight de conectividade.'' else []) @
            (if jp_skipped jp > 0 then CHR '' '' # num (jp_skipped jp) @ '' dispositivo(s) foram ignorados por indisponibilidade de Jump Host ('' @
               format_jump_unreachable_summary jp @ '').'' else []);
          sub = snd (read_subgroup (lf_subgroup f) (lf_arg_subgroup f))
      in if is_ajax f then Json 400 [(''ok'', PBool False), (''error'', PStr msg)]
         else Redirect [(msg, ''warning'')] (DevicesPage (lf_group_id f) (if sub = [] then None else Some sub)))"

definition announce_all ::
  "'s machine \<Rightarrow> launch_form \<Rightarrow> string \<Rightarrow> string option \<Rightarrow> bool \<Rightarrow> nat \<Rightarrow> nat \<Rightarrow> preflight \<Rightarrow> jump_preflight \<Rightarrow> ('s, unit) io" where
  "announce_all M f tenant_id bulk cleared devices excluded pf jp =
     (if bulk = None then io_ret ()
      else io_seq (register_child M tenant_id bulk None MASS (if or_empty (lf_group_id f) = [] then None else lf_group_id f))
          (io_seq (if cleared
             then io_seq (launch_log M bulk MASS ''Bloqueio global anterior removido automaticamente para iniciar novo lote.'' ''warning'')
                (launch_log M bulk MASS (''Iniciando enfileiramento para '' @ num devices @ '' dispositivos agendados (elegiveis).'') ''info'')
             else io_ret ())
          (io_seq (excluded_log M bulk MASS excluded ''backup em massa'')
          (io_seq (launch_log M bulk MASS (''Escopo da execucao: '' @ (if value_bool (lf_include_unscheduled f) True
                then ''todos os dispositivos ativos do contexto atual.'' else ''somente dispositivos com agendamento ativo.'')) ''info'')
          (io_seq (preflight_log M bulk MASS (value_bool (lf_include_unvalidated f) False) pf)
            (jump_preflight_log M bulk MASS jp))))))"

definition all_activity :: "batch_plan \<Rightarrow> nat \<Rightarrow> nat \<Rightarrow> bool \<Rightarrow> preflight \<Rightarrow> jump_preflight \<Rightarrow> string" where
  "all_activity p devices subgroup deferred pf jp =
     ''Bulk backup queued: direto='' @ num (queued_direct p) @ '' jump='' @ num (item_count (bp_jump p)) @
     '' jump_groups='' @ num (length (bp_jump p)) @ '' vpn_groups='' @ num (length (bp_vpn p)) @ '' ('' @ num devices @ '' total). subgrupo_conexao='' @
     num subgroup @ '' phased_deferred='' @ (if deferred then ''yes'' else ''no'') @ '' preflight_skipped='' @ num (pf_skipped pf) @
     '' preflight_jump_unreachable='' @ num (jp_skipped jp) @ '' preflight_audit_queued='' @ num (pf_audit_queued pf)"

definition all_done_text :: "bool \<Rightarrow> batch_plan \<Rightarrow> bool \<Rightarrow> nat \<Rightarrow> string" where
  "all_done_text single_group_mode p deferred children =
     (let vpn_devices = item_count (bp_vpn p)
      in if deferred then ''Enfileirado fase 1: '' @ num (queued_direct p) @ '' diretos. Fase 2: '' @ num (length (bp_jump p)) @
           '' grupo(s) jump host. Fase 3: '' @ num (length (bp_vpn p)) @ '' grupo(s) VPN aguardando callback.''
         else if single_group_mode then ''Enfileirado: '' @ num (queued_direct p) @ '' task(s) por dispositivo (fila celery='' @
           num (queued_direct p - vpn_devices) @ '', vpn_queue='' @ num vpn_devices @ '').''
         else ''Enfileirado: '' @ num (queued_direct p) @ '' diretos + '' @ num (length (bp_vpn p)) @ '' grupos VPN ('' @ num children @ '' tasks Celery).'')"

definition all_flashes :: "bool \<Rightarrow> bool \<Rightarrow> batch_plan \<Rightarrow> bool \<Rightarrow> nat \<Rightarrow> preflight \<Rightarrow> jump_preflight \<Rightarrow> flash list" where
  "all_flashes cleared single_group_mode p deferred excluded pf jp =
     (let vpn_devices = item_count (bp_vpn p)
      in (if cleared then [(''Bloqueio global de parada foi removido automaticamente para iniciar este lote.'', ''warning'')] else []) @
         [(if deferred then ''Fase 1 enfileirada: '' @ num (queued_direct p) @ '' diretos. Fase 2 (jump host): '' @ num (length (bp_jump p)) @
             '' grupo(s). Fase 3 (VPN): '' @ num (length (bp_vpn p)) @ '' grupo(s) iniciara apos finalizar a fase 2.''
           else if single_group_mode then ''Backups enfileirados: '' @ num (queued_direct p) @ '' task(s) por dispositivo (celery='' @
             num (queued_direct p - vpn_devices) @ '', vpn_queue='' @ num vpn_devices @ '').''
           else ''Backups enfileirados: '' @ num (queued_direct p) @ '' diretos + '' @ num (item_count (bp_jump p)) @ '' jump + '' @
             num (length (bp_vpn p)) @ '' grupo(s) VPN.'', ''success'')] @
         skip_notes excluded pf jp ''backup em massa'')"

text \<open>The counters only the page for all devices keeps: VPN devices of a group, devices with a connection of their own.\<close>

definition all_queued_fields :: "bool \<Rightarrow> batch_plan \<Rightarrow> nat \<Rightarrow> pydict" where
  "all_queued_fields single_group_mode p subgroup =
     queued_fields p @ [(''queued_vpn_devices'', PInt (int (if single_group_mode then item_count (bp_vpn p) else 0))),
       (''queued_subgroup'', PInt (int subgroup))]"

definition all_reply ::
  "'s launcher \<Rightarrow> string \<Rightarrow> string \<Rightarrow> pydict \<Rightarrow> nat \<Rightarrow> int \<Rightarrow> pyval \<Rightarrow> nat \<Rightarrow> preflight \<Rightarrow> jump_preflight \<Rightarrow> page" where
  "all_reply L slug bulk queued devices total_tasks groups excluded pf jp =
     Json 202 ([(''ok'', PBool True), (''is_bulk'', PBool True), (''task_id'', PStr bulk), (''device_name'', PStr MASS)] @ queued @
       [(''total_devices'', PInt (int devices)), (''total_tasks'', PInt total_tasks), (''operation_kind'', PStr ''backup_bulk''),
        (''group_summary'', groups)] @ preflight_fields True excluded pf jp @ batch_links L slug bulk)"

definition all_message :: "bool \<Rightarrow> int \<Rightarrow> string list \<Rightarrow> string" where
  "all_message deferred total_tasks ids =
     (if deferred then show_int total_tasks @ '' tarefas planejadas para processamento.''
      else num (length ids) @ '' tarefas enfileiradas para processamento.'')"

definition launch_all ::
  "'s launcher \<Rightarrow> launch_form \<Rightarrow> string \<Rightarrow> string \<Rightarrow> string option \<Rightarrow> bool \<Rightarrow> device list \<Rightarrow> nat \<Rightarrow> preflight \<Rightarrow> jump_preflight \<Rightarrow> ('s, page) io" where
  "launch_all L f slug tenant_id bulk cleared ds excluded pf jp =
     (let P = ln_phase L; M = ph_machine P; env = m_env M; single = or_empty (lf_group_id f) \<noteq> [];
          p = plan_batch env single ds; devices = length ds; subgroup = count_subgroups ds;
          sub = snd (read_subgroup (lf_subgroup f) (lf_arg_subgroup f))
      in io_seq (announce_all M f tenant_id bulk cleared devices excluded pf jp)
        (io_seq (if single then launch_log M bulk MASS (''Modo de grupo/subgrupo detectado: conexoes diretas por dispositivo; Jump Host agrupado em '' @
             num (length (bp_jump p)) @ '' grupo(s) e VPN agrupada em '' @ num (length (bp_vpn p)) @ '' grupo(s).'') ''info'' else io_ret ())
        (io_bind (batch_signatures P tenant_id bulk p) (\<lambda>sigs.
         io_bind (start_phases L tenant_id bulk sigs p (\<lambda>line. launch_log M bulk MASS line ''info'')) (\<lambda>deferred.
         io_seq (ln_activity L tenant_id ''BACKUP_BULK'' (all_activity p devices subgroup deferred pf jp))
           (case bulk of
              None \<Rightarrow> io_ret (Redirect (all_flashes cleared single p deferred excluded pf jp)
                (DevicesPage (lf_group_id f) (if sub = [] then None else Some sub)))
            | Some b \<Rightarrow>
                io_bind (merge_existing_bulk_children M b (prepared sigs) (length sigs + pending_groups deferred p)) (\<lambda>(ids, counts, total_tasks).
                io_bind (task_meta M b (fresh_counters ''backup_bulk'' (all_message deferred total_tasks ids) devices
                    (all_queued_fields single p subgroup) total_tasks ids counts (summary_rows env ds) @ preflight_fields True excluded pf jp)) (\<lambda>_.
                io_seq (task_log M bulk MASS (all_done_text single p deferred (length ids)) ''success'')
                  (io_ret (all_reply L slug b (all_queued_fields single p subgroup) devices total_tasks (summary_rows env ds) excluded pf jp))))))))))"

definition run_backup_all :: "'s launcher \<Rightarrow> launch_db \<Rightarrow> caller \<Rightarrow> string \<Rightarrow> launch_form \<Rightarrow> ('s, page) io" where
  "run_backup_all L db ca slug f =
     with_launch_tenant ca slug (\<lambda>t.
       let P = ln_phase L; M = ph_machine P; tenant_id = t_id t;
           bulk = (if is_ajax f then Some (''bulk-'' @ ph_fresh P 0) else None)
       in io_bind (clear_global_force_stop_flag M) (\<lambda>cleared.
          io_bind (reset_circuit_breakers_for_new_batch (m_client M) (m_emit M)) (\<lambda>_.
          let (ds0, excluded) = split_mass_backup_devices (devices_in_scope db f tenant_id) (resolve_mass_backup_excluded_type_ids (ld_types db))
          in io_bind (preflights L ds0 tenant_id bulk (value_bool (lf_include_unvalidated f) False)) (\<lambda>(ds, pf, jp).
             if ds = [] then io_ret (nothing_to_run f pf jp)
             else io_bind (case bulk of None \<Rightarrow> io_ret None | Some b \<Rightarrow> reserve_bulk M tenant_id b) (\<lambda>refused.
               case refused of
                 Some reply \<Rightarrow> io_ret reply
               | None \<Rightarrow> launch_all L f slug tenant_id bulk cleared ds (length excluded) pf jp)))))"

end
