(* ===== verification/LaunchMore.thy ===== *)
theory LaunchMore
  imports Launch
begin

text \<open>
  The other pages that put work on the queues (\<open>src/app/web/tenant/devices.py\<close>): the backup of one device
  (\<open>run_backup\<close>), of the devices a user selected (\<open>run_backup_selected\<close>), of those that failed lately
  (\<open>run_reprocess_failures\<close>), and the check of all connections (\<open>run_connection_audit_all\<close>).
\<close>

section \<open>One device\<close>

text \<open>\<open>_resolve_group_context\<close> and \<open>_group_id_str\<close>: a group of another tenant is no context.\<close>

definition group_context :: "launch_db \<Rightarrow> string \<Rightarrow> string \<Rightarrow> string option" where
  "group_context db tenant_id raw =
     Option.bind (parse_uuid raw) (\<lambda>u. case find (\<lambda>g. g_id g = u) (ld_groups db) of
       None \<Rightarrow> None | Some g \<Rightarrow> if g_tenant_id g = tenant_id then Some (g_id g) else None)"

definition first_given :: "string option list \<Rightarrow> string" where
  "first_given vs = (case filter (\<lambda>v. or_empty v \<noteq> []) vs of [] \<Rightarrow> [] | v # _ \<Rightarrow> or_empty v)"

definition manual_message :: "(string \<Rightarrow> string option) \<Rightarrow> string \<Rightarrow> device \<Rightarrow> message" where
  "manual_message env tenant_id d =
     (case d_group d of
        Some g \<Rightarrow>
          if uses_vpn_tunnel env (Some g) (Some d)
          then to_queue ''vpn_queue'' (RunGroup \<lparr>go_group = g_id g, go_tenant = tenant_id, go_devices = [d_id d], go_bulk = None,
                 go_force_vpn = Some (device_subgroup_connection_type d = ''vpn'' \<and> \<not> uses_vpn_tunnel env (Some g) None)\<rparr>)
          else to_queue (backup_queue_for_device env d) (RunDevice (d_id d) None)
      | None \<Rightarrow> to_queue (backup_queue_for_device env d) (RunDevice (d_id d) None))"

definition manual_reply :: "'s launcher \<Rightarrow> launch_form \<Rightarrow> string \<Rightarrow> string option \<Rightarrow> bool \<Rightarrow> device \<Rightarrow> string \<Rightarrow> string \<Rightarrow> page" where
  "manual_reply L f slug return_group cleared d task_id queue =
     (if is_ajax f
      then Json 202 [(''ok'', PBool True), (''task_id'', PStr task_id), (''queue'', PStr queue), (''device_name'', PStr (d_name d)),
        (''status_url'', PStr (ln_url L ''tenant_backups.task_status'' slug task_id)), (''logs_url'', PStr (ln_url L ''tenant_backups.task_logs'' slug task_id))]
      else Redirect ((if cleared then [(''Bloqueio global de parada foi removido automaticamente para iniciar novo backup.'', ''warning'')] else []) @
          [(''Backup enfileirado com sucesso! Task: '' @ task_id, ''success'')]) (DevicesPage return_group None))"

text \<open>The task is registered after it has been sent.\<close>

definition run_backup :: "'s launcher \<Rightarrow> launch_db \<Rightarrow> caller \<Rightarrow> string \<Rightarrow> string \<Rightarrow> launch_form \<Rightarrow> ('s, page) io" where
  "run_backup L db ca slug device_id f =
     with_launch_tenant ca slug (\<lambda>t.
       let P = ln_phase L; M = ph_machine P; tenant_id = t_id t
       in io_bind (clear_global_force_stop_flag M) (\<lambda>cleared.
         case parse_uuid device_id of
           None \<Rightarrow> io_ret (Redirect [(''ID de dispositivo inv'' @ [CHR 0xE1] @ ''lido'', ''error'')] (DevicesPage None None))
         | Some u \<Rightarrow>
           (case find (\<lambda>d. d_id d = u \<and> d_tenant_id d = tenant_id) (ld_devices db) of
              None \<Rightarrow> io_ret (Redirect [(''Dispositivo n'' @ [CHR 0xE3] @ ''o encontrado'', ''error'')] (DevicesPage None None))
            | Some d \<Rightarrow>
              if \<not> in_active_group d
              then io_ret (Redirect [(''Grupo \"'' @ (case d_group d of None \<Rightarrow> [] | Some g \<Rightarrow> g_name g) @ ''\" est'' @ [CHR 0xE1] @
                     '' inativo. Reative o grupo antes de executar backups.'', ''warning'')] (DevicesPage (map_option g_id (d_group d)) None))
              else
                (let return_group = group_context db tenant_id (first_given [lf_group_id f, lf_arg_group_id f, lf_arg_return_group_id f,
                       map_option g_id (d_group d)]);
                     m = manual_message (m_env M) tenant_id d
                 in io_bind (ph_send P m) (\<lambda>task_id.
                    io_seq (register_child M tenant_id (Some task_id) (Some (d_id d)) (d_name d) (map_option g_id (d_group d)))
                   (io_seq (task_log M (Some task_id) (d_name d) (''Task criada na fila '' @ mg_queue m @ ''. Aguardando worker iniciar.'') ''info'')
                   (io_seq (ln_activity L tenant_id ''BACKUP_MANUAL'' (''Manual backup queued for '' @ d_name d @ ''. task_id='' @ task_id @
                       '' queue='' @ mg_queue m))
                     (io_ret (manual_reply L f slug return_group cleared d task_id (mg_queue m))))))))))"

section \<open>Selected devices\<close>

text \<open>The devices named in the form, each once, and how many names are not identifiers.\<close>

fun candidate_devices :: "launch_db \<Rightarrow> string \<Rightarrow> string list \<Rightarrow> device list \<Rightarrow> nat \<Rightarrow> device list \<times> nat" where
  "candidate_devices db tenant_id [] found bad = (found, bad)"
| "candidate_devices db tenant_id (raw # rest) found bad =
     (case parse_uuid raw of
        None \<Rightarrow> candidate_devices db tenant_id rest found (Suc bad)
      | Some u \<Rightarrow>
          (case find (\<lambda>d. d_id d = u \<and> d_tenant_id d = tenant_id \<and> in_active_group d) (ld_devices db) of
             None \<Rightarrow> candidate_devices db tenant_id rest found bad
           | Some d \<Rightarrow> candidate_devices db tenant_id rest (if d_id d \<in> set (map d_id found) then found else found @ [d]) bad))"

definition SELECTED :: string where
  "SELECTED = ''Backup selecionados''"

definition selected_subgroup :: "launch_form \<Rightarrow> string option" where
  "selected_subgroup f =
     (case fst (read_subgroup (lf_subgroup f) (lf_arg_subgroup f)) of AnySubgroup \<Rightarrow> None | NoSubgroup \<Rightarrow> Some ''none'' | Subgroup u \<Rightarrow> Some u)"

definition no_selected :: "bool \<Rightarrow> nat \<Rightarrow> preflight \<Rightarrow> jump_preflight \<Rightarrow> target \<Rightarrow> page" where
  "no_selected ajax excluded pf jp back =
     (let msg = ''Nenhum dispositivo selecionado elegivel para backup em massa.'' @
            (if excluded > 0 then '' Ignorados por tipo ('' @ EXCLUDED_LABEL @ ''): '' @ num excluded @ ''.'' else []) @
            (if pf_skipped pf > 0 then '' Ignorados no preflight de conectividade: '' @ num (pf_skipped pf) @ ''.'' else []) @
            (if jp_skipped jp > 0 then '' Ignorados por indisponibilidade de Jump Host: '' @ num (jp_skipped jp) @ '' ('' @
               format_jump_unreachable_summary jp @ '').'' else [])
      in if ajax then Json 400 [(''ok'', PBool False), (''error'', PStr msg)] else Redirect [(msg, ''warning'')] back)"

definition announce_selected ::
  "'s machine \<Rightarrow> launch_form \<Rightarrow> string \<Rightarrow> string option \<Rightarrow> string option \<Rightarrow> bool \<Rightarrow> nat \<Rightarrow> preflight \<Rightarrow> jump_preflight \<Rightarrow> ('s, unit) io" where
  "announce_selected M f tenant_id bulk return_group cleared excluded pf jp =
     (if bulk = None then io_ret ()
      else io_seq (register_child M tenant_id bulk None SELECTED return_group)
          (io_seq (if cleared
             then launch_log M bulk SELECTED ''Bloqueio global anterior removido automaticamente para iniciar novo lote.'' ''warning'' else io_ret ())
          (io_seq (excluded_log M bulk SELECTED excluded ''backup em massa'')
          (io_seq (preflight_log M bulk SELECTED (value_bool (lf_include_unvalidated f) False) pf)
            (jump_preflight_log M bulk SELECTED jp)))))"

definition selected_activity :: "batch_plan \<Rightarrow> nat \<Rightarrow> nat \<Rightarrow> preflight \<Rightarrow> jump_preflight \<Rightarrow> string" where
  "selected_activity p subgroup invalid pf jp =
     ''Selected backup queued: direto='' @ num (queued_direct p) @ '' jump='' @ num (item_count (bp_jump p)) @
     '' jump_groups='' @ num (length (bp_jump p)) @ '' vpn_groups='' @ num (length (bp_vpn p)) @ '', subgrupo_conexao='' @ num subgroup @
     '', invalidos='' @ num invalid @ '', pulados_not_ready='' @ num (pf_skipped pf) @
     '', pulados_jump_unreachable='' @ num (jp_skipped jp) @ '', preflight_audit_queued='' @ num (pf_audit_queued pf) @ ''.''"

definition selected_flashes :: "bool \<Rightarrow> batch_plan \<Rightarrow> nat \<Rightarrow> preflight \<Rightarrow> jump_preflight \<Rightarrow> flash list" where
  "selected_flashes cleared p excluded pf jp =
     (if cleared then [(''Bloqueio global de parada foi removido automaticamente para iniciar os backups selecionados.'', ''warning'')] else []) @
     [if queued_direct p + item_count (bp_jump p) + length (bp_vpn p) = 0
      then (if excluded > 0 \<or> pf_skipped pf > 0 then ''Nenhum dispositivo selecionado elegivel para backup em massa.''
            else ''Nenhum dispositivo selecionado para backup.'', ''warning'')
      else (''Backups selecionados enfileirados: '' @ num (queued_direct p) @ '' diretos + '' @ num (item_count (bp_jump p)) @ '' jump + '' @
            num (length (bp_vpn p)) @ '' grupo(s) VPN.'', ''success'')] @
     skip_notes excluded pf jp ''backup em massa''"

definition selected_reply :: "'s launcher \<Rightarrow> string \<Rightarrow> string \<Rightarrow> pydict \<Rightarrow> nat \<Rightarrow> int \<Rightarrow> nat \<Rightarrow> preflight \<Rightarrow> jump_preflight \<Rightarrow> page" where
  "selected_reply L slug bulk queued devices total_tasks excluded pf jp =
     Json 202 ([(''ok'', PBool True), (''is_bulk'', PBool True), (''task_id'', PStr bulk), (''device_name'', PStr SELECTED)] @ queued @
       [(''total_devices'', PInt (int devices)), (''total_tasks'', PInt total_tasks), (''operation_kind'', PStr ''backup_bulk'')] @
       preflight_fields True excluded pf jp @ batch_links L slug bulk)"

definition launch_selected ::
  "'s launcher \<Rightarrow> launch_form \<Rightarrow> string \<Rightarrow> string \<Rightarrow> string option \<Rightarrow> string option \<Rightarrow> bool \<Rightarrow> device list \<Rightarrow> nat \<Rightarrow> nat \<Rightarrow>
   preflight \<Rightarrow> jump_preflight \<Rightarrow> ('s, page) io" where
  "launch_selected L f slug tenant_id bulk return_group cleared ds invalid excluded pf jp =
     (let P = ln_phase L; M = ph_machine P; p = plan_batch (m_env M) False ds; devices = length ds; subgroup = count_subgroups ds;
          queued = queued_fields p @ [(''queued_subgroup'', PInt (int subgroup))]
      in io_bind (batch_signatures P tenant_id bulk p) (\<lambda>sigs.
         io_seq (announce_selected M f tenant_id bulk return_group cleared excluded pf jp)
        (io_bind (start_phases L tenant_id bulk sigs p (\<lambda>line. launch_log M bulk SELECTED line ''info'')) (\<lambda>deferred.
         io_seq (ln_activity L tenant_id ''BACKUP_SELECTED'' (selected_activity p subgroup invalid pf jp))
           (case bulk of
              None \<Rightarrow> io_ret (Redirect (selected_flashes cleared p excluded pf jp) (DevicesPage return_group (selected_subgroup f)))
            | Some b \<Rightarrow>
                io_bind (merge_existing_bulk_children M b (prepared sigs) (length sigs + pending_groups deferred p)) (\<lambda>(ids, counts, total_tasks).
                io_bind (task_meta M b (fresh_counters ''backup_bulk'' (all_message deferred total_tasks ids) devices queued
                    total_tasks ids counts (PList []) @ preflight_fields True excluded pf jp)) (\<lambda>_.
                io_seq (task_log M bulk SELECTED (''Enfileirado: '' @ num (queued_direct p) @ '' diretos + '' @ num (item_count (bp_jump p)) @
                    '' jump + '' @ num (length (bp_vpn p)) @ '' grupos VPN ('' @ num devices @ '' dispositivos selecionados).'') ''success'')
                  (io_ret (selected_reply L slug b queued devices total_tasks excluded pf jp)))))))))"

definition run_backup_selected :: "'s launcher \<Rightarrow> launch_db \<Rightarrow> caller \<Rightarrow> string \<Rightarrow> launch_form \<Rightarrow> ('s, page) io" where
  "run_backup_selected L db ca slug f =
     with_launch_tenant ca slug (\<lambda>t.
       let P = ln_phase L; M = ph_machine P; tenant_id = t_id t;
           bulk = (if is_ajax f then Some (''selected-'' @ ph_fresh P 0) else None);
           return_group = group_context db tenant_id (first_given [lf_group_id f, lf_arg_group_id f, lf_arg_return_group_id f]);
           back = DevicesPage return_group (selected_subgroup f)
       in io_bind (clear_global_force_stop_flag M) (\<lambda>cleared.
          io_bind (reset_circuit_breakers_for_new_batch (m_client M) (m_emit M)) (\<lambda>_.
          if lf_device_ids f = []
          then io_ret (if is_ajax f then Json 400 [(''ok'', PBool False), (''error'', PStr ''Nenhum dispositivo selecionado.'')]
                       else Redirect [(''Nenhum dispositivo selecionado'', ''warning'')] back)
          else
            let (found, invalid) = candidate_devices db tenant_id (lf_device_ids f) [] 0;
                (ds0, excluded) = split_mass_backup_devices found (resolve_mass_backup_excluded_type_ids (ld_types db))
            in io_bind (preflights L ds0 tenant_id bulk (value_bool (lf_include_unvalidated f) False)) (\<lambda>(ds, pf, jp).
               if ds = [] then io_ret (no_selected (is_ajax f) (length excluded) pf jp back)
               else io_bind (case bulk of None \<Rightarrow> io_ret None | Some b \<Rightarrow> reserve_bulk M tenant_id b) (\<lambda>refused.
                 case refused of
                   Some reply \<Rightarrow> io_ret reply
                 | None \<Rightarrow> launch_selected L f slug tenant_id bulk return_group cleared ds invalid (length excluded) pf jp)))))"

section \<open>Devices that failed\<close>

text \<open>Midnight of today, or 24 hours ago.\<close>

definition reprocess_since :: "launch_form \<Rightarrow> naive \<Rightarrow> naive \<times> string" where
  "reprocess_since f now =
     (if py_lower (py_strip (if or_empty (lf_scope f) = [] then ''today'' else or_empty (lf_scope f))) = ''24h''
      then (now - DAY_US, ''ultimas 24h'') else (day_of now * DAY_US, ''hoje''))"

definition wants_transient_only :: "launch_form \<Rightarrow> bool" where
  "wants_transient_only f \<longleftrightarrow> py_lower (py_strip (or_empty (lf_transient_only f))) \<in> set [''1'', ''true'', ''on'', ''yes'']"

definition reprocessable :: "string \<Rightarrow> device \<Rightarrow> bool" where
  "reprocessable tenant_id d \<longleftrightarrow> d_tenant_id d = tenant_id \<and> flag (d_is_active d) \<and> flag (d_backup_scheduled d) \<and> in_active_group d"

definition failed_rows :: "launch_db \<Rightarrow> string \<Rightarrow> naive \<Rightarrow> backup list" where
  "failed_rows db tenant_id since =
     sort_key (\<lambda>b. - (case b_started_at b of None \<Rightarrow> 0 | Some s \<Rightarrow> s))
       (filter (\<lambda>b. b_status b = FAILED \<and> (case b_started_at b of None \<Rightarrow> False | Some s \<Rightarrow> since \<le> s) \<and>
            (\<exists>d \<in> set (ld_devices db). d_id d = b_device_id b \<and> reprocessable tenant_id d)) (ld_backups db))"

text \<open>The identifiers of the devices: a failure that is not transient is passed over, also when it is the latest.\<close>

definition failed_device_ids :: "bool \<Rightarrow> backup list \<Rightarrow> string list" where
  "failed_device_ids transient_only rows =
     from_keys (map b_device_id (filter (\<lambda>b. \<not> transient_only \<or> is_transient_failure (Some (classify_failure (Some (or_empty (b_error_message b)))))) rows))"

definition REPROCESS :: string where
  "REPROCESS = ''Reprocessamento''"

definition no_reprocess :: "bool \<Rightarrow> preflight \<Rightarrow> jump_preflight \<Rightarrow> page" where
  "no_reprocess ajax pf jp =
     (let msg = ''Nenhum dispositivo elegivel para reprocessar ('' @ EXCLUDED_LABEL @ '' sao ignorados nesse fluxo em massa).'' @
            (if pf_skipped pf > 0 then CHR '' '' # num (pf_skipped pf) @ '' dispositivo(s) foram ignorados no preflight de conectividade.'' else []) @
            (if jp_skipped jp > 0 then CHR '' '' # num (jp_skipped jp) @ '' dispositivo(s) foram ignorados por indisponibilidade de Jump Host ('' @
               format_jump_unreachable_summary jp @ '').'' else [])
      in if ajax then Json 400 [(''ok'', PBool False), (''error'', PStr msg)] else Redirect [(msg, ''warning'')] SchedulesPage)"

definition announce_reprocess ::
  "'s machine \<Rightarrow> string \<Rightarrow> string \<Rightarrow> string \<Rightarrow> bool \<Rightarrow> nat \<Rightarrow> nat \<Rightarrow> preflight \<Rightarrow> jump_preflight \<Rightarrow> ('s, unit) io" where
  "announce_reprocess M tenant_id b scope_label transient_only devices excluded pf jp =
     io_seq (register_child M tenant_id (Some b) None ''Reprocessamento de falhas'' None)
    (io_seq (launch_log M (Some b) REPROCESS (''Iniciando reprocessamento ('' @ scope_label @ '') para '' @ num devices @ '' dispositivo(s) '' @
         (if transient_only then ''com falhas transitorias'' else ''com falha'') @ ''.'') ''info'')
    (io_seq (excluded_log M (Some b) REPROCESS excluded ''fluxo em massa'')
    (io_seq (preflight_log M (Some b) REPROCESS False pf) (jump_preflight_log M (Some b) REPROCESS jp))))"

definition reprocess_message :: "bool \<Rightarrow> int \<Rightarrow> string" where
  "reprocess_message deferred total_tasks =
     show_int total_tasks @ (if deferred then '' tarefas planejadas para reprocessamento.'' else '' tarefas enfileiradas para reprocessamento.'')"

definition reprocess_activity :: "string \<Rightarrow> bool \<Rightarrow> batch_plan \<Rightarrow> preflight \<Rightarrow> jump_preflight \<Rightarrow> string" where
  "reprocess_activity scope_label transient_only p pf jp =
     ''Reprocess queued ('' @ scope_label @ ''): transient_only='' @ (if transient_only then ''True'' else ''False'') @
     '' queued_direct='' @ num (queued_direct p) @ '' queued_jump='' @ num (item_count (bp_jump p)) @
     '' queued_jump_groups='' @ num (length (bp_jump p)) @ '' queued_vpn_groups='' @ num (length (bp_vpn p)) @
     '' preflight_skipped='' @ num (pf_skipped pf) @ '' preflight_jump_unreachable='' @ num (jp_skipped jp) @
     '' preflight_audit_queued='' @ num (pf_audit_queued pf)"

definition reprocess_reply :: "'s launcher \<Rightarrow> bool \<Rightarrow> string \<Rightarrow> string \<Rightarrow> batch_plan \<Rightarrow> nat \<Rightarrow> int \<Rightarrow> nat \<Rightarrow> preflight \<Rightarrow> jump_preflight \<Rightarrow> page" where
  "reprocess_reply L ajax slug b p devices total_tasks excluded pf jp =
     (if ajax
      then Json 202 ([(''ok'', PBool True), (''is_bulk'', PBool True), (''task_id'', PStr b), (''device_name'', PStr ''Reprocessamento de falhas'')] @
        queued_fields p @ [(''total_devices'', PInt (int devices)), (''total_tasks'', PInt total_tasks), (''operation_kind'', PStr ''backup_reprocess'')] @
        preflight_fields False excluded pf jp @ batch_links L slug b)
      else Redirect ([(''Reprocessamento enfileirado: '' @ num (queued_direct p) @ '' diretos + '' @ num (item_count (bp_jump p)) @ '' jump + '' @
          num (length (bp_vpn p)) @ '' grupo(s) VPN.'', ''success'')] @ skip_notes excluded pf jp ''fluxo em massa'') SchedulesPage)"

definition launch_reprocess ::
  "'s launcher \<Rightarrow> launch_form \<Rightarrow> string \<Rightarrow> string \<Rightarrow> string \<Rightarrow> string \<Rightarrow> device list \<Rightarrow> nat \<Rightarrow> preflight \<Rightarrow> jump_preflight \<Rightarrow> ('s, page) io" where
  "launch_reprocess L f slug tenant_id b scope_label ds excluded pf jp =
     (let P = ln_phase L; M = ph_machine P; p = plan_batch (m_env M) False ds; devices = length ds; transient_only = wants_transient_only f
      in io_seq (announce_reprocess M tenant_id b scope_label transient_only devices excluded pf jp)
        (io_bind (batch_signatures P tenant_id (Some b) p) (\<lambda>sigs.
         io_bind (start_phases L tenant_id (Some b) sigs p (\<lambda>line. io_ret ())) (\<lambda>deferred.
         io_bind (merge_existing_bulk_children M b (prepared sigs) (length sigs + pending_groups deferred p)) (\<lambda>(ids, counts, total_tasks).
         io_bind (task_meta M b (fresh_counters ''backup_reprocess'' (reprocess_message deferred total_tasks) devices (queued_fields p)
             total_tasks ids counts (PList []) @ preflight_fields False excluded pf jp)) (\<lambda>_.
         io_seq (task_log M (Some b) REPROCESS (''Enfileirado: '' @ num (queued_direct p) @ '' diretos + '' @ num (item_count (bp_jump p)) @ '' jump + '' @
             num (length (bp_vpn p)) @ '' grupos VPN ('' @ show_int total_tasks @ '' tasks Celery).'') ''success'')
        (io_seq (ln_activity L tenant_id ''BACKUP_REPROCESS'' (reprocess_activity scope_label transient_only p pf jp))
          (io_ret (reprocess_reply L (is_ajax f) slug b p devices total_tasks excluded pf jp)))))))))"

definition run_reprocess_failures :: "'s launcher \<Rightarrow> launch_db \<Rightarrow> caller \<Rightarrow> string \<Rightarrow> launch_form \<Rightarrow> ('s, page) io" where
  "run_reprocess_failures L db ca slug f =
     with_launch_tenant ca slug (\<lambda>t.
       let P = ln_phase L; M = ph_machine P; tenant_id = t_id t; b = ''bulk-'' @ ph_fresh P 0
       in io_bind (reset_circuit_breakers_for_new_batch (m_client M) (m_emit M)) (\<lambda>_.
          io_bind (io_read (m_now M)) (\<lambda>now.
          let (since, scope_label) = reprocess_since f now;
              targets = failed_device_ids (wants_transient_only f) (failed_rows db tenant_id since)
          in if targets = []
             then (let msg = ''Nenhuma falha '' @ (if wants_transient_only f then ''transitoria '' else []) @ ''encontrada para '' @ scope_label @ ''.''
                   in io_ret (if is_ajax f then Json 400 [(''ok'', PBool False), (''error'', PStr msg)] else Redirect [(msg, ''warning'')] SchedulesPage))
             else
               (let (ds0, excluded) = split_mass_backup_devices (filter (\<lambda>d. d_id d \<in> set targets \<and> reprocessable tenant_id d) (ld_devices db))
                      (resolve_mass_backup_excluded_type_ids (ld_types db))
                in io_bind (preflights L ds0 tenant_id (Some b) False) (\<lambda>(ds, pf, jp).
                   if ds = [] then io_ret (no_reprocess (is_ajax f) pf jp)
                   else io_bind (if is_ajax f then reserve_bulk M tenant_id b else io_ret None) (\<lambda>refused.
                     case refused of
                       Some reply \<Rightarrow> io_ret reply
                     | None \<Rightarrow> launch_reprocess L f slug tenant_id b scope_label ds (length excluded) pf jp))))))"

section \<open>The check of all connections\<close>

definition AUDIT :: string where
  "AUDIT = ''Validacao manual''"

text \<open>The tests are sent, then registered; identifiers 1, 2, \<dots> are theirs.\<close>

fun queue_audits :: "'s phase_env \<Rightarrow> string \<Rightarrow> string \<Rightarrow> nat \<Rightarrow> device list \<Rightarrow> ('s, unit) io" where
  "queue_audits P tenant_id b n [] = io_ret ()"
| "queue_audits P tenant_id b n (d # ds) =
     io_bind (ph_send P \<lparr>mg_order = AuditDevice (d_id d) (Some b), mg_queue = backup_queue_for_device (m_env (ph_machine P)) d,
          mg_task_id = Some (ph_fresh P n), mg_countdown = 0\<rparr>) (\<lambda>_.
     io_seq (register_child (ph_machine P) tenant_id (Some (ph_fresh P n)) (Some (d_id d)) (d_name d) (map_option g_id (d_group d)))
       (queue_audits P tenant_id b (Suc n) ds))"

definition audit_counters :: "nat \<Rightarrow> nat \<Rightarrow> string list \<Rightarrow> pydict" where
  "audit_counters direct vpn ids =
     (let n = direct + vpn
      in [(''is_bulk'', PBool True), (''operation_kind'', PStr ''connection_audit''), (''status'', PStr ''running''), (''progress'', PInt 5),
          (''completed'', PBool False), (''cancel_requested'', PBool False), (''message'', PStr (num n @ '' testes planejados para processamento.'')),
          (''total_devices'', PInt (int n)), (''queued_direct'', PInt (int direct)), (''queued_vpn_groups'', PInt (int vpn)),
          (''total_tasks'', PInt (int n)), (''done_tasks'', PInt 0), (''success_tasks'', PInt 0), (''failed_tasks'', PInt 0),
          (''running_tasks'', PInt 0), (''queued_tasks'', PInt (int n)), (''done_devices'', PInt 0), (''success_devices'', PInt 0),
          (''failed_devices'', PInt 0), (''no_ping_devices'', PInt 0), (''ping_ok_login_fail_devices'', PInt 0), (''ping_login_ok_devices'', PInt 0),
          (''child_task_ids'', PList (map PStr ids)), (''child_task_device_count'', PDict (map (\<lambda>i. (i, PInt 1)) ids)),
          (''finished_task_ids'', PList []), (''group_summary'', PList [])])"

definition audit_reply :: "'s launcher \<Rightarrow> launch_form \<Rightarrow> string \<Rightarrow> string \<Rightarrow> nat \<Rightarrow> nat \<Rightarrow> page" where
  "audit_reply L f slug b direct vpn =
     (let n = direct + vpn
      in if is_ajax f
         then Json 202 ([(''ok'', PBool True), (''is_bulk'', PBool True), (''task_id'', PStr b), (''device_name'', PStr ''Validacao manual de conectividade''),
           (''queued_direct'', PInt (int direct)), (''queued_vpn_groups'', PInt (int vpn)), (''total_devices'', PInt (int n)),
           (''total_tasks'', PInt (int n)), (''operation_kind'', PStr ''connection_audit'')] @ batch_links L slug b)
         else Redirect [(''Validacao manual de conectividade enfileirada para '' @ num n @ '' dispositivo(s).'', ''success'')] SchedulesPage)"

definition run_connection_audit_all :: "'s launcher \<Rightarrow> launch_db \<Rightarrow> caller \<Rightarrow> string \<Rightarrow> launch_form \<Rightarrow> ('s, page) io" where
  "run_connection_audit_all L db ca slug f =
     with_launch_tenant ca slug (\<lambda>t.
       let P = ln_phase L; M = ph_machine P; tenant_id = t_id t; b = ''bulk-'' @ ph_fresh P 0;
           ds = filter (\<lambda>d. d_tenant_id d = tenant_id \<and> flag (d_is_active d) \<and> in_active_group d \<and> in_group (lf_group_id f) d) (ld_devices db);
           vpn = length (filter (by_vpn (m_env M)) ds); direct = length ds - vpn
       in if ds = []
          then io_ret (if is_ajax f then Json 400 [(''ok'', PBool False), (''error'', PStr ''Nenhum dispositivo ativo encontrado para validacao manual.'')]
                       else Redirect [(''Nenhum dispositivo ativo encontrado para validacao manual.'', ''warning'')] SchedulesPage)
          else io_seq (register_child M tenant_id (Some b) None ''Validacao manual de conectividade''
                 (if or_empty (lf_group_id f) = [] then None else lf_group_id f))
              (io_seq (task_log M (Some b) AUDIT (''Iniciando enfileiramento para '' @ num (length ds) @ '' dispositivo(s) ativo(s).'') ''info'')
              (io_seq (queue_audits P tenant_id b 1 ds)
              (io_bind (task_meta M b (audit_counters direct vpn (map (\<lambda>i. ph_fresh P (Suc i)) [0..<length ds]))) (\<lambda>_.
               io_seq (task_log M (Some b) AUDIT (''Enfileirado: '' @ num (length ds) @ '' tarefa(s) de validacao de acesso.'') ''success'')
                 (io_ret (audit_reply L f slug b direct vpn)))))))"

end
