(* ===== verification/LaunchSafety.thy ===== *)
theory LaunchSafety
  imports LaunchMore PhaseSafety DispatchSafety "HOL-Library.Multiset"
begin

text \<open>
  A batch reaches every device once: the plan of the page that starts it is a permutation of its devices, the page
  gives the broker exactly this plan, and the phases that follow queue the rest of it. As in the specifications
  of containers, what a plan holds is a multiset.
\<close>

section \<open>A plan is a permutation of the devices\<close>

definition items_ids :: "phase_item list \<Rightarrow> string list" where
  "items_ids items = concat (map entry_ids items)"

definition bucket_ids :: "bucket \<Rightarrow> string list" where
  "bucket_ids b = items_ids (map snd b)"

definition plan_ids :: "batch_plan \<Rightarrow> string list" where
  "plan_ids p = items_ids (bp_direct p) @ map d_id (bp_single p) @ items_ids (bp_jump p) @ items_ids (bp_vpn p)"

lemma items_ids_simps [simp]: "items_ids [] = []" "items_ids (i # is) = entry_ids i @ items_ids is"
  by (simp_all add: items_ids_def)

lemma mset_items: "mset (items_ids items) = sum_list (map (mset \<circ> entry_ids) items)"
  by (induction items) auto

lemma entry_ids_simps [simp]:
  "entry_ids (e\<lparr>pi_device_ids := Some ids\<rparr>) = ids" "entry_ids (e\<lparr>pi_force_vpn := b\<rparr>) = entry_ids e" "entry_ids (new_entry g) = []"
  "entry_ids \<lparr>pi_group_id = a, pi_group_name = n, pi_device_ids = Some ids, pi_force_vpn = c\<rparr> = ids"
  by (simp_all add: entry_ids_def new_entry_def)

lemma mset_update:
  "mset (bucket_ids (AList.update k e b)) + (case map_of b k of None \<Rightarrow> {#} | Some e0 \<Rightarrow> mset (entry_ids e0)) =
     mset (bucket_ids b) + mset (entry_ids e)"
  by (induction b) (auto simp: bucket_ids_def split: option.splits)

lemma mset_append:
  "mset (bucket_ids (append_group_phase_bucket b d f)) = (if d_group d = None then {#} else {#d_id d#}) + mset (bucket_ids b)"
proof (cases "d_group d")
  case (Some g)
  define e where "e = (case map_of b (g_id g) of None \<Rightarrow> new_entry g | Some e \<Rightarrow> e)"
  define e' where "e' = e\<lparr>pi_device_ids := Some (entry_ids e @ [d_id d]), pi_force_vpn := (if f then Some True else pi_force_vpn e)\<rparr>"
  have "append_group_phase_bucket b d f = AList.update (g_id g) e' b"
    by (simp add: append_group_phase_bucket_def Some e_def e'_def Let_def)
  moreover have "entry_ids e' = entry_ids e @ [d_id d]" by (simp add: e'_def)
  moreover have "mset (entry_ids e) = (case map_of b (g_id g) of None \<Rightarrow> {#} | Some e0 \<Rightarrow> mset (entry_ids e0))"
    by (simp add: e_def split: option.split)
  ultimately show ?thesis using mset_update [of "g_id g" e' b] Some by simp
qed (simp add: append_group_phase_bucket_def)

text \<open>An entry of a bucket: its key, and devices of its group that the page put there.\<close>

definition sound_bucket :: "(device \<Rightarrow> bool) \<Rightarrow> device list \<Rightarrow> bucket \<Rightarrow> bool" where
  "sound_bucket Q ds b \<longleftrightarrow> (\<forall>(k, e) \<in> set b. pi_group_id e = Some k \<and> entry_ids e \<noteq> [] \<and>
     (\<forall>x \<in> set (entry_ids e). \<exists>d \<in> set ds. d_id d = x \<and> Q d \<and> map_option g_id (d_group d) = Some k))"

lemma sound_update:
  assumes "sound_bucket Q ds b" "pi_group_id e = Some k" "entry_ids e \<noteq> []"
    "\<And>x. x \<in> set (entry_ids e) \<Longrightarrow> \<exists>d \<in> set ds. d_id d = x \<and> Q d \<and> map_option g_id (d_group d) = Some k"
  shows "sound_bucket Q ds (AList.update k e b)"
  using assms unfolding sound_bucket_def by (induction b) auto

lemma sound_append:
  assumes b: "sound_bucket Q ds b" and "d \<in> set ds" and "Q d"
  shows "sound_bucket Q ds (append_group_phase_bucket b d f)"
proof (cases "d_group d")
  case (Some g)
  have "\<exists>d \<in> set ds. d_id d = x \<and> Q d \<and> map_option g_id (d_group d) = Some (g_id g)"
    if "map_of b (g_id g) = Some e" "x \<in> set (entry_ids e)" for e x
    using b map_of_SomeD [OF that(1)] that(2) unfolding sound_bucket_def by fastforce
  moreover have "pi_group_id e = Some (g_id g)" if "map_of b (g_id g) = Some e" for e
    using b map_of_SomeD [OF that] unfolding sound_bucket_def by fastforce
  moreover have "\<exists>d' \<in> set ds. d_id d' = d_id d \<and> Q d' \<and> map_option g_id (d_group d') = Some (g_id g)"
    using assms(2,3) Some by auto
  ultimately show ?thesis
    unfolding append_group_phase_bucket_def Some option.case Let_def
    by (intro sound_update [OF b]) (auto simp: new_entry_def split: option.splits)
qed (use b in \<open>simp add: append_group_phase_bucket_def\<close>)

lemma distinct_bucket: "(k, e) \<in> set b \<Longrightarrow> distinct (bucket_ids b) \<Longrightarrow> distinct (entry_ids e)"
  by (induction b) (auto simp: bucket_ids_def)

lemma mset_finalize:
  assumes "distinct (bucket_ids b)"
  shows "mset (items_ids (finalize_group_phase_payload b)) = mset (bucket_ids b)"
proof -
  let ?sorted = "sort_key (\<lambda>e. py_lower (or_empty (pi_group_name e))) (map snd b)"
  have drop: "sum_list (map (mset \<circ> entry_ids) (filter (\<lambda>e. entry_ids e \<noteq> []) es)) = sum_list (map (mset \<circ> entry_ids) es)" for es
    by (induction es) auto
  have "mset (sort (remdups (entry_ids e))) = mset (entry_ids e)" if "e \<in> set ?sorted" for e
    using that distinct_bucket [OF _ assms] by (auto simp: distinct_remdups_id)
  then have "mset (items_ids (finalize_group_phase_payload b)) = sum_list (map (mset \<circ> entry_ids) (filter (\<lambda>e. entry_ids e \<noteq> []) ?sorted))"
    by (auto simp: mset_items finalize_group_phase_payload_def o_def intro!: arg_cong [where f = sum_list])
  also have "\<dots> = sum_mset (image_mset (mset \<circ> entry_ids) (mset ?sorted))"
    by (simp only: drop mset_map [symmetric] sum_mset_sum_list)
  finally show ?thesis by (simp add: bucket_ids_def mset_items sum_mset_sum_list [symmetric] comp_assoc image_mset.compositionality)
qed

definition buckets_ids :: "buckets \<Rightarrow> string list" where
  "buckets_ids b = bucket_ids (bu_direct b) @ map d_id (bu_single b) @ bucket_ids (bu_jump b) @ bucket_ids (bu_vpn b)"

lemma route_group: "by_vpn env d \<Longrightarrow> d_group d \<noteq> None" "by_jump env d \<Longrightarrow> d_group d \<noteq> None"
  by (simp_all add: by_vpn_def by_jump_def)

lemma mset_place: "mset (buckets_ids (place_device env single d b)) = {#d_id d#} + mset (buckets_ids b)"
  using route_group [of env d] by (auto simp: place_device_def buckets_ids_def mset_append)

lemma mset_placed: "mset (buckets_ids (fold (place_device env single) ds b)) = mset (map d_id ds) + mset (buckets_ids b)"
  by (induction ds arbitrary: b) (simp_all add: mset_place)

text \<open>The way each part of a plan is reached.\<close>

definition reached_directly :: "(string \<Rightarrow> string option) \<Rightarrow> device \<Rightarrow> bool" where
  "reached_directly env d \<longleftrightarrow> \<not> by_vpn env d \<and> \<not> by_jump env d"

definition reached_by_jump :: "(string \<Rightarrow> string option) \<Rightarrow> device \<Rightarrow> bool" where
  "reached_by_jump env d \<longleftrightarrow> \<not> by_vpn env d \<and> by_jump env d"

definition sound_buckets :: "(string \<Rightarrow> string option) \<Rightarrow> device list \<Rightarrow> buckets \<Rightarrow> bool" where
  "sound_buckets env ds b \<longleftrightarrow> sound_bucket (reached_directly env) ds (bu_direct b) \<and> sound_bucket (reached_by_jump env) ds (bu_jump b) \<and>
     sound_bucket (by_vpn env) ds (bu_vpn b) \<and> (\<forall>d \<in> set (bu_single b). d \<in> set ds \<and> reached_directly env d)"

lemma sound_place: "sound_buckets env ds b \<Longrightarrow> d \<in> set ds \<Longrightarrow> sound_buckets env ds (place_device env single d b)"
  by (auto simp: sound_buckets_def place_device_def reached_directly_def reached_by_jump_def intro: sound_append)

lemma sound_placed: "sound_buckets env ds b \<Longrightarrow> set xs \<subseteq> set ds \<Longrightarrow> sound_buckets env ds (fold (place_device env single) xs b)"
  by (induction xs arbitrary: b) (auto intro: sound_place)

definition no_buckets :: buckets where
  "no_buckets = \<lparr>bu_direct = [], bu_single = [], bu_jump = [], bu_vpn = []\<rparr>"

lemma sound_start: "sound_buckets env ds no_buckets" and ids_start [simp]: "buckets_ids no_buckets = []"
  by (simp_all add: sound_buckets_def sound_bucket_def no_buckets_def buckets_ids_def bucket_ids_def)

lemma plan_batch_buckets:
  obtains b where "plan_batch env single ds = \<lparr>bp_direct = finalize_group_phase_payload (bu_direct b), bp_single = bu_single b,
      bp_jump = finalize_group_phase_payload (bu_jump b), bp_vpn = finalize_group_phase_payload (bu_vpn b)\<rparr>"
    and "mset (buckets_ids b) = mset (map d_id ds)" and "sound_buckets env ds b"
  using mset_placed [of env single ds no_buckets] sound_placed [OF sound_start order_refl, of env ds single]
  by (auto simp: plan_batch_def no_buckets_def [symmetric] Let_def)

lemma plan_permutes:
  assumes "distinct (map d_id ds)"
  shows "mset (plan_ids (plan_batch env single ds)) = mset (map d_id ds)"
proof -
  obtain b where p: "plan_batch env single ds = \<lparr>bp_direct = finalize_group_phase_payload (bu_direct b), bp_single = bu_single b,
      bp_jump = finalize_group_phase_payload (bu_jump b), bp_vpn = finalize_group_phase_payload (bu_vpn b)\<rparr>"
    and m: "mset (buckets_ids b) = mset (map d_id ds)" by (rule plan_batch_buckets)
  have "distinct (buckets_ids b)" using assms m mset_eq_imp_distinct_iff by blast
  then have "mset (plan_ids (plan_batch env single ds)) = mset (buckets_ids b)"
    by (simp add: p plan_ids_def buckets_ids_def mset_finalize)
  with m show ?thesis by simp
qed

text \<open>An item of a plan: devices of one group, each reached this way.\<close>

definition sound_item :: "(device \<Rightarrow> bool) \<Rightarrow> device list \<Rightarrow> phase_item \<Rightarrow> bool" where
  "sound_item Q ds i \<longleftrightarrow> (\<exists>k. pi_group_id i = Some (py_strip k) \<and> entry_ids i \<noteq> [] \<and> sorted (entry_ids i) \<and> distinct (entry_ids i) \<and>
     (\<forall>x \<in> set (entry_ids i). \<exists>d \<in> set ds. d_id d = x \<and> Q d \<and> map_option g_id (d_group d) = Some k))"

lemma sound_finalize:
  assumes "sound_bucket Q ds b"
  shows "i \<in> set (finalize_group_phase_payload b) \<Longrightarrow> sound_item Q ds i"
proof -
  assume "i \<in> set (finalize_group_phase_payload b)"
  then obtain k e where e: "(k, e) \<in> set b" and i: "pi_group_id i = Some (py_strip (or_empty (pi_group_id e)))" "entry_ids i = sort (remdups (entry_ids e))"
    by (auto simp: finalize_group_phase_payload_def)
  from assms e have k: "pi_group_id e = Some k" "entry_ids e \<noteq> []"
    "\<forall>x \<in> set (entry_ids e). \<exists>d \<in> set ds. d_id d = x \<and> Q d \<and> map_option g_id (d_group d) = Some k"
    by (auto simp: sound_bucket_def)
  then have "entry_ids i \<noteq> []" "sorted (entry_ids i)" "distinct (entry_ids i)" "set (entry_ids i) = set (entry_ids e)" "pi_group_id i = Some (py_strip k)"
    using i by (auto simp: or_empty_def simp flip: set_empty)
  with k(3) show ?thesis unfolding sound_item_def by blast
qed

lemma plan_routes:
  assumes "p = plan_batch env single ds"
  shows "\<forall>i \<in> set (bp_direct p). sound_item (reached_directly env) ds i" "\<forall>d \<in> set (bp_single p). d \<in> set ds \<and> reached_directly env d"
    "\<forall>i \<in> set (bp_jump p). sound_item (reached_by_jump env) ds i" "\<forall>i \<in> set (bp_vpn p). sound_item (by_vpn env) ds i"
proof -
  obtain b where "p = \<lparr>bp_direct = finalize_group_phase_payload (bu_direct b), bp_single = bu_single b,
      bp_jump = finalize_group_phase_payload (bu_jump b), bp_vpn = finalize_group_phase_payload (bu_vpn b)\<rparr>"
    and "sound_buckets env ds b" unfolding assms by (rule plan_batch_buckets)
  then show "\<forall>i \<in> set (bp_direct p). sound_item (reached_directly env) ds i" "\<forall>d \<in> set (bp_single p). d \<in> set ds \<and> reached_directly env d"
    "\<forall>i \<in> set (bp_jump p). sound_item (reached_by_jump env) ds i" "\<forall>i \<in> set (bp_vpn p). sound_item (by_vpn env) ds i"
    by (auto simp: sound_buckets_def intro: sound_finalize)
qed

section \<open>What is sent first\<close>

fun order_ids :: "order \<Rightarrow> string list" where
  "order_ids (RunDevice d b) = [d]"
| "order_ids (RunGroup g) = go_devices g"
| "order_ids (AuditDevice d b) = []"

definition message_ids :: "message \<Rightarrow> string list" where
  "message_ids m = order_ids (mg_order m)"

definition sigs_for :: "(string \<Rightarrow> string option) \<Rightarrow> string \<Rightarrow> string option \<Rightarrow> batch_plan \<Rightarrow> message list \<Rightarrow> bool" where
  "sigs_for env t bulk p sigs \<longleftrightarrow> (\<exists>gs ss. sigs = gs @ ss \<and>
     list_all2 (\<lambda>i m. \<exists>tid. m = group_signature t bulk tid i) (bp_direct p) gs \<and>
     list_all2 (\<lambda>d m. \<exists>tid n. m = device_signature env bulk tid n d) (bp_single p) ss)"

definition phase_call :: "string \<Rightarrow> string option \<Rightarrow> batch_plan \<Rightarrow> vpn_phase" where
  "phase_call t bulk p = \<lparr>vp_tenant = t, vp_groups = map Some (bp_vpn p), vp_bulk = bulk\<rparr>"

definition first_events :: "message list \<Rightarrow> batch_plan \<Rightarrow> vpn_phase \<Rightarrow> event list" where
  "first_events sigs p c =
     (if bp_jump p \<noteq> [] \<or> bp_vpn p \<noteq> [] then [if sigs \<noteq> [] then Phased sigs (bp_jump p) c else Started (bp_jump p) c] else map Sent sigs)"

lemma sigs_ids: "sigs_for env t bulk p sigs \<Longrightarrow> concat (map message_ids sigs) = items_ids (bp_direct p) @ map d_id (bp_single p)"
proof -
  have "list_all2 (\<lambda>i m. \<exists>tid. m = group_signature t bulk tid i) is gs \<Longrightarrow> concat (map message_ids gs) = items_ids is" for gs "is"
    by (induction rule: list_all2_induct) (auto simp: message_ids_def group_signature_def)
  moreover have "list_all2 (\<lambda>d m. \<exists>tid n. m = device_signature env bulk tid n d) ds ss \<Longrightarrow> concat (map message_ids ss) = map d_id ds" for ds ss
    by (induction rule: list_all2_induct) (auto simp: message_ids_def device_signature_def)
  moreover assume "sigs_for env t bulk p sigs"
  ultimately show ?thesis by (auto simp: sigs_for_def)
qed

lemma sigs_parts:
  assumes "sigs_for env t bulk p sigs" "m \<in> set sigs"
  shows "(\<exists>i \<in> set (bp_direct p). mg_queue m = ''celery'' \<and> message_ids m = entry_ids i) \<or>
    (\<exists>d \<in> set (bp_single p). mg_queue m = backup_queue_for_device env d \<and> message_ids m = [d_id d])"
proof -
  from assms obtain gs ss where parts: "m \<in> set gs \<or> m \<in> set ss"
      "list_all2 (\<lambda>i m. \<exists>tid. m = group_signature t bulk tid i) (bp_direct p) gs"
      "list_all2 (\<lambda>d m. \<exists>tid n. m = device_signature env bulk tid n d) (bp_single p) ss"
    by (auto simp: sigs_for_def)
  from parts(1) show ?thesis
  proof
    assume "m \<in> set gs"
    with list_all2_partner(2) [OF parts(2)] obtain i tid where "i \<in> set (bp_direct p)" "m = group_signature t bulk tid i" by blast
    then show ?thesis by (auto simp: group_signature_def message_ids_def)
  next
    assume "m \<in> set ss"
    with list_all2_partner(2) [OF parts(3)] obtain d tid n where "d \<in> set (bp_single p)" "m = device_signature env bulk tid n d" by blast
    then show ?thesis by (auto simp: device_signature_def message_ids_def)
  qed
qed

lemma spec_bind_fact:
  "io_spec P m (\<lambda>a s. P' s \<and> C a) E \<Longrightarrow> (\<And>a. C a \<Longrightarrow> io_spec P' (f a) Q E) \<Longrightarrow> io_spec P (io_bind m f) Q E"
  unfolding io_spec_def io_bind_def by (fastforce split: prod.splits option.splits)

lemma spec_cases: "(b \<Longrightarrow> io_spec P m Q E) \<Longrightarrow> (\<not> b \<Longrightarrow> io_spec P n Q E) \<Longrightarrow> io_spec P (if b then m else n) Q E"
  by simp

text \<open>What a preflight may leave out.\<close>

definition preflight_ok :: "(string \<Rightarrow> string option) \<Rightarrow> bool \<Rightarrow> device list \<Rightarrow> device list \<Rightarrow> bool" where
  "preflight_ok env unv ds ds' \<longleftrightarrow> subseq ds' ds \<and>
     (\<forall>d \<in> set ds. d \<in> set ds' \<or> (\<not> unv \<and> (\<exists>now. should_skip (preflight_rules env False) unv now d)) \<or> by_jump env d)"

definition reply_counts :: "device list \<Rightarrow> batch_plan \<Rightarrow> page \<Rightarrow> bool" where
  "reply_counts ds p rep \<longleftrightarrow> (\<exists>fl tg. rep = Redirect fl tg) \<or>
     (\<exists>d. rep = Json 202 d \<and> dget d ''total_devices'' = PInt (int (length ds)) \<and> dget d ''queued_direct'' = PInt (int (queued_direct p)) \<and>
        dget d ''queued_jump'' = PInt (int (item_count (bp_jump p))) \<and> dget d ''queued_vpn_groups'' = PInt (int (length (bp_vpn p))))"

text \<open>A page has started a batch of \<open>ds\<close>: it answered \<open>rep\<close>, and the broker's box grew from \<open>es\<close> to \<open>out\<close>.\<close>

definition batch_started ::
  "(string \<Rightarrow> string option) \<Rightarrow> string \<Rightarrow> string option \<Rightarrow> bool \<Rightarrow> device list \<Rightarrow> event list \<Rightarrow> page \<Rightarrow> event list \<Rightarrow> bool" where
  "batch_started env t bulk single ds es rep out \<longleftrightarrow> (\<exists>sigs. let p = plan_batch env single ds in
     out = es @ first_events sigs p (phase_call t bulk p) \<and> sigs_for env t bulk p sigs \<and> reply_counts ds p rep)"

definition tenant_scope :: "launch_db \<Rightarrow> string \<Rightarrow> device set" where
  "tenant_scope db t = {d \<in> set (ld_devices db). d_tenant_id d = t \<and> in_active_group d}"

lemma candidates:
  assumes "candidate_devices db t raws found bad = (ds, n)" "distinct (map d_id found)" "set found \<subseteq> tenant_scope db t"
  shows "distinct (map d_id ds) \<and> set ds \<subseteq> tenant_scope db t"
  using assms
proof (induction raws arbitrary: found bad)
  case (Cons raw raws)
  show ?case
  proof (cases "Option.bind (parse_uuid raw) (\<lambda>u. find (\<lambda>d. d_id d = u \<and> d_tenant_id d = t \<and> in_active_group d) (ld_devices db))")
    case None
    then obtain bad' where "candidate_devices db t raws found bad' = (ds, n)"
      using Cons.prems(1) by (auto split: option.splits)
    from Cons.IH [OF this Cons.prems(2,3)] show ?thesis .
  next
    case (Some d)
    then have d: "d \<in> tenant_scope db t"
      by (auto simp: tenant_scope_def dest!: find_hit split: Option.bind_splits)
    from Some Cons.prems(1)
    have "candidate_devices db t raws (if d_id d \<in> set (map d_id found) then found else found @ [d]) bad = (ds, n)"
      by (auto split: option.splits Option.bind_splits)
    from Cons.IH [OF this] Cons.prems(2,3) d show ?thesis by auto
  qed
qed auto

lemma split_subseq: "split_mass_backup_devices ds ex = (a, b) \<Longrightarrow> subseq a ds \<and> (\<forall>d \<in> set ds. d \<in> set a \<or> d \<in> set b)"
  by (auto simp: split_mass_backup_devices_def Let_def)

definition wanted_by_all :: "launch_db \<Rightarrow> launch_form \<Rightarrow> tenant \<Rightarrow> bool \<Rightarrow> device list \<Rightarrow> bool" where
  "wanted_by_all db f tn unv ds \<longleftrightarrow> unv = value_bool (lf_include_unvalidated f) False \<and>
     ds = fst (split_mass_backup_devices (devices_in_scope db f (t_id tn)) (resolve_mass_backup_excluded_type_ids (ld_types db)))"

locale launch_host = phase_host outbox R emit M P
  for outbox :: "'s \<Rightarrow> event list" and R emit M P +
  fixes L :: "'s launcher"
  assumes phase: "ln_phase L = P"
    and chorded: "case ln_chord L ms jump c s of (None, s') \<Rightarrow> outbox s' = outbox s | (Some _, s') \<Rightarrow> outbox s' = outbox s @ [Phased ms jump c]"
    and begun: "case ln_start L jump c s of (None, s') \<Rightarrow> outbox s' = outbox s | (Some _, s') \<Rightarrow> outbox s' = outbox s @ [Started jump c]"
    and probe_quiet [within]: "io_within (\<lambda>s s'. outbox s' = outbox s) (ln_probe L h p n)"
    and activity_quiet [within]: "io_within (\<lambda>s s'. outbox s' = outbox s) (ln_activity L t a d)"
begin

lemma chorded_spec: "io_spec (holds es) (ln_chord L ms jump c) (\<lambda>_. holds (es @ [Phased ms jump c])) (\<lambda>_. True)"
  by (rule io_specI) (insert chorded [where ms = ms and jump = jump and c = c], fastforce split: prod.splits option.splits)

lemma begun_spec: "io_spec (holds es) (ln_start L jump c) (\<lambda>_. holds (es @ [Started jump c])) (\<lambda>_. True)"
  by (rule io_specI) (insert begun [where jump = jump and c = c], fastforce split: prod.splits option.splits)

lemma child_quiet [within]: "io_within (\<lambda>s s'. outbox s' = outbox s) (register_child M t tid d n g)"
  unfolding register_child_def register_task_def client sink by (intro within within_write_meta) auto

lemma launch_log_quiet [within]: "io_within (\<lambda>s s'. outbox s' = outbox s) (launch_log M bulk who line level)"
  unfolding launch_log_def by (intro within)

lemma flag_quiet [within]: "io_within (\<lambda>s s'. outbox s' = outbox s) (clear_global_force_stop_flag M)"
  unfolding clear_global_force_stop_flag_def client option.case by (intro within within_delete) auto

lemma reset_quiet [within]: "io_within (\<lambda>s s'. outbox s' = outbox s) (reset_circuit_breakers_for_new_batch (m_client M) (m_emit M))"
  unfolding reset_circuit_breakers_for_new_batch_def clear_prefix_def client sink option.case Let_def by (intro within within_delete) auto

lemma reserve_quiet [within]: "io_within (\<lambda>s s'. outbox s' = outbox s) (reserve_bulk M t b)"
  unfolding reserve_bulk_def acquire_tenant_bulk_lock_def client sink option.case Let_def by (intro within within_delete within_set_nx) auto

lemma merge_quiet [within]: "io_within (\<lambda>s s'. outbox s' = outbox s) (merge_existing_bulk_children M b cs n)"
  unfolding merge_existing_bulk_children_def opt_io_def client sink by (intro within)

lemma meta_quiet [within]: "io_within (\<lambda>s s'. outbox s' = outbox s) (task_meta M t d)"
  by (intro within_task_meta) auto

lemma sigs_spec:
  "io_spec (holds es) (batch_signatures P t bulk p) (\<lambda>sigs s. outbox s = es \<and> sigs_for (m_env M) t bulk p sigs) (\<lambda>_. True)"
proof -
  have reg: "io_spec (holds es) (register_child M t' tid d n g) (\<lambda>_. holds es) (\<lambda>_. True)" for t' tid d n g
    by (rule quiet [OF child_quiet])
  have groups: "io_spec (holds es) (group_signatures P t bulk n items sigs)
      (\<lambda>res s. outbox s = es \<and> (\<exists>gs. res = sigs @ gs \<and> list_all2 (\<lambda>i m. \<exists>tid. m = group_signature t bulk tid i) items gs)) (\<lambda>_. True)" for n items sigs
  proof (induction items arbitrary: n sigs)
    case (Cons i items)
    show ?case
      unfolding group_signatures.simps Let_def machine
      by (rule spec_seq [OF reg], rule spec_conseq [OF Cons.IH]) (auto simp: list_all2_Cons1)
  qed (auto intro!: triple)
  have devices: "io_spec (holds es) (device_signatures P t bulk n cnt ds sigs)
      (\<lambda>res s. outbox s = es \<and> (\<exists>ss. res = sigs @ ss \<and> list_all2 (\<lambda>d m. \<exists>tid n. m = device_signature (m_env M) bulk tid n d) ds ss)) (\<lambda>_. True)" for n cnt ds sigs
  proof (induction ds arbitrary: n cnt sigs)
    case (Cons d ds)
    obtain c cnt' where c: "next_countdown_for_device (m_env M) d cnt = (c, cnt')" by fastforce
    show ?case
      unfolding device_signatures.simps Let_def machine c prod.case
      by (rule spec_seq [OF reg], rule spec_conseq [OF Cons.IH]) (auto simp: list_all2_Cons1, blast)
  qed (auto intro!: triple)
  show ?thesis
    unfolding batch_signatures_def
    by (rule spec_bind_fact [OF groups], rule spec_conseq [OF devices]) (auto simp: sigs_for_def)
qed

lemma phases_spec:
  assumes "\<And>line. io_within (\<lambda>s s'. outbox s' = outbox s) (say line)"
  shows "io_spec (holds es) (start_phases L t bulk sigs p say)
    (\<lambda>deferred s. outbox s = es @ first_events sigs p (phase_call t bulk p) \<and> deferred = (bp_jump p \<noteq> [] \<or> bp_vpn p \<noteq> [])) (\<lambda>_. True)"
proof -
  have said: "io_spec (holds es) (say line) (\<lambda>_. holds es) (\<lambda>_. True)" for es line by (rule quiet [OF assms])
  have sends: "io_spec (holds es) (send_all (ph_send P) sigs) (\<lambda>_. holds (es @ map Sent sigs)) (\<lambda>_. True)"
    unfolding send_all_def by (rule for_spec)
  show ?thesis
    unfolding start_phases_def phase Let_def
    by (intro spec_cases spec_seq [OF chorded_spec] spec_seq [OF said] spec_seq [OF begun_spec] spec_seq [OF sends] spec_ret)
      (auto simp: first_events_def phase_call_def)
qed

lemma preflight_devices_spec:
  assumes "\<not> pr_auto_audit rules"
  shows "io_spec (holds es) (preflight_devices P rules t bulk unv ds acc)
    (\<lambda>(ds', pf) s. outbox s = es \<and> (\<exists>xs. ds' = fst acc @ xs \<and> subseq xs ds \<and>
       (\<forall>d \<in> set ds. d \<in> set xs \<or> (\<exists>now. should_skip rules unv now d)))) (\<lambda>_. True)"
proof (induction ds arbitrary: acc)
  case (Cons d ds)
  obtain allowed pf where acc: "acc = (allowed, pf)" by fastforce
  have metric: "io_spec (holds es) (count_device_metric M t c) (\<lambda>_. holds es) (\<lambda>_. True)" for c
    unfolding count_device_metric_def by (intro quiet within)
  have now: "io_spec (holds es) (io_read (m_now M)) (\<lambda>_. holds es) (\<lambda>_. True)" by (intro quiet within)
  show ?case
    unfolding acc preflight_devices.simps Let_def machine
  proof (rule spec_bind [OF now], rule spec_seq [OF metric], goal_cases)
    case (1 now)
    have "io_spec (holds es) (preflight_devices P rules t bulk unv ds (if should_skip rules unv now d then allowed else allowed @ [d], pf'))
        (\<lambda>(ds', pf) s. outbox s = es \<and> (\<exists>xs. ds' = fst (allowed, pf0) @ xs \<and> subseq xs (d # ds) \<and>
           (\<forall>d \<in> set (d # ds). d \<in> set xs \<or> (\<exists>now. should_skip rules unv now d)))) (\<lambda>_. True)" for pf' pf0
    proof (rule spec_conseq [OF Cons.IH], goal_cases)
      case (2 a s)
      then obtain xs where xs: "outbox s = es" "fst a = (if should_skip rules unv now d then allowed else allowed @ [d]) @ xs" "subseq xs ds"
        "\<forall>d \<in> set ds. d \<in> set xs \<or> (\<exists>now. should_skip rules unv now d)" by (auto split: prod.splits)
      then have "\<exists>ys. fst a = allowed @ ys \<and> subseq ys (d # ds) \<and> (\<forall>x \<in> set (d # ds). x \<in> set ys \<or> (\<exists>now. should_skip rules unv now x))"
        by (cases "should_skip rules unv now d") (force intro: exI [of _ xs], force intro: exI [of _ "d # xs"])
      with xs(1) show ?case by (auto split: prod.split)
    qed auto
    then show ?case
      using assms by (auto intro!: spec_bind [of _ _ "\<lambda>_. holds es"] spec_ret)
  qed
qed (auto intro!: triple split: prod.split)

lemma pass_spec:
  "io_spec (holds es) (pass_reachable M t skip bad ds acc)
     (\<lambda>(ds', n) s. outbox s = es \<and> (\<exists>xs. ds' = fst acc @ xs \<and> subseq xs ds \<and> (\<forall>d \<in> set ds. d \<in> set xs \<or> by_jump (m_env M) d))) (\<lambda>_. True)"
proof (induction ds arbitrary: acc)
  case (Cons d ds)
  obtain allowed n where acc: "acc = (allowed, n)" by fastforce
  have metric: "io_spec (holds es) (count_device_metric M t c) (\<lambda>_. holds es) (\<lambda>_. True)" for c
    unfolding count_device_metric_def by (intro quiet within)
  have jump: "by_jump (m_env M) d" if "device_jump_endpoint (m_env M) d = Some e" for e
    using that by (auto simp: device_jump_endpoint_def by_jump_def split: option.splits if_splits)
  have go: "io_spec (holds es) (pass_reachable M t skip bad ds (if out then allowed else allowed @ [d], n'))
        (\<lambda>(ds', n) s. outbox s = es \<and> (\<exists>xs. ds' = fst (allowed, n0) @ xs \<and> subseq xs (d # ds) \<and>
           (\<forall>d \<in> set (d # ds). d \<in> set xs \<or> by_jump (m_env M) d))) (\<lambda>_. True)" if "out \<Longrightarrow> by_jump (m_env M) d" for out n' n0
  proof (rule spec_conseq [OF Cons.IH], goal_cases)
    case (2 a s)
    then obtain xs where xs: "outbox s = es" "fst a = (if out then allowed else allowed @ [d]) @ xs" "subseq xs ds"
      "\<forall>d \<in> set ds. d \<in> set xs \<or> by_jump (m_env M) d" by (auto split: prod.splits)
    then have "\<exists>ys. fst a = allowed @ ys \<and> subseq ys (d # ds) \<and> (\<forall>x \<in> set (d # ds). x \<in> set ys \<or> by_jump (m_env M) x)"
      using that by (cases out) (force intro: exI [of _ xs], force intro: exI [of _ "d # xs"])
    with xs(1) show ?case by (auto split: prod.split)
  qed auto
  show ?case
  proof (cases "device_jump_endpoint (m_env M) d")
    case None
    with go [of False n n] show ?thesis by (simp add: acc)
  next
    case (Some e)
    obtain key host port where e: "e = (key, host, port)" by (metis prod_cases3)
    let ?out = "key \<in> set bad \<and> skip"
    have "pass_reachable M t skip bad (d # ds) acc = io_seq (count_device_metric M t (if key \<in> set bad then ''jump_host_unreachable'' else ''jump_host_ready''))
        (pass_reachable M t skip bad ds (if ?out then allowed else allowed @ [d], if ?out then Suc n else n))"
      by (simp add: acc Some e)
    with go [of ?out "if ?out then Suc n else n" n] jump [OF Some] show ?thesis
      by (simp only: acc) (rule spec_seq [OF metric], simp)
  qed
qed (auto intro!: triple split: prod.split)

lemma probe_endpoints_quiet [within]: "io_within (\<lambda>s s'. outbox s' = outbox s) (probe_endpoints (ln_probe L) n es acc)"
proof (induction es arbitrary: acc)
  case (Cons e es)
  obtain key ep bad rows where "e = (key, ep)" "acc = (bad, rows)" by (metis surj_pair)
  with Cons show ?case by (simp add: Let_def split: prod.split) (intro within impI conjI allI; simp)
qed (auto intro: within split: prod.split)

lemma preflights_spec:
  "io_spec (holds es) (preflights L ds t bulk unv) (\<lambda>(ds', pf, jp) s. outbox s = es \<and> preflight_ok (m_env M) unv ds ds') (\<lambda>_. True)"
proof -
  define skip where "skip d = (\<not> unv \<and> (\<exists>now. should_skip (preflight_rules (m_env M) False) unv now d))" for d
  have skipped: "should_skip (preflight_rules (m_env M) False) unv now d \<Longrightarrow> skip d" for now d
    by (auto simp: skip_def should_skip_def)
  have rules: "\<not> pr_auto_audit (preflight_rules (m_env M) False)" by (simp add: preflight_rules_def)
  have first: "io_spec (holds es) (bulk_preflight_filter_devices P ds t bulk unv False)
      (\<lambda>r s. outbox s = es \<and> subseq (fst r) ds \<and> (\<forall>d \<in> set ds. d \<in> set (fst r) \<or> skip d)) (\<lambda>_. True)"
    unfolding bulk_preflight_filter_devices_def Let_def machine
  proof (rule spec_cases, goal_cases)
    case 2
    show ?case
    proof (rule spec_conseq [OF preflight_devices_spec [OF rules, of es]], goal_cases)
      case (2 a s)
      with skipped show ?case by (cases a) auto
    qed simp_all
  qed (auto intro!: spec_ret)
  have second: "io_spec (holds es) (bulk_preflight_jump_hosts M (ln_probe L) ds1 t)
      (\<lambda>r s. outbox s = es \<and> subseq (fst r) ds1 \<and> (\<forall>d \<in> set ds1. d \<in> set (fst r) \<or> by_jump (m_env M) d)) (\<lambda>_. True)" for ds1
    unfolding bulk_preflight_jump_hosts_def Let_def
  proof (intro spec_cases, goal_cases)
    case 3
    show ?case
    proof (rule spec_bind [OF quiet [OF probe_endpoints_quiet]], unfold split_beta, rule spec_bind [OF pass_spec], goal_cases)
      case (1 a b)
      show ?case by (rule spec_ret) (auto split: prod.splits)
    qed
  qed (auto intro!: spec_ret)
  show ?thesis
    unfolding preflights_def phase machine split_beta
    by (rule spec_bind_fact [OF first], rule spec_bind_fact [OF second], rule spec_ret)
      (auto simp: preflight_ok_def skip_def [symmetric] intro: subseq_order.trans)
qed

definition granted :: "event list \<Rightarrow> string \<Rightarrow> string \<Rightarrow> bool" where
  "granted es t b \<longleftrightarrow> (\<exists>s1 h s2. outbox s1 = es \<and> outbox s2 = es \<and> acquire_tenant_bulk_lock (m_log M) (m_client M) (m_emit M) t b s1 = (Some (True, h), s2))"

lemma reserve_spec: "io_spec (holds es) (reserve_bulk M t b) (\<lambda>r s. outbox s = es \<and> (r = None \<longrightarrow> granted es t b)) (\<lambda>_. True)"
proof (rule io_specI)
  fix s assume s: "outbox s = es"
  from reserve_quiet [of t b] s have q: "outbox (snd (reserve_bulk M t b s)) = es" by (simp add: io_within_def)
  obtain r s' where run: "acquire_tenant_bulk_lock (m_log M) (m_client M) (m_emit M) t b s = (r, s')" by fastforce
  with q s show "case reserve_bulk M t b s of (None, s') \<Rightarrow> True | (Some r, s') \<Rightarrow> outbox s' = es \<and> (r = None \<longrightarrow> granted es t b)"
    by (cases r) (auto simp: reserve_bulk_def io_bind_def io_ret_def granted_def split: if_splits intro!: exI [of _ s])
qed

lemma start_spec:
  assumes "\<And>line. io_within (\<lambda>s s'. outbox s' = outbox s) (say line)"
    and "\<And>sigs d. sigs_for (m_env M) t bulk p sigs \<Longrightarrow> d = (bp_jump p \<noteq> [] \<or> bp_vpn p \<noteq> []) \<Longrightarrow>
      io_spec (holds (es @ first_events sigs p (phase_call t bulk p))) (k sigs d) Q (\<lambda>_. True)"
    and "\<And>sigs. io_within (\<lambda>s s'. outbox s' = outbox s) (before sigs)"
  shows "io_spec (holds es) (io_bind (batch_signatures P t bulk p) (\<lambda>sigs. io_seq (before sigs) (io_bind (start_phases L t bulk sigs p say) (k sigs)))) Q (\<lambda>_. True)"
  by (rule spec_bind_fact [OF sigs_spec], rule spec_seq [OF quiet [OF assms(3)]], rule spec_bind_fact [OF phases_spec [OF assms(1)]])
    (rule assms(2))

lemma seq_ret_unit: "io_seq (io_ret ()) m = m"
  by (simp add: io_seq_def io_bind_def io_ret_def fun_eq_iff)

lemmas quiet_rules = spec_bind [OF quiet] spec_seq [OF quiet]

lemma ended:
  assumes "sigs_for (m_env M) t bulk (plan_batch (m_env M) single ds) sigs" "reply_counts ds (plan_batch (m_env M) single ds) rep"
  shows "io_spec (holds (es @ first_events sigs (plan_batch (m_env M) single ds) (phase_call t bulk (plan_batch (m_env M) single ds))))
    (io_ret rep) (\<lambda>rep s. batch_started (m_env M) t bulk single ds es rep (outbox s)) (\<lambda>_. True)"
  using assms by (auto simp: batch_started_def Let_def intro!: spec_ret)

lemma logs_quiet [within]:
  "io_within (\<lambda>s s'. outbox s' = outbox s) (excluded_log M b w n flow)"
  "io_within (\<lambda>s s'. outbox s' = outbox s) (preflight_log M b w u pf)"
  "io_within (\<lambda>s s'. outbox s' = outbox s) (jump_preflight_log M b w jp)"
  unfolding excluded_log_def preflight_log_def jump_preflight_log_def by (intro within)+

lemma announce_quiet [within]:
  "io_within (\<lambda>s s'. outbox s' = outbox s) (announce_all M f t bulk c n x pf jp)"
  "io_within (\<lambda>s s'. outbox s' = outbox s) (announce_selected M f t bulk g c x pf jp)"
  "io_within (\<lambda>s s'. outbox s' = outbox s) (announce_reprocess M t b l tr n x pf jp)"
  unfolding announce_all_def announce_selected_def announce_reprocess_def by (intro within)+

lemma launch_all_spec:
  "io_spec (holds es) (launch_all L f slug t bulk cleared ds x pf jp)
     (\<lambda>rep s. batch_started (m_env M) t bulk (or_empty (lf_group_id f) \<noteq> []) ds es rep (outbox s)) (\<lambda>_. True)"
proof -
  let ?single = "or_empty (lf_group_id f) \<noteq> []"
  let ?p = "plan_batch (m_env M) ?single ds"
  have reply: "reply_counts ds ?p (all_reply L slug b (all_queued_fields ?single ?p n) (length ds) tt g x pf jp)" for b n tt g
    by (simp add: reply_counts_def all_reply_def all_queued_fields_def queued_fields_def)
  have redirect: "reply_counts ds ?p (Redirect fl tg)" for fl tg by (simp add: reply_counts_def)
  show ?thesis
    unfolding launch_all_def Let_def phase machine
  proof (rule spec_seq [OF quiet], (intro within)[1], rule spec_seq [OF quiet], (intro within)[1],
      rule start_spec [where before = "\<lambda>_. io_ret ()", unfolded seq_ret_unit], goal_cases)
    case (2 sigs d)
    show ?case
    proof (rule spec_seq [OF quiet [OF activity_quiet]], cases bulk, goal_cases)
      case 1
      with 2 redirect show ?case by (auto intro: ended)
    next
      case (2 b)
      with \<open>sigs_for _ _ _ _ _\<close> show ?case
        unfolding 2 option.case split_beta
        by (intro spec_bind [OF quiet [OF merge_quiet]] spec_bind [OF quiet [OF meta_quiet]] spec_seq [OF quiet [OF log_quiet]]) (rule ended; simp add: reply)
    qed
  qed (intro within)+
qed

lemma launch_selected_spec:
  "io_spec (holds es) (launch_selected L f slug t bulk g cleared ds bad x pf jp)
     (\<lambda>rep s. batch_started (m_env M) t bulk False ds es rep (outbox s)) (\<lambda>_. True)"
proof -
  let ?p = "plan_batch (m_env M) False ds"
  have reply: "reply_counts ds ?p (selected_reply L slug b (queued_fields ?p @ [(''queued_subgroup'', n)]) (length ds) tt x pf jp)" for b n tt
    by (simp add: reply_counts_def selected_reply_def queued_fields_def)
  have redirect: "reply_counts ds ?p (Redirect fl tg)" for fl tg by (simp add: reply_counts_def)
  show ?thesis
    unfolding launch_selected_def Let_def phase machine
  proof (rule start_spec, goal_cases)
    case (2 sigs d)
    show ?case
    proof (rule spec_seq [OF quiet [OF activity_quiet]], cases bulk, goal_cases)
      case 1
      with 2 redirect show ?case by (auto intro: ended)
    next
      case (2 b)
      with \<open>sigs_for _ _ _ _ _\<close> show ?case
        unfolding 2 option.case split_beta
        by (intro spec_bind [OF quiet [OF merge_quiet]] spec_bind [OF quiet [OF meta_quiet]] spec_seq [OF quiet [OF log_quiet]]) (rule ended; simp add: reply)
    qed
  qed (intro within)+
qed

lemma launch_reprocess_spec:
  "io_spec (holds es) (launch_reprocess L f slug t b label ds x pf jp)
     (\<lambda>rep s. batch_started (m_env M) t (Some b) False ds es rep (outbox s)) (\<lambda>_. True)"
proof -
  let ?p = "plan_batch (m_env M) False ds"
  have reply: "reply_counts ds ?p (reprocess_reply L a slug b ?p (length ds) tt x pf jp)" for a tt
    by (simp add: reply_counts_def reprocess_reply_def queued_fields_def)
  show ?thesis
    unfolding launch_reprocess_def Let_def phase machine
  proof (rule spec_seq [OF quiet], (intro within)[1], rule start_spec [where before = "\<lambda>_. io_ret ()", unfolded seq_ret_unit], goal_cases)
    case (2 sigs d)
    then show ?case
      unfolding split_beta
      by (intro spec_bind [OF quiet [OF merge_quiet]] spec_bind [OF quiet [OF meta_quiet]] spec_seq [OF quiet [OF log_quiet]] spec_seq [OF quiet [OF activity_quiet]])
        (rule ended; simp add: reply)
  qed (intro within)+
qed

text \<open>What a page that starts batches has done when it answers; \<open>A\<close> says which devices it looked for.\<close>

definition launch_outcome :: "(tenant \<Rightarrow> bool \<Rightarrow> device list \<Rightarrow> bool) \<Rightarrow> launch_db \<Rightarrow> caller \<Rightarrow> string \<Rightarrow> launch_form \<Rightarrow> event list \<Rightarrow> page \<Rightarrow> event list \<Rightarrow> bool" where
  "launch_outcome A db ca slug f es rep out \<longleftrightarrow> out = es \<or>
     (\<exists>tn bulk single ds. (ca_super ca \<or> ca_slug ca = Some slug) \<and> find (\<lambda>t. t_slug t = slug) (ca_tenants ca) = Some tn \<and>
        distinct (map d_id ds) \<and> set ds \<subseteq> tenant_scope db (t_id tn) \<and> (\<exists>unv ds0. A tn unv ds0 \<and> preflight_ok (m_env M) unv ds0 ds) \<and>
        (is_ajax f \<longrightarrow> bulk \<noteq> None \<and> granted es (t_id tn) (the bulk)) \<and>
        batch_started (m_env M) (t_id tn) bulk single ds es rep out)"

lemma nothing_sent: "io_spec (holds es) (io_ret rep) (\<lambda>rep s. launch_outcome A db ca slug f es rep (outbox s)) (\<lambda>_. True)"
  by (rule spec_ret) (simp add: launch_outcome_def)

lemma tenant_spec:
  assumes "\<And>tn. ca_super ca \<or> ca_slug ca = Some slug \<Longrightarrow> find (\<lambda>t. t_slug t = slug) (ca_tenants ca) = Some tn \<Longrightarrow>
    io_spec (holds es) (k tn) (\<lambda>rep s. launch_outcome A db ca slug f es rep (outbox s)) (\<lambda>_. True)"
  shows "io_spec (holds es) (with_launch_tenant ca slug k) (\<lambda>rep s. launch_outcome A db ca slug f es rep (outbox s)) (\<lambda>_. True)"
  unfolding with_launch_tenant_def
  by (rule spec_cases) (auto intro!: nothing_sent assms split: option.split)

text \<open>From the devices a page has found to its answer: the preflights, the lock, and the batch.\<close>

lemma found_spec:
  assumes "ca_super ca \<or> ca_slug ca = Some slug" and "find (\<lambda>t. t_slug t = slug) (ca_tenants ca) = Some tn"
    and "distinct (map d_id ds0)" and "set ds0 \<subseteq> tenant_scope db (t_id tn)" and "is_ajax f \<longleftrightarrow> lock \<noteq> None" and "is_ajax f \<Longrightarrow> bulk = lock" and "A tn unv ds0"
    and launch: "\<And>ds pf jp. io_spec (holds es) (launch ds pf jp)
      (\<lambda>rep s. batch_started (m_env M) (t_id tn) bulk single ds es rep (outbox s)) (\<lambda>_. True)"
  shows "io_spec (holds es) (io_bind (preflights L ds0 (t_id tn) bulk unv) (\<lambda>(ds, pf, jp).
      if ds = [] then io_ret (nothing pf jp)
      else io_bind (case lock of None \<Rightarrow> io_ret None | Some b \<Rightarrow> reserve_bulk M (t_id tn) b) (\<lambda>refused.
        case refused of Some reply \<Rightarrow> io_ret reply | None \<Rightarrow> launch ds pf jp)))
    (\<lambda>rep s. launch_outcome A db ca slug f es rep (outbox s)) (\<lambda>_. True)"
proof -
  have lock: "io_spec (holds es) (case lock of None \<Rightarrow> io_ret None | Some b \<Rightarrow> reserve_bulk M (t_id tn) b)
      (\<lambda>r s. outbox s = es \<and> (r = None \<longrightarrow> (\<forall>b. lock = Some b \<longrightarrow> granted es (t_id tn) b))) (\<lambda>_. True)"
  proof (cases lock)
    case (Some b)
    show ?thesis unfolding Some option.case by (rule spec_conseq [OF reserve_spec]) auto
  qed (auto intro: spec_ret)
  show ?thesis
  proof (rule spec_bind_fact [where C = "\<lambda>r. preflight_ok (m_env M) unv ds0 (fst r)" and P' = "holds es"], goal_cases)
    case 1
    show ?case by (rule spec_conseq [OF preflights_spec]) (auto split: prod.splits)
  next
    case (2 r)
    obtain ds pf jp where r: "r = (ds, pf, jp)" by (metis prod_cases3)
    with 2 have pre: "preflight_ok (m_env M) unv ds0 ds" by simp
    then have sub: "subseq ds ds0" by (simp add: preflight_ok_def)
    then have ds: "distinct (map d_id ds)" "set ds \<subseteq> tenant_scope db (t_id tn)"
      using assms(3,4) by (auto simp: subseq_conv_nths nths_map [symmetric] intro: distinct_nthsI dest: in_set_nthsD)
    show ?case
      unfolding r prod.case
    proof (rule spec_cases [OF nothing_sent], rule spec_bind_fact [OF lock], goal_cases)
      case (1 refused)
      show ?case
      proof (cases refused)
        case None
        show ?thesis
          unfolding None option.case
        proof (rule spec_conseq [OF launch], goal_cases)
          case (2 rep s)
          have "is_ajax f \<longrightarrow> bulk \<noteq> None \<and> granted es (t_id tn) (the bulk)" using 1 None assms(5,6) by auto
          with 2 1 ds assms(1,2,7) pre show ?case unfolding launch_outcome_def by blast
        qed simp_all
      qed (auto intro: nothing_sent)
    qed
  qed
qed

lemma subset_scope:
  "subseq ds (filter Q (ld_devices db)) \<Longrightarrow> (\<And>d. Q d \<Longrightarrow> d_tenant_id d = t \<and> in_active_group d) \<Longrightarrow> distinct (map d_id (ld_devices db)) \<Longrightarrow>
     distinct (map d_id ds) \<and> set ds \<subseteq> tenant_scope db t"
proof -
  assume a: "subseq ds (filter Q (ld_devices db))" and q: "\<And>d. Q d \<Longrightarrow> d_tenant_id d = t \<and> in_active_group d" and d: "distinct (map d_id (ld_devices db))"
  from a have "subseq ds (ld_devices db)" by (rule subseq_order.trans) simp
  with d have "distinct (map d_id ds)" by (auto simp: subseq_conv_nths nths_map [symmetric] intro: distinct_nthsI)
  moreover from a have "set ds \<subseteq> set (filter Q (ld_devices db))" by (auto simp: subseq_conv_nths dest: in_set_nthsD)
  with q have "set ds \<subseteq> tenant_scope db t" by (auto simp: tenant_scope_def)
  ultimately show ?thesis ..
qed

lemma run_all_spec:
  assumes "distinct (map d_id (ld_devices db))"
  shows "io_spec (holds es) (run_backup_all L db ca slug f) (\<lambda>rep s. launch_outcome (wanted_by_all db f) db ca slug f es rep (outbox s)) (\<lambda>_. True)"
  unfolding run_backup_all_def Let_def phase machine
proof (rule tenant_spec, rule quiet_rules, (intro within)[1], rule quiet_rules, (intro within)[1], goal_cases)
  case (1 tn cleared u)
  obtain ds0 ex where sp: "split_mass_backup_devices (devices_in_scope db f (t_id tn)) (resolve_mass_backup_excluded_type_ids (ld_types db)) = (ds0, ex)"
    by fastforce
  have "distinct (map d_id ds0) \<and> set ds0 \<subseteq> tenant_scope db (t_id tn)"
    by (rule subset_scope [OF conjunct1 [OF split_subseq [OF sp], unfolded devices_in_scope_def] _ assms]) simp
  then show ?case
    unfolding sp prod.case by (intro found_spec [OF 1 _ _ _ _ _ launch_all_spec]) (auto simp: wanted_by_all_def sp)
qed

lemma run_selected_spec:
  "io_spec (holds es) (run_backup_selected L db ca slug f) (\<lambda>rep s. launch_outcome (\<lambda>_ _ _. True) db ca slug f es rep (outbox s)) (\<lambda>_. True)"
  unfolding run_backup_selected_def Let_def phase machine
proof (rule tenant_spec, rule quiet_rules, (intro within)[1], rule quiet_rules, (intro within)[1], rule spec_cases [OF nothing_sent], goal_cases)
  case (1 tn cleared u)
  obtain found bad where c: "candidate_devices db (t_id tn) (lf_device_ids f) [] 0 = (found, bad)" by fastforce
  obtain ds0 ex where sp: "split_mass_backup_devices found (resolve_mass_backup_excluded_type_ids (ld_types db)) = (ds0, ex)" by fastforce
  from candidates [OF c] have "distinct (map d_id found)" "set found \<subseteq> tenant_scope db (t_id tn)" by auto
  with split_subseq [OF sp] have "distinct (map d_id ds0) \<and> set ds0 \<subseteq> tenant_scope db (t_id tn)"
    by (auto simp: subseq_conv_nths nths_map [symmetric] intro: distinct_nthsI dest: in_set_nthsD)
  then show ?case
    unfolding c sp prod.case by (intro found_spec [OF 1(1,2) _ _ _ _ _ launch_selected_spec]) auto
qed

lemma run_reprocess_spec:
  assumes "distinct (map d_id (ld_devices db))"
  shows "io_spec (holds es) (run_reprocess_failures L db ca slug f) (\<lambda>rep s. launch_outcome (\<lambda>_ _ _. True) db ca slug f es rep (outbox s)) (\<lambda>_. True)"
  unfolding run_reprocess_failures_def Let_def phase machine
proof (rule tenant_spec, rule quiet_rules, (intro within)[1], rule quiet_rules, (intro within)[1], goal_cases)
  case (1 tn u now)
  let ?b = "''bulk-'' @ ph_fresh P 0"
  obtain since label where r: "reprocess_since f now = (since, label)" by fastforce
  let ?Q = "\<lambda>d. d_id d \<in> set (failed_device_ids (wants_transient_only f) (failed_rows db (t_id tn) since)) \<and> reprocessable (t_id tn) d"
  obtain ds0 ex where sp: "split_mass_backup_devices (filter ?Q (ld_devices db)) (resolve_mass_backup_excluded_type_ids (ld_types db)) = (ds0, ex)"
    by fastforce
  have ds0: "distinct (map d_id ds0) \<and> set ds0 \<subseteq> tenant_scope db (t_id tn)"
    by (rule subset_scope [OF conjunct1 [OF split_subseq [OF sp]] _ assms]) (auto simp: reprocessable_def)
  have lock: "(if is_ajax f then reserve_bulk M (t_id tn) ?b else io_ret None) =
      (case if is_ajax f then Some ?b else None of None \<Rightarrow> io_ret None | Some b \<Rightarrow> reserve_bulk M (t_id tn) b)"
    by (cases "is_ajax f") simp_all
  show ?case
    unfolding r prod.case sp lock
    by (rule spec_cases [OF nothing_sent], rule found_spec [OF 1(1,2) _ _ _ _ _ launch_reprocess_spec]) (use ds0 in auto)
qed

lemmas page_specs = run_all_spec run_selected_spec run_reprocess_spec

end

section \<open>The later phases\<close>

fun own_ids :: "event \<Rightarrow> string list" where
  "own_ids (Sent m) = message_ids m"
| "own_ids (Launched ms c) = concat (map message_ids ms)"
| "own_ids (Phased ms jump c) = concat (map message_ids ms)"
| "own_ids (Started jump c) = []"

definition sent_ids :: "event list \<Rightarrow> string list" where
  "sent_ids es = concat (map own_ids es)"

lemma sent_ids_simps [simp]: "sent_ids [] = []" "sent_ids (e # es) = own_ids e @ sent_ids es" "sent_ids (map Sent ms) = concat (map message_ids ms)"
  by (simp_all add: sent_ids_def comp_def)

text \<open>Identifiers of groups are texts without white space around them.\<close>

definition tidy_groups :: "device list \<Rightarrow> bool" where
  "tidy_groups ds \<longleftrightarrow> (\<forall>d \<in> set ds. \<forall>g. d_group d = Some g \<longrightarrow> g_id g \<noteq> [] \<and> py_strip (g_id g) = g_id g)"

lemma sound_item_devices: "sound_item Q ds i \<Longrightarrow> item_devices (Some i) = entry_ids i"
  by (auto simp: sound_item_def item_devices_def entry_ids_def distinct_remdups_id sorted_sort_id)

lemma sound_item_usable:
  assumes "sound_item Q ds i" "tidy_groups ds"
  shows "usable_item (Some i)"
proof -
  from assms(1) obtain k where k: "pi_group_id i = Some (py_strip k)" "entry_ids i \<noteq> []"
    "\<forall>x \<in> set (entry_ids i). \<exists>d \<in> set ds. d_id d = x \<and> Q d \<and> map_option g_id (d_group d) = Some k"
    by (auto simp: sound_item_def)
  then obtain d where "d \<in> set ds" "map_option g_id (d_group d) = Some k" by (metis list.set_intros(1) neq_Nil_conv)
  with assms(2) have "k \<noteq> []" "py_strip k = k" by (auto simp: tidy_groups_def)
  with k sound_item_devices [OF assms(1)] show ?thesis by (simp add: usable_item_def item_group_def or_empty_def)
qed

lemma sound_items_ids:
  assumes "\<forall>i \<in> set items. sound_item Q ds i" "tidy_groups ds"
  shows "filter usable_item (map Some items) = map Some items"
    "concat (map (order_ids \<circ> jump_order c) (map Some items)) = items_ids items"
    "concat (map (message_ids \<circ> vpn_message t b) (map Some items)) = items_ids items"
proof -
  show "filter usable_item (map Some items) = map Some items"
    using assms sound_item_usable by (auto simp: filter_id_conv)
  have "\<And>i. i \<in> set items \<Longrightarrow> item_devices (Some i) = entry_ids i"
    using assms(1) sound_item_devices by blast
  then show "concat (map (order_ids \<circ> jump_order c) (map Some items)) = items_ids items"
    "concat (map (message_ids \<circ> vpn_message t b) (map Some items)) = items_ids items"
    by (simp_all add: items_ids_def comp_def jump_order_def message_ids_def vpn_message_def to_queue_def cong: map_cong)
qed

lemma vpn_sent_ids:
  "\<forall>i \<in> set items. sound_item Q ds i \<Longrightarrow> tidy_groups ds \<Longrightarrow> vp_groups c = map Some items \<Longrightarrow> sent_ids (vpn_sent c) = items_ids items"
  using sound_items_ids [of items Q ds] by (simp add: vpn_sent_def sent_ids_def comp_def)

section \<open>Any machine with a box for all phases\<close>

definition launching :: "'s machine \<Rightarrow> (nat \<Rightarrow> string) \<Rightarrow> (string \<Rightarrow> int \<Rightarrow> int \<Rightarrow> ('s, bool \<times> string) io) \<Rightarrow>
    (string \<Rightarrow> string \<Rightarrow> string \<Rightarrow> ('s, unit) io) \<Rightarrow> ('s \<times> event list) launcher" where
  "launching M fresh probe act = \<lparr>ln_phase = posting M fresh, ln_chord = \<lambda>ms jump c w. (Some (), (fst w, snd w @ [Phased ms jump c])),
     ln_start = \<lambda>jump c w. (Some (), (fst w, snd w @ [Started jump c])), ln_probe = \<lambda>h p n. aside (probe h p n),
     ln_activity = \<lambda>t a d. aside (act t a d), ln_url = \<lambda>endpoint slug task_id. endpoint @ slug @ task_id\<rparr>"

lemma launching_host:
  assumes "m_client M = Some R"
  shows "launch_host snd (aside_redis R) (aside_emit (m_emit M)) (aside_machine M) (posting M fresh) (launching M fresh probe act)"
proof -
  have "phase_host snd (aside_redis R) (aside_emit (m_emit M)) (aside_machine M) (posting M fresh)"
    by (rule posting_host [OF assms])
  then show ?thesis
    by (rule launch_host.intro) (unfold_locales, auto simp: launching_def aside_within)
qed

interpretation launched: launch_host snd "aside_redis host_redis" "aside_emit host_emit" "aside_machine (sample_machine devices)"
  "posting (sample_machine devices) fresh" "launching (sample_machine devices) fresh probe act" for devices fresh probe act
  using launching_host [of "sample_machine devices" host_redis fresh probe act] by (simp add: sample_machine_def)

section \<open>Properties\<close>

lemma outcome_unfolded:
  assumes "launch_host outbox R emit M P L" and "distinct (map d_id (ld_devices db))"
    and "page \<in> {run_backup_all L db ca slug f, run_backup_selected L db ca slug f, run_reprocess_failures L db ca slug f}"
    and "page s = (Some rep, s')" and "outbox s' \<noteq> outbox s"
  obtains tn bulk single ds sigs p where "ca_super ca \<or> ca_slug ca = Some slug" "find (\<lambda>t. t_slug t = slug) (ca_tenants ca) = Some tn"
    "distinct (map d_id ds)" "set ds \<subseteq> tenant_scope db (t_id tn)"
    "is_ajax f \<longrightarrow> bulk \<noteq> None \<and> launch_host.granted outbox M (outbox s) (t_id tn) (the bulk)"
    "p = plan_batch (m_env M) single ds" "outbox s' = outbox s @ first_events sigs p (phase_call (t_id tn) bulk p)"
    "sigs_for (m_env M) (t_id tn) bulk p sigs" "reply_counts ds p rep"
proof -
  note specs = launch_host.page_specs [OF assms(1)]
  obtain A where "io_spec (\<lambda>w. outbox w = outbox s) page (\<lambda>rep w. launch_host.launch_outcome outbox M A db ca slug f (outbox s) rep (outbox w)) (\<lambda>_. True)"
  proof -
    from assms(3) consider "page = run_backup_all L db ca slug f" | "page = run_backup_selected L db ca slug f" | "page = run_reprocess_failures L db ca slug f"
      by blast
    then show thesis
      using that specs(1) [OF assms(2), of "outbox s" ca slug f] specs(2) [of "outbox s" db ca slug f] specs(3) [OF assms(2), of "outbox s" ca slug f]
      by cases blast+
  qed
  from io_specD [OF this refl assms(4)] assms(5)
  have "launch_host.launch_outcome outbox M A db ca slug f (outbox s) rep (outbox s')" by simp
  with assms(5) that show thesis
    unfolding launch_host.launch_outcome_def [OF assms(1)] batch_started_def Let_def by blast
qed


text \<open>The batch a message belongs to.\<close>

fun order_bulk :: "order \<Rightarrow> string option" where
  "order_bulk (RunDevice d b) = b"
| "order_bulk (RunGroup g) = go_bulk g"
| "order_bulk (AuditDevice d b) = b"

lemma sigs_bulk: "sigs_for env t bulk p sigs \<Longrightarrow> m \<in> set sigs \<Longrightarrow> order_bulk (mg_order m) = bulk"
proof -
  assume "sigs_for env t bulk p sigs" "m \<in> set sigs"
  then obtain gs ss where parts: "m \<in> set gs \<or> m \<in> set ss"
      "list_all2 (\<lambda>i m. \<exists>tid. m = group_signature t bulk tid i) (bp_direct p) gs"
      "list_all2 (\<lambda>d m. \<exists>tid n. m = device_signature env bulk tid n d) (bp_single p) ss"
    by (auto simp: sigs_for_def)
  then have "(\<exists>i tid. m = group_signature t bulk tid i) \<or> (\<exists>d tid n. m = device_signature env bulk tid n d)"
    using list_all2_partner(2) [OF parts(2), of m] list_all2_partner(2) [OF parts(3), of m] by blast
  then show ?thesis by (auto simp: group_signature_def device_signature_def)
qed


lemma jump_sent_ids:
  fixes c :: vpn_phase
  assumes "\<forall>i \<in> set items. sound_item Q ds i" "tidy_groups ds"
  shows "concat (map message_ids (jump_messages cfg (vp_tenant c) (vp_bulk c) fresh 0 0 (map Some items))) = items_ids items"
proof -
  have "map order_ids (map mg_order (jump_messages cfg (vp_tenant c) (vp_bulk c) fresh 0 0 (map Some items))) =
      map order_ids (map (jump_order c) (map Some items))"
    by (simp only: jump_messages_facts(1) sound_items_ids(1) [OF assms])
  with sound_items_ids(2) [OF assms, of c] show ?thesis by (simp add: message_ids_def [abs_def] comp_def)
qed

lemma sound_items_nonempty: "\<forall>i \<in> set items. sound_item Q ds i \<Longrightarrow> items_ids items = [] \<longleftrightarrow> items = []"
  by (cases items) (auto simp: sound_item_def)



section \<open>An example\<close>

text \<open>A run that returns \<open>a\<close> and changes the box from \<open>x\<close> to \<open>y\<close>.\<close>

definition runs :: "('s \<times> 'e, 'a) io \<Rightarrow> 'e \<Rightarrow> 'a \<Rightarrow> 'e \<Rightarrow> bool" where
  "runs m x a y \<longleftrightarrow> (\<forall>w. snd w = x \<longrightarrow> (\<exists>w'. m w = (Some a, w') \<and> snd w' = y))"

lemma runs_ret: "runs (io_ret a) x a x"
  by (simp add: runs_def io_ret_def)

lemma runs_bind: "runs m x a y \<Longrightarrow> runs (f a) y b z \<Longrightarrow> runs (io_bind m f) x b z"
  unfolding runs_def io_bind_def by fastforce

lemma runs_skip: "io_total m \<Longrightarrow> io_within (\<lambda>s s'. snd s' = snd s) m \<Longrightarrow> runs n x b z \<Longrightarrow> runs (io_bind m (\<lambda>_. n)) x b z"
proof -
  assume "io_total m" "io_within (\<lambda>s s'. snd s' = snd s) m"
  then have "\<exists>a w'. m w = (Some a, w') \<and> snd w' = snd w" for w
    using io_totalD [of m w] unfolding io_within_def by (metis snd_conv)
  moreover assume "runs n x b z"
  ultimately show ?thesis unfolding runs_def io_bind_def by (metis (no_types, lifting) case_prod_conv option.case(2))
qed

lemma runs_pass: "io_total m \<Longrightarrow> io_within (\<lambda>s s'. snd s' = snd s) m \<Longrightarrow> runs n x b z \<Longrightarrow> runs (io_seq m n) x b z"
  unfolding io_seq_def by (rule runs_skip)

lemma runs_seq: "runs m x a y \<Longrightarrow> runs n y b z \<Longrightarrow> runs (io_seq m n) x b z"
  unfolding io_seq_def by (rule runs_bind)

text \<open>A server that has nothing stored and grants every lock.\<close>

definition idle_redis :: "hworld redis" where
  "idle_redis = \<lparr>r_get = \<lambda>k. io_ret None, r_setex = \<lambda>k n v. io_raise, r_set_nx = \<lambda>k v n. io_ret True, r_delete = \<lambda>ks. io_raise,
     r_incr = \<lambda>k. io_raise, r_expire = \<lambda>k n. io_raise, r_ttl = \<lambda>k. io_raise, r_rpush = \<lambda>k vs. io_raise, r_lrange = \<lambda>k i j. io_raise,
     r_ltrim = \<lambda>k i j. io_raise, r_llen = \<lambda>k. io_raise, r_head = \<lambda>k. io_raise, r_lpop = \<lambda>k. io_raise, r_hget = \<lambda>h f. io_raise,
     r_hset = \<lambda>h f v. io_raise, r_scan = \<lambda>p. io_raise, r_unlock = \<lambda>k t. io_raise\<rparr>"

definition idle_machine :: "hworld machine" where
  "idle_machine = (sample_machine (\<lambda>_. None))\<lparr>m_client := Some idle_redis, m_env := \<lambda>_. Some ''0''\<rparr>"

abbreviation demo_machine :: "(hworld \<times> event list) machine" where
  "demo_machine \<equiv> aside_machine idle_machine"

abbreviation demo_phases :: "(hworld \<times> event list) phase_env" where
  "demo_phases \<equiv> posting idle_machine (\<lambda>n. show_nat n)"

abbreviation demo_launcher :: "(hworld \<times> event list) launcher" where
  "demo_launcher \<equiv> launching idle_machine (\<lambda>n. show_nat n) (\<lambda>h p n. io_raise) (\<lambda>t a d. io_ret ())"

lemma demo_host: "launch_host snd (aside_redis idle_redis) (aside_emit (m_emit idle_machine)) demo_machine demo_phases demo_launcher"
  by (rule launching_host) (simp add: idle_machine_def)

definition alone :: device where
  "alone = blank_device\<lparr>d_id := ''d1''\<rparr>"

definition behind_vpn :: device where
  "behind_vpn = blank_device\<lparr>d_id := ''d2'', d_group := Some (blank_group\<lparr>g_connection_type := Some ''vpn''\<rparr>)\<rparr>"

definition demo_db :: launch_db where
  "demo_db = \<lparr>ld_devices = [alone, behind_vpn], ld_types = [], ld_groups = [], ld_backups = []\<rparr>"

definition demo_caller :: caller where
  "demo_caller = \<lparr>ca_super = False, ca_slug = Some ''a'', ca_tenants = [blank_tenant\<lparr>t_slug := ''a''\<rparr>]\<rparr>"

definition demo_form :: launch_form where
  "demo_form = \<lparr>lf_requested_with = Some ''XMLHttpRequest'', lf_accept = None, lf_group_id = None, lf_arg_group_id = None,
     lf_arg_return_group_id = None, lf_subgroup = None, lf_arg_subgroup = None, lf_include_unvalidated = None,
     lf_include_unscheduled = None, lf_device_ids = [], lf_scope = None, lf_transient_only = None\<rparr>"

definition vpn_item :: phase_item where
  "vpn_item = \<lparr>pi_group_id = Some ''g'', pi_group_name = Some ''Grupo'', pi_device_ids = Some [''d2''], pi_force_vpn = Some False\<rparr>"

lemma demo_plan: "plan_batch (\<lambda>_. Some ''0'') False [alone, behind_vpn] = \<lparr>bp_direct = [], bp_single = [alone], bp_jump = [], bp_vpn = [vpn_item]\<rparr>"
proof -
  have n: "normalize_connection_type_value (PStr ''vpn'') = ''vpn''" "normalize_connection_type_value PNone = []"
    "py_strip ''g'' = ''g''" "py_strip ''Grupo'' = ''Grupo''" "mikrotik_flag (\<lambda>_. Some ''0'') n = False" for n
    by (code_simp, code_simp, code_simp, code_simp, simp add: mikrotik_flag_def, code_simp)
  have e: "extra_connection_override (PDict []) = []" by (simp add: extra_connection_override_def n py_or_def dhas_def Let_def)
  have v: "by_vpn (\<lambda>_. Some ''0'') behind_vpn"
    by (simp add: by_vpn_def uses_vpn_tunnel_def get_effective_connection_type_def normalized_device_connection_override_def
        behind_vpn_def blank_device_def blank_group_def e n normalized_connection_type_def opt_str_def Let_def)
  moreover have "\<not> force_vpn_subgroup (\<lambda>_. Some ''0'') behind_vpn"
    by (simp add: force_vpn_subgroup_def device_subgroup_connection_type_def behind_vpn_def blank_device_def as_dict_def)
  moreover have "\<not> by_vpn (\<lambda>_. Some ''0'') alone" "\<not> by_jump (\<lambda>_. Some ''0'') alone" "d_group alone = None"
    by (simp_all add: by_vpn_def by_jump_def alone_def blank_device_def)
  moreover have "append_group_phase_bucket [] behind_vpn False = [(''g'', vpn_item)]"
    by (simp add: append_group_phase_bucket_def behind_vpn_def blank_device_def blank_group_def new_entry_def vpn_item_def)
  ultimately show ?thesis
    by (simp add: plan_batch_def place_device_def finalize_group_phase_payload_def Let_def, simp add: vpn_item_def or_empty_def n)
qed

lemma demo_scope: "devices_in_scope demo_db demo_form ''t'' = [alone, behind_vpn]"
proof -
  have "parse_uuid [] = None" by code_simp
  then show ?thesis
    by (simp add: devices_in_scope_def demo_db_def demo_form_def alone_def behind_vpn_def blank_device_def blank_group_def in_active_group_def
        value_bool_def in_group_def or_empty_def read_subgroup_def in_subgroup_def)
qed

lemma demo_simps [simp]:
  "ln_phase demo_launcher = demo_phases" "ph_machine demo_phases = demo_machine" "m_env demo_machine = (\<lambda>_. Some ''0'')"
  "m_client demo_machine = Some (aside_redis idle_redis)" "ph_fresh demo_phases n = show_nat n"
  by (simp_all add: launching_def posting_def aside_machine_def idle_machine_def)

lemma idle_get [simp]: "r_get (aside_redis idle_redis) k w = (Some None, w)" "r_scan (aside_redis idle_redis) k w = (None, w)"
  "r_set_nx (aside_redis idle_redis) k v n w = (Some True, w)"
  by (auto simp: aside_redis_def idle_redis_def aside_def io_ret_def io_raise_def split: prod.split)

lemma idle_meta: "get_task_meta (Some (aside_redis idle_redis)) em t w = (Some [], w)"
  by (simp add: get_task_meta_def io_try_def io_bind_def io_ret_def rv_truthy_def)

lemma read_returns: "io_total (io_read f)"
  by (simp add: io_total_def io_read_def)

lemma meta_returns: "io_total (task_meta M t d)"
proof -
  have "io_total (get_task_meta c e t)" "io_total (write_task_meta cfg c e t d')" for c e cfg d'
    unfolding get_task_meta_def write_task_meta_def by (auto intro!: total_io split: option.split)
  then show ?thesis
    unfolding task_meta_def update_task_meta_def Let_def by (intro total_io read_returns)
qed

lemma child_returns: "io_total (register_child M t tid d n g)"
proof -
  have "io_total (write_task_meta cfg c e t d')" for c e cfg t d'
    unfolding write_task_meta_def by (auto intro!: total_io split: option.split)
  then show ?thesis
    unfolding register_child_def register_task_def by (intro total_io read_returns)
qed

lemma launch_logs_return: "io_total (launch_log M b w l v)" "io_total (excluded_log M b w n flow)" "io_total (preflight_log M b w u pf)"
  "io_total (jump_preflight_log M b w jp)"
  unfolding launch_log_def excluded_log_def preflight_log_def jump_preflight_log_def by (auto intro!: total_io log_returns)

lemma announce_returns: "io_total (announce_all M f t b c n x pf jp)"
  unfolding announce_all_def by (auto intro!: total_io child_returns launch_logs_return)

lemma reset_returns: "io_total (reset_circuit_breakers_for_new_batch c e)"
  unfolding reset_circuit_breakers_for_new_batch_def Let_def by (auto intro!: total_io split: option.split)

lemma demo_steps:
  "runs (clear_global_force_stop_flag demo_machine) x False x"
  "runs (preflights demo_launcher ds t bu u) x (ds, no_preflight, no_jump_preflight) x"
  "runs (reserve_bulk demo_machine ''t'' (ch # name)) x None x"
  "runs (merge_existing_bulk_children demo_machine b cs n) x (the (merge_children [] cs n)) x"
  "runs (ln_chord demo_launcher ms jump c') x () (x @ [Phased ms jump c'])"
  "runs (ln_activity demo_launcher t a d) x () x"
proof -
  have off: "\<not> env_flag_lower (\<lambda>_. Some ''0'') nm dv" for nm dv
  proof -
    have "py_lower (py_strip ''0'') = ''0''" by code_simp
    then show ?thesis by (simp add: env_flag_lower_def)
  qed
  show "runs (clear_global_force_stop_flag demo_machine) x False x"
    by (simp add: runs_def clear_global_force_stop_flag_def io_try_def io_bind_def io_ret_def)
  show "runs (preflights demo_launcher ds t bu u) x (ds, no_preflight, no_jump_preflight) x"
    by (simp add: runs_def preflights_def bulk_preflight_filter_devices_def bulk_preflight_jump_hosts_def off io_bind_def io_ret_def)
  show "runs (reserve_bulk demo_machine ''t'' (ch # name)) x None x"
  proof -
    have "acquire_tenant_bulk_lock cfg (Some (aside_redis idle_redis)) em ''t'' (ch # name) w = (Some (True, None), w)" for cfg em and w :: "hworld \<times> event list"
      by (simp add: acquire_tenant_bulk_lock_def io_bind_def io_ret_def io_try_def rv_truthy_def Let_def)
    then show ?thesis by (simp add: runs_def reserve_bulk_def io_bind_def io_ret_def del: split_paired_All split_paired_Ex)
  qed
  have "merge_children [] cs n \<noteq> None"
    by (simp add: merge_children_def child_ids_def dict_or_def int_or_zero_def Let_def)
  then show "runs (merge_existing_bulk_children demo_machine b cs n) x (the (merge_children [] cs n)) x"
    by (auto simp: runs_def merge_existing_bulk_children_def idle_meta io_bind_def opt_io_def io_ret_def split: option.split)
  show "runs (ln_chord demo_launcher ms jump c') x () (x @ [Phased ms jump c'])" "runs (ln_activity demo_launcher t a d) x () x"
    by (simp_all add: runs_def launching_def aside_def io_ret_def split: prod.split)
qed

definition demo_call :: vpn_phase where
  "demo_call = \<lparr>vp_tenant = ''t'', vp_groups = [Some vpn_item], vp_bulk = Some ''bulk-0''\<rparr>"

definition demo_message :: message where
  "demo_message = \<lparr>mg_order = RunDevice ''d1'' (Some ''bulk-0''), mg_queue = ''celery'', mg_task_id = Some ''1'', mg_countdown = 0\<rparr>"

lemma demo_signatures:
  "runs (batch_signatures demo_phases ''t'' (Some ''bulk-0'') \<lparr>bp_direct = [], bp_single = [alone], bp_jump = [], bp_vpn = [vpn_item]\<rparr>)
     x [demo_message] x"
proof -
  have s: "device_signature (\<lambda>_. Some ''0'') (Some ''bulk-0'') (Some ''1'') 0 alone = demo_message"
    by (simp add: device_signature_def demo_message_def alone_def backup_queue_for_device_def by_vpn_def blank_device_def)
  have c: "next_countdown_for_device (\<lambda>_. Some ''0'') alone [] = (0, [(''direct:global'', 1)])"
    by (simp add: next_countdown_for_device_def enqueue_throttle_def alone_def blank_device_def)
  have i: "show_nat (Suc 0) = ''1''" by (subst show_nat.simps) (simp add: digit_char_def)
  show ?thesis
    unfolding batch_signatures_def
    by (rule runs_bind [where y = x and a = "[]"], simp add: runs_ret)
      (simp add: c i s Let_def, intro runs_pass child_returns launch_host.child_quiet [OF demo_host] runs_ret)
qed

lemma some_run:
  "runs m x a y \<Longrightarrow> \<exists>b. runs (f a) y (g b) z \<Longrightarrow> \<exists>b. runs (io_bind m f) x (g b) z"
  "runs m x a y \<Longrightarrow> \<exists>b. runs n y (g b) z \<Longrightarrow> \<exists>b. runs (io_seq m n) x (g b) z"
  "io_total m \<Longrightarrow> io_within (\<lambda>s s'. snd s' = snd s) m \<Longrightarrow> \<exists>b. runs n x (g b) z \<Longrightarrow> \<exists>b. runs (io_bind m (\<lambda>_. n)) x (g b) z"
  "io_total m \<Longrightarrow> io_within (\<lambda>s s'. snd s' = snd s) m \<Longrightarrow> \<exists>b. runs n x (g b) z \<Longrightarrow> \<exists>b. runs (io_seq m n) x (g b) z"
  by (blast intro: runs_bind runs_seq runs_skip runs_pass)+

lemma demo_start:
  "runs (start_phases demo_launcher ''t'' (Some ''bulk-0'') [demo_message] \<lparr>bp_direct = [], bp_single = [alone], bp_jump = [], bp_vpn = [vpn_item]\<rparr>
     (\<lambda>line. launch_log demo_machine (Some ''bulk-0'') MASS line ''info'')) [] True [Phased [demo_message] [] demo_call]"
proof -
  let ?p = "\<lparr>bp_direct = [], bp_single = [alone], bp_jump = [], bp_vpn = [vpn_item]\<rparr>"
  have "start_phases demo_launcher ''t'' (Some ''bulk-0'') [demo_message] ?p (\<lambda>line. launch_log demo_machine (Some ''bulk-0'') MASS line ''info'') =
      io_seq (ln_chord demo_launcher [demo_message] [] demo_call)
        (io_seq (launch_log demo_machine (Some ''bulk-0'') MASS (phases_text ?p) ''info'') (io_ret True))"
    by (simp add: start_phases_def demo_call_def)
  then show ?thesis
    using runs_seq [OF demo_steps(5) [where x = "[]"] runs_pass [OF launch_logs_return(1) launch_host.launch_log_quiet [OF demo_host] runs_ret]]
    by (simp only: append_Nil)
qed

lemma demo_batch:
  "\<exists>d. runs (launch_all demo_launcher demo_form ''a'' ''t'' (Some ''bulk-0'') cleared [alone, behind_vpn] n pf jp) [] (Json 202 d)
     [Phased [demo_message] [] demo_call]"
proof -
  have final: "\<exists>d. runs (case r of (ids, counts, total_tasks) \<Rightarrow> io_bind (task_meta demo_machine ''bulk-0'' (m ids counts total_tasks)) (\<lambda>_.
        io_seq (task_log demo_machine (Some ''bulk-0'') MASS (l ids) ''success'')
          (io_ret (all_reply demo_launcher ''a'' ''bulk-0'' q k total_tasks g x pf jp)))) y (Json 202 d) y" for r m l q k g x pf jp y
    by (cases r, rule exI, simp add: all_reply_def, rule runs_skip [OF meta_returns launch_host.meta_quiet [OF demo_host]])
      (rule runs_pass [OF log_returns phase_host.log_quiet [OF launch_host.axioms(1) [OF demo_host]] runs_ret])
  have group: "or_empty (lf_group_id demo_form) = []" by (simp add: demo_form_def or_empty_def)
  show ?thesis
    unfolding launch_all_def Let_def group demo_simps
    by (simp only: simp_thms if_False option.case demo_plan prod.case, rule some_run(4) [OF announce_returns launch_host.announce_quiet(1) [OF demo_host]])
      (rule some_run(2) [OF runs_ret], rule some_run(1) [OF demo_signatures], rule some_run(1) [OF demo_start],
       rule some_run(2) [OF demo_steps(6)], rule some_run(1) [OF demo_steps(4)], rule final)
qed

lemma demo_launch:
  "\<exists>d. runs (run_backup_all demo_launcher demo_db demo_caller ''a'' demo_form) [] (Json 202 d) [Phased [demo_message] [] demo_call]"
proof -
  have none: "resolve_mass_backup_excluded_type_ids [] = {}" by (simp add: resolve_mass_backup_excluded_type_ids_def)
  have split: "split_mass_backup_devices [alone, behind_vpn] {} = ([alone, behind_vpn], [])"
    by (simp add: split_mass_backup_devices_def split: option.split)
  have ajax: "is_ajax demo_form" by (simp add: is_ajax_def demo_form_def)
  have bulk: "''bulk-'' @ show_nat 0 = ''bulk-0''" by (subst show_nat.simps) (simp add: digit_char_def)
  have tn: "find (\<lambda>t. t_slug t = ''a'') (ca_tenants demo_caller) = Some (blank_tenant\<lparr>t_slug := ''a''\<rparr>)"
    "t_id (blank_tenant\<lparr>t_slug := ''a''\<rparr>) = ''t''" by (simp_all add: demo_caller_def blank_tenant_def)
  have caller: "\<not> ca_super demo_caller" "ca_slug demo_caller = Some ''a''" by (simp_all add: demo_caller_def)
  have types: "ld_types demo_db = []" by (simp add: demo_db_def)
  have page: "with_launch_tenant demo_caller ''a'' k = k (blank_tenant\<lparr>t_slug := ''a''\<rparr>)" for k :: "tenant \<Rightarrow> (hworld \<times> event list, page) io"
    by (simp add: with_launch_tenant_def caller tn)
  show ?thesis
    unfolding run_backup_all_def page tn Let_def demo_simps demo_scope types none split prod.case
    by (rule some_run(1) [OF demo_steps(1)], rule some_run(3) [OF reset_returns launch_host.reset_quiet [OF demo_host, unfolded demo_simps]],
        rule some_run(1) [OF demo_steps(2)], simp only: prod.case ajax if_True option.case simp_thms list.distinct if_False bulk list.size)
      (rule some_run(1) [OF demo_steps(3)], simp only: option.case, rule demo_batch)
qed

lemma vpn_usable: "usable_item (Some vpn_item)" "item_devices (Some vpn_item) = [''d2'']"
proof -
  have "py_strip ''g'' = ''g''" by code_simp
  then show "usable_item (Some vpn_item)" "item_devices (Some vpn_item) = [''d2'']"
    by (simp_all add: usable_item_def item_group_def item_devices_def vpn_item_def or_empty_def)
qed

lemma runs_unit:
  fixes m :: "('s \<times> 'e, unit) io"
  assumes "io_total m" and "io_within (\<lambda>s s'. snd s' = snd s) m"
  shows "runs m x () x"
  unfolding runs_def
proof (intro allI impI)
  fix w :: "'s \<times> 'e" assume "snd w = x"
  then show "\<exists>w'. m w = (Some (), w') \<and> snd w' = x"
    using unit_returns [OF assms(1), of w] assms(2) unfolding io_within_def by (metis snd_conv)
qed

lemmas demo_log = log_returns [of demo_machine] phase_host.log_quiet [OF launch_host.axioms(1) [OF demo_host]]

lemma demo_vpn_phase:
  "\<exists>res y. runs (enqueue_vpn_groups_after_direct_phase_task demo_phases t demo_call) x res y \<and> \<not> dhas res ''stopped''"
proof -
  have stop: "should_stop_now demo_machine b w = (Some False, w)" for b w
    by (simp add: should_stop_now_def is_global_backup_stop_enabled_def is_bulk_cancelled_def io_try_def io_bind_def io_ret_def idle_meta dget_def)
  have call: "vp_bulk demo_call = Some ''bulk-0''" "vp_tenant demo_call = ''t''" "vp_groups demo_call = [Some vpn_item]" by (simp_all add: demo_call_def)
  let ?tid = "show_nat (length x)"
  let ?y = "x @ [Sent (vpn_message ''t'' (Some ''bulk-0'') (Some vpn_item))]"
  have send: "runs (ph_send demo_phases m) x ?tid (x @ [Sent m])" for m by (simp add: runs_def posting_def)
  have group: "io_total (register_group demo_machine a b c d e)" "io_within (\<lambda>s s'. snd s' = snd s) (register_group demo_machine a b c d e)" for a b c d e
  proof -
    have "io_total (write_task_meta cfg k em u d')" for cfg k u d' and em
      unfolding write_task_meta_def by (auto intro!: total_io split: option.split)
    then show "io_total (register_group demo_machine a b c d e)"
      unfolding register_group_def register_task_def by (intro total_io read_returns)
    show "io_within (\<lambda>s s'. snd s' = snd s) (register_group demo_machine a b c d e)"
      by (rule phase_host.register_quiet [OF launch_host.axioms(1) [OF demo_host]])
  qed
  have queue: "runs (queue_vpn_items demo_phases ''t'' (Some ''bulk-0'') [Some vpn_item] []) x [(?tid, 1)] ?y"
    unfolding queue_vpn_items.simps
    by (simp add: vpn_usable) (rule runs_bind [OF send], rule runs_pass [OF group], rule runs_ret)
  have children: "runs (record_children demo_machine (Some ''bulk-0'') [(?tid, 1)] 0 a b) ?y () ?y" for a b
  proof -
    have meta: "runs (get_task_meta (m_client demo_machine) (m_emit demo_machine) u) ?y [] ?y" for u
      by (simp add: runs_def idle_meta)
    have "with_children [] new 0 msg \<noteq> None" for new msg
      by (simp add: with_children_def child_ids_def int_or_zero_def dget_def Let_def)
    then obtain upd where upd: "with_children [] [(?tid, 1)] 0 a = Some upd" by (metis option.exhaust)
    show ?thesis
      unfolding record_children_def or_empty_def option.case if_not_P [OF list.distinct(2)]
      by (rule runs_bind [OF meta], simp only: upd option.case)
        (rule runs_skip [OF meta_returns launch_host.meta_quiet [OF demo_host]], rule runs_unit [OF demo_log])
  qed
  have "runs (enqueue_vpn_groups_after_direct_phase_task demo_phases t demo_call) x (vpn_result [(?tid, 1)]) ?y"
    unfolding enqueue_vpn_groups_after_direct_phase_task_def Let_def demo_simps call if_not_P [OF list.distinct(2)]
    by (rule runs_bind [where y = x and a = False], simp only: runs_def stop, blast, simp only: if_False, rule runs_bind [OF queue])
      (rule runs_seq [OF children], rule runs_pass [OF demo_log], rule runs_ret)
  moreover have "\<not> dhas (vpn_result [(?tid, 1)]) ''stopped''" by (simp add: vpn_result_def dhas_def)
  ultimately show ?thesis by blast
qed

lemma demo_run:
  obtains d w where "run_backup_all demo_launcher demo_db demo_caller ''a'' demo_form (empty_hworld, []) = (Some (Json 202 d), w)"
    and "snd w = [Phased [demo_message] [] demo_call]"
  using demo_launch unfolding runs_def by (metis snd_conv)

lemma demo_rows: "distinct (map d_id (ld_devices demo_db))" "tidy_groups (ld_devices demo_db)" "is_ajax demo_form"
  "find (\<lambda>t. t_slug t = ''a'') (ca_tenants demo_caller) = Some (blank_tenant\<lparr>t_slug := ''a''\<rparr>)" "t_id (blank_tenant\<lparr>t_slug := ''a''\<rparr>) = ''t''"
proof -
  have "py_strip ''g'' = ''g''" by code_simp
  then show "tidy_groups (ld_devices demo_db)"
    by (simp add: tidy_groups_def demo_db_def alone_def behind_vpn_def blank_device_def blank_group_def)
qed (simp_all add: demo_db_def alone_def behind_vpn_def blank_device_def is_ajax_def demo_form_def demo_caller_def blank_tenant_def)

abbreviation demo_page :: "(hworld \<times> event list, page) io" where
  "demo_page \<equiv> run_backup_all demo_launcher demo_db demo_caller ''a'' demo_form"





end
