(* ===== verification/PlanLimits.thy ===== *)
theory PlanLimits
  imports Models Float64 Calendar
begin

text \<open>
  The limits of a plan (\<open>src/app/services/plan_limits_service.py\<close>) and the choice of a plan
  (\<open>src/app/services/tenant_access_service.py\<close>): device, user, storage and monthly download quotas.

  The tables a query reads are lists of rows, in the record \<open>tables\<close>; a session that is committed is the
  table that is returned. Byte counts are below \<open>2 ^ 53\<close>, where the divisions by powers of 1024 are
  exact in binary64, so \<open>f"{x:.1f}"\<close> is the exact quotient rounded to one decimal, half to even.
\<close>

record usage_metric =
  um_tenant_id :: string
  um_metric_key :: string
  um_period_key :: string
  um_value_bytes :: int
  um_events_count :: int
  um_updated_at :: naive

record tables =
  tb_devices :: "device list"
  tb_users :: "user list"
  tb_backups :: "backup list"
  tb_metrics :: "usage_metric list"

section \<open>Counting\<close>

definition get_device_count :: "tables \<Rightarrow> string \<Rightarrow> int" where
  "get_device_count tb tid = int (length (filter (\<lambda>d. d_tenant_id d = tid \<and> d_is_active d \<noteq> Some False) (tb_devices tb)))"

definition get_active_user_count :: "tables \<Rightarrow> string \<Rightarrow> int" where
  "get_active_user_count tb tid =
     int (length (filter (\<lambda>u. u_tenant_id u = Some tid \<and> u_is_active u = Some True) (tb_users tb)))"

definition zero_or :: "int option \<Rightarrow> int" where
  "zero_or n = (case n of None \<Rightarrow> 0 | Some i \<Rightarrow> i)"

text \<open>\<open>SUM(file_size_bytes)\<close> over the join of the backups with the devices of the tenant.\<close>

definition get_storage_used_bytes :: "tables \<Rightarrow> string \<Rightarrow> int" where
  "get_storage_used_bytes tb tid =
     sum_list (concat (map (\<lambda>b. map (\<lambda>d. zero_or (b_file_size_bytes b))
       (filter (\<lambda>d. d_id d = b_device_id b \<and> d_tenant_id d = tid) (tb_devices tb))) (tb_backups tb)))"

section \<open>Formatting\<close>

text \<open>\<open>f"{n / d:.<digits>f}"\<close>.\<close>

definition show_fixed :: "nat \<Rightarrow> nat \<Rightarrow> nat \<Rightarrow> string" where
  "show_fixed digits n d =
     (let v = rne (n * 10 ^ digits) d
      in show_int (int (v div 10 ^ digits)) @ ''.'' @ show_pad digits (v mod 10 ^ digits))"

fun format_units :: "string list \<Rightarrow> nat \<Rightarrow> nat \<Rightarrow> string" where
  "format_units [] n d = show_fixed 1 n d @ '' PB''"
| "format_units (u # us) n d = (if n < 1024 * d then show_fixed 1 n d @ '' '' @ u else format_units us n (d * 1024))"

definition format_bytes :: "int \<Rightarrow> string" where
  "format_bytes v = format_units [''B'', ''KB'', ''MB'', ''GB'', ''TB''] (nat v) 1"

definition period_key_month :: "naive \<Rightarrow> string" where
  "period_key_month now = show_pad 4 (nat (year_of now)) @ ''-'' @ show_pad 2 (nat (month_of now))"

text \<open>\<open>now or datetime.utcnow()\<close>.\<close>

definition or_now :: "naive option \<Rightarrow> naive \<Rightarrow> naive" where
  "or_now now at = (case now of None \<Rightarrow> at | Some n \<Rightarrow> n)"

section \<open>Limits\<close>

record limit_check =
  lc_allowed :: bool
  lc_reason :: string
  lc_used_bytes :: int
  lc_limit_bytes :: int
  lc_used_count :: int
  lc_limit_count :: int

definition limit_ok :: limit_check where
  "limit_ok = \<lparr>lc_allowed = True, lc_reason = ''ok'', lc_used_bytes = 0, lc_limit_bytes = 0, lc_used_count = 0, lc_limit_count = 0\<rparr>"

definition limit_denied :: "string \<Rightarrow> limit_check" where
  "limit_denied why = limit_ok\<lparr>lc_allowed := False, lc_reason := why\<rparr>"

definition BYTES_PER_GB :: int where "BYTES_PER_GB = 1024 * 1024 * 1024"

definition METRIC_DOWNLOAD_BYTES :: string where "METRIC_DOWNLOAD_BYTES = ''download_bytes''"

definition is_unlimited_tenant :: "tenant \<Rightarrow> bool" where
  "is_unlimited_tenant t = t_access_unlimited t"

definition has_plan_access :: "tenant option \<Rightarrow> bool" where
  "has_plan_access tenant = (case tenant of None \<Rightarrow> False | Some t \<Rightarrow> is_unlimited_tenant t \<or> t_plan t \<noteq> None)"

text \<open>\<open>_as_int\<close> on a column that is an integer.\<close>

definition as_int :: "int \<Rightarrow> int \<Rightarrow> int" where
  "as_int v minimum = (if v \<ge> minimum then v else minimum)"

definition storage_limit_bytes :: "plan option \<Rightarrow> int" where
  "storage_limit_bytes plan = (case plan of None \<Rightarrow> 0 | Some p \<Rightarrow> as_int (p_storage_quota_gb p) 0 * BYTES_PER_GB)"

definition monthly_download_limit_bytes :: "plan option \<Rightarrow> int" where
  "monthly_download_limit_bytes plan = (case plan of None \<Rightarrow> 0 | Some p \<Rightarrow> as_int (p_download_quota_gb_month p) 0 * BYTES_PER_GB)"

text \<open>The check of a counted resource, the same for devices and users.\<close>

definition check_count :: "string \<Rightarrow> int \<Rightarrow> int \<Rightarrow> limit_check" where
  "check_count what limit used =
     (if limit > 0 \<and> used \<ge> limit
      then (limit_denied (''Limite de '' @ what @ '' do plano atingido ('' @ show_int used @ ''/'' @ show_int limit @ '').''))
             \<lparr>lc_used_count := used, lc_limit_count := limit\<rparr>
      else limit_ok\<lparr>lc_used_count := used, lc_limit_count := limit\<rparr>)"

definition check_can_add_device :: "tables \<Rightarrow> tenant \<Rightarrow> limit_check" where
  "check_can_add_device tb t =
     (if is_unlimited_tenant t then limit_ok
      else case t_plan t of
        None \<Rightarrow> limit_denied ''Cliente sem plano ativo.''
      | Some p \<Rightarrow> check_count ''dispositivos'' (as_int (p_max_devices p) 0) (get_device_count tb (t_id t)))"

definition check_can_add_user :: "tables \<Rightarrow> tenant \<Rightarrow> limit_check" where
  "check_can_add_user tb t =
     (if is_unlimited_tenant t then limit_ok
      else case t_plan t of
        None \<Rightarrow> limit_denied ''Cliente sem plano ativo.''
      | Some p \<Rightarrow> check_count (''usu'' @ [CHR 0xE1] @ ''rios'') (as_int (p_max_users p) 0) (get_active_user_count tb (t_id t)))"

definition check_storage_before_backup :: "tables \<Rightarrow> tenant \<Rightarrow> int \<Rightarrow> limit_check" where
  "check_storage_before_backup tb t backup_size_bytes =
     (let incoming = max backup_size_bytes 0 in
      if incoming \<le> 0 then limit_ok
      else if is_unlimited_tenant t then limit_ok
      else case t_plan t of
        None \<Rightarrow> limit_denied ''Cliente sem plano ativo para armazenar backups.''
      | Some p \<Rightarrow>
          (let limit = storage_limit_bytes (Some p); used = get_storage_used_bytes tb (t_id t)
           in if limit > 0 \<and> used + incoming > limit
              then (limit_denied (''Limite de armazenamento do plano excedido. Uso atual '' @ format_bytes used @ '' de ''
                      @ format_bytes limit @ ''.''))\<lparr>lc_used_bytes := used, lc_limit_bytes := limit\<rparr>
              else limit_ok\<lparr>lc_used_bytes := used, lc_limit_bytes := limit\<rparr>))"

section \<open>The download quota\<close>

definition is_metric :: "string \<Rightarrow> string \<Rightarrow> usage_metric \<Rightarrow> bool" where
  "is_metric tid period m \<longleftrightarrow>
     um_tenant_id m = tid \<and> um_metric_key m = METRIC_DOWNLOAD_BYTES \<and> um_period_key m = period"

definition new_metric :: "string \<Rightarrow> string \<Rightarrow> naive \<Rightarrow> usage_metric" where
  "new_metric tid period at =
     \<lparr>um_tenant_id = tid, um_metric_key = METRIC_DOWNLOAD_BYTES, um_period_key = period, um_value_bytes = 0,
      um_events_count = 0, um_updated_at = at\<rparr>"

definition get_download_used_bytes :: "usage_metric list \<Rightarrow> string \<Rightarrow> string \<Rightarrow> int" where
  "get_download_used_bytes ms tid period =
     (case find (is_metric tid period) ms of None \<Rightarrow> 0 | Some m \<Rightarrow> um_value_bytes m)"

text \<open>Change the first row that a query returns.\<close>

fun change_first :: "('a \<Rightarrow> bool) \<Rightarrow> ('a \<Rightarrow> 'a) \<Rightarrow> 'a list \<Rightarrow> 'a list" where
  "change_first P f [] = []"
| "change_first P f (x # xs) = (if P x then f x # xs else x # change_first P f xs)"

definition consume_download_bytes ::
  "usage_metric list \<Rightarrow> tenant \<Rightarrow> int \<Rightarrow> naive option \<Rightarrow> naive \<Rightarrow> limit_check \<times> usage_metric list" where
  "consume_download_bytes ms t download_size_bytes now at =
     (let size = max download_size_bytes 0; period = period_key_month (or_now now at) in
      if size \<le> 0 then (limit_ok, ms)
      else if is_unlimited_tenant t then (limit_ok, ms)
      else case t_plan t of
        None \<Rightarrow> (limit_denied ''Cliente sem plano ativo para download de backups.'', ms)
      | Some p \<Rightarrow>
          (let ms1 = (if find (is_metric (t_id t) period) ms = None then ms @ [new_metric (t_id t) period at] else ms);
               limit = monthly_download_limit_bytes (Some p);
               used = get_download_used_bytes ms1 (t_id t) period
           in if limit > 0 \<and> used + size > limit
              then ((limit_denied (''Limite mensal de download do plano excedido. Uso atual '' @ format_bytes used @ '' de ''
                       @ format_bytes limit @ ''.''))\<lparr>lc_used_bytes := used, lc_limit_bytes := limit\<rparr>, ms1)
              else (limit_ok\<lparr>lc_used_bytes := used + size, lc_limit_bytes := limit\<rparr>,
                    change_first (is_metric (t_id t) period)
                      (\<lambda>m. m\<lparr>um_value_bytes := used + size, um_events_count := um_events_count m + 1, um_updated_at := at\<rparr>) ms1)))"

section \<open>The usage summary\<close>

record usage_snapshot =
  us_has_plan_access :: bool
  us_storage_used_bytes :: int
  us_storage_limit_bytes :: int
  us_storage_used_label :: string
  us_storage_limit_label :: string
  us_storage_usage_pct :: int
  us_download_used_bytes :: int
  us_download_limit_bytes :: int
  us_download_used_label :: string
  us_download_limit_label :: string
  us_download_usage_pct :: int
  us_download_period_key :: string

definition usage_pct :: "int \<Rightarrow> int \<Rightarrow> int" where
  "usage_pct used limit = (if limit > 0 then max 0 (min (int (pct_round (nat used) (nat limit))) 100) else 0)"

definition limit_label :: "int \<Rightarrow> string" where
  "limit_label limit = (if limit \<le> 0 then ''Ilimitado'' else format_bytes limit)"

definition build_usage_snapshot :: "tables \<Rightarrow> tenant \<Rightarrow> naive option \<Rightarrow> naive \<Rightarrow> usage_snapshot" where
  "build_usage_snapshot tb t now at =
     (let period = period_key_month (or_now now at);
          storage_used = get_storage_used_bytes tb (t_id t);
          download_used = get_download_used_bytes (tb_metrics tb) (t_id t) period;
          storage_limit = (if is_unlimited_tenant t then 0 else storage_limit_bytes (t_plan t));
          download_limit = (if is_unlimited_tenant t then 0 else monthly_download_limit_bytes (t_plan t))
      in \<lparr>us_has_plan_access = has_plan_access (Some t),
          us_storage_used_bytes = storage_used, us_storage_limit_bytes = storage_limit,
          us_storage_used_label = format_bytes storage_used, us_storage_limit_label = limit_label storage_limit,
          us_storage_usage_pct = usage_pct storage_used storage_limit,
          us_download_used_bytes = download_used, us_download_limit_bytes = download_limit,
          us_download_used_label = format_bytes download_used, us_download_limit_label = limit_label download_limit,
          us_download_usage_pct = usage_pct download_used download_limit,
          us_download_period_key = period\<rparr>)"

section \<open>Choosing a plan\<close>

definition UNLIMITED_DEFAULT_SLUGS :: "string list" where "UNLIMITED_DEFAULT_SLUGS = [''ajust-consulting'']"
definition PROTECTED_DEFAULT_SLUGS :: "string list" where "PROTECTED_DEFAULT_SLUGS = [''ajust-consulting'']"

definition apply_builtin_overrides :: "tenant list \<Rightarrow> tenant list" where
  "apply_builtin_overrides ts =
     map (\<lambda>t. if t_slug t \<in> set PROTECTED_DEFAULT_SLUGS then t\<lparr>t_protected_system_tenant := True\<rparr> else t)
       (map (\<lambda>t. if t_slug t \<in> set UNLIMITED_DEFAULT_SLUGS then t\<lparr>t_access_unlimited := True\<rparr> else t) ts)"

definition get_plan_display_name :: "tenant \<Rightarrow> string" where
  "get_plan_display_name t =
     (case t_plan t of
        Some p \<Rightarrow> p_name p
      | None \<Rightarrow> if t_access_unlimited t then ''Acesso ilimitado'' else ''Sem plano'')"

definition is_deleted :: "tenant \<Rightarrow> bool" where "is_deleted t = (t_deleted_at t \<noteq> None)"

definition can_operate_without_plan :: "tenant \<Rightarrow> bool" where
  "can_operate_without_plan t = (t_plan t \<noteq> None \<or> t_access_unlimited t)"

text \<open>\<open>None\<close> when the selection is valid, otherwise the message of the \<open>ValueError\<close>.\<close>

definition validate_plan_selection :: "plan option \<Rightarrow> int \<Rightarrow> int option \<Rightarrow> int option \<Rightarrow> string option" where
  "validate_plan_selection plan device_count user_count storage_used =
     (case plan of
        None \<Rightarrow> Some ''Selecione um plano valido.''
      | Some p \<Rightarrow>
          if device_count > p_max_devices p
          then Some (''Esse plano suporta ate '' @ show_int (p_max_devices p) @ '' dispositivos, mas este cliente possui ''
                 @ show_int device_count @ ''.'')
          else if (case user_count of None \<Rightarrow> False | Some n \<Rightarrow> n > p_max_users p)
          then Some (''Esse plano suporta ate '' @ show_int (p_max_users p) @ '' usuarios ativos, mas este cliente possui ''
                 @ show_int (zero_or user_count) @ ''.'')
          else case storage_used of
            None \<Rightarrow> None
          | Some used \<Rightarrow>
              if p_storage_quota_gb p > 0 \<and> used > p_storage_quota_gb p * 1024 * 1024 * 1024
              then Some (''Storage atual ('' @ show_fixed 2 (nat used) (1024 * 1024 * 1024)
                     @ '' GB) acima do limite do plano ('' @ show_int (p_storage_quota_gb p) @ '' GB).'')
              else None)"

definition seed_trial_plan_fields :: "tenant \<Rightarrow> plan option \<Rightarrow> naive \<Rightarrow> tenant" where
  "seed_trial_plan_fields t plan now =
     (case plan of
        None \<Rightarrow> t
      | Some p \<Rightarrow>
          (let trial_days = zero_or (p_trial_days p)
           in t\<lparr>t_plan := Some p, t_subscription_status := Some ''trial'',
                t_trial_ends_at := (if trial_days > 0 then Some (now + trial_days * DAY_US) else None)\<rparr>))"

definition seed_pending_payment_plan_fields :: "tenant \<Rightarrow> plan option \<Rightarrow> tenant" where
  "seed_pending_payment_plan_fields t plan =
     (case plan of
        None \<Rightarrow> t
      | Some p \<Rightarrow>
          t\<lparr>t_plan := Some p, t_subscription_status := Some ''pending_payment'', t_trial_ends_at := None,
            t_current_period_end := None, t_billing_blocked_at := None, t_is_active := Some False\<rparr>)"

section \<open>Lemmas\<close>

lemma find_change_first:
  assumes "\<And>x. P x \<Longrightarrow> P (f x)"
  shows "find P (change_first P f xs) = map_option f (find P xs)"
  using assms by (induction xs) auto

lemma find_change_other:
  assumes "\<And>x. P x \<Longrightarrow> \<not> Q x" "\<And>x. P x \<Longrightarrow> \<not> Q (f x)"
  shows "find Q (change_first P f xs) = find Q xs"
  using assms by (induction xs) auto

lemma find_append: "find P (xs @ ys) = (case find P xs of None \<Rightarrow> find P ys | Some x \<Rightarrow> Some x)"
  by (induction xs) auto

lemma is_metric_excl: "is_metric a b m \<Longrightarrow> is_metric a' b' m \<longleftrightarrow> (a', b') = (a, b)"
  by (auto simp: is_metric_def)

lemma used_new_metric:
  "get_download_used_bytes (ms @ [new_metric a b at]) a' b' =
     (if find (is_metric a b) ms = None \<or> (a', b') \<noteq> (a, b) then get_download_used_bytes ms a' b' else get_download_used_bytes ms a b)"
  by (auto simp: get_download_used_bytes_def find_append new_metric_def is_metric_def split: option.split)

text \<open>One request for a download by a tenant with a plan.\<close>

lemma consume_step:
  assumes "t_plan t = Some p" "\<not> is_unlimited_tenant t" "0 < monthly_download_limit_bytes (Some p)"
    and "consume_download_bytes ms t amount now at = (r, ms')" "period_key_month (or_now now at) = k"
  shows "(lc_allowed r \<longleftrightarrow> amount \<le> 0 \<or> get_download_used_bytes ms (t_id t) k + amount \<le> monthly_download_limit_bytes (Some p)) \<and>
    get_download_used_bytes ms' (t_id t) k = get_download_used_bytes ms (t_id t) k + (if lc_allowed r then max amount 0 else 0) \<and>
    (\<forall>tid' k'. (tid', k') \<noteq> (t_id t, k) \<longrightarrow> get_download_used_bytes ms' tid' k' = get_download_used_bytes ms tid' k')"
proof (cases "amount \<le> 0")
  case True
  then show ?thesis using assms(4) by (auto simp: consume_download_bytes_def Let_def limit_ok_def)
next
  case False
  define M where "M = is_metric (t_id t) k"
  define ms1 where "ms1 = (if find M ms = None then ms @ [new_metric (t_id t) k at] else ms)"
  define u where "u = get_download_used_bytes ms (t_id t) k"
  have u1: "get_download_used_bytes ms1 a b = get_download_used_bytes ms a b" for a b
    by (auto simp: ms1_def used_new_metric M_def)
  have row: "find M ms1 \<noteq> None"
    by (auto simp: ms1_def find_append M_def is_metric_def new_metric_def split: option.split)
  let ?f = "\<lambda>m. m\<lparr>um_value_bytes := u + amount, um_events_count := um_events_count m + 1, um_updated_at := at\<rparr>"
  have run: "(r, ms') = (if u + amount > monthly_download_limit_bytes (Some p)
      then ((limit_denied (''Limite mensal de download do plano excedido. Uso atual '' @ format_bytes u @ '' de ''
               @ format_bytes (monthly_download_limit_bytes (Some p)) @ ''.''))
               \<lparr>lc_used_bytes := u, lc_limit_bytes := monthly_download_limit_bytes (Some p)\<rparr>, ms1)
      else (limit_ok\<lparr>lc_used_bytes := u + amount, lc_limit_bytes := monthly_download_limit_bytes (Some p)\<rparr>,
             change_first M ?f ms1))"
  proof -
    have m: "max amount 0 = amount" "(amount \<le> 0) = False" "is_unlimited_tenant t = False" using False assms(2) by auto
    show ?thesis
      unfolding assms(4) [symmetric]
      by (simp only: consume_download_bytes_def Let_def m assms(1,3,5) option.case if_False M_def [symmetric]
          ms1_def [symmetric] u1 u_def [symmetric] simp_thms)
  qed
  have here: "get_download_used_bytes (change_first M ?f ms1) (t_id t) k = u + amount"
  proof -
    have "find M (change_first M ?f ms1) = map_option ?f (find M ms1)"
      by (rule find_change_first) (simp add: M_def is_metric_def)
    with row show ?thesis by (auto simp: get_download_used_bytes_def M_def)
  qed
  have away: "get_download_used_bytes (change_first M ?f ms1) a b = get_download_used_bytes ms1 a b" if "(a, b) \<noteq> (t_id t, k)" for a b
  proof -
    have "find (is_metric a b) (change_first M ?f ms1) = find (is_metric a b) ms1"
      by (rule find_change_other) (use that in \<open>auto simp: M_def is_metric_def\<close>)
    then show ?thesis by (simp add: get_download_used_bytes_def)
  qed
  show ?thesis
  proof (cases "u + amount > monthly_download_limit_bytes (Some p)")
    case True
    with run u1 False show ?thesis by (simp add: limit_denied_def u_def)
  next
    case le: False
    with run u1 here away False show ?thesis by (simp add: limit_ok_def u_def)
  qed
qed

text \<open>The requests of a tenant in one month: which are accepted, and the metrics after them.\<close>

fun download_all :: "usage_metric list \<Rightarrow> tenant \<Rightarrow> (int \<times> naive) list \<Rightarrow> int list \<times> usage_metric list" where
  "download_all ms t [] = ([], ms)"
| "download_all ms t ((amount, now) # reqs) =
     (let (r, ms1) = consume_download_bytes ms t amount (Some now) now; (acc, ms2) = download_all ms1 t reqs
      in (if lc_allowed r then max amount 0 # acc else acc, ms2))"

section \<open>Properties\<close>

text \<open>C40: The monthly download quota holds over any sequence of downloads: when the use of the month starts
  within the limit of the plan, then after any number of requests in that month it is still within it, it
  has grown by exactly the sizes of the requests that were accepted, and no other tenant's or month's use
  has changed.\<close>

theorem download_quota_holds:
  assumes "t_plan t = Some p" and "\<not> is_unlimited_tenant t" and "0 < monthly_download_limit_bytes (Some p)"
    and "\<And>amount now. (amount, now) \<in> set reqs \<Longrightarrow> period_key_month now = k"
    and "get_download_used_bytes ms (t_id t) k \<le> monthly_download_limit_bytes (Some p)"
  shows "get_download_used_bytes (snd (download_all ms t reqs)) (t_id t) k \<le> monthly_download_limit_bytes (Some p) \<and>
    get_download_used_bytes (snd (download_all ms t reqs)) (t_id t) k =
      get_download_used_bytes ms (t_id t) k + sum_list (fst (download_all ms t reqs)) \<and>
    (\<forall>tid' k'. (tid', k') \<noteq> (t_id t, k) \<longrightarrow>
       get_download_used_bytes (snd (download_all ms t reqs)) tid' k' = get_download_used_bytes ms tid' k')"
  using assms(4,5)
proof (induction reqs arbitrary: ms)
  case Nil
  then show ?case by simp
next
  case (Cons req reqs)
  obtain amount now where req: "req = (amount, now)" by fastforce
  obtain r ms1 where run: "consume_download_bytes ms t amount (Some now) now = (r, ms1)" by fastforce
  have k: "period_key_month (or_now (Some now) now) = k" using Cons.prems(1) [of amount now] req by (simp add: or_now_def)
  note step = consume_step [OF assms(1-3) run k]
  obtain taken ms2 where rest: "download_all ms1 t reqs = (taken, ms2)" by fastforce
  have "get_download_used_bytes ms1 (t_id t) k \<le> monthly_download_limit_bytes (Some p)"
    using step Cons.prems(2) by auto
  moreover have "period_key_month at = k" if "(n, at) \<in> set reqs" for n at
    using Cons.prems(1) [of n at] that by simp
  ultimately have "get_download_used_bytes ms2 (t_id t) k \<le> monthly_download_limit_bytes (Some p) \<and>
      get_download_used_bytes ms2 (t_id t) k = get_download_used_bytes ms1 (t_id t) k + sum_list taken \<and>
      (\<forall>tid' k'. (tid', k') \<noteq> (t_id t, k) \<longrightarrow> get_download_used_bytes ms2 tid' k' = get_download_used_bytes ms1 tid' k')"
    using Cons.IH [of ms1] by (simp add: rest)
  with step show ?case by (auto simp: req run rest)
qed

theorem download_quota_holds_witness:
  "get_download_used_bytes (snd (download_all [] blank_tenant [(100, 0), (5 * BYTES_PER_GB * 10, 0)])) ''t'' (period_key_month 0)
     \<le> 20 * BYTES_PER_GB"
proof -
  have f: "t_plan blank_tenant = Some blank_plan" "\<not> is_unlimited_tenant blank_tenant" "t_id blank_tenant = ''t''"
    and lim: "monthly_download_limit_bytes (Some blank_plan) = 20 * BYTES_PER_GB"
    by (simp_all add: blank_tenant_def blank_plan_def is_unlimited_tenant_def monthly_download_limit_bytes_def as_int_def)
  have gb: "0 < BYTES_PER_GB" by (simp add: BYTES_PER_GB_def)
  show ?thesis
    using download_quota_holds [OF f(1,2), of "[(100, 0), (5 * BYTES_PER_GB * 10, 0)]" "period_key_month 0" "[]"] f(3) lim gb
    by (auto simp: get_download_used_bytes_def [of "[]"] simp del: download_all.simps)
qed

text \<open>The two checks of the device limit agree when the limit is positive: a tenant may add a device exactly
  when its plan could be selected with that device counted. When the limit is zero they disagree: the check
  before adding a device reads it as no limit at all, the check of the selection as no device at all.\<close>

theorem device_limit_checks_agree:
  assumes "t_plan t = Some p" and "\<not> is_unlimited_tenant t" and "0 \<le> p_max_devices p"
  shows "(lc_allowed (check_can_add_device tb t) \<longleftrightarrow>
      validate_plan_selection (Some p) (get_device_count tb (t_id t) + 1) None None = None) \<longleftrightarrow> 0 < p_max_devices p"
  using assms
  by (auto simp: check_can_add_device_def check_count_def as_int_def limit_ok_def limit_denied_def validate_plan_selection_def
      get_device_count_def)

theorem device_limit_checks_agree_witness:
  "lc_allowed (check_can_add_device \<lparr>tb_devices = [], tb_users = [], tb_backups = [], tb_metrics = []\<rparr> blank_tenant) \<longleftrightarrow>
   validate_plan_selection (Some blank_plan) (get_device_count \<lparr>tb_devices = [], tb_users = [], tb_backups = [], tb_metrics = []\<rparr> ''t'' + 1)
     None None = None"
  using device_limit_checks_agree [of blank_tenant blank_plan "\<lparr>tb_devices = [], tb_users = [], tb_backups = [], tb_metrics = []\<rparr>"]
  by (simp add: blank_tenant_def blank_plan_def is_unlimited_tenant_def)

text \<open>The storage quota holds: a backup that the check lets through, once stored for a device of the tenant,
  leaves the tenant's storage within the limit of its plan, and the storage has grown by exactly the size
  of the backup; the storage of every other tenant is the same.\<close>

theorem storage_quota_holds:
  assumes "t_plan t = Some p" and "\<not> is_unlimited_tenant t" and "0 < storage_limit_bytes (Some p)"
    and "lc_allowed (check_storage_before_backup tb t n)" and "0 < n"
    and "distinct (map d_id (tb_devices tb))" and "d \<in> set (tb_devices tb)" and "d_tenant_id d = t_id t"
    and "b_device_id b = d_id d" and "b_file_size_bytes b = Some n"
  shows "get_storage_used_bytes (tb\<lparr>tb_backups := b # tb_backups tb\<rparr>) (t_id t) \<le> storage_limit_bytes (Some p) \<and>
    (\<forall>tid. get_storage_used_bytes (tb\<lparr>tb_backups := b # tb_backups tb\<rparr>) tid =
       get_storage_used_bytes tb tid + (if tid = t_id t then n else 0))"
proof -
  have one: "filter (\<lambda>x. d_id x = d_id d) xs = [d]" if "distinct (map d_id xs)" "d \<in> set xs" for xs
    using that
  proof (induction xs)
    case (Cons x xs)
    show ?case
    proof (cases "x = d")
      case True
      with Cons.prems have "\<forall>y \<in> set xs. d_id y \<noteq> d_id d" by (auto simp: rev_image_eqI)
      then show ?thesis using True by simp
    next
      case False
      with Cons have "d_id x \<noteq> d_id d" by (auto simp: rev_image_eqI)
      with False Cons show ?thesis by simp
    qed
  qed simp
  have sub: "filter (\<lambda>x. d_id x = b_device_id b \<and> d_tenant_id x = tid) (tb_devices tb) = (if tid = t_id t then [d] else [])" for tid
  proof -
    have "filter (\<lambda>x. d_id x = b_device_id b \<and> d_tenant_id x = tid) (tb_devices tb) =
        filter (\<lambda>x. d_tenant_id x = tid) (filter (\<lambda>x. d_id x = d_id d) (tb_devices tb))"
      by (simp add: assms(9) conj_commute)
    then show ?thesis by (simp add: one [OF assms(6,7)] assms(8))
  qed
  have grow: "get_storage_used_bytes (tb\<lparr>tb_backups := b # tb_backups tb\<rparr>) tid =
       get_storage_used_bytes tb tid + (if tid = t_id t then n else 0)" for tid
    by (simp add: get_storage_used_bytes_def sub assms(10) zero_or_def)
  have "get_storage_used_bytes tb (t_id t) + n \<le> storage_limit_bytes (Some p)"
    using assms(1-5) by (auto simp: check_storage_before_backup_def limit_denied_def limit_ok_def Let_def split: if_splits)
  with grow show ?thesis by simp
qed

theorem storage_quota_holds_witness:
  "get_storage_used_bytes \<lparr>tb_devices = [blank_device], tb_users = [],
     tb_backups = [\<lparr>b_id = ''b'', b_device_id = ''d'', b_file_path = None, b_file_size_bytes = Some 5000, b_hash_sha256 = None,
       b_status = SUCCESS, b_error_message = None, b_started_at = None, b_completed_at = None, b_created_at = None\<rparr>],
     tb_metrics = []\<rparr> ''t'' \<le> 10 * BYTES_PER_GB"
  using storage_quota_holds [of blank_tenant blank_plan "\<lparr>tb_devices = [blank_device], tb_users = [], tb_backups = [], tb_metrics = []\<rparr>" 5000
      blank_device "\<lparr>b_id = ''b'', b_device_id = ''d'', b_file_path = None, b_file_size_bytes = Some 5000, b_hash_sha256 = None,
       b_status = SUCCESS, b_error_message = None, b_started_at = None, b_completed_at = None, b_created_at = None\<rparr>"]
  by (simp add: blank_tenant_def blank_plan_def blank_device_def is_unlimited_tenant_def storage_limit_bytes_def as_int_def
      BYTES_PER_GB_def check_storage_before_backup_def get_storage_used_bytes_def limit_ok_def)

end
