(* ===== verification/Executor.thy ===== *)
theory Executor
  imports Vpn Diagnostics LogSanitizer "HOL-Library.List_Lexorder" "HOL-Library.Char_ord"
begin

text \<open>
  The execution of the backup of one device, up to the file its script leaves
  (\<open>src/app/services/backup_executor.py\<close>): loading the script, the directory of the device, the parameters of the
  script with the credentials of the device and of the jump host, the check of the network, the run of the script
  and the reading of its answer, inside a VPN session where the device needs one.

  What lies outside is the record \<open>exec_env\<close>: the files of the scripts and their import, the call of a script
  (with the jump host patched into \<open>netmiko\<close>), directories, decryption, the probe of the network and the text of the
  exceptions of \<open>int()\<close>. A module is a value of the type \<open>'m\<close>; the modules and error texts that were
  kept are a part of the world. The file of a script is looked at once for its presence and its time.
  The column \<open>extra_parameters\<close> holds a JSON object or null, and a script that answers with a path answers with a text.
\<close>

section \<open>Scripts\<close>

record 'm script_cache =
  sc_modules :: "string \<Rightarrow> 'm option"
  sc_mtimes :: "string \<Rightarrow> int option"
  sc_errors :: "string \<Rightarrow> string option"

text \<open>The answer of a script: a tuple or list, or a value that counts as true or false.\<close>

datatype script_answer = Answer "pyval list" | Verdict bool

record precheck =
  pc_ping_ok :: bool
  pc_tcp_ok :: bool
  pc_ping_method :: string
  pc_tcp_method :: string
  pc_tcp_port :: int
  pc_rtt :: string

text \<open>\<open>xe_entry\<close>: the names of the parameters of \<open>realizar_backup\<close>, where the module has this function; \<open>Some None\<close> where it takes
  any (or its signature is not known).\<close>

record ('s, 'm) exec_env =
  xe_machine :: "'s machine"
  xe_vpn :: "'s vpn_host"
  xe_mtime :: "string \<Rightarrow> 's \<Rightarrow> int option"
  xe_import :: "string \<Rightarrow> ('s, 'm) op"
  xe_cache :: "'s \<Rightarrow> 'm script_cache"
  xe_set_cache :: "'m script_cache \<Rightarrow> 's \<Rightarrow> 's"
  xe_entry :: "'m \<Rightarrow> string list option option"
  xe_run :: "'m \<Rightarrow> pydict \<Rightarrow> pyval \<Rightarrow> ('s, script_answer) op"
  xe_base :: string
  xe_makedirs :: "string \<Rightarrow> ('s, unit) op"
  xe_files :: "string \<Rightarrow> ('s, (string \<times> int) list) op"
  xe_decrypt :: "string \<Rightarrow> string + string"
  xe_probe :: "string \<Rightarrow> int \<Rightarrow> int \<Rightarrow> pyval \<Rightarrow> ('s, precheck) op"
  xe_int_error :: "pyval \<Rightarrow> string"

definition forget_script :: "string \<Rightarrow> string \<Rightarrow> 'm script_cache \<Rightarrow> 'm script_cache" where
  "forget_script name why c =
     \<lparr>sc_modules = (sc_modules c)(name := None), sc_mtimes = (sc_mtimes c)(name := None), sc_errors = (sc_errors c)(name := Some why)\<rparr>"

definition keep_script :: "string \<Rightarrow> int \<Rightarrow> 'm \<Rightarrow> 'm script_cache \<Rightarrow> 'm script_cache" where
  "keep_script name mtime m c =
     \<lparr>sc_modules = (sc_modules c)(name := Some m), sc_mtimes = (sc_mtimes c)(name := Some mtime), sc_errors = (sc_errors c)(name := None)\<rparr>"

definition load_script :: "('s, 'm) exec_env \<Rightarrow> string \<Rightarrow> ('s, 'm option) fio" where
  "load_script X name =
     f_bind (f_read (\<lambda>s. (xe_mtime X name s, xe_cache X s))) (\<lambda>(mtime, c).
       if sc_modules c name \<noteq> None \<and> sc_mtimes c name = mtime then f_ret (sc_modules c name)
       else case mtime of
         None \<Rightarrow> f_seq (f_write (xe_set_cache X (forget_script name ''Arquivo nao encontrado.'' c))) (f_ret None)
       | Some t \<Rightarrow>
           f_catch (f_bind (f_call (xe_import X name)) (\<lambda>m.
               f_bind (f_read (xe_cache X)) (\<lambda>c.
               f_seq (f_write (xe_set_cache X (keep_script name t m c))) (f_ret (Some m)))))
             (\<lambda>e. f_bind (f_read (xe_cache X)) (\<lambda>c.
                  f_seq (f_write (xe_set_cache X (forget_script name (fault_text e) c))) (f_ret None))))"

section \<open>The directory of a device\<close>

text \<open>\<open>c.isalnum()\<close> below 256: letters, digits, superscript digits and fractions.\<close>

definition is_alnum :: "char \<Rightarrow> bool" where
  "is_alnum c \<longleftrightarrow>
     (let n = of_char c :: nat
      in 48 \<le> n \<and> n \<le> 57 \<or> 65 \<le> n \<and> n \<le> 90 \<or> 97 \<le> n \<and> n \<le> 122 \<or> n \<in> {170, 178, 179, 181, 185, 186, 188, 189, 190} \<or>
         192 \<le> n \<and> n \<le> 214 \<or> 216 \<le> n \<and> n \<le> 246 \<or> 248 \<le> n)"

definition sanitize_name :: "string \<Rightarrow> string" where
  "sanitize_name name =
     (if name = [] then ''unnamed''
      else map (\<lambda>c. if c = CHR '' '' then CHR ''_'' else c)
             (py_strip (filter (\<lambda>c. is_alnum c \<or> c \<in> {CHR '' '', CHR ''_'', CHR ''-''}) name)))"

text \<open>\<open>os.path.join\<close> of POSIX.\<close>

definition path_join2 :: "string \<Rightarrow> string \<Rightarrow> string" where
  "path_join2 a b =
     (if prefix ''/'' b then b else if a = [] \<or> suffix ''/'' a then a @ b else a @ ''/'' @ b)"

definition backup_path :: "string \<Rightarrow> string \<Rightarrow> string \<Rightarrow> string \<Rightarrow> string" where
  "backup_path base tenant_slug group_name device_name =
     path_join2 (path_join2 (path_join2 base (sanitize_name tenant_slug)) (sanitize_name group_name)) (sanitize_name device_name)"

definition get_backup_path :: "('s, 'm) exec_env \<Rightarrow> string \<Rightarrow> string \<Rightarrow> string \<Rightarrow> ('s, string) fio" where
  "get_backup_path X tenant_slug group_name device_name =
     (let path = backup_path (xe_base X) tenant_slug group_name device_name
      in f_seq (f_call (xe_makedirs X path)) (f_ret path))"

section \<open>The parameters of a script\<close>

text \<open>The logger, an object, stands for itself.\<close>

definition LOGGER :: pyval where
  "LOGGER = PStr ''<BackupLogger>''"

definition opt_int :: "int option \<Rightarrow> pyval" where
  "opt_int v = (case v of None \<Rightarrow> PNone | Some i \<Rightarrow> PInt i)"

definition script_parameters :: "device \<Rightarrow> string \<Rightarrow> pydict" where
  "script_parameters d password =
     (let extra = as_dict (d_extra_parameters d);
          p = (if dhas extra ''password'' then extra else dput extra ''password'' (PStr password))
      in dput p ''use_telnet'' (PBool (flag (d_use_telnet d))))"

definition script_kwargs :: "device \<Rightarrow> device_type \<Rightarrow> string \<Rightarrow> string \<Rightarrow> string \<Rightarrow> string option \<Rightarrow> pydict" where
  "script_kwargs d ty group_name backup_dir password task_id =
     (let base = [(''ip'', PStr (d_ip_address d)), (''porta'', opt_int (d_port d)), (''usuario'', PStr (d_username d)),
            (''password'', PStr password), (''nome_provedor'', PStr group_name), (''nome_tipo_equip'', PStr (dt_name ty)),
            (''nome_dispositivo'', PStr (d_name d)), (''backup_dir'', PStr backup_dir), (''backup_base_path'', PStr backup_dir),
            (''parametros'', PDict (script_parameters d password)), (''logger'', LOGGER), (''task_id'', opt_str task_id)];
          with_extra = dupdate base (as_dict (d_extra_parameters d))
      in if flag (d_use_telnet d) then dput (dput with_extra ''use_telnet'' (PBool True)) ''usar_telnet'' (PBool True) else with_extra)"

definition is_mikrotik_type :: "device_type \<Rightarrow> bool" where
  "is_mikrotik_type ty \<longleftrightarrow>
     (let name = py_lower (py_strip (dt_name ty)); script_name = py_lower (py_strip (dt_script_name ty))
      in py_in ''mikrotik'' name \<or> py_in ''routeros'' name \<or> py_in ''mikrotik'' script_name \<or> py_in ''routeros'' script_name)"

section \<open>The log of a run\<close>

text \<open>A line of the log goes to the logs of the task, where there is one.\<close>

definition exec_log :: "('s, 'm) exec_env \<Rightarrow> string option \<Rightarrow> device \<Rightarrow> string \<Rightarrow> string \<Rightarrow> ('s, unit) fio" where
  "exec_log X task_id d level message =
     (if or_empty task_id = [] then f_ret ()
      else f_lift (task_log (xe_machine X) task_id (d_name d) (sanitize_operational_message (PStr message)) level))"

definition exec_tell :: "('s, 'm) exec_env \<Rightarrow> tele \<Rightarrow> ('s, unit) fio" where
  "exec_tell X t = f_lift (tell_m (xe_machine X) t)"

section \<open>The jump host\<close>

text \<open>A device behind a jump host, unless it is a MikroTik and these are configured to go without.\<close>

definition jump_wanted :: "(string \<Rightarrow> string option) \<Rightarrow> device_group option \<Rightarrow> device \<Rightarrow> bool" where
  "jump_wanted env grp d \<longleftrightarrow>
     (case grp of None \<Rightarrow> False | Some g \<Rightarrow> uses_jump_host env (Some g) (Some d) \<and> or_empty (g_jump_host g) \<noteq> [])"

definition jump_skipped :: "(string \<Rightarrow> string option) \<Rightarrow> device_group option \<Rightarrow> device \<Rightarrow> device_type \<Rightarrow> bool" where
  "jump_skipped env grp d ty \<longleftrightarrow>
     jump_wanted env grp d \<and> truthy_env env ''BACKUP_MIKROTIK_DISABLE_JUMP_HOST'' ''1'' \<and> is_mikrotik_type ty"

text \<open>A stored secret that is not empty, decrypted; \<^const>\<open>Inl\<close> is the class of the exception.\<close>

definition decrypt_stored :: "('s, 'm) exec_env \<Rightarrow> string option \<Rightarrow> string + string option" where
  "decrypt_stored X v =
     (if or_empty v = [] then Inr None
      else case xe_decrypt X (or_empty v) of Inl cls \<Rightarrow> Inl cls | Inr p \<Rightarrow> Inr (Some p))"

definition exc_class :: "string \<Rightarrow> string" where
  "exc_class cls = (if cls = [] then ''erro_desconhecido'' else cls)"

definition jump_port_of :: "device_group \<Rightarrow> int" where
  "jump_port_of g = (case g_jump_port g of None \<Rightarrow> 22 | Some p \<Rightarrow> if p = 0 then 22 else p)"

definition jump_kwargs :: "device_group \<Rightarrow> string option \<Rightarrow> string option \<Rightarrow> pydict" where
  "jump_kwargs g password key =
     (let host = opt_str (g_jump_host g); port = PInt (jump_port_of g); user = opt_str (g_jump_username g)
      in [(''jump_host'', PDict [(''host'', host), (''port'', port), (''username'', user), (''password'', opt_str password), (''key'', opt_str key)]),
          (''usar_jump_host'', PBool True), (''jump_host_ip'', host), (''jump_host_porta'', port), (''jump_host_usuario'', user),
          (''jump_host_senha'', opt_str password), (''jump_host_chave'', opt_str key)])"

text \<open>The message of a refusal, or what is added to the parameters.\<close>

definition jump_setup :: "('s, 'm) exec_env \<Rightarrow> device_group \<Rightarrow> string + pydict" where
  "jump_setup X g =
     (case decrypt_stored X (g_jump_password_encrypted g) of
        Inl cls \<Rightarrow> Inl (''Falha ao descriptografar senha do Jump Host ('' @ exc_class cls @ ''). Regrave a senha do grupo.'')
      | Inr password \<Rightarrow>
          (case decrypt_stored X (g_jump_key_encrypted g) of
             Inl cls \<Rightarrow> Inl (''Falha ao descriptografar chave do Jump Host ('' @ exc_class cls @ ''). Regrave a chave do grupo.'')
           | Inr key \<Rightarrow>
               if or_empty (g_jump_username g) = [] then Inl ''Jump Host configurado sem usuario. Ajuste o grupo antes de executar o backup.''
               else if or_empty password = [] \<and> or_empty key = []
               then Inl ''Jump Host sem credencial (senha/chave). Ajuste o grupo antes de executar o backup.''
               else Inr (jump_kwargs g password key)))"

text \<open>\<open>int()\<close> of a value of the parameters.\<close>

definition f_int :: "('s, 'm) exec_env \<Rightarrow> pyval \<Rightarrow> ('s, int) fio" where
  "f_int X v = (case val_int v of None \<Rightarrow> f_raise (OtherFault (xe_int_error X v)) | Some i \<Rightarrow> f_ret i)"

definition jump_label :: "('s, 'm) exec_env \<Rightarrow> pyval \<Rightarrow> ('s, string) fio" where
  "jump_label X cfg =
     (case cfg of
        PDict j \<Rightarrow>
          if truthy (dget j ''host'')
          then f_bind (f_int X (py_or (dget j ''port'') (PInt 22))) (\<lambda>port. f_ret (py_str (dget j ''host'') @ '':'' @ show_int port))
          else f_ret ''direct''
      | _ \<Rightarrow> f_ret ''direct'')"

section \<open>The check of the network\<close>

definition str_or :: "string \<Rightarrow> string \<Rightarrow> string" where
  "str_or s dflt = (if s = [] then dflt else s)"

definition metric_labels :: "string \<Rightarrow> device_type \<Rightarrow> string \<Rightarrow> (string \<times> string) list" where
  "metric_labels tenant_slug ty label =
     [(''tenant'', str_or tenant_slug ''unknown''), (''device_type'', str_or (dt_name ty) ''unknown''),
      (''script_name'', str_or (dt_script_name ty) ''unknown''), (''jump_host'', label)]"

definition count_precheck :: "('s, 'm) exec_env \<Rightarrow> (string \<times> string) list \<Rightarrow> string \<Rightarrow> string \<Rightarrow> string \<Rightarrow> ('s, unit) fio" where
  "count_precheck X labels outcome ping tcp =
     exec_tell X (Counter ''backup_precheck_total'' (labels @ [(''outcome'', outcome), (''ping_method'', ping), (''tcp_method'', tcp)]))"

definition default_port :: "device \<Rightarrow> int" where
  "default_port d =
     (let dflt = (if flag (d_use_telnet d) then 23 else 22)
      in case d_port d of None \<Rightarrow> dflt | Some p \<Rightarrow> if p = 0 then dflt else p)"

definition candidate_ports :: "device \<Rightarrow> device_type \<Rightarrow> int \<Rightarrow> int list" where
  "candidate_ports d ty tried =
     filter (\<lambda>p. p \<noteq> tried) (if is_mikrotik_type ty then [22, 2222, 22022] else if flag (d_use_telnet d) then [23, 2323] else [])"

text \<open>The first of the other ports that answers.\<close>

fun try_ports ::
  "('s, 'm) exec_env \<Rightarrow> string option \<Rightarrow> device \<Rightarrow> (string \<times> string) list \<Rightarrow> int \<Rightarrow> int list \<Rightarrow> ('s, (int \<times> precheck) option) fio" where
  "try_ports X task_id d labels timeout [] = f_ret None"
| "try_ports X task_id d labels timeout (port # ports) =
     f_bind (f_call (xe_probe X (d_ip_address d) port timeout PNone)) (\<lambda>pc.
       if \<not> pc_tcp_ok pc then try_ports X task_id d labels timeout ports
       else f_seq (exec_log X task_id d ''warning'' (''Precheck recuperado por porta alternativa ('' @ show_int (default_port d) @ '' -> '' @
                show_int port @ '') via '' @ pc_tcp_method pc @ ''. Prosseguindo com backup.''))
              (f_seq (count_precheck X labels ''tcp_fail_recovered_alt_port'' (pc_ping_method pc) (pc_tcp_method pc))
                (f_ret (Some (port, pc)))))"

definition precheck_outcome :: "precheck \<Rightarrow> string" where
  "precheck_outcome pc =
     (if pc_ping_ok pc \<and> pc_tcp_ok pc then ''ready'' else if pc_tcp_ok pc then ''tcp_ok_ping_fail''
      else if pc_ping_ok pc then ''ping_ok_tcp_fail'' else ''down'')"

definition py_bool :: "bool \<Rightarrow> string" where
  "py_bool b = (if b then ''True'' else ''False'')"

definition precheck_text :: "precheck \<Rightarrow> string" where
  "precheck_text pc =
     ''Precheck rede: ping_ok='' @ py_bool (pc_ping_ok pc) @ '' tcp_ok='' @ py_bool (pc_tcp_ok pc) @ '' ping_method='' @ pc_ping_method pc @
     '' tcp_method='' @ pc_tcp_method pc @ '' rtt_ms='' @ pc_rtt pc"

definition unreachable_text :: "precheck \<Rightarrow> string" where
  "unreachable_text pc =
     ''Rede inalcan'' @ [CHR 0xE7, CHR 0xE1] @ ''vel ('' @ pc_tcp_method pc @ ''): N'' @ [CHR 0xE3] @ ''o foi poss'' @ [CHR 0xED] @
     ''vel acessar a porta '' @ show_int (pc_tcp_port pc) @ ''. Backup abortado via precheck/fail-fast.''"

definition probe_timeout :: "('s, 'm) exec_env \<Rightarrow> (string \<Rightarrow> string option) \<Rightarrow> ('s, int) fio" where
  "probe_timeout X env =
     f_bind (f_int X (py_or (case env ''BACKUP_NETWORK_PRECHECK_TIMEOUT_SECONDS'' of None \<Rightarrow> PStr ''3'' | Some v \<Rightarrow> PStr v) (PInt 3)))
       (\<lambda>n. f_ret (max 1 n))"

text \<open>The probe of the port, and of the other ports when it does not answer and there is no jump host.\<close>

definition probe_device ::
  "('s, 'm) exec_env \<Rightarrow> string option \<Rightarrow> device \<Rightarrow> device_type \<Rightarrow> (string \<times> string) list \<Rightarrow> int \<Rightarrow> pyval \<Rightarrow>
   ('s, precheck \<times> int option) fio" where
  "probe_device X task_id d ty labels timeout cfg =
     f_bind (f_call (xe_probe X (d_ip_address d) (default_port d) timeout (case cfg of PDict j \<Rightarrow> cfg | _ \<Rightarrow> PNone))) (\<lambda>pc.
       if pc_tcp_ok pc \<or> truthy cfg then f_ret (pc, None)
       else f_bind (try_ports X task_id d labels timeout (candidate_ports d ty (pc_tcp_port pc))) (\<lambda>found.
         f_ret (case found of None \<Rightarrow> (pc, None) | Some (port, pc') \<Rightarrow> (pc', Some port))))"

text \<open>The message of a refusal, or the port found instead of the one of the inventory.\<close>

definition judge_probe ::
  "('s, 'm) exec_env \<Rightarrow> (string \<Rightarrow> string option) \<Rightarrow> string option \<Rightarrow> device \<Rightarrow> (string \<times> string) list \<Rightarrow> pyval \<Rightarrow> precheck \<Rightarrow> int option \<Rightarrow>
   ('s, string + int option) fio" where
  "judge_probe X env task_id d labels cfg pc other =
     (let ignored = truthy cfg \<and> \<not> pc_tcp_ok pc \<and> truthy_env env ''BACKUP_NETWORK_PRECHECK_IGNORE_JUMP_TCP_FAIL'' ''0'';
          telnet = flag (d_use_telnet d);
          count = (\<lambda>outcome. count_precheck X labels outcome (pc_ping_method pc) (pc_tcp_method pc))
      in f_seq (exec_tell X (Observe ''backup_precheck_duration_seconds'' (labels @ [(''result'', if pc_tcp_ok pc then ''tcp_ok'' else ''tcp_fail'')])))
        (f_seq (count (precheck_outcome pc))
        (f_seq (exec_log X task_id d ''info'' (precheck_text pc))
        (f_seq (case other of None \<Rightarrow> f_ret ()
           | Some port \<Rightarrow> exec_log X task_id d ''info'' (''Porta efetiva ajustada para '' @ show_int port @ '' apos precheck alternativo.''))
        (f_seq (if ignored
           then f_seq (exec_log X task_id d ''warning'' (''Precheck TCP falhou ('' @ pc_tcp_method pc @ ''), mas o dispositivo usa '' @
                  (if telnet then ''TELNET via '' else []) @ ''Jump Host. Ignorando fail-fast e seguindo tentativa real do script.''))
                (count (if telnet then ''tcp_fail_ignored_jump_telnet'' else ''tcp_fail_ignored_jump''))
           else f_ret ())
          (if truthy_env env ''BACKUP_NETWORK_PRECHECK_FAIL_FAST'' ''1'' \<and> \<not> pc_tcp_ok pc \<and> \<not> ignored
           then f_seq (exec_log X task_id d ''error'' (unreachable_text pc))
                (f_seq (exec_tell X (Counter ''backup_script_total'' (labels @ [(''outcome'', ''precheck_fail'')])))
                  (f_ret (Inl (unreachable_text pc))))
           else f_ret (Inr other)))))))"

definition network_check ::
  "('s, 'm) exec_env \<Rightarrow> string option \<Rightarrow> device \<Rightarrow> device_type \<Rightarrow> (string \<times> string) list \<Rightarrow> pyval \<Rightarrow> ('s, string + int option) fio" where
  "network_check X task_id d ty labels cfg =
     (let env = m_env (xe_machine X); telnet = flag (d_use_telnet d)
      in f_bind (probe_timeout X env) (\<lambda>timeout.
         if \<not> truthy_env env ''BACKUP_NETWORK_PRECHECK_ENABLED'' ''1'' then f_ret (Inr None)
         else if truthy cfg \<and> (truthy_env env ''BACKUP_NETWORK_PRECHECK_SKIP_FOR_JUMP'' ''1'' \<or> telnet)
         then f_seq (exec_log X task_id d ''info'' (''Precheck de rede ignorado para '' @ (if telnet then ''TELNET'' else ''dispositivo'') @
                  '' via Jump Host; seguindo tentativa real do script.''))
              (f_seq (count_precheck X labels (if telnet then ''skipped_jump_telnet'' else ''skipped_jump'') ''none'' ''none'') (f_ret (Inr None)))
         else f_bind (probe_device X task_id d ty labels timeout cfg) (\<lambda>(pc, other). judge_probe X env task_id d labels cfg pc other)))"

section \<open>The run of a script\<close>

text \<open>Only the parameters the script names, and the names left out.\<close>

definition filter_script_kwargs :: "string list option \<Rightarrow> pydict \<Rightarrow> pydict \<times> string list" where
  "filter_script_kwargs accepted kwargs =
     (case accepted of
        None \<Rightarrow> (kwargs, [])
      | Some names \<Rightarrow> (filter (\<lambda>(k, v). k \<in> set names) kwargs, sort (filter (\<lambda>k. k \<notin> set names) (map fst kwargs))))"

text \<open>What an answer says: success, the message for people, and a path.\<close>

definition read_answer :: "script_answer \<Rightarrow> bool \<times> string \<times> string option" where
  "read_answer a =
     (case a of
        Verdict b \<Rightarrow> (b, [], None)
      | Answer xs \<Rightarrow>
          (0 < length xs \<and> truthy (xs ! 0),
           if 1 < length xs \<and> truthy (xs ! 1) then sanitize_operational_message (xs ! 1) else [],
           if 2 < length xs then (case xs ! 2 of PStr p \<Rightarrow> if p = [] then None else Some p | _ \<Rightarrow> None) else None))"

text \<open>The first of \<open>sorted(files, key=os.path.getmtime, reverse=True)\<close>.\<close>

definition newest_file :: "(string \<times> int) list \<Rightarrow> string option" where
  "newest_file files = (case sort_key (\<lambda>(p, t). - t) files of [] \<Rightarrow> None | (p, t) # _ \<Rightarrow> Some p)"

type_synonym outcome = "bool \<times> string \<times> string option"

definition locate_file ::
  "('s, 'm) exec_env \<Rightarrow> string option \<Rightarrow> device \<Rightarrow> string \<Rightarrow> string \<Rightarrow> string option \<Rightarrow> ('s, outcome) fio" where
  "locate_file X task_id d backup_dir message explicit =
     f_bind (case explicit of Some p \<Rightarrow> f_ret (Some p)
             | None \<Rightarrow> f_bind (f_call (xe_files X backup_dir)) (\<lambda>files. f_ret (newest_file files))) (\<lambda>file.
       case file of
         Some p \<Rightarrow> f_seq (exec_log X task_id d ''info'' ''Arquivo de backup gerado; validando integridade...'')
             (f_ret (True, str_or message ''Backup realizado com sucesso'', Some p))
       | None \<Rightarrow>
           (let msg = ''Comando executado, mas nenhum arquivo gerado/encontrado.''
            in f_seq (exec_log X task_id d ''error'' msg) (f_ret (False, msg, None))))"

definition script_error :: "('s, 'm) exec_env \<Rightarrow> string option \<Rightarrow> device \<Rightarrow> fault \<Rightarrow> ('s, outcome) fio" where
  "script_error X task_id d e =
     (let msg = sanitize_operational_message (PStr (fault_text e))
      in f_seq (exec_log X task_id d ''error'' (''Erro: '' @ msg)) (f_ret (False, ''Erro durante backup: '' @ msg, None)))"

text \<open>The body of the \<open>try\<close>; the second component is the variable \<open>success\<close> that the \<open>finally\<close> looks at.\<close>

definition run_script ::
  "('s, 'm) exec_env \<Rightarrow> string option \<Rightarrow> device \<Rightarrow> device_type \<Rightarrow> 'm \<Rightarrow> string list option \<Rightarrow> string \<Rightarrow> pydict \<Rightarrow> (string \<times> string) list \<Rightarrow>
   ('s, outcome \<times> bool) fio" where
  "run_script X task_id d ty m accepted backup_dir kwargs labels =
     (let cfg = dget kwargs ''jump_host''
      in f_bind (network_check X task_id d ty labels cfg) (\<lambda>r.
        case r of
          Inl msg \<Rightarrow> f_ret ((False, msg, None), False)
        | Inr other \<Rightarrow>
            (let kw = (case other of None \<Rightarrow> kwargs | Some port \<Rightarrow> dput kwargs ''porta'' (PInt port));
                 (passed, ignored) = filter_script_kwargs accepted kw
             in f_seq (if ignored = [] then f_ret ()
                  else exec_log X task_id d ''warning'' (''Script legado sem suporte a parametros adicionais; ignorando: '' @
                         join_str '', '' ignored @ ''.''))
               (f_bind (f_call (xe_run X m passed cfg)) (\<lambda>a.
                 let (success, message, explicit) = read_answer a
                 in if success
                    then f_bind (f_catch (locate_file X task_id d backup_dir message explicit) (script_error X task_id d)) (\<lambda>res. f_ret (res, True))
                    else f_ret ((False, str_or message ''Falha ao realizar backup'', None), False))))))"

definition script_finished ::
  "('s, 'm) exec_env \<Rightarrow> device \<Rightarrow> device_type \<Rightarrow> string \<Rightarrow> string \<Rightarrow> string \<Rightarrow> (string \<times> string) list \<Rightarrow> bool \<Rightarrow> ('s, unit) fio" where
  "script_finished X d ty tenant_slug group_name label labels success =
     (let outcome = (if success then ''success'' else ''failed'')
      in f_seq (exec_tell X (Observe ''backup_script_duration_seconds'' (labels @ [(''outcome'', outcome)])))
        (f_seq (exec_tell X (Counter ''backup_script_total'' (labels @ [(''outcome'', outcome)])))
          (exec_tell X (Event ''backup_script_finished'' [(''device_name'', d_name d), (''device_ip'', d_ip_address d), (''tenant'', tenant_slug),
             (''group'', group_name), (''jump_host'', label), (''device_type'', dt_name ty), (''script_name'', dt_script_name ty), (''outcome'', outcome)]))))"

text \<open>The label of the jump host is built before the \<open>try\<close>: what it raises leaves this function.\<close>

definition execute_script ::
  "('s, 'm) exec_env \<Rightarrow> string option \<Rightarrow> device \<Rightarrow> device_type \<Rightarrow> string \<Rightarrow> string \<Rightarrow> 'm \<Rightarrow> string list option \<Rightarrow> string \<Rightarrow> pydict \<Rightarrow>
   ('s, outcome) fio" where
  "execute_script X task_id d ty tenant_slug group_name m accepted backup_dir kwargs =
     f_seq (exec_log X task_id d ''info'' ''Iniciando backup...'')
    (f_seq (exec_log X task_id d ''info'' (''Tipo: '' @ dt_name ty))
    (f_seq (exec_log X task_id d ''info'' (''Script: '' @ dt_script_name ty))
    (f_bind (jump_label X (dget kwargs ''jump_host'')) (\<lambda>label.
     let labels = metric_labels tenant_slug ty label
     in f_bind (f_catch (run_script X task_id d ty m accepted backup_dir kwargs labels)
                  (\<lambda>e. f_bind (script_error X task_id d e) (\<lambda>res. f_ret (res, False)))) (\<lambda>(res, success).
        f_seq (script_finished X d ty tenant_slug group_name label labels success) (f_ret res))))))"

section \<open>The backup of a device\<close>

text \<open>Inside a VPN session, where the device needs one and the caller has not opened it.\<close>

definition in_vpn ::
  "nat \<Rightarrow> ('s, 'm) exec_env \<Rightarrow> string option \<Rightarrow> device \<Rightarrow> device_group option \<Rightarrow> bool \<Rightarrow> ('s, outcome) fio \<Rightarrow> ('s, outcome) fio" where
  "in_vpn fuel X task_id d grp manage_vpn body =
     (case grp of
        Some g \<Rightarrow>
          if uses_vpn_tunnel (m_env (xe_machine X)) (Some g) (Some d) \<and> manage_vpn
          then f_catch (vpn_session fuel (xe_vpn X) g None body)
                 (\<lambda>e. case e of
                    VpnFault t \<Rightarrow> f_seq (exec_log X task_id d ''error'' t) (f_ret (False, ''Falha ao preparar VPN: '' @ t, None))
                  | OtherFault t \<Rightarrow> f_raise e)
          else body
      | None \<Rightarrow> body)"

definition refuse_backup :: "('s, 'm) exec_env \<Rightarrow> string option \<Rightarrow> device \<Rightarrow> string \<Rightarrow> ('s, outcome) fio" where
  "refuse_backup X task_id d msg = f_seq (exec_log X task_id d ''error'' msg) (f_ret (False, msg, None))"

definition with_script ::
  "('s, 'm) exec_env \<Rightarrow> device_type option \<Rightarrow> (device_type \<Rightarrow> 'm \<Rightarrow> string list option \<Rightarrow> ('s, outcome) fio) \<Rightarrow> ('s, outcome) fio" where
  "with_script X dtype k =
     (case dtype of
        None \<Rightarrow> f_ret (False, ''Tipo de dispositivo sem script configurado'', None)
      | Some ty \<Rightarrow>
          if dt_script_name ty = [] then f_ret (False, ''Tipo de dispositivo sem script configurado'', None)
          else f_bind (load_script X (dt_script_name ty)) (\<lambda>loaded.
            case loaded of
              None \<Rightarrow> f_bind (f_read (xe_cache X)) (\<lambda>c. f_ret (False,
                 (case sc_errors c (dt_script_name ty) of
                    Some why \<Rightarrow> if why \<noteq> [] then ''Falha ao carregar script '' @ dt_script_name ty @ '': '' @ why
                      else ''Script '' @ dt_script_name ty @ '' nao encontrado''
                  | None \<Rightarrow> ''Script '' @ dt_script_name ty @ '' nao encontrado''), None))
            | Some m \<Rightarrow>
                (case xe_entry X m of
                   None \<Rightarrow> f_ret (False, ''Script '' @ dt_script_name ty @ '' nao tem funcao realizar_backup'', None)
                 | Some accepted \<Rightarrow> k ty m accepted)))"

definition execute_backup ::
  "nat \<Rightarrow> ('s, 'm) exec_env \<Rightarrow> device \<Rightarrow> device_type option \<Rightarrow> device_group option \<Rightarrow> string \<Rightarrow> bool \<Rightarrow> string option \<Rightarrow> ('s, outcome) fio" where
  "execute_backup fuel X d dtype grp tenant_slug manage_vpn task_id =
     with_script X dtype (\<lambda>ty m accepted.
       let group_name = (case grp of None \<Rightarrow> ''Sem Grupo'' | Some g \<Rightarrow> g_name g); env = m_env (xe_machine X)
       in f_bind (get_backup_path X tenant_slug group_name (d_name d)) (\<lambda>dir.
         case xe_decrypt X (d_password_encrypted d) of
           Inl cls \<Rightarrow> refuse_backup X task_id d (''Falha ao descriptografar credencial do dispositivo ('' @ exc_class cls @
               ''). Regrave a senha do equipamento.'')
         | Inr password \<Rightarrow>
             (let kwargs = script_kwargs d ty group_name dir password task_id;
                  go = (\<lambda>kw. in_vpn fuel X task_id d grp manage_vpn
                     (execute_script X task_id d ty tenant_slug group_name m accepted dir kw))
              in if jump_skipped env grp d ty
                 then f_seq (exec_log X task_id d ''warning'' (''MikroTik detectado em grupo Jump Host. Ignorando Jump Host por '' @
                        ''BACKUP_MIKROTIK_DISABLE_JUMP_HOST=1 e seguindo por modo direto/VPN efetivo.'')) (go kwargs)
                 else case grp of
                   Some g \<Rightarrow>
                     if jump_wanted env grp d
                     then f_seq (exec_log X task_id d ''info'' (''Usando Jump Host: '' @ or_empty (g_jump_host g) @ '':'' @ show_int (jump_port_of g)))
                            (case jump_setup X g of
                               Inl msg \<Rightarrow> refuse_backup X task_id d msg
                             | Inr added \<Rightarrow> go (dupdate kwargs added))
                     else go kwargs
                 | None \<Rightarrow> go kwargs)))"

end
