(* ===== verification/DeviceRun.thy ===== *)
theory DeviceRun
  imports Executor PlanLimits
begin

text \<open>
  The backup of a device from its row to the rows that tell how it went (\<open>BackupExecutor.run_backup_for_device_id\<close> in
  \<open>src/app/services/backup_executor.py\<close>): the run, the size and the hash of the file, its integrity, the storage quota,
  the class of a failure, and the rows that are committed: the backup, the last state of the device and, after
  a failure, the notifications.

  A query reads the tables or raises; a commit applies its changes to the tables, or raises. Of a backup row
  the two columns nothing else reads, \<open>config_data\<close> and \<open>duration_seconds\<close>, are kept beside it. Closing a session and
  rolling it back raise nothing.
\<close>

record notification =
  no_user :: string
  no_title :: string
  no_message :: string

record device_db = tables +
  db_tenants :: "tenant list"
  db_notes :: "notification list"
  db_details :: "(string \<times> pyval \<times> int) list"

record ('s, 'm) device_env = "('s, 'm) exec_env" +
  dv_ensure :: "('s, unit) op"
  dv_query :: "('s, device_db) op"
  dv_commit :: "(device_db \<Rightarrow> device_db) \<Rightarrow> ('s, unit) op"
  dv_new_id :: "'s \<Rightarrow> string"
  dv_exists :: "string \<Rightarrow> 's \<Rightarrow> bool"
  dv_size :: "string \<Rightarrow> ('s, int) op"
  dv_sha256 :: "string \<Rightarrow> ('s, string) op"
  dv_remove :: "string \<Rightarrow> ('s, unit) op"
  dv_zip :: "'s \<Rightarrow> string \<Rightarrow> string + (bool \<times> int) list"
  dv_text :: "'s \<Rightarrow> string \<Rightarrow> string + string"
  dv_invalidated :: "fault \<Rightarrow> bool"

abbreviation exec_part :: "('s, 'm) device_env \<Rightarrow> ('s, 'm) exec_env" where
  "exec_part X \<equiv> exec_env.truncate X"

section \<open>What is known of a run\<close>

record run_state =
  rs_ok :: bool
  rs_message :: string
  rs_path :: "string option"
  rs_size :: "int option"
  rs_hash :: "string option"
  rs_integrity :: "integrity option"
  rs_category :: "string option"
  rs_started :: naive
  rs_completed :: naive

definition measure_file :: "('s, 'm) device_env \<Rightarrow> string option \<Rightarrow> ('s, int option \<times> string option) fio" where
  "measure_file X path =
     f_bind (f_read (dv_exists X (or_empty path))) (\<lambda>there.
       if or_empty path = [] \<or> \<not> there then f_ret (None, None)
       else f_bind (f_call (dv_size X (or_empty path))) (\<lambda>n.
            f_bind (f_call (dv_sha256 X (or_empty path))) (\<lambda>hash. f_ret (Some n, Some hash))))"

definition type_name :: "device \<Rightarrow> string" where
  "type_name d = (case d_type d of None \<Rightarrow> [] | Some ty \<Rightarrow> dt_name ty)"

definition type_script :: "device \<Rightarrow> string" where
  "type_script d = (case d_type d of None \<Rightarrow> [] | Some ty \<Rightarrow> dt_script_name ty)"

definition check_integrity :: "('s, 'm) device_env \<Rightarrow> device \<Rightarrow> run_state \<Rightarrow> ('s, run_state) fio" where
  "check_integrity X d st =
     (if \<not> rs_ok st then f_ret st
      else f_bind (f_read (\<lambda>s. validate_backup_integrity (dv_zip X s) (dv_text X s) (rs_path st) (type_name d) (type_script d))) (\<lambda>i.
        f_ret (if result_ok i then st\<lparr>rs_integrity := Some i\<rparr>
          else st\<lparr>rs_integrity := Some i, rs_ok := False,
            rs_message := ''Falha de integridade do arquivo p'' @ [CHR 0xF3] @ ''s-coleta: '' @
              (if result_reason i = [] then ''erro de validacao'' else result_reason i) @ ''.''\<rparr>)))"

text \<open>A file over the quota is removed; that it cannot be removed changes nothing.\<close>

definition check_quota :: "('s, 'm) device_env \<Rightarrow> tenant option \<Rightarrow> run_state \<Rightarrow> ('s, run_state) fio" where
  "check_quota X tn st =
     (case (rs_size st, tn) of
        (Some n, Some t) \<Rightarrow>
          if \<not> rs_ok st \<or> n = 0 then f_ret st
          else f_bind (f_call (dv_query X)) (\<lambda>db.
            let q = check_storage_before_backup (tables.truncate db) t n
            in if lc_allowed q then f_ret st
               else f_bind (f_read (dv_exists X (or_empty (rs_path st)))) (\<lambda>there.
                 f_seq (if or_empty (rs_path st) \<noteq> [] \<and> there
                    then f_catch (f_call (dv_remove X (or_empty (rs_path st)))) (\<lambda>_. f_ret ()) else f_ret ())
                  (f_ret (st\<lparr>rs_ok := False, rs_message := lc_reason q, rs_path := None, rs_size := None, rs_hash := None\<rparr>))))
      | _ \<Rightarrow> f_ret st)"

definition classify_run :: "run_state \<Rightarrow> run_state" where
  "classify_run st =
     (if rs_ok st then st
      else let category = classify_failure (Some (rs_message st));
               label = failure_label (Some category)
           in st\<lparr>rs_category := Some category,
                rs_message := (if rs_message st = [] \<or> rs_message st = ''Falha ao realizar backup''
                  then ''Falha sist'' @ [CHR 0xEA] @ ''mica classificada como: '' @ label @ ''.'' else rs_message st)\<rparr>)"

section \<open>The rows\<close>

definition integrity_val :: "integrity \<Rightarrow> pyval" where
  "integrity_val i =
     PDict [(''ok'', PBool (result_ok i)), (''reason'', PStr (result_reason i)), (''size_bytes'', PInt (size_bytes i)),
       (''line_count'', PInt (line_count i)), (''markers_found'', PList (map PStr (markers_found i)))]"

definition label_of :: "run_state \<Rightarrow> string option" where
  "label_of st = map_option (\<lambda>c. failure_label (Some c)) (rs_category st)"

definition backup_meta :: "device \<Rightarrow> run_state \<Rightarrow> pyval" where
  "backup_meta d st =
     PDict [(''meta'', PDict [(''device_type'', opt_str (map_option dt_name (d_type d))), (''script_name'', opt_str (map_option dt_script_name (d_type d))),
       (''failure_category'', opt_str (rs_category st)), (''failure_label'', opt_str (label_of st)),
       (''integrity'', (case rs_integrity st of None \<Rightarrow> PNone | Some i \<Rightarrow> integrity_val i))])]"

definition backup_row :: "string \<Rightarrow> string \<Rightarrow> naive \<Rightarrow> run_state \<Rightarrow> backup" where
  "backup_row bid device_id now st =
     \<lparr>b_id = bid, b_device_id = device_id, b_file_path = rs_path st, b_file_size_bytes = rs_size st, b_hash_sha256 = rs_hash st,
      b_status = (if rs_ok st then SUCCESS else FAILED), b_error_message = (if rs_ok st then None else Some (rs_message st)),
      b_started_at = Some (rs_started st), b_completed_at = Some (rs_completed st), b_created_at = Some now\<rparr>"

definition dpop :: "pydict \<Rightarrow> string \<Rightarrow> pydict" where
  "dpop d k = filter (\<lambda>(k', v). k' \<noteq> k) d"

definition run_seconds :: "run_state \<Rightarrow> int" where
  "run_seconds st = max 0 ((rs_completed st - rs_started st) div 1000000)"

text \<open>The entries of \<open>extra_parameters\<close> that keep the end of the last backup.\<close>

definition last_backup_entries :: "run_state \<Rightarrow> pydict \<Rightarrow> pydict" where
  "last_backup_entries st extra =
     (let e1 = dput extra ''last_backup_integrity_ok'' (PBool (case rs_integrity st of Some i \<Rightarrow> result_ok i | None \<Rightarrow> rs_ok st));
          e2 = (case rs_integrity st of Some i \<Rightarrow> dput e1 ''last_backup_integrity_reason'' (PStr (result_reason i)) | None \<Rightarrow> e1)
      in if rs_ok st
         then foldl dpop e2 [''last_backup_failure_category'', ''last_backup_failure_label'', ''last_backup_failure_message'', ''last_backup_failure_at'']
         else dupdate e2 [(''last_backup_failure_category'', PStr (case rs_category st of None \<Rightarrow> ''unknown'' | Some c \<Rightarrow> if c = [] then ''unknown'' else c)),
           (''last_backup_failure_label'', PStr (case label_of st of None \<Rightarrow> ''Outros'' | Some l \<Rightarrow> if l = [] then ''Outros'' else l)),
           (''last_backup_failure_message'', PStr (rs_message st)), (''last_backup_failure_at'', PStr (isoformat (rs_completed st) @ ''Z''))])"

text \<open>What a flush writes into a column: the new value if it is another than the one the object was loaded with, else nothing.\<close>

definition written :: "'a \<Rightarrow> 'a \<Rightarrow> 'a \<Rightarrow> 'a" where
  "written loaded new current = (if new = loaded then current else new)"

definition device_after :: "run_state \<Rightarrow> naive \<Rightarrow> device \<Rightarrow> device \<Rightarrow> device \<Rightarrow> device" where
  "device_after st now held row d =
     d\<lparr>d_last_backup_at := written (d_last_backup_at held) (Some now) (d_last_backup_at row),
       d_last_backup_status := written (d_last_backup_status held) (Some (if rs_ok st then ''success'' else ''failure'')) (d_last_backup_status row),
       d_extra_parameters := written (d_extra_parameters held) (PDict (last_backup_entries st (as_dict (d_extra_parameters held)))) (d_extra_parameters row)\<rparr>"

text \<open>The changes of the first commit, with the identifier and the time read before it. \<open>held\<close> is the object the session holds for
  the device, with the columns it was loaded with.\<close>

definition store_result :: "run_state \<Rightarrow> device \<Rightarrow> device \<Rightarrow> string \<Rightarrow> naive \<Rightarrow> device_db \<Rightarrow> device_db" where
  "store_result st d held bid now db =
     (let row = (case find (\<lambda>x. d_id x = d_id held) (tb_devices db) of None \<Rightarrow> held | Some x \<Rightarrow> x)
      in db\<lparr>tb_backups := tb_backups db @ [backup_row bid (d_id held) now st],
            tb_devices := map (\<lambda>x. if d_id x = d_id held then device_after st now held row x else x) (tb_devices db),
            db_details := db_details db @ [(bid, backup_meta d st, run_seconds st)]\<rparr>)"

definition failure_notes :: "run_state \<Rightarrow> device \<Rightarrow> user list \<Rightarrow> notification list" where
  "failure_notes st row us =
     map (\<lambda>u. \<lparr>no_user = u_id u, no_title = ''Backup falhou'', no_message = ''Dispositivo '' @ d_name row @ '': '' @ rs_message st\<rparr>)
       (filter (\<lambda>u. u_tenant_id u = Some (d_tenant_id row) \<and> u_role u \<in> {TENANT_OWNER, TENANT_ADMIN}) us)"

definition notify_failure :: "('s, 'm) device_env \<Rightarrow> run_state \<Rightarrow> device \<Rightarrow> ('s, unit) fio" where
  "notify_failure X st row =
     (if rs_ok st \<or> d_tenant_id row = [] then f_ret ()
      else f_catch (f_bind (f_call (dv_query X)) (\<lambda>db.
               f_call (dv_commit X (\<lambda>db'. db'\<lparr>db_notes := db_notes db' @ failure_notes st row (tb_users db)\<rparr>))))
             (\<lambda>e. f_ret ()))"

text \<open>The session of the run holds the device it loaded, and its commits do not expire it (\<open>expire_on_commit=False\<close>): the query only
  tells whether the row is still there. A new session holds what its query finds.\<close>

definition persist_result :: "('s, 'm) device_env \<Rightarrow> string \<Rightarrow> device \<Rightarrow> device option \<Rightarrow> run_state \<Rightarrow> ('s, unit) fio" where
  "persist_result X device_id d loaded st =
     f_bind (f_call (dv_query X)) (\<lambda>db.
       case find (\<lambda>x. d_id x = device_id) (tb_devices db) of
         None \<Rightarrow> f_raise (OtherFault ''Dispositivo nao encontrado ao persistir resultado do backup.'')
       | Some row \<Rightarrow>
           (let held = (case loaded of None \<Rightarrow> row | Some x \<Rightarrow> x)
            in f_bind (f_read (\<lambda>s. (dv_new_id X s, m_now (xe_machine X) s))) (\<lambda>(bid, now).
                 f_seq (f_call (dv_commit X (store_result st d held bid now))) (notify_failure X st held))))"

definition is_connection_drop :: "('s, 'm) device_env \<Rightarrow> fault \<Rightarrow> bool" where
  "is_connection_drop X e \<longleftrightarrow>
     dv_invalidated X e \<or>
     (let text = py_lower (fault_text e)
      in py_in ''server closed the connection unexpectedly'' text \<or> py_in ''connection not open'' text \<or> py_in ''connection refused'' text \<or>
         py_in ''could not connect to server'' text \<or> py_in ''ssl connection has been closed unexpectedly'' text)"

text \<open>Once more, in a new session, when the connection was lost.\<close>

definition persist_with_retry :: "('s, 'm) device_env \<Rightarrow> string \<Rightarrow> device \<Rightarrow> run_state \<Rightarrow> ('s, unit) fio" where
  "persist_with_retry X device_id d st =
     f_catch (persist_result X device_id d (Some d) st)
       (\<lambda>e. if is_connection_drop X e then persist_result X device_id d None st else f_raise e)"

section \<open>The run\<close>

definition device_finished :: "('s, 'm) device_env \<Rightarrow> device \<Rightarrow> string \<Rightarrow> run_state \<Rightarrow> ('s, unit) fio" where
  "device_finished X d tenant_slug st =
     exec_tell (exec_part X) (Event ''backup_device_finished''
       ([(''device_id'', d_id d), (''device_name'', d_name d), (''tenant'', tenant_slug),
         (''group'', case d_group d of None \<Rightarrow> ''Sem Grupo'' | Some g \<Rightarrow> g_name g)] @
        (case d_type d of None \<Rightarrow> [] | Some ty \<Rightarrow> [(''device_type'', dt_name ty), (''script_name'', dt_script_name ty)]) @
        [(''success'', py_bool (rs_ok st))] @ (case rs_category st of None \<Rightarrow> [] | Some c \<Rightarrow> [(''failure_category'', c)]) @
        [(''duration_ms'', show_int (max 0 ((rs_completed st - rs_started st) div 1000)))]))"

definition judge_run :: "('s, 'm) device_env \<Rightarrow> string option \<Rightarrow> device \<Rightarrow> tenant option \<Rightarrow> naive \<Rightarrow> naive \<Rightarrow> outcome \<Rightarrow> ('s, run_state) fio" where
  "judge_run X task_id d tn started completed res =
     (let (success, message, path) = res
      in f_bind (measure_file X path) (\<lambda>(n, hash).
         f_bind (check_integrity X d \<lparr>rs_ok = success, rs_message = message, rs_path = path, rs_size = n, rs_hash = hash,
             rs_integrity = None, rs_category = None, rs_started = started, rs_completed = completed\<rparr>) (\<lambda>st.
         f_bind (check_quota X tn st) (\<lambda>st.
         f_seq (if rs_ok st then exec_log (exec_part X) task_id d ''success'' ''Arquivo de backup salvo e validado.'' else f_ret ())
           (f_ret (classify_run st))))))"

definition device_run :: "nat \<Rightarrow> ('s, 'm) device_env \<Rightarrow> string \<Rightarrow> bool \<Rightarrow> string option \<Rightarrow> ('s, bool \<times> string) fio" where
  "device_run fuel X device_id manage_vpn task_id =
     f_seq (f_call (dv_ensure X))
    (f_bind (f_call (dv_query X)) (\<lambda>db.
       case find (\<lambda>x. d_id x = device_id) (tb_devices db) of
         None \<Rightarrow> f_ret (False, ''Dispositivo nao encontrado'')
       | Some d \<Rightarrow>
           (let tn = find (\<lambda>t. t_id t = d_tenant_id d) (db_tenants db);
                tenant_slug = (case tn of None \<Rightarrow> ''default'' | Some t \<Rightarrow> t_slug t)
            in f_bind (f_read (m_now (xe_machine X))) (\<lambda>started.
               f_bind (execute_backup fuel (exec_part X) d (d_type d) (d_group d) tenant_slug manage_vpn task_id) (\<lambda>res.
               f_bind (f_read (m_now (xe_machine X))) (\<lambda>completed.
               f_bind (judge_run X task_id d tn started completed res) (\<lambda>st.
               f_seq (device_finished X d tenant_slug st)
              (f_seq (persist_with_retry X device_id d st)
                (f_ret (rs_ok st, rs_message st))))))))))"

definition run_backup_for_device_id :: "nat \<Rightarrow> ('s, 'm) device_env \<Rightarrow> string \<Rightarrow> bool \<Rightarrow> string option \<Rightarrow> ('s, bool \<times> string) io" where
  "run_backup_for_device_id fuel X device_id manage_vpn task_id =
     io_bind (device_run fuel X device_id manage_vpn task_id) (\<lambda>r.
       io_ret (case r of Inl e \<Rightarrow> (False, fault_text e) | Inr answer \<Rightarrow> answer))"

end
