(* ===== verification/ExecutorSafety.thy ===== *)
theory ExecutorSafety
  imports DeviceRun PhaseSafety VpnSafety
begin

text \<open>
  What holds of the execution of a device backup (\<open>Executor\<close>, \<open>DeviceRun\<close>). The locale \<open>quiet_host\<close> is a worker on which
  probes, directories, the log and the VPN leave a part \<open>db\<close> of the world alone. \<open>executor_host\<close> adds that scripts do so too,
  \<open>device_host\<close> a database whose queries show the tables and whose commits apply all of their changes, or raise and apply
  none; \<open>observed_host\<close> says instead that the part is the list of what the scripts have answered, and \<open>evident_host\<close> has
  both, on a worker where neither the database nor the log touches the files.
\<close>

section \<open>Calls that leave a part of the world alone\<close>

definition settles :: "('s \<Rightarrow> 'd) \<Rightarrow> ('s, 'a) fio \<Rightarrow> ('a \<Rightarrow> bool) \<Rightarrow> bool" where
  "settles db m K \<longleftrightarrow> (\<forall>D. f_spec (\<lambda>s. db s = D) m (\<lambda>a s. db s = D \<and> K a) (\<lambda>_ s. db s = D))"

named_theorems settling \<open>calls that leave a part of the world alone\<close>

lemma settlesI: "(\<And>D. f_spec (\<lambda>s. db s = D) m (\<lambda>a s. db s = D \<and> K a) (\<lambda>_ s. db s = D)) \<Longrightarrow> settles db m K"
  by (simp add: settles_def)

lemma settlesD: "settles db m K \<Longrightarrow> f_spec (\<lambda>s. db s = D) m (\<lambda>a s. db s = D \<and> K a) (\<lambda>_ s. db s = D)"
  by (simp add: settles_def)

lemma settles_weaken: "settles db m K \<Longrightarrow> (\<And>a. K a \<Longrightarrow> K' a) \<Longrightarrow> settles db m K'"
  by (rule settlesI, rule f_spec_conseq, erule settlesD) auto

lemma settles_ret [settling]: "K a \<Longrightarrow> settles db (f_ret a) K"
  and settles_raise [settling]: "settles db (f_raise e) K"
  by (simp_all add: settles_def f_spec_def)

lemma settles_read [settling]: "(\<And>s. K (f s)) \<Longrightarrow> settles db (f_read f) K"
  by (simp add: settles_def f_spec_def f_read_def)

lemma settles_write: "(\<And>s. db (f s) = db s) \<Longrightarrow> settles db (f_write f) (\<lambda>_. True)"
  by (simp add: settles_def f_spec_def f_write_def)

lemma settles_call: "(\<And>s. db (snd (g s)) = db s) \<Longrightarrow> (\<And>s a. fst (g s) = Inr a \<Longrightarrow> K a) \<Longrightarrow> settles db (f_call g) K"
proof (rule settlesI, rule f_spec_call)
  fix D s assume g: "\<And>s. db (snd (g s)) = db s" "\<And>s a. fst (g s) = Inr a \<Longrightarrow> K a" and s: "db s = D"
  show "case g s of (Inl e, s') \<Rightarrow> db s' = D | (Inr a, s') \<Rightarrow> db s' = D \<and> K a"
    using g(1) [of s] g(2) [of s] s by (cases "g s"; cases "fst (g s)") simp_all
qed

lemma f_spec_known: "(K \<Longrightarrow> f_spec P m Q X) \<Longrightarrow> f_spec (\<lambda>s. P s \<and> K) m Q X"
  by (cases K) (simp_all add: f_spec_def)

text \<open>What is known of the value of the first call is known in the second.\<close>

lemma settles_bind:
  assumes "settles db m L" "\<And>a. L a \<Longrightarrow> settles db (f a) K"
  shows "settles db (f_bind m f) K"
proof (rule settlesI, rule f_spec_bind)
  fix D a
  show "f_spec (\<lambda>s. db s = D) m (\<lambda>a s. db s = D \<and> L a) (\<lambda>_ s. db s = D)" by (rule settlesD [OF assms(1)])
  show "f_spec (\<lambda>s. db s = D \<and> L a) (f a) (\<lambda>a s. db s = D \<and> K a) (\<lambda>_ s. db s = D)"
    using settlesD [OF assms(2), of a D] by (cases "L a") (simp_all add: f_spec_def)
qed

lemma settles_bind_any [settling]: "settles db m (\<lambda>_. True) \<Longrightarrow> (\<And>a. settles db (f a) K) \<Longrightarrow> settles db (f_bind m f) K"
  by (rule settles_bind)

lemma settles_seq [settling]: "settles db m (\<lambda>_. True) \<Longrightarrow> settles db n K \<Longrightarrow> settles db (f_seq m n) K"
  unfolding f_seq_def by (rule settles_bind)

lemma settles_catch [settling]: "settles db m K \<Longrightarrow> (\<And>e. settles db (h e) K) \<Longrightarrow> settles db (f_catch m h) K"
  by (rule settlesI, rule f_spec_catch, erule settlesD, drule meta_spec, erule settlesD)

lemma settles_finally [settling]:
  assumes "settles db m K" "settles db c (\<lambda>_. True)"
  shows "settles db (f_finally m c) K"
proof (rule settlesI, rule f_spec_finally, rule settlesD [OF assms(1)])
  fix D a
  show "f_spec (\<lambda>s. db s = D \<and> K a) c (\<lambda>_ s. db s = D \<and> K a) (\<lambda>_ s. db s = D)"
    using settlesD [OF assms(2), of D] by (cases "K a") (simp_all add: f_spec_def)
  show "f_spec (\<lambda>s. db s = D) c (\<lambda>_ s. db s = D) (\<lambda>_ s. db s = D)"
    by (rule f_spec_conseq [OF settlesD [OF assms(2)]]) auto
qed

lemma settles_for [settling]: "(\<And>x. settles db (f x) (\<lambda>_. True)) \<Longrightarrow> settles db (f_for xs f) (\<lambda>_. True)"
  by (induction xs) (auto intro!: settling)

lemma settles_if [settling]: "(b \<Longrightarrow> settles db m K) \<Longrightarrow> (\<not> b \<Longrightarrow> settles db n K) \<Longrightarrow> settles db (if b then m else n) K"
  by simp

lemma settles_option [settling]: "(v = None \<Longrightarrow> settles db m K) \<Longrightarrow> (\<And>x. v = Some x \<Longrightarrow> settles db (f x) K) \<Longrightarrow>
  settles db (case v of None \<Rightarrow> m | Some x \<Rightarrow> f x) K"
  by (cases v) auto

lemma settles_sum [settling]: "(\<And>e. v = Inl e \<Longrightarrow> settles db (f e) K) \<Longrightarrow> (\<And>a. v = Inr a \<Longrightarrow> settles db (g a) K) \<Longrightarrow>
  settles db (case v of Inl e \<Rightarrow> f e | Inr a \<Rightarrow> g a) K"
  by (cases v) auto

lemma settles_prod [settling]: "(\<And>x y. p = (x, y) \<Longrightarrow> settles db (f x y) K) \<Longrightarrow> settles db (case p of (x, y) \<Rightarrow> f x y) K"
  by (cases p) auto

lemma settles_list [settling]: "settles db m K \<Longrightarrow> (\<And>x y. settles db (f x y) K) \<Longrightarrow>
  settles db (case l of [] \<Rightarrow> m | x # y \<Rightarrow> f x y) K"
  by (cases l) auto

lemma settles_fault [settling]: "(\<And>t. settles db (f t) K) \<Longrightarrow> (\<And>t. settles db (g t) K) \<Longrightarrow>
  settles db (case e of VpnFault t \<Rightarrow> f t | OtherFault t \<Rightarrow> g t) K"
  by (cases e) auto

lemma settles_lift:
  assumes "io_within (\<lambda>s s'. db s' = db s) m"
  shows "settles db (f_lift m) (\<lambda>_. True)"
proof (rule settlesI, rule f_specI)
  fix D s assume "db s = D"
  with assms have "db (snd (m s)) = D" by (simp add: io_within_def)
  then show "\<exists>r s'. f_lift m s = (Some r, s') \<and> (case r of Inl e \<Rightarrow> db s' = D | Inr a \<Rightarrow> db s' = D \<and> True)"
    by (cases "m s"; cases "fst (m s)") (simp_all add: f_lift_def io_try_def io_bind_def io_ret_def)
qed

text \<open>A call whose exception or value is looked at by the caller.\<close>

lemma settles_io_bind:
  assumes "settles db m (\<lambda>_. True)" "\<And>r. settles db (f r) K"
  shows "settles db (io_bind m f) K"
proof (rule settlesI, rule f_specI)
  fix D s assume s: "db s = D"
  with settlesD [OF assms(1), of D] obtain r s1 where "m s = (Some r, s1)" "db s1 = D"
    unfolding f_spec_def by (metis (mono_tags, lifting) sum.case_eq_if)
  with settlesD [OF assms(2), of D r]
  show "\<exists>r s'. io_bind m f s = (Some r, s') \<and> (case r of Inl e \<Rightarrow> db s' = D | Inr a \<Rightarrow> db s' = D \<and> K a)"
    by (auto simp: f_spec_def io_bind_def)
qed

text \<open>What holds of the part holds after such a call, and two parts that are left alone are so together.\<close>

lemma settles_stable: "settles db m K \<Longrightarrow> f_spec (\<lambda>s. P (db s)) m (\<lambda>a s. P (db s) \<and> K a) (\<lambda>_ s. P (db s))"
proof (rule f_specI)
  fix s assume m: "settles db m K" and P: "P (db s)"
  from settlesD [OF m, of "db s"] refl [of "db s"]
  show "\<exists>r s'. m s = (Some r, s') \<and> (case r of Inl e \<Rightarrow> P (db s') | Inr a \<Rightarrow> P (db s') \<and> K a)"
  proof (cases rule: f_specE)
    case (returned a s')
    with P show ?thesis by (intro exI [of _ "Inr a"] exI [of _ s']) simp
  next
    case (raised e s')
    with P show ?thesis by (intro exI [of _ "Inl e"] exI [of _ s']) simp
  qed
qed

lemma f_spec_conj:
  assumes "f_spec P m Q X" "f_spec P' m Q' X'"
  shows "f_spec (\<lambda>s. P s \<and> P' s) m (\<lambda>a s. Q a s \<and> Q' a s) (\<lambda>e s. X e s \<and> X' e s)"
proof (rule f_specI, elim conjE)
  fix s assume P: "P s" "P' s"
  from assms(1) P(1) obtain r s' where r: "m s = (Some r, s')" "case r of Inl e \<Rightarrow> X e s' | Inr a \<Rightarrow> Q a s'"
    unfolding f_spec_def by blast
  from assms(2) P(2) have "\<exists>r s'. m s = (Some r, s') \<and> (case r of Inl e \<Rightarrow> X' e s' | Inr a \<Rightarrow> Q' a s')"
    unfolding f_spec_def by blast
  with r(1) have "case r of Inl e \<Rightarrow> X' e s' | Inr a \<Rightarrow> Q' a s'" by simp
  with r show "\<exists>r s'. m s = (Some r, s') \<and> (case r of Inl e \<Rightarrow> X e s' \<and> X' e s' | Inr a \<Rightarrow> Q a s' \<and> Q' a s')"
    by (intro exI [of _ r] exI [of _ s']) (cases r; simp)
qed

lemma f_spec_at: "(\<And>s0. P s0 \<Longrightarrow> f_spec (\<lambda>s. s = s0) m Q X) \<Longrightarrow> f_spec P m Q X"
  by (simp add: f_spec_def)

lemma settles_io_stable:
  assumes "settles db m (\<lambda>_. True)" "\<And>r. f_spec (\<lambda>s. db s = D) (f r) Q X"
  shows "f_spec (\<lambda>s. db s = D) (io_bind m f) Q X"
proof (rule f_specI)
  fix s assume "db s = D"
  with settlesD [OF assms(1), of D] obtain r s1 where "m s = (Some r, s1)" "db s1 = D"
    unfolding f_spec_def by (metis (mono_tags, lifting) sum.case_eq_if)
  with assms(2) [of r] show "\<exists>r s'. io_bind m f s = (Some r, s') \<and> (case r of Inl e \<Rightarrow> X e s' | Inr a \<Rightarrow> Q a s')"
    by (auto simp: f_spec_def io_bind_def)
qed

section \<open>A worker that executes backups\<close>

locale log_host = machine_order "\<lambda>s s'. db s' = db s" R emit "\<lambda>_. True" "xe_machine X"
  for db :: "'s \<Rightarrow> 'd" and R emit and X :: "('s, 'm) exec_env"
begin

lemma settles_log [settling]: "settles db (exec_log X task d lvl msg) (\<lambda>_. True)"
  unfolding exec_log_def by (intro settling settles_lift within_task_log) simp_all

lemma settles_tell [settling]: "settles db (exec_tell X t) (\<lambda>_. True)" "settles db (count_precheck X labels x ping tcp) (\<lambda>_. True)"
  unfolding count_precheck_def exec_tell_def by (intro settles_lift within_tell_m)+

end

locale quiet_host = log_host db R emit X + vpn_clock "xe_vpn X"
  for db :: "'s \<Rightarrow> 'd" and R emit and X :: "('s, 'm) exec_env" +
  fixes fuel :: nat
  assumes import_kept: "db (snd (xe_import X name s)) = db s"
    and cache_kept: "db (xe_set_cache X c s) = db s"
    and makedirs_kept: "db (snd (xe_makedirs X p s)) = db s"
    and files_kept: "db (snd (xe_files X p s)) = db s"
    and probe_kept: "db (snd (xe_probe X ip port n j s)) = db s"
    and nmcli_kept: "db (snd (vh_nmcli (xe_vpn X) args t s)) = db s"
    and sleep_kept: "db (vh_sleep (xe_vpn X) ms s) = db s"
    and vpn_log_kept: "db (vh_log (xe_vpn X) lvl msg s) = db s"
    and mark_kept: "db (vh_set_unavailable (xe_vpn X) u s) = db s"
    and lock_kept: "db (snd (vh_open_lock (xe_vpn X) s)) = db s" "db (snd (vh_flock (xe_vpn X) h s)) = db s"
      "db (snd (vh_write_pid (xe_vpn X) h s)) = db s" "db (snd (vh_unlock (xe_vpn X) h s)) = db s"
      "db (snd (vh_close (xe_vpn X) h s)) = db s"
    and enough: "20 < fuel" "lock_seconds (xe_vpn X) None < int fuel"
begin

text \<open>The VPN session around a body.\<close>

lemma settles_nmcli [settling]: "settles db (run_nmcli (xe_vpn X) args t check) (\<lambda>_. True)"
  unfolding run_nmcli_def Let_def by (intro settling settles_call nmcli_kept) simp_all

lemma settles_vpn_steps [settling]:
  "settles db (try_nmcli (xe_vpn X) args) (\<lambda>_. True)" "settles db (vpn_log (xe_vpn X) lvl msg) (\<lambda>_. True)"
  "settles db (vpn_sleep (xe_vpn X) n) (\<lambda>_. True)" "settles db (drop_profile (xe_vpn X) name) (\<lambda>_. True)"
  "settles db (f_write (vh_set_unavailable (xe_vpn X) u)) (\<lambda>_. True)"
  unfolding try_nmcli_def vpn_log_def vpn_sleep_def drop_profile_def
  by (intro settling settles_write sleep_kept vpn_log_kept mark_kept; simp?)+

lemma settles_mark [settling]: "settles db (mark_unavailable (xe_vpn X) now reason) K"
  unfolding mark_unavailable_def by (intro settling)

lemma settles_decrypt [settling]: "settles db (decrypt_opt (xe_vpn X) v) (\<lambda>_. True)"
  unfolding decrypt_opt_def by (auto simp: settles_def f_spec_def io_ret_def split: sum.split)

lemma settles_quiescent [settling]: "settles db (wait_for_vpn_quiescent fuel (xe_vpn X) 20) (\<lambda>_. True)"
  by (rule settlesI, rule f_spec_conseq [OF quiescent_spec [where fuel = fuel and T = 20]])
    (use enough in \<open>auto simp: nmcli_kept sleep_kept\<close>)

lemma settles_acquire: "settles db (acquire_lock fuel (xe_vpn X) None) (\<lambda>_. True)"
  by (rule settlesI, rule f_spec_conseq [OF acquire_spec [where fuel = fuel and timeout = None]])
    (use enough in \<open>auto simp: lock_kept sleep_kept\<close>)

lemma settles_cleanup [settling]: "settles db (cleanup_vpn_profiles (xe_vpn X) keep) (\<lambda>_. True)"
  unfolding cleanup_vpn_profiles_def cleanup_active_vpns_def by (intro settling; simp?)

lemma settles_diagnostics [settling]: "settles db (emit_nm_diagnostics (xe_vpn X)) (\<lambda>_. True)"
  unfolding emit_nm_diagnostics_def nm_diagnostic_def by (intro settling; simp?)

lemma settles_bring_up [settling]: "settles db (bring_up (xe_vpn X) name d x) (\<lambda>_. True)"
  unfolding bring_up_def retry_connection_up_on_eth0_def by (intro settling; simp?)

lemma settles_ensure [settling]: "settles db (ensure_nmcli (xe_vpn X)) (\<lambda>_. True)"
  unfolding ensure_nmcli_def Let_def by (intro settling; simp?)

lemma settles_connect: "settles db (connect_group_vpn fuel (xe_vpn X) g) (\<lambda>_. True)"
  unfolding connect_group_vpn_def Let_def by (intro settling; simp?)

lemma settles_disconnect: "settles db (disconnect_group_vpn fuel (xe_vpn X) g) (\<lambda>_. True)"
  unfolding disconnect_group_vpn_def Let_def by (intro settling; simp?)

lemma settles_release: "settles db (release_lock (xe_vpn X) h) (\<lambda>_. True)"
  unfolding release_lock_def by (intro settling settles_call lock_kept; simp?)

lemma session_spec:
  assumes "f_spec (\<lambda>s. db s = D) body (\<lambda>a s. Q a (db s)) (\<lambda>_ s. E (db s))" "E D" "\<And>a D'. Q a D' \<Longrightarrow> E D'"
  shows "f_spec (\<lambda>s. db s = D) (vpn_session fuel (xe_vpn X) g None body) (\<lambda>a s. Q a (db s)) (\<lambda>_ s. E (db s))"
  unfolding vpn_session_def Let_def
proof (rule settles_io_stable, goal_cases)
  case 1
  show ?case by (intro settling settles_acquire) simp_all
next
  case (2 got)
  have clean: "settles db (f_finally (disconnect_group_vpn fuel (xe_vpn X) g) (release_lock (xe_vpn X) h)) (\<lambda>_. True)" for h
    by (intro settling settles_disconnect settles_release)
  have "f_spec (\<lambda>s. db s = D) (f_bind (connect_group_vpn fuel (xe_vpn X) g) (\<lambda>_. body)) (\<lambda>a s. Q a (db s)) (\<lambda>_ s. E (db s))"
    by (rule f_spec_bind [OF f_spec_conseq [OF settlesD [OF settles_connect]]], assumption, erule conjunct1, use assms(2) in blast, rule assms(1))
  moreover have "f_spec (\<lambda>s. db s = D) (f_raise e) (\<lambda>a s. Q a (db s)) (\<lambda>_ s. E (db s))" for e
    by (rule f_spec_raise) (use assms(2) in blast)
  ultimately show ?case
    by (intro f_spec_finally [where ?Q0.0 = "\<lambda>a s. Q a (db s)" and ?X0.0 = "\<lambda>_ s. E (db s)"])
      (cases got, simp, simp, rule f_spec_conseq [OF settles_stable [OF clean]], assumption, simp, use assms(3) in blast,
       rule f_spec_conseq [OF settles_stable [OF clean]], simp_all)
qed

text \<open>The run of a script.\<close>

lemma settles_int [settling]: "settles db (f_int X v) (\<lambda>_. True)"
  unfolding f_int_def by (intro settling) simp_all

lemma settles_label [settling]: "settles db (jump_label X v) (\<lambda>_. True)"
  unfolding jump_label_def by (cases v) (simp_all only: pyval.case, (intro settling; simp?)+)

lemma settles_probe [settling]: "settles db (f_call (xe_probe X ip port n j)) (\<lambda>_. True)"
  by (intro settles_call probe_kept) simp

lemma settles_try_ports [settling]: "settles db (try_ports X task d labels n ports) (\<lambda>_. True)"
  by (induction ports) (simp_all only: try_ports.simps, (intro settling; simp?)+)

lemma settles_check [settling]: "settles db (network_check X task d ty labels cfg) (\<lambda>_. True)"
  unfolding network_check_def probe_timeout_def probe_device_def judge_probe_def Let_def by (intro settling; simp?)

lemma settles_files [settling]: "settles db (f_call (xe_files X dir)) (\<lambda>_. True)"
  "settles db (f_call (xe_makedirs X dir)) (\<lambda>_. True)" "settles db (f_call (xe_import X name)) (\<lambda>_. True)"
  "settles db (f_write (xe_set_cache X c)) (\<lambda>_. True)"
  by (intro settles_call settles_write files_kept makedirs_kept import_kept cache_kept; simp)+

lemma settles_locate: "settles db (locate_file X task d dir msg path) (\<lambda>_. True)"
  unfolding locate_file_def Let_def by (intro settling; simp?)

lemma settles_located:
  "settles db (locate_file X task d dir msg explicit) (\<lambda>res. fst res \<longrightarrow> (\<forall>p. explicit = Some p \<longrightarrow> snd (snd res) = Some p))"
proof -
  have "settles db (case explicit of Some p \<Rightarrow> f_ret (Some p) | None \<Rightarrow> f_bind (f_call (xe_files X dir)) (\<lambda>files. f_ret (newest_file files)))
      (\<lambda>file. \<forall>p. explicit = Some p \<longrightarrow> file = Some p)"
    by (cases explicit) (simp_all, (intro settling; simp)+)
  then show ?thesis
    unfolding locate_file_def Let_def
    by (rule settles_bind) (intro settling; auto)
qed

lemma settles_error: "settles db (script_error X task d e) (\<lambda>res. \<not> fst res)"
  unfolding script_error_def Let_def by (intro settling) auto

lemma settles_finished: "settles db (script_finished X d ty slug grp label labels ok) (\<lambda>_. True)"
  unfolding script_finished_def Let_def by (intro settling)

lemma settles_load [settling]: "settles db (load_script X name) (\<lambda>_. True)"
  unfolding load_script_def by (intro settling; simp?)

lemma settles_path [settling]: "settles db (get_backup_path X slug grp name) (\<lambda>_. True)"
  unfolding get_backup_path_def Let_def by (intro settling; simp?)

lemma settles_refuse: "settles db (refuse_backup X task d msg) (\<lambda>res. \<not> fst res)"
  unfolding refuse_backup_def by (intro settling) simp

end

section \<open>Scripts that leave the part alone\<close>

locale executor_host = quiet_host db R emit X fuel
  for db :: "'s \<Rightarrow> 'd" and R emit and X :: "('s, 'm) exec_env" and fuel +
  assumes run_kept: "db (snd (xe_run X m kw j s)) = db s"
begin

lemma settles_session: "settles db body (\<lambda>_. True) \<Longrightarrow> settles db (vpn_session fuel (xe_vpn X) g None body) (\<lambda>_. True)"
  by (rule settlesI, rule f_spec_conseq [OF session_spec [where Q = "\<lambda>_ D'. D' = D" and E = "\<lambda>D'. D' = D" for D]],
      rule f_spec_conseq [OF settlesD], assumption+) auto

lemma settles_run: "settles db (run_script X task d ty m accepted dir kwargs labels) (\<lambda>_. True)"
proof -
  have called: "settles db (f_call (xe_run X m kw j)) (\<lambda>_. True)" for m kw j
    by (rule settles_call) (simp_all add: run_kept)
  have located: "settles db (f_catch (locate_file X task d dir msg explicit) (script_error X task d)) (\<lambda>_. True)" for msg explicit
    by (intro settles_catch settles_locate settles_weaken [OF settles_error]) (rule TrueI)
  show ?thesis
    unfolding run_script_def Let_def
    by (intro settles_bind_any [OF settles_check] settles_bind_any [OF called] settles_bind_any [OF located] settles_sum settles_prod settles_seq
        settles_if settles_ret settles_log TrueI)
qed

lemma settles_script: "settles db (execute_script X task d ty slug grp m accepted dir kwargs) (\<lambda>_. True)"
  unfolding execute_script_def Let_def
  by (intro settling settles_run settles_finished settles_weaken [OF settles_error]) simp_all

lemma settles_in_vpn: "settles db body (\<lambda>_. True) \<Longrightarrow> settles db (in_vpn fuel X task d grp manage body) (\<lambda>_. True)"
  unfolding in_vpn_def by (intro settling settles_session) simp_all

lemma settles_with_script: "(\<And>ty m accepted. settles db (k ty m accepted) (\<lambda>_. True)) \<Longrightarrow> settles db (with_script X dtype k) (\<lambda>_. True)"
  unfolding with_script_def by (intro settling; simp?)

lemma settles_execute: "settles db (execute_backup fuel X d dtype grp slug manage task) (\<lambda>_. True)"
  unfolding execute_backup_def Let_def
  by (intro settles_with_script settles_bind_any settles_path settles_sum settles_if settles_seq settles_log settles_option
      settles_in_vpn settles_script settles_weaken [OF settles_refuse]) simp_all

end

section \<open>What the scripts have answered\<close>

text \<open>A world in which every answer of a script is kept, in order, and nothing else touches the list.\<close>

locale observed_host = quiet_host seen R emit X fuel
  for seen :: "'s \<Rightarrow> (fault + script_answer) list" and R emit and X :: "('s, 'm) exec_env" and fuel +
  assumes run_seen: "seen (snd (xe_run X m kw j s)) = seen s @ [fst (xe_run X m kw j s)]"

text \<open>At most one script was called; behind a success there is one that answered with success, and the path of its answer, if it
  gave one, is the path of the success.\<close>

definition asked :: "(fault + script_answer) list \<Rightarrow> outcome \<Rightarrow> (fault + script_answer) list \<Rightarrow> bool" where
  "asked T res T' \<longleftrightarrow> (T' = T \<and> \<not> fst res) \<or>
     (\<exists>r. T' = T @ [r] \<and> (fst res \<longrightarrow> (\<exists>a. r = Inr a \<and> fst (read_answer a) \<and>
        (\<forall>p. snd (snd (read_answer a)) = Some p \<longrightarrow> snd (snd res) = Some p))))"

definition asked_once :: "(fault + script_answer) list \<Rightarrow> (fault + script_answer) list \<Rightarrow> bool" where
  "asked_once T T' \<longleftrightarrow> T' = T \<or> (\<exists>r. T' = T @ [r])"

lemma asked_facts: "asked T res T' \<Longrightarrow> asked_once T T'" "asked_once T T" "asked T (False, msg, p) T"
  by (auto simp: asked_def asked_once_def)

context observed_host
begin

definition asks :: "(fault + script_answer) list \<Rightarrow> ('s, outcome) fio \<Rightarrow> bool" where
  "asks T m \<longleftrightarrow> f_spec (\<lambda>s. seen s = T) m (\<lambda>res s. asked T res (seen s)) (\<lambda>_ s. asked_once T (seen s))"

lemma asks_without: "settles seen m (\<lambda>res. \<not> fst res) \<Longrightarrow> asks T m"
  unfolding asks_def by (erule f_spec_conseq [OF settlesD]) (auto simp: asked_def asked_once_def)

lemma asks_bind:
  assumes "settles seen m (\<lambda>_. True)" "\<And>a. asks T (f a)"
  shows "asks T (f_bind m f)"
  unfolding asks_def
proof (rule f_spec_bind)
  show "f_spec (\<lambda>s. seen s = T) m (\<lambda>_ s. seen s = T) (\<lambda>_ s. asked_once T (seen s))"
    by (rule f_spec_conseq [OF settlesD [OF assms(1)]]) (auto simp: asked_once_def)
  show "f_spec (\<lambda>s. seen s = T) (f a) (\<lambda>res s. asked T res (seen s)) (\<lambda>_ s. asked_once T (seen s))" for a
    using assms(2) [of a] unfolding asks_def .
qed

lemma asks_seq: "settles seen m (\<lambda>_. True) \<Longrightarrow> asks T n \<Longrightarrow> asks T (f_seq m n)"
  unfolding f_seq_def by (rule asks_bind)

lemma asks_if: "(b \<Longrightarrow> asks T m) \<Longrightarrow> (\<not> b \<Longrightarrow> asks T n) \<Longrightarrow> asks T (if b then m else n)"
  and asks_option: "asks T m \<Longrightarrow> (\<And>x. asks T (f x)) \<Longrightarrow> asks T (case v of None \<Rightarrow> m | Some x \<Rightarrow> f x)"
  and asks_sum: "(\<And>e. asks T (h e)) \<Longrightarrow> (\<And>a. asks T (g a)) \<Longrightarrow> asks T (case r of Inl e \<Rightarrow> h e | Inr a \<Rightarrow> g a)"
  by (simp_all split: option.split sum.split)

lemma run_asked:
  "f_spec (\<lambda>s. seen s = T) (run_script X task d ty m accepted dir kwargs labels) (\<lambda>(res, _) s. asked T res (seen s)) (\<lambda>_ s. asked_once T (seen s))"
  unfolding run_script_def Let_def
proof (rule f_spec_bind [OF f_spec_conseq [OF settlesD [OF settles_check]]], assumption, erule conjunct1, goal_cases)
  case (1 e s)
  then show ?case by (simp add: asked_facts)
next
  case (2 r)
  have called: "f_spec (\<lambda>s. seen s = T) (f_call (xe_run X m kw j)) (\<lambda>a s. seen s = T @ [Inr a]) (\<lambda>_ s. asked_once T (seen s))" for kw j
  proof (rule f_spec_call)
    fix s assume "seen s = T"
    with run_seen [of m kw j s] show "case xe_run X m kw j s of (Inl e, s') \<Rightarrow> asked_once T (seen s') | (Inr a, s') \<Rightarrow> seen s' = T @ [Inr a]"
      by (cases "xe_run X m kw j s"; cases "fst (xe_run X m kw j s)") (auto simp: asked_once_def)
  qed
  have located: "settles seen (f_catch (locate_file X task d dir msg explicit) (script_error X task d))
      (\<lambda>res. fst res \<longrightarrow> (\<forall>p. explicit = Some p \<longrightarrow> snd (snd res) = Some p))" for msg explicit
    by (intro settles_catch settles_weaken [OF settles_error] settles_weaken [OF settles_located]) auto
  have answered: "f_spec (\<lambda>s. seen s = T @ [Inr a]) (case read_answer a of (success, message, explicit) \<Rightarrow>
       if success then f_bind (f_catch (locate_file X task d dir message explicit) (script_error X task d)) (\<lambda>res. f_ret (res, True))
       else f_ret ((False, str_or message ''Falha ao realizar backup'', None), False))
     (\<lambda>(res, _) s. asked T res (seen s)) (\<lambda>_ s. asked_once T (seen s))" for a
  proof (cases "read_answer a")
    case (fields success message explicit)
    have "f_spec (\<lambda>s. seen s = T @ [Inr a]) (f_bind (f_catch (locate_file X task d dir message explicit) (script_error X task d)) (\<lambda>res. f_ret (res, True)))
       (\<lambda>(res, _) s. asked T res (seen s)) (\<lambda>_ s. asked_once T (seen s))" if success
      by (rule f_spec_bind [OF f_spec_conseq [OF settlesD [OF located]]], assumption, assumption, simp add: asked_once_def,
          rule f_spec_ret) (use that fields in \<open>auto simp: asked_def\<close>)
    moreover have "f_spec (\<lambda>s. seen s = T @ [Inr a]) (f_ret ((False, msg, None), False)) (\<lambda>(res, _) s. asked T res (seen s))
        (\<lambda>_ s. asked_once T (seen s))" for msg
      by (rule f_spec_ret) (simp add: asked_def)
    ultimately show ?thesis using fields by (simp add: f_spec_if)
  qed
  show ?case
  proof (cases r)
    case (Inl msg)
    then show ?thesis by simp (rule f_spec_ret, simp add: asked_facts)
  next
    case (Inr other)
    have warned: "settles seen (if ignored = [] then f_ret () else exec_log X task d lvl (say ignored)) (\<lambda>_. True)" for ignored :: "string list" and lvl say
      by (intro settling) simp
    show ?thesis
      unfolding Inr sum.case case_prod_beta [of _ "filter_script_kwargs _ _"]
      by (rule f_spec_seq [OF f_spec_conseq [OF settlesD [OF warned]]], assumption, erule conjunct1, simp add: asked_facts,
          rule f_spec_bind [OF called], rule answered)
  qed
qed

lemma script_asked: "asks T (execute_script X task d ty slug grp m accepted dir kwargs)"
  unfolding execute_script_def Let_def
proof (rule asks_seq [OF settles_log], rule asks_seq [OF settles_log], rule asks_seq [OF settles_log], rule asks_bind [OF settles_label],
    unfold asks_def, rule f_spec_bind [where M = "\<lambda>(res, _) s. asked T res (seen s)"], goal_cases)
  case (1 label)
  have caught: "f_spec (\<lambda>s. asked_once T (seen s)) (f_bind (script_error X task d e) (\<lambda>res. f_ret (res, False)))
      (\<lambda>(res, _) s. asked T res (seen s)) (\<lambda>_ s. asked_once T (seen s))" for e
    by (rule f_spec_bind [OF f_spec_conseq [OF settles_stable [OF settles_error]]], assumption, assumption, assumption,
        rule f_spec_ret) (auto simp: asked_def asked_once_def)
  show ?case by (rule f_spec_catch [OF run_asked caught])
next
  case (2 label p)
  have finished: "f_spec (\<lambda>s. asked T res (seen s)) (f_seq (script_finished X d ty slug grp label labels ok) (f_ret res))
      (\<lambda>res s. asked T res (seen s)) (\<lambda>_ s. asked_once T (seen s))" for res labels ok
    by (rule f_spec_seq [OF f_spec_conseq [OF settles_stable [OF settles_finished]]], assumption, erule conjunct1, simp add: asked_facts,
        rule f_spec_ret) assumption
  show ?case by (cases p) (simp add: finished)
qed

lemma vpn_asked: "asks T body \<Longrightarrow> asks T (in_vpn fuel X task d grp manage body)"
proof -
  assume body: "asks T body"
  have refused: "f_spec (\<lambda>s. asked_once T (seen s)) (f_seq (exec_log X task d lvl msg) (f_ret (False, msg', None)))
      (\<lambda>res s. asked T res (seen s)) (\<lambda>_ s. asked_once T (seen s))" for lvl msg msg'
    by (rule f_spec_seq [OF f_spec_conseq [OF settles_stable [OF settles_log]]], assumption, erule conjunct1, simp,
        rule f_spec_ret) (auto simp: asked_def asked_once_def)
  have session: "f_spec (\<lambda>s. seen s = T) (vpn_session fuel (xe_vpn X) g None body) (\<lambda>res s. asked T res (seen s)) (\<lambda>_ s. asked_once T (seen s))" for g
    by (rule session_spec [where Q = "asked T"]) (use body in \<open>simp_all add: asks_def asked_facts\<close>)
  have caught: "f_spec (\<lambda>s. asked_once T (seen s)) (case e of VpnFault t \<Rightarrow> f_seq (exec_log X task d lvl t) (f_ret (False, h t, None)) | OtherFault t \<Rightarrow> f_raise e)
      (\<lambda>res s. asked T res (seen s)) (\<lambda>_ s. asked_once T (seen s))" for e lvl h
    by (cases e) (simp_all add: refused f_spec_raise)
  show ?thesis
    unfolding in_vpn_def
  proof (rule asks_option [OF body], rule asks_if [OF _ body])
    show "asks T (f_catch (vpn_session fuel (xe_vpn X) g None body) (\<lambda>e. case e of
        VpnFault t \<Rightarrow> f_seq (exec_log X task d ''error'' t) (f_ret (False, ''Falha ao preparar VPN: '' @ t, None)) | OtherFault t \<Rightarrow> f_raise e))" for g
      unfolding asks_def by (rule f_spec_catch [OF session caught])
  qed
qed

lemma with_script_asked: "(\<And>ty m accepted. asks T (k ty m accepted)) \<Longrightarrow> asks T (with_script X dtype k)"
proof -
  have no: "asks T (f_ret (False, msg, None))" "asks T (f_bind (f_read g) (\<lambda>c. f_ret (False, h c, None)))"
    for msg and g :: "'s \<Rightarrow> 'm script_cache" and h :: "'m script_cache \<Rightarrow> string"
    by (rule asks_without, intro settling; simp)+
  assume "\<And>ty m accepted. asks T (k ty m accepted)"
  then show ?thesis
    unfolding with_script_def by (intro asks_option asks_if asks_bind [OF settles_load] no)
qed

lemma execute_asked: "asks T (execute_backup fuel X d dtype grp slug manage task)"
  unfolding execute_backup_def Let_def
  by (intro with_script_asked asks_bind [OF settles_path] asks_sum asks_if asks_seq [OF settles_log] asks_option
      vpn_asked script_asked asks_without [OF settles_refuse])

end

section \<open>A worker with a database\<close>

locale device_host = executor_host db R emit "exec_part V" fuel
  for db :: "'s \<Rightarrow> device_db" and R emit and V :: "('s, 'm) device_env" and fuel +
  assumes ensure_kept: "db (snd (dv_ensure V s)) = db s"
    and size_kept: "db (snd (dv_size V p s)) = db s"
    and hash_kept: "db (snd (dv_sha256 V p s)) = db s"
    and remove_kept: "db (snd (dv_remove V p s)) = db s"
    and queries: "case dv_query V s of (Inl e, s') \<Rightarrow> db s' = db s | (Inr d, s') \<Rightarrow> d = db s \<and> db s' = db s"
    and commits: "case dv_commit V f s of (Inl e, s') \<Rightarrow> db s' = db s | (Inr u, s') \<Rightarrow> db s' = f (db s)"

text \<open>A failure has its class and a message.\<close>

definition sound_run :: "run_state \<Rightarrow> bool" where
  "sound_run st \<longleftrightarrow> rs_ok st \<or> rs_message st \<noteq> [] \<and> rs_category st \<noteq> None"

lemma classify_sound: "sound_run (classify_run st)"
  by (simp add: sound_run_def classify_run_def Let_def)

text \<open>The rows of a run, whatever becomes of the notifications.\<close>

definition stored :: "('s \<Rightarrow> device_db) \<Rightarrow> run_state \<Rightarrow> device \<Rightarrow> device_db \<Rightarrow> 's \<Rightarrow> bool" where
  "stored db st d D s \<longleftrightarrow> (\<exists>bid now ns. db s = (store_result st d d bid now D)\<lparr>db_notes := ns\<rparr>)"

lemma storedI: "db s = store_result st d d bid now D \<Longrightarrow> stored db st d D s"
  unfolding stored_def by (intro exI [of _ bid] exI [of _ now] exI [of _ "db_notes (store_result st d d bid now D)"]) simp

context device_host
begin

lemma settles_measure [settling]: "settles db (measure_file V path) (\<lambda>_. True)"
  unfolding measure_file_def by (intro settling settles_call size_kept hash_kept; simp?)

lemma query_spec: "f_spec (\<lambda>s. db s = D) (f_call (dv_query V)) (\<lambda>d s. db s = D \<and> d = D) (\<lambda>_ s. db s = D)"
proof (rule f_spec_call)
  fix s assume "db s = D"
  with queries [of s] show "case dv_query V s of (Inl e, s') \<Rightarrow> db s' = D | (Inr d, s') \<Rightarrow> db s' = D \<and> d = D"
    by (auto split: prod.splits sum.splits)
qed

lemma commit_spec: "f_spec (\<lambda>s. db s = D) (f_call (dv_commit V f)) (\<lambda>_ s. db s = f D) (\<lambda>_ s. db s = D)"
proof (rule f_spec_call)
  fix s assume "db s = D"
  with commits [where f = f and s = s] show "case dv_commit V f s of (Inl e, s') \<Rightarrow> db s' = D | (Inr u, s') \<Rightarrow> db s' = f D"
    by (auto split: prod.splits sum.splits)
qed

lemma settles_query [settling]: "settles db (f_call (dv_query V)) (\<lambda>_. True)"
  by (rule settlesI, rule f_spec_conseq [OF query_spec]) auto

lemma settles_checks: "settles db (check_integrity V d st) (\<lambda>_. True)" "settles db (check_quota V tn st) (\<lambda>_. True)"
  unfolding check_integrity_def check_quota_def Let_def by (intro settling settles_call remove_kept; simp?)+

lemma settles_judge: "settles db (judge_run V task d tn started completed res) sound_run"
  unfolding judge_run_def Let_def by (intro settling settles_checks classify_sound; simp?)

lemma notify_spec: "f_spec (stored db st d D) (notify_failure V st row) (\<lambda>_. stored db st d D) (\<lambda>_ _. False)"
proof -
  have asked: "f_spec (\<lambda>s. db s = D') (f_bind (f_call (dv_query V)) (\<lambda>dd.
      f_call (dv_commit V (\<lambda>db'. db'\<lparr>db_notes := db_notes db' @ failure_notes st row (tb_users dd)\<rparr>))))
      (\<lambda>_ s. \<exists>ns. db s = D'\<lparr>db_notes := ns\<rparr>) (\<lambda>_ s. \<exists>ns. db s = D'\<lparr>db_notes := ns\<rparr>)" for D'
  proof (rule f_spec_bind [OF f_spec_conseq [OF query_spec]], assumption, assumption)
    show "\<exists>ns. db s = D'\<lparr>db_notes := ns\<rparr>" if "db s = D'" for s
      using that by (intro exI [of _ "db_notes D'"]) simp
    show "f_spec (\<lambda>s. db s = D' \<and> dd = D') (f_call (dv_commit V (\<lambda>db'. db'\<lparr>db_notes := db_notes db' @ failure_notes st row (tb_users dd)\<rparr>)))
      (\<lambda>_ s. \<exists>ns. db s = D'\<lparr>db_notes := ns\<rparr>) (\<lambda>_ s. \<exists>ns. db s = D'\<lparr>db_notes := ns\<rparr>)" for dd
    proof (rule f_spec_conseq [OF commit_spec])
      show "\<exists>ns. db s = D'\<lparr>db_notes := ns\<rparr>" if "db s = D'" for s
        using that by (intro exI [of _ "db_notes D'"]) simp
    qed auto
  qed
  have "f_spec (\<lambda>s. db s = (store_result st d d bid now D)\<lparr>db_notes := ns\<rparr>) (notify_failure V st row)
      (\<lambda>_. stored db st d D) (\<lambda>_ _. False)" for bid now ns
  proof -
    let ?E = "(store_result st d d bid now D)\<lparr>db_notes := ns\<rparr>"
    have kept: "stored db st d D s" if "\<exists>ns'. db s = ?E\<lparr>db_notes := ns'\<rparr>" for s
      using that unfolding stored_def by auto
    have same: "stored db st d D s" if "db s = ?E" for s
      using that unfolding stored_def by blast
    have caught: "f_spec (\<lambda>s. db s = ?E) (f_catch (f_bind (f_call (dv_query V)) (\<lambda>dd.
        f_call (dv_commit V (\<lambda>db'. db'\<lparr>db_notes := db_notes db' @ failure_notes st row (tb_users dd)\<rparr>)))) (\<lambda>e. f_ret ()))
        (\<lambda>_. stored db st d D) (\<lambda>_ _. False)"
      by (rule f_spec_catch [OF f_spec_conseq [OF asked]], assumption, erule kept, erule kept, rule f_spec_ret)
    show ?thesis
      unfolding notify_failure_def by (rule f_spec_if, rule f_spec_ret, erule same, rule caught)
  qed
  then show ?thesis unfolding f_spec_def stored_def [of db st d D] by blast
qed

lemma persist_spec:
  assumes "find (\<lambda>x. d_id x = i) (tb_devices D) = Some d" "loaded = None \<or> loaded = Some d"
  shows "f_spec (\<lambda>s. db s = D) (persist_result V i d loaded st) (\<lambda>_. stored db st d D) (\<lambda>_ s. db s = D)"
  unfolding persist_result_def
proof (rule f_spec_bind [OF query_spec], rule f_spec_known)
  fix dd assume dd: "dd = D"
  have held: "(case loaded of None \<Rightarrow> d | Some x \<Rightarrow> x) = d" using assms(2) by auto
  have "f_spec (\<lambda>s. db s = D) (f_bind (f_read (\<lambda>s. (dv_new_id V s, m_now (xe_machine V) s))) (\<lambda>(bid, now).
      f_seq (f_call (dv_commit V (store_result st d d bid now))) (notify_failure V st d))) (\<lambda>_. stored db st d D) (\<lambda>_ s. db s = D)"
  proof (rule f_spec_read, rename_tac p)
    fix p :: "string \<times> naive"
    show "f_spec (\<lambda>s. db s = D \<and> (dv_new_id V s, m_now (xe_machine V) s) = p) (case p of (bid, now) \<Rightarrow>
      f_seq (f_call (dv_commit V (store_result st d d bid now))) (notify_failure V st d)) (\<lambda>_. stored db st d D) (\<lambda>_ s. db s = D)"
      unfolding case_prod_beta
      by (rule f_spec_seq [OF f_spec_conseq [OF commit_spec]], erule conjunct1, assumption, assumption,
          rule f_spec_conseq [OF notify_spec [of st d D]]) (auto intro: storedI)
  qed
  with assms(1) dd held show "f_spec (\<lambda>s. db s = D) (case find (\<lambda>x. d_id x = i) (tb_devices dd) of
         None \<Rightarrow> f_raise (OtherFault ''Dispositivo nao encontrado ao persistir resultado do backup.'')
       | Some row \<Rightarrow> (let held = (case loaded of None \<Rightarrow> row | Some x \<Rightarrow> x)
            in f_bind (f_read (\<lambda>s. (dv_new_id V s, m_now (xe_machine V) s))) (\<lambda>(bid, now).
             f_seq (f_call (dv_commit V (store_result st d held bid now))) (notify_failure V st held))))
      (\<lambda>_. stored db st d D) (\<lambda>_ s. db s = D)" by (simp add: Let_def)
qed

lemma retry_spec:
  assumes "find (\<lambda>x. d_id x = i) (tb_devices D) = Some d"
  shows "f_spec (\<lambda>s. db s = D) (persist_with_retry V i d st) (\<lambda>_. stored db st d D) (\<lambda>_ s. db s = D)"
  unfolding persist_with_retry_def
  by (rule f_spec_catch [OF persist_spec [OF assms]]) (simp, intro f_spec_if persist_spec [OF assms] f_spec_raise, simp_all)

lemma settles_start: "settles db (f_call (dv_ensure V)) (\<lambda>_. True)" "settles db (f_read g) (\<lambda>_. True)"
  "settles db (device_finished V d slug st) (\<lambda>_. True)"
  unfolding device_finished_def by (intro settling settles_call ensure_kept; simp?)+

lemma run_spec:
  assumes "find (\<lambda>x. d_id x = i) (tb_devices D) = Some d"
  shows "f_spec (\<lambda>s. db s = D) (device_run fuel V i manage task)
    (\<lambda>a s. \<exists>st. a = (rs_ok st, rs_message st) \<and> sound_run st \<and> stored db st d D s) (\<lambda>_ s. db s = D)"
proof -
  have tail: "f_spec (\<lambda>s. db s = D \<and> sound_run st)
     (f_seq (device_finished V d slug st) (f_seq (persist_with_retry V i d st) (f_ret (rs_ok st, rs_message st))))
     (\<lambda>a s. \<exists>st. a = (rs_ok st, rs_message st) \<and> sound_run st \<and> stored db st d D s) (\<lambda>_ s. db s = D)" for slug st
    by (rule f_spec_known, rule f_spec_seq [OF f_spec_conseq [OF settlesD [OF settles_start(3)]]], assumption, erule conjunct1, assumption,
        rule f_spec_seq [OF retry_spec [OF assms]], rule f_spec_ret) blast
  note plain = f_spec_conseq [OF settlesD, where P' = "\<lambda>s. db s = D" and Q' = "\<lambda>_ s. db s = D" and X' = "\<lambda>_ s. db s = D"]
  have found: "f_spec (\<lambda>s. db s = D) (let tn = find (\<lambda>t. t_id t = d_tenant_id d) (db_tenants D);
                slug = (case tn of None \<Rightarrow> ''default'' | Some t \<Rightarrow> t_slug t)
            in f_bind (f_read (m_now (xe_machine V))) (\<lambda>started.
               f_bind (execute_backup fuel (exec_part V) d (d_type d) (d_group d) slug manage task) (\<lambda>res.
               f_bind (f_read (m_now (xe_machine V))) (\<lambda>completed.
               f_bind (judge_run V task d tn started completed res) (\<lambda>st.
               f_seq (device_finished V d slug st)
              (f_seq (persist_with_retry V i d st) (f_ret (rs_ok st, rs_message st))))))))
    (\<lambda>a s. \<exists>st. a = (rs_ok st, rs_message st) \<and> sound_run st \<and> stored db st d D s) (\<lambda>_ s. db s = D)"
    unfolding Let_def
    by (rule f_spec_bind [OF plain [OF settles_start(2)]], assumption, erule conjunct1, assumption,
        rule f_spec_bind [OF plain [OF settles_execute]], assumption, erule conjunct1, assumption,
        rule f_spec_bind [OF plain [OF settles_start(2)]], assumption, erule conjunct1, assumption,
        rule f_spec_bind [OF settlesD [OF settles_judge]], rule tail)
  show ?thesis
    unfolding device_run_def
    by (rule f_spec_seq [OF plain [OF settles_start(1)]], assumption, erule conjunct1, assumption,
        rule f_spec_bind [OF query_spec], rule f_spec_known) (use assms found in simp)
qed

end

lemma found_id: "find (\<lambda>x. d_id x = i) ds = Some d \<Longrightarrow> d_id d = i"
  by (induction ds) (auto split: if_splits)

lemma stored_run_rows:
  assumes "stored db st d D s" "find (\<lambda>x. d_id x = i) (tb_devices D) = Some d"
  shows "\<exists>b. tb_backups (db s) = tb_backups D @ [b] \<and> b_device_id b = i \<and> b_status b = (if rs_ok st then SUCCESS else FAILED) \<and>
      b_error_message b = (if rs_ok st then None else Some (rs_message st)) \<and> b_file_path b = rs_path st \<and> b_file_size_bytes b = rs_size st"
    and "map d_id (tb_devices (db s)) = map d_id (tb_devices D)"
    and "x \<in> set (tb_devices (db s)) \<Longrightarrow>
      if d_id x = i then d_last_backup_status x = Some (if rs_ok st then ''success'' else ''failure'') else x \<in> set (tb_devices D)"
proof -
  obtain bid now ns where s: "db s = (store_result st d d bid now D)\<lparr>db_notes := ns\<rparr>"
    using assms(1) unfolding stored_def by blast
  show "\<exists>b. tb_backups (db s) = tb_backups D @ [b] \<and> b_device_id b = i \<and> b_status b = (if rs_ok st then SUCCESS else FAILED) \<and>
      b_error_message b = (if rs_ok st then None else Some (rs_message st)) \<and> b_file_path b = rs_path st \<and> b_file_size_bytes b = rs_size st"
    unfolding s using found_id [OF assms(2)] by (intro exI [of _ "backup_row bid i now st"]) (simp add: store_result_def Let_def backup_row_def)
  show "map d_id (tb_devices (db s)) = map d_id (tb_devices D)"
    unfolding s by (simp add: store_result_def Let_def device_after_def)
  show "if d_id x = i then d_last_backup_status x = Some (if rs_ok st then ''success'' else ''failure'') else x \<in> set (tb_devices D)"
    if "x \<in> set (tb_devices (db s))"
    using that assms(2) found_id [OF assms(2)] unfolding s by (auto simp: store_result_def Let_def device_after_def written_def)
qed

lemma run_cases:
  assumes "device_host db R emit V fuel" "find (\<lambda>x. d_id x = i) (tb_devices (db s)) = Some d"
  obtains (row) st s' where "run_backup_for_device_id fuel V i manage task s = (Some (rs_ok st, rs_message st), s')"
      "sound_run st" "stored db st d (db s) s'"
  | (raised) e s' where "run_backup_for_device_id fuel V i manage task s = (Some (False, fault_text e), s')" "db s' = db s"
proof -
  from device_host.run_spec [OF assms, where manage = manage and task = task] refl [of "db s"] show ?thesis
  proof (cases rule: f_specE)
    case (returned a s')
    from returned(2) obtain st where st: "a = (rs_ok st, rs_message st)"
      "sound_run st" "stored db st d (db s) s'" by blast
    from returned(1) st(1) have "run_backup_for_device_id fuel V i manage task s = (Some (rs_ok st, rs_message st), s')"
      by (simp add: run_backup_for_device_id_def io_bind_def io_ret_def)
    then show ?thesis by (rule row) (rule st)+
  next
    case (raised e s')
    from raised(1) have "run_backup_for_device_id fuel V i manage task s = (Some (False, fault_text e), s')"
      by (simp add: run_backup_for_device_id_def io_bind_def io_ret_def)
    then show ?thesis by (rule that(2)) (rule raised(2))
  qed
qed

section \<open>A worker with files\<close>

text \<open>The files, as the check of integrity reads them.\<close>

definition files_of :: "('s, 'm) device_env \<Rightarrow> 's \<Rightarrow> (string \<Rightarrow> string + (bool \<times> int) list) \<times> (string \<Rightarrow> string + string)" where
  "files_of V s = (dv_zip V s, dv_text V s)"

definition sound_file :: "('s, 'm) device_env \<Rightarrow> device \<Rightarrow> 's \<Rightarrow> string option \<Rightarrow> bool" where
  "sound_file V d s path \<longleftrightarrow> result_ok (validate_backup_integrity (dv_zip V s) (dv_text V s) path (type_name d) (type_script d))"

lemma sound_file_kept: "files_of V s' = files_of V s \<Longrightarrow> sound_file V d s' path = sound_file V d s path"
  by (simp add: files_of_def sound_file_def)

locale evident_host = device_host db R emit V fuel + watch: observed_host seen R emit "exec_part V" fuel + files: log_host "files_of V" R emit "exec_part V"
  for db :: "'s \<Rightarrow> device_db" and R emit and V :: "('s, 'm) device_env" and fuel and seen :: "'s \<Rightarrow> (fault + script_answer) list" +
  assumes ensure_seen: "seen (snd (dv_ensure V s)) = seen s"
    and size_seen: "seen (snd (dv_size V p s)) = seen s"
    and hash_seen: "seen (snd (dv_sha256 V p s)) = seen s"
    and remove_seen: "seen (snd (dv_remove V p s)) = seen s"
    and query_frame: "seen (snd (dv_query V s)) = seen s" "files_of V (snd (dv_query V s)) = files_of V s"
    and commit_frame: "seen (snd (dv_commit V f s)) = seen s" "files_of V (snd (dv_commit V f s)) = files_of V s"
begin

text \<open>The calls after the script, on the list of answers and on the files.\<close>

lemma settles_after [settling]:
  "settles seen (f_call (dv_query V)) (\<lambda>_. True)" "settles seen (f_call (dv_commit V f)) (\<lambda>_. True)"
  "settles (files_of V) (f_call (dv_query V)) (\<lambda>_. True)" "settles (files_of V) (f_call (dv_commit V f)) (\<lambda>_. True)"
  by (intro settles_call query_frame commit_frame; simp)+

lemma settles_persist:
  "settles seen (persist_with_retry V i d st) (\<lambda>_. True)" "settles (files_of V) (persist_with_retry V i d st) (\<lambda>_. True)"
  "settles seen (device_finished V d slug st) (\<lambda>_. True)" "settles (files_of V) (device_finished V d slug st) (\<lambda>_. True)"
  unfolding persist_with_retry_def persist_result_def notify_failure_def device_finished_def Let_def by (intro settling; simp?)+

lemma settles_seen_start: "settles seen (f_call (dv_ensure V)) (\<lambda>_. True)" "settles seen (measure_file V path) (\<lambda>_. True)"
  "settles seen (judge_run V task d tn a c res) (\<lambda>_. True)"
  unfolding judge_run_def measure_file_def check_integrity_def check_quota_def Let_def
  by (intro settling settles_call ensure_seen size_seen hash_seen remove_seen; simp?)+

text \<open>What stands behind a success after the two checks.\<close>

definition checked :: "device_db \<Rightarrow> device \<Rightarrow> tenant option \<Rightarrow> outcome \<Rightarrow> run_state \<Rightarrow> 's \<Rightarrow> bool" where
  "checked D d tn res st s \<longleftrightarrow> (rs_ok st \<longrightarrow> fst res \<and> rs_path st = snd (snd res) \<and> sound_file V d s (rs_path st) \<and>
     (\<forall>t n. tn = Some t \<longrightarrow> rs_size st = Some n \<longrightarrow> lc_allowed (check_storage_before_backup (tables.truncate D) t n)))"

lemma checked_kept: "checked D d tn res st s \<Longrightarrow> files_of V s' = files_of V s \<Longrightarrow> checked D d tn res st s'"
  by (simp only: checked_def sound_file_kept [of V s' s])

lemma no_quota: "n = 0 \<Longrightarrow> lc_allowed (check_storage_before_backup tb t n)"
  by (simp add: check_storage_before_backup_def limit_ok_def)

lemma query_files: "f_spec (\<lambda>s. db s = D \<and> files_of V s = F) (f_call (dv_query V)) (\<lambda>dd s. db s = D \<and> dd = D \<and> files_of V s = F) (\<lambda>_ s. db s = D)"
  by (rule f_spec_conseq [OF f_spec_conj [OF query_spec settlesD [OF settles_after(3)]]]) auto

lemma quota_checked:
  "f_spec (\<lambda>s. db s = D \<and> files_of V s = F) (check_quota V tn st)
     (\<lambda>st' s. db s = D \<and> (rs_ok st' \<longrightarrow> st' = st \<and> files_of V s = F \<and>
        (\<forall>t n. tn = Some t \<longrightarrow> rs_size st = Some n \<longrightarrow> lc_allowed (check_storage_before_backup (tables.truncate D) t n))))
     (\<lambda>_ s. db s = D)"
proof (cases "rs_ok st \<and> (\<exists>n. rs_size st = Some n \<and> n \<noteq> 0) \<and> tn \<noteq> None")
  case False
  have "check_quota V tn st = f_ret st"
    using False by (auto simp: check_quota_def split: option.split)
  then show ?thesis
    using False by simp (rule f_spec_ret, auto intro: no_quota)
next
  case True
  then obtain n t where nt: "rs_ok st" "rs_size st = Some n" "n \<noteq> 0" "tn = Some t" by blast
  let ?over = "\<lambda>why. f_bind (f_read (dv_exists V (or_empty (rs_path st)))) (\<lambda>there.
       f_seq (if or_empty (rs_path st) \<noteq> [] \<and> there
          then f_catch (f_call (dv_remove V (or_empty (rs_path st)))) (\<lambda>_. f_ret ()) else f_ret ())
        (f_ret (st\<lparr>rs_ok := False, rs_message := why, rs_path := None, rs_size := None, rs_hash := None\<rparr>)))"
  have over: "settles db (?over why) (\<lambda>st'. \<not> rs_ok st')" for why
    by (intro settling settles_call remove_kept; simp?)
  have step: "f_spec (\<lambda>s. db s = D \<and> dd = D \<and> files_of V s = F)
     (let q = check_storage_before_backup (tables.truncate dd) t n in if lc_allowed q then f_ret st else ?over (lc_reason q))
     (\<lambda>st' s. db s = D \<and> (rs_ok st' \<longrightarrow> st' = st \<and> files_of V s = F \<and> lc_allowed (check_storage_before_backup (tables.truncate D) t n)))
     (\<lambda>_ s. db s = D)" for dd
    unfolding Let_def by (rule f_spec_if, rule f_spec_ret, simp, rule f_spec_conseq [OF settlesD [OF over]]) auto
  from f_spec_bind [OF query_files step] show ?thesis
    using nt by (simp add: check_quota_def)
qed

lemma judge_checked: "f_spec (\<lambda>s. db s = D) (judge_run V task d tn a c res) (\<lambda>st s. db s = D \<and> checked D d tn res st s) (\<lambda>_ s. db s = D)"
proof -
  have integrity: "f_spec (\<lambda>s. db s = D) (check_integrity V d st) (\<lambda>st' s. db s = D \<and> (rs_ok st' \<longrightarrow>
      fst res \<and> rs_path st' = snd (snd res) \<and> sound_file V d s (rs_path st'))) (\<lambda>_ s. db s = D)"
    if "rs_ok st = fst res" "rs_path st = snd (snd res)" for st
    using that by (auto simp: check_integrity_def f_spec_def f_bind_def io_bind_def f_read_def sound_file_def)
  have last: "f_spec (\<lambda>s. db s = D \<and> checked D d tn res st s) (f_seq (if rs_ok st then exec_log (exec_part V) task d lvl msg else f_ret ()) (f_ret (classify_run st)))
      (\<lambda>st s. db s = D \<and> checked D d tn res st s) (\<lambda>_ s. db s = D)" for st lvl msg
  proof (cases "rs_ok st")
    case True
    have kept: "f_spec (\<lambda>s. db s = D \<and> files_of V s = F) (exec_log (exec_part V) task d lvl msg) (\<lambda>_ s. db s = D \<and> files_of V s = F) (\<lambda>_ s. db s = D)" for F
      by (rule f_spec_conseq [OF f_spec_conj [OF settlesD [OF settles_log] settlesD [OF files.settles_log]]]) auto
    have logged: "f_spec (\<lambda>s. db s = D \<and> checked D d tn res st s) (exec_log (exec_part V) task d lvl msg) (\<lambda>_ s. db s = D \<and> checked D d tn res st s) (\<lambda>_ s. db s = D)"
    proof (rule f_spec_at)
      fix s0 assume s0: "db s0 = D \<and> checked D d tn res st s0"
      show "f_spec (\<lambda>s. s = s0) (exec_log (exec_part V) task d lvl msg) (\<lambda>_ s. db s = D \<and> checked D d tn res st s) (\<lambda>_ s. db s = D)"
        by (rule f_spec_conseq [OF kept [of "files_of V s0"]]) (use s0 in \<open>blast intro: checked_kept\<close>)+
    qed
    show ?thesis
      using True by simp (rule f_spec_seq [OF logged], rule f_spec_ret, simp add: classify_run_def True)
  next
    case False
    then show ?thesis by simp (rule f_spec_ret, simp add: checked_def classify_run_def Let_def)
  qed
  have quota: "f_spec (\<lambda>s. db s = D \<and> (rs_ok st \<longrightarrow> fst res \<and> rs_path st = snd (snd res) \<and> sound_file V d s (rs_path st))) (check_quota V tn st)
      (\<lambda>st s. db s = D \<and> checked D d tn res st s) (\<lambda>_ s. db s = D)" for st
  proof (rule f_specI)
    fix s assume s: "db s = D \<and> (rs_ok st \<longrightarrow> fst res \<and> rs_path st = snd (snd res) \<and> sound_file V d s (rs_path st))"
    have "db s = D \<and> files_of V s = files_of V s" using s by simp
    with quota_checked [of D "files_of V s" tn st]
    show "\<exists>r s'. check_quota V tn st s = (Some r, s') \<and> (case r of Inl e \<Rightarrow> db s' = D | Inr st \<Rightarrow> db s' = D \<and> checked D d tn res st s')"
    proof (cases rule: f_specE)
      case (returned st' s')
      have "checked D d tn res st' s'"
        unfolding checked_def
      proof
        assume "rs_ok st'"
        with returned(2) have q: "st' = st" "files_of V s' = files_of V s" "\<forall>t n. tn = Some t \<longrightarrow> rs_size st = Some n \<longrightarrow>
            lc_allowed (check_storage_before_backup (tables.truncate D) t n)" by simp_all
        with s \<open>rs_ok st'\<close> show "fst res \<and> rs_path st' = snd (snd res) \<and> sound_file V d s' (rs_path st') \<and> (\<forall>t n. tn = Some t \<longrightarrow>
            rs_size st' = Some n \<longrightarrow> lc_allowed (check_storage_before_backup (tables.truncate D) t n))"
          unfolding sound_file_kept [OF q(2)] q(1) by blast
      qed
      with returned show ?thesis by (intro exI [of _ "Inr st'"] exI [of _ s']) simp
    next
      case (raised e s')
      then show ?thesis by (intro exI [of _ "Inl e"] exI [of _ s']) simp
    qed
  qed
  show ?thesis
    unfolding judge_run_def Let_def case_prod_beta
    by (rule f_spec_bind [OF f_spec_conseq [OF settlesD [OF settles_measure]]], assumption, erule conjunct1, assumption,
        rule f_spec_bind [OF integrity], simp, simp, rule f_spec_bind [OF quota], rule last)
qed

text \<open>The end of a run: what the scripts answered, the rows, and the file.\<close>

definition proven :: "device_db \<Rightarrow> device \<Rightarrow> (fault + script_answer) list \<Rightarrow> run_state \<Rightarrow> 's \<Rightarrow> bool" where
  "proven D d T st s \<longleftrightarrow> stored db st d D s \<and> (rs_ok st \<longrightarrow>
     (\<exists>a. seen s = T @ [Inr a] \<and> fst (read_answer a) \<and> (\<forall>p. snd (snd (read_answer a)) = Some p \<longrightarrow> rs_path st = Some p)) \<and>
     sound_file V d s (rs_path st) \<and>
     (\<forall>t n. find (\<lambda>t. t_id t = d_tenant_id d) (db_tenants D) = Some t \<longrightarrow> rs_size st = Some n \<longrightarrow>
        lc_allowed (check_storage_before_backup (tables.truncate D) t n)))"

lemma run_proven:
  assumes "find (\<lambda>x. d_id x = i) (tb_devices D) = Some d"
  shows "f_spec (\<lambda>s. db s = D \<and> seen s = T) (device_run fuel V i manage task)
    (\<lambda>a s. \<exists>st. a = (rs_ok st, rs_message st) \<and> proven D d T st s) (\<lambda>_ _. True)"
proof -
  let ?tn = "find (\<lambda>t. t_id t = d_tenant_id d) (db_tenants D)"
  have both: "f_spec (\<lambda>s. db s = D \<and> seen s = T') m (\<lambda>_ s. db s = D \<and> seen s = T') (\<lambda>_ _. True)"
    if "settles db m (\<lambda>_. True)" "settles seen m (\<lambda>_. True)" for m :: "('s, 'x) fio" and T'
    by (rule f_spec_conseq [OF f_spec_conj [OF settlesD [OF that(1)] settlesD [OF that(2)]]]) auto
  have read: "f_spec (\<lambda>s. db s = D \<and> P s) (f_read g) (\<lambda>_ s. db s = D \<and> P s) (\<lambda>_ _. True)" for P and g :: "'s \<Rightarrow> 'x"
    by (simp add: f_spec_def f_read_def)
  have query: "f_spec (\<lambda>s. db s = D \<and> seen s = T) (f_call (dv_query V)) (\<lambda>dd s. (db s = D \<and> seen s = T) \<and> dd = D) (\<lambda>_ _. True)"
    by (rule f_spec_conseq [OF f_spec_conj [OF query_spec settlesD [OF settles_after(1)]]]) auto
  have executed: "f_spec (\<lambda>s. db s = D \<and> seen s = T) (execute_backup fuel (exec_part V) d ty grp slug manage task)
      (\<lambda>res s. db s = D \<and> asked T res (seen s)) (\<lambda>_ _. True)" for ty grp slug
    by (rule f_spec_conseq [OF f_spec_conj [OF settlesD [OF settles_execute] watch.execute_asked [unfolded watch.asks_def]]]) auto
  have judged: "f_spec (\<lambda>s. db s = D \<and> asked T res (seen s)) (judge_run V task d ?tn a c res)
      (\<lambda>st s. db s = D \<and> asked T res (seen s) \<and> checked D d ?tn res st s) (\<lambda>_ _. True)" for a c res
    by (rule f_spec_conseq [OF f_spec_conj [OF judge_checked settles_stable [where P = "asked T res", OF settles_seen_start(3)]]]) auto
  have finished: "f_spec (\<lambda>s. db s = D \<and> asked T res (seen s) \<and> checked D d ?tn res st s) (device_finished V d slug st)
      (\<lambda>_ s. db s = D \<and> asked T res (seen s) \<and> checked D d ?tn res st s) (\<lambda>_ _. True)" for res st slug
  proof (rule f_spec_at)
    fix s0 assume s0: "db s0 = D \<and> asked T res (seen s0) \<and> checked D d ?tn res st s0"
    have "f_spec (\<lambda>s. db s = D \<and> seen s = seen s0 \<and> files_of V s = files_of V s0) (device_finished V d slug st)
        (\<lambda>_ s. db s = D \<and> seen s = seen s0 \<and> files_of V s = files_of V s0) (\<lambda>_ _. True)"
      by (rule f_spec_conseq [OF f_spec_conj [OF settlesD [OF settles_start(3)] f_spec_conj [OF settlesD [OF settles_persist(3)]
          settlesD [OF settles_persist(4)]]]]) auto
    from this show "f_spec (\<lambda>s. s = s0) (device_finished V d slug st) (\<lambda>_ s. db s = D \<and> asked T res (seen s) \<and> checked D d ?tn res st s) (\<lambda>_ _. True)"
      by (rule f_spec_conseq) (use s0 in simp, use s0 checked_kept in metis, simp)
  qed
  have saved: "f_spec (\<lambda>s. db s = D \<and> asked T res (seen s) \<and> checked D d ?tn res st s) (persist_with_retry V i d st)
      (\<lambda>_ s. stored db st d D s \<and> asked T res (seen s) \<and> checked D d ?tn res st s) (\<lambda>_ _. True)" for res st
  proof (rule f_spec_at)
    fix s0 assume s0: "db s0 = D \<and> asked T res (seen s0) \<and> checked D d ?tn res st s0"
    have "f_spec (\<lambda>s. db s = D \<and> seen s = seen s0 \<and> files_of V s = files_of V s0) (persist_with_retry V i d st)
        (\<lambda>_ s. stored db st d D s \<and> seen s = seen s0 \<and> files_of V s = files_of V s0) (\<lambda>_ _. True)"
      by (rule f_spec_conseq [OF f_spec_conj [OF retry_spec [OF assms] f_spec_conj [OF settlesD [OF settles_persist(1)]
          settlesD [OF settles_persist(2)]]]]) auto
    from this show "f_spec (\<lambda>s. s = s0) (persist_with_retry V i d st) (\<lambda>_ s. stored db st d D s \<and> asked T res (seen s) \<and> checked D d ?tn res st s) (\<lambda>_ _. True)"
      by (rule f_spec_conseq) (use s0 in simp, use s0 checked_kept in metis, simp)
  qed
  have last: "\<exists>st'. (rs_ok st, rs_message st) = (rs_ok st', rs_message st') \<and> proven D d T st' s"
    if "stored db st d D s \<and> asked T res (seen s) \<and> checked D d ?tn res st s" for st res s
    using that by (intro exI [of _ st]) (auto simp: proven_def checked_def asked_def)
  show ?thesis
    unfolding device_run_def
  proof (rule f_spec_seq [OF both [OF settles_start(1) settles_seen_start(1)]], rule f_spec_bind [OF query], rule f_spec_known, goal_cases)
    case (1 dd)
    have row: "find (\<lambda>x. d_id x = i) (tb_devices dd) = Some d" "db_tenants dd = db_tenants D" using assms 1 by simp_all
    show ?case
      unfolding row option.case Let_def
      by (rule f_spec_bind [OF read], rule f_spec_bind [OF executed], rule f_spec_bind [OF read], rule f_spec_bind [OF judged],
          rule f_spec_seq [OF finished], rule f_spec_seq [OF saved], rule f_spec_ret, erule last)
  qed
qed

end

section \<open>A worker with a database of one device\<close>

text \<open>The worker of \<open>BackupTask\<close> with, beside its world, tables, the cache of scripts, a clock and the list of the scripts' answers. The script of the device
  leaves an archive and says so. With \<open>lossy\<close>, the connection is lost after the first commit has been applied.\<close>

type_synonym desk = "hworld \<times> device_db \<times> unit script_cache \<times> int \<times> (fault + script_answer) list"

definition desk_db :: "desk \<Rightarrow> device_db" where
  "desk_db w = fst (snd w)"

definition desk_seen :: "desk \<Rightarrow> (fault + script_answer) list" where
  "desk_seen w = snd (snd (snd (snd w)))"

definition desk_answer :: script_answer where
  "desk_answer = Answer [PBool True, PStr [], PStr ''a.zip'']"

definition idle_vpn :: "desk vpn_host" where
  "idle_vpn =
     \<lparr>vh_env = \<lambda>_. None, vh_cfg = \<lparr>vc_settle = 8, vc_lock_timeout = 3600, vc_recheck = 60\<rparr>, vh_has_nmcli = \<lambda>_. True,
      vh_nmcli = \<lambda>_ _ w. (Inr \<lparr>nm_code = 0, nm_stdout = ''running'', nm_stderr = []\<rparr>, w),
      vh_time = \<lambda>(_, _, _, n, _). n, vh_sleep = \<lambda>ms (w, d, c, n, tr). (w, d, c, n + ms, tr),
      vh_decrypt = Inr, vh_levels = [''info'', ''warning'', ''error''], vh_log = \<lambda>_ _ w. w,
      vh_unavailable = \<lambda>_. (0, []), vh_set_unavailable = \<lambda>_ w. w, vh_open_lock = \<lambda>w. (Inr ''lock'', w),
      vh_flock = \<lambda>_ w. (Inr True, w), vh_write_pid = \<lambda>_ w. (Inr (), w), vh_unlock = \<lambda>_ w. (Inr (), w),
      vh_close = \<lambda>_ w. (Inr (), w)\<rparr>"

definition desk_commit :: "bool \<Rightarrow> (device_db \<Rightarrow> device_db) \<Rightarrow> (desk, unit) op" where
  "desk_commit lossy f w =
     (case w of (h, d, c, n) \<Rightarrow>
        (if lossy \<and> tb_backups d = [] then Inl (OtherFault ''server closed the connection unexpectedly'') else Inr (), (h, f d, c, n)))"

definition desk_env :: "bool \<Rightarrow> (desk, unit) device_env" where
  "desk_env lossy =
     \<lparr>xe_machine = (aside_machine (sample_machine (\<lambda>_. None)))\<lparr>m_now := \<lambda>_. 0\<rparr>, xe_vpn = idle_vpn, xe_mtime = \<lambda>_ _. Some 0, xe_import = \<lambda>_ w. (Inr (), w),
      xe_cache = \<lambda>(_, _, c, _). c, xe_set_cache = \<lambda>c (h, d, _, n). (h, d, c, n), xe_entry = \<lambda>_. Some None,
      xe_run = \<lambda>_ _ _ (h, d, c, n, tr). (Inr desk_answer, (h, d, c, n, tr @ [Inr desk_answer])), xe_base = ''/b'', xe_makedirs = \<lambda>_ w. (Inr (), w),
      xe_files = \<lambda>_ w. (Inr [], w), xe_decrypt = Inr, xe_probe = \<lambda>_ port _ _ w. (Inr \<lparr>pc_ping_ok = True, pc_tcp_ok = True,
        pc_ping_method = ''icmp'', pc_tcp_method = ''socket'', pc_tcp_port = port, pc_rtt = ''1''\<rparr>, w), xe_int_error = \<lambda>_. [],
      dv_ensure = \<lambda>w. (Inr (), w), dv_query = \<lambda>w. (Inr (desk_db w), w), dv_commit = desk_commit lossy,
      dv_new_id = \<lambda>w. show_nat (length (tb_backups (desk_db w))), dv_exists = \<lambda>_ _. True, dv_size = \<lambda>_ w. (Inr 200, w), dv_sha256 = \<lambda>_ w. (Inr ''00'', w),
      dv_remove = \<lambda>_ w. (Inr (), w), dv_zip = \<lambda>_ _. Inr [(False, 200)], dv_text = \<lambda>_ _. Inl [], dv_invalidated = \<lambda>_. False\<rparr>"

definition desk_device :: device where
  "desk_device = blank_device\<lparr>d_id := ''d1'', d_type := Some (blank_type\<lparr>dt_name := ''Huawei'', dt_script_name := ''huawei.py''\<rparr>)\<rparr>"

definition no_scripts :: "unit script_cache" where
  "no_scripts = \<lparr>sc_modules = \<lambda>_. None, sc_mtimes = \<lambda>_. None, sc_errors = \<lambda>_. None\<rparr>"

definition desk_tables :: device_db where
  "desk_tables = \<lparr>tb_devices = [desk_device], tb_users = [], tb_backups = [], tb_metrics = [], db_tenants = [], db_notes = [], db_details = []\<rparr>"

definition desk_start :: desk where
  "desk_start = (empty_hworld, desk_tables, no_scripts, 0, [])"

lemma aside_kept: "io_within (\<lambda>s s'. desk_db s' = desk_db s) (aside (m :: (hworld, 'a) io))"
  by (auto simp: io_within_def aside_def desk_db_def split: prod.split)

lemma desk_parts [simp]:
  "xe_machine (exec_part (desk_env b)) = (aside_machine (sample_machine (\<lambda>_. None)))\<lparr>m_now := \<lambda>_. 0\<rparr>" "xe_vpn (exec_part (desk_env b)) = idle_vpn"
  by (simp_all add: exec_env.defs desk_env_def)

interpretation desk_order: machine_order "\<lambda>s s'. desk_db s' = desk_db s" "aside_redis host_redis" "aside_emit host_emit" "\<lambda>_. True"
  "xe_machine (exec_part (desk_env b))" for b
  by unfold_locales (simp_all add: aside_machine_def sample_machine_def aside_redis_def aside_kept, simp_all add: aside_emit_def desk_db_def)

interpretation desk: device_host desk_db "aside_redis host_redis" "aside_emit host_emit" "desk_env False" 4000
  by unfold_locales (auto simp: idle_vpn_def desk_env_def exec_env.defs desk_db_def desk_commit_def lock_seconds_def)

lemma aside_files: "files_of (desk_env b) s = files_of (desk_env b) s'"
  by (simp add: files_of_def desk_env_def)

lemma aside_seen: "io_within (\<lambda>s s'. desk_seen s' = desk_seen s) (aside (m :: (hworld, 'a) io))"
  by (auto simp: io_within_def aside_def desk_seen_def split: prod.split)

interpretation desk_watch: machine_order "\<lambda>s s'. desk_seen s' = desk_seen s" "aside_redis host_redis" "aside_emit host_emit" "\<lambda>_. True"
  "xe_machine (exec_part (desk_env b))" for b
  by unfold_locales (simp_all add: aside_machine_def sample_machine_def aside_redis_def aside_seen, simp_all add: aside_emit_def desk_seen_def)

interpretation desk_evidence: evident_host desk_db "aside_redis host_redis" "aside_emit host_emit" "desk_env False" 4000 desk_seen
  by unfold_locales (auto simp: idle_vpn_def desk_env_def exec_env.defs desk_db_def desk_seen_def desk_commit_def lock_seconds_def files_of_def io_within_def
      aside_machine_def sample_machine_def)

text \<open>A call that ends with a value or an exception, whatever the log holds.\<close>

definition ends :: "'b \<Rightarrow> ('a \<times> 'b, 'c) fio \<Rightarrow> fault + 'c \<Rightarrow> 'b \<Rightarrow> bool" where
  "ends w m r w' \<longleftrightarrow> (\<forall>h. \<exists>h'. m (h, w) = (Some r, (h', w')))"

lemma ends_value: "ends w (f_ret a) (Inr a) w"
  by (simp add: ends_def)

lemma ends_io: "ends w m r w1 \<Longrightarrow> ends w1 (f r) r' w' \<Longrightarrow> ends w (io_bind m f) r' w'"
  unfolding ends_def
proof
  fix h assume "\<forall>h. \<exists>h'. m (h, w) = (Some r, h', w1)" "\<forall>h. \<exists>h'. f r (h, w1) = (Some r', h', w')"
  then obtain h1 h2 where "m (h, w) = (Some r, h1, w1)" "f r (h1, w1) = (Some r', h2, w')" by blast
  then show "\<exists>h'. io_bind m f (h, w) = (Some r', h', w')" by (simp add: io_bind_def)
qed

lemma ends_io_ret: "ends w (io_ret r) r w"
  by (simp add: ends_def io_ret_def)

lemma ends_pair: "ends w (Pair (Some r)) r w"
  by (simp add: ends_def)

lemma ends_bind: "ends w m (Inr a) w1 \<Longrightarrow> ends w1 (f a) r w' \<Longrightarrow> ends w (f_bind m f) r w'"
  unfolding f_bind_def by (erule ends_io) simp

lemma ends_bind_raise: "ends w m (Inl e) w' \<Longrightarrow> ends w (f_bind m f) (Inl e) w'"
  unfolding f_bind_def by (erule ends_io) (simp add: ends_io_ret)

lemma ends_catch: "ends w m (Inr a) w' \<Longrightarrow> ends w (f_catch m h) (Inr a) w'"
  unfolding f_catch_def by (erule ends_io) (simp add: ends_value ends_pair)

lemma ends_handle: "ends w m (Inl e) w1 \<Longrightarrow> ends w1 (h e) r w' \<Longrightarrow> ends w (f_catch m h) r w'"
  unfolding f_catch_def by (erule ends_io) simp

lemma ends_seq: "ends w m (Inr ()) w1 \<Longrightarrow> ends w1 n r w' \<Longrightarrow> ends w (f_seq m n) r w'"
  unfolding f_seq_def by (rule ends_bind [where f = "\<lambda>_. n"])

lemma no_log: "exec_log X None d lvl msg = f_ret ()"
  by (simp add: exec_log_def or_empty_def)

lemma ends_tell: "ends w (exec_tell (exec_part (desk_env b)) t) (Inr ()) w"
  unfolding ends_def
proof
  fix h
  show "\<exists>h'. exec_tell (exec_part (desk_env b)) t (h, w) = (Some (Inr ()), h', w)"
    by (rule exI [of _ "m_emit (sample_machine (\<lambda>_. None)) t h"])
      (simp add: exec_tell_def f_lift_def tell_m_def tell_def aside_machine_def aside_emit_def io_try_def io_bind_def io_ret_def)
qed

lemma desk_ops:
  "ends w (f_call (xe_import (exec_part (desk_env b)) name)) (Inr ()) w"
  "ends w (f_call (xe_makedirs (exec_part (desk_env b)) p)) (Inr ()) w"
  "ends (D, c, n, tr) (f_call (xe_run (exec_part (desk_env b)) m kw j)) (Inr desk_answer) (D, c, n, tr @ [Inr desk_answer])"
  "ends w (f_call (xe_probe (exec_part (desk_env b)) ip port k j)) (Inr \<lparr>pc_ping_ok = True, pc_tcp_ok = True,
        pc_ping_method = ''icmp'', pc_tcp_method = ''socket'', pc_tcp_port = port, pc_rtt = ''1''\<rparr>) w"
  "ends (D, c, r) (f_read (xe_cache (exec_part (desk_env b)))) (Inr c) (D, c, r)"
  "ends (D, c, r) (f_read (\<lambda>s. (xe_mtime (exec_part (desk_env b)) name s, xe_cache (exec_part (desk_env b)) s))) (Inr (Some 0, c)) (D, c, r)"
  "ends (D, c, r) (f_write (xe_set_cache (exec_part (desk_env b)) c')) (Inr ()) (D, c', r)"
  by (simp_all add: ends_def desk_env_def exec_env.defs f_call_def f_read_def f_write_def)

lemma desk_load:
  "ends (D, no_scripts, n) (load_script (exec_part (desk_env b)) name) (Inr (Some ())) (D, keep_script name 0 () no_scripts, n)"
proof -
  have "ends (D, no_scripts, n) (f_catch (f_bind (f_call (xe_import (exec_part (desk_env b)) name)) (\<lambda>m.
         f_bind (f_read (xe_cache (exec_part (desk_env b)))) (\<lambda>c.
         f_seq (f_write (xe_set_cache (exec_part (desk_env b)) (keep_script name 0 m c))) (f_ret (Some m))))) g)
       (Inr (Some ())) (D, keep_script name 0 () no_scripts, n)" for g
    by (intro ends_catch ends_bind [OF desk_ops(1)] ends_bind [OF desk_ops(5)] ends_seq [OF desk_ops(7)] ends_value)
  then show ?thesis
    unfolding load_script_def by (intro ends_bind [OF desk_ops(6)]) (simp add: no_scripts_def [symmetric], simp add: no_scripts_def)
qed

lemma desk_check: "ends w (network_check (exec_part (desk_env b)) None desk_device ty labels PNone) (Inr (Inr None)) w"
proof -
  let ?X = "exec_part (desk_env b)"
  have env: "truthy_env (\<lambda>_. None) ''BACKUP_NETWORK_PRECHECK_ENABLED'' ''1''" "m_env (xe_machine ?X) = (\<lambda>_. None)"
    by (code_simp, simp add: aside_machine_def sample_machine_def)
  have time: "ends w (probe_timeout ?X (\<lambda>_. None)) (Inr 3) w"
  proof -
    have "val_int (py_or (PStr ''3'') (PInt 3)) = Some 3" by code_simp
    then show ?thesis by (simp add: probe_timeout_def f_int_def ends_value ends_pair)
  qed
  have probe: "ends w (probe_device ?X None desk_device ty labels 3 PNone) (Inr (\<lparr>pc_ping_ok = True, pc_tcp_ok = True,
        pc_ping_method = ''icmp'', pc_tcp_method = ''socket'', pc_tcp_port = default_port desk_device, pc_rtt = ''1''\<rparr>, None)) w"
    unfolding probe_device_def by (intro ends_bind [OF desk_ops(4)]) (simp add: ends_value ends_pair)
  have judged: "ends w (judge_probe ?X (\<lambda>_. None) None desk_device labels PNone \<lparr>pc_ping_ok = True, pc_tcp_ok = True,
        pc_ping_method = ''icmp'', pc_tcp_method = ''socket'', pc_tcp_port = p, pc_rtt = ''1''\<rparr> None) (Inr (Inr None)) w" for p
    unfolding judge_probe_def Let_def count_precheck_def
    by (simp add: no_log, intro ends_seq [OF ends_tell] ends_value)
  show ?thesis
    unfolding network_check_def Let_def env(2)
    by (rule ends_bind [OF time], simp add: env(1), rule ends_bind [OF probe], simp add: judged)
qed

lemma desk_run:
  assumes "dget kwargs ''jump_host'' = PNone"
  shows "ends (D, c, n, tr) (run_script (exec_part (desk_env b)) None desk_device ty m None dir kwargs labels)
    (Inr ((True, ''Backup realizado com sucesso'', Some ''a.zip''), True)) (D, c, n, tr @ [Inr desk_answer])"
proof -
  have locate: "ends w (locate_file (exec_part (desk_env b)) None desk_device dir [] (Some ''a.zip''))
      (Inr (True, ''Backup realizado com sucesso'', Some ''a.zip'')) w" for w
    by (simp add: locate_file_def no_log str_or_def ends_value ends_pair)
  have answer: "read_answer desk_answer = (True, [], Some ''a.zip'')"
    by (simp add: read_answer_def desk_answer_def)
  show ?thesis
    unfolding run_script_def Let_def assms
    by (rule ends_bind [OF desk_check]) (simp add: filter_script_kwargs_def, rule ends_bind [OF desk_ops(3)],
      simp add: answer, rule ends_bind [OF ends_catch [OF locate]], simp add: ends_value ends_pair)
qed

lemma desk_script:
  assumes "dget kwargs ''jump_host'' = PNone"
  shows "ends (D, c, n, tr) (execute_script (exec_part (desk_env b)) None desk_device ty slug grp m None dir kwargs)
    (Inr (True, ''Backup realizado com sucesso'', Some ''a.zip'')) (D, c, n, tr @ [Inr desk_answer])"
proof -
  have finished: "ends w (script_finished (exec_part (desk_env b)) desk_device ty slug grp label labels ok) (Inr ()) w" for w label labels ok
    unfolding script_finished_def Let_def by (intro ends_seq [OF ends_tell] ends_tell)
  have label: "ends w (jump_label (exec_part (desk_env b)) PNone) (Inr ''direct'') w" for w
    by (simp add: jump_label_def ends_value ends_pair)
  show ?thesis
    unfolding execute_script_def Let_def assms no_log f_laws
    by (rule ends_bind [OF label], rule ends_bind [OF ends_catch [OF desk_run [OF assms]]])
      (simp only: prod.case, rule ends_seq [OF finished], rule ends_value)
qed

lemma desk_execute:
  "ends (D, no_scripts, n, tr) (execute_backup 4000 (exec_part (desk_env b)) desk_device (d_type desk_device) (d_group desk_device) slug True None)
     (Inr (True, ''Backup realizado com sucesso'', Some ''a.zip'')) (D, keep_script ''huawei.py'' 0 () no_scripts, n, tr @ [Inr desk_answer])"
proof -
  have facts: "d_type desk_device = Some (blank_type\<lparr>dt_name := ''Huawei'', dt_script_name := ''huawei.py''\<rparr>)" "d_group desk_device = None"
    "\<And>ty. \<not> jump_skipped env None desk_device ty" for env
    by (simp_all add: desk_device_def blank_device_def jump_skipped_def jump_wanted_def)
  have X: "xe_entry (exec_part (desk_env b)) m = Some None" "xe_decrypt (exec_part (desk_env b)) = Inr" for m
    by (simp_all add: desk_env_def exec_env.defs)
  have kwargs: "dget (script_kwargs desk_device ty grp dir pw None) ''jump_host'' = PNone" for ty grp dir pw
    by (simp add: script_kwargs_def desk_device_def blank_device_def flag_def dupdate_def dget_def as_dict_def)
  have path: "ends w (get_backup_path (exec_part (desk_env b)) slug grp name) (Inr (backup_path (xe_base (exec_part (desk_env b))) slug grp name)) w" for w grp name
    unfolding get_backup_path_def Let_def by (intro ends_seq [OF desk_ops(2)] ends_value)
  show ?thesis
    unfolding execute_backup_def with_script_def facts(1,2) Let_def
    by simp (rule ends_bind [OF desk_load], simp add: X, rule ends_bind [OF path], simp add: X facts in_vpn_def desk_script [OF kwargs])
qed

definition desk_result :: run_state where
  "desk_result = \<lparr>rs_ok = True, rs_message = ''Backup realizado com sucesso'', rs_path = Some ''a.zip'', rs_size = Some 200, rs_hash = Some ''00'',
     rs_integrity = Some (validate_backup_integrity (\<lambda>_. Inr [(False, 200)]) (\<lambda>_. Inl []) (Some ''a.zip'') (type_name desk_device) (type_script desk_device)),
     rs_category = None, rs_started = 0, rs_completed = 0\<rparr>"

lemma desk_judge:
  "ends w (judge_run (desk_env b) None desk_device None 0 0 (True, ''Backup realizado com sucesso'', Some ''a.zip'')) (Inr desk_result) w"
proof -
  have measured: "ends w (measure_file (desk_env b) (Some ''a.zip'')) (Inr (Some 200, Some ''00'')) w"
    by (simp add: ends_def measure_file_def desk_env_def f_bind_def io_bind_def f_read_def f_call_def or_empty_def)
  have ok: "result_ok (validate_backup_integrity (\<lambda>_. Inr [(False, 200)]) (\<lambda>_. Inl []) (Some ''a.zip'') (type_name desk_device) (type_script desk_device))"
    by code_simp
  let ?st = "\<lparr>rs_ok = True, rs_message = ''Backup realizado com sucesso'', rs_path = Some ''a.zip'', rs_size = Some 200, rs_hash = Some ''00'',
     rs_integrity = None, rs_category = None, rs_started = 0, rs_completed = 0\<rparr>"
  have sound: "ends w (check_integrity (desk_env b) desk_device ?st) (Inr desk_result) w"
    using ok by (simp add: ends_def check_integrity_def desk_env_def f_bind_def io_bind_def f_read_def desk_result_def)
  have rest: "check_quota (desk_env b) None desk_result = f_ret desk_result" "classify_run desk_result = desk_result"
    by (simp_all add: check_quota_def classify_run_def desk_result_def)
  show ?thesis
    unfolding judge_run_def Let_def prod.case
    by (rule ends_bind [OF measured]) (simp add: no_log, rule ends_bind [OF sound], simp add: rest no_log ends_value ends_pair)
qed

lemma desk_persist:
  assumes "find (\<lambda>x. d_id x = i) (tb_devices D) = Some row" "rs_ok st"
  shows "ends (D, c, n) (persist_result (desk_env lossy) i d loaded st)
      (if lossy \<and> tb_backups D = [] then Inl (OtherFault ''server closed the connection unexpectedly'') else Inr ())
      (store_result st d (case loaded of None \<Rightarrow> row | Some x \<Rightarrow> x) (show_nat (length (tb_backups D))) 0 D, c, n)"
  using assms
  by (simp add: ends_def persist_result_def notify_failure_def desk_env_def f_bind_def f_seq_def io_bind_def f_read_def f_call_def io_ret_def
      desk_db_def desk_commit_def Let_def)

text \<open>With the connection lost after the first commit, the run leaves its row twice.\<close>

lemma desk_saved:
  "\<exists>D. ends (desk_tables, c, n) (persist_with_retry (desk_env lossy) ''d1'' desk_device desk_result) (Inr ()) (D, c, n) \<and>
     map b_device_id (tb_backups D) = replicate (if lossy then 2 else 1) ''d1''"
proof -
  let ?D = "store_result desk_result desk_device desk_device ''0'' 0 desk_tables"
  have found: "find (\<lambda>x. d_id x = ''d1'') (tb_devices desk_tables) = Some desk_device" "tb_backups desk_tables = []" "d_id desk_device = ''d1''"
    by (simp_all add: desk_tables_def desk_device_def)
  have ok: "rs_ok desk_result" "show_nat 0 = ''0''" by (simp add: desk_result_def, code_simp)
  obtain row where row: "find (\<lambda>x. d_id x = ''d1'') (tb_devices ?D) = Some row" "d_id row = ''d1''"
    by (simp add: store_result_def Let_def desk_tables_def desk_device_def device_after_def)
  have ids: "map b_device_id (tb_backups ?D) = [''d1'']" "tb_backups ?D \<noteq> []"
    using found by (simp_all add: store_result_def Let_def backup_row_def)
  note first = desk_persist [OF found(1) ok(1), of c n lossy desk_device "Some desk_device", unfolded found(2) list.size ok(2) option.case]
  note second = desk_persist [OF row(1) ok(1), of c n lossy desk_device None, unfolded option.case]
  show ?thesis
  proof (cases lossy)
    case False
    with first have "ends (desk_tables, c, n) (persist_with_retry (desk_env lossy) ''d1'' desk_device desk_result) (Inr ()) (?D, c, n)"
      unfolding persist_with_retry_def by (intro ends_catch) simp
    with ids False show ?thesis by (intro exI [of _ ?D]) simp
  next
    case True
    have "py_in ''server closed the connection unexpectedly'' (py_lower ''server closed the connection unexpectedly'')" by code_simp
    then have drop: "is_connection_drop (desk_env lossy) (OtherFault ''server closed the connection unexpectedly'')"
      by (simp only: is_connection_drop_def fault_text_def fault.case Let_def simp_thms)
    let ?E = "store_result desk_result desk_device row (show_nat (length (tb_backups ?D))) 0 ?D"
    from first second True ids(2) drop have "ends (desk_tables, c, n) (persist_with_retry (desk_env lossy) ''d1'' desk_device desk_result) (Inr ()) (?E, c, n)"
      unfolding persist_with_retry_def by (intro ends_handle [where e = "OtherFault ''server closed the connection unexpectedly''"]) simp_all
    moreover have "map b_device_id (tb_backups ?E) = [''d1'', ''d1'']"
      using ids(1) row(2) by (simp add: store_result_def [of _ _ row] Let_def backup_row_def)
    ultimately show ?thesis using True by (intro exI [of _ ?E]) (simp add: numeral_2_eq_2)
  qed
qed

lemma desk_run_device:
  "\<exists>s'. run_backup_for_device_id 4000 (desk_env lossy) ''d1'' True None desk_start = (Some (True, ''Backup realizado com sucesso''), s') \<and>
     map b_device_id (tb_backups (desk_db s')) = replicate (if lossy then 2 else 1) ''d1'' \<and> desk_seen s' = [Inr desk_answer]"
proof -
  let ?c = "keep_script ''huawei.py'' 0 () no_scripts"
  obtain D where D: "ends (desk_tables, ?c, 0, [Inr desk_answer]) (persist_with_retry (desk_env lossy) ''d1'' desk_device desk_result) (Inr ()) (D, ?c, 0, [Inr desk_answer])"
    "map b_device_id (tb_backups D) = replicate (if lossy then 2 else 1) ''d1''"
    using desk_saved [of ?c "(0, [Inr desk_answer])" lossy] by blast
  have start: "ends w (f_call (dv_ensure (desk_env lossy))) (Inr ()) w" "ends (D, c, n) (f_call (dv_query (desk_env lossy))) (Inr D) (D, c, n)"
    "ends w (f_read (m_now (xe_machine (desk_env lossy)))) (Inr 0) w" for w D c n
    by (simp_all add: ends_def desk_env_def desk_db_def f_call_def f_read_def)
  have found: "find (\<lambda>x. d_id x = ''d1'') (tb_devices desk_tables) = Some desk_device" "db_tenants desk_tables = []"
    by (simp_all add: desk_tables_def desk_device_def)
  have finished: "ends w (device_finished (desk_env lossy) desk_device slug st) (Inr ()) w" for w slug st
    unfolding device_finished_def by (rule ends_tell)
  have "ends (desk_tables, no_scripts, 0, []) (device_run 4000 (desk_env lossy) ''d1'' True None) (Inr (rs_ok desk_result, rs_message desk_result)) (D, ?c, 0, [Inr desk_answer])"
    unfolding device_run_def Let_def
    by (rule ends_seq [OF start(1)], rule ends_bind [OF start(2)], simp only: found find.simps option.case)
      (rule ends_bind [OF start(3)], rule ends_bind [OF desk_execute [where tr = "[]", unfolded append_Nil]], rule ends_bind [OF start(3)], rule ends_bind [OF desk_judge],
       rule ends_seq [OF finished], rule ends_seq [OF D(1)], rule ends_value)
  then obtain h where "device_run 4000 (desk_env lossy) ''d1'' True None desk_start
      = (Some (Inr (True, ''Backup realizado com sucesso'')), h, D, ?c, 0, [Inr desk_answer])"
    unfolding ends_def desk_start_def desk_result_def run_state.simps by blast
  then show ?thesis
    using D(2) by (simp add: run_backup_for_device_id_def io_bind_def io_ret_def desk_db_def desk_seen_def)
qed

lemma desk_found: "find (\<lambda>x. d_id x = ''d1'') (tb_devices (desk_db desk_start)) = Some desk_device"
  "tb_backups (desk_db desk_start) = []"
  by (simp_all add: desk_start_def desk_db_def desk_tables_def desk_device_def)

section \<open>Properties of a run\<close>

text \<open>C18: A run of the backup of a device that exists always answers. Where the database applies a commit or refuses it as a whole, either
  the answer is a failure and no table has changed (an exception reached the top), or the run has left exactly one row for the
  device: a success without error message if the answer is a success, and a failure with the message of the answer, which
  is not empty, if it is a failure; the last status of the device agrees, and every other device is as it was.\<close>

theorem run_leaves_one_row:
  assumes "device_host db R emit V fuel" "find (\<lambda>x. d_id x = i) (tb_devices (db s)) = Some d"
  shows "\<exists>ok msg s'. run_backup_for_device_id fuel V i manage task s = (Some (ok, msg), s') \<and>
    (\<not> ok \<and> db s' = db s \<or>
     (\<exists>b. tb_backups (db s') = tb_backups (db s) @ [b] \<and> b_device_id b = i \<and> b_status b = (if ok then SUCCESS else FAILED) \<and>
        b_error_message b = (if ok then None else Some msg)) \<and> (ok \<or> msg \<noteq> []) \<and>
     map d_id (tb_devices (db s')) = map d_id (tb_devices (db s)) \<and>
     (\<forall>x \<in> set (tb_devices (db s')). if d_id x = i then d_last_backup_status x = Some (if ok then ''success'' else ''failure'')
        else x \<in> set (tb_devices (db s))))"
using assms
proof (cases rule: run_cases [where manage = manage and task = task])
  case (row st s')
  note rows = stored_run_rows [OF row(3) assms(2)]
  have "rs_ok st \<or> rs_message st \<noteq> []" using row(2) unfolding sound_run_def by blast
  moreover have "\<exists>b. tb_backups (db s') = tb_backups (db s) @ [b] \<and> b_device_id b = i \<and> b_status b = (if rs_ok st then SUCCESS else FAILED) \<and>
      b_error_message b = (if rs_ok st then None else Some (rs_message st))"
    using rows(1) by blast
  ultimately show ?thesis
    by (intro exI [of _ "rs_ok st"] exI [of _ "rs_message st"] exI [of _ s'] conjI row(1))
      (rule disjI2, intro conjI ballI, assumption+, rule rows(2), erule rows(3))
next
  case (raised e s')
  then show ?thesis by (intro exI [of _ False] exI [of _ "fault_text e"] exI [of _ s']) simp
qed

theorem run_leaves_one_row_witness:
  "\<exists>b s'. run_backup_for_device_id 4000 (desk_env False) ''d1'' True None desk_start = (Some (True, ''Backup realizado com sucesso''), s') \<and>
     tb_backups (desk_db s') = [b] \<and> b_device_id b = ''d1'' \<and> b_status b = SUCCESS \<and> b_error_message b = None"
  using run_leaves_one_row [OF desk.device_host_axioms desk_found(1), of True None] desk_run_device [of False] desk_found(2)
  by (elim exE conjE disjE) auto

text \<open>C19: A success has evidence. When the run of a device answers with success, it has called exactly one script, this script has
  answered it with success, and the new row points to the file the answer named, if it named one (and to the newest file of the
  directory of the device if it did not); this file, as it is at the end of the run, passes the check of integrity for the type of
  the device; and its size fits, with what the tables held, into the storage of the plan of the device's tenant. (The list \<open>seen\<close>
  of the world holds the answers of the scripts; nothing but a script's call changes it. Neither the database nor the log
  writes the files of the backups.)\<close>

theorem success_has_evidence:
  assumes "evident_host db R emit V fuel seen" "find (\<lambda>x. d_id x = i) (tb_devices (db s)) = Some d"
    and "run_backup_for_device_id fuel V i manage task s = (Some (True, msg), s')"
  shows "\<exists>b a. tb_backups (db s') = tb_backups (db s) @ [b] \<and> b_device_id b = i \<and> b_status b = SUCCESS \<and>
    seen s' = seen s @ [Inr a] \<and> fst (read_answer a) \<and> (\<forall>p. snd (snd (read_answer a)) = Some p \<longrightarrow> b_file_path b = Some p) \<and>
    result_ok (validate_backup_integrity (dv_zip V s') (dv_text V s') (b_file_path b) (type_name d) (type_script d)) \<and>
    (\<forall>t n. find (\<lambda>t. t_id t = d_tenant_id d) (db_tenants (db s)) = Some t \<and> b_file_size_bytes b = Some n \<longrightarrow>
       lc_allowed (check_storage_before_backup (tables.truncate (db s)) t n))"
proof -
  have "db s = db s \<and> seen s = seen s" by simp
  with evident_host.run_proven [OF assms(1,2), of "seen s" manage task]
  obtain st where st: "rs_ok st" "evident_host.proven db V seen (db s) d (seen s) st s'"
  proof (cases rule: f_specE)
    case (returned a s1)
    then obtain st where "a = (rs_ok st, rs_message st)" "evident_host.proven db V seen (db s) d (seen s) st s1" by blast
    with returned(1) assms(3) show thesis
      by (intro that [of st]) (simp_all add: run_backup_for_device_id_def io_bind_def io_ret_def)
  next
    case (raised e s1)
    with assms(3) show thesis by (simp add: run_backup_for_device_id_def io_bind_def io_ret_def)
  qed
  note proof_of = st(2) [unfolded evident_host.proven_def [OF assms(1)]]
  from proof_of st(1) obtain a where a: "seen s' = seen s @ [Inr a]" "fst (read_answer a)"
    "\<forall>p. snd (snd (read_answer a)) = Some p \<longrightarrow> rs_path st = Some p" by blast
  from stored_run_rows(1) [OF conjunct1 [OF proof_of] assms(2)] st(1) obtain b where b: "tb_backups (db s') = tb_backups (db s) @ [b]"
    "b_device_id b = i" "b_status b = SUCCESS" "b_file_path b = rs_path st" "b_file_size_bytes b = rs_size st" by auto
  from proof_of st(1) a b show ?thesis
    by (intro exI [of _ b] exI [of _ a] conjI) (simp_all add: sound_file_def)
qed

theorem success_has_evidence_witness:
  "\<exists>b a s'. run_backup_for_device_id 4000 (desk_env False) ''d1'' True None desk_start = (Some (True, ''Backup realizado com sucesso''), s') \<and>
     tb_backups (desk_db s') = [b] \<and> desk_seen s' = [Inr a] \<and> fst (read_answer a) \<and>
     result_ok (validate_backup_integrity (dv_zip (desk_env False) s') (dv_text (desk_env False) s') (b_file_path b)
       (type_name desk_device) (type_script desk_device))"
proof -
  obtain s' where s': "run_backup_for_device_id 4000 (desk_env False) ''d1'' True None desk_start = (Some (True, ''Backup realizado com sucesso''), s')"
    using desk_run_device [of False] by blast
  have "desk_seen desk_start = []" by (simp add: desk_seen_def desk_start_def)
  with success_has_evidence [OF desk_evidence.evident_host_axioms desk_found(1) s'] s' show ?thesis
    unfolding desk_found(2) by (elim exE conjE) (intro exI conjI; assumption?; simp)
qed

text \<open>A commit that the server has applied before the connection is lost is done again: the run leaves two rows.\<close>

theorem lost_answer_doubles_row:
  "\<exists>s'. run_backup_for_device_id 4000 (desk_env True) ''d1'' True None desk_start = (Some (True, ''Backup realizado com sucesso''), s') \<and>
     map b_device_id (tb_backups (desk_db s')) = [''d1'', ''d1'']"
proof -
  obtain s' where s': "run_backup_for_device_id 4000 (desk_env True) ''d1'' True None desk_start = (Some (True, ''Backup realizado com sucesso''), s')"
    "map b_device_id (tb_backups (desk_db s')) = replicate 2 ''d1''"
    using desk_run_device [of True] unfolding if_True by (elim exE conjE)
  then show ?thesis by (intro exI [of _ s'] conjI) (assumption, simp add: numeral_2_eq_2)
qed

end
