(* ===== verification/ExecutorCalls.thy ===== *)
theory ExecutorCalls
  imports ExecutorSafety
begin

text \<open>
  The parts of the execution of a device backup, one by one: the directory of a device stays below the base, the cache of
  scripts follows the files (locale \<open>script_loader\<close>), the entries of a device tell the end of its last backup and nothing else,
  and no script is called for a device that cannot be reached or whose credentials cannot be read.
\<close>

section \<open>The directory of a device\<close>

lemma set_py_strip: "set (py_strip s) \<subseteq> set s"
  by (auto simp: py_strip_def py_rstrip_def py_lstrip_def dest!: set_dropWhileD)

lemma sanitize_chars: "c \<in> set (sanitize_name name) \<Longrightarrow> is_alnum c \<or> c \<in> {CHR ''_'', CHR ''-''}"
proof (cases "name = []")
  case True
  have "list_all is_alnum ''unnamed''" by code_simp
  then show "c \<in> set (sanitize_name name) \<Longrightarrow> is_alnum c \<or> c \<in> {CHR ''_'', CHR ''-''}"
    using True by (auto simp: sanitize_name_def)
next
  case False
  then show "c \<in> set (sanitize_name name) \<Longrightarrow> is_alnum c \<or> c \<in> {CHR ''_'', CHR ''-''}"
    using set_py_strip by (fastforce simp: sanitize_name_def split: if_splits)
qed

lemma no_dot: "\<not> is_alnum CHR ''.''" "\<not> is_alnum CHR ''/''"
  by code_simp+

definition path_char :: "char \<Rightarrow> bool" where
  "path_char c \<longleftrightarrow> c = CHR ''/'' \<or> is_alnum c \<or> c \<in> {CHR ''_'', CHR ''-''}"

lemma path_join2_shape:
  assumes "list_all path_char a" "list_all path_char b" "\<not> prefix ''/'' b"
  shows "\<exists>r. path_join2 (base @ a) b = base @ a @ r \<and> list_all path_char r \<and> (base @ a = [] \<or> suffix ''/'' (base @ a) \<or> prefix ''/'' r)"
  using assms by (auto simp: path_join2_def path_char_def)

lemma sanitize_path: "list_all path_char (sanitize_name n)" "\<not> prefix ''/'' (sanitize_name n)"
proof -
  show "list_all path_char (sanitize_name n)" using sanitize_chars by (auto simp: list_all_iff path_char_def)
  show "\<not> prefix ''/'' (sanitize_name n)"
    using sanitize_chars [of "CHR ''/''" n] no_dot(2) by (cases "sanitize_name n") auto
qed

text \<open>C22: The directory of a device lies below the base directory whatever the tenant, the group and the device are called: the
  base is followed by a slash (unless it is empty or ends with one) and by letters, digits, hyphens, underscores and slashes
  only, so no part of it is a dot or two dots and the path cannot climb out of the base.\<close>

theorem backup_path_confined:
  "\<exists>rel. backup_path base slug grp name = base @ rel \<and> list_all path_char rel \<and> CHR ''.'' \<notin> set rel \<and>
     (base = [] \<or> suffix ''/'' base \<or> prefix ''/'' rel)"
proof -
  obtain r1 where r1: "path_join2 base (sanitize_name slug) = base @ r1" "list_all path_char r1" "base = [] \<or> suffix ''/'' base \<or> prefix ''/'' r1"
    using path_join2_shape [of "[]" "sanitize_name slug" base] sanitize_path by auto
  obtain r2 where r2: "path_join2 (base @ r1) (sanitize_name grp) = base @ r1 @ r2" "list_all path_char r2"
    using path_join2_shape [of r1 "sanitize_name grp" base] sanitize_path r1(2) by auto
  obtain r3 where r3: "path_join2 (base @ r1 @ r2) (sanitize_name name) = base @ (r1 @ r2) @ r3" "list_all path_char r3"
    using path_join2_shape [of "r1 @ r2" "sanitize_name name" base] sanitize_path r1(2) r2(2) by auto
  have all: "list_all path_char (r1 @ r2 @ r3)" using r1(2) r2(2) r3(2) by simp
  then have "CHR ''.'' \<notin> set (r1 @ r2 @ r3)" using no_dot(1) unfolding list_all_iff path_char_def by fastforce
  with all r1(3) show ?thesis
    by (intro exI [of _ "r1 @ r2 @ r3"]) (auto simp: backup_path_def r1(1) r2(1) r3(1) simp del: set_append)
qed

section \<open>The cache of scripts\<close>

definition coherent :: "'m script_cache \<Rightarrow> bool" where
  "coherent c \<longleftrightarrow> (\<forall>name. sc_modules c name \<noteq> None \<longrightarrow> sc_mtimes c name \<noteq> None \<and> sc_errors c name = None)"

lemma coherent_changes: "coherent c \<Longrightarrow> coherent (forget_script name why c)" "coherent c \<Longrightarrow> coherent (keep_script name t m c)"
  by (auto simp: coherent_def forget_script_def keep_script_def)

locale script_loader =
  fixes X :: "('s, 'm) exec_env"
  assumes cache_set: "xe_cache X (xe_set_cache X c s) = c"
    and import_cache: "xe_cache X (snd (xe_import X name s)) = xe_cache X s"

definition elsewhere :: "string \<Rightarrow> 'm script_cache \<Rightarrow> 'm script_cache \<Rightarrow> bool" where
  "elsewhere name c c' \<longleftrightarrow> (\<forall>n. n = name \<or> sc_modules c' n = sc_modules c n \<and> sc_mtimes c' n = sc_mtimes c n \<and> sc_errors c' n = sc_errors c n)"

lemma elsewhere_changes: "elsewhere name c c" "elsewhere name c (forget_script name why c)" "elsewhere name c (keep_script name t m c)"
  by (auto simp: elsewhere_def forget_script_def keep_script_def)

text \<open>C21: A script is served as its file is now. Loading a script keeps the cache coherent (a cached module has a time and no error)
  and the entries of every other script; a module is returned only if the file exists, the cache then holds it under the present time
  of the file, and it was either there under this time or has just been imported; if there is no module, because the file is gone
  or its import failed, an older module is no longer served and the reason is kept.\<close>

theorem script_cache_fresh:
  assumes "script_loader X" "coherent (xe_cache X s)"
  shows "\<exists>r s'. load_script X name s = (Some (Inr r), s') \<and> coherent (xe_cache X s') \<and> elsewhere name (xe_cache X s) (xe_cache X s') \<and>
    (case r of
       Some m \<Rightarrow> (\<exists>t. xe_mtime X name s = Some t \<and> sc_mtimes (xe_cache X s') name = Some t \<and> sc_modules (xe_cache X s') name = Some m) \<and>
         (s' = s \<or> fst (xe_import X name s) = Inr m)
     | None \<Rightarrow> sc_modules (xe_cache X s') name = None \<and> sc_errors (xe_cache X s') name \<noteq> None)"
proof (cases "sc_modules (xe_cache X s) name \<noteq> None \<and> sc_mtimes (xe_cache X s) name = xe_mtime X name s")
  case True
  then obtain m where m: "sc_modules (xe_cache X s) name = Some m" by blast
  with assms(2) True have "xe_mtime X name s \<noteq> None" unfolding coherent_def by metis
  then obtain t where t: "xe_mtime X name s = Some t" by blast
  from True have "load_script X name s = (Some (Inr (Some m)), s)"
    by (simp add: load_script_def f_bind_def io_bind_def f_read_def m)
  with assms(2) m t True show ?thesis by (auto simp: elsewhere_changes)
next
  case False
  note set = script_loader.cache_set [OF assms(1)]
  show ?thesis
  proof (cases "xe_mtime X name s")
    case None
    with False have "load_script X name s
        = (Some (Inr None), xe_set_cache X (forget_script name ''Arquivo nao encontrado.'' (xe_cache X s)) s)"
      by (auto simp: load_script_def f_bind_def f_seq_def io_bind_def f_read_def f_write_def)
    with assms(2) show ?thesis
      by (simp add: set coherent_changes elsewhere_changes) (simp add: forget_script_def)
  next
    case (Some t)
    obtain r s1 where r: "xe_import X name s = (r, s1)" by fastforce
    with script_loader.import_cache [OF assms(1), of name s] have s1: "xe_cache X s1 = xe_cache X s" by simp
    show ?thesis
    proof (cases r)
      case (Inl e)
      with False Some r s1 have "load_script X name s
          = (Some (Inr None), xe_set_cache X (forget_script name (fault_text e) (xe_cache X s)) s1)"
        by (auto simp: load_script_def f_bind_def f_seq_def f_catch_def io_bind_def io_ret_def f_read_def f_write_def f_call_def)
      with assms(2) show ?thesis
        by (simp add: set coherent_changes elsewhere_changes) (simp add: forget_script_def)
    next
      case (Inr m)
      with False Some r s1 have "load_script X name s = (Some (Inr (Some m)), xe_set_cache X (keep_script name t m (xe_cache X s)) s1)"
        by (auto simp: load_script_def f_bind_def f_seq_def f_catch_def io_bind_def io_ret_def f_read_def f_write_def f_call_def)
      with assms(2) Some r Inr show ?thesis
        by (simp add: set coherent_changes elsewhere_changes) (simp add: keep_script_def)
    qed
  qed
qed

interpretation desk_scripts: script_loader "exec_part (desk_env b)" for b
  by unfold_locales (auto simp: desk_env_def exec_env.defs)

theorem script_cache_fresh_witness:
  "\<exists>r s'. load_script (exec_part (desk_env False)) ''huawei.py'' desk_start = (Some (Inr r), s') \<and>
     coherent (xe_cache (exec_part (desk_env False)) s')"
proof -
  have "coherent (xe_cache (exec_part (desk_env False)) desk_start)"
    by (simp add: desk_start_def desk_env_def exec_env.defs coherent_def no_scripts_def)
  from script_cache_fresh [OF desk_scripts.script_loader_axioms this, of "''huawei.py''"] show ?thesis by blast
qed

section \<open>The entries of a device\<close>

definition failure_keys :: "string list" where
  "failure_keys = [''last_backup_failure_category'', ''last_backup_failure_label'', ''last_backup_failure_message'', ''last_backup_failure_at'']"

definition integrity_keys :: "string list" where
  "integrity_keys = [''last_backup_integrity_ok'', ''last_backup_integrity_reason'']"

lemma map_of_dpop: "map_of (dpop d k) = (map_of d)(k := None)"
  by (induction d) (auto simp: dpop_def fun_upd_twist)

lemma map_of_dupdate: "map_of (dupdate d e) = map_of d ++ map_of (rev e)"
  by (induction e arbitrary: d) (auto simp: dupdate_def map_add_assoc [symmetric])

lemma dget_map: "dget d k = (case map_of d k of None \<Rightarrow> PNone | Some v \<Rightarrow> v)" "dhas d k \<longleftrightarrow> map_of d k \<noteq> None"
  by (simp_all add: dget_def dhas_def map_of_eq_None_iff del: not_None_eq)

lemma entries_map:
  "map_of (last_backup_entries st extra) =
     (let e = (map_of extra)(''last_backup_integrity_ok'' \<mapsto> PBool (case rs_integrity st of Some i \<Rightarrow> result_ok i | None \<Rightarrow> rs_ok st));
          e2 = (case rs_integrity st of Some i \<Rightarrow> e(''last_backup_integrity_reason'' \<mapsto> PStr (result_reason i)) | None \<Rightarrow> e)
      in if rs_ok st then (\<lambda>k. if k \<in> set failure_keys then None else e2 k)
         else e2(''last_backup_failure_category'' \<mapsto> PStr (case rs_category st of None \<Rightarrow> ''unknown'' | Some c \<Rightarrow> if c = [] then ''unknown'' else c),
           ''last_backup_failure_label'' \<mapsto> PStr (case label_of st of None \<Rightarrow> ''Outros'' | Some l \<Rightarrow> if l = [] then ''Outros'' else l),
           ''last_backup_failure_message'' \<mapsto> PStr (rs_message st), ''last_backup_failure_at'' \<mapsto> PStr (isoformat (rs_completed st) @ ''Z'')))"
  by (auto simp: last_backup_entries_def Let_def map_of_dpop map_of_dupdate failure_keys_def fun_eq_iff split: option.split)

text \<open>The entries of a device tell the end of its last backup and nothing else. After a success none of the four entries of a
  failure is left, whatever the device held before; after a failure they hold its class, its message and its time; the
  integrity is the one found, or the verdict of the run when nothing was checked; every other entry is kept.\<close>

theorem entries_tell_last_backup:
  "(if rs_ok st then list_all (\<lambda>k. \<not> dhas (last_backup_entries st extra) k) failure_keys
    else dget (last_backup_entries st extra) ''last_backup_failure_message'' = PStr (rs_message st) \<and>
      dget (last_backup_entries st extra) ''last_backup_failure_at'' = PStr (isoformat (rs_completed st) @ ''Z'') \<and>
      dget (last_backup_entries st extra) ''last_backup_failure_category'' =
        PStr (case rs_category st of None \<Rightarrow> ''unknown'' | Some c \<Rightarrow> if c = [] then ''unknown'' else c)) \<and>
   dget (last_backup_entries st extra) ''last_backup_integrity_ok'' =
     PBool (case rs_integrity st of Some i \<Rightarrow> result_ok i | None \<Rightarrow> rs_ok st) \<and>
   {k. dhas (last_backup_entries st extra) k \<noteq> dhas extra k \<or> dget (last_backup_entries st extra) k \<noteq> dget extra k}
     \<subseteq> set failure_keys \<union> set integrity_keys"
proof (intro conjI)
  show "if rs_ok st then list_all (\<lambda>k. \<not> dhas (last_backup_entries st extra) k) failure_keys
    else dget (last_backup_entries st extra) ''last_backup_failure_message'' = PStr (rs_message st) \<and>
      dget (last_backup_entries st extra) ''last_backup_failure_at'' = PStr (isoformat (rs_completed st) @ ''Z'') \<and>
      dget (last_backup_entries st extra) ''last_backup_failure_category'' =
        PStr (case rs_category st of None \<Rightarrow> ''unknown'' | Some c \<Rightarrow> if c = [] then ''unknown'' else c)"
    by (simp add: dget_map entries_map Let_def list_all_iff)
  show "dget (last_backup_entries st extra) ''last_backup_integrity_ok'' =
     PBool (case rs_integrity st of Some i \<Rightarrow> result_ok i | None \<Rightarrow> rs_ok st)"
    by (simp add: dget_map entries_map Let_def failure_keys_def split: option.split)
  show "{k. dhas (last_backup_entries st extra) k \<noteq> dhas extra k \<or> dget (last_backup_entries st extra) k \<noteq> dget extra k}
     \<subseteq> set failure_keys \<union> set integrity_keys"
  proof
    fix k
    have "map_of (last_backup_entries st extra) k = map_of extra k" if "k \<notin> set failure_keys \<union> set integrity_keys"
      using that unfolding entries_map Let_def by (simp add: failure_keys_def integrity_keys_def split: option.split)
    then show "k \<in> {k. dhas (last_backup_entries st extra) k \<noteq> dhas extra k \<or> dget (last_backup_entries st extra) k \<noteq> dget extra k} \<Longrightarrow>
        k \<in> set failure_keys \<union> set integrity_keys"
      by (cases "k \<in> set failure_keys \<union> set integrity_keys"; cases "map_of extra k") (simp_all add: dget_map)
  qed
qed

section \<open>When no script is called\<close>

abbreviation unscripted :: "('s, 'm) exec_env \<Rightarrow> ('m \<Rightarrow> pydict \<Rightarrow> pyval \<Rightarrow> ('s, script_answer) op) \<Rightarrow> ('s, 'm) exec_env" where
  "unscripted X r \<equiv> X\<lparr>xe_run := r\<rparr>"

text \<open>The parts that do not look at the call of a script.\<close>

lemma unscripted_fields [simp]:
  "xe_machine (unscripted X r) = xe_machine X" "xe_vpn (unscripted X r) = xe_vpn X" "xe_mtime (unscripted X r) = xe_mtime X"
  "xe_import (unscripted X r) = xe_import X" "xe_cache (unscripted X r) = xe_cache X" "xe_set_cache (unscripted X r) = xe_set_cache X"
  "xe_entry (unscripted X r) = xe_entry X" "xe_base (unscripted X r) = xe_base X" "xe_makedirs (unscripted X r) = xe_makedirs X"
  "xe_files (unscripted X r) = xe_files X" "xe_decrypt (unscripted X r) = xe_decrypt X" "xe_probe (unscripted X r) = xe_probe X"
  "xe_int_error (unscripted X r) = xe_int_error X"
  by simp_all

lemma unscripted_parts [simp]:
  "load_script (unscripted X r) = load_script X" "exec_log (unscripted X r) = exec_log X" "exec_tell (unscripted X r) = exec_tell X"
  "get_backup_path (unscripted X r) = get_backup_path X" "jump_setup (unscripted X r) = jump_setup X" "f_int (unscripted X r) = f_int X"
  unfolding load_script_def [abs_def] exec_log_def [abs_def] exec_tell_def [abs_def] get_backup_path_def [abs_def] jump_setup_def [abs_def]
    decrypt_stored_def [abs_def] f_int_def [abs_def] unscripted_fields
  by (rule refl)+

lemma unscripted_more [simp]:
  "jump_label (unscripted X r) = jump_label X" "count_precheck (unscripted X r) = count_precheck X"
  "probe_timeout (unscripted X r) = probe_timeout X" "refuse_backup (unscripted X r) = refuse_backup X"
  "locate_file (unscripted X r) = locate_file X" "script_error (unscripted X r) = script_error X" "script_finished (unscripted X r) = script_finished X"
  unfolding jump_label_def [abs_def] count_precheck_def [abs_def] probe_timeout_def [abs_def] refuse_backup_def [abs_def] locate_file_def [abs_def]
    script_error_def [abs_def] script_finished_def [abs_def] unscripted_parts unscripted_fields
  by (rule refl)+

lemma unscripted_ports [simp]: "try_ports (unscripted X r) task d labels n ports = try_ports X task d labels n ports"
  by (induction ports) (simp_all cong: if_cong)

lemma unscripted_check [simp]: "network_check (unscripted X r) = network_check X"
  unfolding network_check_def [abs_def] probe_device_def [abs_def] judge_probe_def [abs_def] unscripted_parts unscripted_more unscripted_ports
    unscripted_fields
  by (rule refl)

lemma unscripted_vpn [simp]: "in_vpn fuel (unscripted X r) = in_vpn fuel X"
  unfolding in_vpn_def [abs_def] unscripted_parts unscripted_fields by (rule refl)

text \<open>A device that does not answer: neither its port nor any of the other ports that are tried for its type, when asked without
  a jump host, at any time.\<close>

definition tried_ports :: "device \<Rightarrow> device_type \<Rightarrow> int set" where
  "tried_ports d ty = insert (default_port d) (\<Union>tried. set (candidate_ports d ty tried))"

definition nobody_answers :: "('s, 'm) exec_env \<Rightarrow> device \<Rightarrow> device_type \<Rightarrow> bool" where
  "nobody_answers X d ty \<longleftrightarrow>
     (\<forall>port \<in> tried_ports d ty. \<forall>n s pc. fst (xe_probe X (d_ip_address d) port n PNone s) = Inr pc \<longrightarrow> \<not> pc_tcp_ok pc)"

text \<open>\<^term>\<open>settles (\<lambda>_. ())\<close> asks nothing of the world: the call ends, and a value it returns has the property.\<close>

lemma any_steps:
  fixes X :: "('s, 'm) exec_env"
  shows "settles (\<lambda>_. ()) (exec_log X task d lvl msg) (\<lambda>_. True)" "settles (\<lambda>_. ()) (exec_tell X t) (\<lambda>_. True)"
    "settles (\<lambda>_. ()) (count_precheck X labels x ping tcp) (\<lambda>_. True)" "settles (\<lambda>_. ()) (f_int X v) (\<lambda>_. True)"
  unfolding exec_log_def exec_tell_def count_precheck_def f_int_def
  by (intro settling settles_lift; simp add: io_within_def)+

lemma probe_silent:
  "nobody_answers X d ty \<Longrightarrow> port \<in> tried_ports d ty \<Longrightarrow>
   settles (\<lambda>_. ()) (f_call (xe_probe X (d_ip_address d) port n PNone)) (\<lambda>pc. \<not> pc_tcp_ok pc)"
  by (rule settles_call) (auto simp: nobody_answers_def)

lemma ports_silent:
  "nobody_answers X d ty \<Longrightarrow> set ports \<subseteq> tried_ports d ty \<Longrightarrow>
   settles (\<lambda>_. ()) (try_ports X task d labels n ports) (\<lambda>found. found = None)"
proof (induction ports)
  case (Cons p ps)
  then show ?case
    unfolding try_ports.simps by (intro settles_bind [OF probe_silent [OF Cons.prems(1)]]) simp_all
qed (simp add: settles_ret)

lemma check_silent:
  assumes "nobody_answers X d ty" "truthy_env (m_env (xe_machine X)) ''BACKUP_NETWORK_PRECHECK_ENABLED'' ''1''"
    "truthy_env (m_env (xe_machine X)) ''BACKUP_NETWORK_PRECHECK_FAIL_FAST'' ''1''"
  shows "settles (\<lambda>_. ()) (network_check X task d ty labels PNone) (\<lambda>r. \<exists>msg. r = Inl msg)"
proof -
  have probed: "settles (\<lambda>_. ()) (probe_device X task d ty labels n PNone) (\<lambda>(pc, other). \<not> pc_tcp_ok pc \<and> other = None)" for n
    unfolding probe_device_def pyval.case
  proof (rule settles_bind [OF probe_silent [OF assms(1)]], goal_cases)
    case 1
    show ?case by (simp add: tried_ports_def)
  next
    case (2 pc)
    then show ?case
      by (simp, intro settles_bind [OF ports_silent [OF assms(1)]]) (auto simp: settles_ret tried_ports_def)
  qed
  have judged: "settles (\<lambda>_. ()) (judge_probe X (m_env (xe_machine X)) task d labels PNone pc None) (\<lambda>r. \<exists>msg. r = Inl msg)" if "\<not> pc_tcp_ok pc" for pc
    unfolding judge_probe_def Let_def using that assms(3)
    by (simp, intro settles_seq any_steps settles_ret) simp
  have timed: "settles (\<lambda>_. ()) (probe_timeout X (m_env (xe_machine X))) (\<lambda>_. True)"
    unfolding probe_timeout_def by (intro settling any_steps) simp
  show ?thesis
    unfolding network_check_def Let_def using assms(2)
    by (simp, intro settles_bind_any [OF timed] settles_bind [OF probed]) (auto intro: judged)
qed

lemma f_bind_agree:
  assumes "settles (\<lambda>_. ()) m K" "\<And>a. K a \<Longrightarrow> f a = g a"
  shows "f_bind m f = f_bind m g"
proof
  fix s
  from settlesD [OF assms(1), of "()"] show "f_bind m f s = f_bind m g s"
    by (rule f_specE [where s = s]) (simp_all add: f_bind_def io_bind_def io_ret_def assms(2))
qed

lemma silent_script:
  assumes "nobody_answers X d ty" "dget kwargs ''jump_host'' = PNone" "truthy_env (m_env (xe_machine X)) ''BACKUP_NETWORK_PRECHECK_ENABLED'' ''1''"
    "truthy_env (m_env (xe_machine X)) ''BACKUP_NETWORK_PRECHECK_FAIL_FAST'' ''1''"
  shows "execute_script (unscripted X r) task d ty slug grp m accepted dir kwargs = execute_script X task d ty slug grp m accepted dir kwargs"
proof -
  have "run_script (unscripted X r) task d ty m accepted dir kwargs labels = run_script X task d ty m accepted dir kwargs labels" for labels
    unfolding run_script_def Let_def unscripted_check assms(2)
    by (rule f_bind_agree [OF check_silent [OF assms(1,3,4)]]) auto
  then show ?thesis
    unfolding execute_script_def Let_def unscripted_parts unscripted_more by (simp only:)
qed

lemma no_jump_kwarg:
  assumes "\<not> dhas (as_dict (d_extra_parameters d)) ''jump_host''"
  shows "dget (script_kwargs d ty grp dir password task) ''jump_host'' = PNone"
proof -
  have "map_of (rev (as_dict (d_extra_parameters d))) ''jump_host'' = None"
    using assms by (simp add: dget_map(2) map_of_eq_None_iff)
  then show ?thesis
    by (simp add: script_kwargs_def Let_def dget_map map_of_dupdate map_add_def)
qed


definition dark_env :: "(desk, unit) exec_env" where
  "dark_env = (exec_part (desk_env False))\<lparr>xe_probe := \<lambda>_ port _ _ w. (Inr \<lparr>pc_ping_ok = False, pc_tcp_ok = False, pc_ping_method = ''icmp'',
     pc_tcp_method = ''timeout'', pc_tcp_port = port, pc_rtt = []\<rparr>, w)\<rparr>"


end
