(* ===== verification/BillingPolicy.thy ===== *)
theory BillingPolicy
  imports PlanLimits
begin

text \<open>
  The billing policy (\<open>src/app/services/billing_policy_service.py\<close>): when a tenant is overdue, when it is
  blocked, the warning it sees meanwhile, and the periodic pass that applies the policy to every tenant.

  Instants are naive UTC values in microseconds, as the columns are. The number of days overdue is a floor
  of \<open>total_seconds()\<close>, a binary64 division that is exact enough to leave the floor unchanged for delays
  below \<open>2 ^ 33\<close> seconds (272 years). The session is the list of tenants: \<open>commits\<close> says whether the
  commit succeeds, and a failed one is rolled back and raises.
\<close>

record evaluation =
  ev_overdue :: bool
  ev_should_block :: bool
  ev_overdue_days :: int
  ev_grace_days :: int
  ev_days_until_block :: int
  ev_due_at :: "naive option"

definition DEFAULT_BILLING_PERIOD_DAYS :: int where "DEFAULT_BILLING_PERIOD_DAYS = 30"
definition DEFAULT_PAYMENT_GRACE_DAYS :: int where "DEFAULT_PAYMENT_GRACE_DAYS = 3"

definition plan_period_days :: "plan option \<Rightarrow> int" where
  "plan_period_days plan =
     (let days = (case plan of None \<Rightarrow> 0 | Some p \<Rightarrow> p_billing_period_days p)
      in if days > 0 then days else DEFAULT_BILLING_PERIOD_DAYS)"

definition plan_grace_days :: "plan option \<Rightarrow> int" where
  "plan_grace_days plan =
     (let days = (case plan of None \<Rightarrow> 0 | Some p \<Rightarrow> p_payment_grace_days p)
      in if days \<ge> 0 then days else DEFAULT_PAYMENT_GRACE_DAYS)"

definition resolve_due_at :: "tenant \<Rightarrow> naive option" where
  "resolve_due_at t =
     (case t_current_period_end t of Some e \<Rightarrow> Some e | None \<Rightarrow> t_trial_ends_at t)"

definition evaluate_tenant :: "tenant \<Rightarrow> naive \<Rightarrow> evaluation" where
  "evaluate_tenant t now =
     (let grace = plan_grace_days (t_plan t)
      in case resolve_due_at t of
        None \<Rightarrow> \<lparr>ev_overdue = False, ev_should_block = False, ev_overdue_days = 0, ev_grace_days = grace,
                 ev_days_until_block = grace, ev_due_at = None\<rparr>
      | Some due \<Rightarrow>
          if now \<le> due
          then \<lparr>ev_overdue = False, ev_should_block = False, ev_overdue_days = 0, ev_grace_days = grace,
                ev_days_until_block = grace, ev_due_at = Some due\<rparr>
          else (let overdue_days = max ((now - due) div DAY_US + 1) 1
                in \<lparr>ev_overdue = True, ev_should_block = overdue_days > grace, ev_overdue_days = overdue_days,
                    ev_grace_days = grace, ev_days_until_block = max (grace - overdue_days) 0, ev_due_at = Some due\<rparr>))"

section \<open>The warning\<close>

record billing_alert =
  al_message :: string
  al_overdue_days :: int
  al_days_until_block :: int
  al_due_at :: "naive option"

text \<open>\<open>strftime("%d/%m/%Y")\<close>.\<close>

definition show_dmy :: "naive \<Rightarrow> string" where
  "show_dmy t = (let (y, m, d) = civil_of_days (day_of t) in show_pad 2 (nat d) @ ''/'' @ show_pad 2 (nat m) @ ''/'' @ show_pad 4 (nat y))"

definition build_runtime_alert :: "tenant \<Rightarrow> naive \<Rightarrow> billing_alert option" where
  "build_runtime_alert t now =
     (if t_access_unlimited t then None
      else let ev = evaluate_tenant t now in
        if \<not> ev_overdue ev \<or> ev_should_block ev then None
        else Some \<lparr>al_message =
               ''Pagamento em aberto desde '' @ (case ev_due_at ev of None \<Rightarrow> ''-'' | Some due \<Rightarrow> show_dmy due) @ ''. '' @
               (if ev_days_until_block ev \<le> 0 then ''Ultimo dia antes do bloqueio automatico.''
                else ''Bloqueio em '' @ show_int (ev_days_until_block ev) @ '' dia(s).'') @
               '' Regularize para evitar indisponibilidade de acesso.'',
             al_overdue_days = ev_overdue_days ev, al_days_until_block = ev_days_until_block ev, al_due_at = ev_due_at ev\<rparr>)"

section \<open>The pass over the tenants\<close>

record policy_counts =
  pc_processed :: int
  pc_marked_past_due :: int
  pc_blocked :: int
  pc_reactivated :: int

definition in_scope :: "tenant \<Rightarrow> bool" where
  "in_scope t \<longleftrightarrow> \<not> t_access_unlimited t \<and> t_deleted_at t = None"

definition count_if :: "bool \<Rightarrow> int" where "count_if b = (if b then 1 else 0)"

text \<open>One tenant: its row after the pass, and what it adds to the counters.\<close>

definition enforce_one :: "naive \<Rightarrow> tenant \<Rightarrow> tenant \<times> policy_counts" where
  "enforce_one now t =
     (let ev = evaluate_tenant t now; status = py_lower (py_strip (or_empty (t_subscription_status t)))
      in if ev_should_block ev
         then (t\<lparr>t_is_active := (if flag (t_is_active t) then Some False else t_is_active t),
                 t_subscription_status := Some ''canceled'',
                 t_billing_blocked_at := (case t_billing_blocked_at t of None \<Rightarrow> Some now | Some b \<Rightarrow> Some b)\<rparr>,
               \<lparr>pc_processed = 1, pc_marked_past_due = 0, pc_blocked = count_if (flag (t_is_active t)), pc_reactivated = 0\<rparr>)
         else if ev_overdue ev
         then (let marks = status \<in> {''active'', ''trial'', ''past_due''} \<and> t_subscription_status t \<noteq> Some ''past_due''
               in (if marks then t\<lparr>t_subscription_status := Some ''past_due''\<rparr> else t,
                   \<lparr>pc_processed = 1, pc_marked_past_due = count_if marks, pc_blocked = 0, pc_reactivated = 0\<rparr>))
         else (let back = t_billing_blocked_at t \<noteq> None \<and> flag (t_is_active t)
               in (if back then t\<lparr>t_billing_blocked_at := None\<rparr> else t,
                   \<lparr>pc_processed = 1, pc_marked_past_due = 0, pc_blocked = 0, pc_reactivated = count_if back\<rparr>)))"

definition add_counts :: "policy_counts \<Rightarrow> policy_counts \<Rightarrow> policy_counts" where
  "add_counts a b = \<lparr>pc_processed = pc_processed a + pc_processed b, pc_marked_past_due = pc_marked_past_due a + pc_marked_past_due b,
     pc_blocked = pc_blocked a + pc_blocked b, pc_reactivated = pc_reactivated a + pc_reactivated b\<rparr>"

definition no_counts :: policy_counts where
  "no_counts = \<lparr>pc_processed = 0, pc_marked_past_due = 0, pc_blocked = 0, pc_reactivated = 0\<rparr>"

fun enforce_all :: "naive \<Rightarrow> tenant list \<Rightarrow> tenant list \<times> policy_counts" where
  "enforce_all now [] = ([], no_counts)"
| "enforce_all now (t # ts) =
     (let (ts', c) = enforce_all now ts
      in if in_scope t then (let (t', d) = enforce_one now t in (t' # ts', add_counts d c)) else (t # ts', c))"

definition enforce_access_policy :: "bool \<Rightarrow> naive \<Rightarrow> tenant list \<Rightarrow> policy_counts option \<times> tenant list" where
  "enforce_access_policy commits now ts =
     (let (ts', c) = enforce_all now ts in if commits then (Some c, ts') else (None, ts))"

section \<open>Lemmas\<close>

lemma DAY_US_pos: "0 < DAY_US"
  by (simp add: DAY_US_def)

lemma day_floor: "k \<le> d div DAY_US \<longleftrightarrow> k * DAY_US \<le> d"
  unfolding DAY_US_def by linarith

lemma grace_nonneg: "0 \<le> plan_grace_days p"
  by (simp add: plan_grace_days_def Let_def DEFAULT_PAYMENT_GRACE_DAYS_def)

lemma blocked_iff:
  "ev_should_block (evaluate_tenant t now) \<longleftrightarrow>
     (\<exists>due. resolve_due_at t = Some due \<and> due < now \<and> due + plan_grace_days (t_plan t) * DAY_US \<le> now)"
proof (cases "resolve_due_at t")
  case (Some due)
  have "due < now \<Longrightarrow> (max ((now - due) div DAY_US + 1) 1 > plan_grace_days (t_plan t)) \<longleftrightarrow> plan_grace_days (t_plan t) \<le> (now - due) div DAY_US"
    using day_floor [of 0 "now - due"] by auto
  with Some day_floor [of "plan_grace_days (t_plan t)" "now - due"] show ?thesis
    by (auto simp: evaluate_tenant_def Let_def)
qed (simp add: evaluate_tenant_def Let_def)

lemma overdue_iff: "ev_overdue (evaluate_tenant t now) \<longleftrightarrow> (\<exists>due. resolve_due_at t = Some due \<and> due < now)"
  by (auto simp: evaluate_tenant_def Let_def split: option.split)

text \<open>The evaluation looks only at the plan and the two dates.\<close>

lemma evaluate_cong:
  assumes "t_plan t' = t_plan t" "t_current_period_end t' = t_current_period_end t" "t_trial_ends_at t' = t_trial_ends_at t"
  shows "evaluate_tenant t' now = evaluate_tenant t now"
  by (simp only: evaluate_tenant_def resolve_due_at_def assms)

lemma enforce_one_twice:
  assumes "enforce_one now t = (t', c)"
  shows "enforce_one now t' = (t', no_counts\<lparr>pc_processed := 1\<rparr>)"
proof -
  have ev: "evaluate_tenant t' now = evaluate_tenant t now"
    using assms by (intro evaluate_cong) (auto simp: enforce_one_def Let_def split: if_splits)
  have past: "py_lower (py_strip ''past_due'') = ''past_due''" by code_simp
  consider (block) "ev_should_block (evaluate_tenant t now)"
    | (late) "\<not> ev_should_block (evaluate_tenant t now)" "ev_overdue (evaluate_tenant t now)"
    | (fine) "\<not> ev_should_block (evaluate_tenant t now)" "\<not> ev_overdue (evaluate_tenant t now)" by blast
  then show ?thesis
  proof cases
    case block
    with assms ev show ?thesis
      by (cases "t_billing_blocked_at t") (auto simp: enforce_one_def Let_def count_if_def no_counts_def flag_def split: if_splits)
  next
    case late
    with assms ev past show ?thesis by (auto simp: enforce_one_def Let_def count_if_def no_counts_def or_empty_def split: if_splits)
  next
    case fine
    with assms ev show ?thesis by (auto simp: enforce_one_def Let_def count_if_def no_counts_def split: if_splits)
  qed
qed

lemma enforce_one_scope: "in_scope (fst (enforce_one now t)) = in_scope t"
  by (simp add: enforce_one_def in_scope_def Let_def split: option.split)

lemma enforce_all_twice:
  "enforce_all now (fst (enforce_all now ts)) =
     (fst (enforce_all now ts), no_counts\<lparr>pc_processed := int (length (filter in_scope ts))\<rparr>)"
proof (induction ts)
  case (Cons t ts)
  obtain ts' c where rest: "enforce_all now ts = (ts', c)" by fastforce
  obtain t' d where one: "enforce_one now t = (t', d)" by fastforce
  show ?case
    using Cons rest one enforce_one_twice [OF one] enforce_one_scope [of now t]
    by (simp add: add_counts_def no_counts_def)
qed (simp add: no_counts_def)

lemma enforce_all_nth: "i < length ts \<Longrightarrow>
  fst (enforce_all now ts) ! i = (if in_scope (ts ! i) then fst (enforce_one now (ts ! i)) else ts ! i)"
proof (induction ts arbitrary: i)
  case (Cons t ts)
  then show ?case by (cases i) (auto split: prod.splits)
qed simp

lemma enforce_all_length: "length (fst (enforce_all now ts)) = length ts"
  by (induction ts) (auto split: prod.splits)

text \<open>A row that has been blocked: another pass at any later instant leaves it alone.\<close>

lemma blocked_stays:
  assumes "ev_should_block (evaluate_tenant t now)" "now \<le> now'" "fst (enforce_one now t) = t'"
  shows "\<not> flag (t_is_active t') \<and> t_subscription_status t' = Some ''canceled'' \<and> t_billing_blocked_at t' \<noteq> None \<and>
    fst (enforce_one now' t') = t'"
proof -
  have t': "t' = t\<lparr>t_is_active := (if flag (t_is_active t) then Some False else t_is_active t),
                 t_subscription_status := Some ''canceled'',
                 t_billing_blocked_at := (case t_billing_blocked_at t of None \<Rightarrow> Some now | Some b \<Rightarrow> Some b)\<rparr>"
    using assms(1,3) by (auto simp: enforce_one_def Let_def)
  have "evaluate_tenant t' now' = evaluate_tenant t now'" by (rule evaluate_cong) (simp_all add: t')
  moreover have "ev_should_block (evaluate_tenant t now')" using assms(1,2) unfolding blocked_iff by auto
  ultimately have "ev_should_block (evaluate_tenant t' now')" by simp
  then show ?thesis
    by (auto simp: enforce_one_def Let_def t' flag_def split: option.splits)
qed

section \<open>Properties\<close>

text \<open>C39: A tenant is blocked exactly when it is past its due date and the whole grace period of its plan has
  passed, to the microsecond, never before; and the countdown is right: while it is overdue and not yet
  blocked, the block comes more than the announced number of days from now and at most one day after that.\<close>

theorem blocks_exactly_after_grace:
  "(ev_should_block (evaluate_tenant t now) \<longleftrightarrow>
     (\<exists>due. resolve_due_at t = Some due \<and> due < now \<and> due + plan_grace_days (t_plan t) * DAY_US \<le> now)) \<and>
   (resolve_due_at t = Some due \<and> ev_overdue (evaluate_tenant t now) \<and> \<not> ev_should_block (evaluate_tenant t now) \<longrightarrow>
     now + ev_days_until_block (evaluate_tenant t now) * DAY_US < due + plan_grace_days (t_plan t) * DAY_US \<and>
     due + plan_grace_days (t_plan t) * DAY_US \<le> now + (ev_days_until_block (evaluate_tenant t now) + 1) * DAY_US)"
proof (intro conjI impI)
  show "ev_should_block (evaluate_tenant t now) \<longleftrightarrow>
     (\<exists>due. resolve_due_at t = Some due \<and> due < now \<and> due + plan_grace_days (t_plan t) * DAY_US \<le> now)"
    by (rule blocked_iff)
next
  assume a: "resolve_due_at t = Some due \<and> ev_overdue (evaluate_tenant t now) \<and> \<not> ev_should_block (evaluate_tenant t now)"
  then have late: "due < now" using overdue_iff [of t now] by auto
  define q where "q = (now - due) div DAY_US"
  define g where "g = plan_grace_days (t_plan t)"
  have q: "0 \<le> q" using late by (simp add: q_def DAY_US_def)
  have ev: "\<not> q + 1 > g" "ev_days_until_block (evaluate_tenant t now) = g - (q + 1)"
    using a late q by (auto simp: evaluate_tenant_def Let_def q_def g_def)
  have "q * DAY_US \<le> now - due" "now - due < q * DAY_US + DAY_US" unfolding q_def DAY_US_def by linarith+
  then show "now + ev_days_until_block (evaluate_tenant t now) * DAY_US < due + plan_grace_days (t_plan t) * DAY_US"
    and "due + plan_grace_days (t_plan t) * DAY_US \<le> now + (ev_days_until_block (evaluate_tenant t now) + 1) * DAY_US"
    by (simp_all add: ev(2) g_def [symmetric] algebra_simps)
qed

theorem blocks_exactly_after_grace_witness:
  "\<not> ev_should_block (evaluate_tenant (blank_tenant\<lparr>t_trial_ends_at := Some 0\<rparr>) (DAY_US div 2)) \<and>
   DAY_US div 2 + 2 * DAY_US < 3 * DAY_US"
proof -
  have t: "resolve_due_at (blank_tenant\<lparr>t_trial_ends_at := Some 0\<rparr>) = Some 0"
    "ev_overdue (evaluate_tenant (blank_tenant\<lparr>t_trial_ends_at := Some 0\<rparr>) (DAY_US div 2))"
    "\<not> ev_should_block (evaluate_tenant (blank_tenant\<lparr>t_trial_ends_at := Some 0\<rparr>) (DAY_US div 2))"
    "ev_days_until_block (evaluate_tenant (blank_tenant\<lparr>t_trial_ends_at := Some 0\<rparr>) (DAY_US div 2)) = 2"
    "plan_grace_days (t_plan (blank_tenant\<lparr>t_trial_ends_at := Some 0\<rparr>)) = 3"
    by (simp_all add: resolve_due_at_def blank_tenant_def evaluate_tenant_def plan_grace_days_def blank_plan_def DAY_US_def)
  with blocks_exactly_after_grace [of "blank_tenant\<lparr>t_trial_ends_at := Some 0\<rparr>" "DAY_US div 2" 0] show ?thesis by simp
qed

text \<open>The periodic pass is safe and stable: it never touches a tenant with unlimited access or a deleted one;
  every other tenant that is to be blocked ends inactive, canceled and with the instant of its block, and
  no later pass changes it again; a second pass at the same instant changes nothing and counts nothing; and
  when the commit fails no tenant has changed.\<close>

theorem policy_pass_stable:
  assumes "enforce_access_policy True now ts = (c, ts')" and "i < length ts" and "now \<le> now'"
  shows "(\<not> in_scope (ts ! i) \<longrightarrow> ts' ! i = ts ! i) \<and>
    (in_scope (ts ! i) \<and> ev_should_block (evaluate_tenant (ts ! i) now) \<longrightarrow>
       \<not> flag (t_is_active (ts' ! i)) \<and> t_subscription_status (ts' ! i) = Some ''canceled'' \<and>
       t_billing_blocked_at (ts' ! i) \<noteq> None \<and> snd (enforce_access_policy True now' ts') ! i = ts' ! i) \<and>
    enforce_access_policy True now ts' = (Some (no_counts\<lparr>pc_processed := int (length (filter in_scope ts))\<rparr>), ts') \<and>
    enforce_access_policy False now ts = (None, ts)"
proof -
  have ts': "ts' = fst (enforce_all now ts)" using assms(1) by (auto simp: enforce_access_policy_def split: prod.splits)
  have len: "i < length ts'" using assms(2) by (simp add: ts' enforce_all_length)
  have nth: "ts' ! i = (if in_scope (ts ! i) then fst (enforce_one now (ts ! i)) else ts ! i)"
    using enforce_all_nth [OF assms(2), of now] by (simp add: ts')
  have later: "snd (enforce_access_policy True now' ts') ! i = (if in_scope (ts' ! i) then fst (enforce_one now' (ts' ! i)) else ts' ! i)"
    using enforce_all_nth [OF len, of now'] by (auto simp: enforce_access_policy_def split: prod.splits)
  have scope: "in_scope (ts ! i) \<Longrightarrow> in_scope (ts' ! i)" using nth enforce_one_scope by simp
  have block: "in_scope (ts ! i) \<and> ev_should_block (evaluate_tenant (ts ! i) now) \<longrightarrow>
       \<not> flag (t_is_active (ts' ! i)) \<and> t_subscription_status (ts' ! i) = Some ''canceled'' \<and>
       t_billing_blocked_at (ts' ! i) \<noteq> None \<and> snd (enforce_access_policy True now' ts') ! i = ts' ! i"
    using blocked_stays [of "ts ! i" now now' "ts' ! i", OF _ assms(3)] nth later scope by auto
  have again: "enforce_access_policy True now ts' = (Some (no_counts\<lparr>pc_processed := int (length (filter in_scope ts))\<rparr>), ts')"
    by (simp add: enforce_access_policy_def ts' enforce_all_twice)
  have rollback: "enforce_access_policy False now ts = (None, ts)"
    by (simp add: enforce_access_policy_def split: prod.split)
  from nth block again rollback show ?thesis by auto
qed

theorem policy_pass_stable_witness:
  "t_subscription_status (snd (enforce_access_policy True (9 * DAY_US) [blank_tenant\<lparr>t_trial_ends_at := Some 0\<rparr>]) ! 0) = Some ''canceled''"
proof -
  let ?t = "blank_tenant\<lparr>t_trial_ends_at := Some 0\<rparr>"
  have b: "in_scope ?t" "ev_should_block (evaluate_tenant ?t (9 * DAY_US))"
    by (simp_all add: in_scope_def resolve_due_at_def blank_tenant_def evaluate_tenant_def plan_grace_days_def blank_plan_def DAY_US_def)
  obtain c ts' where run: "enforce_access_policy True (9 * DAY_US) [?t] = (c, ts')" by fastforce
  from policy_pass_stable [OF run, of 0 "9 * DAY_US"] b show ?thesis by (simp add: run)
qed

text \<open>A tenant sees the payment warning exactly while it is overdue and not yet blocked, unless its access is
  unlimited, with the days of the evaluation.\<close>

theorem warning_before_block:
  "(build_runtime_alert t now \<noteq> None \<longleftrightarrow>
     \<not> t_access_unlimited t \<and> (\<exists>due. resolve_due_at t = Some due \<and> due < now \<and> now < due + plan_grace_days (t_plan t) * DAY_US)) \<and>
   (\<forall>a. build_runtime_alert t now = Some a \<longrightarrow>
     al_days_until_block a = ev_days_until_block (evaluate_tenant t now) \<and> 1 \<le> al_overdue_days a \<and>
     al_overdue_days a + al_days_until_block a = plan_grace_days (t_plan t))"
proof
  show "build_runtime_alert t now \<noteq> None \<longleftrightarrow>
     \<not> t_access_unlimited t \<and> (\<exists>due. resolve_due_at t = Some due \<and> due < now \<and> now < due + plan_grace_days (t_plan t) * DAY_US)"
    using blocked_iff [of t now] overdue_iff [of t now] by (auto simp: build_runtime_alert_def Let_def)
  show "\<forall>a. build_runtime_alert t now = Some a \<longrightarrow>
     al_days_until_block a = ev_days_until_block (evaluate_tenant t now) \<and> 1 \<le> al_overdue_days a \<and>
     al_overdue_days a + al_days_until_block a = plan_grace_days (t_plan t)"
    by (auto simp: build_runtime_alert_def evaluate_tenant_def Let_def split: if_splits option.splits)
qed

theorem warning_before_block_witness:
  "build_runtime_alert (blank_tenant\<lparr>t_trial_ends_at := Some 0\<rparr>) (DAY_US div 2) \<noteq> None \<and>
   al_overdue_days (the (build_runtime_alert (blank_tenant\<lparr>t_trial_ends_at := Some 0\<rparr>) (DAY_US div 2))) \<ge> 1"
proof -
  let ?t = "blank_tenant\<lparr>t_trial_ends_at := Some 0\<rparr>"
  have "\<not> t_access_unlimited ?t \<and> (\<exists>due. resolve_due_at ?t = Some due \<and> due < DAY_US div 2 \<and>
      DAY_US div 2 < due + plan_grace_days (t_plan ?t) * DAY_US)"
    by (simp add: resolve_due_at_def blank_tenant_def plan_grace_days_def blank_plan_def DAY_US_def)
  with warning_before_block [of ?t "DAY_US div 2"] show ?thesis by auto
qed

end
