(* ===== verification/Billing.thy ===== *)
theory Billing
  imports BillingPolicy PyVal
begin

text \<open>
  Checkout and payments (\<open>src/app/web/billing/controller.py\<close>).

  The session is the record \<open>billing_db\<close> of the tables; a function that commits returns the new tables, one
  that raises returns an error and the tables as they were (\<open>db.rollback()\<close>). The payment provider is not
  under src: creating a preference and looking a payment up are arguments, which answer with the JSON object
  or raise. Fresh identifiers (\<open>uuid.uuid4()\<close>) and the clock are arguments too. Identifiers are canonical
  UUID texts.
\<close>

section \<open>Rows\<close>

datatype invoice_status = INV_DRAFT | INV_PENDING | INV_PAID | INV_FAILED | INV_CANCELLED

record invoice =
  i_id :: string
  i_tenant_id :: string
  i_number :: string
  i_amount :: int
  i_currency :: string
  i_period_start :: "naive option"
  i_period_end :: "naive option"
  i_status :: invoice_status
  i_due_date :: naive
  i_paid_at :: "naive option"
  i_payment_method :: "string option"
  i_payment_gateway_id :: "string option"

datatype subscription_status = SUB_ACTIVE | SUB_PAST_DUE | SUB_CANCELED | SUB_TRIAL

record subscription =
  su_tenant_id :: string
  su_plan_id :: string
  su_status :: subscription_status
  su_period_start :: naive
  su_period_end :: naive
  su_cancel_at_period_end :: bool
  su_canceled_at :: "naive option"
  su_provider_id :: string

record billing_db =
  bl_tenants :: "tenant list"
  bl_plans :: "plan list"
  bl_invoices :: "invoice list"
  bl_subs :: "subscription list"
  bl_tables :: tables

datatype billing_error = ValueError string | MercadoPagoError string

section \<open>Identifiers and texts\<close>

definition need_uuid :: "string \<Rightarrow> string \<Rightarrow> billing_error + string" where
  "need_uuid value name =
     (case parse_uuid value of None \<Rightarrow> Inl (ValueError (name @ '' invalido.'')) | Some u \<Rightarrow> Inr u)"

definition config_text :: "pydict \<Rightarrow> string \<Rightarrow> string" where
  "config_text cfg k = py_strip (str_or_empty (dget cfg k))"

definition is_checkout_available :: "pydict \<Rightarrow> bool" where
  "is_checkout_available cfg = (config_text cfg ''mercado_pago_access_token'' \<noteq> [])"

definition public_checkout_error :: "billing_error \<Rightarrow> string \<Rightarrow> string" where
  "public_checkout_error exc fallback =
     (case exc of
        MercadoPagoError _ \<Rightarrow> ''Nao foi possivel iniciar o pagamento online no momento. Tente novamente mais tarde ou fale com o suporte comercial.''
      | ValueError text \<Rightarrow>
          (let message = py_lower (py_strip text)
           in if py_in ''suporta ate'' message \<and> py_in ''dispositivos'' message then text
              else if py_in ''mercado_pago_access_token'' message \<or> py_in ''pagamento nao configurado'' message
              then ''Pagamento online indisponivel no momento. Fale com o suporte comercial para concluir a assinatura.''
              else fallback))"

definition build_url :: "string \<Rightarrow> string \<Rightarrow> string" where
  "build_url base_url path =
     (let base = rev (dropWhile (\<lambda>c. c = CHR ''/'') (rev (py_strip base_url)))
      in if base = [] then path else base @ path)"

definition build_notification_url :: "pydict \<Rightarrow> string \<Rightarrow> string" where
  "build_notification_url cfg base_url =
     (let webhook_url = config_text cfg ''mercado_pago_webhook_url''; token = config_text cfg ''mercado_pago_webhook_token'';
          url = build_url base_url ''/webhooks/billing/mercadopago''
      in if webhook_url \<noteq> [] then webhook_url
         else if token \<noteq> [] then url @ (if py_in ''?'' url then ''&'' else ''?'') @ ''token='' @ token
         else url)"

definition new_external_reference :: "string \<Rightarrow> string \<Rightarrow> string \<Rightarrow> string" where
  "new_external_reference tenant_id plan_id invoice_id =
     ''tenant:'' @ tenant_id @ ''|plan:'' @ plan_id @ ''|invoice:'' @ invoice_id"

text \<open>\<open>item.split(":", 1)\<close>.\<close>

definition split_colon :: "string \<Rightarrow> (string \<times> string) option" where
  "split_colon item =
     (if CHR '':'' \<in> set item
      then Some (takeWhile (\<lambda>c. c \<noteq> CHR '':'') item, tl (dropWhile (\<lambda>c. c \<noteq> CHR '':'') item)) else None)"

definition parse_external_reference :: "string \<Rightarrow> pydict" where
  "parse_external_reference reference =
     (let raw = py_strip reference
      in if raw = [] then []
         else foldl (\<lambda>parts item. case split_colon item of None \<Rightarrow> parts | Some (k, v) \<Rightarrow> dput parts (py_strip k) (PStr (py_strip v)))
                [] (py_split CHR ''|'' raw))"

definition first_ref :: "pydict \<Rightarrow> string \<Rightarrow> string \<Rightarrow> string" where
  "first_ref refs k k' = (if truthy (dget refs k) then py_str (dget refs k) else str_or_empty (dget refs k'))"

definition invoice_status_from_payment_status :: "string \<Rightarrow> invoice_status" where
  "invoice_status_from_payment_status payment_status =
     (let status = py_lower (py_strip payment_status)
      in if status = ''approved'' then INV_PAID
         else if status \<in> {''pending'', ''in_process'', ''in_mediation'', ''authorized''} then INV_PENDING
         else if status \<in> {''cancelled'', ''cancelled_by_user'', ''refunded'', ''charged_back''} then INV_CANCELLED
         else INV_FAILED)"

section \<open>Plans\<close>

definition cheapest_first :: "plan list \<Rightarrow> plan list" where
  "cheapest_first ps = sort_key p_price_monthly (filter (\<lambda>p. p_is_active p = Some True) ps)"

definition get_available_plans :: "billing_db \<Rightarrow> plan list" where
  "get_available_plans db = cheapest_first (bl_plans db)"

definition head_opt :: "'a list \<Rightarrow> 'a option" where
  "head_opt xs = (case xs of [] \<Rightarrow> None | x # _ \<Rightarrow> Some x)"

definition get_tenant_device_count :: "billing_db \<Rightarrow> string \<Rightarrow> int" where
  "get_tenant_device_count db tid = int (length (filter (\<lambda>d. d_tenant_id d = tid) (tb_devices (bl_tables db))))"

record capacity =
  ca_eligible :: bool
  ca_device_count :: int
  ca_max_devices :: int
  ca_user_count :: int
  ca_max_users :: int
  ca_storage_used_bytes :: int
  ca_storage_limit_bytes :: int
  ca_reason :: string

definition plan_capacity :: "int \<Rightarrow> int \<Rightarrow> int \<Rightarrow> plan \<Rightarrow> capacity" where
  "plan_capacity device_count user_count storage_used p =
     (let max_devices = p_max_devices p; max_users = p_max_users p; storage_limit = storage_limit_bytes (Some p);
          reasons =
            (if max_devices > 0 \<and> device_count > max_devices
             then [''Esse plano suporta ate '' @ show_int max_devices @ '' dispositivos e este cliente possui '' @ show_int device_count @ ''.'']
             else []) @
            (if max_users > 0 \<and> user_count > max_users
             then [''Esse plano suporta ate '' @ show_int max_users @ '' usuarios ativos e este cliente possui '' @ show_int user_count @ ''.'']
             else []) @
            (if storage_limit > 0 \<and> storage_used > storage_limit
             then [''Storage atual acima do limite do plano ('' @ format_bytes storage_used @ '' / '' @ format_bytes storage_limit @ '').'']
             else [])
      in \<lparr>ca_eligible = (reasons = []), ca_device_count = device_count, ca_max_devices = max_devices, ca_user_count = user_count,
          ca_max_users = max_users, ca_storage_used_bytes = storage_used, ca_storage_limit_bytes = storage_limit,
          ca_reason = py_join CHR '' '' reasons\<rparr>)"

definition get_plan_capacity_map :: "billing_db \<Rightarrow> string \<Rightarrow> plan list \<Rightarrow> (string \<times> capacity) list" where
  "get_plan_capacity_map db tid plans =
     map (\<lambda>p. (p_id p, plan_capacity (get_tenant_device_count db tid) (get_active_user_count (bl_tables db) tid)
                  (get_storage_used_bytes (bl_tables db) tid) p)) plans"

definition plan_amount_cents :: "plan \<Rightarrow> string \<Rightarrow> billing_error + int" where
  "plan_amount_cents p billing_cycle =
     (let cycle = py_lower (py_strip (if billing_cycle = [] then ''monthly'' else billing_cycle))
      in if cycle = ''yearly''
         then if p_price_yearly p \<le> 0 then Inl (ValueError ''Plano nao possui valor anual configurado.'') else Inr (p_price_yearly p)
         else Inr (p_price_monthly p))"

definition period_delta_days :: "plan \<Rightarrow> string \<Rightarrow> int" where
  "period_delta_days p billing_cycle =
     (let custom = plan_period_days (Some p)
      in if custom > 0 then custom else if py_lower (py_strip billing_cycle) = ''yearly'' then 365 else 30)"

section \<open>Checkout\<close>

text \<open>The payload of a preference. Its \<open>unit_price\<close> is the double nearest to the amount in reais; here it is
  the amount in cents.\<close>

record preference =
  pf_item_id :: string
  pf_title :: string
  pf_unit_price_cents :: int
  pf_payer_email :: string
  pf_external_reference :: string
  pf_metadata :: "(string \<times> string) list"
  pf_notification_url :: string
  pf_back_urls :: "(string \<times> string) list"

definition norm_cycle :: "string \<Rightarrow> string" where
  "norm_cycle c = py_lower (py_strip (if c = [] then ''monthly'' else c))"

definition build_preference_payload ::
  "pydict \<Rightarrow> tenant \<Rightarrow> plan \<Rightarrow> invoice \<Rightarrow> int \<Rightarrow> string \<Rightarrow> string \<Rightarrow> string \<Rightarrow> string \<Rightarrow> preference" where
  "build_preference_payload cfg t p bill amount_cents tenant_slug payer_email billing_cycle base_url =
     (let back = (\<lambda>r. (r, build_url base_url (''/tenant/'' @ tenant_slug @ ''/billing/payment-return?result='' @ r)))
      in \<lparr>pf_item_id = p_id p, pf_title = ''Assinatura '' @ p_name p @ '' ('' @ t_name t @ '')'',
          pf_unit_price_cents = amount_cents, pf_payer_email = payer_email,
          pf_external_reference = new_external_reference (t_id t) (p_id p) (i_id bill),
          pf_metadata = [(''tenant_id'', t_id t), (''plan_id'', p_id p), (''invoice_id'', i_id bill), (''tenant_slug'', tenant_slug),
             (''billing_cycle'', norm_cycle billing_cycle)],
          pf_notification_url = build_notification_url cfg base_url,
          pf_back_urls = map back [''success'', ''failure'', ''pending'']\<rparr>)"

text \<open>\<open>MercadoPagoService.select_checkout_url\<close>.\<close>

definition select_checkout_url :: "pydict \<Rightarrow> bool \<Rightarrow> pyval" where
  "select_checkout_url pref use_sandbox =
     (let a = (if use_sandbox then ''sandbox_init_point'' else ''init_point'');
          b = (if use_sandbox then ''init_point'' else ''sandbox_init_point'')
      in if truthy (dget pref a) then dget pref a else dget pref b)"

record checkout =
  co_checkout_url :: pyval
  co_invoice_id :: string
  co_preference_id :: string

text \<open>What the provider answers to a preference: the JSON object or an error.\<close>

type_synonym create_preference = "preference \<Rightarrow> billing_error + pydict"

definition ask_checkout :: "pydict \<Rightarrow> create_preference \<Rightarrow> preference \<Rightarrow> string \<Rightarrow> billing_error + checkout" where
  "ask_checkout cfg create pref invoice_id =
     (case create pref of
        Inl e \<Rightarrow> Inl e
      | Inr answer \<Rightarrow>
          (let url = select_checkout_url answer (truthy (dget cfg ''mercado_pago_use_sandbox''))
           in if \<not> truthy url then Inl (MercadoPagoError ''Mercado Pago nao retornou URL de checkout.'')
              else Inr \<lparr>co_checkout_url = url, co_invoice_id = invoice_id, co_preference_id = str_or_empty (dget answer ''id'')\<rparr>))"

definition find_tenant :: "billing_db \<Rightarrow> string \<Rightarrow> tenant option" where
  "find_tenant db tid = find (\<lambda>t. t_id t = tid) (bl_tenants db)"

definition find_plan :: "billing_db \<Rightarrow> string \<Rightarrow> plan option" where
  "find_plan db pid = find (\<lambda>p. p_id p = pid) (bl_plans db)"

definition new_invoice :: "string \<Rightarrow> string \<Rightarrow> tenant \<Rightarrow> plan \<Rightarrow> int \<Rightarrow> string \<Rightarrow> naive \<Rightarrow> invoice" where
  "new_invoice invoice_id number t p amount billing_cycle now =
     \<lparr>i_id = invoice_id, i_tenant_id = t_id t, i_number = ''INV-'' @ number, i_amount = amount, i_currency = ''BRL'',
      i_period_start = Some now, i_period_end = Some (now + period_delta_days p billing_cycle * DAY_US),
      i_status = INV_PENDING, i_due_date = now + DAY_US, i_paid_at = None, i_payment_method = Some ''mercado_pago'',
      i_payment_gateway_id = None\<rparr>"

definition checked_selection :: "billing_db \<Rightarrow> tenant \<Rightarrow> plan \<Rightarrow> string \<Rightarrow> billing_error + int" where
  "checked_selection db t p billing_cycle =
     (case validate_plan_selection (Some p) (get_device_count (bl_tables db) (t_id t))
         (Some (get_active_user_count (bl_tables db) (t_id t))) (Some (get_storage_used_bytes (bl_tables db) (t_id t))) of
        Some why \<Rightarrow> Inl (ValueError why)
      | None \<Rightarrow> plan_amount_cents p billing_cycle)"

definition create_checkout_for_plan ::
  "pydict \<Rightarrow> create_preference \<Rightarrow> string \<Rightarrow> string \<Rightarrow> naive \<Rightarrow> billing_db \<Rightarrow>
   string \<Rightarrow> string \<Rightarrow> string \<Rightarrow> string \<Rightarrow> string \<Rightarrow> string \<Rightarrow> (billing_error + checkout) \<times> billing_db" where
  "create_checkout_for_plan cfg create invoice_id number now db tenant_id tenant_slug plan_id payer_email base_url billing_cycle =
     (if \<not> is_checkout_available cfg then (Inl (ValueError ''Pagamento online nao configurado.''), db)
      else case need_uuid tenant_id ''tenant_id'' of Inl e \<Rightarrow> (Inl e, db) | Inr tid \<Rightarrow>
     (case need_uuid plan_id ''plan_id'' of Inl e \<Rightarrow> (Inl e, db) | Inr pid \<Rightarrow>
     (case find_tenant db tid of None \<Rightarrow> (Inl (ValueError ''Tenant nao encontrado.''), db) | Some t \<Rightarrow>
     (case find (\<lambda>p. p_id p = pid \<and> p_is_active p = Some True) (bl_plans db) of
        None \<Rightarrow> (Inl (ValueError ''Plano nao encontrado ou inativo.''), db) | Some p \<Rightarrow>
     (case checked_selection db t p billing_cycle of Inl e \<Rightarrow> (Inl e, db) | Inr amount \<Rightarrow>
     (let bill = new_invoice invoice_id number t p amount billing_cycle now;
          pref = build_preference_payload cfg t p bill amount tenant_slug
                   (if payer_email = [] then t_email t else payer_email) billing_cycle base_url
      in case ask_checkout cfg create pref invoice_id of
           Inl e \<Rightarrow> (Inl e, db)
         | Inr co \<Rightarrow> (Inr co, db\<lparr>bl_invoices := bl_invoices db @ [bill\<lparr>i_payment_gateway_id := Some (co_preference_id co)\<rparr>]\<rparr>)))))))"

definition create_checkout_for_existing_invoice ::
  "pydict \<Rightarrow> create_preference \<Rightarrow> billing_db \<Rightarrow> string \<Rightarrow> string \<Rightarrow> string \<Rightarrow> string \<Rightarrow> string \<Rightarrow>
   (billing_error + checkout) \<times> billing_db" where
  "create_checkout_for_existing_invoice cfg create db tenant_id tenant_slug invoice_id payer_email base_url =
     (if \<not> is_checkout_available cfg then (Inl (ValueError ''Pagamento online nao configurado.''), db)
      else case need_uuid tenant_id ''tenant_id'' of Inl e \<Rightarrow> (Inl e, db) | Inr tid \<Rightarrow>
     (case need_uuid invoice_id ''invoice_id'' of Inl e \<Rightarrow> (Inl e, db) | Inr iid \<Rightarrow>
     (case find_tenant db tid of None \<Rightarrow> (Inl (ValueError ''Tenant nao encontrado.''), db) | Some t \<Rightarrow>
     (case find (\<lambda>i. i_id i = iid \<and> i_tenant_id i = t_id t) (bl_invoices db) of
        None \<Rightarrow> (Inl (ValueError ''Fatura nao encontrada.''), db) | Some bill \<Rightarrow>
      if i_status bill = INV_PAID then (Inl (ValueError ''Essa fatura ja esta paga.''), db)
      else case (case t_plan t of Some p \<Rightarrow> Some p | None \<Rightarrow> head_opt (cheapest_first (bl_plans db))) of
        None \<Rightarrow> (Inl (ValueError ''Nenhum plano ativo disponivel para gerar checkout.''), db)
      | Some p \<Rightarrow>
          (case ask_checkout cfg create
              (build_preference_payload cfg t p bill (i_amount bill) tenant_slug
                 (if payer_email = [] then t_email t else payer_email) ''monthly'' base_url) (i_id bill) of
             Inl e \<Rightarrow> (Inl e, db)
           | Inr co \<Rightarrow>
               (Inr co, db\<lparr>bl_invoices := change_first (\<lambda>i. i_id i = iid \<and> i_tenant_id i = t_id t)
                  (\<lambda>i. i\<lparr>i_payment_gateway_id := Some (co_preference_id co), i_status := INV_PENDING\<rparr>) (bl_invoices db)\<rparr>))))))"

section \<open>Payments\<close>

definition is_open_sub :: "subscription_status \<Rightarrow> bool" where
  "is_open_sub st \<longleftrightarrow> st \<in> {SUB_ACTIVE, SUB_TRIAL, SUB_PAST_DUE}"

definition cancel_existing_subscriptions :: "subscription list \<Rightarrow> string \<Rightarrow> naive \<Rightarrow> subscription list" where
  "cancel_existing_subscriptions subs tid now =
     map (\<lambda>s. if su_tenant_id s = tid \<and> is_open_sub (su_status s)
              then s\<lparr>su_status := SUB_CANCELED, su_canceled_at := Some now, su_cancel_at_period_end := False\<rparr> else s) subs"

definition activate_subscription ::
  "billing_db \<Rightarrow> tenant \<Rightarrow> plan \<Rightarrow> naive \<Rightarrow> naive \<Rightarrow> naive \<Rightarrow> string \<Rightarrow> billing_db" where
  "activate_subscription db t p period_start period_end now hex =
     db\<lparr>bl_subs := cancel_existing_subscriptions (bl_subs db) (t_id t) now @
          [\<lparr>su_tenant_id = t_id t, su_plan_id = p_id p, su_status = SUB_ACTIVE, su_period_start = period_start,
            su_period_end = period_end, su_cancel_at_period_end = False, su_canceled_at = None,
            su_provider_id = ''mercadopago_'' @ hex\<rparr>],
        bl_tenants := change_first (\<lambda>x. t_id x = t_id t)
          (\<lambda>x. x\<lparr>t_plan := Some p, t_subscription_status := Some ''active'', t_current_period_end := Some period_end,
                 t_is_active := Some True, t_billing_blocked_at := None\<rparr>) (bl_tenants db)\<rparr>"

datatype payment_result =
    InvoiceNotFound
  | TenantNotFound
  | Handled string string string invoice_status

definition mark_invoice :: "string \<Rightarrow> pydict \<Rightarrow> invoice_status \<Rightarrow> naive \<Rightarrow> invoice \<Rightarrow> invoice" where
  "mark_invoice payment_id payment st now bill =
     bill\<lparr>i_status := st, i_payment_gateway_id := Some payment_id,
       i_payment_method := Some (''mercado_pago:'' @
         (if truthy (dget payment ''payment_type_id'') then py_str (dget payment ''payment_type_id'')
          else if truthy (dget payment ''payment_method_id'') then py_str (dget payment ''payment_method_id'') else ''unknown'')),
       i_paid_at := (if st = INV_PAID then Some now else i_paid_at bill)\<rparr>"

text \<open>The plan an approved payment buys: the one named in the reference, else the tenant's, else the cheapest.\<close>

definition paid_plan :: "billing_db \<Rightarrow> string \<Rightarrow> tenant \<Rightarrow> plan option" where
  "paid_plan db plan_id t =
     (case (if plan_id = [] then None else Option.bind (parse_uuid plan_id) (find_plan db)) of
        Some p \<Rightarrow> Some p
      | None \<Rightarrow> (case t_plan t of Some p \<Rightarrow> Some p | None \<Rightarrow> head_opt (cheapest_first (bl_plans db))))"

text \<open>What happens to an invoice found, its tenant and its subscription.\<close>

definition settle_invoice ::
  "naive \<Rightarrow> string \<Rightarrow> billing_db \<Rightarrow> string \<Rightarrow> pydict \<Rightarrow> string \<Rightarrow> string \<Rightarrow> invoice \<Rightarrow> (billing_error + payment_result) \<times> billing_db" where
  "settle_invoice now hex db payment_id payment payment_status plan_id bill =
     (let st = invoice_status_from_payment_status payment_status;
          db1 = db\<lparr>bl_invoices := change_first (\<lambda>i. i_id i = i_id bill) (mark_invoice payment_id payment st now) (bl_invoices db)\<rparr>
      in case find_tenant db (i_tenant_id bill) of
           None \<Rightarrow> (Inr TenantNotFound, db1)
         | Some t \<Rightarrow>
             if st = INV_PAID then
               (case paid_plan db plan_id t of
                  None \<Rightarrow> (Inl (ValueError ''Pagamento aprovado, mas nenhum plano ativo foi encontrado.''), db)
                | Some p \<Rightarrow>
                    (let period_start = or_now (i_period_start bill) now;
                         period_end = or_now (i_period_end bill) (period_start + 30 * DAY_US)
                     in (Inr (Handled (i_id bill) (t_id t) payment_status st),
                         activate_subscription db1 t p period_start period_end now hex)))
             else if st \<in> {INV_FAILED, INV_CANCELLED} then
               (Inr (Handled (i_id bill) (t_id t) payment_status st),
                db1\<lparr>bl_tenants := change_first (\<lambda>x. t_id x = t_id t) (\<lambda>x. x\<lparr>t_subscription_status := Some ''past_due''\<rparr>) (bl_tenants db1)\<rparr>)
             else (Inr (Handled (i_id bill) (t_id t) payment_status st), db1))"

definition apply_payment :: "naive \<Rightarrow> string \<Rightarrow> billing_db \<Rightarrow> string \<Rightarrow> pydict \<Rightarrow> (billing_error + payment_result) \<times> billing_db" where
  "apply_payment now hex db payment_id payment =
     (let payment_status = py_strip (py_lower (str_or_empty (dget payment ''status'')));
          refs = parse_external_reference (py_strip (str_or_empty (dget payment ''external_reference'')))
      in case Option.bind (parse_uuid (first_ref refs ''invoice'' ''invoice_id'')) (\<lambda>u. find (\<lambda>i. i_id i = u) (bl_invoices db)) of
           None \<Rightarrow> (Inr InvoiceNotFound, db)
         | Some bill \<Rightarrow> settle_invoice now hex db payment_id payment payment_status (first_ref refs ''plan'' ''plan_id'') bill)"

definition process_mercadopago_payment ::
  "pydict \<Rightarrow> (string \<Rightarrow> billing_error + pydict) \<Rightarrow> naive \<Rightarrow> string \<Rightarrow> billing_db \<Rightarrow> string \<Rightarrow>
   (billing_error + payment_result) \<times> billing_db" where
  "process_mercadopago_payment cfg get_payment now hex db payment_id0 =
     (if \<not> is_checkout_available cfg then (Inl (ValueError ''Pagamento online nao configurado.''), db)
      else let payment_id = py_strip payment_id0 in
      if payment_id = [] then (Inl (ValueError ''payment_id nao informado.''), db)
      else case get_payment payment_id of
        Inl e \<Rightarrow> (Inl e, db)
      | Inr payment \<Rightarrow> apply_payment now hex db payment_id payment)"

section \<open>Lemmas\<close>

definition open_subs :: "subscription list \<Rightarrow> string \<Rightarrow> subscription list" where
  "open_subs subs tid = filter (\<lambda>s. su_tenant_id s = tid \<and> is_open_sub (su_status s)) subs"

definition single_open :: "subscription list \<Rightarrow> bool" where
  "single_open subs \<longleftrightarrow> (\<forall>tid. length (open_subs subs tid) \<le> 1)"

lemma open_statuses [simp]: "is_open_sub SUB_ACTIVE" "\<not> is_open_sub SUB_CANCELED"
  by (simp_all add: is_open_sub_def)

lemma open_subs_append: "open_subs (a @ b) tid = open_subs a tid @ open_subs b tid"
  by (simp add: open_subs_def)

lemma open_subs_cancel: "open_subs (cancel_existing_subscriptions subs tid now) tid' = (if tid' = tid then [] else open_subs subs tid')"
  by (induction subs) (auto simp: open_subs_def cancel_existing_subscriptions_def)

lemma find_tenant_same:
  assumes "find (\<lambda>x. t_id x = tid) ts = Some t" "t_id (f t) = tid"
  shows "find (\<lambda>x. t_id x = tid) (change_first (\<lambda>x. t_id x = tid) f ts) = Some (f t)"
  using assms(1)
proof (induction ts)
  case (Cons x ts)
  then show ?case using assms(2) by (cases "t_id x = tid") simp_all
qed simp

lemma find_tenant_other:
  assumes "\<And>x. t_id (f x) = t_id x" "tid' \<noteq> tid"
  shows "find (\<lambda>x. t_id x = tid') (change_first (\<lambda>x. t_id x = tid) f ts) = find (\<lambda>x. t_id x = tid') ts"
  using assms by (induction ts) auto

lemma find_tenant_id: "find_tenant db tid = Some t \<Longrightarrow> t_id t = tid"
  by (auto simp: find_tenant_def find_Some_iff)

text \<open>What an activation does to the subscriptions and to the tenants.\<close>

lemma activate_subs:
  "open_subs (bl_subs (activate_subscription db t p s e now hex)) tid =
     (if tid = t_id t
      then [\<lparr>su_tenant_id = t_id t, su_plan_id = p_id p, su_status = SUB_ACTIVE, su_period_start = s, su_period_end = e,
             su_cancel_at_period_end = False, su_canceled_at = None, su_provider_id = ''mercadopago_'' @ hex\<rparr>]
      else open_subs (bl_subs db) tid)"
  by (simp add: activate_subscription_def open_subs_append open_subs_cancel)
    (simp add: open_subs_def)

lemma activate_tenant:
  assumes "find_tenant db (t_id t) = Some t"
  shows "find_tenant (activate_subscription db t p s e now hex) (t_id t) =
    Some (t\<lparr>t_plan := Some p, t_subscription_status := Some ''active'', t_current_period_end := Some e,
            t_is_active := Some True, t_billing_blocked_at := None\<rparr>)"
proof -
  define f where "f = (\<lambda>x::tenant. x\<lparr>t_plan := Some p, t_subscription_status := Some ''active'', t_current_period_end := Some e,
            t_is_active := Some True, t_billing_blocked_at := None\<rparr>)"
  have "t_id (f t) = t_id t" by (simp add: f_def)
  with find_tenant_same [of "t_id t" "bl_tenants db" t f] assms show ?thesis
    by (simp add: find_tenant_def activate_subscription_def f_def)
qed

lemma activate_other: "tid \<noteq> t_id t \<Longrightarrow> find_tenant (activate_subscription db t p s e now hex) tid = find_tenant db tid"
  by (simp add: find_tenant_def activate_subscription_def find_tenant_other)

lemma find_tenant_invoices [simp]: "find_tenant (db\<lparr>bl_invoices := x\<rparr>) tid = find_tenant db tid"
  by (simp add: find_tenant_def)

text \<open>A processed payment either leaves the subscriptions alone or activates one.\<close>

definition paid_outcome :: "naive \<Rightarrow> string \<Rightarrow> billing_db \<Rightarrow> billing_error + payment_result \<Rightarrow> billing_db \<Rightarrow> bool" where
  "paid_outcome now hex db r db' \<longleftrightarrow>
     (bl_subs db' = bl_subs db \<and> (\<forall>a b st. r \<noteq> Inr (Handled a b st INV_PAID)) \<and> (\<forall>e. r = Inl e \<longrightarrow> db' = db)) \<or>
     (\<exists>bill t p st bills. r = Inr (Handled (i_id bill) (t_id t) st INV_PAID) \<and> bill \<in> set (bl_invoices db) \<and>
       find_tenant db (i_tenant_id bill) = Some t \<and>
       db' = activate_subscription (db\<lparr>bl_invoices := bills\<rparr>) t p (or_now (i_period_start bill) now)
               (or_now (i_period_end bill) (or_now (i_period_start bill) now + 30 * DAY_US)) now hex)"

lemma settle_outcome:
  assumes "bill \<in> set (bl_invoices db)" "settle_invoice now hex db pid payment pst plan_id bill = (r, db')"
  shows "paid_outcome now hex db r db'"
proof (cases "find_tenant db (i_tenant_id bill)")
  case None
  with assms show ?thesis by (auto simp: settle_invoice_def Let_def paid_outcome_def)
next
  case (Some t)
  define st where "st = invoice_status_from_payment_status pst"
  show ?thesis
  proof (cases "st = INV_PAID")
    case True
    show ?thesis
    proof (cases "paid_plan db plan_id t")
      case None
      with assms Some True show ?thesis by (auto simp: settle_invoice_def Let_def paid_outcome_def st_def)
    next
      case p: (Some p)
      with assms Some True
      have "r = Inr (Handled (i_id bill) (t_id t) pst INV_PAID)"
        "db' = activate_subscription (db\<lparr>bl_invoices := change_first (\<lambda>i. i_id i = i_id bill) (mark_invoice pid payment st now) (bl_invoices db)\<rparr>)
            t p (or_now (i_period_start bill) now) (or_now (i_period_end bill) (or_now (i_period_start bill) now + 30 * DAY_US)) now hex"
        by (simp_all add: settle_invoice_def Let_def st_def)
      with assms(1) Some show ?thesis unfolding paid_outcome_def by blast
    qed
  next
    case False
    with assms Some show ?thesis by (auto simp: settle_invoice_def Let_def paid_outcome_def st_def split: if_splits)
  qed
qed

lemma paid_outcome_none: "(\<forall>a b st. r \<noteq> Inr (Handled a b st INV_PAID)) \<Longrightarrow> paid_outcome now hex db r db"
  by (simp add: paid_outcome_def)

lemma apply_outcome:
  assumes "apply_payment now hex db pid payment = (r, db')"
  shows "paid_outcome now hex db r db'"
proof -
  define refs where "refs = parse_external_reference (py_strip (str_or_empty (dget payment ''external_reference'')))"
  show ?thesis
  proof (cases "Option.bind (parse_uuid (first_ref refs ''invoice'' ''invoice_id'')) (\<lambda>u. find (\<lambda>i. i_id i = u) (bl_invoices db))")
    case None
    with assms show ?thesis by (auto simp: apply_payment_def Let_def refs_def [symmetric] intro: paid_outcome_none)
  next
    case (Some bill)
    then have "bill \<in> set (bl_invoices db)" by (auto simp: bind_eq_Some_conv find_Some_iff)
    from settle_outcome [OF this] assms Some show ?thesis by (simp add: apply_payment_def Let_def refs_def [symmetric])
  qed
qed

lemma process_outcome:
  assumes "process_mercadopago_payment cfg get_payment now hex db pid = (r, db')"
  shows "paid_outcome now hex db r db'"
  using assms by (auto simp: process_mercadopago_payment_def Let_def intro: paid_outcome_none apply_outcome split: if_splits sum.splits)

section \<open>Histories\<close>

text \<open>What changes the billing tables: checkouts, payments and passes of the billing policy, in any order.\<close>

inductive billing_step :: "billing_db \<Rightarrow> billing_db \<Rightarrow> bool" where
  checkout: "billing_step db (snd (create_checkout_for_plan cfg create iid number now db tid slug pid email url cycle))"
| again: "billing_step db (snd (create_checkout_for_existing_invoice cfg create db tid slug iid email url))"
| payment: "billing_step db (snd (process_mercadopago_payment cfg get_payment now hex db pid))"
| policy: "billing_step db (db\<lparr>bl_tenants := snd (enforce_access_policy commits now (bl_tenants db))\<rparr>)"

inductive_cases billing_stepE: "billing_step db db'"

lemma checkout_cases:
  "(\<exists>e. create_checkout_for_plan cfg create iid number now db tid slug pid email url cycle = (Inl e, db)) \<or>
   (\<exists>co t p amount. find_tenant db (t_id t) = Some t \<and> p \<in> set (bl_plans db) \<and> p_is_active p = Some True \<and>
      checked_selection db t p cycle = Inr amount \<and>
      create_checkout_for_plan cfg create iid number now db tid slug pid email url cycle =
        (Inr co, db\<lparr>bl_invoices := bl_invoices db @
           [(new_invoice iid number t p amount cycle now)\<lparr>i_payment_gateway_id := Some (co_preference_id co)\<rparr>]\<rparr>))"
proof (cases "\<exists>e. create_checkout_for_plan cfg create iid number now db tid slug pid email url cycle = (Inl e, db)")
  case False
  then obtain u where u: "need_uuid tid ''tenant_id'' = Inr u" and av: "is_checkout_available cfg"
    by (cases "need_uuid tid ''tenant_id''") (auto simp: create_checkout_for_plan_def split: if_splits)
  from False u av obtain v where v: "need_uuid pid ''plan_id'' = Inr v"
    by (cases "need_uuid pid ''plan_id''") (auto simp: create_checkout_for_plan_def)
  from False u av v obtain t where t: "find_tenant db u = Some t"
    by (cases "find_tenant db u") (auto simp: create_checkout_for_plan_def)
  from False u av v t obtain p where p: "find (\<lambda>p. p_id p = v \<and> p_is_active p = Some True) (bl_plans db) = Some p"
    by (cases "find (\<lambda>p. p_id p = v \<and> p_is_active p = Some True) (bl_plans db)") (auto simp: create_checkout_for_plan_def)
  from False u av v t p obtain amount where a: "checked_selection db t p cycle = Inr amount"
    by (cases "checked_selection db t p cycle") (auto simp: create_checkout_for_plan_def)
  define answer where "answer = ask_checkout cfg create (build_preference_payload cfg t p
      (new_invoice iid number t p amount cycle now) amount slug (if email = [] then t_email t else email) cycle url) iid"
  have run: "create_checkout_for_plan cfg create iid number now db tid slug pid email url cycle =
      (case answer of
         Inl e \<Rightarrow> (Inl e, db)
       | Inr co \<Rightarrow> (Inr co, db\<lparr>bl_invoices := bl_invoices db @
           [(new_invoice iid number t p amount cycle now)\<lparr>i_payment_gateway_id := Some (co_preference_id co)\<rparr>]\<rparr>))"
    using u av v t p a by (simp add: create_checkout_for_plan_def Let_def answer_def)
  have here: "find_tenant db (t_id t) = Some t" using t find_tenant_id [OF t] by simp
  from p have "p \<in> set (bl_plans db)" "p_is_active p = Some True" by (auto simp: find_Some_iff)
  with run False here a show ?thesis by (auto split: sum.splits)
qed simp

lemma checkout_subs: "bl_subs (snd (create_checkout_for_plan cfg create iid number now db tid slug pid email url cycle)) = bl_subs db"
proof -
  from checkout_cases [of cfg create iid number now db tid slug pid email url cycle]
  show ?thesis by (elim disjE exE conjE) simp_all
qed

lemma again_subs: "bl_subs (snd (create_checkout_for_existing_invoice cfg create db tid slug iid email url)) = bl_subs db"
  by (auto simp: create_checkout_for_existing_invoice_def Let_def split: sum.splits option.splits)

lemma outcome_single:
  assumes "paid_outcome now hex db r db'" "single_open (bl_subs db)"
  shows "single_open (bl_subs db')"
  using assms unfolding paid_outcome_def
  by (elim disjE exE conjE) (simp_all add: single_open_def activate_subs)

lemma step_single: "billing_step db db' \<Longrightarrow> single_open (bl_subs db) \<Longrightarrow> single_open (bl_subs db')"
proof (erule billing_stepE, goal_cases)
  case (3 cfg get_payment now hex pid)
  then show ?case using process_outcome outcome_single by (metis prod.collapse)
qed (simp_all add: checkout_subs again_subs)

text \<open>Identifiers such as UUIDs: no separator of a reference, no space.\<close>

definition plain_id :: "string \<Rightarrow> bool" where
  "plain_id s \<longleftrightarrow> CHR ''|'' \<notin> set s \<and> list_all (\<lambda>c. \<not> py_is_space c) s"

lemma strip_plain [simp]: "plain_id s \<Longrightarrow> py_strip s = s"
  by (simp add: plain_id_def py_strip_no_space)

lemma split_colon_prefix: "CHR '':'' \<notin> set k \<Longrightarrow> split_colon (k @ CHR '':'' # v) = Some (k, v)"
proof -
  assume k: "CHR '':'' \<notin> set k"
  then have "takeWhile (\<lambda>c. c \<noteq> CHR '':'') (k @ CHR '':'' # v) = k" by (auto simp: takeWhile_append)
  moreover from k have "dropWhile (\<lambda>c. c \<noteq> CHR '':'') (k @ CHR '':'' # v) = CHR '':'' # v"
    by (subst dropWhile_append2) auto
  ultimately show ?thesis by (simp add: split_colon_def)
qed

lemma activate_invoices: "bl_invoices (activate_subscription db t p s e now hex) = bl_invoices db"
  by (simp add: activate_subscription_def)

lemma mark_keeps_id: "i_id (mark_invoice pid payment st now bill) = i_id bill"
  by (simp add: mark_invoice_def)

lemma change_first_row:
  assumes "find (\<lambda>x. key x = k) xs = Some r" "\<And>x. key (g x) = key x"
  shows "find (\<lambda>x. key x = k) (change_first (\<lambda>x. key x = k) g xs) = Some (g r) \<and>
    (\<forall>o'. o' \<noteq> k \<longrightarrow> find (\<lambda>x. key x = o') (change_first (\<lambda>x. key x = k) g xs) = find (\<lambda>x. key x = o') xs)"
  using assms by (induction xs) auto

text \<open>An approved payment, followed back to the invoice its reference names.\<close>

lemma settle_paid:
  assumes "settle_invoice now hex db pid payment pst plan_id bill = (Inr (Handled iid tid st INV_PAID), db')"
  shows "\<exists>t p. st = pst \<and> invoice_status_from_payment_status pst = INV_PAID \<and> iid = i_id bill \<and> find_tenant db (i_tenant_id bill) = Some t \<and>
    t_id t = tid \<and> paid_plan db plan_id t = Some p \<and>
    db' = activate_subscription (db\<lparr>bl_invoices := change_first (\<lambda>i. i_id i = iid) (mark_invoice pid payment INV_PAID now) (bl_invoices db)\<rparr>)
            t p (or_now (i_period_start bill) now) (or_now (i_period_end bill) (or_now (i_period_start bill) now + 30 * DAY_US)) now hex"
  using assms by (auto simp: settle_invoice_def Let_def split: option.splits if_splits)

lemma process_approved:
  assumes "process_mercadopago_payment cfg get_payment now hex db pid = (Inr (Handled iid tid st INV_PAID), db')"
  obtains payment refs bill t p where "get_payment (py_strip pid) = Inr payment"
    "refs = parse_external_reference (py_strip (str_or_empty (dget payment ''external_reference'')))"
    "st = py_strip (py_lower (str_or_empty (dget payment ''status'')))" "invoice_status_from_payment_status st = INV_PAID"
    "parse_uuid (first_ref refs ''invoice'' ''invoice_id'') = Some iid" "find (\<lambda>i. i_id i = iid) (bl_invoices db) = Some bill"
    "find_tenant db (i_tenant_id bill) = Some t" "t_id t = tid" "paid_plan db (first_ref refs ''plan'' ''plan_id'') t = Some p"
    "db' = activate_subscription (db\<lparr>bl_invoices := change_first (\<lambda>i. i_id i = iid) (mark_invoice (py_strip pid) payment INV_PAID now) (bl_invoices db)\<rparr>)
       t p (or_now (i_period_start bill) now) (or_now (i_period_end bill) (or_now (i_period_start bill) now + 30 * DAY_US)) now hex"
proof -
  from assms obtain payment where pay: "get_payment (py_strip pid) = Inr payment"
    and run: "apply_payment now hex db (py_strip pid) payment = (Inr (Handled iid tid st INV_PAID), db')"
    by (auto simp: process_mercadopago_payment_def Let_def split: if_splits sum.splits)
  define refs where "refs = parse_external_reference (py_strip (str_or_empty (dget payment ''external_reference'')))"
  from run obtain u bill where u: "parse_uuid (first_ref refs ''invoice'' ''invoice_id'') = Some u"
    "find (\<lambda>i. i_id i = u) (bl_invoices db) = Some bill"
    and settle: "settle_invoice now hex db (py_strip pid) payment (py_strip (py_lower (str_or_empty (dget payment ''status''))))
      (first_ref refs ''plan'' ''plan_id'') bill = (Inr (Handled iid tid st INV_PAID), db')"
    by (auto simp: apply_payment_def Let_def refs_def bind_eq_Some_conv split: option.splits)
  from u(2) have "i_id bill = u" by (auto simp: find_Some_iff)
  with settle_paid [OF settle] u show thesis
    by (elim exE conjE) (rule that [OF pay refs_def]; simp)
qed

section \<open>Properties\<close>

text \<open>C37: A tenant never has two open subscriptions: along any history of checkouts, payments and passes of the
  billing policy, in any order and whatever the provider answers, each tenant has at most one subscription
  that is active, on trial or past due.\<close>

theorem one_open_subscription:
  assumes "billing_step\<^sup>*\<^sup>* db db'" and "single_open (bl_subs db)"
  shows "single_open (bl_subs db')"
  using assms by (induction rule: rtranclp_induct) (auto intro: step_single)

definition empty_billing :: billing_db where
  "empty_billing = \<lparr>bl_tenants = [blank_tenant], bl_plans = [blank_plan], bl_invoices = [], bl_subs = [],
     bl_tables = \<lparr>tb_devices = [], tb_users = [], tb_backups = [], tb_metrics = []\<rparr>\<rparr>"

theorem one_open_subscription_witness:
  "single_open (bl_subs (activate_subscription empty_billing blank_tenant blank_plan 0 1 0 [])) \<and>
   single_open (bl_subs (snd (process_mercadopago_payment [] (\<lambda>_. Inr []) 0 [] empty_billing ''x'')))"
proof -
  have start: "single_open (bl_subs empty_billing)" by (simp add: single_open_def empty_billing_def open_subs_def)
  have "billing_step\<^sup>*\<^sup>* empty_billing (snd (process_mercadopago_payment [] (\<lambda>_. Inr []) 0 [] empty_billing ''x''))"
    by (rule r_into_rtranclp) (rule billing_step.payment)
  from one_open_subscription [OF this start] start show ?thesis by (simp add: single_open_def activate_subs)
qed

text \<open>C38: An approved payment gives access for the period of its invoice. The invoice a payment settles is the one its reference
  names, and it is paid from now on; afterwards the tenant of this invoice is active, unblocked, with the end of the invoice's
  period as its due date, on the plan the reference names (or its own, or the cheapest), and has exactly one open subscription,
  from the start to the end of this period (from now, and for thirty days, when the invoice has none); the billing policy does
  not block it before the period end and the grace days have passed, and no other invoice, and no other tenant's row or open
  subscriptions have changed.\<close>

theorem approved_payment_gives_access:
  assumes "process_mercadopago_payment cfg get_payment now hex db pid = (Inr (Handled iid tid st INV_PAID), db')"
  shows "\<exists>payment refs bill t t' p. get_payment (py_strip pid) = Inr payment \<and>
    refs = parse_external_reference (py_strip (str_or_empty (dget payment ''external_reference''))) \<and>
    st = py_strip (py_lower (str_or_empty (dget payment ''status''))) \<and> invoice_status_from_payment_status st = INV_PAID \<and>
    parse_uuid (first_ref refs ''invoice'' ''invoice_id'') = Some iid \<and> find (\<lambda>i. i_id i = iid) (bl_invoices db) = Some bill \<and>
    find (\<lambda>i. i_id i = iid) (bl_invoices db') = Some (mark_invoice (py_strip pid) payment INV_PAID now bill) \<and>
    i_tenant_id bill = tid \<and> find_tenant db tid = Some t \<and> paid_plan db (first_ref refs ''plan'' ''plan_id'') t = Some p \<and>
    (let period_start = (case i_period_start bill of Some s \<Rightarrow> s | None \<Rightarrow> now);
         period_end = (case i_period_end bill of Some e \<Rightarrow> e | None \<Rightarrow> period_start + 30 * DAY_US)
     in find_tenant db' tid = Some t' \<and> flag (t_is_active t') \<and> t_subscription_status t' = Some ''active'' \<and>
        t_billing_blocked_at t' = None \<and> t_plan t' = Some p \<and> resolve_due_at t' = Some period_end \<and>
        map (\<lambda>s. (su_status s, su_plan_id s, su_period_start s, su_period_end s)) (open_subs (bl_subs db') tid) =
          [(SUB_ACTIVE, p_id p, period_start, period_end)] \<and>
        (\<forall>later < period_end + plan_grace_days (Some p) * DAY_US. \<not> ev_should_block (evaluate_tenant t' later))) \<and>
    (\<forall>other. other \<noteq> tid \<longrightarrow> find_tenant db' other = find_tenant db other \<and>
       open_subs (bl_subs db') other = open_subs (bl_subs db) other) \<and>
    (\<forall>other. other \<noteq> iid \<longrightarrow> find (\<lambda>i. i_id i = other) (bl_invoices db') = find (\<lambda>i. i_id i = other) (bl_invoices db))"
proof -
  from process_approved [OF assms] obtain payment refs bill t p where
    pay: "get_payment (py_strip pid) = Inr payment" "refs = parse_external_reference (py_strip (str_or_empty (dget payment ''external_reference'')))"
      "st = py_strip (py_lower (str_or_empty (dget payment ''status'')))" "invoice_status_from_payment_status st = INV_PAID"
      "parse_uuid (first_ref refs ''invoice'' ''invoice_id'') = Some iid"
    and bill: "find (\<lambda>i. i_id i = iid) (bl_invoices db) = Some bill" and t: "find_tenant db (i_tenant_id bill) = Some t" "t_id t = tid"
    and p: "paid_plan db (first_ref refs ''plan'' ''plan_id'') t = Some p"
    and db': "db' = activate_subscription (db\<lparr>bl_invoices := change_first (\<lambda>i. i_id i = iid) (mark_invoice (py_strip pid) payment INV_PAID now) (bl_invoices db)\<rparr>)
               t p (or_now (i_period_start bill) now) (or_now (i_period_end bill) (or_now (i_period_start bill) now + 30 * DAY_US)) now hex" .
  define b where "b = or_now (i_period_start bill) now"
  define e where "e = or_now (i_period_end bill) (b + 30 * DAY_US)"
  define t' where "t' = t\<lparr>t_plan := Some p, t_subscription_status := Some ''active'', t_current_period_end := Some e,
            t_is_active := Some True, t_billing_blocked_at := None\<rparr>"
  note db' = db' [folded b_def, folded e_def]
  have period: "b = (case i_period_start bill of Some s \<Rightarrow> s | None \<Rightarrow> now)" "e = (case i_period_end bill of Some e \<Rightarrow> e | None \<Rightarrow> b + 30 * DAY_US)"
    by (simp_all add: e_def or_now_def) (simp_all add: b_def or_now_def)
  have tid: "i_tenant_id bill = tid" using find_tenant_id [OF t(1)] t(2) by simp
  have row: "find_tenant db' tid = Some t'"
    using activate_tenant [of "db\<lparr>bl_invoices := bills\<rparr>" t for bills] t tid unfolding db' t'_def by auto
  have due: "resolve_due_at t' = Some e" by (simp add: t'_def resolve_due_at_def)
  have plan: "t_plan t' = Some p" by (simp add: t'_def)
  have safe: "\<forall>later < e + plan_grace_days (Some p) * DAY_US. \<not> ev_should_block (evaluate_tenant t' later)"
    unfolding blocked_iff due plan by auto
  have others: "\<forall>other. other \<noteq> tid \<longrightarrow> find_tenant db' other = find_tenant db other \<and>
       open_subs (bl_subs db') other = open_subs (bl_subs db) other"
    using t(2) by (auto simp: db' activate_subs activate_other)
  have sub: "map (\<lambda>s. (su_status s, su_plan_id s, su_period_start s, su_period_end s)) (open_subs (bl_subs db') tid) = [(SUB_ACTIVE, p_id p, b, e)]"
    using t(2) by (simp add: db' activate_subs)
  have state: "flag (t_is_active t')" "t_subscription_status t' = Some ''active''" "t_billing_blocked_at t' = None"
    by (simp_all add: t'_def flag_def)
  have paid: "find (\<lambda>i. i_id i = iid) (bl_invoices db') = Some (mark_invoice (py_strip pid) payment INV_PAID now bill)"
    "\<forall>other. other \<noteq> iid \<longrightarrow> find (\<lambda>i. i_id i = other) (bl_invoices db') = find (\<lambda>i. i_id i = other) (bl_invoices db)"
    using change_first_row [where g = "mark_invoice (py_strip pid) payment INV_PAID now" and key = i_id, OF bill mark_keeps_id]
    by (simp_all add: db' activate_invoices)
  have t0: "find_tenant db tid = Some t" using t(1) tid by simp
  show ?thesis
    by (rule exI [of _ payment], rule exI [of _ refs], rule exI [of _ bill], rule exI [of _ t], rule exI [of _ t'], rule exI [of _ p],
        unfold Let_def period(1) [symmetric] period(2) [symmetric],
        intro conjI pay bill paid tid t0 p row state plan due sub safe others)
qed

definition sample_config_dict :: pydict where
  "sample_config_dict = [(''mercado_pago_access_token'', PStr ''tok'')]"

definition uuid_a :: string where "uuid_a = ''00000000-0000-0000-0000-00000000000a''"
definition uuid_b :: string where "uuid_b = ''00000000-0000-0000-0000-00000000000b''"
definition uuid_c :: string where "uuid_c = ''00000000-0000-0000-0000-00000000000c''"

definition sample_invoice :: invoice where
  "sample_invoice = \<lparr>i_id = uuid_c, i_tenant_id = uuid_a, i_number = ''INV-1'', i_amount = 100, i_currency = ''BRL'',
     i_period_start = Some 0, i_period_end = Some 500, i_status = INV_PENDING, i_due_date = 0, i_paid_at = None,
     i_payment_method = None, i_payment_gateway_id = None\<rparr>"

definition sample_billing :: billing_db where
  "sample_billing = \<lparr>bl_tenants = [blank_tenant\<lparr>t_id := uuid_a, t_is_active := Some False\<rparr>], bl_plans = [blank_plan\<lparr>p_id := uuid_b\<rparr>],
     bl_invoices = [sample_invoice], bl_subs = [],
     bl_tables = \<lparr>tb_devices = [], tb_users = [], tb_backups = [], tb_metrics = []\<rparr>\<rparr>"

definition sample_payment :: pydict where
  "sample_payment = [(''status'', PStr ''approved''), (''external_reference'', PStr (''invoice:'' @ uuid_c))]"

lemma sample_payment_runs:
  "\<exists>st db'. process_mercadopago_payment sample_config_dict (\<lambda>_. Inr sample_payment) 7 ''ab'' sample_billing ''77'' =
     (Inr (Handled uuid_c uuid_a st INV_PAID), db')"
proof -
  have ready: "is_checkout_available sample_config_dict" "py_strip ''77'' = ''77''" by code_simp+
  have pst: "py_strip (py_lower (str_or_empty (dget sample_payment ''status''))) = ''approved''" by code_simp
  have ref: "first_ref (parse_external_reference (py_strip (str_or_empty (dget sample_payment ''external_reference'')))) ''invoice'' ''invoice_id'' = uuid_c"
    "first_ref (parse_external_reference (py_strip (str_or_empty (dget sample_payment ''external_reference'')))) ''plan'' ''plan_id'' = []"
    "parse_uuid uuid_c = Some uuid_c" by code_simp+
  have st: "invoice_status_from_payment_status ''approved'' = INV_PAID" by code_simp
  show ?thesis
    using ready pst ref st
    by (simp add: process_mercadopago_payment_def apply_payment_def settle_invoice_def Let_def sample_billing_def sample_invoice_def
        find_tenant_def paid_plan_def blank_tenant_def)
qed

theorem approved_payment_gives_access_witness:
  "\<exists>st db' t. process_mercadopago_payment sample_config_dict (\<lambda>_. Inr sample_payment) 7 ''ab'' sample_billing ''77'' =
     (Inr (Handled uuid_c uuid_a st INV_PAID), db') \<and> find_tenant db' uuid_a = Some t \<and> flag (t_is_active t)"
proof -
  obtain st db' where run: "process_mercadopago_payment sample_config_dict (\<lambda>_. Inr sample_payment) 7 ''ab'' sample_billing ''77'' =
     (Inr (Handled uuid_c uuid_a st INV_PAID), db')" using sample_payment_runs by blast
  from approved_payment_gives_access [OF run] obtain t' where "find_tenant db' uuid_a = Some t'" "flag (t_is_active t')"
    unfolding Let_def by (elim exE conjE)
  with run show ?thesis by blast
qed

text \<open>A checkout is all or nothing: one that fails leaves every table as it was; one that succeeds adds exactly
  one pending invoice, for the price of the chosen cycle, and leaves the rest. Whatever the cycle, yearly
  included, the invoice covers the same number of days, the billing period of the plan.\<close>

theorem checkout_adds_one_invoice:
  assumes "create_checkout_for_plan cfg create iid number now db tid slug pid email url cycle = (r, db')"
  shows "(\<exists>e. r = Inl e \<and> db' = db) \<or>
    (\<exists>co bill p. r = Inr co \<and> db' = db\<lparr>bl_invoices := bl_invoices db @ [bill]\<rparr> \<and> p \<in> set (bl_plans db) \<and> i_id bill = iid \<and> i_status bill = INV_PENDING \<and>
       plan_amount_cents p cycle = Inr (i_amount bill) \<and> i_period_start bill = Some now \<and>
       i_period_end bill = Some (now + plan_period_days (Some p) * DAY_US))"
proof -
  have period: "period_delta_days p cycle = plan_period_days (Some p)" for p
    by (simp add: period_delta_days_def plan_period_days_def Let_def DEFAULT_BILLING_PERIOD_DAYS_def)
  from checkout_cases [of cfg create iid number now db tid slug pid email url cycle] show ?thesis
  proof (elim disjE exE conjE)
    fix co t p amount
    assume p: "p \<in> set (bl_plans db)" and sel: "checked_selection db t p cycle = Inr amount"
      and run: "create_checkout_for_plan cfg create iid number now db tid slug pid email url cycle =
        (Inr co, db\<lparr>bl_invoices := bl_invoices db @
           [(new_invoice iid number t p amount cycle now)\<lparr>i_payment_gateway_id := Some (co_preference_id co)\<rparr>]\<rparr>)"
    from sel have "plan_amount_cents p cycle = Inr amount" by (simp add: checked_selection_def split: option.splits)
    with p run assms show ?thesis
      by (intro disjI2 exI [of _ co] exI [of _ "(new_invoice iid number t p amount cycle now)\<lparr>i_payment_gateway_id := Some (co_preference_id co)\<rparr>"] exI [of _ p])
        (simp add: new_invoice_def period)
  qed (use assms in simp)
qed

theorem checkout_adds_one_invoice_witness:
  "snd (create_checkout_for_plan [] (\<lambda>_. Inr []) uuid_c ''1'' 0 sample_billing uuid_a ''s'' uuid_b [] [] ''yearly'') = sample_billing"
proof -
  obtain r db' where run: "create_checkout_for_plan [] (\<lambda>_. Inr []) uuid_c ''1'' 0 sample_billing uuid_a ''s'' uuid_b [] [] ''yearly'' = (r, db')"
    by fastforce
  have "\<not> is_checkout_available []" by code_simp
  with run have "\<exists>e. r = Inl e" by (auto simp: create_checkout_for_plan_def)
  with checkout_adds_one_invoice [OF run] run show ?thesis by auto
qed

text \<open>The reference sent with a checkout is read back when the payment is reported: the tenant, plan and invoice
  parsed from it are those it was made of.\<close>

theorem reference_roundtrip:
  assumes "plain_id t" and "plain_id p" and "plain_id i"
  shows "first_ref (parse_external_reference (new_external_reference t p i)) ''tenant'' ''tenant_id'' = t \<and>
    first_ref (parse_external_reference (new_external_reference t p i)) ''plan'' ''plan_id'' = p \<and>
    first_ref (parse_external_reference (new_external_reference t p i)) ''invoice'' ''invoice_id'' = i"
proof -
  have pieces: "new_external_reference t p i = (''tenant:'' @ t) @ CHR ''|'' # (''plan:'' @ p) @ CHR ''|'' # (''invoice:'' @ i)"
    by (simp add: new_external_reference_def)
  have bars: "CHR ''|'' \<notin> set (''tenant:'' @ t)" "CHR ''|'' \<notin> set (''plan:'' @ p)" "CHR ''|'' \<notin> set (''invoice:'' @ i)"
    using assms by (simp_all add: plain_id_def)
  have parts: "py_split CHR ''|'' (new_external_reference t p i) = [''tenant:'' @ t, ''plan:'' @ p, ''invoice:'' @ i]"
    unfolding pieces by (simp only: py_split_append_sep [OF bars(1)] py_split_append_sep [OF bars(2)] py_split_absent [OF bars(3)])
  have "list_all (\<lambda>c. \<not> py_is_space c) (new_external_reference t p i)"
    using assms by (simp add: new_external_reference_def plain_id_def py_is_space_def)
  then have raw: "py_strip (new_external_reference t p i) = new_external_reference t p i" by (rule py_strip_no_space)
  have keys: "split_colon (''tenant:'' @ t) = Some (''tenant'', t)" "split_colon (''plan:'' @ p) = Some (''plan'', p)"
    "split_colon (''invoice:'' @ i) = Some (''invoice'', i)"
    using split_colon_prefix [of "''tenant''" t] split_colon_prefix [of "''plan''" p] split_colon_prefix [of "''invoice''" i] by simp_all
  have strip: "py_strip ''tenant'' = ''tenant''" "py_strip ''plan'' = ''plan''" "py_strip ''invoice'' = ''invoice''" by code_simp+
  have "parse_external_reference (new_external_reference t p i) =
      [(''tenant'', PStr t), (''plan'', PStr p), (''invoice'', PStr i)]"
    unfolding parse_external_reference_def Let_def raw parts foldl.simps keys option.case prod.case strip
    using assms by (simp add: new_external_reference_def)
  then show ?thesis by (simp add: first_ref_def py_str_def)
qed

theorem reference_roundtrip_witness:
  "first_ref (parse_external_reference (new_external_reference ''t1'' ''p2'' ''i3'')) ''invoice'' ''invoice_id'' = ''i3''"
  using reference_roundtrip [of "''t1''" "''p2''" "''i3''"] by (simp add: plain_id_def py_is_space_def)

end
