(* ===== verification/Totp.thy ===== *)
theory Totp
  imports Prelude "HOL-Library.Word"
begin

text \<open>
  One-time codes (\<open>src/app/core/totp.py\<close>) and the rule for passwords (\<open>src/app/core/security.py\<close>), with what
  they use of the standard library: \<open>base64.b32decode\<close>, \<open>struct\<close>, SHA-1 and HMAC, on bytes as \<open>8 word\<close>.
\<close>

unbundle bit_operations_syntax

type_synonym bytes = "8 word list"

section \<open>SHA-1\<close>

definition be32 :: "32 word \<Rightarrow> bytes" where
  "be32 w = map (\<lambda>i. ucast (drop_bit i w)) [24, 16, 8, 0]"

definition be64 :: "64 word \<Rightarrow> bytes" where
  "be64 w = map (\<lambda>i. ucast (drop_bit i w)) [56, 48, 40, 32, 24, 16, 8, 0]"

definition from_be :: "bytes \<Rightarrow> 32 word" where
  "from_be bs = foldl (\<lambda>acc b. push_bit 8 acc OR ucast b) 0 bs"

definition sha1_pad :: "bytes \<Rightarrow> bytes" where
  "sha1_pad m =
     (let n = length m; z = (119 - n mod 64) mod 64
      in m @ [0x80] @ replicate z 0 @ be64 (of_nat (8 * n)))"

fun chunks :: "nat \<Rightarrow> nat \<Rightarrow> 'a list \<Rightarrow> 'a list list" where
  "chunks 0 k xs = []"
| "chunks (Suc fuel) k xs = (if xs = [] then [] else take k xs # chunks fuel k (drop k xs))"

text \<open>The message schedule, newest word first.\<close>

fun schedule_from :: "nat \<Rightarrow> 32 word list \<Rightarrow> 32 word list" where
  "schedule_from 0 ws = ws"
| "schedule_from (Suc n) ws =
     schedule_from n (word_rotl 1 (ws ! 2 XOR ws ! 7 XOR ws ! 13 XOR ws ! 15) # ws)"

definition sha1_schedule :: "bytes \<Rightarrow> 32 word list" where
  "sha1_schedule block = rev (schedule_from 64 (rev (map from_be (chunks 16 4 block))))"

type_synonym sha1_state = "32 word \<times> 32 word \<times> 32 word \<times> 32 word \<times> 32 word"

definition sha1_f :: "nat \<Rightarrow> 32 word \<Rightarrow> 32 word \<Rightarrow> 32 word \<Rightarrow> 32 word" where
  "sha1_f t b c d =
     (if t < 20 then (b AND c) OR (NOT b AND d)
      else if t < 40 then b XOR c XOR d
      else if t < 60 then (b AND c) OR (b AND d) OR (c AND d)
      else b XOR c XOR d)"

definition sha1_k :: "nat \<Rightarrow> 32 word" where
  "sha1_k t = (if t < 20 then 0x5A827999 else if t < 40 then 0x6ED9EBA1 else if t < 60 then 0x8F1BBCDC else 0xCA62C1D6)"

fun sha1_rounds :: "nat \<Rightarrow> 32 word list \<Rightarrow> sha1_state \<Rightarrow> sha1_state" where
  "sha1_rounds t [] s = s"
| "sha1_rounds t (w # ws) (a, b, c, d, e) =
     sha1_rounds (Suc t) ws (word_rotl 5 a + sha1_f t b c d + e + w + sha1_k t, a, word_rotl 30 b, c, d)"

definition sha1_block :: "sha1_state \<Rightarrow> bytes \<Rightarrow> sha1_state" where
  "sha1_block s block =
     (let (a, b, c, d, e) = s; (a', b', c', d', e') = sha1_rounds 0 (sha1_schedule block) s
      in (a + a', b + b', c + c', d + d', e + e'))"

definition sha1 :: "bytes \<Rightarrow> bytes" where
  "sha1 m =
     (let p = sha1_pad m;
          (a, b, c, d, e) = foldl sha1_block (0x67452301, 0xEFCDAB89, 0x98BADCFE, 0x10325476, 0xC3D2E1F0) (chunks (length p) 64 p)
      in be32 a @ be32 b @ be32 c @ be32 d @ be32 e)"

text \<open>\<open>hmac.new(key, msg, hashlib.sha1).digest()\<close>.\<close>

definition hmac_sha1 :: "bytes \<Rightarrow> bytes \<Rightarrow> bytes" where
  "hmac_sha1 key msg =
     (let k0 = (if length key > 64 then sha1 key else key); k = k0 @ replicate (64 - length k0) 0
      in sha1 (map (\<lambda>b. b XOR 0x5C) k @ sha1 (map (\<lambda>b. b XOR 0x36) k @ msg)))"

section \<open>Base 32\<close>

definition char_between :: "char \<Rightarrow> char \<Rightarrow> char \<Rightarrow> bool" where
  "char_between lo hi c \<longleftrightarrow> of_char lo \<le> (of_char c :: nat) \<and> of_char c \<le> (of_char hi :: nat)"

definition b32_digit :: "char \<Rightarrow> nat option" where
  "b32_digit c =
     (let u = (if char_between CHR ''a'' CHR ''z'' c then char_of (of_char c - 32 :: nat) else c)
      in if char_between CHR ''A'' CHR ''Z'' u then Some (of_char u - 65)
         else if char_between CHR ''2'' CHR ''7'' u then Some (of_char u - 50 + 26) else None)"

fun all_some :: "'a option list \<Rightarrow> 'a list option" where
  "all_some [] = Some []"
| "all_some (x # xs) = (case x of None \<Rightarrow> None | Some v \<Rightarrow> map_option ((#) v) (all_some xs))"

text \<open>The bytes of a group of eight digits.\<close>

definition b32_group :: "nat list \<Rightarrow> bytes" where
  "b32_group ds =
     (let n = foldl (\<lambda>acc d. acc * 32 + d) 0 ds
      in map (\<lambda>i. of_nat (n div 256 ^ i)) [4, 3, 2, 1, 0])"

text \<open>\<open>base64.b32decode(s, casefold=True)\<close>: the length is a multiple of eight, and the padding one of
  those that base 32 allows.\<close>

definition b32decode :: "string \<Rightarrow> bytes option" where
  "b32decode s =
     (let body = rev (dropWhile (\<lambda>c. c = CHR ''='') (rev s)); pads = length s - length body
      in if length s mod 8 \<noteq> 0 \<or> pads \<notin> {0, 1, 3, 4, 6} then None
         else case all_some (map b32_digit body) of
           None \<Rightarrow> None
         | Some ds \<Rightarrow>
             (let padded = ds @ replicate pads 0; bs = concat (map b32_group (chunks (length padded) 8 padded))
              in Some (take (length bs - (if pads = 0 then 0 else (pads * 5 + 7) div 8)) bs)))"

section \<open>The code\<close>

fun zfill :: "nat \<Rightarrow> string \<Rightarrow> string" where
  "zfill n s = replicate (n - length s) CHR ''0'' @ s"

text \<open>\<open>_totp_at\<close>; \<open>None\<close> when decoding the secret or packing the counter raises.\<close>

definition totp_at :: "string \<Rightarrow> int \<Rightarrow> nat \<Rightarrow> string option" where
  "totp_at secret for_counter digits =
     (if for_counter < 0 \<or> for_counter \<ge> 2 ^ 64 then None
      else case b32decode secret of
        None \<Rightarrow> None
      | Some key \<Rightarrow>
          (let digest = hmac_sha1 key (be64 (of_int for_counter));
               offset = unat (last digest AND 0x0F);
               code = uint (from_be (take 4 (drop offset digest)) AND 0x7FFFFFFF)
           in Some (zfill digits (show_int (code mod 10 ^ digits)))))"

text \<open>The loop over the drifts: a counter that raises ends it.\<close>

fun try_counters :: "string \<Rightarrow> string \<Rightarrow> nat \<Rightarrow> int list \<Rightarrow> bool option" where
  "try_counters secret code digits [] = Some False"
| "try_counters secret code digits (c # cs) =
     (case totp_at secret c digits of
        None \<Rightarrow> None
      | Some x \<Rightarrow> if x = code then Some True else try_counters secret code digits cs)"

text \<open>\<open>verify_totp\<close> at a time in seconds. \<open>str.isdigit\<close> keeps on Latin-1 the ten digits and the three
  superscripts.\<close>

definition is_digit_char :: "char \<Rightarrow> bool" where
  "is_digit_char c \<longleftrightarrow> py_is_digit c \<or> c \<in> {CHR 0xB2, CHR 0xB3, CHR 0xB9}"

definition verify_totp :: "int \<Rightarrow> string \<Rightarrow> string \<Rightarrow> bool option" where
  "verify_totp seconds secret code0 =
     (if secret = [] \<or> code0 = [] then Some False
      else let code = filter is_digit_char code0
           in if length code \<noteq> 6 then Some False
              else try_counters secret code 6 (map (\<lambda>d. seconds div 30 + d) [-1, 0, 1]))"

section \<open>The code of the present interval is accepted\<close>

lemma length_show_nat: "n < 10 ^ Suc k \<Longrightarrow> length (show_nat n) \<le> Suc k"
proof (induction k arbitrary: n)
  case (Suc k)
  show ?case
  proof (cases "n < 10")
    case False
    from Suc.prems have "n div 10 < 10 ^ Suc k" by (simp add: less_mult_imp_div_less)
    from Suc.IH [OF this] False show ?thesis by (subst show_nat.simps) simp
  qed (subst show_nat.simps, simp)
qed (subst show_nat.simps, simp)

lemma six_digits:
  assumes "0 \<le> i" "i < 10 ^ 6"
  shows "length (zfill 6 (show_int i)) = 6" "list_all is_digit_char (zfill 6 (show_int i))"
proof -
  obtain n where n: "i = int n" using assms(1) nonneg_int_cases by blast
  from assms(2) n have "n < 10 ^ Suc 5" by simp
  from length_show_nat [OF this] n show "length (zfill 6 (show_int i)) = 6"
    by (simp add: show_int_def)
  have "is_digit_char CHR ''0''" by (simp add: is_digit_char_def py_is_digit_def)
  moreover have "list_all is_digit_char (show_nat n)"
    using show_nat_digits [of n] by (auto simp: list_all_iff is_digit_char_def digit_char_props)
  ultimately show "list_all is_digit_char (zfill 6 (show_int i))"
    using n by (auto simp: show_int_def list_all_iff)
qed

lemma totp_at_digits: "totp_at secret c 6 = Some code \<Longrightarrow> length code = 6 \<and> list_all is_digit_char code"
proof -
  assume "totp_at secret c 6 = Some code"
  then obtain x :: int where "code = zfill 6 (show_int (x mod 10 ^ 6))"
    by (auto simp only: totp_at_def Let_def split: if_splits option.splits)
  with six_digits [of "x mod 10 ^ 6"] show ?thesis by simp
qed

lemma current_code_accepted:
  assumes code: "totp_at secret (seconds div 30) 6 = Some code" and "secret \<noteq> []" "30 \<le> seconds"
  shows "verify_totp seconds secret code = Some True"
proof -
  from code obtain key where key: "b32decode secret = Some key" and upper: "seconds div 30 < 2 ^ 64"
    by (auto simp: totp_at_def split: if_splits option.splits)
  from \<open>30 \<le> seconds\<close> have "1 \<le> seconds div 30" by simp
  with key upper have "totp_at secret (seconds div 30 - 1) 6 \<noteq> None"
    by (simp add: totp_at_def Let_def)
  moreover have "filter is_digit_char code = code" "length code = 6" "code \<noteq> []"
    using totp_at_digits [OF code] by (auto simp: filter_id_conv list_all_iff)
  ultimately show ?thesis
    using code \<open>secret \<noteq> []\<close> by (simp add: verify_totp_def Let_def split: option.split)
qed

section \<open>Passwords\<close>

definition is_ascii_upper :: "char \<Rightarrow> bool" where "is_ascii_upper c \<longleftrightarrow> char_between CHR ''A'' CHR ''Z'' c"
definition is_ascii_lower :: "char \<Rightarrow> bool" where "is_ascii_lower c \<longleftrightarrow> char_between CHR ''a'' CHR ''z'' c"

text \<open>\<open>None\<close> for a password that is strong enough.\<close>

definition validate_password_strength :: "string \<Rightarrow> string option" where
  "validate_password_strength value =
     (if length value < 8 then Some ''A senha deve ter pelo menos 8 caracteres.''
      else if \<not> list_ex is_ascii_upper value then Some ''A senha deve ter pelo menos 1 letra maiuscula.''
      else if \<not> list_ex is_ascii_lower value then Some ''A senha deve ter pelo menos 1 letra minuscula.''
      else if \<not> list_ex py_is_digit value then Some ''A senha deve ter pelo menos 1 numero.''
      else if \<not> list_ex (\<lambda>c. \<not> (is_ascii_upper c \<or> is_ascii_lower c \<or> py_is_digit c)) value
      then Some ''A senha deve ter pelo menos 1 caractere especial.''
      else None)"

end
