(* ===== verification/Login.thy ===== *)
theory Login
  imports Models Redis Totp Calendar
begin

text \<open>
  Signing in (\<open>src/app/web/auth/routes.py\<close>): the limiter of attempts, the login form, the second factor, the
  forced change of password and the reset by e-mail.

  A request runs on the record \<open>site\<close>: the users and tenants of the database, the session of the browser, the
  module's dictionaries, and the world of the Redis client, in which the limiter works when there is a
  client. Hashing of passwords (passlib), the signed reset tokens (itsdangerous), the fresh secret and the
  delivery of a mail are arguments. All readings of the clock in one request are the same instant, on a server
  whose local time is UTC. A handler answers with the page it renders or redirects to and the last
  message it flashes (without the text of an exception); rows of the activity log are not modelled.
\<close>

section \<open>State\<close>

record pending_login =
  pe_user_id :: string
  pe_email :: string
  pe_ip :: string
  pe_issued_at :: int

record web_session =
  se_user_id :: "string option"
  se_user_name :: "string option"
  se_user_role :: "user_role option"
  se_tenant_slug :: "string option"
  se_pending :: "pending_login option"
  se_setup_secret :: "string option"
  se_password_change :: "(string \<times> string \<times> int) option"

definition no_session :: web_session where
  "no_session = \<lparr>se_user_id = None, se_user_name = None, se_user_role = None, se_tenant_slug = None,
     se_pending = None, se_setup_secret = None, se_password_change = None\<rparr>"

record auth_mem =
  am_attempts_ip :: "(string \<times> naive list) list"
  am_attempts_email :: "(string \<times> naive list) list"
  am_blocks_ip :: "(string \<times> naive) list"
  am_blocks_email :: "(string \<times> naive) list"
  am_forgot_attempts :: "(string \<times> naive list) list"
  am_forgot_blocks :: "(string \<times> naive) list"

record 'w site =
  si_users :: "user list"
  si_tenants :: "tenant list"
  si_session :: web_session
  si_mem :: auth_mem
  si_limiter :: 'w
  si_outbox :: "(string \<times> string) list"

record 'w auth_env =
  ae_client :: "'w redis option"
  ae_verify :: "string \<Rightarrow> string \<Rightarrow> bool option"
  ae_hash :: "string \<Rightarrow> string"
  ae_loads :: "string \<Rightarrow> naive \<Rightarrow> (string \<times> string) option option"
  ae_dumps :: "string \<Rightarrow> string \<Rightarrow> naive \<Rightarrow> string"
  ae_smtp_configured :: bool
  ae_delivers :: "string \<Rightarrow> bool"
  ae_secret :: string
  ae_forwarded :: "string option"
  ae_remote_addr :: string
  ae_now :: naive

type_synonym ('w, 'a) web = "('w site, 'a) io"

definition on_limiter :: "('w, 'a) io \<Rightarrow> ('w, 'a) web" where
  "on_limiter m s = (let (a, w) = m (si_limiter s) in (a, s\<lparr>si_limiter := w\<rparr>))"

definition get_site :: "('w site \<Rightarrow> 'a) \<Rightarrow> ('w, 'a) web" where
  "get_site f s = (Some (f s), s)"

definition put_site :: "('w site \<Rightarrow> 'w site) \<Rightarrow> ('w, unit) web" where
  "put_site f s = (Some (), f s)"

definition set_session :: "(web_session \<Rightarrow> web_session) \<Rightarrow> ('w, unit) web" where
  "set_session f = put_site (\<lambda>s. s\<lparr>si_session := f (si_session s)\<rparr>)"

text \<open>The address of the client: the first of \<open>X-Forwarded-For\<close>, whoever wrote that header.\<close>

definition get_client_ip :: "'w auth_env \<Rightarrow> string" where
  "get_client_ip E =
     (if or_empty (ae_forwarded E) \<noteq> [] then py_strip (takeWhile (\<lambda>c. c \<noteq> CHR '','') (or_empty (ae_forwarded E)))
      else ae_remote_addr E)"

section \<open>The limiter\<close>

definition MAX_LOGIN_ATTEMPTS_PER_IP :: int where "MAX_LOGIN_ATTEMPTS_PER_IP = 20"
definition MAX_LOGIN_ATTEMPTS_PER_EMAIL :: int where "MAX_LOGIN_ATTEMPTS_PER_EMAIL = 8"
definition LOGIN_WINDOW_SECONDS :: int where "LOGIN_WINDOW_SECONDS = 900"
definition LOGIN_LOCKOUT_SECONDS :: int where "LOGIN_LOCKOUT_SECONDS = 900"
definition MAX_FORGOT_PASSWORD_PER_IP :: int where "MAX_FORGOT_PASSWORD_PER_IP = 8"
definition FORGOT_PASSWORD_WINDOW_SECONDS :: int where "FORGOT_PASSWORD_WINDOW_SECONDS = 3600"
definition FORGOT_PASSWORD_LOCKOUT_SECONDS :: int where "FORGOT_PASSWORD_LOCKOUT_SECONDS = 1800"
definition PENDING_2FA_TTL_SECONDS :: int where "PENDING_2FA_TTL_SECONDS = 600"

definition normalize_email :: "string option \<Rightarrow> string" where
  "normalize_email email = py_lower (py_strip (or_empty email))"

definition prune_attempts :: "naive list \<Rightarrow> naive \<Rightarrow> int \<Rightarrow> naive list" where
  "prune_attempts attempts now window = filter (\<lambda>ts. now - ts < window * US) attempts"

definition login_ip_attempt_key :: "string \<Rightarrow> string" where "login_ip_attempt_key ip = ''auth:login:attempts:ip:'' @ ip"
definition login_email_attempt_key :: "string \<Rightarrow> string" where "login_email_attempt_key e = ''auth:login:attempts:email:'' @ e"
definition login_ip_block_key :: "string \<Rightarrow> string" where "login_ip_block_key ip = ''auth:login:block:ip:'' @ ip"
definition login_email_block_key :: "string \<Rightarrow> string" where "login_email_block_key e = ''auth:login:block:email:'' @ e"
definition forgot_ip_attempt_key :: "string \<Rightarrow> string" where "forgot_ip_attempt_key ip = ''auth:forgot:attempts:ip:'' @ ip"
definition forgot_ip_block_key :: "string \<Rightarrow> string" where "forgot_ip_block_key ip = ''auth:forgot:block:ip:'' @ ip"

definition block_left :: "naive option \<Rightarrow> naive \<Rightarrow> int option" where
  "block_left until now = (case until of None \<Rightarrow> None | Some u \<Rightarrow> if u > now then Some ((u - now) div US) else None)"

definition is_login_blocked :: "'w auth_env \<Rightarrow> string \<Rightarrow> ('w, bool \<times> int) web" where
  "is_login_blocked E email =
     (case ae_client E of
        Some R \<Rightarrow>
          io_bind (on_limiter (r_ttl R (login_ip_block_key (get_client_ip E)))) (\<lambda>ip_ttl.
          io_bind (if email = [] then io_ret (- 2) else on_limiter (r_ttl R (login_email_block_key email))) (\<lambda>email_ttl.
          let ttl = max (max 0 ip_ttl) (max 0 email_ttl) in io_ret (0 < ttl, ttl)))
      | None \<Rightarrow>
          io_bind (get_site si_mem) (\<lambda>mem.
            case block_left (map_of (am_blocks_ip mem) (get_client_ip E)) (ae_now E) of
              Some n \<Rightarrow> io_ret (True, n)
            | None \<Rightarrow>
                (case block_left (if email = [] then None else map_of (am_blocks_email mem) email) (ae_now E) of
                   Some n \<Rightarrow> io_ret (True, n)
                 | None \<Rightarrow> io_ret (False, 0))))"

text \<open>The same steps for the address and for the e-mail: count, start the window, block at the limit.\<close>

definition count_attempt :: "'w redis \<Rightarrow> string \<Rightarrow> string \<Rightarrow> int \<Rightarrow> ('w, unit) io" where
  "count_attempt R attempt_key block_key limit =
     io_bind (r_incr R attempt_key) (\<lambda>n.
     io_seq (if n = 1 then r_expire R attempt_key LOGIN_WINDOW_SECONDS else io_ret ())
       (if n \<ge> limit then r_setex R block_key LOGIN_LOCKOUT_SECONDS (RText ''1'') else io_ret ()))"

definition count_in_memory :: "naive \<Rightarrow> int \<Rightarrow> string \<Rightarrow> (string \<times> naive list) list \<Rightarrow> (string \<times> naive) list \<Rightarrow>
    (string \<times> naive list) list \<times> (string \<times> naive) list" where
  "count_in_memory now limit who attempts blocks =
     (let old = (case map_of attempts who of None \<Rightarrow> [] | Some l \<Rightarrow> l);
          seen = prune_attempts old now LOGIN_WINDOW_SECONDS @ [now]
      in (AList.update who seen attempts,
          if int (length seen) \<ge> limit then AList.update who (now + LOGIN_LOCKOUT_SECONDS * US) blocks else blocks))"

definition record_failed_login_attempt :: "'w auth_env \<Rightarrow> string \<Rightarrow> ('w, unit) web" where
  "record_failed_login_attempt E email =
     (case ae_client E of
        Some R \<Rightarrow>
          io_seq (on_limiter (count_attempt R (login_ip_attempt_key (get_client_ip E)) (login_ip_block_key (get_client_ip E)) MAX_LOGIN_ATTEMPTS_PER_IP))
            (if email = [] then io_ret ()
             else on_limiter (count_attempt R (login_email_attempt_key email) (login_email_block_key email) MAX_LOGIN_ATTEMPTS_PER_EMAIL))
      | None \<Rightarrow>
          put_site (\<lambda>s. let m = si_mem s;
              (ai, bi) = count_in_memory (ae_now E) MAX_LOGIN_ATTEMPTS_PER_IP (get_client_ip E) (am_attempts_ip m) (am_blocks_ip m);
              (ae, be) = (if email = [] then (am_attempts_email m, am_blocks_email m)
                          else count_in_memory (ae_now E) MAX_LOGIN_ATTEMPTS_PER_EMAIL email (am_attempts_email m) (am_blocks_email m))
            in s\<lparr>si_mem := m\<lparr>am_attempts_ip := ai, am_blocks_ip := bi, am_attempts_email := ae, am_blocks_email := be\<rparr>\<rparr>))"

definition clear_login_attempts :: "'w auth_env \<Rightarrow> string \<Rightarrow> ('w, unit) web" where
  "clear_login_attempts E email =
     (case ae_client E of
        Some R \<Rightarrow>
          on_limiter (r_delete R ([login_ip_attempt_key (get_client_ip E), login_ip_block_key (get_client_ip E)] @
            (if email = [] then [] else [login_email_attempt_key email, login_email_block_key email])))
      | None \<Rightarrow>
          put_site (\<lambda>s. let m = si_mem s in s\<lparr>si_mem :=
            (if email = [] then m\<lparr>am_attempts_ip := AList.delete (get_client_ip E) (am_attempts_ip m), am_blocks_ip := AList.delete (get_client_ip E) (am_blocks_ip m)\<rparr>
             else m\<lparr>am_attempts_ip := AList.delete (get_client_ip E) (am_attempts_ip m), am_blocks_ip := AList.delete (get_client_ip E) (am_blocks_ip m),
                    am_attempts_email := AList.delete email (am_attempts_email m), am_blocks_email := AList.delete email (am_blocks_email m)\<rparr>)\<rparr>))"

definition consume_forgot_password_attempt :: "'w auth_env \<Rightarrow> ('w, bool \<times> int) web" where
  "consume_forgot_password_attempt E =
     (case ae_client E of
        Some R \<Rightarrow>
          io_bind (on_limiter (r_ttl R (forgot_ip_block_key (get_client_ip E)))) (\<lambda>block_ttl.
          if block_ttl > 0 then io_ret (False, block_ttl)
          else io_bind (on_limiter (r_incr R (forgot_ip_attempt_key (get_client_ip E)))) (\<lambda>n.
            io_seq (if n = 1 then on_limiter (r_expire R (forgot_ip_attempt_key (get_client_ip E)) FORGOT_PASSWORD_WINDOW_SECONDS) else io_ret ())
              (if n > MAX_FORGOT_PASSWORD_PER_IP
               then io_seq (on_limiter (r_setex R (forgot_ip_block_key (get_client_ip E)) FORGOT_PASSWORD_LOCKOUT_SECONDS (RText ''1'')))
                      (io_ret (False, FORGOT_PASSWORD_LOCKOUT_SECONDS))
               else io_ret (True, 0))))
      | None \<Rightarrow>
          io_bind (get_site si_mem) (\<lambda>m.
          case block_left (map_of (am_forgot_blocks m) (get_client_ip E)) (ae_now E) of
            Some n \<Rightarrow> io_ret (False, n)
          | None \<Rightarrow>
              (let old = (case map_of (am_forgot_attempts m) (get_client_ip E) of None \<Rightarrow> [] | Some l \<Rightarrow> l);
                   seen = prune_attempts old (ae_now E) FORGOT_PASSWORD_WINDOW_SECONDS @ [ae_now E];
                   m1 = m\<lparr>am_forgot_attempts := AList.update (get_client_ip E) seen (am_forgot_attempts m)\<rparr>
               in if int (length seen) > MAX_FORGOT_PASSWORD_PER_IP
                  then io_seq (put_site (\<lambda>s. s\<lparr>si_mem := m1\<lparr>am_forgot_blocks :=
                         AList.update (get_client_ip E) (ae_now E + FORGOT_PASSWORD_LOCKOUT_SECONDS * US) (am_forgot_blocks m)\<rparr>\<rparr>))
                         (io_ret (False, FORGOT_PASSWORD_LOCKOUT_SECONDS))
                  else io_seq (put_site (\<lambda>s. s\<lparr>si_mem := m1\<rparr>)) (io_ret (True, 0)))))"

section \<open>The session\<close>

datatype page =
    LoginForm | ToLogin | ToVerify | ToSetup | VerifyForm | SetupForm string | ToForceChange | ForceChangeForm
  | TenantHome string | AdminHome | ForgotForm | ToForgot | ResetForm

type_synonym reply = "page \<times> string"

text \<open>Seconds since 1970 of a naive UTC instant.\<close>

definition epoch_seconds :: "naive \<Rightarrow> int" where
  "epoch_seconds now = now div US - 62135596800"

definition tenant_of :: "tenant list \<Rightarrow> user \<Rightarrow> tenant option" where
  "tenant_of ts u = (case u_tenant_id u of None \<Rightarrow> None | Some tid \<Rightarrow> find (\<lambda>t. t_id t = tid) ts)"

text \<open>Every role is required to have a second factor.\<close>

definition is_role_2fa_required :: "user_role \<Rightarrow> bool" where
  "is_role_2fa_required role = True"

text \<open>Why a user of a tenant that is not active is refused.\<close>

definition refused_tenant :: "tenant list \<Rightarrow> user \<Rightarrow> string option" where
  "refused_tenant ts u =
     (if u_role u = SUPER_ADMIN then None
      else case tenant_of ts u of
        None \<Rightarrow> None
      | Some t \<Rightarrow>
          if flag (t_is_active t) then None
          else if t_deleted_at t \<noteq> None then Some ''Este cliente foi movido para a lixeira e nao esta disponivel.''
          else if t_billing_blocked_at t \<noteq> None
          then Some ''Cliente bloqueado por inadimplencia. Entre em contato com o suporte para reativacao.''
          else Some ''Este cliente esta desativado. Entre em contato com o suporte.'')"

definition clear_pending :: "web_session \<Rightarrow> web_session" where
  "clear_pending ss = ss\<lparr>se_pending := None, se_setup_secret := None\<rparr>"

definition clear_pending_2fa_session :: "('w, unit) web" where
  "clear_pending_2fa_session = set_session clear_pending"

definition store_password_change_requirement :: "'w auth_env \<Rightarrow> user \<Rightarrow> ('w, unit) web" where
  "store_password_change_requirement E u =
     set_session (\<lambda>ss. ss\<lparr>se_password_change := Some (u_id u, normalize_email (Some (u_email u)), epoch_seconds (ae_now E))\<rparr>)"

definition clear_password_change_requirement :: "('w, unit) web" where
  "clear_password_change_requirement = set_session (\<lambda>ss. ss\<lparr>se_password_change := None\<rparr>)"

definition redirect_after_login :: "user \<Rightarrow> string \<Rightarrow> ('w, reply) web" where
  "redirect_after_login u flashed =
     (if u_role u = SUPER_ADMIN then io_ret (AdminHome, flashed)
      else io_bind (get_site si_tenants) (\<lambda>ts. case tenant_of ts u of
        Some t \<Rightarrow> io_ret (TenantHome (t_slug t), flashed)
      | None \<Rightarrow> io_ret (ToLogin, ''Sua conta nao possui uma empresa associada.'')))"

definition redirect_after_auth_success :: "'w auth_env \<Rightarrow> user \<Rightarrow> string \<Rightarrow> ('w, reply) web" where
  "redirect_after_auth_success E u flashed =
     (if u_must_change_password u
      then io_seq (store_password_change_requirement E u)
             (io_ret (ToForceChange, ''Defina uma nova senha para concluir o primeiro acesso.''))
      else redirect_after_login u flashed)"

definition store_pending_2fa_login :: "'w auth_env \<Rightarrow> user \<Rightarrow> ('w, unit) web" where
  "store_pending_2fa_login E u =
     set_session (\<lambda>ss. ss\<lparr>se_pending := Some \<lparr>pe_user_id = u_id u, pe_email = normalize_email (Some (u_email u)),
        pe_ip = get_client_ip E, pe_issued_at = epoch_seconds (ae_now E)\<rparr>\<rparr>)"

text \<open>Whether the pending login is still good, and for whom.\<close>

definition pending_user :: "'w auth_env \<Rightarrow> user list \<Rightarrow> pending_login \<Rightarrow> user option" where
  "pending_user E users pe =
     (if pe_issued_at pe = 0 \<or> epoch_seconds (ae_now E) - pe_issued_at pe > PENDING_2FA_TTL_SECONDS then None
      else if py_strip (pe_ip pe) \<noteq> [] \<and> py_strip (pe_ip pe) \<noteq> get_client_ip E then None
      else case find (\<lambda>u. u_id u = pe_user_id pe \<and> u_is_active u = Some True) users of
        None \<Rightarrow> None
      | Some u \<Rightarrow> if normalize_email (Some (u_email u)) \<noteq> normalize_email (Some (pe_email pe)) then None else Some u)"

definition load_pending_2fa_user :: "'w auth_env \<Rightarrow> ('w, user option) web" where
  "load_pending_2fa_user E =
     io_bind (get_site (\<lambda>s. (se_pending (si_session s), si_users s))) (\<lambda>(pending, users).
       case pending of
         None \<Rightarrow> io_ret None
       | Some pe \<Rightarrow> (case pending_user E users pe of
           None \<Rightarrow> io_seq clear_pending_2fa_session (io_ret None)
         | Some u \<Rightarrow> io_ret (Some u)))"

definition finalize_authenticated_session :: "user \<Rightarrow> ('w, unit) web" where
  "finalize_authenticated_session u =
     io_seq clear_pending_2fa_session
       (put_site (\<lambda>s. s\<lparr>si_session := (si_session s)\<lparr>se_user_id := Some (u_id u), se_user_name := Some (u_full_name u),
          se_user_role := Some (u_role u),
          se_tenant_slug := Some (case tenant_of (si_tenants s) u of Some t \<Rightarrow> t_slug t | None \<Rightarrow> ''admin'')\<rparr>\<rparr>))"

section \<open>The login form\<close>

definition authenticate_user :: "'w auth_env \<Rightarrow> string option \<Rightarrow> string option \<Rightarrow> ('w, user option) web" where
  "authenticate_user E email password =
     io_bind (get_site si_users) (\<lambda>users.
       case find (\<lambda>u. Some (u_email u) = email) users of
         None \<Rightarrow> io_ret None
       | Some u \<Rightarrow>
           (case Option.bind password (\<lambda>p. ae_verify E p (u_password_hash u)) of
              None \<Rightarrow> io_raise
            | Some ok \<Rightarrow> io_ret (if ok then Some u else None)))"

definition start_second_factor :: "'w auth_env \<Rightarrow> user \<Rightarrow> ('w, reply) web" where
  "start_second_factor E u =
     io_seq (store_pending_2fa_login E u)
       (if or_empty (u_totp_secret u) \<noteq> [] then io_ret (ToVerify, ''Digite o codigo de autenticacao para concluir o login.'')
        else io_seq (set_session (\<lambda>ss. ss\<lparr>se_setup_secret := Some (ae_secret E)\<rparr>))
               (io_ret (ToSetup, ''Configure o 2FA para concluir o acesso.'')))"

definition login_attempt :: "'w auth_env \<Rightarrow> string option \<Rightarrow> string option \<Rightarrow> ('w, reply) web" where
  "login_attempt E email password =
     io_bind (authenticate_user E email password) (\<lambda>found.
     case found of
       Some u \<Rightarrow>
         io_bind (get_site si_tenants) (\<lambda>ts.
         case refused_tenant ts u of
           Some why \<Rightarrow> io_ret (LoginForm, why)
         | None \<Rightarrow>
             io_seq (clear_login_attempts E (normalize_email email))
               (if is_role_2fa_required (u_role u) then start_second_factor E u
                else io_seq (finalize_authenticated_session u) (redirect_after_auth_success E u ''Login realizado com sucesso!'')))
     | None \<Rightarrow>
         io_seq (record_failed_login_attempt E (normalize_email email))
        (io_bind (is_login_blocked E (normalize_email email)) (\<lambda>_.
           io_ret (LoginForm, ''Email ou senha invalidos.''))))"

definition login :: "'w auth_env \<Rightarrow> string option \<Rightarrow> string option \<Rightarrow> ('w, reply) web" where
  "login E email password =
     io_bind (is_login_blocked E (normalize_email email)) (\<lambda>(blocked, retry_after).
       if blocked then io_ret (LoginForm, ''Muitas tentativas. Tente novamente em alguns minutos.'')
       else io_try (login_attempt E email password) (io_ret (LoginForm, ''Erro interno'')))"

section \<open>The second factor\<close>

definition update_user :: "string \<Rightarrow> (user \<Rightarrow> user) \<Rightarrow> ('w, unit) web" where
  "update_user uid f = put_site (\<lambda>s. s\<lparr>si_users := map (\<lambda>u. if u_id u = uid then f u else u) (si_users s)\<rparr>)"

text \<open>A wrong code counts as a failed login, and ends the pending login when it is one too many.\<close>

definition wrong_code :: "'w auth_env \<Rightarrow> user \<Rightarrow> reply \<Rightarrow> ('w, reply) web" where
  "wrong_code E u again =
     io_seq (record_failed_login_attempt E (normalize_email (Some (u_email u))))
    (io_bind (is_login_blocked E (normalize_email (Some (u_email u)))) (\<lambda>(blocked, retry_after).
       if blocked then io_seq clear_pending_2fa_session (io_ret (ToLogin, ''Muitas tentativas. Faca login novamente em alguns minutos.''))
       else io_ret again))"

definition check_code :: "'w auth_env \<Rightarrow> string \<Rightarrow> string option \<Rightarrow> ('w, bool) web" where
  "check_code E secret code =
     (case verify_totp (epoch_seconds (ae_now E)) secret (or_empty code) of None \<Rightarrow> io_raise | Some ok \<Rightarrow> io_ret ok)"

text \<open>What both pages of the second factor do first; \<open>post\<close> is \<open>None\<close> for a GET.\<close>

definition with_pending :: "'w auth_env \<Rightarrow> (user \<Rightarrow> ('w, reply) web) \<Rightarrow> ('w, reply) web" where
  "with_pending E rest =
     io_bind (load_pending_2fa_user E) (\<lambda>found.
     case found of
       None \<Rightarrow> io_ret (ToLogin, ''Sessao de autenticacao expirada. Faca login novamente.'')
     | Some u \<Rightarrow>
         if \<not> is_role_2fa_required (u_role u)
         then io_seq (finalize_authenticated_session u) (redirect_after_login u ''Login realizado com sucesso!'')
         else io_bind (get_site si_tenants) (\<lambda>ts.
           case refused_tenant ts u of
             Some why \<Rightarrow> io_seq clear_pending_2fa_session (io_ret (ToLogin, why))
           | None \<Rightarrow> rest u))"

definition setup_secret_of :: "'w auth_env \<Rightarrow> ('w, string) web" where
  "setup_secret_of E =
     io_bind (get_site (\<lambda>s. se_setup_secret (si_session s))) (\<lambda>stored.
       if or_empty stored \<noteq> [] then io_ret (or_empty stored)
       else io_seq (set_session (\<lambda>ss. ss\<lparr>se_setup_secret := Some (ae_secret E)\<rparr>)) (io_ret (ae_secret E)))"

definition setup_with :: "'w auth_env \<Rightarrow> string option option \<Rightarrow> user \<Rightarrow> string \<Rightarrow> ('w, reply) web" where
  "setup_with E post u secret =
     (case post of
        None \<Rightarrow> io_ret (SetupForm secret, [])
      | Some code \<Rightarrow>
          io_bind (check_code E secret code) (\<lambda>ok.
            if ok then
              io_seq (update_user (u_id u) (\<lambda>x. x\<lparr>u_totp_secret := Some secret\<rparr>))
             (io_seq (clear_login_attempts E (normalize_email (Some (u_email u))))
             (io_seq (finalize_authenticated_session u)
                (redirect_after_auth_success E u ''2FA configurado e login concluido com sucesso!'')))
            else wrong_code E u (SetupForm secret, ''Codigo invalido. Confira o app autenticador e tente novamente.'')))"

definition setup_page :: "'w auth_env \<Rightarrow> string option option \<Rightarrow> user \<Rightarrow> ('w, reply) web" where
  "setup_page E post u =
     (if or_empty (u_totp_secret u) \<noteq> [] then io_ret (ToVerify, [])
      else io_bind (setup_secret_of E) (setup_with E post u))"

definition two_factor_setup :: "'w auth_env \<Rightarrow> string option option \<Rightarrow> ('w, reply) web" where
  "two_factor_setup E post =
     io_try (with_pending E (setup_page E post)) (io_ret (ToLogin, ''Erro ao configurar 2FA. Tente novamente.''))"

definition verify_page :: "'w auth_env \<Rightarrow> string option option \<Rightarrow> user \<Rightarrow> ('w, reply) web" where
  "verify_page E post u =
     (if or_empty (u_totp_secret u) = [] then io_ret (ToSetup, [])
      else case post of
        None \<Rightarrow> io_ret (VerifyForm, [])
      | Some code \<Rightarrow>
          io_bind (check_code E (or_empty (u_totp_secret u)) code) (\<lambda>ok.
            if ok then
              io_seq (clear_login_attempts E (normalize_email (Some (u_email u))))
             (io_seq (finalize_authenticated_session u) (redirect_after_auth_success E u ''Login realizado com sucesso!''))
            else wrong_code E u (VerifyForm, ''Codigo 2FA invalido.'')))"

definition two_factor_verify :: "'w auth_env \<Rightarrow> string option option \<Rightarrow> ('w, reply) web" where
  "two_factor_verify E post =
     io_try (with_pending E (verify_page E post)) (io_ret (ToLogin, ''Erro ao validar 2FA. Faca login novamente.''))"

definition two_factor_cancel :: "('w, reply) web" where
  "two_factor_cancel = io_seq clear_pending_2fa_session (io_ret (ToLogin, ''Autenticacao cancelada. Faca login novamente.''))"

definition logout :: "('w, reply) web" where
  "logout = io_seq (set_session (\<lambda>_. no_session)) (io_ret (ToLogin, ''Voce saiu da sua conta.''))"

section \<open>Passwords\<close>

text \<open>A new password and its confirmation: the message of a refusal.\<close>

definition new_password_error :: "string option \<Rightarrow> string option \<Rightarrow> string option" where
  "new_password_error password confirm =
     (if or_empty password = [] \<or> password \<noteq> confirm then Some ''As senhas nao conferem.''
      else validate_password_strength (or_empty password))"

definition set_password :: "'w auth_env \<Rightarrow> user \<Rightarrow> string \<Rightarrow> ('w, unit) web" where
  "set_password E u password =
     update_user (u_id u) (\<lambda>x. x\<lparr>u_password_hash := ae_hash E password, u_must_change_password := False,
       u_password_changed_at := Some (ae_now E)\<rparr>)"

definition force_password_change :: "'w auth_env \<Rightarrow> (string option \<times> string option) option \<Rightarrow> ('w, reply) web" where
  "force_password_change E post =
     io_bind (get_site (\<lambda>s. (se_user_id (si_session s), si_users s))) (\<lambda>(user_id, users).
     if or_empty user_id = [] then io_ret (ToLogin, ''Faca login novamente para continuar.'')
     else case find (\<lambda>u. u_id u = or_empty user_id \<and> u_is_active u = Some True) users of
       None \<Rightarrow> io_seq (set_session (\<lambda>_. no_session)) (io_ret (ToLogin, ''Usuario nao encontrado. Faca login novamente.''))
     | Some u \<Rightarrow>
         if \<not> u_must_change_password u then io_seq clear_password_change_requirement (redirect_after_login u [])
         else case post of
           None \<Rightarrow> io_ret (ForceChangeForm, [])
         | Some (password, confirm) \<Rightarrow>
             (case new_password_error password confirm of
                Some why \<Rightarrow> io_ret (ForceChangeForm, why)
              | None \<Rightarrow> io_seq (set_password E u (or_empty password))
                         (io_seq clear_password_change_requirement (redirect_after_login u ''Senha atualizada com sucesso.''))))"

definition send_reset_email :: "'w auth_env \<Rightarrow> string \<Rightarrow> string \<Rightarrow> ('w, unit) web" where
  "send_reset_email E to_email token =
     (if \<not> ae_smtp_configured E then io_ret ()
      else if ae_delivers E to_email then put_site (\<lambda>s. s\<lparr>si_outbox := si_outbox s @ [(to_email, token)]\<rparr>)
      else io_raise)"

definition request_reset :: "'w auth_env \<Rightarrow> string \<Rightarrow> ('w, reply) web" where
  "request_reset E email =
     io_bind (get_site si_users) (\<lambda>users.
       io_seq
         (case (if email = [] then None else find (\<lambda>u. py_lower (u_email u) = py_lower email) users) of
            None \<Rightarrow> io_ret ()
          | Some u \<Rightarrow> send_reset_email E (u_email u) (ae_dumps E (u_id u) (u_email u) (ae_now E)))
         (io_ret (ToLogin, ''Se o email estiver cadastrado, voce recebera instrucoes de recuperacao.'')))"

definition forgot_password :: "'w auth_env \<Rightarrow> string option option \<Rightarrow> ('w, reply) web" where
  "forgot_password E post =
     (case post of
        None \<Rightarrow> io_ret (ForgotForm, [])
      | Some email \<Rightarrow>
          io_bind (consume_forgot_password_attempt E) (\<lambda>(allowed, retry_after).
            if \<not> allowed then io_ret (ToForgot, ''Muitas solicitacoes. Tente novamente em alguns minutos.'')
            else io_try (request_reset E (py_strip (or_empty email)))
                   (io_ret (ForgotForm, ''Erro ao processar solicitacao de reset.''))))"

text \<open>\<open>ae_loads\<close> is the serializer's \<open>loads(token, max_age=3600)\<close>: \<open>None\<close> for a bad signature, \<open>Some None\<close>
  for an expired token, otherwise the user's id and e-mail.\<close>

definition reset_password :: "'w auth_env \<Rightarrow> string \<Rightarrow> (string option \<times> string option) option \<Rightarrow> ('w, reply) web" where
  "reset_password E token post =
     (case ae_loads E token (ae_now E) of
        None \<Rightarrow> io_ret (ToForgot, ''Token invalido.'')
      | Some None \<Rightarrow> io_ret (ToForgot, ''Token expirado. Solicite um novo reset.'')
      | Some (Some (uid, email)) \<Rightarrow>
          io_bind (get_site si_users) (\<lambda>users.
          case find (\<lambda>u. u_id u = uid \<and> u_email u = email) users of
            None \<Rightarrow> io_ret (ToForgot, ''Usuario nao encontrado.'')
          | Some u \<Rightarrow>
              (case post of
                 None \<Rightarrow> io_ret (ResetForm, [])
               | Some (password, confirm) \<Rightarrow>
                   (case new_password_error password confirm of
                      Some why \<Rightarrow> io_ret (ResetForm, why)
                    | None \<Rightarrow> io_seq (set_password E u (or_empty password)) (io_ret (ToLogin, ''Senha atualizada com sucesso.''))))))"

end
