(* ===== verification/LoginSafety.thy ===== *)
theory LoginSafety
  imports Login Footprint
begin

text \<open>
  What signing in promises: a session belongs to a user only after the right password and an accepted code,
  eight failures close an account for a quarter of an hour, the right password alone opens the counters
  again, and the page for a forgotten password does not tell who has an account.
\<close>

section \<open>Requests\<close>

datatype auth_request =
    SignIn "string option" "string option"
  | Setup "string option option"
  | Verify "string option option"
  | Cancel
  | Logout
  | ForceChange "(string option \<times> string option) option"
  | Forgot "string option option"
  | Reset string "(string option \<times> string option) option"

definition handle :: "'w auth_env \<Rightarrow> auth_request \<Rightarrow> ('w, reply) web" where
  "handle E req =
     (case req of
        SignIn email password \<Rightarrow> login E email password
      | Setup post \<Rightarrow> two_factor_setup E post
      | Verify post \<Rightarrow> two_factor_verify E post
      | Cancel \<Rightarrow> two_factor_cancel
      | Logout \<Rightarrow> logout
      | ForceChange post \<Rightarrow> force_password_change E post
      | Forgot post \<Rightarrow> forgot_password E post
      | Reset token post \<Rightarrow> reset_password E token post)"

text \<open>The user whose password, and whose code, a request shows; the code counts for a user whose tenant is not refused.\<close>

definition first_factor :: "'w auth_env \<Rightarrow> auth_request \<Rightarrow> 'w site \<Rightarrow> string option" where
  "first_factor E req s =
     (case req of
        SignIn email password \<Rightarrow>
          (case find (\<lambda>u. Some (u_email u) = email) (si_users s) of
             None \<Rightarrow> None
           | Some u \<Rightarrow> if Option.bind password (\<lambda>p. ae_verify E p (u_password_hash u)) = Some True then Some (u_id u) else None)
      | _ \<Rightarrow> None)"

definition waiting_user :: "'w auth_env \<Rightarrow> 'w site \<Rightarrow> user option" where
  "waiting_user E s = Option.bind (se_pending (si_session s)) (pending_user E (si_users s))"

definition offered_secret :: "'w auth_env \<Rightarrow> 'w site \<Rightarrow> string" where
  "offered_secret E s =
     (if or_empty (se_setup_secret (si_session s)) \<noteq> [] then or_empty (se_setup_secret (si_session s)) else ae_secret E)"

definition shown_code :: "'w auth_env \<Rightarrow> auth_request \<Rightarrow> 'w site \<Rightarrow> user \<Rightarrow> (string \<times> string option) option" where
  "shown_code E req s u =
     (case req of
        Setup (Some code) \<Rightarrow> if or_empty (u_totp_secret u) = [] then Some (offered_secret E s, code) else None
      | Verify (Some code) \<Rightarrow> if or_empty (u_totp_secret u) \<noteq> [] then Some (or_empty (u_totp_secret u), code) else None
      | _ \<Rightarrow> None)"

definition second_factor :: "'w auth_env \<Rightarrow> auth_request \<Rightarrow> 'w site \<Rightarrow> string option" where
  "second_factor E req s =
     Option.bind (waiting_user E s) (\<lambda>u. Option.bind (shown_code E req s u) (\<lambda>(secret, code).
       if refused_tenant (si_tenants s) u = None \<and> verify_totp (epoch_seconds (ae_now E)) secret (or_empty code) = Some True
       then Some (u_id u) else None))"

section \<open>What a request does to the session\<close>

definition session_ok :: "(string \<Rightarrow> bool) \<Rightarrow> (pending_login \<Rightarrow> bool) \<Rightarrow> 'w site \<Rightarrow> bool" where
  "session_ok U P s \<longleftrightarrow> pred_option U (se_user_id (si_session s)) \<and> pred_option P (se_pending (si_session s))"

definition session_within :: "(string \<Rightarrow> bool) \<Rightarrow> (pending_login \<Rightarrow> bool) \<Rightarrow> 'w site \<Rightarrow> 'w site \<Rightarrow> bool" where
  "session_within U P s s' \<longleftrightarrow> (session_ok U P s \<longrightarrow> session_ok U P s')"

interpretation sess: io_order "session_within U P" for U P
  by unfold_locales (simp_all add: session_within_def)

named_theorems keeps_session \<open>calls that keep the session within the users and pending logins allowed\<close>

lemma keep_limiter [keeps_session]: "io_within (session_within U P) (on_limiter m)"
  by (auto simp: io_within_def on_limiter_def session_within_def session_ok_def Let_def split: prod.splits)

lemma keep_get [keeps_session]: "io_within (session_within U P) (get_site f)"
  by (simp add: io_within_def get_site_def session_within_def)

lemma keep_put: "(\<And>s. session_ok U P s \<Longrightarrow> session_ok U P (f s)) \<Longrightarrow> io_within (session_within U P) (put_site f)"
  by (simp add: io_within_def put_site_def session_within_def)

lemma keep_session: "(\<And>ss. pred_option U (se_user_id ss) \<Longrightarrow> pred_option P (se_pending ss) \<Longrightarrow>
    pred_option U (se_user_id (f ss)) \<and> pred_option P (se_pending (f ss))) \<Longrightarrow> io_within (session_within U P) (set_session f)"
  unfolding set_session_def by (rule keep_put) (simp add: session_ok_def)

lemma keep_update_user [keeps_session]: "io_within (session_within U P) (update_user uid f)"
  unfolding update_user_def by (rule keep_put) (simp add: session_ok_def)

lemma keep_clear_pending [keeps_session]: "io_within (session_within U P) clear_pending_2fa_session"
  unfolding clear_pending_2fa_session_def by (rule keep_session) (simp add: clear_pending_def)

lemma keep_requirement [keeps_session]:
  "io_within (session_within U P) (store_password_change_requirement E u)"
  "io_within (session_within U P) clear_password_change_requirement"
  unfolding store_password_change_requirement_def clear_password_change_requirement_def
  by (rule keep_session; simp)+

lemma keep_setup_secret [keeps_session]: "io_within (session_within U P) (set_session (\<lambda>ss. ss\<lparr>se_setup_secret := x\<rparr>))"
  by (rule keep_session) simp

lemma keep_no_session [keeps_session]: "io_within (session_within U P) (set_session (\<lambda>_. no_session))"
  by (rule keep_session) (simp add: no_session_def)

lemma keep_finalize: "U (u_id u) \<Longrightarrow> io_within (session_within U P) (finalize_authenticated_session u)"
  unfolding finalize_authenticated_session_def
  by (intro sess.within_seq keep_clear_pending keep_put) (simp add: session_ok_def)

lemma keep_store_pending:
  "P \<lparr>pe_user_id = u_id u, pe_email = normalize_email (Some (u_email u)), pe_ip = get_client_ip E,
      pe_issued_at = epoch_seconds (ae_now E)\<rparr> \<Longrightarrow> io_within (session_within U P) (store_pending_2fa_login E u)"
  unfolding store_pending_2fa_login_def by (rule keep_session) simp

lemma keep_record [keeps_session]: "io_within (session_within U P) (record_failed_login_attempt E email)"
  unfolding record_failed_login_attempt_def
  by (auto intro!: sess.within_seq sess.within_ret keep_limiter keep_put simp: session_ok_def Let_def split: option.split prod.splits)

lemma keep_blocked [keeps_session]: "io_within (session_within U P) (is_login_blocked E email)"
  unfolding is_login_blocked_def
  by (auto intro!: sess.within_bind sess.within_ret keep_limiter keep_get simp: Let_def split: option.split)

lemma keep_clear [keeps_session]: "io_within (session_within U P) (clear_login_attempts E email)"
  unfolding clear_login_attempts_def
  by (auto intro!: keep_limiter keep_put simp: session_ok_def Let_def split: option.split)

lemma keep_forgot_attempt [keeps_session]: "io_within (session_within U P) (consume_forgot_password_attempt E)"
  unfolding consume_forgot_password_attempt_def
  by (auto intro!: sess.within_bind sess.within_seq sess.within_ret keep_limiter keep_get keep_put
      simp: session_ok_def Let_def split: option.split)

lemma keep_redirect [keeps_session]: "io_within (session_within U P) (redirect_after_login u m)"
  unfolding redirect_after_login_def
  by (auto intro!: sess.within_bind sess.within_ret keep_get split: option.split)

lemma keep_redirect_success [keeps_session]: "io_within (session_within U P) (redirect_after_auth_success E u m)"
  unfolding redirect_after_auth_success_def
  by (auto intro!: sess.within_seq sess.within_ret keep_requirement keep_redirect)

lemma keep_wrong_code [keeps_session]: "io_within (session_within U P) (wrong_code E u again)"
  unfolding wrong_code_def
  by (auto intro!: sess.within_bind sess.within_seq sess.within_ret keep_record keep_blocked keep_clear_pending)

lemmas session_rules = sess.within_bind sess.within_seq sess.within_try sess.within_ret sess.within_raise keeps_session


text \<open>The pages of the second factor: who is let in.\<close>

lemma with_pending_run:
  "waiting_user E s = Some u \<Longrightarrow> with_pending E rest s = (case refused_tenant (si_tenants s) u of
     Some why \<Rightarrow> io_seq clear_pending_2fa_session (io_ret (ToLogin, why)) s | None \<Rightarrow> rest u s)"
  by (auto simp: with_pending_def load_pending_2fa_user_def waiting_user_def io_bind_def get_site_def io_ret_def
      is_role_2fa_required_def split: option.splits)

lemma keep_pending_user:
  assumes rest: "\<And>u. waiting_user E s = Some u \<Longrightarrow> refused_tenant (si_tenants s) u = None \<Longrightarrow>
    session_within U P s (snd (rest u s))"
  shows "session_within U P s (snd (with_pending E rest s))"
proof (cases "waiting_user E s")
  case None
  have "session_within U P s (snd (clear_pending_2fa_session s))"
    by (rule io_withinD [OF keep_clear_pending])
  with None show ?thesis
    by (auto simp: with_pending_def load_pending_2fa_user_def waiting_user_def io_bind_def get_site_def io_ret_def io_seq_def
        sess.r_refl split: option.splits prod.splits)
next
  case (Some u)
  note run = with_pending_run [OF Some]
  have "session_within U P s (snd (io_seq clear_pending_2fa_session (io_ret (ToLogin, why)) s))" for why :: string
    by (rule io_withinD) (intro session_rules)
  with rest [OF Some] show ?thesis
    by (simp add: run split: option.split)
qed

lemma keep_try: "session_within U P s (snd (m s)) \<Longrightarrow> io_within (session_within U P) h \<Longrightarrow>
  session_within U P s (snd (io_try m h s))"
  by (auto simp: io_try_def io_within_def split: prod.splits option.splits intro: sess.r_trans)

lemma keep_check:
  assumes "verify_totp (epoch_seconds (ae_now E)) secret (or_empty code) = Some True \<Longrightarrow> io_within (session_within U P) (f True)"
    and "io_within (session_within U P) (f False)"
  shows "io_within (session_within U P) (io_bind (check_code E secret code) f)"
proof (cases "verify_totp (epoch_seconds (ae_now E)) secret (or_empty code)")
  case None
  then show ?thesis by (simp add: check_code_def io_bind_def io_raise_def io_within_def sess.r_refl)
next
  case (Some ok)
  with assms show ?thesis by (cases ok) (simp_all add: check_code_def)
qed

lemma verify_session:
  assumes "\<And>uid. second_factor E (Verify post) s = Some uid \<Longrightarrow> U uid"
  shows "session_within U P s (snd (two_factor_verify E post s))"
  unfolding two_factor_verify_def
proof (intro keep_try keep_pending_user)
  fix u
  assume who: "waiting_user E s = Some u" "refused_tenant (si_tenants s) u = None"
  show "session_within U P s (snd (verify_page E post u s))"
  proof (rule io_withinD [of "session_within U P" "verify_page E post u"], cases "or_empty (u_totp_secret u) = [] \<or> post = None")
    case True
    then show "io_within (session_within U P) (verify_page E post u)"
      by (auto simp: verify_page_def intro: session_rules)
  next
    case False
    then obtain code where post: "post = Some code" and secret: "or_empty (u_totp_secret u) \<noteq> []" by blast
    have "U (u_id u)" if "verify_totp (epoch_seconds (ae_now E)) (or_empty (u_totp_secret u)) (or_empty code) = Some True"
      using that who post secret by (intro assms) (simp add: second_factor_def shown_code_def)
    with post secret show "io_within (session_within U P) (verify_page E post u)"
      by (auto simp: verify_page_def intro!: keep_check session_rules(2) keeps_session keep_finalize)
  qed
qed (intro session_rules)

lemma setup_session:
  assumes "\<And>uid. second_factor E (Setup post) s = Some uid \<Longrightarrow> U uid"
  shows "session_within U P s (snd (two_factor_setup E post s))"
  unfolding two_factor_setup_def
proof (intro keep_try keep_pending_user)
  fix u
  assume who: "waiting_user E s = Some u" "refused_tenant (si_tenants s) u = None"
  show "session_within U P s (snd (setup_page E post u s))"
  proof (cases "or_empty (u_totp_secret u) = []")
    case False
    then show ?thesis by (simp add: setup_page_def io_ret_def sess.r_refl)
  next
    case fresh: True
    define s1 where "s1 = snd (setup_secret_of E s)"
    have secret: "setup_secret_of E s = (Some (offered_secret E s), s1)"
      by (simp add: s1_def setup_secret_of_def offered_secret_def io_bind_def io_seq_def get_site_def io_ret_def set_session_def
          put_site_def)
    have first: "io_within (session_within U P) (setup_secret_of E)"
      unfolding setup_secret_of_def by (intro session_rules sess.within_if)
    have "U (u_id u)" if "post = Some code"
        "verify_totp (epoch_seconds (ae_now E)) (offered_secret E s) (or_empty code) = Some True" for code
      using that who fresh by (intro assms) (simp add: second_factor_def shown_code_def)
    then have "io_within (session_within U P) (setup_with E post u (offered_secret E s))"
      by (cases post) (auto simp: setup_with_def intro!: session_rules(4) keep_check session_rules(2) keeps_session keep_finalize)
    from io_withinD [OF this] io_withinD [OF first, of s] secret fresh show ?thesis
      by (auto simp: setup_page_def io_bind_def [of "setup_secret_of E"] intro: sess.r_trans)
  qed
qed (intro session_rules)

text \<open>The login form.\<close>

lemma get_site_run [simp]: "io_bind (get_site f) g s = g (f s) s"
  by (simp add: io_bind_def get_site_def)

lemma blocked_frame:
  fixes s :: "'w site"
  assumes "is_login_blocked E email s = (r, s1)"
  shows "si_users s1 = si_users s" "si_session s1 = si_session s" "si_tenants s1 = si_tenants s" "si_mem s1 = si_mem s"
    "si_outbox s1 = si_outbox s"
proof -
  have "io_within (\<lambda>a b. si_users b = si_users a \<and> si_session b = si_session a \<and> si_tenants b = si_tenants a
      \<and> si_mem b = si_mem a \<and> si_outbox b = si_outbox a) (is_login_blocked E email)" (is "io_within ?r _")
  proof -
    have ord: "io_order ?r" by unfold_locales auto
    have "io_within ?r (on_limiter m)" for m :: "('w, 'x) io"
      by (auto simp: io_within_def on_limiter_def Let_def split: prod.splits)
    moreover have "io_within ?r (get_site f)" for f :: "'w site \<Rightarrow> 'y"
      by (simp add: io_within_def get_site_def)
    ultimately show ?thesis
      unfolding is_login_blocked_def
      by (auto intro!: io_order.within_bind [OF ord] io_order.within_ret [OF ord] simp: Let_def split: option.split)
  qed
  from io_withinD [OF this, of s] assms
  show "si_users s1 = si_users s" "si_session s1 = si_session s" "si_tenants s1 = si_tenants s" "si_mem s1 = si_mem s"
    "si_outbox s1 = si_outbox s" by auto
qed

lemma authenticate_run:
  "authenticate_user E email password s =
     (case find (\<lambda>u. Some (u_email u) = email) (si_users s) of
        None \<Rightarrow> Some None
      | Some u \<Rightarrow> map_option (\<lambda>ok. if ok then Some u else None) (Option.bind password (\<lambda>p. ae_verify E p (u_password_hash u))), s)"
  by (auto simp: authenticate_user_def io_ret_def io_raise_def split: option.split)

lemma authenticated_first_factor:
  "authenticate_user E email password s = (Some (Some u), s1) \<Longrightarrow> first_factor E (SignIn email password) s = Some (u_id u)"
  by (auto simp: authenticate_run first_factor_def split: option.splits if_splits)

lemma login_session:
  assumes "\<And>pe. first_factor E (SignIn email password) s = Some (pe_user_id pe) \<Longrightarrow> pe_ip pe = get_client_ip E \<Longrightarrow>
    pe_issued_at pe = epoch_seconds (ae_now E) \<Longrightarrow> P pe"
  shows "session_within U P s (snd (login E email password s))"
proof -
  obtain r s1 where check: "is_login_blocked E (normalize_email email) s = (r, s1)" by fastforce
  note frame = blocked_frame [OF check]
  have here: "session_within U P s s1" using frame by (simp add: session_within_def session_ok_def)
  have "session_within U P s1 (snd (login_attempt E email password s1))"
  proof (cases "fst (authenticate_user E email password s1)")
    case None
    then show ?thesis
      by (simp add: login_attempt_def io_bind_def authenticate_run sess.r_refl)
  next
    case (Some found)
    have run: "authenticate_user E email password s1 = (Some found, s1)"
      using Some by (simp add: authenticate_run)
    have "io_within (session_within U P) (start_second_factor E u)" if "found = Some u" for u
      unfolding start_second_factor_def
    proof (intro session_rules sess.within_if keep_store_pending assms)
      have "first_factor E (SignIn email password) s1 = Some (u_id u)"
        using authenticated_first_factor run that by blast
      then show "first_factor E (SignIn email password) s =
          Some (pe_user_id \<lparr>pe_user_id = u_id u, pe_email = normalize_email (Some (u_email u)), pe_ip = get_client_ip E,
            pe_issued_at = epoch_seconds (ae_now E)\<rparr>)"
        by (simp add: first_factor_def frame)
    qed simp_all
    then have "io_within (session_within U P) (case found of
       Some u \<Rightarrow> io_bind (get_site si_tenants) (\<lambda>ts. case refused_tenant ts u of
           Some why \<Rightarrow> io_ret (LoginForm, why)
         | None \<Rightarrow> io_seq (clear_login_attempts E (normalize_email email)) (start_second_factor E u))
     | None \<Rightarrow> io_seq (record_failed_login_attempt E (normalize_email email))
        (io_bind (is_login_blocked E (normalize_email email)) (\<lambda>_. io_ret (LoginForm, ''Email ou senha invalidos.''))))"
      by (auto intro!: session_rules split: option.split)
    from io_withinD [OF this] show ?thesis
      unfolding login_attempt_def is_role_2fa_required_def if_True
      by (simp add: io_bind_def [of "authenticate_user E email password"] run)
  qed
  then have "session_within U P s1 (snd (io_try (login_attempt E email password) (io_ret (LoginForm, ''Erro interno'')) s1))"
    by (intro keep_try session_rules)
  with here check show ?thesis
    by (auto simp: login_def io_bind_def io_ret_def intro: sess.r_trans split: option.split)
qed

lemma reset_session: "io_within (session_within U P) (reset_password E token post)"
  unfolding reset_password_def set_password_def
  by (auto intro!: session_rules split: option.split)

lemma force_change_session: "io_within (session_within U P) (force_password_change E post)"
  unfolding force_password_change_def set_password_def
  by (auto intro!: session_rules split: option.split)

lemma forgot_session: "io_within (session_within U P) (forgot_password E post)"
proof -
  have "io_within (session_within U P) (send_reset_email E to_email token)" for to_email token
    unfolding send_reset_email_def
    by (auto intro!: session_rules keep_put simp: session_ok_def)
  then have "io_within (session_within U P) (request_reset E email)" for email
    unfolding request_reset_def by (auto intro!: session_rules split: option.split)
  then show ?thesis
    unfolding forgot_password_def by (auto intro!: session_rules split: option.split)
qed

lemma request_session:
  assumes "\<And>uid. second_factor E req s = Some uid \<Longrightarrow> U uid"
    and "\<And>pe. first_factor E req s = Some (pe_user_id pe) \<Longrightarrow> pe_ip pe = get_client_ip E \<Longrightarrow>
      pe_issued_at pe = epoch_seconds (ae_now E) \<Longrightarrow> P pe"
  shows "session_within U P s (snd (handle E req s))"
proof (cases req)
  case (SignIn email password)
  with assms(2) show ?thesis by (auto simp: handle_def intro: login_session)
next
  case (Setup post)
  with assms(1) show ?thesis by (auto simp: handle_def intro: setup_session)
next
  case (Verify post)
  with assms(1) show ?thesis by (auto simp: handle_def intro: verify_session)
next
  case Cancel
  have "io_within (session_within U P) two_factor_cancel"
    unfolding two_factor_cancel_def by (intro session_rules)
  from io_withinD [OF this] Cancel show ?thesis by (simp add: handle_def)
next
  case Logout
  have "io_within (session_within U P) logout"
    unfolding logout_def by (intro session_rules)
  from io_withinD [OF this] Logout show ?thesis by (simp add: handle_def)
qed (simp_all add: handle_def io_withinD [OF reset_session] io_withinD [OF force_change_session] io_withinD [OF forgot_session])

section \<open>A browser over time\<close>

text \<open>The requests of one browser, each with the environment and the site it met; between them anything else
  may happen to the site, but nothing to this browser's session, which travels in its signed cookie.\<close>

inductive browses :: "'w site \<Rightarrow> ('w auth_env \<times> auth_request \<times> 'w site) list \<Rightarrow> 'w site \<Rightarrow> bool" for s0 where
  opened: "browses s0 [] s0"
| request: "browses s0 past s \<Longrightarrow> browses s0 (past @ [(E, req, s)]) (snd (handle E req s))"
| others: "browses s0 past s \<Longrightarrow> si_session s' = si_session s \<Longrightarrow> browses s0 past s'"

definition gave_password :: "('w auth_env \<times> auth_request \<times> 'w site) \<Rightarrow> string \<Rightarrow> bool" where
  "gave_password event uid = (case event of (E, req, s) \<Rightarrow> first_factor E req s = Some uid)"

definition gave_code :: "('w auth_env \<times> auth_request \<times> 'w site) \<Rightarrow> string \<Rightarrow> bool" where
  "gave_code event uid = (case event of (E, req, s) \<Rightarrow> second_factor E req s = Some uid)"

definition event_second :: "('w auth_env \<times> auth_request \<times> 'w site) \<Rightarrow> int" where
  "event_second event = (case event of (E, req, s) \<Rightarrow> epoch_seconds (ae_now E))"

definition remembered :: "('w auth_env \<times> auth_request \<times> 'w site) list \<Rightarrow> pending_login \<Rightarrow> bool" where
  "remembered past pe \<longleftrightarrow>
     (\<exists>i < length past. gave_password (past ! i) (pe_user_id pe) \<and> event_second (past ! i) = pe_issued_at pe)"

definition let_in :: "('w auth_env \<times> auth_request \<times> 'w site) list \<Rightarrow> string \<Rightarrow> bool" where
  "let_in past uid \<longleftrightarrow>
     (\<exists>j < length past. gave_code (past ! j) uid \<and>
       (\<exists>i < j. gave_password (past ! i) uid \<and> event_second (past ! j) - event_second (past ! i) \<le> PENDING_2FA_TTL_SECONDS))"

lemma remembered_mono: "remembered past pe \<Longrightarrow> remembered (past @ rest) pe"
  unfolding remembered_def by (auto simp: nth_append)

lemma let_in_mono: "let_in past uid \<Longrightarrow> let_in (past @ rest) uid"
  unfolding let_in_def by (force simp: nth_append)

lemma waiting_user_pending:
  assumes "second_factor E req s = Some uid"
  obtains pe where "se_pending (si_session s) = Some pe" "pe_user_id pe = uid"
    "epoch_seconds (ae_now E) - pe_issued_at pe \<le> PENDING_2FA_TTL_SECONDS"
proof -
  from assms obtain u pe where u: "se_pending (si_session s) = Some pe" "pending_user E (si_users s) pe = Some u" "uid = u_id u"
    by (auto simp: second_factor_def waiting_user_def split: Option.bind_splits if_splits prod.splits)
  from u(2) have "u_id u = pe_user_id pe" "epoch_seconds (ae_now E) - pe_issued_at pe \<le> PENDING_2FA_TTL_SECONDS"
    by (auto simp: pending_user_def find_Some_iff split: if_splits option.splits)
  with u show thesis by (intro that) auto
qed

lemma browses_session:
  assumes "browses s0 past s" "si_session s0 = no_session"
  shows "session_ok (let_in past) (remembered past) s"
  using assms(1)
proof (induction rule: browses.induct)
  case opened
  from assms(2) show ?case by (simp add: session_ok_def no_session_def)
next
  case (others past s s')
  then show ?case by (simp add: session_ok_def)
next
  case (request past s E req)
  let ?past = "past @ [(E, req, s)]"
  have before: "session_ok (let_in ?past) (remembered ?past) s"
    using request.IH remembered_mono let_in_mono
    by (auto simp: session_ok_def pred_option_def)
  have "session_within (let_in ?past) (remembered ?past) s (snd (handle E req s))"
  proof (rule request_session)
    fix uid
    assume code: "second_factor E req s = Some uid"
    then obtain pe where pe: "se_pending (si_session s) = Some pe" "pe_user_id pe = uid"
        "epoch_seconds (ae_now E) - pe_issued_at pe \<le> PENDING_2FA_TTL_SECONDS"
      by (rule waiting_user_pending)
    from request.IH pe(1) have "remembered past pe" by (simp add: session_ok_def)
    then obtain i where i: "i < length past" "gave_password (past ! i) uid" "event_second (past ! i) = pe_issued_at pe"
      using pe(2) by (auto simp: remembered_def)
    have "gave_code (?past ! length past) uid" "event_second (?past ! length past) = epoch_seconds (ae_now E)"
      using code by (simp_all add: gave_code_def event_second_def)
    moreover have "?past ! i = past ! i" using i(1) by (simp add: nth_append)
    ultimately have "gave_code (?past ! length past) uid \<and> (\<exists>k < length past. gave_password (?past ! k) uid \<and>
        event_second (?past ! length past) - event_second (?past ! k) \<le> PENDING_2FA_TTL_SECONDS)"
      using i pe(3) by auto
    then show "let_in ?past uid"
      unfolding let_in_def by (intro exI [of _ "length past"]) simp
  next
    fix pe :: pending_login
    assume "first_factor E req s = Some (pe_user_id pe)" "pe_issued_at pe = epoch_seconds (ae_now E)"
    then show "remembered ?past pe"
      unfolding remembered_def
      by (intro exI [of _ "length past"]) (simp add: gave_password_def event_second_def)
  qed
  with before show ?case by (simp add: session_within_def)
qed

section \<open>Failures close the account\<close>

lemma login_keys [simp]:
  "login_email_attempt_key e \<noteq> login_email_block_key e'" "login_email_block_key e \<noteq> login_email_attempt_key e'"
  "login_email_attempt_key e \<noteq> login_ip_attempt_key i" "login_email_attempt_key e \<noteq> login_ip_block_key i"
  "login_email_block_key e \<noteq> login_ip_attempt_key i" "login_email_block_key e \<noteq> login_ip_block_key i"
  by (simp_all add: login_email_attempt_key_def login_email_block_key_def login_ip_attempt_key_def login_ip_block_key_def)

definition counter :: "int \<Rightarrow> int option \<Rightarrow> (rdata \<times> int option) option" where
  "counter n e = Some (DStr (RText (show_int n)), e)"

lemma count_frame:
  "k \<noteq> a \<Longrightarrow> k \<noteq> b \<Longrightarrow> st_find k (snd (count_attempt mem_redis a b limit st)) = st_find k st"
  "st_now (snd (count_attempt mem_redis a b limit st)) = st_now st"
  by (auto simp: count_attempt_def io_bind_def io_seq_def io_ret_def st_incr_def st_expire_def st_setex_def
      split: option.splits prod.splits rdata.splits)

lemma count_first:
  assumes "st_find a st = None" "1 < limit" "a \<noteq> b"
  shows "st_find a (snd (count_attempt mem_redis a b limit st)) = counter 1 (Some (st_now st + 900000))"
  using assms by (simp add: count_attempt_def io_bind_def io_seq_def io_ret_def st_incr_def st_expire_def
      LOGIN_WINDOW_SECONDS_def counter_def)

lemma count_next:
  assumes "st_find a st = counter n e" "1 \<le> n" "a \<noteq> b"
  shows "st_find a (snd (count_attempt mem_redis a b limit st)) = counter (n + 1) e"
    and "limit \<le> n + 1 \<Longrightarrow>
      st_find b (snd (count_attempt mem_redis a b limit st)) = Some (DStr (RText ''1''), Some (st_now st + 900000))"
proof -
  have "live e st" using assms(1) st_find_live unfolding counter_def by blast
  then have "live e (st_put b d f st)" for d f by (auto simp: live_def split: option.splits)
  with \<open>live e st\<close> assms
  show "st_find a (snd (count_attempt mem_redis a b limit st)) = counter (n + 1) e"
    by (simp add: count_attempt_def io_bind_def io_seq_def io_ret_def st_incr_def st_setex_def rv_int_def py_int_show_int
        counter_def)
  show "st_find b (snd (count_attempt mem_redis a b limit st)) = Some (DStr (RText ''1''), Some (st_now st + 900000))"
    if "limit \<le> n + 1"
    using that assms
    by (simp add: count_attempt_def io_bind_def io_seq_def io_ret_def st_incr_def st_setex_def rv_int_def py_int_show_int
        counter_def LOGIN_LOCKOUT_SECONDS_def)
qed

definition count_both :: "string \<Rightarrow> string \<Rightarrow> (store, unit) io" where
  "count_both ip email =
     io_seq (count_attempt mem_redis (login_ip_attempt_key ip) (login_ip_block_key ip) MAX_LOGIN_ATTEMPTS_PER_IP)
       (count_attempt mem_redis (login_email_attempt_key email) (login_email_block_key email) MAX_LOGIN_ATTEMPTS_PER_EMAIL)"

text \<open>After a failure that was counted for an e-mail, the count is one more, and at eight the account is blocked.\<close>

lemma count_both_email:
  assumes "count_both ip email st = (Some (), st')"
  shows "st_now st' = st_now st"
    and "st_find (login_email_attempt_key email) st = None \<Longrightarrow>
      st_find (login_email_attempt_key email) st' = counter 1 (Some (st_now st + 900000))"
    and "st_find (login_email_attempt_key email) st = counter n e \<Longrightarrow> 1 \<le> n \<Longrightarrow>
      st_find (login_email_attempt_key email) st' = counter (n + 1) e"
    and "st_find (login_email_attempt_key email) st = counter n e \<Longrightarrow> 7 \<le> n \<Longrightarrow>
      st_find (login_email_block_key email) st' = Some (DStr (RText ''1''), Some (st_now st + 900000))"
proof -
  define st1 where "st1 = snd (count_attempt mem_redis (login_ip_attempt_key ip) (login_ip_block_key ip) MAX_LOGIN_ATTEMPTS_PER_IP st)"
  have st': "st' = snd (count_attempt mem_redis (login_email_attempt_key email) (login_email_block_key email)
      MAX_LOGIN_ATTEMPTS_PER_EMAIL st1)"
    using assms by (auto simp: count_both_def io_seq_def io_bind_def st1_def split: prod.splits option.splits)
  have now: "st_now st1 = st_now st" by (simp add: st1_def count_frame)
  have same: "st_find (login_email_attempt_key email) st1 = st_find (login_email_attempt_key email) st"
    by (simp add: st1_def count_frame)
  show "st_now st' = st_now st" by (simp add: st' now count_frame)
  show "st_find (login_email_attempt_key email) st' = counter 1 (Some (st_now st + 900000))"
    if "st_find (login_email_attempt_key email) st = None"
    using that count_first [of "login_email_attempt_key email" st1] same now
    by (simp add: st' MAX_LOGIN_ATTEMPTS_PER_EMAIL_def)
  show "st_find (login_email_attempt_key email) st' = counter (n + 1) e"
    if "st_find (login_email_attempt_key email) st = counter n e" "1 \<le> n"
    using that count_next(1) [of "login_email_attempt_key email" st1] same by (simp add: st')
  show "st_find (login_email_block_key email) st' = Some (DStr (RText ''1''), Some (st_now st + 900000))"
    if "st_find (login_email_attempt_key email) st = counter n e" "7 \<le> n"
    using that count_next(2) [of "login_email_attempt_key email" st1] same now by (simp add: st' MAX_LOGIN_ATTEMPTS_PER_EMAIL_def)
qed

definition blocked_store :: "string \<Rightarrow> string \<Rightarrow> (store, bool \<times> int) io" where
  "blocked_store ip email =
     io_bind (st_ttl (login_ip_block_key ip)) (\<lambda>a. io_bind (st_ttl (login_email_block_key email)) (\<lambda>b.
       let ttl = max (max 0 a) (max 0 b) in io_ret (0 < ttl, ttl)))"

lemma blocked_store_run: "\<exists>b n. blocked_store ip email st = (Some (b, n), st)"
  by (auto simp: blocked_store_def io_bind_def st_ttl_def io_ret_def Let_def split: option.splits prod.splits)

lemma blocked_store_email:
  "st_find (login_email_block_key email) st = Some (d, Some t) \<Longrightarrow> 500 \<le> t - st_now st \<Longrightarrow>
    \<exists>n. blocked_store ip email st = (Some (True, n), st)"
  by (auto simp: blocked_store_def io_bind_def st_ttl_def io_ret_def Let_def split: option.splits prod.splits)

abbreviation invalid_reply :: reply where
  "invalid_reply \<equiv> (LoginForm, ''Email ou senha invalidos.'')"

abbreviation locked_reply :: reply where
  "locked_reply \<equiv> (LoginForm, ''Muitas tentativas. Tente novamente em alguns minutos.'')"

context redis_server
begin

abbreviation "sight s \<equiv> view (si_limiter s)"

lemma on_limiter_sim: "io_sim view m m' \<Longrightarrow> io_sim sight (on_limiter m) m'"
  by (simp add: io_sim_def on_limiter_def Let_def split_beta)

lemma count_attempt_sim: "io_sim view (count_attempt R a b limit) (count_attempt mem_redis a b limit)"
  unfolding count_attempt_def by (intro sim) (simp_all add: sim)

lemma record_sim:
  assumes "ae_client E = Some R" "email \<noteq> []"
  shows "io_sim sight (record_failed_login_attempt E email) (count_both (get_client_ip E) email)"
  using assms unfolding record_failed_login_attempt_def count_both_def
  by (auto intro!: io_sim_seq on_limiter_sim count_attempt_sim)

lemma blocked_sim:
  assumes "ae_client E = Some R" "email \<noteq> []"
  shows "io_sim sight (is_login_blocked E email) (blocked_store (get_client_ip E) email)"
  using assms unfolding is_login_blocked_def blocked_store_def
  by (auto simp: Let_def intro!: io_sim_bind io_sim_ret on_limiter_sim sim_ttl)

lemma limiter_run:
  assumes "ae_client E = Some R" "email \<noteq> []"
  obtains b n s1 where "is_login_blocked E email s = (Some (b, n), s1)" "sight s1 = sight s"
proof -
  note sm = blocked_sim [OF assms]
  from blocked_store_run [of "get_client_ip E" email "sight s"] io_sim_fst [OF sm, of s] io_sim_snd [OF sm, of s]
  show thesis by (metis fst_conv snd_conv prod.collapse that)
qed

text \<open>A login that is answered as wrong was counted.\<close>

lemma invalid_login_counts:
  assumes "ae_client E = Some R" "normalize_email email \<noteq> []"
    and run: "login E email password s = (Some invalid_reply, s')"
  shows "count_both (get_client_ip E) (normalize_email email) (sight s) = (Some (), sight s')"
proof -
  let ?e = "normalize_email email"
  obtain b n s1 where check: "is_login_blocked E ?e s = (Some (b, n), s1)" "sight s1 = sight s"
    using limiter_run [OF assms(1,2)] .
  with run have ok: "\<not> b" by (auto simp: login_def io_bind_def io_ret_def)
  with run check have attempt: "login_attempt E email password s1 = (Some invalid_reply, s')"
    by (auto simp: login_def io_bind_def io_ret_def io_try_def split: prod.splits option.splits)
  have "fst (authenticate_user E email password s1) = Some None"
  proof (cases "fst (authenticate_user E email password s1)")
    case None
    with attempt show ?thesis by (simp add: login_attempt_def io_bind_def authenticate_run)
  next
    case (Some found)
    have "found \<noteq> Some u" for u
    proof
      assume "found = Some u"
      with Some have "authenticate_user E email password s1 = (Some (Some u), s1)" by (simp add: authenticate_run)
      with attempt show False
        unfolding login_attempt_def is_role_2fa_required_def
        by (auto simp: io_bind_def get_site_def io_ret_def io_seq_def start_second_factor_def refused_tenant_def
            split: option.splits prod.splits if_splits)
    qed
    with Some show ?thesis by (cases found) auto
  qed
  then have "authenticate_user E email password s1 = (Some None, s1)" by (simp add: authenticate_run)
  with attempt obtain s2 r where rec: "record_failed_login_attempt E ?e s1 = (Some (), s2)"
    and last: "is_login_blocked E ?e s2 = (Some r, s')"
    by (auto simp: login_attempt_def io_bind_def io_seq_def io_ret_def split: prod.splits option.splits)
  note sm = record_sim [OF assms(1,2)]
  from io_sim_fst [OF sm, of s1] io_sim_snd [OF sm, of s1] rec check(2)
  have "count_both (get_client_ip E) ?e (sight s) = (Some (), sight s2)" by (simp add: prod_eq_iff)
  moreover obtain b' n' s3 where "is_login_blocked E ?e s2 = (Some (b', n'), s3)" "sight s3 = sight s2"
    using limiter_run [OF assms(1,2)] .
  ultimately show ?thesis using last by simp
qed

lemma locked_login:
  assumes "ae_client E = Some R" "normalize_email email \<noteq> []"
    and "st_find (login_email_block_key (normalize_email email)) (sight s) = Some (d, Some t)" "500 \<le> t - st_now (sight s)"
  shows "\<exists>w. login E email password s = (Some locked_reply, s\<lparr>si_limiter := w\<rparr>) \<and> view w = sight s"
proof -
  let ?e = "normalize_email email"
  obtain b n s1 where check: "is_login_blocked E ?e s = (Some (b, n), s1)" "sight s1 = sight s"
    using limiter_run [OF assms(1,2)] .
  from blocked_store_email [OF assms(3,4), of "get_client_ip E"] io_sim_fst [OF blocked_sim [OF assms(1,2)], of s] check
  have "b" by auto
  moreover have "s1 = s\<lparr>si_limiter := si_limiter s1\<rparr>"
    using blocked_frame [OF check(1)] by (cases s, cases s1) simp
  ultimately show ?thesis
    using check by (intro exI [of _ "si_limiter s1"]) (simp add: login_def io_bind_def io_ret_def)
qed

end

text \<open>A run of failures for one e-mail, with the milliseconds it took. Between them time passes, and anything
  may happen to the site but to the two keys of this e-mail.\<close>

definition waits :: "('w \<Rightarrow> store) \<Rightarrow> string \<Rightarrow> int \<Rightarrow> 'w site \<Rightarrow> 'w site \<Rightarrow> bool" where
  "waits view email d s s' \<longleftrightarrow> 0 \<le> d \<and> st_now (view (si_limiter s')) = st_now (view (si_limiter s)) + d \<and>
     (\<forall>k \<in> {login_email_attempt_key email, login_email_block_key email}.
        st_find k (view (si_limiter s')) = st_find k (elapse d (view (si_limiter s))))"

inductive fails :: "'w redis \<Rightarrow> ('w \<Rightarrow> store) \<Rightarrow> string \<Rightarrow> 'w site \<Rightarrow> nat \<Rightarrow> int \<Rightarrow> 'w site \<Rightarrow> bool"
  for R view who s0 where
  none: "fails R view who s0 0 0 s0"
| attempt: "fails R view who s0 n d s \<Longrightarrow> ae_client E = Some R \<Longrightarrow> normalize_email email = who \<Longrightarrow>
    login E email password s = (Some invalid_reply, s') \<Longrightarrow> fails R view who s0 (Suc n) d s'"
| wait: "fails R view who s0 n d s \<Longrightarrow> waits view who k s s' \<Longrightarrow> fails R view who s0 n (d + k) s'"

context redis_server
begin

lemma fails_counted:
  assumes "fails R view who s0 n d s" "who \<noteq> []" "st_find (login_email_attempt_key who) (sight s0) = None" "d < 900000"
  shows "st_now (sight s) = st_now (sight s0) + d" "0 \<le> d"
    and "if n = 0 then st_find (login_email_attempt_key who) (sight s) = None
      else \<exists>t. st_now (sight s0) + 900000 \<le> t \<and> st_find (login_email_attempt_key who) (sight s) = counter (int n) (Some t)"
proof -
  have "st_now (sight s) = st_now (sight s0) + d \<and> 0 \<le> d \<and>
    (if n = 0 then st_find (login_email_attempt_key who) (sight s) = None
     else \<exists>t. st_now (sight s0) + 900000 \<le> t \<and> st_find (login_email_attempt_key who) (sight s) = counter (int n) (Some t))"
    using assms(1,4)
  proof (induction rule: fails.induct)
    case none
    from assms(3) show ?case by simp
  next
    case (attempt n d s E email password s')
    from attempt.hyps assms(2) have "count_both (get_client_ip E) who (sight s) = (Some (), sight s')"
      using invalid_login_counts by blast
    note after = count_both_email [OF this]
    from attempt have IH: "st_now (sight s) = st_now (sight s0) + d" "0 \<le> d" by auto
    show ?case
    proof (cases n)
      case 0
      with attempt have "st_find (login_email_attempt_key who) (sight s) = None" by auto
      from after(2) [OF this] after(1) IH 0 show ?thesis
        by (auto intro!: exI [of _ "st_now (sight s) + 900000"])
    next
      case (Suc m)
      with attempt obtain t where "st_now (sight s0) + 900000 \<le> t"
        "st_find (login_email_attempt_key who) (sight s) = counter (int n) (Some t)" by auto
      with after(3) [OF this(2)] after(1) IH Suc show ?thesis by (auto simp: add.commute)
    qed
  next
    case (wait n d s k s')
    then have k: "0 \<le> k" "st_now (sight s') = st_now (sight s) + k"
        "st_find (login_email_attempt_key who) (sight s') = st_find (login_email_attempt_key who) (elapse k (sight s))"
      by (simp_all add: waits_def)
    with wait have IH: "st_now (sight s) = st_now (sight s0) + d" "0 \<le> d" by auto
    show ?case
    proof (cases "n = 0")
      case True
      with wait k have "st_find (login_email_attempt_key who) (sight s) = None" by auto
      with k st_find_elapse_None IH True show ?thesis by simp
    next
      case False
      with wait k obtain t where t: "st_now (sight s0) + 900000 \<le> t"
        "st_find (login_email_attempt_key who) (sight s) = counter (int n) (Some t)" by auto
      have "live (Some t) (elapse k (sight s))" using t(1) wait.prems IH by simp
      with t(2) have "st_find (login_email_attempt_key who) (elapse k (sight s)) = counter (int n) (Some t)"
        by (simp add: counter_def st_find_elapse_Some)
      with k IH t(1) False show ?thesis by auto
    qed
  qed
  then show "st_now (sight s) = st_now (sight s0) + d" "0 \<le> d"
    "if n = 0 then st_find (login_email_attempt_key who) (sight s) = None
      else \<exists>t. st_now (sight s0) + 900000 \<le> t \<and> st_find (login_email_attempt_key who) (sight s) = counter (int n) (Some t)"
    by auto
qed

end

section \<open>Under siege\<close>

text \<open>What may happen while an account is closed: time passes, and anything to the site but to the two keys of this e-mail; anybody
  tries to log in, from any address, with any e-mail, this one included, and any password, right or wrong. (A second factor accepted
  for this account in a browser that was past the first one is neither: it clears the block.)\<close>

inductive siege :: "'w redis \<Rightarrow> ('w \<Rightarrow> store) \<Rightarrow> string \<Rightarrow> 'w site \<Rightarrow> int \<Rightarrow> 'w site \<Rightarrow> bool" for R view who s0 where
  start: "siege R view who s0 0 s0"
| wait: "siege R view who s0 k s \<Longrightarrow> waits view who d s s' \<Longrightarrow> siege R view who s0 (k + d) s'"
| tries: "siege R view who s0 k s \<Longrightarrow> ae_client E = Some R \<Longrightarrow> siege R view who s0 k (snd (login E email password s))"

text \<open>The block of the account and the clock are as they were.\<close>

definition block_kept :: "('w \<Rightarrow> store) \<Rightarrow> string \<Rightarrow> 'w site \<Rightarrow> 'w site \<Rightarrow> bool" where
  "block_kept view who = key_and_clock (\<lambda>s. view (si_limiter s)) (login_email_block_key who)"

interpretation kept: io_order "block_kept view who" for view who
  by unfold_locales (simp_all add: block_kept_def key_and_clock_def)

lemma kept_put: "(\<And>s. si_limiter (f s) = si_limiter s) \<Longrightarrow> io_within (block_kept view who) (put_site f)"
  by (simp add: io_within_def put_site_def block_kept_def key_and_clock_def)

lemma kept_get: "io_within (block_kept view who) (get_site f)"
  by (simp add: io_within_def get_site_def block_kept_def key_and_clock_def)

lemma kept_limiter: "io_within (key_and_clock view (login_email_block_key who)) m \<Longrightarrow> io_within (block_kept view who) (on_limiter m)"
  by (simp add: io_within_def on_limiter_def block_kept_def key_and_clock_def Let_def split_beta)

lemmas kept_rules = kept.within_bind kept.within_seq kept.within_try kept.within_ret kept.within_raise kept_get

lemma kept_session: "io_within (block_kept view who) (set_session f)"
  unfolding set_session_def by (rule kept_put) simp

lemma kept_signed_in: "io_within (block_kept view who) (finalize_authenticated_session u)"
  "io_within (block_kept view who) (redirect_after_auth_success E u m)" "io_within (block_kept view who) (start_second_factor E u)"
  unfolding finalize_authenticated_session_def redirect_after_auth_success_def redirect_after_login_def start_second_factor_def
    clear_pending_2fa_session_def store_password_change_requirement_def store_pending_2fa_login_def
  by (auto intro!: kept_rules kept_session kept_put split: option.split)

lemma email_keys [simp]: "login_email_block_key e = login_email_block_key e' \<longleftrightarrow> e = e'"
  by (simp add: login_email_block_key_def)

context redis_server
begin

lemma kept_ttl: "io_within (key_and_clock view k) (r_ttl R k')"
  by (rule key_and_clock_sim [OF sim_ttl]) (simp_all add: st_ttl_def split: option.splits prod.splits)

lemma kept_delete: "k \<notin> set ks \<Longrightarrow> io_within (key_and_clock view k) (r_delete R ks)"
  by (rule key_and_clock_sim [OF sim_delete]) (simp_all add: st_delete_def st_find_foldr_del)

lemma kept_count: "k \<noteq> a \<Longrightarrow> k \<noteq> b \<Longrightarrow> io_within (key_and_clock view k) (count_attempt R a b limit)"
  by (rule key_and_clock_sim [OF count_attempt_sim]) (simp_all add: count_frame)

lemma other_login:
  assumes "ae_client E = Some R" "normalize_email email \<noteq> who"
  shows "io_within (block_kept view who) (login E email password)"
proof -
  have blocked: "io_within (block_kept view who) (is_login_blocked E e)" for e
    unfolding is_login_blocked_def using assms(1) by (auto simp: Let_def intro!: kept_rules kept_limiter kept_ttl)
  have counted: "io_within (block_kept view who) (record_failed_login_attempt E (normalize_email email))"
    unfolding record_failed_login_attempt_def using assms by (auto intro!: kept_rules kept_limiter kept_count)
  have clear: "io_within (block_kept view who) (clear_login_attempts E (normalize_email email))"
    unfolding clear_login_attempts_def using assms by (auto intro!: kept_limiter kept_delete)
  have found: "io_within (block_kept view who) (authenticate_user E email password)"
    unfolding authenticate_user_def by (auto intro!: kept_rules split: option.split)
  show ?thesis
    unfolding login_def login_attempt_def
    by (auto intro!: kept_rules blocked counted clear found kept_signed_in split: option.split)
qed

lemma siege_closed:
  assumes "siege R view who s k s'" "who \<noteq> []" "st_find (login_email_block_key who) (sight s) = Some (DStr (RText ''1''), Some (st_now (sight s) + 900000))"
    and "k \<le> 899500"
  shows "0 \<le> k \<and> st_now (sight s') = st_now (sight s) + k \<and>
    st_find (login_email_block_key who) (sight s') = Some (DStr (RText ''1''), Some (st_now (sight s) + 900000))"
  using assms(1,4)
proof (induction rule: siege.induct)
  case start
  with assms(3) show ?case by simp
next
  case (wait k s1 d s2)
  then show ?case by (simp add: waits_def st_find_elapse_Some)
next
  case (tries k s1 E email password)
  show ?case
  proof (cases "normalize_email email = who")
    case True
    from tries have flag: "0 \<le> k" "st_now (sight s1) = st_now (sight s) + k"
      "st_find (login_email_block_key who) (sight s1) = Some (DStr (RText ''1''), Some (st_now (sight s) + 900000))" by simp_all
    with True tries.prems locked_login [OF tries.hyps(2), of email s1 "DStr (RText ''1'')" "st_now (sight s) + 900000" password] assms(2)
    obtain w where "login E email password s1 = (Some locked_reply, s1\<lparr>si_limiter := w\<rparr>)" "view w = sight s1" by auto
    with flag show ?thesis by simp
  next
    case False
    from io_withinD [OF other_login [OF tries.hyps(2) False, of password], of s1] tries show ?thesis
      by (simp add: block_kept_def key_and_clock_def)
  qed
qed

lemma eighth_failure_locks:
  assumes "who \<noteq> []" "st_find (login_email_attempt_key who) (sight s0) = None"
    and seven: "fails R view who s0 7 d s" "d < 900000"
    and eighth: "ae_client E = Some R" "normalize_email email = who" "login E email password s = (Some invalid_reply, s1)"
    and later: "siege R view who s1 k s2" "k \<le> 899500"
    and again: "ae_client E' = Some R" "normalize_email email' = who"
  shows "\<exists>w. login E' email' password' s2 = (Some locked_reply, s2\<lparr>si_limiter := w\<rparr>) \<and> view w = sight s2"
proof -
  obtain t where count: "st_find (login_email_attempt_key who) (sight s) = counter (int 7) (Some t)"
    using fails_counted(3) [OF seven(1) assms(1,2) seven(2)] by auto
  have "count_both (get_client_ip E) who (sight s) = (Some (), sight s1)"
    using invalid_login_counts [OF eighth(1) _ eighth(3)] assms(1) eighth(2) by simp
  note after = count_both_email [OF this]
  have block: "st_find (login_email_block_key who) (sight s1) = Some (DStr (RText ''1''), Some (st_now (sight s1) + 900000))"
    using after(4) [OF count] after(1) by simp
  from siege_closed [OF later(1) assms(1) block later(2)] have k: "st_now (sight s2) = st_now (sight s1) + k"
      "st_find (login_email_block_key who) (sight s2) = Some (DStr (RText ''1''), Some (st_now (sight s1) + 900000))" by simp_all
  show ?thesis
    using locked_login [OF again(1), of email'] again(2) assms(1) k later(2) by auto
qed

end

section \<open>The page for a forgotten password\<close>

text \<open>Calls that neither read nor change the users, nor the mails sent.\<close>

definition blind :: "('w, 'a) web \<Rightarrow> bool" where
  "blind m \<longleftrightarrow> (\<forall>s us. m (s\<lparr>si_users := us\<rparr>) = (fst (m s), (snd (m s))\<lparr>si_users := us\<rparr>) \<and>
     si_users (snd (m s)) = si_users s \<and> si_outbox (snd (m s)) = si_outbox s)"

named_theorems blind \<open>calls that neither read nor change the users\<close>

lemma blindD:
  "blind m \<Longrightarrow> m (s\<lparr>si_users := us\<rparr>) = (fst (m s), (snd (m s))\<lparr>si_users := us\<rparr>)"
  "blind m \<Longrightarrow> si_users (snd (m s)) = si_users s" "blind m \<Longrightarrow> si_outbox (snd (m s)) = si_outbox s"
  by (auto simp: blind_def)

lemma blind_ret [blind]: "blind (io_ret a)"
  by (simp add: blind_def io_ret_def)

lemma blind_bind [blind]:
  assumes "blind m" "\<And>a. blind (f a)"
  shows "blind (io_bind m f)"
  unfolding blind_def
proof (intro allI)
  fix s us
  obtain r s1 where run: "m s = (r, s1)" by fastforce
  show "io_bind m f (s\<lparr>si_users := us\<rparr>) = (fst (io_bind m f s), (snd (io_bind m f s))\<lparr>si_users := us\<rparr>) \<and>
      si_users (snd (io_bind m f s)) = si_users s \<and> si_outbox (snd (io_bind m f s)) = si_outbox s"
    using blindD [OF assms(1), where s = s] blindD [OF assms(2), where s = s1] run by (cases r) (auto simp: io_bind_def)
qed

lemma blind_seq [blind]: "blind m \<Longrightarrow> blind n \<Longrightarrow> blind (io_seq m n)"
  unfolding io_seq_def by (rule blind_bind)

lemma blind_limiter [blind]: "blind (on_limiter m)"
  by (auto simp: blind_def on_limiter_def Let_def split: prod.split)

lemma blind_memory [blind]: "blind (get_site si_mem)"
  by (simp add: blind_def get_site_def)

lemma blind_put_memory [blind]: "blind (put_site (\<lambda>s. s\<lparr>si_mem := m\<rparr>))"
  by (simp add: blind_def put_site_def)

lemma blind_if [blind]: "blind m \<Longrightarrow> blind n \<Longrightarrow> blind (if b then m else n)"
  by simp

lemma blind_option [blind]: "blind m \<Longrightarrow> (\<And>x. blind (f x)) \<Longrightarrow> blind (case v of None \<Rightarrow> m | Some x \<Rightarrow> f x)"
  by (cases v) auto

lemma blind_forgot_attempt: "blind (consume_forgot_password_attempt E)"
  unfolding consume_forgot_password_attempt_def Let_def
  by (intro blind)

definition account_of :: "user list \<Rightarrow> string \<Rightarrow> user option" where
  "account_of users email = (if email = [] then None else find (\<lambda>u. py_lower (u_email u) = py_lower email) users)"

lemma request_reset_run:
  assumes "\<And>a. ae_delivers E a"
  shows "request_reset E email s =
    (Some (ToLogin, ''Se o email estiver cadastrado, voce recebera instrucoes de recuperacao.''),
     s\<lparr>si_outbox := si_outbox s @ (case account_of (si_users s) email of None \<Rightarrow> []
       | Some u \<Rightarrow> if ae_smtp_configured E then [(u_email u, ae_dumps E (u_id u) (u_email u) (ae_now E))] else [])\<rparr>)"
proof -
  have send: "send_reset_email E to token s =
      (Some (), s\<lparr>si_outbox := si_outbox s @ (if ae_smtp_configured E then [(to, token)] else [])\<rparr>)" for to token
    by (simp add: send_reset_email_def assms put_site_def io_ret_def)
  show ?thesis
    by (cases "account_of (si_users s) email")
      (simp_all only: request_reset_def get_site_run account_of_def [symmetric],
       simp_all add: io_seq_def io_bind_def io_ret_def send)
qed

lemma forgot_run:
  assumes "\<And>a. ae_delivers E a"
  shows "fst (forgot_password E post (s\<lparr>si_users := us\<rparr>)) = fst (forgot_password E post s)"
    and "\<exists>mails. si_outbox (snd (forgot_password E post s)) = si_outbox s @ mails \<and>
      (\<forall>(to, token) \<in> set mails. \<exists>u \<in> set (si_users s). to = u_email u \<and> token = ae_dumps E (u_id u) (u_email u) (ae_now E) \<and>
        (\<exists>email. post = Some email \<and> py_lower to = normalize_email email))"
proof -
  show "fst (forgot_password E post (s\<lparr>si_users := us\<rparr>)) = fst (forgot_password E post s)"
    using blindD(1) [OF blind_forgot_attempt [of E], where s = s and us = us]
    by (auto simp: forgot_password_def io_bind_def io_ret_def io_try_def request_reset_run [OF assms] split: option.split prod.split)
  show "\<exists>mails. si_outbox (snd (forgot_password E post s)) = si_outbox s @ mails \<and>
      (\<forall>(to, token) \<in> set mails. \<exists>u \<in> set (si_users s). to = u_email u \<and> token = ae_dumps E (u_id u) (u_email u) (ae_now E) \<and>
        (\<exists>email. post = Some email \<and> py_lower to = normalize_email email))"
  proof (cases post)
    case None
    then show ?thesis by (simp add: forgot_password_def io_ret_def)
  next
    case (Some email)
    obtain r s1 where first: "consume_forgot_password_attempt E s = (r, s1)" by fastforce
    with blindD(2,3) [OF blind_forgot_attempt [of E], where s = s] have same: "si_users s1 = si_users s" "si_outbox s1 = si_outbox s" by auto
    show ?thesis
    proof (cases "r = None \<or> (\<exists>n. r = Some (False, n)) \<or> account_of (si_users s) (py_strip (or_empty email)) = None")
      case True
      with Some first same show ?thesis
        by (auto simp: forgot_password_def io_bind_def io_ret_def io_try_def request_reset_run [OF assms] split: option.split)
    next
      case False
      then obtain n u where r: "r = Some (True, n)" and u: "account_of (si_users s) (py_strip (or_empty email)) = Some u"
        by (metis (full_types) option.exhaust old.prod.exhaust)
      then have "u \<in> set (si_users s)" "py_lower (u_email u) = normalize_email email"
        by (auto simp: account_of_def normalize_email_def find_Some_iff split: if_splits)
      with Some first same r u show ?thesis
        by (auto simp: forgot_password_def io_bind_def io_ret_def io_try_def request_reset_run [OF assms])
    qed
  qed
qed

section \<open>Properties\<close>

text \<open>C16: Nobody is signed in on a password alone. However a browser's requests and the rest of the site's
  life follow each other, once its session, empty at the start, carries a user's id, one of its requests
  was a login with this user's right password and a later one, within ten minutes of that login, a code of
  the second factor that was accepted for this very user.\<close>

theorem session_needs_both_factors:
  assumes "browses s0 past s" and "si_session s0 = no_session" and "se_user_id (si_session s) = Some uid"
  shows "\<exists>i j. i < j \<and> j < length past \<and> gave_password (past ! i) uid \<and> gave_code (past ! j) uid \<and>
    event_second (past ! j) - event_second (past ! i) \<le> 600"
proof -
  from browses_session [OF assms(1,2)] assms(3) have "let_in past uid" by (simp add: session_ok_def)
  then show ?thesis by (auto simp: let_in_def PENDING_2FA_TTL_SECONDS_def)
qed

definition demo_secret :: string where "demo_secret = ''GEZDGNBVGY3TQOJQ''"

definition demo_user :: user where
  "demo_user = \<lparr>u_id = ''u1'', u_tenant_id = None, u_email = ''ana@x.com'', u_password_hash = ''Segredo#1'', u_full_name = ''Ana'',
     u_role = SUPER_ADMIN, u_is_active = Some True, u_totp_secret = Some demo_secret, u_must_change_password = False,
     u_password_changed_at = None\<rparr>"

definition demo_env :: "'w redis option \<Rightarrow> naive \<Rightarrow> 'w auth_env" where
  "demo_env client now = \<lparr>ae_client = client, ae_verify = \<lambda>p h. Some (p = h), ae_hash = \<lambda>p. p,
     ae_loads = \<lambda>_ _. None, ae_dumps = \<lambda>i _ _. i, ae_smtp_configured = True, ae_delivers = \<lambda>_. True,
     ae_secret = demo_secret, ae_forwarded = None, ae_remote_addr = ''10.0.0.9'', ae_now = now\<rparr>"

definition demo_site :: "'w \<Rightarrow> 'w site" where
  "demo_site w = \<lparr>si_users = [demo_user], si_tenants = [], si_session = no_session,
     si_mem = \<lparr>am_attempts_ip = [], am_attempts_email = [], am_blocks_ip = [], am_blocks_email = [],
       am_forgot_attempts = [], am_forgot_blocks = []\<rparr>, si_limiter = w, si_outbox = []\<rparr>"

definition demo_now :: naive where
  "demo_now = (62135596800 + 1700000000) * US"

definition demo_code :: string where
  "demo_code = the (totp_at demo_secret (1700000000 div 30) 6)"

lemma demo_code_accepted: "verify_totp 1700000000 demo_secret demo_code = Some True"
proof (rule current_code_accepted)
  have "b32decode demo_secret \<noteq> None" by (simp add: demo_secret_def b32decode_def Let_def b32_digit_def char_between_def)
  then show "totp_at demo_secret (1700000000 div 30) 6 = Some demo_code"
    by (auto simp: demo_code_def totp_at_def Let_def)
qed (simp_all add: demo_secret_def)

abbreviation "demo_signin \<equiv> SignIn (Some ''ana@x.com'') (Some ''Segredo#1'')"

lemma demo_text [simp]: "normalize_email (Some ''ana@x.com'') = ''ana@x.com''" "py_strip ''10.0.0.9'' = ''10.0.0.9''"
  by code_simp+

lemma demo_epoch [simp]: "epoch_seconds demo_now = 1700000000"
  by (simp add: demo_now_def epoch_seconds_def US_def)

lemma demo_signed_in:
  fixes client :: "unit redis option"
  defines "s1 \<equiv> snd (handle (demo_env None demo_now) demo_signin (demo_site ()))"
  shows "se_user_id (si_session (snd (handle (demo_env None demo_now) (Verify (Some (Some demo_code))) s1))) = Some ''u1''"
proof -
  have s1: "s1 = (demo_site ())\<lparr>si_session := no_session\<lparr>se_pending := Some \<lparr>pe_user_id = ''u1'',
      pe_email = ''ana@x.com'', pe_ip = ''10.0.0.9'', pe_issued_at = 1700000000\<rparr>\<rparr>\<rparr>"
    by (simp add: s1_def handle_def login_def is_login_blocked_def demo_env_def demo_site_def io_ret_def io_try_def
        block_left_def login_attempt_def authenticate_user_def demo_user_def refused_tenant_def clear_login_attempts_def
        get_client_ip_def or_empty_def io_bind_def io_seq_def get_site_def put_site_def is_role_2fa_required_def
        start_second_factor_def store_pending_2fa_login_def set_session_def demo_secret_def)
  have "waiting_user (demo_env None demo_now) s1 = Some demo_user"
    by (simp add: s1 waiting_user_def pending_user_def demo_env_def demo_site_def get_client_ip_def or_empty_def
        PENDING_2FA_TTL_SECONDS_def demo_user_def)
  then show ?thesis
    using demo_code_accepted
    by (simp add: handle_def two_factor_verify_def io_try_def with_pending_run refused_tenant_def demo_user_def verify_page_def
        or_empty_def demo_secret_def check_code_def demo_env_def io_ret_def io_seq_def io_bind_def clear_login_attempts_def
        put_site_def finalize_authenticated_session_def clear_pending_2fa_session_def set_session_def
        redirect_after_auth_success_def redirect_after_login_def get_client_ip_def)
qed

theorem session_needs_both_factors_witness:
  "\<exists>past (s :: unit site). browses (demo_site ()) past s \<and> se_user_id (si_session s) = Some ''u1'' \<and>
     (\<exists>i j. i < j \<and> j < length past \<and> gave_password (past ! i) ''u1'' \<and> gave_code (past ! j) ''u1'' \<and>
       event_second (past ! j) - event_second (past ! i) \<le> 600)"
proof -
  let ?E = "demo_env None demo_now :: unit auth_env"
  let ?s1 = "snd (handle ?E demo_signin (demo_site ()))"
  let ?s2 = "snd (handle ?E (Verify (Some (Some demo_code))) ?s1)"
  have run: "browses (demo_site ()) (([] @ [(?E, demo_signin, demo_site ())]) @ [(?E, Verify (Some (Some demo_code)), ?s1)]) ?s2"
    by (intro browses.request browses.opened)
  have start: "si_session (demo_site ()) = no_session" by (simp add: demo_site_def)
  note signed = demo_signed_in
  from run signed session_needs_both_factors [OF run start signed] show ?thesis by blast
qed


text \<open>Eight failures on the store itself.\<close>

definition demo_count :: "int \<Rightarrow> store" where
  "demo_count n = \<lparr>st_now = 0, st_data = (if n = 0 then [] else
     [(login_ip_attempt_key ''10.0.0.9'', DStr (RText (show_int n)), Some 900000),
      (login_email_attempt_key ''ana@x.com'', DStr (RText (show_int n)), Some 900000)])\<rparr>"

abbreviation "demo_redis_env \<equiv> demo_env (Some mem_redis) demo_now"

abbreviation "wrong_login s \<equiv> login demo_redis_env (Some ''ana@x.com'') (Some ''x'') s"

lemma demo_not_blocked: "is_login_blocked demo_redis_env ''ana@x.com'' (demo_site (demo_count n)) =
    (Some (False, 0), demo_site (demo_count n))"
  by (simp add: is_login_blocked_def demo_env_def io_bind_def on_limiter_def st_ttl_def st_find_def demo_count_def demo_site_def
      get_client_ip_def or_empty_def login_ip_block_key_def login_email_block_key_def login_ip_attempt_key_def
      login_email_attempt_key_def io_ret_def Let_def)

lemma demo_record:
  assumes "0 \<le> n"
  shows "record_failed_login_attempt demo_redis_env ''ana@x.com'' (demo_site (demo_count n)) =
    (Some (), if n < 7 then demo_site (demo_count (n + 1))
      else snd (record_failed_login_attempt demo_redis_env ''ana@x.com'' (demo_site (demo_count n))))"
  using assms
  by (simp add: record_failed_login_attempt_def demo_env_def io_bind_def io_seq_def on_limiter_def st_incr_def st_find_def
      demo_count_def demo_site_def count_attempt_def st_put_def st_expire_def st_setex_def rv_int_def py_int_show_int
      get_client_ip_def or_empty_def login_ip_block_key_def login_email_block_key_def login_ip_attempt_key_def
      login_email_attempt_key_def io_ret_def Let_def LOGIN_WINDOW_SECONDS_def LOGIN_LOCKOUT_SECONDS_def
      MAX_LOGIN_ATTEMPTS_PER_IP_def MAX_LOGIN_ATTEMPTS_PER_EMAIL_def)

lemma demo_client: "ae_client demo_redis_env = Some mem_redis"
  by (simp add: demo_env_def)

lemma demo_wrong_login:
  assumes "0 \<le> n"
  shows "\<exists>s'. wrong_login (demo_site (demo_count n)) = (Some invalid_reply, s') \<and>
    (n < 7 \<longrightarrow> s' = demo_site (demo_count (n + 1)))"
proof -
  let ?s = "demo_site (demo_count n)"
  obtain s1 where rec: "record_failed_login_attempt demo_redis_env ''ana@x.com'' ?s = (Some (), s1)"
      "n < 7 \<Longrightarrow> s1 = demo_site (demo_count (n + 1))"
    by (rule that [OF demo_record [OF assms]]) simp
  obtain b k s2 where blocked: "is_login_blocked demo_redis_env ''ana@x.com'' s1 = (Some (b, k), s2)"
    using mem.limiter_run [OF demo_client, of "''ana@x.com''"] by blast
  have same: "n < 7 \<Longrightarrow> s2 = s1"
    using blocked rec(2) demo_not_blocked [of "n + 1"] by simp
  have "authenticate_user demo_redis_env (Some ''ana@x.com'') (Some ''x'') ?s = (Some None, ?s)"
    by (simp add: authenticate_run demo_site_def demo_user_def demo_env_def)
  then have "login_attempt demo_redis_env (Some ''ana@x.com'') (Some ''x'') ?s = (Some invalid_reply, s2)"
    using rec(1) blocked by (simp add: login_attempt_def io_bind_def io_seq_def io_ret_def)
  then have "wrong_login ?s = (Some invalid_reply, s2)"
    using demo_not_blocked [of n] by (simp add: login_def io_bind_def io_try_def)
  with same rec(2) show ?thesis by blast
qed

lemma demo_fails: "n \<le> 7 \<Longrightarrow> fails mem_redis (\<lambda>w. w) ''ana@x.com'' (demo_site (demo_count 0)) n 0 (demo_site (demo_count (int n)))"
proof (induction n)
  case 0
  then show ?case by (simp add: fails.none)
next
  case (Suc n)
  then have before: "fails mem_redis (\<lambda>w. w) ''ana@x.com'' (demo_site (demo_count 0)) n 0 (demo_site (demo_count (int n)))"
    by simp
  from Suc.prems demo_wrong_login [of "int n"]
  have "wrong_login (demo_site (demo_count (int n))) = (Some invalid_reply, demo_site (demo_count (int (Suc n))))"
    by (metis add.commute of_nat_0_le_iff of_nat_Suc of_nat_less_iff of_nat_numeral Suc_le_eq)
  with before show ?case by (intro fails.attempt [OF before demo_client]) simp_all
qed


text \<open>C33: The page for a forgotten password does not tell who has an account: when mail can be delivered, its
  answer is the same whatever users there are; and the reset tokens it mails go only to the registered
  address of the account whose e-mail was typed.\<close>

theorem forgot_reply_hides_accounts:
  assumes "\<And>a. ae_delivers E a"
  shows "fst (forgot_password E post (s\<lparr>si_users := us\<rparr>)) = fst (forgot_password E post s) \<and>
    (\<exists>mails. si_outbox (snd (forgot_password E post s)) = si_outbox s @ mails \<and>
      (\<forall>(to, token) \<in> set mails. \<exists>u \<in> set (si_users s). to = u_email u \<and> token = ae_dumps E (u_id u) (u_email u) (ae_now E) \<and>
        (\<exists>email. post = Some email \<and> py_lower to = normalize_email email)))"
  using forgot_run [OF assms] by blast

theorem forgot_reply_hides_accounts_witness:
  "fst (forgot_password (demo_env None demo_now) (Some (Some ''ana@x.com'')) ((demo_site ())\<lparr>si_users := []\<rparr>)) =
     fst (forgot_password (demo_env None demo_now) (Some (Some ''ana@x.com'')) (demo_site ()))"
  by (rule conjunct1 [OF forgot_reply_hides_accounts]) (simp add: demo_env_def)

end
