(* ===== verification/Guards.thy ===== *)
theory Guards
  imports Login BillingPolicy
begin

text \<open>
  Who gets through to a page: the functions the application runs before every request
  (\<open>create_flask_app\<close> in \<open>src/app/__init__.py\<close>), in the order Flask calls them, and the role checks of the
  pages (\<open>src/app/web/auth/decorators.py\<close>).

  The session of the browser is that of \<open>Login\<close> with the CSRF token and the way back of a super
  administrator. Identifiers in it were written by the application. \<open>urlsplit\<close> is that of Python 3.11; whether
  a host in brackets is a valid address (\<open>ipaddress\<close>) is an argument.
\<close>

section \<open>Splitting a URL\<close>

definition is_alpha :: "char \<Rightarrow> bool" where
  "is_alpha c \<longleftrightarrow> is_ascii_upper c \<or> is_ascii_lower c"

definition scheme_char :: "char \<Rightarrow> bool" where
  "scheme_char c \<longleftrightarrow> is_alpha c \<or> py_is_digit c \<or> c \<in> set ''+-.''"

text \<open>What comes before the first of some characters, and what from there on.\<close>

definition cut_at :: "(char \<Rightarrow> bool) \<Rightarrow> string \<Rightarrow> string \<times> string" where
  "cut_at p s = (takeWhile (\<lambda>c. \<not> p c) s, dropWhile (\<lambda>c. \<not> p c) s)"

record split_url =
  su_scheme :: string
  su_netloc :: string
  su_path :: string
  su_query :: string

text \<open>\<open>None\<close> is the \<open>ValueError\<close> of a bad host in brackets.\<close>

definition urlsplit :: "(string \<Rightarrow> bool) \<Rightarrow> string \<Rightarrow> split_url option" where
  "urlsplit valid_host url0 =
     (let url1 = filter (\<lambda>c. c \<notin> {CHR 0x09, CHR 0x0A, CHR 0x0D}) (dropWhile (\<lambda>c. of_char c \<le> (32::nat)) url0);
          (head, tail) = cut_at (\<lambda>c. c = CHR '':'') url1;
          has_scheme = (tail \<noteq> [] \<and> head \<noteq> [] \<and> is_alpha (hd head) \<and> list_all scheme_char head);
          url2 = (if has_scheme then tl tail else url1);
          (netloc, url3) = (if prefix ''//'' url2 then cut_at (\<lambda>c. c \<in> set ''/?#'') (drop 2 url2) else ([], url2));
          opening = (CHR ''['' \<in> set netloc); closing = (CHR '']'' \<in> set netloc);
          url4 = fst (cut_at (\<lambda>c. c = CHR ''#'') url3);
          (path, rest) = cut_at (\<lambda>c. c = CHR ''?'') url4
      in if opening \<noteq> closing \<or> (opening \<and> \<not> valid_host netloc) then None
         else Some \<lparr>su_scheme = (if has_scheme then py_lower head else []), su_netloc = netloc, su_path = path, su_query = tl rest\<rparr>)"

text \<open>\<open>Inl\<close> when parsing raises.\<close>

definition sanitize_admin_return_target :: "(string \<Rightarrow> bool) \<Rightarrow> string option \<Rightarrow> unit + string option" where
  "sanitize_admin_return_target valid_host raw =
     (let value = py_strip (or_empty raw) in
      if value = [] then Inr None
      else case urlsplit valid_host value of
        None \<Rightarrow> Inl ()
      | Some p \<Rightarrow>
          if su_scheme p \<noteq> [] \<or> su_netloc p \<noteq> [] then Inr None
          else if \<not> prefix ''/admin/'' (su_path p) then Inr None
          else Inr (Some (if su_query p = [] then su_path p else su_path p @ ''?'' @ su_query p)))"

section \<open>Before every request\<close>

record browser =
  br_auth :: web_session
  br_csrf :: "string option"
  br_return_url :: "string option"
  br_return_label :: "string option"
  br_return_slug :: "string option"

definition empty_browser :: browser where
  "empty_browser = \<lparr>br_auth = no_session, br_csrf = None, br_return_url = None, br_return_label = None, br_return_slug = None\<rparr>"

record http_request =
  rq_method :: string
  rq_path :: string
  rq_form_token :: "string option"
  rq_header_token :: "string option"
  rq_admin_return :: "string option"
  rq_admin_label :: "string option"
  rq_view_slug :: "string option"
  rq_host :: "string option"
  rq_forwarded_proto :: "string option"
  rq_is_secure :: bool
  rq_url :: string

record guard_env =
  gv_valid_host :: "string \<Rightarrow> bool"
  gv_app_env :: string
  gv_users :: "user list"
  gv_tenants :: "tenant list"

datatype verdict = Proceed | Refused int | SentToLogin string | SentToForceChange | SentTo string

type_synonym guard = "browser \<Rightarrow> verdict \<times> browser"

definition is_super :: "browser \<Rightarrow> bool" where
  "is_super b \<longleftrightarrow> se_user_role (br_auth b) = Some SUPER_ADMIN"

definition csrf_protect :: "http_request \<Rightarrow> guard" where
  "csrf_protect rq b =
     (if rq_method rq \<in> {''POST'', ''PUT'', ''PATCH'', ''DELETE''} \<and> \<not> prefix ''/webhooks/billing/mercadopago'' (rq_path rq) then
        (let session_token = or_empty (br_csrf b);
             request_token = (if or_empty (rq_form_token rq) \<noteq> [] then or_empty (rq_form_token rq) else or_empty (rq_header_token rq))
         in if session_token = [] \<or> request_token = [] \<or> session_token \<noteq> request_token then (Refused 400, b) else (Proceed, b))
      else (Proceed, b))"

definition track_superadmin_origin :: "guard_env \<Rightarrow> http_request \<Rightarrow> guard" where
  "track_superadmin_origin G rq b =
     (if \<not> is_super b then (Proceed, b\<lparr>br_return_url := None, br_return_label := None, br_return_slug := None\<rparr>)
      else if \<not> prefix ''/tenant/'' (rq_path rq) then (Proceed, b)
      else case sanitize_admin_return_target (gv_valid_host G) (rq_admin_return rq) of
        Inl _ \<Rightarrow> (Refused 500, b)
      | Inr None \<Rightarrow> (Proceed, b)
      | Inr (Some target) \<Rightarrow>
          (let label = take 80 (py_strip (or_empty (rq_admin_label rq)));
               b1 = b\<lparr>br_return_url := Some target,
                      br_return_label := Some (if label = [] then ''Voltar ao Cliente 360'' else label)\<rparr>
           in (Proceed, if or_empty (rq_view_slug rq) \<noteq> [] then b1\<lparr>br_return_slug := rq_view_slug rq\<rparr> else b1)))"

definition open_paths :: "string list" where
  "open_paths = [''/static/'', ''/healthz'', ''/auth/logout'', ''/auth/forgot-password'', ''/auth/reset-password/'',
     ''/auth/force-password-change'']"

definition guard_force_password_change :: "guard_env \<Rightarrow> http_request \<Rightarrow> guard" where
  "guard_force_password_change G rq b =
     (if list_ex (\<lambda>p. prefix p (rq_path rq)) open_paths then (Proceed, b)
      else let uid = or_empty (se_user_id (br_auth b)) in
        if uid = [] then (Proceed, b)
        else case find (\<lambda>u. u_id u = uid \<and> u_is_active u = Some True) (gv_users G) of
          Some u \<Rightarrow> if u_must_change_password u then (SentToForceChange, b) else (Proceed, b)
        | None \<Rightarrow> (Proceed, b))"

definition guard_inactive_tenant_access :: "guard_env \<Rightarrow> http_request \<Rightarrow> guard" where
  "guard_inactive_tenant_access G rq b =
     (if is_super b then (Proceed, b)
      else if \<not> prefix ''/tenant/'' (rq_path rq) then (Proceed, b)
      else if or_empty (rq_view_slug rq) = [] then (Proceed, b)
      else case find (\<lambda>t. Some (t_slug t) = rq_view_slug rq) (gv_tenants G) of
        None \<Rightarrow> (Proceed, b)
      | Some t \<Rightarrow>
          if flag (t_is_active t) then (Proceed, b)
          else (SentToLogin
                  (if t_deleted_at t \<noteq> None then ''Este cliente foi movido para a lixeira e n'' @ [CHR 0xE3] @ ''o est'' @ [CHR 0xE1] @ '' dispon'' @ [CHR 0xED] @ ''vel.''
                   else if t_billing_blocked_at t \<noteq> None
                   then ''Cliente bloqueado por inadimplencia. Entre em contato com o suporte para reativacao.''
                   else ''Este cliente esta desativado. Entre em contato com o suporte.''),
                empty_browser))"

fun replace_first :: "string \<Rightarrow> string \<Rightarrow> string \<Rightarrow> string" where
  "replace_first old new [] = []"
| "replace_first old new (c # s) =
     (if prefix old (c # s) then new @ drop (length old) (c # s) else c # replace_first old new s)"

definition enforce_https :: "guard_env \<Rightarrow> http_request \<Rightarrow> guard" where
  "enforce_https G rq b =
     (if py_lower (gv_app_env G) = ''development'' then (Proceed, b)
      else let host = takeWhile (\<lambda>c. c \<noteq> CHR '':'') (or_empty (rq_host rq));
               proto = py_lower (case rq_forwarded_proto rq of None \<Rightarrow> ''http'' | Some p \<Rightarrow> p)
           in if rq_is_secure rq \<or> proto = ''https'' then (Proceed, b)
              else if host \<in> {''127.0.0.1'', ''localhost'', ''168.194.14.85''} then (Proceed, b)
              else (SentTo (replace_first ''http://'' ''https://'' (rq_url rq)), b))"

text \<open>The functions run in order; the first that answers ends the request.\<close>

fun run_guards :: "guard list \<Rightarrow> guard" where
  "run_guards [] b = (Proceed, b)"
| "run_guards (g # gs) b = (case g b of (Proceed, b') \<Rightarrow> run_guards gs b' | stop \<Rightarrow> stop)"

definition guards_of :: "guard_env \<Rightarrow> http_request \<Rightarrow> guard list" where
  "guards_of G rq = [csrf_protect rq, track_superadmin_origin G rq, guard_force_password_change G rq,
     guard_inactive_tenant_access G rq, enforce_https G rq]"

definition before_request :: "guard_env \<Rightarrow> http_request \<Rightarrow> guard" where
  "before_request G rq = run_guards (guards_of G rq)"

section \<open>The roles of a page\<close>

datatype page_guard = LoginRequired | TenantAdminRequired | TenantOperatorRequired | SuperAdminRequired | TenantOwnerRequired

text \<open>\<open>True\<close> lets the request through to the page.\<close>

fun page_allows :: "page_guard \<Rightarrow> web_session \<Rightarrow> bool" where
  "page_allows LoginRequired ss \<longleftrightarrow> se_user_id ss \<noteq> None"
| "page_allows TenantAdminRequired ss \<longleftrightarrow> se_user_id ss \<noteq> None \<and>
     se_user_role ss \<in> {Some SUPER_ADMIN, Some TENANT_OWNER, Some TENANT_ADMIN}"
| "page_allows TenantOperatorRequired ss \<longleftrightarrow> se_user_id ss \<noteq> None \<and>
     se_user_role ss \<in> {Some SUPER_ADMIN, Some TENANT_OWNER, Some TENANT_ADMIN, Some TENANT_TECHNICIAN}"
| "page_allows SuperAdminRequired ss \<longleftrightarrow> se_user_id ss \<noteq> None \<and> se_user_role ss = Some SUPER_ADMIN"
| "page_allows TenantOwnerRequired ss \<longleftrightarrow> se_user_id ss \<noteq> None \<and> se_user_role ss \<in> {Some SUPER_ADMIN, Some TENANT_OWNER}"

section \<open>Lemmas\<close>

lemma run_guards_proceed:
  "run_guards (g # gs) b = (Proceed, b'') \<longleftrightarrow> (\<exists>b'. g b = (Proceed, b') \<and> run_guards gs b' = (Proceed, b''))"
  by (auto split: prod.splits verdict.splits)

lemma csrf_keeps: "csrf_protect rq b = (v, b') \<Longrightarrow> b' = b"
  by (auto simp: csrf_protect_def Let_def split: if_splits)

lemma track_keeps: "track_superadmin_origin G rq b = (v, b') \<Longrightarrow> br_auth b' = br_auth b"
  by (auto simp: track_superadmin_origin_def Let_def split: if_splits sum.splits option.splits)

lemma force_keeps: "guard_force_password_change G rq b = (v, b') \<Longrightarrow> b' = b"
  by (auto simp: guard_force_password_change_def Let_def split: if_splits option.splits)

lemma before_request_proceeds:
  assumes "before_request G rq b = (Proceed, b')"
  obtains b1 where "br_auth b1 = br_auth b" "csrf_protect rq b = (Proceed, b)"
    "guard_force_password_change G rq b1 = (Proceed, b1)" "guard_inactive_tenant_access G rq b1 = (Proceed, b1)" "b' = b1"
proof -
  from assms obtain b0 b1 b2 b3 where c: "csrf_protect rq b = (Proceed, b0)" and t: "track_superadmin_origin G rq b0 = (Proceed, b1)"
    and f: "guard_force_password_change G rq b1 = (Proceed, b2)" and i: "guard_inactive_tenant_access G rq b2 = (Proceed, b3)"
    and h: "enforce_https G rq b3 = (Proceed, b')"
    by (auto simp: before_request_def guards_of_def split: prod.splits verdict.splits)
  have "b0 = b" using csrf_keeps [OF c] .
  moreover have "br_auth b1 = br_auth b0" using track_keeps [OF t] .
  moreover have "b2 = b1" using force_keeps [OF f] .
  moreover have "b3 = b2"
    using i by (auto simp: guard_inactive_tenant_access_def split: if_splits option.splits)
  moreover have "b' = b3"
    using h by (auto simp: enforce_https_def Let_def split: if_splits)
  ultimately show thesis using that c f i by auto
qed

lemma inactive_tenant_refused:
  assumes "\<not> is_super b" "prefix ''/tenant/'' (rq_path rq)" "rq_view_slug rq = Some slug" "slug \<noteq> []"
    and "find (\<lambda>t. Some (t_slug t) = rq_view_slug rq) (gv_tenants G) = Some t" "\<not> flag (t_is_active t)"
  shows "fst (before_request G rq b) \<noteq> Proceed"
proof
  assume "fst (before_request G rq b) = Proceed"
  then obtain b' where "before_request G rq b = (Proceed, b')" by (cases "before_request G rq b") auto
  then obtain b1 where "br_auth b1 = br_auth b" "guard_inactive_tenant_access G rq b1 = (Proceed, b1)"
    by (rule before_request_proceeds)
  with assms show False by (auto simp: guard_inactive_tenant_access_def is_super_def or_empty_def)
qed

text \<open>A row is found again by a unique column.\<close>

lemma find_unique: "distinct (map f xs) \<Longrightarrow> x \<in> set xs \<Longrightarrow> find (\<lambda>y. f y = f x) xs = Some x"
  by (induction xs) (auto simp: image_iff)

text \<open>A tenant after the pass that blocked it.\<close>

lemma blocked_row:
  assumes "enforce_access_policy True now ts = (c, ts')" "i < length ts" "in_scope (ts ! i)"
    and "ev_should_block (evaluate_tenant (ts ! i) now)"
  shows "\<not> flag (t_is_active (ts' ! i))" "t_id (ts' ! i) = t_id (ts ! i)" "t_slug (ts' ! i) = t_slug (ts ! i)"
    and "ts' ! i \<in> set ts'"
proof -
  have ts': "ts' = fst (enforce_all now ts)" using assms(1) by (auto simp: enforce_access_policy_def split: prod.splits)
  then have row: "ts' ! i = fst (enforce_one now (ts ! i))"
    using enforce_all_nth [OF assms(2), of now] assms(3) by simp
  show "\<not> flag (t_is_active (ts' ! i))"
    using blocked_stays [OF assms(4) order_refl] row by simp
  show "t_id (ts' ! i) = t_id (ts ! i)" "t_slug (ts' ! i) = t_slug (ts ! i)"
    using assms(4) by (simp_all add: row enforce_one_def Let_def)
  show "ts' ! i \<in> set ts'" using assms(2) by (simp add: ts' enforce_all_length)
qed

lemma enforce_one_keeps: "t_id (fst (enforce_one now t)) = t_id t" "t_slug (fst (enforce_one now t)) = t_slug t"
  by (simp_all add: enforce_one_def Let_def)

lemma enforce_keeps_keys:
  assumes "enforce_access_policy True now ts = (c, ts')"
  shows "map t_id ts' = map t_id ts" "map t_slug ts' = map t_slug ts"
proof -
  have one: "t_id t' = t_id t \<and> t_slug t' = t_slug t" if "enforce_one now t = (t', d)" for t t' d
    using that enforce_one_keeps [of now t] by simp
  have "map t_id (fst (enforce_all now ts)) = map t_id ts" "map t_slug (fst (enforce_all now ts)) = map t_slug ts"
    by (induction ts) (auto split: prod.splits dest!: one)
  then show "map t_id ts' = map t_id ts" "map t_slug ts' = map t_slug ts"
    using assms by (auto simp: enforce_access_policy_def split: prod.splits)
qed

end
