(* ===== verification/Upload.thy ===== *)
theory Upload
  imports Redis
begin

text \<open>
  The receiver of configurations that network equipment uploads (\<open>olt_config_upload\<close> in
  \<open>src/app/__init__.py\<close>): a token in Redis names the file that may be written once. With it, the part of
  \<open>os.path\<close> for POSIX that decides where the file goes: \<open>join\<close>, \<open>normpath\<close>, \<open>abspath\<close>. Symbolic links are not
  followed by these functions, nor here. The file system is a list of paths with their contents; whether a
  path can be written is an argument.
\<close>

section \<open>Paths\<close>

abbreviation slash :: char where
  "slash \<equiv> CHR ''/''"

definition path_join :: "string \<Rightarrow> string \<Rightarrow> string" where
  "path_join a b =
     (if prefix ''/'' b then b else if a = [] \<or> last a = slash then a @ b else a @ slash # b)"

definition initial_slashes :: "string \<Rightarrow> nat" where
  "initial_slashes p = (if \<not> prefix ''/'' p then 0 else if prefix ''//'' p \<and> \<not> prefix ''///'' p then 2 else 1)"

text \<open>One component more, on the reversed list of those kept.\<close>

definition norm_comp :: "bool \<Rightarrow> string \<Rightarrow> string list \<Rightarrow> string list" where
  "norm_comp rooted c acc =
     (if c = [] \<or> c = ''.'' then acc
      else if c \<noteq> ''..'' \<or> (\<not> rooted \<and> acc = []) \<or> (acc \<noteq> [] \<and> hd acc = ''..'') then c # acc
      else tl acc)"

definition normpath :: "string \<Rightarrow> string" where
  "normpath p =
     (if p = [] then ''.''
      else let k = initial_slashes p;
               r = replicate k slash @ py_join slash (rev (fold (norm_comp (k > 0)) (py_split slash p) []))
           in if r = [] then ''.'' else r)"

definition abspath :: "string \<Rightarrow> string \<Rightarrow> string" where
  "abspath cwd p = normpath (path_join cwd p)"

definition storage_root :: "string \<Rightarrow> string" where
  "storage_root cwd = abspath cwd (path_join (path_join cwd ''storage'') ''backups'')"

section \<open>The upload\<close>

datatype upload_reply = Uploaded string int | HttpError int

record 'w receiver =
  rc_redis :: 'w
  rc_files :: "(string \<times> string) list"

definition on_redis :: "('w, 'a) io \<Rightarrow> ('w receiver, 'a) io" where
  "on_redis m s = (let (a, w) = m (rc_redis s) in (a, s\<lparr>rc_redis := w\<rparr>))"

definition olt_upload_key :: "string \<Rightarrow> string" where
  "olt_upload_key token = ''backup_center:olt_upload:'' @ token"

text \<open>\<open>meta.get(...)\<close> raises on anything but an object.\<close>

definition as_object :: "pyval \<Rightarrow> ('s, pydict) io" where
  "as_object v = (case v of PDict d \<Rightarrow> io_ret d | _ \<Rightarrow> io_raise)"

definition write_file :: "(string \<Rightarrow> bool) \<Rightarrow> string \<Rightarrow> string \<Rightarrow> ('w receiver, unit) io" where
  "write_file writable path payload s =
     (if writable path then (Some (), s\<lparr>rc_files := AList.update path payload (rc_files s)\<rparr>) else (None, s))"

definition io_int :: "pyval \<Rightarrow> ('s, int) io" where
  "io_int v = (case val_int v of None \<Rightarrow> io_raise | Some i \<Rightarrow> io_ret i)"

text \<open>From the description the token stands for to the reply.\<close>

definition store_upload ::
  "'w redis \<Rightarrow> string \<Rightarrow> (string \<Rightarrow> bool) \<Rightarrow> string \<Rightarrow> string \<Rightarrow> string \<Rightarrow> pydict \<Rightarrow> ('w receiver, upload_reply) io" where
  "store_upload R cwd writable key filename payload meta =
     (let target_path = abspath cwd (str_or_empty (dget meta ''path'')) in
      if \<not> prefix (storage_root cwd @ ''/'') target_path
      then io_seq (on_redis (r_delete R [key])) (io_ret (HttpError 400))
      else
        io_bind (io_int (if truthy (dget meta ''max_bytes'') then dget meta ''max_bytes'' else PInt (20 * 1024 * 1024))) (\<lambda>max_bytes.
        if payload = [] then io_ret (HttpError 400)
        else if int (length payload) > max_bytes then io_ret (HttpError 413)
        else
          io_seq (write_file writable target_path payload)
         (io_seq (on_redis (r_delete R [key]))
            (io_ret (Uploaded filename (int (length payload)))))))"

definition olt_config_upload ::
  "'w redis option \<Rightarrow> string \<Rightarrow> (string \<Rightarrow> bool) \<Rightarrow> string \<Rightarrow> string \<Rightarrow> string \<Rightarrow> ('w receiver, upload_reply) io" where
  "olt_config_upload client cwd writable token filename payload =
     (case client of
        None \<Rightarrow> io_ret (HttpError 503)
      | Some R \<Rightarrow>
          (let key = olt_upload_key token in
           io_bind (on_redis (r_get R key)) (\<lambda>raw_meta.
           if \<not> rv_truthy raw_meta then io_ret (HttpError 404)
           else case json_loads (the raw_meta) of
             None \<Rightarrow> io_seq (on_redis (r_delete R [key])) (io_ret (HttpError 400))
           | Some v \<Rightarrow> io_bind (as_object v) (store_upload R cwd writable key filename payload))))"

section \<open>Where a normalised path leads\<close>

definition plain_comp :: "string \<Rightarrow> bool" where
  "plain_comp c \<longleftrightarrow> c \<noteq> [] \<and> c \<noteq> ''.'' \<and> c \<noteq> ''..'' \<and> slash \<notin> set c"

lemma norm_comp_plain:
  "list_all plain_comp acc \<Longrightarrow> slash \<notin> set c \<Longrightarrow> list_all plain_comp (norm_comp True c acc)"
  by (cases acc) (auto simp: norm_comp_def plain_comp_def)

lemma norm_comps_plain:
  "list_all plain_comp acc \<Longrightarrow> list_all (\<lambda>c. slash \<notin> set c) cs \<Longrightarrow> list_all plain_comp (fold (norm_comp True) cs acc)"
  by (induction cs arbitrary: acc) (auto simp: norm_comp_plain)

lemma normpath_rooted:
  assumes "prefix ''/'' p"
  obtains k cs where "normpath p = replicate k slash @ py_join slash cs" "list_all plain_comp cs" "0 < k"
proof -
  let ?k = "initial_slashes p"
  let ?cs = "rev (fold (norm_comp True) (py_split slash p) [])"
  have k: "0 < ?k" using assms by (simp add: initial_slashes_def)
  have "list_all (\<lambda>c. slash \<notin> set c) (py_split slash p)"
    using py_split_no_sep by (auto simp: list_all_iff)
  then have "list_all plain_comp (fold (norm_comp True) (py_split slash p) [])"
    by (rule norm_comps_plain [rotated]) simp
  then have "list_all plain_comp ?cs" by (simp add: list_all_iff)
  moreover have "normpath p = replicate ?k slash @ py_join slash ?cs"
    using k assms by (auto simp: normpath_def Let_def)
  ultimately show thesis using k that by blast
qed

lemma py_split_slashes: "py_split sep (replicate k sep @ s) = replicate k [] @ py_split sep s"
  by (induction k) auto

lemma split_comps_plain:
  "list_all plain_comp cs \<Longrightarrow> c \<in> set (py_split slash (replicate k slash @ py_join slash cs)) \<Longrightarrow> c = [] \<or> plain_comp c"
proof (cases "cs = []")
  case True
  then show "c \<in> set (py_split slash (replicate k slash @ py_join slash cs)) \<Longrightarrow> c = [] \<or> plain_comp c"
    using py_split_slashes [of slash k "[]"] by auto
next
  case False
  assume plain: "list_all plain_comp cs" and c: "c \<in> set (py_split slash (replicate k slash @ py_join slash cs))"
  have "list_all (\<lambda>w. slash \<notin> set w) cs" using plain by (auto simp: list_all_iff plain_comp_def)
  then have "py_split slash (py_join slash cs) = cs" using py_split_join False by blast
  with c plain show "c = [] \<or> plain_comp c"
    by (auto simp: py_split_slashes list_all_iff split: if_splits)
qed

text \<open>A path below a directory: it starts with the directory, and no component leads up again.\<close>

definition below :: "string \<Rightarrow> string \<Rightarrow> bool" where
  "below dir path \<longleftrightarrow> prefix (dir @ ''/'') path \<and> ''..'' \<notin> set (py_split slash path)"

lemma abspath_no_parent:
  assumes "prefix ''/'' cwd"
  shows "''..'' \<notin> set (py_split slash (abspath cwd p))"
proof -
  have "prefix ''/'' (path_join cwd p)"
    using assms by (auto simp: path_join_def)
  then obtain k cs where "normpath (path_join cwd p) = replicate k slash @ py_join slash cs" "list_all plain_comp cs"
    by (rule normpath_rooted)
  with split_comps_plain [of cs "''..''" k] show ?thesis by (auto simp: abspath_def plain_comp_def)
qed

section \<open>What an upload changes\<close>

lemma on_redis_run: "on_redis m s = (fst (m (rc_redis s)), s\<lparr>rc_redis := snd (m (rc_redis s))\<rparr>)"
  by (simp add: on_redis_def Let_def split_beta)

text \<open>The meta data an upload with a token would act on.\<close>

definition ticket :: "string \<Rightarrow> store \<Rightarrow> pydict option" where
  "ticket token st = (case fst (st_get (olt_upload_key token) st) of
     Some (Some v) \<Rightarrow> (case json_loads v of Some (PDict d) \<Rightarrow> Some d | _ \<Rightarrow> None) | _ \<Rightarrow> None)"

definition ticket_path :: "string \<Rightarrow> pydict \<Rightarrow> string" where
  "ticket_path cwd meta = abspath cwd (str_or_empty (dget meta ''path''))"

definition ticket_max :: "pydict \<Rightarrow> int option" where
  "ticket_max meta = val_int (if truthy (dget meta ''max_bytes'') then dget meta ''max_bytes'' else PInt (20 * 1024 * 1024))"

context redis_server
begin

lemma get_run: "fst (r_get R k w) = fst (st_get k (view w))" "view (snd (r_get R k w)) = view w"
  using io_sim_fst [OF sim_get] io_sim_snd [OF sim_get]
  by (auto simp: st_get_def split: option.splits prod.splits rdata.splits)

lemma delete_run: "fst (r_delete R ks w) = Some ()" "view (snd (r_delete R ks w)) = foldr st_del ks (view w)"
  using io_sim_fst [OF sim_delete] io_sim_snd [OF sim_delete] by (auto simp: st_delete_def)

lemma redis_steps:
  "io_bind (on_redis (r_get R k)) f s = (case fst (st_get k (view (rc_redis s))) of
     None \<Rightarrow> (None, s\<lparr>rc_redis := snd (r_get R k (rc_redis s))\<rparr>)
   | Some g \<Rightarrow> f g (s\<lparr>rc_redis := snd (r_get R k (rc_redis s))\<rparr>))"
  "io_seq (on_redis (r_delete R ks)) m s = m (s\<lparr>rc_redis := snd (r_delete R ks (rc_redis s))\<rparr>)"
  by (simp_all add: io_bind_def io_seq_def on_redis_run get_run(1) delete_run(1) split: option.split)

lemma store_upload_cases:
  assumes run: "store_upload R cwd writable key filename payload meta s = (r, s')"
  shows "(rc_files s' = rc_files s \<and> (\<nexists>f n. r = Some (Uploaded f n))) \<or>
    (\<exists>m. ticket_max meta = Some m \<and> payload \<noteq> [] \<and> int (length payload) \<le> m \<and>
      prefix (storage_root cwd @ ''/'') (ticket_path cwd meta) \<and>
      rc_files s' = AList.update (ticket_path cwd meta) payload (rc_files s) \<and> st_find key (view (rc_redis s')) = None)"
proof (cases "prefix (storage_root cwd @ ''/'') (ticket_path cwd meta)")
  case False
  with run show ?thesis by (auto simp: store_upload_def Let_def ticket_path_def redis_steps io_ret_def)
next
  case inside: True
  show ?thesis
  proof (cases "ticket_max meta")
    case None
    with run inside show ?thesis
      by (auto simp: store_upload_def Let_def ticket_path_def ticket_max_def io_int_def io_bind_def io_raise_def)
  next
    case (Some m)
    with run inside have "(if payload = [] then io_ret (HttpError 400)
        else if int (length payload) > m then io_ret (HttpError 413)
        else io_seq (write_file writable (ticket_path cwd meta) payload)
          (io_seq (on_redis (r_delete R [key])) (io_ret (Uploaded filename (int (length payload)))))) s = (r, s')"
      by (auto simp: store_upload_def Let_def ticket_path_def ticket_max_def io_int_def split: if_splits)
    with inside Some show ?thesis
      by (auto simp: io_ret_def write_file_def io_seq_def [of "write_file _ _ _"] io_bind_def [of "write_file _ _ _"] redis_steps
          delete_run split: if_splits)
  qed
qed

lemma upload_cases:
  assumes run: "olt_config_upload (Some R) cwd writable token filename payload s = (r, s')"
  shows "(rc_files s' = rc_files s \<and> (\<nexists>f n. r = Some (Uploaded f n))) \<or>
    (\<exists>meta m. ticket token (view (rc_redis s)) = Some meta \<and> ticket_max meta = Some m \<and> payload \<noteq> [] \<and> int (length payload) \<le> m \<and>
      prefix (storage_root cwd @ ''/'') (ticket_path cwd meta) \<and>
      rc_files s' = AList.update (ticket_path cwd meta) payload (rc_files s) \<and>
      st_find (olt_upload_key token) (view (rc_redis s')) = None)"
proof (cases "ticket token (view (rc_redis s))")
  case None
  define g where "g = fst (st_get (olt_upload_key token) (view (rc_redis s)))"
  have raise: "io_bind (as_object v) f s1 = (None, s1)" if "\<nexists>d. v = PDict d" for v f and s1 :: "'s receiver"
    using that by (cases v) (auto simp: as_object_def io_bind_def io_raise_def)
  have "rc_files s' = rc_files s \<and> (\<nexists>f n. r = Some (Uploaded f n))"
  proof (cases "\<exists>v w. g = Some (Some v) \<and> json_loads v = Some w")
    case True
    then obtain v w where v: "g = Some (Some v)" "json_loads v = Some w" by blast
    with None have "\<nexists>d. w = PDict d" by (auto simp: ticket_def g_def)
    with v run show ?thesis
      by (auto simp: raise olt_config_upload_def Let_def redis_steps g_def io_ret_def split: if_splits)
  next
    case False
    with run show ?thesis
      by (auto simp: olt_config_upload_def Let_def redis_steps g_def io_ret_def rv_truthy_def split: option.splits if_splits)
  qed
  then show ?thesis by simp
next
  case (Some meta)
  then obtain v where v: "fst (st_get (olt_upload_key token) (view (rc_redis s))) = Some (Some v)" "json_loads v = Some (PDict meta)"
    by (auto simp: ticket_def split: option.splits pyval.splits)
  then have "rv_truthy (Some v)" by (cases v) (auto simp: rv_truthy_def json_loads_def)
  with v run have "store_upload R cwd writable (olt_upload_key token) filename payload meta
     (s\<lparr>rc_redis := snd (r_get R (olt_upload_key token) (rc_redis s))\<rparr>) = (r, s')"
    by (simp add: olt_config_upload_def Let_def redis_steps as_object_def)
  from store_upload_cases [OF this] Some show ?thesis by auto
qed

end

section \<open>Properties\<close>

text \<open>The receiver of uploads is confined. Whatever the description of a token says, a request writes at most
  one file: the one the token names, below the storage directory and with no step back up in its path, not
  empty and no longer than the token allows. An upload that is acknowledged has used its token up: the next
  request with it is answered 404 and writes nothing.\<close>

theorem upload_confined:
  assumes "redis_server R view" and "prefix ''/'' cwd"
    and "olt_config_upload (Some R) cwd writable token filename payload s = (r, s')"
  shows "(rc_files s' = rc_files s \<or>
     (\<exists>meta m. ticket token (view (rc_redis s)) = Some meta \<and> ticket_max meta = Some m \<and>
       payload \<noteq> [] \<and> int (length payload) \<le> m \<and> below (storage_root cwd) (ticket_path cwd meta) \<and>
       rc_files s' = AList.update (ticket_path cwd meta) payload (rc_files s))) \<and>
   (r = Some (Uploaded f n) \<longrightarrow>
     (\<exists>s''. olt_config_upload (Some R) cwd writable' token filename' payload' s' = (Some (HttpError 404), s'') \<and>
       rc_files s'' = rc_files s'))"
proof (intro conjI impI)
  have inside: "below (storage_root cwd) (ticket_path cwd meta)" if "prefix (storage_root cwd @ ''/'') (ticket_path cwd meta)" for meta
    using that abspath_no_parent [OF assms(2)] by (simp add: below_def ticket_path_def)
  show "rc_files s' = rc_files s \<or>
     (\<exists>meta m. ticket token (view (rc_redis s)) = Some meta \<and> ticket_max meta = Some m \<and>
       payload \<noteq> [] \<and> int (length payload) \<le> m \<and> below (storage_root cwd) (ticket_path cwd meta) \<and>
       rc_files s' = AList.update (ticket_path cwd meta) payload (rc_files s))"
    using redis_server.upload_cases [OF assms(1,3)] inside by blast
  assume "r = Some (Uploaded f n)"
  then have gone: "st_find (olt_upload_key token) (view (rc_redis s')) = None"
    using redis_server.upload_cases [OF assms(1,3)] by blast
  then show "\<exists>s''. olt_config_upload (Some R) cwd writable' token filename' payload' s' = (Some (HttpError 404), s'') \<and>
       rc_files s'' = rc_files s'"
    by (simp add: olt_config_upload_def Let_def redis_server.redis_steps [OF assms(1)] st_get_def rv_truthy_def io_ret_def)
qed

definition sample_receiver :: "store receiver" where
  "sample_receiver = \<lparr>rc_redis = \<lparr>st_now = 0, st_data = [(olt_upload_key ''k'',
     DStr (RJson (PDict [(''path'', PStr ''storage/backups/x/../olt.cfg'')])), None)]\<rparr>, rc_files = []\<rparr>"

lemma sample_upload:
  "olt_config_upload (Some mem_redis) ''/app'' (\<lambda>_. True) ''k'' ''olt.cfg'' ''abc'' sample_receiver =
     (Some (Uploaded ''olt.cfg'' 3), \<lparr>rc_redis = \<lparr>st_now = 0, st_data = []\<rparr>, rc_files = [(''/app/storage/backups/olt.cfg'', ''abc'')]\<rparr>)"
  by code_simp

theorem upload_confined_witness:
  "\<exists>s''. olt_config_upload (Some mem_redis) ''/app'' (\<lambda>_. True) ''k'' ''olt.cfg'' ''again''
     (snd (olt_config_upload (Some mem_redis) ''/app'' (\<lambda>_. True) ''k'' ''olt.cfg'' ''abc'' sample_receiver)) =
     (Some (HttpError 404), s'') \<and> rc_files s'' = [(''/app/storage/backups/olt.cfg'', ''abc'')]"
  using upload_confined [OF mem.redis_server_axioms _ sample_upload,
      of "''olt.cfg''" 3 "\<lambda>_. True" "''olt.cfg''" "''again''"] sample_upload
  by simp

end
