(* ===== verification/ExternalApi.thy ===== *)
theory ExternalApi
  imports Billing
begin

text \<open>
  The API for other systems: the tokens (\<open>src/app/services/api_token_service.py\<close>), the tenant a caller is let
  in for (\<open>src/app/api/v1/external/auth.py\<close>) and the three requests it can make
  (\<open>src/app/api/v1/external/routes.py\<close>).

  The tables are lists of rows in the record \<open>ext_db\<close>. Hashing of tokens (passlib), the random token, the file
  system and the order the database gives to names (its collation) are arguments. Rows with the same creation
  instant keep the order of the table; a row without one comes first, as in PostgreSQL's descending order. An
  HTTP error is \<open>Inl\<close> of its status, an exception of the handler the status 500.
\<close>

section \<open>Tokens\<close>

record api_token =
  tk_id :: string
  tk_tenant_id :: string
  tk_user_id :: string
  tk_name :: string
  tk_prefix :: string
  tk_hash :: string
  tk_is_active :: "bool option"
  tk_last_used_at :: "naive option"
  tk_expires_at :: "naive option"
  tk_created_at :: "naive option"

record ext_env =
  xe_hash :: "string \<Rightarrow> string"
  xe_verify :: "string \<Rightarrow> string \<Rightarrow> bool option"
  xe_now :: naive
  xe_exists :: "string \<Rightarrow> bool"
  xe_by_name :: "device_group list \<Rightarrow> device_group list"

definition TOKEN_PREFIX :: string where
  "TOKEN_PREFIX = ''bc_''"

definition is_expired :: "ext_env \<Rightarrow> api_token \<Rightarrow> bool" where
  "is_expired E k = (case tk_expires_at k of None \<Rightarrow> False | Some t \<Rightarrow> xe_now E > t)"

text \<open>\<open>random\<close> is the answer of \<open>secrets.token_urlsafe(40)\<close>, \<open>new_id\<close> the fresh key of the row.\<close>

definition create_token ::
  "ext_env \<Rightarrow> string \<Rightarrow> string \<Rightarrow> string \<Rightarrow> string \<Rightarrow> string \<Rightarrow> naive option \<Rightarrow> api_token list \<Rightarrow> (api_token \<times> string) \<times> api_token list" where
  "create_token E random new_id tenant_id user_id name expires_at ks =
     (let raw = TOKEN_PREFIX @ random;
          k = \<lparr>tk_id = new_id, tk_tenant_id = tenant_id, tk_user_id = user_id, tk_name = name, tk_prefix = take 12 raw,
               tk_hash = xe_hash E raw, tk_is_active = Some True, tk_last_used_at = None, tk_expires_at = expires_at,
               tk_created_at = Some (xe_now E)\<rparr>
      in ((k, raw), ks @ [k]))"

text \<open>The loop over the candidates: \<open>None\<close> when checking a hash raises.\<close>

fun match_token :: "ext_env \<Rightarrow> string \<Rightarrow> api_token list \<Rightarrow> api_token option option" where
  "match_token E raw [] = Some None"
| "match_token E raw (k # ks) =
     (case xe_verify E raw (tk_hash k) of
        None \<Rightarrow> None
      | Some True \<Rightarrow> Some (if is_expired E k then None else Some k)
      | Some False \<Rightarrow> match_token E raw ks)"

definition is_candidate :: "string \<Rightarrow> api_token \<Rightarrow> bool" where
  "is_candidate raw k \<longleftrightarrow> tk_prefix k = take 12 raw \<and> tk_is_active k = Some True"

definition verify_token :: "ext_env \<Rightarrow> string \<Rightarrow> api_token list \<Rightarrow> api_token option option \<times> api_token list" where
  "verify_token E raw ks =
     (if raw = [] \<or> \<not> prefix TOKEN_PREFIX raw then (Some None, ks)
      else case match_token E raw (filter (is_candidate raw) ks) of
        None \<Rightarrow> (None, ks)
      | Some None \<Rightarrow> (Some None, ks)
      | Some (Some k) \<Rightarrow>
          (Some (Some (k\<lparr>tk_last_used_at := Some (xe_now E)\<rparr>)),
           map (\<lambda>x. if tk_id x = tk_id k then x\<lparr>tk_last_used_at := Some (xe_now E)\<rparr> else x) ks))"

definition newest_first :: "('a \<Rightarrow> naive option) \<Rightarrow> 'a list \<Rightarrow> 'a list" where
  "newest_first created rows =
     filter (\<lambda>r. created r = None) rows @ sort_key (\<lambda>r. - the (created r)) (filter (\<lambda>r. created r \<noteq> None) rows)"

definition list_tokens :: "api_token list \<Rightarrow> string \<Rightarrow> api_token list" where
  "list_tokens ks tenant_id = newest_first tk_created_at (filter (\<lambda>k. tk_tenant_id k = tenant_id) ks)"

definition get_token :: "api_token list \<Rightarrow> string \<Rightarrow> string \<Rightarrow> api_token option" where
  "get_token ks token_id tenant_id = find (\<lambda>k. tk_id k = token_id \<and> tk_tenant_id k = tenant_id) ks"

definition revoke_token :: "string \<Rightarrow> string \<Rightarrow> api_token list \<Rightarrow> bool \<times> api_token list" where
  "revoke_token token_id tenant_id ks =
     (if get_token ks token_id tenant_id = None then (False, ks)
      else (True, map (\<lambda>k. if tk_id k = token_id then k\<lparr>tk_is_active := Some False\<rparr> else k) ks))"

section \<open>The caller's tenant\<close>

record ext_db =
  xd_tenants :: "tenant list"
  xd_groups :: "device_group list"
  xd_devices :: "device list"
  xd_backups :: "backup list"
  xd_tokens :: "api_token list"

definition get_current_api_tenant :: "ext_env \<Rightarrow> string option \<Rightarrow> ext_db \<Rightarrow> (int + tenant) \<times> ext_db" where
  "get_current_api_tenant E credentials db =
     (case credentials of
        None \<Rightarrow> (Inl 401, db)
      | Some raw \<Rightarrow>
          (case verify_token E raw (xd_tokens db) of
             (None, ks) \<Rightarrow> (Inl 500, db)
           | (Some None, ks) \<Rightarrow> (Inl 401, db)
           | (Some (Some k), ks) \<Rightarrow>
               (case find (\<lambda>t. t_id t = tk_tenant_id k \<and> t_is_active t = Some True) (xd_tenants db) of
                  None \<Rightarrow> Inl 403
                | Some t \<Rightarrow> Inr t, db\<lparr>xd_tokens := ks\<rparr>)))"

section \<open>The requests\<close>

definition in_group :: "string \<Rightarrow> device \<Rightarrow> bool" where
  "in_group gid d = (case d_group d of None \<Rightarrow> False | Some g \<Rightarrow> g_id g = gid)"

definition device_of :: "ext_db \<Rightarrow> backup \<Rightarrow> device option" where
  "device_of db b = find (\<lambda>d. d_id d = b_device_id b) (xd_devices db)"

text \<open>The backups joined with the devices that satisfy a condition.\<close>

definition backups_of :: "ext_db \<Rightarrow> (device \<Rightarrow> bool) \<Rightarrow> (backup \<Rightarrow> bool) \<Rightarrow> backup list" where
  "backups_of db of_device P =
     filter (\<lambda>b. P b \<and> (case device_of db b of None \<Rightarrow> False | Some d \<Rightarrow> of_device d)) (xd_backups db)"

record group_item =
  gi_id :: string
  gi_name :: string
  gi_device_count :: int
  gi_last_backup_at :: "string option"

definition group_entry :: "ext_db \<Rightarrow> device_group \<Rightarrow> int + group_item" where
  "group_entry db g =
     (let count = int (length (filter (\<lambda>d. in_group (g_id g) d \<and> d_is_active d = Some True) (xd_devices db)))
      in case newest_first b_created_at (backups_of db (in_group (g_id g)) (\<lambda>b. b_status b = SUCCESS)) of
           [] \<Rightarrow> Inr \<lparr>gi_id = g_id g, gi_name = g_name g, gi_device_count = count, gi_last_backup_at = None\<rparr>
         | b # _ \<Rightarrow>
             (case b_created_at b of
                None \<Rightarrow> Inl 500
              | Some t \<Rightarrow> Inr \<lparr>gi_id = g_id g, gi_name = g_name g, gi_device_count = count, gi_last_backup_at = Some (isoformat t)\<rparr>))"

fun all_right :: "('e + 'a) list \<Rightarrow> 'e + 'a list" where
  "all_right [] = Inr []"
| "all_right (x # xs) = (case x of Inl e \<Rightarrow> Inl e | Inr a \<Rightarrow> (case all_right xs of Inl e \<Rightarrow> Inl e | Inr as \<Rightarrow> Inr (a # as)))"

definition list_groups :: "ext_env \<Rightarrow> ext_db \<Rightarrow> tenant \<Rightarrow> int + (int \<times> group_item list)" where
  "list_groups E db t =
     (case all_right (map (group_entry db)
         (xe_by_name E (filter (\<lambda>g. g_tenant_id g = t_id t \<and> g_is_active g = Some True) (xd_groups db)))) of
        Inl e \<Rightarrow> Inl e
      | Inr items \<Rightarrow> Inr (int (length items), items))"

definition backup_status_of :: "string \<Rightarrow> backup_status option" where
  "backup_status_of s =
     map_of [(''pending'', PENDING), (''in_progress'', IN_PROGRESS), (''success'', SUCCESS), (''failed'', FAILED)] s"

definition status_value :: "backup_status \<Rightarrow> string" where
  "status_value st = (case st of PENDING \<Rightarrow> ''pending'' | IN_PROGRESS \<Rightarrow> ''in_progress'' | SUCCESS \<Rightarrow> ''success'' | FAILED \<Rightarrow> ''failed'')"

record backup_item =
  bi_id :: string
  bi_device_id :: "string option"
  bi_device_name :: "string option"
  bi_status :: string
  bi_file_size_bytes :: "int option"
  bi_hash_sha256 :: "string option"
  bi_created_at :: "string option"
  bi_download_url :: string

definition backup_entry :: "ext_db \<Rightarrow> backup \<Rightarrow> backup_item" where
  "backup_entry db b =
     \<lparr>bi_id = b_id b, bi_device_id = map_option d_id (device_of db b), bi_device_name = map_option d_name (device_of db b),
      bi_status = status_value (b_status b), bi_file_size_bytes = b_file_size_bytes b, bi_hash_sha256 = b_hash_sha256 b,
      bi_created_at = map_option isoformat (b_created_at b),
      bi_download_url = ''/api/v1/external/backups/'' @ b_id b @ ''/download''\<rparr>"

record backup_page =
  bp_group :: string
  bp_page :: int
  bp_per_page :: int
  bp_total :: int
  bp_pages :: int
  bp_items :: "backup_item list"

text \<open>The query without its page, and the page of it.\<close>

definition group_backups :: "ext_db \<Rightarrow> tenant \<Rightarrow> string \<Rightarrow> backup_status \<Rightarrow> backup list" where
  "group_backups db t gid st =
     newest_first b_created_at (backups_of db (\<lambda>d. in_group gid d \<and> d_tenant_id d = t_id t) (\<lambda>b. b_status b = st))"

definition page_of :: "ext_db \<Rightarrow> string \<Rightarrow> int \<Rightarrow> int \<Rightarrow> backup list \<Rightarrow> backup_page" where
  "page_of db name page per_page rows =
     (let total = int (length rows)
      in \<lparr>bp_group = name, bp_page = page, bp_per_page = per_page, bp_total = total,
          bp_pages = (if total > 0 then (total + per_page - 1) div per_page else 0),
          bp_items = map (backup_entry db) (take (nat per_page) (drop (nat ((page - 1) * per_page)) rows))\<rparr>)"

definition list_group_backups :: "ext_db \<Rightarrow> tenant \<Rightarrow> string \<Rightarrow> int \<Rightarrow> int \<Rightarrow> string \<Rightarrow> int + backup_page" where
  "list_group_backups db t group_id page per_page status =
     (if page < 1 \<or> per_page < 1 \<or> per_page > 200 then Inl 422
      else case parse_uuid group_id of
        None \<Rightarrow> Inl 400
      | Some gid \<Rightarrow>
          (case find (\<lambda>g. g_id g = gid \<and> g_tenant_id g = t_id t \<and> g_is_active g = Some True) (xd_groups db) of
             None \<Rightarrow> Inl 404
           | Some g \<Rightarrow>
               (case backup_status_of status of
                  None \<Rightarrow> Inl 400
                | Some st \<Rightarrow>
                    Inr (page_of db (g_name g) page per_page (group_backups db t gid st)))))"

text \<open>Where the file of a backup lies (also \<open>DiffService.resolve_backup_path\<close>), and the path that is sent.\<close>

definition resolve_backup_path :: "backup \<Rightarrow> string option" where
  "resolve_backup_path b =
     (let p = or_empty (b_file_path b) in
      if p = [] then None else if prefix ''/'' p then Some p else Some (''/app/storage/backups/'' @ p))"

definition download_backup :: "ext_env \<Rightarrow> ext_db \<Rightarrow> tenant \<Rightarrow> string \<Rightarrow> int + string" where
  "download_backup E db t backup_id =
     (case parse_uuid backup_id of
        None \<Rightarrow> Inl 400
      | Some bid \<Rightarrow>
          (case find (\<lambda>b. b_id b = bid) (xd_backups db) of
             None \<Rightarrow> Inl 404
           | Some b \<Rightarrow>
               (case device_of db b of
                  None \<Rightarrow> Inl 404
                | Some d \<Rightarrow>
                    if d_tenant_id d \<noteq> t_id t then Inl 404
                    else if b_status b \<noteq> SUCCESS then Inl 400
                    else (case resolve_backup_path b of
                        None \<Rightarrow> Inl 404
                      | Some path \<Rightarrow> if \<not> xe_exists E path then Inl 404 else Inr path))))"

datatype ext_request = ListGroups | ListBackups string int int string | Download string

datatype ext_answer = Groups int "group_item list" | Page backup_page | File string

definition answer :: "('a \<Rightarrow> ext_answer) \<Rightarrow> int + 'a \<Rightarrow> int + ext_answer" where
  "answer f r = (case r of Inl e \<Rightarrow> Inl e | Inr a \<Rightarrow> Inr (f a))"

text \<open>A request with the credentials of its header.\<close>

definition external_request :: "ext_env \<Rightarrow> string option \<Rightarrow> ext_request \<Rightarrow> ext_db \<Rightarrow> (int + ext_answer) \<times> ext_db" where
  "external_request E credentials rq db =
     (case get_current_api_tenant E credentials db of
        (Inl e, db') \<Rightarrow> (Inl e, db')
      | (Inr t, db') \<Rightarrow>
          (case rq of
             ListGroups \<Rightarrow> answer (\<lambda>(n, items). Groups n items) (list_groups E db' t)
           | ListBackups gid page per_page status \<Rightarrow> answer Page (list_group_backups db' t gid page per_page status)
           | Download bid \<Rightarrow> answer File (download_backup E db' t bid), db'))"

section \<open>Whose rows an answer shows\<close>

lemma find_SomeD: "find P xs = Some x \<Longrightarrow> x \<in> set xs \<and> P x"
  by (induction xs) (auto split: if_splits)

lemma match_token_cases:
  "match_token E raw ks = Some (Some k) \<Longrightarrow> k \<in> set ks \<and> xe_verify E raw (tk_hash k) = Some True \<and> \<not> is_expired E k"
  by (induction ks) (auto split: option.splits bool.splits if_splits)

lemma verify_token_cases:
  fixes k :: api_token
  assumes "verify_token E raw ks = (Some (Some k), ks')"
  obtains k0 where "k0 \<in> set ks" "is_candidate raw k0" "xe_verify E raw (tk_hash k0) = Some True" "\<not> is_expired E k0"
    "tk_tenant_id k = tk_tenant_id k0"
proof -
  have "\<exists>k0. match_token E raw (filter (is_candidate raw) ks) = Some (Some k0) \<and> tk_tenant_id k = tk_tenant_id k0"
  proof (cases "raw = [] \<or> \<not> prefix TOKEN_PREFIX raw")
    case True
    with assms show ?thesis by (simp add: verify_token_def)
  next
    case False
    with assms show ?thesis by (auto simp: verify_token_def simp del: prefix_def split: option.splits)
  qed
  then obtain k0 where k0: "match_token E raw (filter (is_candidate raw) ks) = Some (Some k0)" "tk_tenant_id k = tk_tenant_id k0"
    by blast
  have "k0 \<in> set ks \<and> is_candidate raw k0" using match_token_cases [OF k0(1)] by auto
  then show thesis using match_token_cases [OF k0(1)] k0(2) by (intro that [of k0]) blast+
qed

lemma caller_cases:
  assumes "get_current_api_tenant E cred db = (Inr t, db')"
  obtains raw k where "cred = Some raw" "k \<in> set (xd_tokens db)" "tk_is_active k = Some True" "\<not> is_expired E k"
    "xe_verify E raw (tk_hash k) = Some True" "t \<in> set (xd_tenants db)" "t_id t = tk_tenant_id k" "t_is_active t = Some True"
    "\<exists>ks. db' = db\<lparr>xd_tokens := ks\<rparr>"
proof -
  from assms obtain raw k ks where cred: "cred = Some raw" and v: "verify_token E raw (xd_tokens db) = (Some (Some k), ks)"
    and t: "find (\<lambda>t. t_id t = tk_tenant_id k \<and> t_is_active t = Some True) (xd_tenants db) = Some t"
    and db': "db' = db\<lparr>xd_tokens := ks\<rparr>"
    by (auto simp: get_current_api_tenant_def split: option.splits prod.splits)
  from v obtain k0 where k0: "k0 \<in> set (xd_tokens db)" "is_candidate raw k0" "xe_verify E raw (tk_hash k0) = Some True"
      "\<not> is_expired E k0" "tk_tenant_id k = tk_tenant_id k0"
    by (rule verify_token_cases)
  from t have "t \<in> set (xd_tenants db)" "t_id t = tk_tenant_id k" "t_is_active t = Some True"
    using find_SomeD by fastforce+
  with k0 cred db' show thesis by (intro that [of raw k0]) (auto simp: is_candidate_def)
qed

lemma set_newest_first [simp]: "set (newest_first created rows) = set rows"
  by (auto simp: newest_first_def)

lemma all_right_ids: "all_right (map f xs) = Inr ys \<Longrightarrow> y \<in> set ys \<Longrightarrow> \<exists>x \<in> set xs. f x = Inr y"
  by (induction xs arbitrary: ys) (auto split: sum.splits)

text \<open>The rows of a tenant.\<close>

definition tenant_group :: "ext_db \<Rightarrow> string \<Rightarrow> string \<Rightarrow> bool" where
  "tenant_group db tid gid \<longleftrightarrow> (\<exists>g \<in> set (xd_groups db). g_id g = gid \<and> g_tenant_id g = tid \<and> g_is_active g = Some True)"

definition tenant_backup :: "ext_db \<Rightarrow> string \<Rightarrow> backup \<Rightarrow> bool" where
  "tenant_backup db tid b \<longleftrightarrow> b \<in> set (xd_backups db) \<and> (\<exists>d. device_of db b = Some d \<and> d_tenant_id d = tid)"

fun shows_only :: "ext_db \<Rightarrow> string \<Rightarrow> ext_answer \<Rightarrow> bool" where
  "shows_only db tid (Groups n items) \<longleftrightarrow> (\<forall>i \<in> set items. tenant_group db tid (gi_id i))"
| "shows_only db tid (Page p) \<longleftrightarrow> (\<forall>i \<in> set (bp_items p). \<exists>b. tenant_backup db tid b \<and> i = backup_entry db b)"
| "shows_only db tid (File path) \<longleftrightarrow> (\<exists>b. tenant_backup db tid b \<and> b_status b = SUCCESS \<and>
     resolve_backup_path b = Some path)"

lemma rows_of_tokens [simp]:
  "device_of (db\<lparr>xd_tokens := ks\<rparr>) = device_of db" "backup_entry (db\<lparr>xd_tokens := ks\<rparr>) = backup_entry db"
  "tenant_group (db\<lparr>xd_tokens := ks\<rparr>) = tenant_group db" "tenant_backup (db\<lparr>xd_tokens := ks\<rparr>) = tenant_backup db"
  by (auto simp: device_of_def backup_entry_def tenant_group_def tenant_backup_def fun_eq_iff)

lemma shows_only_tokens [simp]: "shows_only (db\<lparr>xd_tokens := ks\<rparr>) tid a = shows_only db tid a"
  by (cases a) auto

lemma group_entry_id: "group_entry db g = Inr i \<Longrightarrow> gi_id i = g_id g"
  by (auto simp: group_entry_def Let_def split: list.splits option.splits)

lemma list_groups_shows:
  assumes "list_groups E db t = Inr (n, items)" "\<And>gs. set (xe_by_name E gs) = set gs" "i \<in> set items"
  shows "tenant_group db (t_id t) (gi_id i)"
proof -
  from assms(1) have "all_right (map (group_entry db)
      (xe_by_name E (filter (\<lambda>g. g_tenant_id g = t_id t \<and> g_is_active g = Some True) (xd_groups db)))) = Inr items"
    by (auto simp: list_groups_def split: sum.splits)
  from all_right_ids [OF this assms(3)] assms(2) group_entry_id show ?thesis
    by (fastforce simp: tenant_group_def)
qed

lemma group_backups_shows: "b \<in> set (group_backups db t gid st) \<Longrightarrow> tenant_backup db (t_id t) b"
  by (auto simp: group_backups_def backups_of_def tenant_backup_def split: option.splits)

lemma list_backups_shows:
  assumes "list_group_backups db t gid page per_page status = Inr p" "i \<in> set (bp_items p)"
  shows "\<exists>b. tenant_backup db (t_id t) b \<and> i = backup_entry db b"
proof -
  obtain g st name where "p = page_of db name page per_page (group_backups db t g st)"
    using assms(1) by (auto simp: list_group_backups_def split: if_splits option.splits)
  with assms(2) obtain b where "b \<in> set (group_backups db t g st)" "i = backup_entry db b"
    by (auto simp: page_of_def Let_def dest!: in_set_takeD in_set_dropD)
  with group_backups_shows show ?thesis by blast
qed

lemma download_shows:
  assumes "download_backup E db t bid = Inr path"
  shows "\<exists>b. tenant_backup db (t_id t) b \<and> b_status b = SUCCESS \<and> resolve_backup_path b = Some path"
  using assms find_SomeD
  by (fastforce simp: download_backup_def tenant_backup_def split: option.splits if_splits)

section \<open>Pages\<close>

lemma take_drop_pages:
  "0 < k \<Longrightarrow> length xs \<le> n * k \<Longrightarrow> concat (map (\<lambda>i. take k (drop (i * k) xs)) [0..<n]) = xs"
proof (induction n arbitrary: xs)
  case (Suc n)
  have "[0..<Suc n] = 0 # map Suc [0..<n]" by (simp only: upt_conv_Cons map_Suc_upt zero_less_Suc)
  then have "concat (map (\<lambda>i. take k (drop (i * k) xs)) [0..<Suc n]) =
      take k xs @ concat (map (\<lambda>i. take k (drop (i * k) (drop k xs))) [0..<n])"
    by (simp add: o_def drop_drop add.commute)
  also have "concat (map (\<lambda>i. take k (drop (i * k) (drop k xs))) [0..<n]) = drop k xs"
    using Suc.prems by (intro Suc.IH) auto
  finally show ?case by simp
qed simp

lemma pages_from_one: "map f [1..int n] = map (\<lambda>i. f (int i + 1)) [0..<n]"
proof (induction n)
  case (Suc n)
  have "[1..int (Suc n)] = [1..int n] @ [int n + 1]"
    by (subst upto_rec2) simp_all
  with Suc show ?case by simp
qed simp

lemma page_count:
  assumes "0 < k"
  shows "int (length rows) \<le> ((int (length rows) + int k - 1) div int k) * int k"
proof -
  have "(int (length rows) + int k - 1) mod int k < int k" using assms by simp
  then have "int (length rows) + int k - 1 - ((int (length rows) + int k - 1) div int k) * int k < int k"
    by (simp add: minus_div_mult_eq_mod)
  then show ?thesis by simp
qed

definition items_of :: "int + backup_page \<Rightarrow> backup_item list" where
  "items_of r = (case r of Inl _ \<Rightarrow> [] | Inr p \<Rightarrow> bp_items p)"

lemma pages_concat:
  fixes k :: nat
  assumes k: "0 < k"
  shows "concat (map (\<lambda>i. bp_items (page_of db name i (int k) rows)) [1..bp_pages (page_of db name 1 (int k) rows)]) =
    map (backup_entry db) rows"
proof (cases "rows = []")
  case True
  then show ?thesis by (simp add: page_of_def Let_def)
next
  case False
  define n where "n = nat ((int (length rows) + int k - 1) div int k)"
  have "0 \<le> (int (length rows) + int k - 1) div int k" using k by (simp add: pos_imp_zdiv_nonneg_iff)
  then have n: "bp_pages (page_of db name 1 (int k) rows) = int n"
    using False by (simp add: page_of_def Let_def n_def)
  then have "int (length rows) \<le> int n * int k"
    using page_count [OF k, of rows] False by (simp add: page_of_def Let_def)
  then have len: "length (map (backup_entry db) rows) \<le> n * k" by (simp flip: of_nat_mult)
  have "bp_items (page_of db name (int i + 1) (int k) rows) = take k (drop (i * k) (map (backup_entry db) rows))" for i
    by (simp add: page_of_def Let_def take_map drop_map nat_mult_distrib)
  then have "map (\<lambda>i. bp_items (page_of db name i (int k) rows)) [1..int n] =
      map (\<lambda>i. take k (drop (i * k) (map (backup_entry db) rows))) [0..<n]"
    by (simp add: pages_from_one)
  with n take_drop_pages [OF k len] show ?thesis by simp
qed

section \<open>Properties\<close>

text \<open>C25: The external API keeps the tenants apart. Whatever is asked, an answer that is not an error was given to a
  caller that showed a token whose stored hash it matches, active and not expired; its tenant is active;
  and every group, every backup and the file in the answer belong to this tenant.\<close>

theorem external_api_isolated:
  assumes "external_request E credentials rq db = (Inr ans, db')" and "\<And>gs. set (xe_by_name E gs) = set gs"
  shows "\<exists>raw k t. credentials = Some raw \<and> k \<in> set (xd_tokens db) \<and> tk_is_active k = Some True \<and> \<not> is_expired E k \<and>
    xe_verify E raw (tk_hash k) = Some True \<and> t \<in> set (xd_tenants db) \<and> t_id t = tk_tenant_id k \<and>
    t_is_active t = Some True \<and> shows_only db (t_id t) ans"
proof -
  from assms(1) obtain t where caller: "get_current_api_tenant E credentials db = (Inr t, db')"
    by (auto simp: external_request_def split: prod.splits sum.splits)
  then obtain raw k where k: "credentials = Some raw" "k \<in> set (xd_tokens db)" "tk_is_active k = Some True"
    "\<not> is_expired E k" "xe_verify E raw (tk_hash k) = Some True" "t \<in> set (xd_tenants db)" "t_id t = tk_tenant_id k"
    "t_is_active t = Some True" and db': "\<exists>ks. db' = db\<lparr>xd_tokens := ks\<rparr>"
    by (rule caller_cases)
  have "shows_only db' (t_id t) ans"
    using assms list_groups_shows list_backups_shows download_shows caller
    by (fastforce simp: external_request_def answer_def split: ext_request.splits sum.splits)
  with db' have "shows_only db (t_id t) ans" by auto
  with k show ?thesis by blast
qed

definition sample_env :: ext_env where
  "sample_env = \<lparr>xe_hash = \<lambda>r. r, xe_verify = \<lambda>r h. Some (r = h), xe_now = 1000, xe_exists = \<lambda>_. True, xe_by_name = \<lambda>gs. gs\<rparr>"

definition sample_uuid :: string where
  "sample_uuid = ''11111111-1111-1111-1111-111111111111''"

definition sample_token :: api_token where
  "sample_token = \<lparr>tk_id = ''k'', tk_tenant_id = ''t'', tk_user_id = ''u'', tk_name = ''erp'', tk_prefix = ''bc_123456789'',
     tk_hash = ''bc_123456789abc'', tk_is_active = Some True, tk_last_used_at = None, tk_expires_at = None, tk_created_at = Some 0\<rparr>"

definition sample_backup :: "string \<Rightarrow> naive \<Rightarrow> backup" where
  "sample_backup i created = \<lparr>b_id = i, b_device_id = ''d'', b_file_path = Some ''olt.cfg'', b_file_size_bytes = Some 3,
     b_hash_sha256 = None, b_status = SUCCESS, b_error_message = None, b_started_at = None, b_completed_at = None,
     b_created_at = Some created\<rparr>"

definition sample_ext_db :: ext_db where
  "sample_ext_db = \<lparr>xd_tenants = [blank_tenant], xd_groups = [blank_group\<lparr>g_id := sample_uuid\<rparr>],
     xd_devices = [blank_device\<lparr>d_group := Some (blank_group\<lparr>g_id := sample_uuid\<rparr>)\<rparr>],
     xd_backups = [sample_backup sample_uuid 5, sample_backup ''b2'' 7], xd_tokens = [sample_token]\<rparr>"

lemma sample_download:
  "fst (external_request sample_env (Some ''bc_123456789abc'') (Download sample_uuid) sample_ext_db) =
     Inr (File ''/app/storage/backups/olt.cfg'')"
  by code_simp

theorem external_api_isolated_witness:
  "\<exists>t. t \<in> set (xd_tenants sample_ext_db) \<and> shows_only sample_ext_db (t_id t) (File ''/app/storage/backups/olt.cfg'')"
proof -
  have "external_request sample_env (Some ''bc_123456789abc'') (Download sample_uuid) sample_ext_db =
     (Inr (File ''/app/storage/backups/olt.cfg''),
      snd (external_request sample_env (Some ''bc_123456789abc'') (Download sample_uuid) sample_ext_db))"
    using sample_download by (simp add: prod_eq_iff)
  from external_api_isolated [OF this] show ?thesis by (auto simp: sample_env_def)
qed

text \<open>Paging loses nothing and repeats nothing: the pages from the first to the announced last one, put
  together, are the backups of the group in this status, newest first, each exactly as often as the table
  has it, and the announced total is their number.\<close>

theorem pages_partition_backups:
  assumes "list_group_backups db t group_id 1 per_page status = Inr p"
  shows "\<exists>gid st. parse_uuid group_id = Some gid \<and> backup_status_of status = Some st \<and>
    bp_total p = int (length (group_backups db t gid st)) \<and>
    concat (map (\<lambda>i. items_of (list_group_backups db t group_id i per_page status)) [1..bp_pages p]) =
      map (backup_entry db) (group_backups db t gid st)"
proof -
  from assms obtain gid g st where gid: "parse_uuid group_id = Some gid" and st: "backup_status_of status = Some st"
    and g: "find (\<lambda>g. g_id g = gid \<and> g_tenant_id g = t_id t \<and> g_is_active g = Some True) (xd_groups db) = Some g"
    and p: "p = page_of db (g_name g) 1 per_page (group_backups db t gid st)" and range: "1 \<le> per_page" "per_page \<le> 200"
    by (auto simp: list_group_backups_def split: if_splits option.splits)
  have page: "list_group_backups db t group_id i per_page status = Inr (page_of db (g_name g) i per_page (group_backups db t gid st))"
    if "1 \<le> i" for i
    using that gid st g range by (simp add: list_group_backups_def)
  define k where "k = nat per_page"
  have k: "0 < k" "per_page = int k" using range by (simp_all add: k_def)
  have pages: "map (\<lambda>i. items_of (list_group_backups db t group_id i per_page status)) [1..bp_pages p] =
      map (\<lambda>i. bp_items (page_of db (g_name g) i per_page (group_backups db t gid st))) [1..bp_pages p]"
    by (rule map_cong) (simp_all add: page items_of_def)
  have "concat (map (\<lambda>i. items_of (list_group_backups db t group_id i per_page status)) [1..bp_pages p]) =
      map (backup_entry db) (group_backups db t gid st)"
    unfolding pages using pages_concat [OF k(1), of db "g_name g" "group_backups db t gid st"] k(2) p by simp
  moreover have "bp_total p = int (length (group_backups db t gid st))" by (simp add: p page_of_def Let_def)
  ultimately show ?thesis using gid st by blast
qed

lemma sample_pages:
  "(case list_group_backups sample_ext_db blank_tenant sample_uuid 1 1 ''success'' of Inl _ \<Rightarrow> False | Inr p \<Rightarrow> bp_pages p = 2)"
  by code_simp

theorem pages_partition_backups_witness:
  "\<exists>gid st. backup_status_of ''success'' = Some st \<and>
     concat (map (\<lambda>i. items_of (list_group_backups sample_ext_db blank_tenant sample_uuid i 1 ''success'')) [1..2]) =
       map (backup_entry sample_ext_db) (group_backups sample_ext_db blank_tenant gid st)"
proof -
  obtain p where p: "list_group_backups sample_ext_db blank_tenant sample_uuid 1 1 ''success'' = Inr p" "bp_pages p = 2"
    using sample_pages by (auto split: sum.splits)
  from pages_partition_backups [OF p(1)] p(2) show ?thesis by auto
qed

section \<open>The life of a token\<close>

text \<open>What changes the table of the tokens: a token is created, one is revoked, or a request is answered (which notes its use).\<close>

datatype token_act = Creates string string | Revokes string string | Requests

inductive token_step :: "token_act \<Rightarrow> api_token list \<Rightarrow> api_token list \<Rightarrow> bool" where
  creates: "create_token E random i tid uid name expires ks = ((k, raw), ks') \<Longrightarrow> token_step (Creates i raw) ks ks'"
| revokes: "token_step (Revokes i tid) ks (snd (revoke_token i tid ks))"
| requests: "token_step Requests ks (xd_tokens (snd (external_request E cred rq (db\<lparr>xd_tokens := ks\<rparr>))))"

inductive token_run :: "token_act list \<Rightarrow> api_token list \<Rightarrow> api_token list \<Rightarrow> bool" where
  start: "token_run [] ks ks"
| step: "token_step act ks ks1 \<Longrightarrow> token_run acts ks1 ks' \<Longrightarrow> token_run (act # acts) ks ks'"

text \<open>No other token of the history has this key or these first twelve characters.\<close>

definition elsewhere :: "string \<Rightarrow> string \<Rightarrow> token_act list \<Rightarrow> bool" where
  "elsewhere new_id raw acts \<longleftrightarrow> (\<forall>i r. Creates i r \<in> set acts \<longrightarrow> i \<noteq> new_id \<and> take 12 r \<noteq> take 12 raw)"

lemma elsewhere_simps [simp]: "elsewhere i raw []"
  "elsewhere i raw (act # acts) \<longleftrightarrow> (\<forall>j r. act = Creates j r \<longrightarrow> j \<noteq> i \<and> take 12 r \<noteq> take 12 raw) \<and> elsewhere i raw acts"
  by (auto simp: elsewhere_def)

definition same_token :: "api_token \<Rightarrow> api_token \<Rightarrow> bool" where
  "same_token k k' \<longleftrightarrow> tk_id k' = tk_id k \<and> tk_hash k' = tk_hash k \<and> tk_tenant_id k' = tk_tenant_id k \<and> tk_expires_at k' = tk_expires_at k"

text \<open>The table has the token, and no other that could be taken for it.\<close>

definition holds_token :: "string \<Rightarrow> api_token \<Rightarrow> api_token list \<Rightarrow> bool" where
  "holds_token raw k ks \<longleftrightarrow> (\<exists>k'. filter (is_candidate raw) ks = [k'] \<and> filter (\<lambda>x. tk_id x = tk_id k) ks = [k'] \<and> same_token k k')"

lemma filter_map_same: "(\<And>x. P (f x) = P x) \<Longrightarrow> filter P (map f xs) = map f (filter P xs)"
  by (simp add: filter_map comp_def)

lemma used_rows:
  "\<exists>f. xd_tokens (snd (external_request E cred rq (db\<lparr>xd_tokens := ks\<rparr>))) = map f ks \<and>
     (\<forall>x. is_candidate raw (f x) = is_candidate raw x \<and> same_token x (f x))"
proof -
  have id: "\<exists>f. ks = map f ks \<and> (\<forall>x. is_candidate raw (f x) = is_candidate raw x \<and> same_token x (f x))"
    by (rule exI [of _ "\<lambda>x. x"]) (simp add: same_token_def)
  have used: "\<exists>f. map (\<lambda>x. if tk_id x = i then x\<lparr>tk_last_used_at := u\<rparr> else x) ks = map f ks \<and>
      (\<forall>x. is_candidate raw (f x) = is_candidate raw x \<and> same_token x (f x))" for i u
    by (rule exI [of _ "\<lambda>x. if tk_id x = i then x\<lparr>tk_last_used_at := u\<rparr> else x"]) (simp add: same_token_def is_candidate_def)
  have "xd_tokens (snd (external_request E cred rq (db\<lparr>xd_tokens := ks\<rparr>))) = ks \<or>
      (\<exists>i u. xd_tokens (snd (external_request E cred rq (db\<lparr>xd_tokens := ks\<rparr>))) = map (\<lambda>x. if tk_id x = i then x\<lparr>tk_last_used_at := u\<rparr> else x) ks)"
    by (auto simp: external_request_def get_current_api_tenant_def verify_token_def split: option.splits prod.splits sum.splits if_splits)
  then show ?thesis
  proof (elim disjE exE)
    assume eq: "xd_tokens (snd (external_request E cred rq (db\<lparr>xd_tokens := ks\<rparr>))) = ks"
    show ?thesis unfolding eq by (rule id)
  next
    fix i u
    assume eq: "xd_tokens (snd (external_request E cred rq (db\<lparr>xd_tokens := ks\<rparr>))) = map (\<lambda>x. if tk_id x = i then x\<lparr>tk_last_used_at := u\<rparr> else x) ks"
    show ?thesis unfolding eq by (rule used)
  qed
qed

lemma same_token_trans: "same_token k x \<Longrightarrow> same_token x y \<Longrightarrow> same_token k y"
  by (simp add: same_token_def)

lemma step_holds:
  assumes "token_step act ks ks'" "holds_token raw k ks" "elsewhere (tk_id k) raw [act]" "act \<noteq> Revokes (tk_id k) (tk_tenant_id k)"
  shows "holds_token raw k ks'"
proof -
  from assms(2) obtain k' where k': "filter (is_candidate raw) ks = [k']" "filter (\<lambda>x. tk_id x = tk_id k) ks = [k']" "same_token k k'"
    by (auto simp: holds_token_def)
  show ?thesis
    using assms(1)
  proof (cases rule: token_step.cases)
    case (creates E random i tid uid name expires k1 raw1)
    then have "ks' = ks @ [k1]" "tk_id k1 = i" "tk_prefix k1 = take 12 raw1" by (auto simp: create_token_def Let_def)
    with k' assms(3) creates show ?thesis by (auto simp: holds_token_def is_candidate_def)
  next
    case (revokes i tid)
    show ?thesis
    proof (cases "get_token ks i tid = None")
      case True
      with revokes assms(2) show ?thesis by (simp add: revoke_token_def)
    next
      case False
      have "i \<noteq> tk_id k"
      proof
        assume i: "i = tk_id k"
        with False obtain x where "x \<in> set ks" "tk_id x = tk_id k" "tk_tenant_id x = tid"
          by (auto simp: get_token_def find_None_iff)
        then have "x \<in> set (filter (\<lambda>x. tk_id x = tk_id k) ks)" by simp
        then have "tid = tk_tenant_id k" using k' \<open>tk_tenant_id x = tid\<close> by (simp add: same_token_def)
        with assms(4) revokes i show False by simp
      qed
      let ?f = "\<lambda>x. if tk_id x = i then x\<lparr>tk_is_active := Some False\<rparr> else x"
      have ks': "ks' = map ?f ks" using revokes False by (simp add: revoke_token_def)
      have k'_id: "tk_id k' = tk_id k" using k'(3) by (simp add: same_token_def)
      have "filter (is_candidate raw) (map ?f ks) = filter (is_candidate raw) ks"
      proof (rule trans)
        show "filter (is_candidate raw) (map ?f ks) = map ?f (filter (\<lambda>x. is_candidate raw x \<and> tk_id x \<noteq> i) ks)"
          by (induction ks) (auto simp: is_candidate_def)
        have "filter (\<lambda>x. is_candidate raw x \<and> tk_id x \<noteq> i) ks = filter (\<lambda>x. tk_id x \<noteq> i) (filter (is_candidate raw) ks)"
          by (simp add: conj_commute)
        then show "map ?f (filter (\<lambda>x. is_candidate raw x \<and> tk_id x \<noteq> i) ks) = filter (is_candidate raw) ks"
          using k'(1) k'_id \<open>i \<noteq> tk_id k\<close> by simp
      qed
      moreover have "filter (\<lambda>x. tk_id x = tk_id k) (map ?f ks) = map ?f (filter (\<lambda>x. tk_id x = tk_id k) ks)"
        by (rule filter_map_same) simp
      ultimately show ?thesis using k' k'_id \<open>i \<noteq> tk_id k\<close> by (simp add: holds_token_def ks')
    qed
  next
    case (requests E cred rq db)
    from used_rows [where raw = raw] obtain f where f: "ks' = map f ks" "\<And>x. is_candidate raw (f x) = is_candidate raw x" "\<And>x. same_token x (f x)"
      unfolding requests by metis
    have ids: "tk_id (f x) = tk_id k \<longleftrightarrow> tk_id x = tk_id k" for x using f(3) by (simp add: same_token_def)
    have "filter (is_candidate raw) ks' = [f k']" "filter (\<lambda>x. tk_id x = tk_id k) ks' = [f k']"
      unfolding f(1) using k' f(2) ids by (simp_all add: filter_map_same)
    with same_token_trans [OF k'(3) f(3)] show ?thesis by (auto simp: holds_token_def)
  qed
qed

lemma run_holds:
  assumes "token_run acts ks ks'" "holds_token raw k ks" "elsewhere (tk_id k) raw acts" "Revokes (tk_id k) (tk_tenant_id k) \<notin> set acts"
  shows "holds_token raw k ks'"
  using assms
proof (induction rule: token_run.induct)
  case (step act ks ks1 acts ks')
  then have "holds_token raw k ks1" by (intro step_holds [OF step.hyps(1)]) auto
  with step show ?case by simp
qed

lemma step_gone:
  assumes "token_step act ks ks'" "filter (is_candidate raw) ks = []" "elsewhere i raw [act]"
  shows "filter (is_candidate raw) ks' = []"
  using assms(1)
proof (cases rule: token_step.cases)
  case (creates E random j tid uid name expires k1 raw1)
  then have "ks' = ks @ [k1]" "tk_prefix k1 = take 12 raw1" by (auto simp: create_token_def Let_def)
  with assms(2,3) creates show ?thesis by (simp add: is_candidate_def)
next
  case (revokes j tid)
  with assms(2) show ?thesis by (auto simp: revoke_token_def filter_empty_conv is_candidate_def)
next
  case (requests E cred rq db)
  from used_rows [where raw = raw] obtain f where "ks' = map f ks" "\<And>x. is_candidate raw (f x) = is_candidate raw x"
    unfolding requests by metis
  with assms(2) show ?thesis by (simp add: filter_map_same)
qed

lemma run_gone:
  assumes "token_run acts ks ks'" "filter (is_candidate raw) ks = []" "elsewhere i raw acts"
  shows "filter (is_candidate raw) ks' = []"
  using assms
proof (induction rule: token_run.induct)
  case (step act ks ks1 acts ks')
  then have "filter (is_candidate raw) ks1 = []" by (intro step_gone [OF step.hyps(1), of raw i]) auto
  with step show ?case by simp
qed

lemma fresh_token:
  assumes "create_token E random new_id tenant_id user_id name expires_at ks = ((k, raw), ks1)"
    and "\<forall>x \<in> set ks. tk_id x \<noteq> new_id \<and> \<not> is_candidate raw x"
  shows "holds_token raw k ks1" "tk_id k = new_id" "tk_tenant_id k = tenant_id" "tk_hash k = xe_hash E raw" "tk_expires_at k = expires_at"
    "raw \<noteq> []" "prefix TOKEN_PREFIX raw"
proof -
  have k: "ks1 = ks @ [k]" "is_candidate raw k" "tk_id k = new_id" "raw = TOKEN_PREFIX @ random"
    using assms(1) by (auto simp: create_token_def Let_def is_candidate_def)
  with assms(2) show "holds_token raw k ks1" "tk_id k = new_id"
    by (auto simp: holds_token_def same_token_def filter_empty_conv)
  show "raw \<noteq> []" "prefix TOKEN_PREFIX raw" using k(4) by (simp_all add: TOKEN_PREFIX_def)
  show "tk_tenant_id k = tenant_id" "tk_hash k = xe_hash E raw" "tk_expires_at k = expires_at"
    using assms(1) by (auto simp: create_token_def Let_def)
qed

lemma held_lets_in:
  assumes "holds_token raw k ks" "raw \<noteq> []" "prefix TOKEN_PREFIX raw" "xe_verify E raw (tk_hash k) = Some True"
  shows "fst (get_current_api_tenant E (Some raw) (db\<lparr>xd_tokens := ks\<rparr>)) =
    (if is_expired E k then Inl 401
     else case find (\<lambda>t. t_id t = tk_tenant_id k \<and> t_is_active t = Some True) (xd_tenants db) of None \<Rightarrow> Inl 403 | Some t \<Rightarrow> Inr t)"
proof -
  from assms(1) obtain k' where k': "filter (is_candidate raw) ks = [k']" "tk_hash k' = tk_hash k" "tk_tenant_id k' = tk_tenant_id k"
    "tk_expires_at k' = tk_expires_at k" by (auto simp: holds_token_def same_token_def)
  have "is_expired E k' = is_expired E k" by (simp add: is_expired_def k'(4))
  with assms(2-4) k' show ?thesis
    by (cases "is_expired E k") (simp_all add: get_current_api_tenant_def verify_token_def)
qed

lemma held_revoked:
  assumes "holds_token raw k ks"
  shows "revoke_token (tk_id k) tid ks =
    (if tid = tk_tenant_id k then (True, map (\<lambda>x. if tk_id x = tk_id k then x\<lparr>tk_is_active := Some False\<rparr> else x) ks) else (False, ks))"
    "filter (is_candidate raw) (map (\<lambda>x. if tk_id x = tk_id k then x\<lparr>tk_is_active := Some False\<rparr> else x) ks) = []"
proof -
  from assms obtain k' where k': "filter (is_candidate raw) ks = [k']" "filter (\<lambda>x. tk_id x = tk_id k) ks = [k']" "same_token k k'"
    by (auto simp: holds_token_def)
  have only: "x = k'" if "x \<in> set ks" "tk_id x = tk_id k" for x
  proof -
    from that have "x \<in> set (filter (\<lambda>x. tk_id x = tk_id k) ks)" by simp
    with k'(2) show ?thesis by simp
  qed
  from k'(2) have mem: "k' \<in> set ks" by (metis filter_eq_Cons_iff in_set_conv_decomp)
  have "get_token ks (tk_id k) tid = None \<longleftrightarrow> tid \<noteq> tk_tenant_id k"
    using only mem k'(3) by (auto simp: get_token_def find_None_iff same_token_def)
  then show "revoke_token (tk_id k) tid ks =
    (if tid = tk_tenant_id k then (True, map (\<lambda>x. if tk_id x = tk_id k then x\<lparr>tk_is_active := Some False\<rparr> else x) ks) else (False, ks))"
    by (simp add: revoke_token_def)
  have cand: "x = k'" if "x \<in> set ks" "is_candidate raw x" for x
  proof -
    from that have "x \<in> set (filter (is_candidate raw) ks)" by simp
    with k'(1) show ?thesis by simp
  qed
  show "filter (is_candidate raw) (map (\<lambda>x. if tk_id x = tk_id k then x\<lparr>tk_is_active := Some False\<rparr> else x) ks) = []"
    using cand k'(3) by (auto simp: filter_empty_conv is_candidate_def same_token_def)
qed

text \<open>C34: A token lives until it is revoked. After a token is created (with a key and first twelve characters that no other token
  has or gets), and through any history of tokens created, tokens revoked and requests answered in which its tenant does not revoke
  it, a caller that shows it is let in as its tenant: with 401 once the token has expired, with 403 while no active tenant has its
  key. Nobody but its tenant can revoke it; and once its tenant has revoked it, it is answered 401 through any later history, at any
  time, whatever the hashes say.\<close>

theorem token_lives_until_revoked:
  assumes "create_token E random new_id tenant_id user_id name expires_at ks = ((k, raw), ks1)"
    and "\<forall>x \<in> set ks. tk_id x \<noteq> new_id \<and> \<not> is_candidate raw x" and "elsewhere new_id raw (acts @ later)"
    and "token_run acts ks1 ks2" and "Revokes new_id tenant_id \<notin> set acts"
    and "xe_verify E2 raw (xe_hash E raw) = Some True"
    and "token_run later (snd (revoke_token new_id tenant_id ks2)) ks3"
  shows "fst (get_current_api_tenant E2 (Some raw) (db\<lparr>xd_tokens := ks2\<rparr>)) =
      (if (case expires_at of None \<Rightarrow> False | Some e \<Rightarrow> xe_now E2 > e) then Inl 401
       else case find (\<lambda>t. t_id t = tenant_id \<and> t_is_active t = Some True) (xd_tenants db) of None \<Rightarrow> Inl 403 | Some t \<Rightarrow> Inr t) \<and>
    (other \<noteq> tenant_id \<longrightarrow> revoke_token new_id other ks2 = (False, ks2)) \<and>
    fst (revoke_token new_id tenant_id ks2) \<and>
    fst (get_current_api_tenant E3 (Some raw) (db3\<lparr>xd_tokens := ks3\<rparr>)) = Inl 401"
proof -
  note fresh = fresh_token [OF assms(1,2)]
  have apart: "elsewhere new_id raw acts" "elsewhere new_id raw later" using assms(3) by (auto simp: elsewhere_def)
  have held: "holds_token raw k ks2"
    using run_holds [OF assms(4) fresh(1)] apart(1) assms(5) fresh(2,3) by simp
  note revoked = held_revoked [OF held, unfolded fresh(2,3)]
  have none: "filter (is_candidate raw) ks3 = []"
    by (rule run_gone [OF assms(7) _ apart(2)]) (simp add: revoked)
  have "fst (get_current_api_tenant E3 (Some raw) (db3\<lparr>xd_tokens := ks3\<rparr>)) = Inl 401"
    by (simp add: get_current_api_tenant_def verify_token_def none)
  with held_lets_in [OF held fresh(6,7), of E2 db] revoked(1) assms(6) fresh show ?thesis
    by (simp add: is_expired_def)
qed

theorem token_lives_until_revoked_witness:
  "\<exists>k raw ks1. create_token sample_env ''123456789abc'' ''k'' ''t'' ''u'' ''erp'' None [] = ((k, raw), ks1) \<and>
     fst (get_current_api_tenant sample_env (Some raw) (sample_ext_db\<lparr>xd_tenants := [blank_tenant\<lparr>t_id := ''t''\<rparr>], xd_tokens := ks1\<rparr>)) =
       Inr (blank_tenant\<lparr>t_id := ''t''\<rparr>) \<and>
     fst (get_current_api_tenant sample_env (Some raw) (sample_ext_db\<lparr>xd_tokens := snd (revoke_token ''k'' ''t'' ks1)\<rparr>)) = Inl 401"
proof -
  obtain k raw ks1 where made: "create_token sample_env ''123456789abc'' ''k'' ''t'' ''u'' ''erp'' None [] = ((k, raw), ks1)"
    by (metis prod.collapse)
  have verify: "xe_verify sample_env raw (xe_hash sample_env raw) = Some True" by (simp add: sample_env_def)
  have active: "t_is_active (blank_tenant\<lparr>t_id := ''t''\<rparr>) = Some True" by (simp add: blank_tenant_def)
  note life = token_lives_until_revoked [OF made _ _ token_run.start _ verify token_run.start]
  from life [of "sample_ext_db\<lparr>xd_tenants := [blank_tenant\<lparr>t_id := ''t''\<rparr>]\<rparr>" "[]" sample_env sample_ext_db] active made
  show ?thesis by (auto simp: elsewhere_def)
qed

end
