(* ===== verification/Spec2Isabelle.thy ===== *)
theory Spec2Isabelle
  imports Prelude Regex Calendar PyVal Float64 Redis Footprint Models Diagnostics TaskConfig JumpHost ConnMode Schedule
    LogSanitizer TaskLogs BackupRun BackupTask Faults Vpn VpnSafety GroupRun GroupSafety Dispatch DispatchSafety Phases PhaseSafety BatchStatus BatchSafety Preflight Launch LaunchMore LaunchSafety PlanLimits Executor DeviceRun ExecutorSafety ExecutorCalls BillingPolicy Billing Totp Login LoginSafety Guards Upload ExternalApi
begin

text \<open>
  Backup Center is a service that backs up the configuration of network equipment for many tenants: a Flask and
  FastAPI application (\<open>src/app/web\<close>, \<open>src/app/api\<close>), services on a SQL database and a Redis server
  (\<open>src/app/services\<close>), and Celery workers that run the backups (\<open>src/app/tasks\<close>). This development models the
  program's own decisions: when a backup may run and how it is reported, how shared resources are admitted,
  what plans and payments allow, and who gets in.

  \<^bold>\<open>Conventions.\<close> Text is a list of code points below 256 (\<open>Prelude\<close>). A naive UTC \<open>datetime\<close> is a number of
  microseconds (\<open>Calendar\<close>), a JSON value a \<open>pyval\<close> (\<open>PyVal\<close>), binary64 where the program divides (\<open>Float64\<close>), a regular
  expression a matcher (\<open>Regex\<close>). Rows of the database are the records of \<open>Models\<close>; a query is a list function, a
  commit the new table. A call that may raise or touches Redis is a state transformer \<open>('s, 'a) io\<close> over an
  arbitrary world, \<open>None\<close> being the exception; the Redis client is the record \<open>redis\<close>, and the locales \<open>redis_server\<close>
  and \<open>worker\<close> (\<open>Redis\<close>) say what its commands mean, through a view of the world as a key-value store with expiry.
  They are interpreted on the store itself. \<open>Footprint\<close> (\<open>io_order\<close>, \<open>client_order\<close>) proves once what a program built from
  calls that respect a relation respects. Passlib, itsdangerous, the payment provider, the file system, the scripts
  that talk to equipment, time zones and random tokens are arguments.

  \<^bold>\<open>The backup of a device\<close> (\<open>src/app/tasks/backups.py\<close>). \<open>TaskConfig\<close>: the constants from the environment and the
  retry policy. \<open>JumpHost\<close>: the adaptive slots and the circuit breaker of a jump host; the breaker is proved to refine a
  decision on the abstract window of outcomes. \<open>BackupRun\<close>: stop switch, batches, eligibility, the wait for a slot,
  and the whole task; \<open>BackupTask\<close> shows that every run returns and reports itself, that slots are exclusive and only
  freed by their owner, that the wait ends, and that a device that must not run is never contacted. The wait for a slot
  has a fuel of its rounds: each sleeps a second on a clock that does not go back, the longest configurable wait is
  1800 seconds, so any fuel above it is enough (\<open>slot_wait_ends\<close>, \<open>every_run_is_reported\<close>). \<open>Diagnostics\<close>
  (\<open>backup_diagnostics.py\<close>): failure categories, integrity of a backup, normalised lines. \<open>ConnMode\<close> (\<open>connection_mode.py\<close>,
  \<open>mass_backup_scope.py\<close>): the route to a device. \<open>Schedule\<close> (\<open>schedule_utils.py\<close>): the next run. \<open>TaskLogs\<close>
  (\<open>realtime_backup_logs.py\<close>): task records, the lock of a tenant's batch, the logs and their sequence numbers; the
  pruning loop pops one entry a round, so one more than the length of the list is fuel enough. \<open>LogSanitizer\<close>
  (\<open>log_sanitizer.py\<close>): what is removed from messages.

  \<^bold>\<open>Sites behind a VPN.\<close> \<open>Faults\<close> is the monad of code whose exceptions carry a message, with \<open>try\<close>, \<open>finally\<close> and loops,
  and the triples \<open>f_spec\<close>. \<open>Vpn\<close> is all of \<open>vpn_service.py\<close>: commands of NetworkManager, the lock, the session's
  profile and its clean-up. \<open>VpnSafety\<close> states what the code relies on as the locales \<open>vpn_clock\<close> and \<open>nm_host\<close> and shows
  that a session leaves no profile, no active connection and no held lock of its own. \<open>GroupRun\<close> is the task that backs
  up a group inside one session (\<open>run_vpn_group_backups_task\<close>); \<open>GroupSafety\<close> shows that it accounts for every device.
  The waits have the fuel of their deadline: a round sleeps at least a second, the lock is waited for
  at most its timeout and a lease is refreshed at most 21600 seconds. Fractions in a JSON file of the lock
  are kept as the text they were read as.

  \<^bold>\<open>The execution of a backup\<close> (\<open>backup_executor.py\<close>). \<open>Executor\<close>: the cache of scripts, the directory of a device, the
  parameters of a script with the credentials, the check of the network, the run of the script and the reading of its answer,
  inside the session of \<open>Vpn\<close> where there is one (\<open>execute_backup\<close>). \<open>DeviceRun\<close>: the run for a device
  (\<open>run_backup_for_device_id\<close>) with the integrity of \<open>Diagnostics\<close>, the quota of \<open>PlanLimits\<close>, the class of a failure, and
  what is committed, once more when the connection is lost. The records \<open>exec_env\<close> and \<open>device_env\<close> hold the file system, the import
  and the call of a script, decryption, the probe, queries and commits; queries are answered by one look at the tables, and
  the commit that ends the first of them changes nothing. \<open>ExecutorSafety\<close> calls \<open>settles\<close> what leaves a part of the world alone
  and, in the locales \<open>executor_host\<close> and \<open>device_host\<close> (queries show the tables, a commit is applied or refused as a whole),
  shows that a run always answers and what row it leaves, and what stands behind a success; the fuel is the one of the
  waits of the VPN session. It runs a whole backup on an example and shows there that a commit whose answer is lost is done twice.
  \<open>ExecutorCalls\<close>: the directory stays below the base, the cache of scripts follows the files, the entries of the device,
  and when no script is called.

  \<^bold>\<open>From a schedule to the tasks, and the batch.\<close> \<open>Dispatch\<close> (\<open>tasks/backups.py\<close>) is the pass over the schedules and the task
  of a group: the broker is an argument, and the rows a pass changes are kept apart from the tables until its commit,
  as the session does. \<open>DispatchSafety\<close>: which device is queued, once, and that a batch is not repeated, for a zone of
  constant offset. \<open>Phases\<close> holds the two tasks that start the groups behind jump hosts and the VPN groups when the
  phase before is over; \<open>PhaseSafety\<close> proves the order in the locale \<open>phase_host\<close>, which rests on an outbox that only the
  broker writes. \<open>BatchStatus\<close> (\<open>web/tenant/backups.py\<close>) aggregates the results of the child tasks into the record of the
  batch, shows it and cancels it; \<open>BatchSafety\<close>: the counters fit together and never go back, a finished batch accounts
  for every device, and pages are closed to other tenants. Counters are not negative; fractions in a result
  are kept as decimal text.

  \<^bold>\<open>Starting a batch\<close> (\<open>web/tenant/devices.py\<close>). \<open>Preflight\<close>: which devices the last connection tests and a probe of the jump
  hosts leave out, and the groups of the phases. \<open>Launch\<close> is the page for all devices (\<open>run_backup_all\<close>) with the parts
  that the other pages of \<open>LaunchMore\<close> share: selected devices, devices that failed, one device, and the check of all
  connections. The broker (a message, a chord, the callback alone), the probe, the activity log, addresses and fresh
  identifiers are the record \<open>launcher\<close>. Differences of the pages that only concern their texts are kept. The column
  \<open>extra_parameters\<close> holds an object or null, and a record of a batch no list of pairs where the code calls \<open>dict\<close>. In
  \<open>LaunchSafety\<close> the plan of a batch is shown to be a permutation of its devices, as multisets, and the locale
  \<open>launch_host\<close>, which extends \<open>phase_host\<close> by a broker that also takes chords, proves for the three pages what they send:
  each device once, in the phase its connection asks for, under the lock of the tenant, with the phases of
  \<open>Phases\<close> composed behind. It is interpreted on any machine beside which a box of messages is kept
  (\<open>launching_host\<close>), and the examples run a whole page on such a machine.

  \<^bold>\<open>Plans and payments.\<close> \<open>PlanLimits\<close> (\<open>plan_limits_service.py\<close>, \<open>tenant_access_service.py\<close>): quotas. \<open>BillingPolicy\<close>
  (\<open>billing_policy_service.py\<close>): when a tenant is overdue and blocked, and the periodic pass. \<open>Billing\<close>
  (\<open>web/billing/controller.py\<close>): checkout and the notification of a payment, with the invariant that a tenant has at
  most one open subscription over the step relation \<open>billing_step\<close>.

  \<^bold>\<open>Who gets in.\<close> \<open>Totp\<close> (\<open>core/totp.py\<close>, the password rule of \<open>core/security.py\<close>) with SHA-1, HMAC and base 32 on
  words. \<open>Login\<close> (\<open>web/auth/routes.py\<close>): limiter, login, second factor, reset. \<open>LoginSafety\<close>: a session follows from
  both factors over every interleaving of requests (\<open>browses\<close>), the lockout, and what a reset reveals. \<open>Guards\<close>
  (\<open>app/__init__.py\<close>, \<open>web/auth/decorators.py\<close>): what runs before every request. \<open>Upload\<close> (\<open>olt_config_upload\<close>): where an
  uploaded configuration may be written. \<open>ExternalApi\<close> (\<open>api_token_service.py\<close>, \<open>api/v1/external\<close>): tokens, isolation
  of tenants, paging.

  This theory has the property that crosses these parts: a tenant the billing pass has blocked is out everywhere.

  \<^bold>\<open>Not modelled.\<close> Connections to equipment and the vendor scripts (\<open>_NetmikoJumpHostPatcher\<close> of \<open>backup_executor.py\<close>,
  \<open>jump_host_service.py\<close>, \<open>network_precheck.py\<close>, \<open>scripts/backup_scripts\<close>) are I/O on netmiko, paramiko and subprocesses: the
  call of a script and the probe are arguments, and so is the executor for the task and the group, which need nothing of
  it. The soft time limit of Celery interrupts a task at any instruction and is
  left out. Not modelled are also the forms for devices, groups and subgroups and their services, platform settings,
  the comparison of backups (on \<open>difflib\<close>), registration, the monitoring tasks and the other pages of tenants and
  administrators: parsing of forms, queries and templates. Metrics, the activity log and reports are only written,
  never read by what is modelled. Logging calls
  that cannot change a result are omitted.
\<close>

section \<open>A blocked tenant is out\<close>

lemma tenant_of_row:
  assumes "distinct (map t_id ts)" "t \<in> set ts" "u_tenant_id u = Some (t_id t)"
  shows "tenant_of ts u = Some t"
  using find_unique [OF assms(1,2)] assms(3) by (simp add: tenant_of_def)

lemma blocked_user_refused:
  assumes "tenant_of ts u = Some t" "u_role u \<noteq> SUPER_ADMIN" "\<not> flag (t_is_active t)"
  shows "refused_tenant ts u \<noteq> None"
  using assms by (simp add: refused_tenant_def)

lemma pending_user_found: "pending_user E users pe = Some u \<Longrightarrow> u \<in> set users"
  by (auto simp: pending_user_def split: if_splits option.splits dest: find_SomeD)

lemma refused_user_no_second_factor:
  assumes "u \<in> set (si_users s)" "distinct (map u_id (si_users s))" "refused_tenant (si_tenants s) u \<noteq> None"
  shows "second_factor E req s \<noteq> Some (u_id u)"
proof
  assume "second_factor E req s = Some (u_id u)"
  then obtain v where v: "waiting_user E s = Some v" "refused_tenant (si_tenants s) v = None" "u_id v = u_id u"
    by (auto simp: second_factor_def split: Option.bind_splits if_splits prod.splits)
  then have "v \<in> set (si_users s)"
    using pending_user_found by (auto simp: waiting_user_def split: Option.bind_splits)
  with v(3) assms(1,2) have "v = u" by (auto simp: distinct_map inj_on_def)
  with v(2) assms(3) show False by simp
qed

text \<open>C17: A tenant the billing pass has blocked is out everywhere. After the pass has committed, no request for one of
  its pages gets past the guards, unless a super administrator makes it; no request to the sign-in pages signs
  in one of its users, whatever password or code it carries; and no API token lets anybody in as this tenant.\<close>

theorem blocked_tenant_is_out:
  assumes "enforce_access_policy True now ts = (c, ts')" and "i < length ts" and "in_scope (ts ! i)"
    and "ev_should_block (evaluate_tenant (ts ! i) now)"
    and "distinct (map t_id ts)" and "distinct (map t_slug ts)" and "t_slug (ts ! i) \<noteq> []"
    and "u \<in> set (si_users s)" and "distinct (map u_id (si_users s))" and "u_tenant_id u = Some (t_id (ts ! i))"
    and "u_role u \<noteq> SUPER_ADMIN" and "si_tenants s = ts'" and "gv_tenants G = ts'" and "xd_tenants db = ts'"
    and "\<not> is_super b" and "prefix ''/tenant/'' (rq_path rq)" and "rq_view_slug rq = Some (t_slug (ts ! i))"
  shows "fst (before_request G rq b) \<noteq> Proceed \<and>
    (se_user_id (si_session (snd (handle E req s))) = Some (u_id u) \<longrightarrow> se_user_id (si_session s) = Some (u_id u)) \<and>
    (get_current_api_tenant X credentials db = (Inr t', db') \<longrightarrow> t_id t' \<noteq> t_id (ts ! i))"
proof (intro conjI impI)
  note row = blocked_row [OF assms(1-4)]
  note keys = enforce_keeps_keys [OF assms(1)]
  have ids: "distinct (map t_id ts')" and slugs: "distinct (map t_slug ts')" using keys assms(5,6) by simp_all
  have "find (\<lambda>t. Some (t_slug t) = rq_view_slug rq) (gv_tenants G) = Some (ts' ! i)"
    using find_unique [OF slugs row(4)] row(3) assms(13,17) by simp
  then show "fst (before_request G rq b) \<noteq> Proceed"
    using inactive_tenant_refused [OF assms(15,16,17,7)] row(1) by blast
  have "refused_tenant (si_tenants s) u \<noteq> None"
    using blocked_user_refused [OF tenant_of_row [OF ids row(4)] assms(11) row(1)] row(2) assms(10,12) by simp
  then have none: "second_factor E req s \<noteq> Some (u_id u)"
    by (rule refused_user_no_second_factor [OF assms(8,9)])
  show "se_user_id (si_session s) = Some (u_id u)" if "se_user_id (si_session (snd (handle E req s))) = Some (u_id u)"
  proof -
    let ?U = "\<lambda>uid. se_user_id (si_session s) = Some uid \<or> second_factor E req s = Some uid"
    have "session_within ?U (\<lambda>_. True) s (snd (handle E req s))" by (rule request_session) auto
    then have "session_ok ?U (\<lambda>_. True) (snd (handle E req s))"
      by (auto simp: session_within_def session_ok_def pred_option_def)
    with that none show ?thesis by (simp add: session_ok_def)
  qed
  show "t_id t' \<noteq> t_id (ts ! i)" if call: "get_current_api_tenant X credentials db = (Inr t', db')"
  proof
    assume same: "t_id t' = t_id (ts ! i)"
    from call have "t' \<in> set ts'" "t_is_active t' = Some True" using assms(14) by (auto elim: caller_cases)
    moreover have "t' = ts' ! i"
      using calculation(1) same row(2,4) ids by (auto simp: distinct_map inj_on_def)
    ultimately show False using row(1) by (simp add: flag_def)
  qed
qed

definition late_tenant :: tenant where
  "late_tenant = blank_tenant\<lparr>t_slug := ''acme'', t_trial_ends_at := Some 0\<rparr>"

definition late_owner :: user where
  "late_owner = demo_user\<lparr>u_tenant_id := Some ''t'', u_role := TENANT_OWNER\<rparr>"

definition devices_page :: http_request where
  "devices_page = \<lparr>rq_method = ''GET'', rq_path = ''/tenant/acme/devices'', rq_form_token = None, rq_header_token = None,
     rq_admin_return = None, rq_admin_label = None, rq_view_slug = Some ''acme'', rq_host = None, rq_forwarded_proto = Some ''https'',
     rq_is_secure = True, rq_url = ''/tenant/acme/devices''\<rparr>"

lemma late_tenant_blocked:
  "in_scope late_tenant" "ev_should_block (evaluate_tenant late_tenant (9 * DAY_US))"
  by (simp_all add: late_tenant_def in_scope_def resolve_due_at_def blank_tenant_def evaluate_tenant_def plan_grace_days_def
      blank_plan_def DAY_US_def)

theorem blocked_tenant_is_out_witness:
  "\<exists>ts'. snd (enforce_access_policy True (9 * DAY_US) [late_tenant]) = ts' \<and>
     fst (before_request \<lparr>gv_valid_host = \<lambda>_. True, gv_app_env = ''production'', gv_users = [], gv_tenants = ts'\<rparr>
       devices_page empty_browser) \<noteq> Proceed"
proof -
  obtain c ts' where pass: "enforce_access_policy True (9 * DAY_US) [late_tenant] = (c, ts')" by fastforce
  let ?s = "(demo_site ())\<lparr>si_users := [late_owner], si_tenants := ts'\<rparr>"
  let ?G = "\<lparr>gv_valid_host = \<lambda>_. True, gv_app_env = ''production'', gv_users = [], gv_tenants = ts'\<rparr>"
  have "fst (before_request ?G devices_page empty_browser) \<noteq> Proceed"
    using blocked_tenant_is_out [OF pass, of 0 late_owner ?s ?G "\<lparr>xd_tenants = ts', xd_groups = [], xd_devices = [],
        xd_backups = [], xd_tokens = []\<rparr>" empty_browser devices_page] late_tenant_blocked
    by (simp add: late_owner_def late_tenant_def blank_tenant_def demo_user_def is_super_def empty_browser_def no_session_def
        devices_page_def)
  with pass show ?thesis by simp
qed

end
